(* ===== verification/Prelude.thy ===== *)
theory Prelude
  imports Main "HOL-Library.Multiset"
begin

text \<open>
  What every component theory shares: results of operations that may raise, loops that may
  raise, dictionaries kept in insertion order, and generic facts on lists and sums.

  A Python function that may raise is modelled by a result \<open>'e + 'a\<close>: \<open>Inl e\<close> is the exception,
  \<open>Inr a\<close> the returned value. A \<open>for\<close> loop whose body updates local state and may raise is
  \<open>for_each\<close>. A Python dictionary iterates in insertion order and keeps the position of a key
  that is written again; \<open>dict_set\<close> is that assignment.
\<close>

named_theorems result_simps \<open>how results and loops over results unfold\<close>
named_theorems sum_list_facts \<open>sums over lists\<close>
named_theorems money_simps \<open>amounts of cents and the decimals they denote\<close>

type_synonym ('e, 'a) result = "'e + 'a"
type_synonym ('k, 'v) dict = "('k \<times> 'v) list"

section \<open>Results and loops that may raise\<close>

definition bind_res :: "('e, 'a) result \<Rightarrow> ('a \<Rightarrow> ('e, 'b) result) \<Rightarrow> ('e, 'b) result" where
  "bind_res m f = (case m of Inl e \<Rightarrow> Inl e | Inr a \<Rightarrow> f a)"

lemma bind_res_simps [simp, result_simps]:
  "bind_res (Inl e) f = Inl e"
  "bind_res (Inr a) f = f a"
  by (simp_all add: bind_res_def)

lemma bind_res_Inr_iff [result_simps]:
  "bind_res m f = Inr b \<longleftrightarrow> (\<exists>a. m = Inr a \<and> f a = Inr b)"
  by (cases m) auto

lemma bind_res_InrE:
  assumes "bind_res m f = Inr b"
  obtains a where "m = Inr a" and "f a = Inr b"
  using assms by (auto simp: bind_res_Inr_iff)

lemma bind_res_cong [fundef_cong]:
  "m = m' \<Longrightarrow> (\<And>a. m' = Inr a \<Longrightarrow> f a = f' a) \<Longrightarrow> bind_res m f = bind_res m' f'"
  by (cases m') auto

fun for_each :: "('a \<Rightarrow> 's \<Rightarrow> ('e, 's) result) \<Rightarrow> 'a list \<Rightarrow> 's \<Rightarrow> ('e, 's) result" where
  "for_each f [] s = Inr s"
| "for_each f (x # xs) s = bind_res (f x s) (for_each f xs)"

text \<open>
  The loop rule. The invariant speaks of the elements already handled: it holds before the loop
  and every body keeps it, so it holds of the whole list when the loop returns.
\<close>

lemma for_each_invariant:
  assumes "for_each f xs s = Inr t"
    and "P [] s"
    and "\<And>ys x zs s s'. xs = ys @ x # zs \<Longrightarrow> P ys s \<Longrightarrow> f x s = Inr s' \<Longrightarrow> P (ys @ [x]) s'"
  shows "P xs t"
proof -
  have "P (ys @ zs) t" if "xs = ys @ zs" "P ys s" "for_each f zs s = Inr t" for ys zs s
    using that
  proof (induction zs arbitrary: ys s)
    case Nil
    then show ?case by simp
  next
    case (Cons z zs)
    then obtain s' where "f z s = Inr s'" and rest: "for_each f zs s' = Inr t"
      by (auto elim: bind_res_InrE)
    with Cons.prems have "P (ys @ [z]) s'" by (intro assms(3)) auto
    with Cons.IH [of "ys @ [z]" s'] Cons.prems rest show ?case by simp
  qed
  from this [of "[]" xs s] assms show ?thesis by simp
qed

lemma for_each_preserves:
  assumes "for_each f xs s = Inr t" and "P s"
    and "\<And>x s s'. x \<in> set xs \<Longrightarrow> P s \<Longrightarrow> f x s = Inr s' \<Longrightarrow> P s'"
  shows "P t"
  by (rule for_each_invariant [OF assms(1), of "\<lambda>_. P"]) (auto simp: assms intro: assms(3))

lemma for_each_succeeds:
  assumes "P s"
    and "\<And>x s. x \<in> set xs \<Longrightarrow> P s \<Longrightarrow> \<exists>s'. f x s = Inr s' \<and> P s'"
  shows "\<exists>t. for_each f xs s = Inr t \<and> P t"
  using assms
proof (induction xs arbitrary: s)
  case Nil
  then show ?case by simp
next
  case (Cons x xs)
  then obtain s' where "f x s = Inr s'" "P s'" by fastforce
  with Cons.IH [of s'] Cons.prems(2) show ?case by auto
qed

lemma for_each_append:
  "for_each f (xs @ ys) s = bind_res (for_each f xs s) (for_each f ys)"
proof (induction xs arbitrary: s)
  case Nil
  then show ?case by simp
next
  case (Cons x xs)
  then show ?case by (cases "f x s") auto
qed

text \<open>The same for a loop that cannot raise.\<close>

lemma fold_preserves:
  assumes "P s" and "\<And>x s. x \<in> set xs \<Longrightarrow> P s \<Longrightarrow> P (f x s)"
  shows "P (fold f xs s)"
  using assms by (induction xs arbitrary: s) auto

text \<open>Collecting the results of a body that may raise, in order.\<close>

fun map_res :: "('a \<Rightarrow> ('e, 'b) result) \<Rightarrow> 'a list \<Rightarrow> ('e, 'b list) result" where
  "map_res f [] = Inr []"
| "map_res f (x # xs) =
     bind_res (f x) (\<lambda>y. bind_res (map_res f xs) (\<lambda>ys. Inr (y # ys)))"

lemma map_res_Inr:
  "map_res f xs = Inr ys \<Longrightarrow> list_all2 (\<lambda>x y. f x = Inr y) xs ys"
  by (induction xs arbitrary: ys) (auto simp: bind_res_Inr_iff)

lemma map_res_length: "map_res f xs = Inr ys \<Longrightarrow> length ys = length xs"
  by (auto dest!: map_res_Inr simp: list_all2_lengthD)

section \<open>Dictionaries in insertion order\<close>

fun dict_set :: "'k \<Rightarrow> 'v \<Rightarrow> ('k, 'v) dict \<Rightarrow> ('k, 'v) dict" where
  "dict_set k v [] = [(k, v)]"
| "dict_set k v ((k', v') # d) = (if k = k' then (k, v) # d else (k', v') # dict_set k v d)"

definition dict_get :: "('k, 'v) dict \<Rightarrow> 'k \<Rightarrow> 'v \<Rightarrow> 'v" where
  "dict_get d k v = (case map_of d k of None \<Rightarrow> v | Some x \<Rightarrow> x)"

definition dict_wf :: "('k, 'v) dict \<Rightarrow> bool" where
  "dict_wf d \<longleftrightarrow> distinct (map fst d)"

lemma map_of_dict_set [simp]: "map_of (dict_set k v d) = (map_of d)(k \<mapsto> v)"
  by (induction k v d rule: dict_set.induct) (auto simp: fun_eq_iff)

lemma keys_dict_set [simp]: "fst ` set (dict_set k v d) = insert k (fst ` set d)"
  by (induction k v d rule: dict_set.induct) auto

lemma dict_wf_Nil [simp]: "dict_wf []"
  by (simp add: dict_wf_def)

lemma dict_wf_set [simp, intro]: "dict_wf d \<Longrightarrow> dict_wf (dict_set k v d)"
  unfolding dict_wf_def
proof (induction k v d rule: dict_set.induct)
  case (2 k v k' v' d)
  then show ?case
    by (metis (no_types, lifting) dict_set.simps(2) distinct.simps(2) fst_conv insert_iff
        keys_dict_set list.set_map list.simps(9))
qed simp

lemma dict_get_set [simp]:
  "dict_get (dict_set k v d) k' w = (if k' = k then v else dict_get d k' w)"
  by (simp add: dict_get_def)

lemma dict_get_Nil [simp]: "dict_get [] k v = v"
  by (simp add: dict_get_def)

lemma dict_set_mem: "p \<in> set (dict_set k v d) \<Longrightarrow> p = (k, v) \<or> p \<in> set d"
  by (induction k v d rule: dict_set.induct) (auto split: if_splits)

text \<open>A list indexed by a key, the last element of a key winning.\<close>

lemma index_dict:
  "dict_wf (fold (\<lambda>v d. dict_set (f v) v d) vs [])
   \<and> (\<forall>(k, v) \<in> set (fold (\<lambda>v d. dict_set (f v) v d) vs []). k = f v \<and> v \<in> set vs)
   \<and> fst ` set (fold (\<lambda>v d. dict_set (f v) v d) vs []) = f ` set vs"
proof (induction vs rule: rev_induct)
  case (snoc v vs)
  let ?d = "fold (\<lambda>v d. dict_set (f v) v d) vs []"
  have "\<forall>(k, w) \<in> set (dict_set (f v) v ?d). k = f w \<and> w \<in> set (vs @ [v])"
    using snoc by (fastforce dest: dict_set_mem)
  with snoc show ?case by auto
qed simp

section \<open>Lists and sums\<close>

lemma sum_list_nonneg_int [sum_list_facts]:
  "(\<And>x. x \<in> set xs \<Longrightarrow> 0 \<le> x) \<Longrightarrow> 0 \<le> sum_list (xs :: int list)"
  by (simp add: sum_list_nonneg)

lemma sum_list_list_update [sum_list_facts]:
  "i < length xs \<Longrightarrow> sum_list (xs[i := v]) = sum_list xs - xs ! i + (v :: int)"
proof (induction xs arbitrary: i)
  case (Cons x xs)
  then show ?case by (cases i) auto
qed simp

lemma sum_list_map_nth: "sum_list (map f xs) = (\<Sum>i < length xs. f (xs ! i))"
  by (simp add: sum_list_sum_nth lessThan_atLeast0)

lemma sum_list_upt: "sum_list (map f [0..<n]) = (\<Sum>i < n. f i)"
  by (simp add: lessThan_atLeast0 interv_sum_list_conv_sum_set_nat)

lemma sum_list_partition:
  "sum_list (map f xs) = sum_list (map f (filter P xs)) + sum_list (map f (filter (\<lambda>x. \<not> P x) xs))"
  for f :: "'a \<Rightarrow> int"
  by (induction xs) auto

lemma sorted_le_last: "sorted xs \<Longrightarrow> x \<in> set xs \<Longrightarrow> x \<le> last xs"
  by (induction xs) (auto dest: last_in_set)

text \<open>Python's sorted with a key is stable; so is \<open>sort_key\<close>.\<close>

lemma mset_map_sort_key: "mset (map f (sort_key k xs)) = mset (map f xs)"
  by simp

end
