(* ===== verification/Decimal_Money.thy ===== *)
theory Decimal_Money
  imports Prelude Complex_Main
begin

text \<open>
  Python's \<open>decimal\<close> arithmetic as the program uses it, and \<open>money.py\<close>.

  A \<open>Decimal\<close> is modelled by the rational number it denotes. Every arithmetic operation of the
  default context rounds its exact result to 28 significant digits, ties to even: that rounding
  is \<open>ctx\<close>, and \<open>dadd\<close>, \<open>dsub\<close>, \<open>dmul\<close>, \<open>ddiv\<close> apply it. A value that \<open>money()\<close> has quantized is
  kept as a whole number of cents; sums, differences, minima and comparisons of such values are
  exact while they stay below \<open>10 ^ 28\<close> cents (\<open>ctx_dec\<close>), far above the \<open>Numeric(20, 2)\<close> columns
  that hold them, so the model computes them on the integers. The sign of a zero and the exponent
  of a \<open>Decimal\<close>, which no computation here reads, are not represented.
\<close>

section \<open>Rounding modes\<close>

definition half_up :: "rat \<Rightarrow> int" where
  "half_up x = (if x < 0 then - \<lfloor>- x + 1 / 2\<rfloor> else \<lfloor>x + 1 / 2\<rfloor>)"

definition half_even :: "rat \<Rightarrow> int" where
  "half_even x =
     (let f = \<lfloor>x\<rfloor>; r = x - of_int f in
      if r < 1 / 2 then f else if 1 / 2 < r then f + 1 else if even f then f else f + 1)"

definition away_from_zero :: "rat \<Rightarrow> int" where
  "away_from_zero x = (if x < 0 then \<lfloor>x\<rfloor> else \<lceil>x\<rceil>)"

text \<open>
  The contract the three modes share: whole numbers are kept and order is kept. The two
  half-way modes also stay within one half of the value.
\<close>

locale rounding =
  fixes rnd :: "rat \<Rightarrow> int"
  assumes rnd_int: "rnd (of_int z) = z"
    and rnd_mono: "x \<le> y \<Longrightarrow> rnd x \<le> rnd y"
begin

lemma rnd_le: "x \<le> of_int z \<Longrightarrow> rnd x \<le> z"
  using rnd_mono [of x "of_int z"] by (simp add: rnd_int)

lemma rnd_ge: "of_int z \<le> x \<Longrightarrow> z \<le> rnd x"
  using rnd_mono [of "of_int z" x] by (simp add: rnd_int)

lemma rnd_zero: "rnd 0 = 0"
  using rnd_int [of 0] by simp

lemma rnd_nonneg: "0 \<le> x \<Longrightarrow> 0 \<le> rnd x"
  using rnd_ge [of 0 x] by simp

lemma rnd_nonpos: "x \<le> 0 \<Longrightarrow> rnd x \<le> 0"
  using rnd_le [of x 0] by simp

lemma rnd_below_one_off: "of_int z - 1 < x \<Longrightarrow> z - 1 \<le> rnd x"
  using rnd_ge [of "z - 1" x] by simp

end

locale nearest = rounding +
  assumes rnd_near: "\<bar>of_int (rnd x) - x\<bar> \<le> 1 / 2"
begin

lemma rnd_upper: "of_int (rnd x) \<le> x + 1 / 2"
  using rnd_near [of x] by linarith

lemma rnd_lower: "x - 1 / 2 \<le> of_int (rnd x)"
  using rnd_near [of x] by linarith

end

lemma floor_half_mono: "x \<le> y \<Longrightarrow> \<lfloor>x + 1 / 2\<rfloor> \<le> \<lfloor>y + 1 / (2 :: rat)\<rfloor>"
  by (rule floor_mono) simp

interpretation half_up: nearest half_up
proof
  fix z :: int
  show "half_up (of_int z) = z"
    by (auto simp: half_up_def floor_eq_iff)
next
  fix x y :: rat
  assume le: "x \<le> y"
  have neg: "0 \<le> \<lfloor>- u + 1 / 2\<rfloor>" if "u < 0" for u :: rat
    using that by simp
  have pos: "0 \<le> \<lfloor>u + 1 / 2\<rfloor>" if "0 \<le> u" for u :: rat
    using that by simp
  show "half_up x \<le> half_up y"
  proof (cases "x < 0 \<and> \<not> y < 0")
    case True
    then have "- \<lfloor>- x + 1 / 2\<rfloor> \<le> \<lfloor>y + 1 / 2\<rfloor>"
      using neg [of x] pos [of y] by (simp only: not_less) linarith
    with True show ?thesis by (simp only: half_up_def if_True if_False)
  next
    case False
    with le floor_half_mono [of x y] floor_half_mono [of "- y" "- x"] show ?thesis
      by (auto simp: half_up_def)
  qed
next
  fix x :: rat
  have near: "\<bar>of_int \<lfloor>u + 1 / 2\<rfloor> - u\<bar> \<le> 1 / 2" for u :: rat
    by linarith
  show "\<bar>of_int (half_up x) - x\<bar> \<le> 1 / 2"
  proof (cases "x < 0")
    case True
    then have "\<bar>of_int (half_up x) - x\<bar> = \<bar>of_int \<lfloor>- x + 1 / 2\<rfloor> - - x\<bar>"
      by (simp add: half_up_def)
    then show ?thesis using near [of "- x"] by simp
  next
    case False
    then have "half_up x = \<lfloor>x + 1 / 2\<rfloor>" by (simp add: half_up_def)
    then show ?thesis using near [of x] by simp
  qed
qed

interpretation half_even: nearest half_even
proof
  fix z :: int
  show "half_even (of_int z) = z" by (simp add: half_even_def)
next
  fix x y :: rat
  assume le: "x \<le> y"
  have fl: "\<lfloor>x\<rfloor> \<le> \<lfloor>y\<rfloor>" using le by (rule floor_mono)
  have top: "half_even u \<le> \<lfloor>u\<rfloor> + 1" and bot: "\<lfloor>u\<rfloor> \<le> half_even u" for u :: rat
    by (auto simp: half_even_def Let_def)
  show "half_even x \<le> half_even y"
  proof (cases "\<lfloor>x\<rfloor> = \<lfloor>y\<rfloor>")
    case True
    with le show ?thesis by (auto simp: half_even_def Let_def)
  next
    case False
    with fl have "\<lfloor>x\<rfloor> + 1 \<le> \<lfloor>y\<rfloor>" by simp
    with top [of x] bot [of y] show ?thesis by linarith
  qed
next
  fix x :: rat
  have "of_int \<lfloor>x\<rfloor> \<le> x" and "x < of_int \<lfloor>x\<rfloor> + 1" by linarith+
  then show "\<bar>of_int (half_even x) - x\<bar> \<le> 1 / 2"
    unfolding half_even_def Let_def abs_if by (simp split: if_splits) linarith?
qed

interpretation away_from_zero: rounding away_from_zero
proof
  fix x y :: rat
  assume le: "x \<le> y"
  have "\<lfloor>x\<rfloor> \<le> \<lceil>y\<rceil>" if "x < 0" "0 \<le> y"
    using that by linarith
  with le show "away_from_zero x \<le> away_from_zero y"
    by (auto simp: away_from_zero_def floor_mono ceiling_mono)
qed (simp add: away_from_zero_def)

section \<open>The 28-digit context\<close>

function ilog10 :: "int \<Rightarrow> nat" where
  "ilog10 n = (if n < 10 then 0 else Suc (ilog10 (n div 10)))"
  by pat_completeness auto
termination by (relation "measure nat") (simp_all add: int_div_less_self)

declare ilog10.simps [simp del]

lemma ilog10_bounds: "0 < n \<Longrightarrow> 10 ^ ilog10 n \<le> n \<and> n < 10 ^ Suc (ilog10 n)"
proof (induction n rule: ilog10.induct)
  case (1 n)
  show ?case
  proof (cases "n < 10")
    case True
    with "1.prems" show ?thesis by (simp add: ilog10.simps [of n])
  next
    case False
    with "1.IH" have "10 ^ ilog10 (n div 10) \<le> n div 10 \<and> n div 10 < 10 ^ Suc (ilog10 (n div 10))"
      by simp
    with False show ?thesis by (simp add: ilog10.simps [of n]) linarith
  qed
qed

text \<open>The exponent of the leading digit, \<open>Decimal.adjusted()\<close>.\<close>

definition adjusted :: "rat \<Rightarrow> int" where
  "adjusted x =
     (let (n, d) = quotient_of \<bar>x\<bar>;
          e = int (ilog10 n) - int (ilog10 d)
      in if 10 powi e \<le> \<bar>x\<bar> then e else e - 1)"

lemma adjusted_bounds:
  assumes "x \<noteq> 0"
  shows "10 powi adjusted x \<le> \<bar>x\<bar>" and "\<bar>x\<bar> < 10 powi (adjusted x + 1)"
proof -
  obtain n d where nd: "quotient_of \<bar>x\<bar> = (n, d)" by (cases "quotient_of \<bar>x\<bar>")
  then have d: "0 < d" and x: "\<bar>x\<bar> = of_int n / of_int d"
    by (auto dest: quotient_of_denom_pos quotient_of_div)
  with assms have n: "0 < n" by (metis abs_zero div_0 linorder_neqE_linordered_idom of_int_0
    of_int_0_less_iff zero_less_abs_iff zero_less_divide_iff less_asym')
  define a b where "a = ilog10 n" and "b = ilog10 d"
  have na: "10 ^ a \<le> n" "n < 10 ^ Suc a" and db: "10 ^ b \<le> d" "d < 10 ^ Suc b"
    using ilog10_bounds [OF n] ilog10_bounds [OF d] by (simp_all add: a_def b_def)
  let ?e = "int a - int b"
  have num: "(10 :: rat) ^ a \<le> of_int n" "of_int n < (10 :: rat) ^ Suc a"
    and den: "(10 :: rat) ^ b \<le> of_int d" "of_int d < (10 :: rat) ^ Suc b"
    using na db by (metis of_int_le_iff of_int_less_iff of_int_numeral of_int_power)+
  have pe: "(10 :: rat) powi ?e = 10 ^ a / 10 ^ b"
    by (simp add: power_int_diff)
  have pe1: "(10 :: rat) powi (?e + 1) = 10 ^ Suc a / 10 ^ b"
    by (simp add: power_int_add power_int_diff)
  have pe2: "(10 :: rat) powi (?e - 1) = 10 ^ a / 10 ^ Suc b"
    by (simp add: power_int_diff)
  have up: "\<bar>x\<bar> < 10 powi (?e + 1)"
    unfolding x pe1 using num den d n by (intro frac_less) auto
  have low: "10 powi (?e - 1) \<le> \<bar>x\<bar>"
    unfolding x pe2 using num den d n by (intro frac_le) auto
  have adj: "adjusted x = (if 10 powi ?e \<le> \<bar>x\<bar> then ?e else ?e - 1)"
    by (simp add: adjusted_def nd a_def b_def)
  show "10 powi adjusted x \<le> \<bar>x\<bar>" using low by (simp add: adj)
  show "\<bar>x\<bar> < 10 powi (adjusted x + 1)" using up by (simp add: adj)
qed

definition ctx :: "rat \<Rightarrow> rat" where
  "ctx x =
     (if x = 0 then 0
      else let s = 10 powi (27 - adjusted x) in of_int (half_even (x * s)) / s)"

definition dadd :: "rat \<Rightarrow> rat \<Rightarrow> rat" where "dadd x y = ctx (x + y)"
definition dsub :: "rat \<Rightarrow> rat \<Rightarrow> rat" where "dsub x y = ctx (x - y)"
definition dmul :: "rat \<Rightarrow> rat \<Rightarrow> rat" where "dmul x y = ctx (x * y)"
definition ddiv :: "rat \<Rightarrow> rat \<Rightarrow> rat" where "ddiv x y = ctx (x / y)"

lemma ctx_zero [simp]: "ctx 0 = 0"
  by (simp add: ctx_def)

lemma ctx_nonneg: "0 \<le> x \<Longrightarrow> 0 \<le> ctx x"
  by (auto simp: ctx_def Let_def intro!: divide_nonneg_nonneg half_even.rnd_nonneg)

lemma ctx_nonpos: "x \<le> 0 \<Longrightarrow> ctx x \<le> 0"
  by (auto simp: ctx_def Let_def intro!: divide_nonpos_nonneg half_even.rnd_nonpos mult_nonpos_nonneg)

text \<open>Rounding in the context keeps order.\<close>

lemma half_even_minus: "half_even (- x) = - half_even x"
proof (cases "x = of_int \<lfloor>x\<rfloor>")
  case True
  have "half_even (- of_int \<lfloor>x\<rfloor>) = - half_even (of_int \<lfloor>x\<rfloor>)"
    using half_even.rnd_int [of "- \<lfloor>x\<rfloor>"] half_even.rnd_int [of "\<lfloor>x\<rfloor>"] by simp
  then show ?thesis using True by simp
next
  case False
  then have fl: "\<lfloor>- x\<rfloor> = - \<lfloor>x\<rfloor> - 1" by linarith
  show ?thesis
    by (simp add: half_even_def Let_def fl)
qed

lemma adjusted_minus [simp]: "adjusted (- x) = adjusted x"
  by (simp add: adjusted_def)

lemma ctx_minus: "ctx (- x) = - ctx x"
  by (simp add: ctx_def Let_def half_even_minus)

lemma adjusted_mono:
  assumes "0 < x" "x \<le> y"
  shows "adjusted x \<le> adjusted y"
proof (rule ccontr)
  assume "\<not> adjusted x \<le> adjusted y"
  then have "(10 :: rat) powi (adjusted y + 1) \<le> 10 powi adjusted x"
    by (intro power_int_increasing) auto
  also have "\<dots> \<le> x" using adjusted_bounds(1) [of x] assms by simp
  also have "\<dots> \<le> y" by (rule assms)
  also have "\<dots> < 10 powi (adjusted y + 1)" using adjusted_bounds(2) [of y] assms by simp
  finally show False by simp
qed

lemma ctx_bounds:
  assumes "0 < x"
  shows "10 powi adjusted x \<le> ctx x" and "ctx x \<le> 10 powi (adjusted x + 1)"
proof -
  let ?s = "(10 :: rat) powi (27 - adjusted x)"
  have s: "0 < ?s" by simp
  have low: "10 powi adjusted x * ?s = of_int (10 ^ 27)"
    by (simp flip: power_int_add)
  have high: "10 powi (adjusted x + 1) * ?s = of_int (10 ^ 28)"
    by (simp flip: power_int_add)
  have "10 powi adjusted x \<le> x" "x \<le> 10 powi (adjusted x + 1)"
    using adjusted_bounds [of x] assms by auto
  then have "of_int (10 ^ 27) \<le> x * ?s" "x * ?s \<le> of_int (10 ^ 28)"
    using s unfolding low [symmetric] high [symmetric] by (auto intro: mult_right_mono)
  then have b: "10 ^ 27 \<le> half_even (x * ?s)" "half_even (x * ?s) \<le> 10 ^ 28"
    by (blast intro: half_even.rnd_ge half_even.rnd_le)+
  have c: "ctx x = of_int (half_even (x * ?s)) / ?s"
    using assms by (simp add: ctx_def Let_def)
  show "10 powi adjusted x \<le> ctx x"
    unfolding c pos_le_divide_eq [OF s] low of_int_le_iff by (rule b)
  show "ctx x \<le> 10 powi (adjusted x + 1)"
    unfolding c pos_divide_le_eq [OF s] high of_int_le_iff by (rule b)
qed

lemma ctx_mono_pos:
  assumes "0 < x" "x \<le> y"
  shows "ctx x \<le> ctx y"
proof (cases "adjusted x = adjusted y")
  case True
  have "half_even (x * 10 powi (27 - adjusted y)) \<le> half_even (y * 10 powi (27 - adjusted y))"
    using assms(2) by (intro half_even.rnd_mono mult_right_mono) auto
  then show ?thesis
    using assms by (simp add: ctx_def Let_def True divide_right_mono)
next
  case False
  with adjusted_mono [OF assms] have "adjusted x + 1 \<le> adjusted y" by simp
  then have "(10 :: rat) powi (adjusted x + 1) \<le> 10 powi adjusted y"
    by (intro power_int_increasing) auto
  with ctx_bounds(2) [of x] ctx_bounds(1) [of y] assms show ?thesis by linarith
qed

lemma ctx_mono: "x \<le> y \<Longrightarrow> ctx x \<le> ctx y"
proof -
  assume le: "x \<le> y"
  consider "0 < x" | "x \<le> 0" "0 \<le> y" | "y < 0" using le by linarith
  then show "ctx x \<le> ctx y"
  proof cases
    case 1
    then show ?thesis using le by (rule ctx_mono_pos)
  next
    case 2
    then show ?thesis using ctx_nonpos [of x] ctx_nonneg [of y] by linarith
  next
    case 3
    then have "ctx (- y) \<le> ctx (- x)" using le by (intro ctx_mono_pos) auto
    then show ?thesis by (simp add: ctx_minus)
  qed
qed

text \<open>A value with at most 28 significant digits is not rounded.\<close>

lemma ctx_exact:
  assumes "\<bar>z\<bar> < 10 ^ 28"
  shows "ctx (of_int z / 10 ^ k) = of_int z / 10 ^ k"
proof (cases "z = 0")
  case False
  let ?x = "of_int z / 10 ^ k :: rat"
  let ?e = "adjusted ?x"
  have x0: "?x \<noteq> 0" using False by simp
  have low: "(10 :: rat) powi ?e \<le> \<bar>?x\<bar>" by (rule adjusted_bounds) (fact x0)
  have "\<bar>?x\<bar> < 10 powi (28 - int k)"
  proof -
    have "\<bar>of_int z\<bar> < (10 :: rat) ^ 28" using assms
      by (metis of_int_abs of_int_less_iff of_int_numeral of_int_power)
    then show ?thesis by (simp add: power_int_diff divide_strict_right_mono)
  qed
  with low have "?e < 28 - int k"
    using power_int_increasing [of "28 - int k" ?e "10 :: rat"] by (meson leI less_le_not_le
      numeral_le_iff one_le_numeral order.strict_trans2 order.trans zero_neq_numeral)
  then have nn: "0 \<le> 27 - ?e - int k" by simp
  have "(10 :: rat) powi (27 - ?e) = 10 powi ((27 - ?e - int k) + int k)" by simp
  also have "\<dots> = 10 powi (27 - ?e - int k) * 10 ^ k"
    by (subst power_int_add) auto
  finally have "?x * 10 powi (27 - ?e) = of_int (z * 10 ^ nat (27 - ?e - int k))"
    using nn by (simp add: power_int_def)
  then have "half_even (?x * 10 powi (27 - ?e)) = z * 10 ^ nat (27 - ?e - int k)"
    by (simp only: half_even.rnd_int)
  with \<open>?x * 10 powi (27 - ?e) = of_int (z * 10 ^ nat (27 - ?e - int k))\<close>
  have "of_int (half_even (?x * 10 powi (27 - ?e))) / 10 powi (27 - ?e) = ?x"
    by (metis nonzero_mult_div_cancel_right power_int_eq_0_iff zero_neq_numeral)
  with x0 show ?thesis by (simp add: ctx_def Let_def)
qed simp

section \<open>\<open>money.py\<close>\<close>

text \<open>
  \<open>cents\<close> is a \<open>Decimal\<close> with two places, as the number of cents; \<open>dec\<close> is its value. \<open>money\<close> is
  \<open>Decimal(value).quantize(CENT, rounding=ROUND_HALF_UP)\<close>.
\<close>

type_synonym cents = int

definition dec :: "cents \<Rightarrow> rat" where
  "dec c = of_int c / 100"

definition money :: "rat \<Rightarrow> cents" where
  "money x = half_up (x * 100)"

lemma money_dec [simp, money_simps]: "money (dec c) = c"
  by (simp add: money_def dec_def half_up.rnd_int)

lemma money_zero [simp]: "money 0 = 0"
  by (simp add: money_def half_up.rnd_zero)

lemma money_mono: "x \<le> y \<Longrightarrow> money x \<le> money y"
  by (simp add: money_def half_up.rnd_mono)

lemma money_nonneg: "0 \<le> x \<Longrightarrow> 0 \<le> money x"
  by (simp add: money_def half_up.rnd_nonneg)

lemma money_nonpos: "x \<le> 0 \<Longrightarrow> money x \<le> 0"
  by (simp add: money_def half_up.rnd_nonpos)

lemma money_le: "x \<le> dec c \<Longrightarrow> money x \<le> c"
  using money_mono [of x "dec c"] by simp

lemma money_ge: "dec c \<le> x \<Longrightarrow> c \<le> money x"
  using money_mono [of "dec c" x] by simp

lemma money_near: "\<bar>dec (money x) - x\<bar> \<le> 1 / 200"
  using half_up.rnd_near [of "x * 100"] by (simp add: money_def dec_def abs_le_iff field_simps)

lemma dec_simps [money_simps]:
  "dec 0 = 0" "dec (a + b) = dec a + dec b" "dec (a - b) = dec a - dec b" "dec (- a) = - dec a"
  by (simp_all add: dec_def add_divide_distrib diff_divide_distrib)

lemma dec_le_iff [simp]: "dec a \<le> dec b \<longleftrightarrow> a \<le> b"
  by (simp add: dec_def divide_le_cancel)

lemma dec_less_iff [simp]: "dec a < dec b \<longleftrightarrow> a < b"
  by (simp add: dec_def divide_less_cancel)

lemma dec_eq_iff [simp]: "dec a = dec b \<longleftrightarrow> a = b"
  by (simp add: dec_def)

lemma dec_nonneg_iff [simp]: "0 \<le> dec a \<longleftrightarrow> 0 \<le> a"
  by (simp add: dec_def zero_le_divide_iff)

lemma dec_pos_iff [simp]: "0 < dec a \<longleftrightarrow> 0 < a"
  by (simp add: dec_def zero_less_divide_iff)

text \<open>Arithmetic on amounts of cents is exact in the 28-digit context.\<close>

lemma ctx_dec:
  assumes "\<bar>c\<bar> < 10 ^ 28"
  shows "ctx (dec c) = dec c"
  using ctx_exact [of c 2] assms by (simp add: dec_def)

section \<open>Evaluation\<close>

text \<open>
  Equations that compute the same values on numerators and denominators: concrete inputs are then
  evaluated without normalising a fraction at every step.
\<close>

function pow10 :: "int \<Rightarrow> int" where
  "pow10 k = (if k \<le> 0 then 1 else 10 * pow10 (k - 1))"
  by pat_completeness auto
termination by (relation "measure nat") auto

declare pow10.simps [simp del]

lemma pow10_power: "pow10 k = 10 ^ nat k"
proof (induction k rule: pow10.induct)
  case (1 k)
  show ?case
  proof (cases "k \<le> 0")
    case True
    then show ?thesis by (simp add: pow10.simps [of k])
  next
    case False
    then have "nat k = Suc (nat (k - 1))" by simp
    with False 1 show ?thesis by (simp add: pow10.simps [of k])
  qed
qed

lemma powi_pow10: "(10 :: rat) powi k = (if 0 \<le> k then of_int (pow10 k) else 1 / of_int (pow10 (- k)))"
  by (simp add: power_int_def pow10_power inverse_eq_divide power_one_over)

definition half_even_div :: "int \<Rightarrow> int \<Rightarrow> int" where
  "half_even_div n d =
     (let q = n div d; r = n mod d in
      if 2 * r < d then q else if d < 2 * r then q + 1 else if even q then q else q + 1)"

lemma half_even_quotient:
  assumes "0 < d"
  shows "half_even (of_int n / of_int d) = half_even_div n d"
proof -
  have f: "\<lfloor>of_int n / of_int d :: rat\<rfloor> = n div d" by (rule floor_divide_of_int_eq)
  have "of_int n = of_int d * of_int (n div d) + (of_int (n mod d) :: rat)"
    by (metis mult_div_mod_eq of_int_add of_int_mult)
  then have r: "of_int n / of_int d - of_int (n div d) = of_int (n mod d) / (of_int d :: rat)"
    using assms by (simp add: field_simps)
  have c: "of_int (n mod d) / (of_int d :: rat) < 1 / 2 \<longleftrightarrow> 2 * (n mod d) < d"
    "1 / 2 < of_int (n mod d) / (of_int d :: rat) \<longleftrightarrow> d < 2 * (n mod d)"
    using assms by (simp_all add: divide_less_eq less_divide_eq) linarith+
  show ?thesis unfolding half_even_def half_even_div_def Let_def f r c by (rule refl)
qed

lemma quotient_of_value: "quotient_of x = (n, d) \<Longrightarrow> x = of_int n / of_int d \<and> 0 < d"
  by (simp add: quotient_of_div quotient_of_denom_pos)

lemma money_code [code]:
  "money x = (case quotient_of x of (n, d) \<Rightarrow>
     if n < 0 then - ((d - 200 * n) div (2 * d)) else (d + 200 * n) div (2 * d))"
proof -
  obtain n d where q: "quotient_of x = (n, d)" by fastforce
  then have x: "x = of_int n / of_int d" and d: "0 < d" using quotient_of_value by auto
  have half: "\<lfloor>of_int m * 100 / of_int d + 1 / 2 :: rat\<rfloor> = (d + 200 * m) div (2 * d)" for m
  proof -
    have "of_int m * 100 / of_int d + 1 / 2 = (of_int (d + 200 * m) / of_int (2 * d) :: rat)"
      using d by (simp add: field_simps)
    then show ?thesis by (simp only: floor_divide_of_int_eq)
  qed
  have neg: "x * 100 < 0 \<longleftrightarrow> n < 0" using d by (simp add: x divide_less_0_iff)
  have "\<lfloor>x * 100 + 1 / 2\<rfloor> = (d + 200 * n) div (2 * d)" "\<lfloor>- (x * 100) + 1 / 2\<rfloor> = (d - 200 * n) div (2 * d)"
    using half [of n] half [of "- n"] by (simp_all add: x)
  then show ?thesis unfolding money_def half_up_def neg by (simp add: q)
qed

lemma adjusted_code [code]:
  "adjusted x = (case quotient_of x of (n, d) \<Rightarrow>
     let e = int (ilog10 \<bar>n\<bar>) - int (ilog10 d) in
     if (if 0 \<le> e then pow10 e * d \<le> \<bar>n\<bar> else d \<le> \<bar>n\<bar> * pow10 (- e)) then e else e - 1)"
proof -
  obtain n d where q: "quotient_of x = (n, d)" by fastforce
  then have x: "x = of_int n / of_int d" and d: "0 < d" using quotient_of_value by auto
  have qa: "quotient_of \<bar>x\<bar> = (\<bar>n\<bar>, d)" by (simp add: rat_abs_code q)
  have p: "0 < pow10 k" for k by (simp add: pow10_power)
  have c: "10 powi e \<le> \<bar>x\<bar> \<longleftrightarrow> (if 0 \<le> e then pow10 e * d \<le> \<bar>n\<bar> else d \<le> \<bar>n\<bar> * pow10 (- e))" for e
  proof -
    have ax: "\<bar>x\<bar> = of_int \<bar>n\<bar> / of_int d" using d by (simp add: x)
    have "of_int (pow10 e) \<le> (of_int \<bar>n\<bar> / of_int d :: rat) \<longleftrightarrow> pow10 e * d \<le> \<bar>n\<bar>"
      using d by (simp only: pos_le_divide_eq of_int_0_less_iff of_int_le_iff flip: of_int_mult)
    moreover have "1 / of_int (pow10 (- e)) \<le> (of_int \<bar>n\<bar> / of_int d :: rat) \<longleftrightarrow> d \<le> \<bar>n\<bar> * pow10 (- e)"
    proof -
      have "1 / of_int (pow10 (- e)) \<le> (of_int \<bar>n\<bar> / of_int d :: rat)
          \<longleftrightarrow> (of_int d :: rat) \<le> of_int \<bar>n\<bar> * of_int (pow10 (- e))"
        using d p [of "- e"] by (simp add: divide_le_eq le_divide_eq mult.commute)
      also have "\<dots> \<longleftrightarrow> d \<le> \<bar>n\<bar> * pow10 (- e)" by (metis of_int_le_iff of_int_mult)
      finally show ?thesis .
    qed
    ultimately show ?thesis by (simp only: powi_pow10 ax split: if_splits) simp
  qed
  show ?thesis by (simp add: adjusted_def qa q c Let_def)
qed

lemma ctx_code [code]:
  "ctx x = (case quotient_of x of (n, d) \<Rightarrow>
     if 1000000 mod d = 0 \<and> \<bar>n\<bar> < 10000000000000000000000 then x
     else let k = 27 - adjusted x in
       if 0 \<le> k then Fract (half_even_div (n * pow10 k) d) (pow10 k)
       else of_int (half_even_div n (d * pow10 (- k)) * pow10 (- k)))"
proof -
  obtain n d where q: "quotient_of x = (n, d)" by fastforce
  then have x: "x = of_int n / of_int d" and d: "0 < d" using quotient_of_value by auto
  show ?thesis
  proof (cases "1000000 mod d = 0 \<and> \<bar>n\<bar> < 10000000000000000000000")
    case True
    then obtain j where j: "1000000 = d * j" by (metis dvd_def mod_0_imp_dvd)
    with d have j0: "0 < j" "j \<le> 1000000"
      using zero_less_mult_iff [of d j] mult_le_cancel_right [of 1 j d] by auto
    have "\<bar>n * j\<bar> \<le> 10000000000000000000000 * 1000000"
      using True j0 by (simp only: abs_mult) (intro mult_mono, auto)
    moreover have "\<bar>n * j\<bar> \<noteq> 10000000000000000000000 * 1000000"
    proof
      assume "\<bar>n * j\<bar> = 10000000000000000000000 * 1000000"
      moreover have "\<bar>n * j\<bar> \<le> \<bar>n\<bar> * 1000000"
        using j0 by (simp add: abs_mult mult_left_mono)
      ultimately show False using True by simp
    qed
    ultimately have b: "\<bar>n * j\<bar> < 10 ^ 28" by simp
    have e: "x = of_int (n * j) / 10 ^ 6"
    proof -
      have "(of_int d :: rat) * of_int j = 10 ^ 6" using j by (simp flip: of_int_mult)
      then show ?thesis using d j0 by (simp add: x field_simps)
    qed
    have "ctx x = x" unfolding e by (rule ctx_exact [OF b])
    with True show ?thesis by (simp add: q)
  next
    case False
    then have "n \<noteq> 0 \<or> \<not> 1000000 mod d = 0" by auto
    have n0: "x \<noteq> 0"
    proof
      assume "x = 0"
      then have "quotient_of x = (0, 1)" by simp
      with q False show False by simp
    qed
    let ?k = "27 - adjusted x"
    have p: "0 < pow10 k" for k by (simp add: pow10_power)
    show ?thesis
    proof (cases "0 \<le> ?k")
      case True
      have "x * of_int (pow10 ?k) = of_int (n * pow10 ?k) / of_int d" by (simp add: x)
      then have "ctx x = of_int (half_even_div (n * pow10 ?k) d) / of_int (pow10 ?k)"
        using n0 True half_even_quotient [OF d, of "n * pow10 ?k"]
        by (simp only: ctx_def Let_def powi_pow10 if_True if_False)
      with True False show ?thesis by (simp only: q Let_def Fract_of_int_quotient prod.case if_True if_False)
    next
      case neg: False
      have "x * (1 / of_int (pow10 (- ?k))) = of_int n / of_int (d * pow10 (- ?k))"
        by (simp add: x)
      then have "ctx x = of_int (half_even_div n (d * pow10 (- ?k))) / (1 / of_int (pow10 (- ?k)))"
        using n0 neg half_even_quotient [of "d * pow10 (- ?k)" n] d p [of "- ?k"]
        by (simp only: ctx_def Let_def powi_pow10 if_True if_False zero_less_mult_iff simp_thms)
      with neg False show ?thesis
        by (simp only: q Let_def prod.case if_False) simp
    qed
  qed
qed

section \<open>Text of amounts\<close>

text \<open>
  \<open>f"{value:.2f}"\<close> of a number of cents, and the reading of a run of digits. A decimal can also be a negative
  zero, which prints with its sign; a number of cents has none.
\<close>

definition digit_char :: "nat \<Rightarrow> char" where
  "digit_char d = char_of (48 + d)"

definition char_digit :: "char \<Rightarrow> nat option" where
  "char_digit c = (let n = of_char c :: nat in if 48 \<le> n \<and> n \<le> 57 then Some (n - 48) else None)"

fun show_nat :: "nat \<Rightarrow> string" where
  "show_nat n = (if n < 10 then [digit_char n] else show_nat (n div 10) @ [digit_char (n mod 10)])"

fun read_digits :: "nat \<Rightarrow> string \<Rightarrow> nat option" where
  "read_digits acc [] = Some acc"
| "read_digits acc (c # cs) =
     (case char_digit c of None \<Rightarrow> None | Some d \<Rightarrow> read_digits (10 * acc + d) cs)"

definition show_money :: "cents \<Rightarrow> string" where
  "show_money c =
     (let n = nat \<bar>c\<bar> in
      (if c < 0 then ''-'' else '''') @ show_nat (n div 100) @ ''.''
        @ [digit_char (n div 10 mod 10), digit_char (n mod 10)])"

declare show_nat.simps [simp del]

lemma char_digit_char [simp]: "d < 10 \<Longrightarrow> char_digit (digit_char d) = Some d"
  by (simp add: char_digit_def digit_char_def of_char_of)

lemma read_digits_append:
  "read_digits a (s @ t) = (case read_digits a s of None \<Rightarrow> None | Some b \<Rightarrow> read_digits b t)"
  by (induction a s rule: read_digits.induct) (auto split: option.splits)

lemma read_show_nat: "read_digits 0 (show_nat n) = Some n"
proof (induction n rule: show_nat.induct)
  case (1 n)
  then show ?case
    by (cases "n < 10") (simp_all add: show_nat.simps [of n] read_digits_append)
qed

lemma show_nat_nonempty [simp]: "show_nat n \<noteq> []"
  by (subst show_nat.simps) simp

text \<open>Evaluation computes the digits on integers.\<close>

function show_int :: "int \<Rightarrow> string" where
  "show_int z =
     (if z < 10 then [digit_char (nat z)] else show_int (z div 10) @ [digit_char (nat (z mod 10))])"
  by pat_completeness auto
termination by (relation "measure nat") (simp_all add: int_div_less_self)

declare show_int.simps [simp del]

lemma show_int_nat: "show_int (int n) = show_nat n"
proof (induction n rule: show_nat.induct)
  case (1 n)
  then show ?case
    by (simp add: show_int.simps [of "int n"] show_nat.simps [of n] nat_mod_distrib zdiv_int)
qed

lemma show_money_code [code]:
  "show_money c =
     (let n = \<bar>c\<bar> in
      (if c < 0 then ''-'' else '''') @ show_int (n div 100) @ ''.''
        @ [digit_char (nat (n div 10 mod 10)), digit_char (nat (n mod 10))])"
proof -
  have "show_nat (nat \<bar>c\<bar> div 100) = show_int (\<bar>c\<bar> div 100)"
    using show_int_nat [of "nat \<bar>c\<bar> div 100"] by (simp add: zdiv_int)
  then show ?thesis
    by (simp add: show_money_def Let_def nat_mod_distrib nat_div_distrib)
qed

text \<open>
  \<open>quantize\<close> raises \<open>InvalidOperation\<close>, here \<open>None\<close>, when its result has more than 28 digits; \<open>money\<close> is its
  value otherwise, and the rest of the development stays below that bound. \<open>Money.process_bind_param\<close> and
  \<open>process_result_value\<close> quantize every amount on its way to and from the database; \<open>amount\<close> of
  \<open>service_common.py\<close> is the text the API returns, in which a negative decimal that rounds to zero keeps its sign.
\<close>

definition quantize_money :: "rat \<Rightarrow> cents option" where
  "quantize_money x = (if \<bar>money x\<bar> < 10 ^ 28 then Some (money x) else None)"

definition process_bind_param :: "rat option \<Rightarrow> cents option option" where
  "process_bind_param v = (case v of None \<Rightarrow> Some None | Some x \<Rightarrow> map_option Some (quantize_money x))"

definition process_result_value :: "rat option \<Rightarrow> cents option option" where
  "process_result_value v = (case v of None \<Rightarrow> Some None | Some x \<Rightarrow> map_option Some (quantize_money x))"

definition amount :: "rat option \<Rightarrow> string option option" where
  "amount v =
     (case v of
        None \<Rightarrow> Some None
      | Some x \<Rightarrow> map_option (\<lambda>c. Some ((if x < 0 \<and> c = 0 then ''-'' else []) @ show_money c)) (quantize_money x))"

text \<open>An amount that is stored is the nearest number of cents, halves away from zero, and reads back as itself.\<close>

lemma half_up_away:
  assumes "\<bar>of_int (half_up x) - x\<bar> = 1 / 2"
  shows "\<bar>x\<bar> < \<bar>of_int (half_up x)\<bar>"
proof (cases "x < 0")
  case True
  then have "half_up x = - \<lfloor>- x + 1 / 2\<rfloor>" by (simp add: half_up_def)
  with assms True show ?thesis by linarith
next
  case False
  then have "half_up x = \<lfloor>x + 1 / 2\<rfloor>" by (simp add: half_up_def)
  with assms False show ?thesis by linarith
qed

lemma stored_amounts_read_back:
  assumes "process_bind_param (Some x) = Some (Some c)"
  shows "process_result_value (Some (dec c)) = Some (Some c)"
    and "\<bar>dec c - x\<bar> \<le> 1 / 200" and "\<bar>dec c - x\<bar> = 1 / 200 \<Longrightarrow> \<bar>x\<bar> < \<bar>dec c\<bar>"
proof -
  from assms have c: "c = money x" "\<bar>c\<bar> < 10 ^ 28"
    by (auto simp: process_bind_param_def quantize_money_def split: if_splits)
  show "process_result_value (Some (dec c)) = Some (Some c)"
    using c(2) by (simp add: process_result_value_def quantize_money_def)
  show "\<bar>dec c - x\<bar> \<le> 1 / 200" unfolding c(1) by (rule money_near)
  assume "\<bar>dec c - x\<bar> = 1 / 200"
  then have "\<bar>of_int (half_up (x * 100)) - x * 100\<bar> = 1 / 2"
    unfolding c(1) money_def dec_def by (simp add: abs_if field_simps split: if_splits)
  from half_up_away [OF this] show "\<bar>x\<bar> < \<bar>dec c\<bar>"
    unfolding c(1) money_def dec_def by (simp add: abs_if field_simps split: if_splits)
qed

end
