(* ===== verification/Calendar_Dates.thy ===== *)
theory Calendar_Dates
  imports Prelude
begin

text \<open>
  \<open>datetime.date\<close> and \<open>calendar.monthrange\<close> as the program uses them: the proleptic Gregorian
  calendar, dates ordered as Python orders them, differences in days through ordinals, and the
  month helpers that \<open>forecasting.py\<close>, \<open>life_plan.py\<close>, \<open>analytics.py\<close> and \<open>housing.py\<close> define. The
  year range 1 to 9999 of \<open>datetime.date\<close> is not enforced: dates of this program are far from both
  ends.
\<close>

datatype date = Date (d_year: int) (d_month: int) (d_day: int)

instantiation date :: linorder
begin

definition less_eq_date :: "date \<Rightarrow> date \<Rightarrow> bool" where
  "less_eq_date a b \<longleftrightarrow>
     d_year a < d_year b \<or> d_year a = d_year b \<and>
       (d_month a < d_month b \<or> d_month a = d_month b \<and> d_day a \<le> d_day b)"

definition less_date :: "date \<Rightarrow> date \<Rightarrow> bool" where
  "less_date a b \<longleftrightarrow>
     d_year a < d_year b \<or> d_year a = d_year b \<and>
       (d_month a < d_month b \<or> d_month a = d_month b \<and> d_day a < d_day b)"

instance
  by standard (auto simp: less_eq_date_def less_date_def intro: date.expand)

end

lemmas date_order = less_eq_date_def less_date_def

lemma Date_order_simps [simp]:
  "Date y m d \<le> Date y' m' d' \<longleftrightarrow> y < y' \<or> y = y' \<and> (m < m' \<or> m = m' \<and> d \<le> d')"
  "Date y m d < Date y' m' d' \<longleftrightarrow> y < y' \<or> y = y' \<and> (m < m' \<or> m = m' \<and> d < d')"
  by (simp_all add: date_order)

section \<open>Months and ordinals\<close>

definition is_leap :: "int \<Rightarrow> bool" where
  "is_leap y \<longleftrightarrow> y mod 4 = 0 \<and> (y mod 100 \<noteq> 0 \<or> y mod 400 = 0)"

definition days_in_month :: "int \<Rightarrow> int \<Rightarrow> int" where
  "days_in_month y m =
     (if m = 2 then (if is_leap y then 29 else 28)
      else if m = 4 \<or> m = 6 \<or> m = 9 \<or> m = 11 then 30 else 31)"

definition valid_date :: "date \<Rightarrow> bool" where
  "valid_date d \<longleftrightarrow> 1 \<le> d_month d \<and> d_month d \<le> 12 \<and> 1 \<le> d_day d
     \<and> d_day d \<le> days_in_month (d_year d) (d_month d)"

definition days_before_year :: "int \<Rightarrow> int" where
  "days_before_year y = (y - 1) * 365 + (y - 1) div 4 - (y - 1) div 100 + (y - 1) div 400"

definition days_before_month :: "int \<Rightarrow> int \<Rightarrow> int" where
  "days_before_month y m = sum_list (map (days_in_month y) [1..m - 1])"

definition ordinal :: "date \<Rightarrow> int" where
  "ordinal d = days_before_year (d_year d) + days_before_month (d_year d) (d_month d) + d_day d"

text \<open>\<open>(a - b).days\<close>\<close>

definition days_between :: "date \<Rightarrow> date \<Rightarrow> int" where
  "days_between a b = ordinal a - ordinal b"

lemma days_in_month_bounds: "28 \<le> days_in_month y m" "days_in_month y m \<le> 31"
  by (simp_all add: days_in_month_def)

lemma days_before_month_sum: "days_before_month y m = (\<Sum>k \<in> {1..<m}. days_in_month y k)"
proof -
  have "{1..m - 1} = {1..<m}" by auto
  then show ?thesis
    by (simp add: days_before_month_def interv_sum_list_conv_sum_set_int)
qed

lemma days_before_month_step:
  assumes "1 \<le> m"
  shows "days_before_month y (m + 1) = days_before_month y m + days_in_month y m"
proof -
  have "{1..<m + 1} = insert m {1..<m}" using assms by auto
  then show ?thesis by (simp add: days_before_month_sum)
qed

lemma days_before_month_mono:
  assumes "1 \<le> m" "m < m'"
  shows "days_before_month y m + days_in_month y m \<le> days_before_month y m'"
proof -
  have "(\<Sum>k \<in> {1..<m + 1}. days_in_month y k) \<le> (\<Sum>k \<in> {1..<m'}. days_in_month y k)"
    using assms by (intro sum_mono2) (auto simp: days_in_month_def)
  with days_before_month_step [of m y] assms show ?thesis by (simp add: days_before_month_sum)
qed

definition year_days :: "int \<Rightarrow> int" where
  "year_days y = (if is_leap y then 366 else 365)"

lemma days_before_month_13: "days_before_month y 13 = year_days y"
  by (simp add: days_before_month_def year_days_def upto.simps days_in_month_def)

lemma div_step:
  assumes "0 < k"
  shows "(n :: int) div k = (n - 1) div k + (if n mod k = 0 then 1 else 0)"
proof -
  let ?q = "n div k"
  have n: "n = k * ?q + n mod k" by simp
  have "(n - 1) div k = (if n mod k = 0 then ?q - 1 else ?q)"
  proof (cases "n mod k = 0")
    case True
    then have "n - 1 = k * (?q - 1) + (k - 1)" using n by (simp add: algebra_simps)
    then have "(n - 1) div k = ?q - 1" by (rule int_div_pos_eq) (use assms in auto)
    with True show ?thesis by simp
  next
    case False
    then have "0 < n mod k" using assms by (simp add: order.not_eq_order_implies_strict)
    moreover have "n mod k < k" using assms by simp
    moreover have "n - 1 = k * ?q + (n mod k - 1)" using n by linarith
    ultimately have "(n - 1) div k = ?q"
      using int_div_pos_eq [of "n - 1" k ?q "n mod k - 1"] by linarith
    with False show ?thesis by simp
  qed
  then show ?thesis by simp
qed

lemma leap_step_sum:
  "a' = a + (if p then 1 else 0) \<Longrightarrow> b' = b + (if q then 1 else 0) \<Longrightarrow> c' = c + (if r then 1 else 0)
    \<Longrightarrow> (q \<Longrightarrow> p) \<Longrightarrow> (r \<Longrightarrow> q)
    \<Longrightarrow> y * 365 + a' - b' + c' = (y - 1) * 365 + a - b + c + (if p \<and> (\<not> q \<or> r) then 366 else 365)"
  for a a' b b' c c' y :: int
  by (cases p; cases q; cases r) simp_all

lemma days_before_year_step: "days_before_year (y + 1) = days_before_year y + year_days y"
proof -
  have d: "y mod 100 = 0 \<Longrightarrow> y mod 4 = 0" "y mod 400 = 0 \<Longrightarrow> y mod 100 = 0"
    using dvd_trans [of 4 100 y] dvd_trans [of 100 400 y] by (simp_all flip: dvd_eq_mod_eq_0)
  show ?thesis
    unfolding days_before_year_def year_days_def is_leap_def add_diff_cancel_right'
    by (rule leap_step_sum) (rule div_step d; simp)+
qed

lemma days_before_year_mono: "y < y' \<Longrightarrow> days_before_year y + year_days y \<le> days_before_year y'"
proof (induction "y'" rule: int_gr_induct)
  case base
  then show ?case by (simp add: days_before_year_step)
next
  case (step i)
  then show ?case by (simp add: days_before_year_step year_days_def)
qed

lemma day_of_year_bound:
  assumes "valid_date d"
  shows "days_before_month (d_year d) (d_month d) + d_day d \<le> year_days (d_year d)"
    and "0 < days_before_month (d_year d) (d_month d) + d_day d"
proof -
  have "days_before_month (d_year d) (d_month d) + days_in_month (d_year d) (d_month d)
      \<le> days_before_month (d_year d) 13"
    using assms by (intro days_before_month_mono) (auto simp: valid_date_def)
  with assms show "days_before_month (d_year d) (d_month d) + d_day d \<le> year_days (d_year d)"
    by (simp add: days_before_month_13 valid_date_def)
  have "0 \<le> days_before_month (d_year d) (d_month d)"
    by (simp add: days_before_month_sum sum_nonneg days_in_month_def)
  with assms show "0 < days_before_month (d_year d) (d_month d) + d_day d"
    by (simp add: valid_date_def)
qed

text \<open>On valid dates the ordinal is strictly increasing: comparing dates compares days.\<close>

lemma ordinal_strict_mono:
  assumes "valid_date a" "valid_date b" "a < b"
  shows "ordinal a < ordinal b"
proof (cases "d_year a < d_year b")
  case True
  then show ?thesis
    using days_before_year_mono [of "d_year a" "d_year b"] day_of_year_bound [OF assms(1)]
      day_of_year_bound [OF assms(2)]
    by (simp add: ordinal_def)
next
  case False
  with assms(3) have y: "d_year a = d_year b" by (auto simp: less_date_def)
  show ?thesis
  proof (cases "d_month a < d_month b")
    case True
    then show ?thesis
      using days_before_month_mono [of "d_month a" "d_month b" "d_year b"] assms(1,2) y
      by (simp add: ordinal_def valid_date_def)
  next
    case False
    with y assms(3) show ?thesis by (auto simp: less_date_def ordinal_def)
  qed
qed

lemma ordinal_less_iff:
  "valid_date a \<Longrightarrow> valid_date b \<Longrightarrow> ordinal a < ordinal b \<longleftrightarrow> a < b"
  by (metis linorder_neqE ordinal_strict_mono order_less_asym)

lemma ordinal_le_iff:
  "valid_date a \<Longrightarrow> valid_date b \<Longrightarrow> ordinal a \<le> ordinal b \<longleftrightarrow> a \<le> b"
  using ordinal_less_iff [of b a] by (metis linorder_not_less)

lemma ordinal_eq_iff:
  "valid_date a \<Longrightarrow> valid_date b \<Longrightarrow> ordinal a = ordinal b \<longleftrightarrow> a = b"
  using ordinal_le_iff [of a b] ordinal_le_iff [of b a] by (auto intro: antisym)

section \<open>Adding days\<close>

definition next_day :: "date \<Rightarrow> date" where
  "next_day d =
     (if d_day d < days_in_month (d_year d) (d_month d)
      then Date (d_year d) (d_month d) (d_day d + 1)
      else if d_month d < 12 then Date (d_year d) (d_month d + 1) 1
      else Date (d_year d + 1) 1 1)"

definition prev_day :: "date \<Rightarrow> date" where
  "prev_day d =
     (if 1 < d_day d then Date (d_year d) (d_month d) (d_day d - 1)
      else if 1 < d_month d
      then Date (d_year d) (d_month d - 1) (days_in_month (d_year d) (d_month d - 1))
      else Date (d_year d - 1) 12 31)"

text \<open>\<open>d + timedelta(days=n)\<close>\<close>

definition add_days :: "date \<Rightarrow> int \<Rightarrow> date" where
  "add_days d n = (if 0 \<le> n then (next_day ^^ nat n) d else (prev_day ^^ nat (- n)) d)"

text \<open>Evaluation walks one day at a time.\<close>

lemma add_days_code [code]:
  "add_days d n =
     (if n = 0 then d else if 0 < n then add_days (next_day d) (n - 1) else add_days (prev_day d) (n + 1))"
proof -
  have pos: "(next_day ^^ nat n) d = (next_day ^^ nat (n - 1)) (next_day d)" if "0 < n"
    using that funpow_Suc_right [of "nat (n - 1)" next_day] by (simp add: Suc_nat_eq_nat_zadd1 comp_def fun_eq_iff)
  have neg: "(prev_day ^^ nat (- n)) d = (prev_day ^^ nat (- n - 1)) (prev_day d)" if "n < 0"
    using that funpow_Suc_right [of "nat (- n - 1)" prev_day] by (simp add: Suc_nat_eq_nat_zadd1 comp_def fun_eq_iff)
  show ?thesis
    using pos neg by (cases "n = 0"; cases "0 < n") (auto simp: add_days_def)
qed

lemma next_day_valid: "valid_date d \<Longrightarrow> valid_date (next_day d)"
  by (auto simp: next_day_def valid_date_def days_in_month_def)

lemma prev_day_valid: "valid_date d \<Longrightarrow> valid_date (prev_day d)"
  by (auto simp: prev_day_def valid_date_def days_in_month_def)

lemma days_before_month_1 [simp]: "days_before_month y 1 = 0"
  by (simp add: days_before_month_def)

lemma days_before_month_12: "days_before_month y 12 + 31 = year_days y"
  using days_before_month_step [of 12 y] by (simp add: days_before_month_13 days_in_month_def)

lemma ordinal_next_day: "valid_date d \<Longrightarrow> ordinal (next_day d) = ordinal d + 1"
  using days_before_month_step [of "d_month d" "d_year d"] days_before_year_step [of "d_year d"]
    days_before_month_12 [of "d_year d"]
  by (auto simp: next_day_def ordinal_def valid_date_def add.commute days_in_month_def
      split: if_splits)

lemma ordinal_prev_day: "valid_date d \<Longrightarrow> ordinal (prev_day d) = ordinal d - 1"
  using days_before_month_step [of "d_month d - 1" "d_year d"]
    days_before_year_step [of "d_year d - 1"] days_before_month_12 [of "d_year d - 1"]
  by (auto simp: prev_day_def ordinal_def valid_date_def)

lemma funpow_next_day:
  "valid_date d \<Longrightarrow> valid_date ((next_day ^^ n) d) \<and> ordinal ((next_day ^^ n) d) = ordinal d + int n"
  by (induction n) (auto simp: next_day_valid ordinal_next_day)

lemma funpow_prev_day:
  "valid_date d \<Longrightarrow> valid_date ((prev_day ^^ n) d) \<and> ordinal ((prev_day ^^ n) d) = ordinal d - int n"
  by (induction n) (auto simp: prev_day_valid ordinal_prev_day)

lemma add_days_valid [simp, intro]: "valid_date d \<Longrightarrow> valid_date (add_days d n)"
  by (simp add: add_days_def funpow_next_day funpow_prev_day)

lemma ordinal_add_days [simp]: "valid_date d \<Longrightarrow> ordinal (add_days d n) = ordinal d + n"
  by (simp add: add_days_def funpow_next_day funpow_prev_day)

lemma add_days_add:
  "valid_date d \<Longrightarrow> add_days (add_days d m) n = add_days d (m + n)"
  by (rule ordinal_eq_iff [THEN iffD1]) auto

lemma add_days_0 [simp]: "add_days d 0 = d"
  by (simp add: add_days_def)

lemma add_days_less_iff:
  "valid_date d \<Longrightarrow> add_days d m < add_days d n \<longleftrightarrow> m < n"
  by (subst ordinal_less_iff [symmetric]) auto

lemma add_days_le_iff:
  "valid_date d \<Longrightarrow> add_days d m \<le> add_days d n \<longleftrightarrow> m \<le> n"
  by (subst ordinal_le_iff [symmetric]) auto

lemma add_days_between: "valid_date a \<Longrightarrow> valid_date b \<Longrightarrow> add_days b (days_between a b) = a"
  by (rule ordinal_eq_iff [THEN iffD1]) (auto simp: days_between_def)

section \<open>Months\<close>

text \<open>\<open>_month_start\<close> and \<open>_next_month\<close> of \<open>forecasting.py\<close> and \<open>life_plan.py\<close>.\<close>

definition month_start :: "date \<Rightarrow> date" where
  "month_start d = Date (d_year d) (d_month d) 1"

definition next_month :: "date \<Rightarrow> date" where
  "next_month d =
     (if d_month d = 12 then Date (d_year d + 1) 1 1 else Date (d_year d) (d_month d + 1) 1)"

definition month_end :: "date \<Rightarrow> date" where
  "month_end d = Date (d_year d) (d_month d) (days_in_month (d_year d) (d_month d))"

text \<open>Months counted from year 0, the index \<open>anniversary\<close> and \<open>_age_months\<close> compute with.\<close>

definition month_index :: "date \<Rightarrow> int" where
  "month_index d = d_year d * 12 + d_month d - 1"

lemma month_start_valid [simp]: "valid_date d \<Longrightarrow> valid_date (month_start d)"
  by (auto simp: month_start_def valid_date_def days_in_month_def)

lemma month_end_valid [simp]: "valid_date d \<Longrightarrow> valid_date (month_end d)"
  by (auto simp: month_end_def valid_date_def days_in_month_def)

lemma next_month_valid [simp]: "valid_date d \<Longrightarrow> valid_date (next_month d)"
  by (auto simp: next_month_def valid_date_def days_in_month_def)

lemma month_index_next [simp]: "month_index (next_month d) = month_index d + 1"
  by (simp add: month_index_def next_month_def)

lemma month_index_start [simp]: "month_index (month_start d) = month_index d"
  by (simp add: month_index_def month_start_def)

lemma month_index_split:
  "valid_date d \<Longrightarrow> d_year d = month_index d div 12 \<and> d_month d = month_index d mod 12 + 1"
proof -
  assume "valid_date d"
  then have b: "0 \<le> d_month d - 1" "d_month d - 1 < 12" by (auto simp: valid_date_def)
  have e: "month_index d = 12 * d_year d + (d_month d - 1)" by (simp add: month_index_def)
  show ?thesis
    using int_div_pos_eq [OF e b] int_mod_pos_eq [OF e b] by simp
qed

lemma month_start_day [simp]: "d_day (month_start d) = 1" "d_day (next_month d) = 1"
  by (simp_all add: month_start_def next_month_def)

lemma month_start_le_iff:
  assumes "valid_date a" "valid_date b" "d_day a = 1" "d_day b = 1"
  shows "a \<le> b \<longleftrightarrow> month_index a \<le> month_index b"
  using assms by (auto simp: less_eq_date_def month_index_def valid_date_def)

lemma month_start_eq_iff:
  assumes "valid_date a" "valid_date b" "d_day a = 1" "d_day b = 1"
  shows "a = b \<longleftrightarrow> month_index a = month_index b"
  using month_start_le_iff [OF assms] month_start_le_iff [OF assms(2,1,4,3)] by auto

end
