(* ===== verification/Models.thy ===== *)
theory Models
  imports Decimal_Money Calendar_Dates
begin

text \<open>
  The rows of \<open>models.py\<close> that the calculation components read and write. A mapped class is a
  record of its columns; the columns no modelled operation touches (timestamps, artifact paths) are
  left out. A \<open>Money\<close> column holds cents. The seven amounts of a paycheck are read and written by
  name in the code (\<open>getattr\<close>/\<open>setattr\<close> over \<open>MONEY_FIELDS\<close>), so they are one function from the
  field's name. A table is the list of its rows in the order of the primary key.
\<close>

datatype money_field =
    Gross_earnings | Imputed_earnings | Pretax_deductions | Tax_withholdings
  | After_tax_deductions | Federal_taxable_gross | Net_payment

text \<open>\<open>MONEY_FIELDS\<close>, in the order of the tuple.\<close>

definition money_fields :: "money_field list" where
  "money_fields =
     [Gross_earnings, Imputed_earnings, Pretax_deductions, Tax_withholdings,
      After_tax_deductions, Federal_taxable_gross, Net_payment]"

type_synonym amounts = "money_field \<Rightarrow> cents"

lemma set_money_fields [simp]: "set money_fields = UNIV"
  by (auto simp: money_fields_def intro: money_field.exhaust)

lemma distinct_money_fields [simp]: "distinct money_fields"
  by (simp add: money_fields_def)

record payroll_statement =
  st_id :: nat
  st_employer :: string
  st_job_title :: "string option"
  st_period_start :: date
  st_period_end :: date
  st_payment_date :: date
  st_observed_deposit_date :: "date option"
  st_base_salary :: cents
  st_amounts :: amounts
  st_ytd_values :: "money_field \<rightharpoonup> rat"
  st_detail_complete :: bool

record payroll_line_item =
  li_id :: nat
  li_statement_id :: nat
  li_category :: string
  li_original_label :: string
  li_amount :: cents
  li_ytd_amount :: "cents option"

text \<open>One destination of a paycheck's net pay, an entry of the \<open>deposit_splits\<close> JSON list.\<close>

record deposit_split =
  sp_institution :: string
  sp_account :: string
  sp_last4 :: "string option"
  sp_amount :: cents
  sp_source_kind :: string

record payroll_schedule_entry =
  se_id :: nat
  se_payroll_statement_id :: "nat option"
  se_previous_checkpoint_id :: "nat option"
  se_next_checkpoint_id :: "nat option"
  se_payment_date :: date
  se_observed_deposit_date :: date
  se_period_start :: date
  se_period_end :: date
  se_payroll_year :: int
  se_payroll_index :: nat
  se_source_kind :: string
  se_calculation_version :: string
  se_employer :: string
  se_job_title :: "string option"
  se_base_salary :: cents
  se_amounts :: amounts
  se_adjustments :: amounts
  se_deposit_splits :: "deposit_split list"
  se_fingerprint :: string

text \<open>
  The columns of a \<open>PayrollAllocation\<close> besides its key are the \<open>AllocationValues\<close> that
  \<open>allocations.py\<close> computes for it.
\<close>

record allocation_values =
  av_schedule_entry_id :: nat
  av_category :: string
  av_label :: string
  av_section :: string
  av_amount :: cents
  av_source_kind :: string
  av_previous_checkpoint_id :: "nat option"
  av_next_checkpoint_id :: "nat option"
  av_calculation_version :: string
  av_fingerprint :: string

record payroll_allocation =
  pa_id :: nat
  pa_values :: allocation_values

record payroll_transaction_match =
  pm_schedule_entry_id :: nat
  pm_transaction_id :: nat
  pm_amount :: cents
  pm_match_group :: string

record institution =
  in_id :: nat
  in_canonical_name :: string
  in_kind :: string

record account =
  ac_id :: nat
  ac_institution_id :: nat
  ac_display_name :: string
  ac_account_type :: string

record import_artifact =
  ia_id :: nat
  ia_batch_id :: nat
  ia_sha256 :: string
  ia_original_filename :: string
  ia_source_kind :: string
  ia_adapter :: string
  ia_parser_version :: string

record import_batch =
  ib_id :: nat
  ib_status :: string
  ib_requested_source :: string
  ib_artifact_count :: int
  ib_imported_count :: int

record balance_snapshot =
  bs_id :: nat
  bs_account_id :: nat
  bs_artifact_id :: nat
  bs_snapshot_date :: date
  bs_kind :: string
  bs_amount :: cents

record account_balance_point =
  bp_id :: nat
  bp_account_id :: nat
  bp_anchor_snapshot_id :: nat
  bp_balance_date :: date
  bp_kind :: string
  bp_amount :: cents
  bp_source_kind :: string
  bp_coverage_start :: date
  bp_coverage_end :: date
  bp_calculation_version :: string
  bp_fingerprint :: string

record account_transaction =
  tx_id :: nat
  tx_account_id :: nat
  tx_posted_date :: date
  tx_original_description :: string
  tx_role :: string
  tx_amount :: cents

record transfer_match =
  tm_left_transaction_id :: nat
  tm_right_transaction_id :: nat
  tm_amount :: cents
  tm_confidence :: string

record external_flow =
  ef_id :: nat
  ef_transaction_id :: nat
  ef_payroll_statement_id :: "nat option"
  ef_role :: string
  ef_amount :: cents

record investment_value_bridge =
  iv_account_id :: nat
  iv_period_start :: date
  iv_period_end :: date
  iv_opening_value :: cents
  iv_employee_contributions :: cents
  iv_employer_contributions :: cents
  iv_stock_plan_contributions :: cents
  iv_other_deposits :: cents
  iv_withdrawals :: cents
  iv_investment_result :: cents
  iv_closing_value :: cents
  iv_calculated_return_pct :: "cents option"
  iv_return_method :: string

text \<open>The outcome of a check, \<open>"reconciled"\<close> or \<open>"unreconciled"\<close>.\<close>

definition status_of :: "bool \<Rightarrow> string" where
  "status_of ok = (if ok then ''reconciled'' else ''unreconciled'')"

lemma status_of_reconciled [simp]: "status_of ok = ''reconciled'' \<longleftrightarrow> ok"
  by (simp add: status_of_def)

section \<open>Strings\<close>

text \<open>\<open>str.startswith\<close>, \<open>in\<close>, \<open>str.lower\<close> and \<open>str.title\<close> on ASCII text.\<close>

definition starts_with :: "string \<Rightarrow> string \<Rightarrow> bool" where
  "starts_with s p \<longleftrightarrow> take (length p) s = p"

fun contains :: "string \<Rightarrow> string \<Rightarrow> bool" where
  "contains [] p = starts_with [] p"
| "contains (c # cs) p = (starts_with (c # cs) p \<or> contains cs p)"

definition is_upper :: "char \<Rightarrow> bool" where
  "is_upper c = (let n = of_char c :: nat in 65 \<le> n \<and> n \<le> 90)"

definition is_lower :: "char \<Rightarrow> bool" where
  "is_lower c = (let n = of_char c :: nat in 97 \<le> n \<and> n \<le> 122)"

definition lower_char :: "char \<Rightarrow> char" where
  "lower_char c = (if is_upper c then char_of (of_char c + 32 :: nat) else c)"

definition upper_char :: "char \<Rightarrow> char" where
  "upper_char c = (if is_lower c then char_of (of_char c - 32 :: nat) else c)"

definition lower :: "string \<Rightarrow> string" where
  "lower s = map lower_char s"

text \<open>A cased letter starts a word unless a cased letter precedes it.\<close>

fun title_from :: "bool \<Rightarrow> string \<Rightarrow> string" where
  "title_from inside [] = []"
| "title_from inside (c # cs) =
     (if inside then lower_char c else upper_char c) # title_from (is_upper c \<or> is_lower c) cs"

definition title :: "string \<Rightarrow> string" where
  "title s = title_from False s"

text \<open>\<open>s.split(".", 1)[-1]\<close>\<close>

definition after_dot :: "string \<Rightarrow> string" where
  "after_dot s = (case dropWhile (\<lambda>c. c \<noteq> CHR ''.'') s of [] \<Rightarrow> s | _ # rest \<Rightarrow> rest)"

text \<open>\<open>s.replace(old, new)\<close> for a non-empty \<open>old\<close>, and the ASCII digits of \<open>\d\<close>.\<close>

function replace_all :: "string \<Rightarrow> string \<Rightarrow> string \<Rightarrow> string" where
  "replace_all old new [] = []"
| "replace_all old new (c # cs) =
     (if old \<noteq> [] \<and> starts_with (c # cs) old
      then new @ replace_all old new (drop (length old - 1) cs)
      else c # replace_all old new cs)"
  by pat_completeness auto
termination by (relation "measure (\<lambda>(old, new, s). length s)") auto

definition is_digit :: "char \<Rightarrow> bool" where
  "is_digit c = (let n = of_char c :: nat in 48 \<le> n \<and> n \<le> 57)"

section \<open>Fingerprint payloads\<close>

text \<open>
  The JSON values that the code serialises with sorted keys and hashes with SHA-256. The hash of
  the serialised text is a parameter \<open>digest :: json \<Rightarrow> string\<close> of the operations that use it.
\<close>

datatype json = JNull | JBool bool | JInt int | JStr string | JList "json list" | JObj "(string \<times> json) list"

record reconciliation_result =
  rr_entity_type :: string
  rr_entity_id :: string
  rr_rule :: string
  rr_status :: string
  rr_residual :: "cents option"
  rr_details :: json

definition jopt :: "nat option \<Rightarrow> json" where
  "jopt v = (case v of None \<Rightarrow> JNull | Some n \<Rightarrow> JInt (int n))"

text \<open>\<open>date.isoformat()\<close> of a year of four digits.\<close>

definition two_digits :: "int \<Rightarrow> string" where
  "two_digits n = [digit_char (nat n div 10 mod 10), digit_char (nat n mod 10)]"

definition isoformat :: "date \<Rightarrow> string" where
  "isoformat d = show_nat (nat (d_year d)) @ ''-'' @ two_digits (d_month d) @ ''-'' @ two_digits (d_day d)"

lemma isoformat_code [code]:
  "isoformat d = show_int (max 0 (d_year d)) @ ''-'' @ two_digits (d_month d) @ ''-'' @ two_digits (d_day d)"
  using show_int_nat [of "nat (d_year d)"] by (simp add: isoformat_def max_def)

end
