(* ===== verification/Apportionment.thy ===== *)
theory Apportionment
  imports Prelude Complex_Main "HOL-Library.Product_Lexorder" "HOL-Library.List_Lexorder" "HOL-Library.Char_ord"
begin

text \<open>
  The integer apportionment of \<open>allocations.py\<close>: \<open>_distribute\<close> splits a total of cents by weights
  with the largest-remainder rule, \<open>_allocation_matrix\<close> fills a matrix with given row and column
  totals by distributing each column and then moving the excess of some rows to the deficit of
  others. The locale \<open>apportion\<close> is what the matrix needs of the splitting routine.
\<close>

datatype margin_error =
    Negative_allocation int
  | No_rows
  | Negative_margins
  | Margins_differ int int
  | Unbalanced_margins

section \<open>\<open>_distribute\<close>\<close>

definition even_shares :: "int \<Rightarrow> nat \<Rightarrow> int list" where
  "even_shares tot n =
     (let base = tot div int n; remainder = tot mod int n
      in map (\<lambda>index. base + (if int index < remainder then 1 else 0)) [0..<n])"

definition floor_shares :: "int \<Rightarrow> int list \<Rightarrow> int list" where
  "floor_shares tot weights = map (\<lambda>w. (tot * w) div sum_list weights) weights"

definition residue :: "int \<Rightarrow> int list \<Rightarrow> nat \<Rightarrow> int" where
  "residue tot weights index = (tot * weights ! index) mod sum_list weights"

text \<open>Python's \<open>sorted(..., reverse=True)\<close>; the keys are pairwise different.\<close>

definition ranking :: "int \<Rightarrow> int list \<Rightarrow> nat list" where
  "ranking tot weights =
     rev (sort_key (\<lambda>index. (residue tot weights index, - int index)) [0..<length weights])"

definition bump :: "nat \<Rightarrow> int list \<Rightarrow> int list" where
  "bump index floors = floors[index := floors ! index + 1]"

definition distribute :: "int \<Rightarrow> int list \<Rightarrow> (margin_error, int list) result" where
  "distribute tot weights =
     (if tot < 0 then Inl (Negative_allocation tot)
      else if weights = [] then (if tot \<noteq> 0 then Inl No_rows else Inr [])
      else if sum_list weights \<le> 0 then Inr (even_shares tot (length weights))
      else
        let floors = floor_shares tot weights;
            remainder = tot - sum_list floors
        in Inr (fold bump (take (nat remainder) (ranking tot weights)) floors))"

lemma length_floor_shares [simp]: "length (floor_shares t ws) = length ws"
  by (simp add: floor_shares_def)

lemma floor_shares_nth [simp]:
  "i < length ws \<Longrightarrow> floor_shares t ws ! i = (t * ws ! i) div sum_list ws"
  by (simp add: floor_shares_def)

lemma set_ranking [simp]: "set (ranking t ws) = {..<length ws}"
  by (auto simp: ranking_def)

lemma distinct_ranking [simp]: "distinct (ranking t ws)"
  by (simp add: ranking_def)

lemma length_ranking [simp]: "length (ranking t ws) = length ws"
  by (simp add: ranking_def)

lemma ranking_decreasing: "sorted_wrt (\<lambda>i j. residue t ws j \<le> residue t ws i) (ranking t ws)"
proof -
  let ?k = "\<lambda>index. (residue t ws index, - int index)"
  have "sorted (map ?k (sort_key ?k [0..<length ws]))" by simp
  then have "sorted_wrt (\<lambda>i j. ?k i \<le> ?k j) (sort_key ?k [0..<length ws])"
    by (simp add: sorted_map)
  then have "sorted_wrt (\<lambda>i j. residue t ws i \<le> residue t ws j) (sort_key ?k [0..<length ws])"
    by (rule sorted_wrt_mono_rel [rotated]) (auto simp: less_eq_prod_simp)
  then show ?thesis by (simp add: ranking_def sorted_wrt_rev)
qed

lemma length_bump [simp]: "length (bump i fs) = length fs"
  by (simp add: bump_def)

lemma bump_nth [simp]: "i < length fs \<Longrightarrow> bump j fs ! i = fs ! i + (if i = j then 1 else 0)"
  by (simp add: bump_def nth_list_update)

lemma sum_bump [simp]: "i < length fs \<Longrightarrow> sum_list (bump i fs) = sum_list fs + 1"
  by (simp add: bump_def sum_list_list_update)

lemma length_fold_bump [simp]: "length (fold bump is fs) = length fs"
  by (induction "is" arbitrary: fs) auto

lemma fold_bump_nth:
  "distinct is \<Longrightarrow> set is \<subseteq> {..<length fs} \<Longrightarrow> i < length fs
    \<Longrightarrow> fold bump is fs ! i = fs ! i + (if i \<in> set is then 1 else 0)"
  by (induction "is" arbitrary: fs) auto

lemma sum_fold_bump:
  "set is \<subseteq> {..<length fs} \<Longrightarrow> sum_list (fold bump is fs) = sum_list fs + int (length is)"
  by (induction "is" arbitrary: fs) auto

lemma sum_floor_shares:
  assumes "0 < sum_list ws"
  shows "sum_list ws * sum_list (floor_shares t ws) + (\<Sum>i < length ws. residue t ws i)
     = t * sum_list ws"
proof -
  let ?D = "sum_list ws"
  have "?D * sum_list (floor_shares t ws) + (\<Sum>i < length ws. residue t ws i)
      = (\<Sum>i < length ws. ?D * ((t * ws ! i) div ?D) + (t * ws ! i) mod ?D)"
    unfolding floor_shares_def residue_def sum_list_map_nth sum_distrib_left sum.distrib
    by simp
  also have "\<dots> = (\<Sum>i < length ws. t * ws ! i)" by simp
  also have "\<dots> = t * ?D"
    using sum_list_map_nth [of "\<lambda>w. w" ws] by (simp flip: sum_distrib_left)
  finally show ?thesis .
qed

lemma residue_bounds:
  assumes "0 < sum_list ws"
  shows "0 \<le> residue t ws i" "residue t ws i < sum_list ws"
  using assms by (simp_all add: residue_def)

text \<open>The undistributed cents are fewer than the rows, and no more than the rows with a residue.\<close>

lemma remainder_bounds:
  fixes t :: int
  assumes "0 < sum_list ws" "ws \<noteq> []"
  defines "r \<equiv> t - sum_list (floor_shares t ws)"
  shows "0 \<le> r" "r < int (length ws)"
    and "r \<le> int (card {i. i < length ws \<and> 0 < residue t ws i})"
proof -
  let ?D = "sum_list ws" and ?S = "\<Sum>i < length ws. residue t ws i"
  have eq: "?D * r = ?S"
    using sum_floor_shares [OF assms(1), of t] by (simp add: r_def algebra_simps)
  have "0 \<le> ?S" using assms(1) by (intro sum_nonneg) (simp add: residue_bounds)
  with eq assms(1) show "0 \<le> r" by (metis mult_neg_pos mult.commute not_le)
  have "?S < (\<Sum>i < length ws. ?D)"
    using assms by (intro sum_strict_mono) (auto simp: residue_bounds)
  then have "?D * r < ?D * int (length ws)" using eq by (simp add: mult.commute)
  with assms(1) show "r < int (length ws)"
    by (simp only: mult_less_cancel_left_pos)
  let ?P = "{i. i < length ws \<and> 0 < residue t ws i}"
  have "?S = (\<Sum>i \<in> ?P. residue t ws i)"
    using residue_bounds(1) [OF assms(1)]
    by (intro sum.mono_neutral_right) (auto simp: order.order_iff_strict)
  also have "\<dots> \<le> (\<Sum>i \<in> ?P. ?D)"
    using assms(1) by (intro sum_mono) (simp add: residue_bounds less_imp_le)
  also have "\<dots> = ?D * int (card ?P)" by simp
  finally have "?D * r \<le> ?D * int (card ?P)" by (simp only: eq)
  with assms(1) show "r \<le> int (card ?P)" by (simp only: mult_le_cancel_left_pos)
qed

text \<open>
  The first \<open>k\<close> indices of the ranking have a residue whenever \<open>k\<close> is at most the number of indices
  that have one: a weight that divides evenly is never topped up.
\<close>

lemma ranking_prefix_positive:
  assumes "0 < sum_list ws" "k \<le> card {i. i < length ws \<and> 0 < residue t ws i}"
    and "i \<in> set (take k (ranking t ws))"
  shows "0 < residue t ws i"
proof (rule ccontr)
  assume not_pos: "\<not> 0 < residue t ws i"
  let ?R = "ranking t ws" and ?P = "{i. i < length ws \<and> 0 < residue t ws i}"
  from assms(3) obtain p where p: "p < k" "p < length ws" "?R ! p = i"
    by (auto simp: in_set_conv_nth)
  have "?P \<subseteq> set (take p ?R)"
  proof
    fix j assume j: "j \<in> ?P"
    then obtain q where q: "q < length ws" "?R ! q = j"
      by (metis (no_types, lifting) in_set_conv_nth length_ranking lessThan_iff mem_Collect_eq set_ranking)
    have "q < p"
    proof (rule ccontr)
      assume "\<not> q < p"
      then have "p = q \<or> p < q" by auto
      then have "residue t ws j \<le> residue t ws i"
        using sorted_wrt_nth_less [OF ranking_decreasing, of p q t ws] p q by auto
      with j not_pos show False by auto
    qed
    with q show "j \<in> set (take p ?R)" by (auto simp: in_set_conv_nth)
  qed
  then have "card ?P \<le> card (set (take p ?R))" by (intro card_mono) auto
  also have "\<dots> \<le> p" using card_length [of "take p ?R"] by simp
  finally show False using p(1) assms(2) by simp
qed

lemma count_below: "m \<le> n \<Longrightarrow> (\<Sum>i < n. if i < m then 1 else (0 :: int)) = int m"
proof -
  assume "m \<le> n"
  then have "{..<n} \<inter> {i. i < m} = {..<m}" by auto
  then show ?thesis by (simp add: sum.If_cases)
qed

lemma sum_even_shares:
  assumes "0 < n"
  shows "sum_list (even_shares t n) = t"
proof -
  let ?b = "t div int n" and ?r = "t mod int n"
  have r: "0 \<le> ?r" "?r < int n" using assms by simp_all
  then have below: "int i < ?r \<longleftrightarrow> i < nat ?r" for i by linarith
  have "sum_list (even_shares t n) = (\<Sum>i < n. ?b + (if i < nat ?r then 1 else 0))"
    by (simp only: even_shares_def Let_def sum_list_upt below)
  also have "\<dots> = int n * ?b + ?r"
    using r by (simp only: sum.distrib count_below nat_le_iff) simp
  finally show ?thesis by simp
qed

lemma distribute_cases:
  assumes "distribute t ws = Inr xs"
  obtains (empty) "ws = []" "t = 0" "xs = []"
  | (even) "ws \<noteq> []" "sum_list ws \<le> 0" "0 \<le> t" "xs = even_shares t (length ws)"
  | (weighted) "ws \<noteq> []" "0 < sum_list ws" "0 \<le> t"
      "xs = fold bump (take (nat (t - sum_list (floor_shares t ws))) (ranking t ws)) (floor_shares t ws)"
  using assms by (auto simp: distribute_def Let_def split: if_splits)

lemma distribute_returns:
  assumes "0 \<le> t" "ws \<noteq> [] \<or> t = 0"
  shows "\<exists>xs. distribute t ws = Inr xs"
  using assms by (auto simp: distribute_def Let_def)

lemma length_distribute: "distribute t ws = Inr xs \<Longrightarrow> length xs = length ws"
  by (erule distribute_cases) (auto simp: even_shares_def Let_def)

lemma sum_distribute:
  assumes "distribute t ws = Inr xs"
  shows "sum_list xs = t"
  using assms
proof (cases rule: distribute_cases)
  case weighted
  let ?r = "t - sum_list (floor_shares t ws)"
  have "nat ?r \<le> length ws" "0 \<le> ?r"
    using remainder_bounds [OF weighted(2,1), of t] by simp_all
  moreover have "set (take (nat ?r) (ranking t ws)) \<subseteq> {..<length (floor_shares t ws)}"
    using set_take_subset [of "nat ?r" "ranking t ws"] by simp
  ultimately show ?thesis
    by (simp add: weighted(4) sum_fold_bump)
qed (auto simp: sum_even_shares)

text \<open>The share of a weight is its exact quota, rounded down or up to a whole cent.\<close>

lemma distribute_nth:
  assumes "distribute t ws = Inr xs" "0 < sum_list ws" "i < length ws"
  shows "xs ! i = (t * ws ! i) div sum_list ws \<or>
     xs ! i = (t * ws ! i) div sum_list ws + 1 \<and> 0 < residue t ws i"
  using assms(1)
proof (cases rule: distribute_cases)
  case weighted
  let ?r = "nat (t - sum_list (floor_shares t ws))"
  have k: "?r \<le> card {i. i < length ws \<and> 0 < residue t ws i}"
    using remainder_bounds(3) [OF weighted(2,1), of t] by simp
  have "set (take ?r (ranking t ws)) \<subseteq> {..<length (floor_shares t ws)}"
    using set_take_subset [of ?r "ranking t ws"] by simp
  then have "xs ! i = (t * ws ! i) div sum_list ws + (if i \<in> set (take ?r (ranking t ws)) then 1 else 0)"
    using assms(3) by (simp add: weighted(4) fold_bump_nth distinct_take)
  with ranking_prefix_positive [OF weighted(2) k] show ?thesis by auto
qed (use assms in auto)

lemma distribute_nonneg:
  assumes "distribute t ws = Inr xs" "\<And>w. w \<in> set ws \<Longrightarrow> 0 \<le> w" "x \<in> set xs"
  shows "0 \<le> x"
proof -
  obtain i where i: "i < length ws" "x = xs ! i"
    using assms(3) length_distribute [OF assms(1)] by (auto simp: in_set_conv_nth)
  show ?thesis
    using assms(1)
  proof (cases rule: distribute_cases)
    case even
    then show ?thesis using i by (simp add: even_shares_def Let_def pos_imp_zdiv_nonneg_iff)
  next
    case weighted
    then have "0 \<le> (t * ws ! i) div sum_list ws"
      using i assms(2) [of "ws ! i"] by (simp add: pos_imp_zdiv_nonneg_iff)
    with distribute_nth [OF assms(1) weighted(2) i(1)] i(2) show ?thesis by auto
  qed (use i in auto)
qed

lemma distribute_zero_weight:
  assumes "distribute t ws = Inr xs" "0 < sum_list ws" "i < length ws" "ws ! i = 0"
  shows "xs ! i = 0"
  using distribute_nth [OF assms(1-3)] assms(4) by (auto simp: residue_def)

section \<open>\<open>_allocation_matrix\<close>\<close>

text \<open>
  A row of the matrix is a \<open>defaultdict(int)\<close>: a function from categories. The list of categories
  is \<open>sorted(column_totals)\<close> throughout.
\<close>

type_synonym matrix = "(string \<Rightarrow> int) list"

definition column_total :: "(string, int) dict \<Rightarrow> string \<Rightarrow> int" where
  "column_total cols c = dict_get cols c 0"

definition set_column :: "string \<Rightarrow> int list \<Rightarrow> matrix \<Rightarrow> matrix" where
  "set_column c shares m = map (\<lambda>(row, share). row(c := share)) (zip m shares)"

definition fill_columns ::
  "(int \<Rightarrow> int list \<Rightarrow> ('e, int list) result) \<Rightarrow> int list \<Rightarrow> (string \<Rightarrow> int) \<Rightarrow> string list
     \<Rightarrow> ('e, matrix) result"
where
  "fill_columns share_out rows col cats =
     for_each (\<lambda>c m. bind_res (share_out (col c) rows) (\<lambda>shares. Inr (set_column c shares m)))
       cats (replicate (length rows) (\<lambda>_. 0))"

definition row_sum :: "string list \<Rightarrow> (string \<Rightarrow> int) \<Rightarrow> int" where
  "row_sum cats row = sum_list (map row cats)"

definition column_sum :: "matrix \<Rightarrow> string \<Rightarrow> int" where
  "column_sum m c = sum_list (map (\<lambda>row. row c) m)"

text \<open>The state of the balancing loops: the matrix, the excess and the deficit of each row.\<close>

type_synonym balance = "matrix \<times> int list \<times> int list"

definition move_amount :: "nat \<Rightarrow> nat \<Rightarrow> string \<Rightarrow> int \<Rightarrow> balance \<Rightarrow> balance" where
  "move_amount source target c moved st =
     (case st of (m, excess, deficit) \<Rightarrow>
        let m1 = m[source := (m ! source)(c := (m ! source) c - moved)];
            m2 = m1[target := (m1 ! target)(c := (m1 ! target) c + moved)]
        in (m2, excess[source := excess ! source - moved], deficit[target := deficit ! target - moved]))"

definition move_size :: "nat \<Rightarrow> nat \<Rightarrow> string \<Rightarrow> balance \<Rightarrow> int" where
  "move_size source target c st =
     (case st of (m, excess, deficit) \<Rightarrow>
        min (min (excess ! source) (deficit ! target)) ((m ! source) c))"

definition settled :: "nat \<Rightarrow> nat \<Rightarrow> balance \<Rightarrow> bool" where
  "settled source target st =
     (case st of (m, excess, deficit) \<Rightarrow> excess ! source = 0 \<or> deficit ! target = 0)"

primrec shift_categories :: "nat \<Rightarrow> nat \<Rightarrow> string list \<Rightarrow> balance \<Rightarrow> balance" where
  "shift_categories source target [] st = st"
| "shift_categories source target (c # cs) st =
     (let moved = move_size source target c st in
      if moved = 0 then shift_categories source target cs st
      else
        let st' = move_amount source target c moved st in
        if settled source target st' then st' else shift_categories source target cs st')"

fun shift_targets :: "string list \<Rightarrow> nat \<Rightarrow> nat list \<Rightarrow> balance \<Rightarrow> balance" where
  "shift_targets cats source [] st = st"
| "shift_targets cats source (target # ts) (m, excess, deficit) =
     (if excess ! source = 0 then (m, excess, deficit)
      else if deficit ! target = 0 then shift_targets cats source ts (m, excess, deficit)
      else shift_targets cats source ts (shift_categories source target cats (m, excess, deficit)))"

fun shift_sources :: "string list \<Rightarrow> nat \<Rightarrow> nat list \<Rightarrow> balance \<Rightarrow> balance" where
  "shift_sources cats n [] st = st"
| "shift_sources cats n (source # ss) (m, excess, deficit) =
     (if excess ! source = 0 then shift_sources cats n ss (m, excess, deficit)
      else shift_sources cats n ss (shift_targets cats source [0..<n] (m, excess, deficit)))"

definition rebalance :: "string list \<Rightarrow> int list \<Rightarrow> matrix \<Rightarrow> balance" where
  "rebalance cats rows m =
     (let row_sums = map (row_sum cats) m;
          excess = map (\<lambda>(a, b). max 0 (a - b)) (zip row_sums rows);
          deficit = map (\<lambda>(a, b). max 0 (b - a)) (zip row_sums rows)
      in shift_sources cats (length rows) [0..<length rows] (m, excess, deficit))"

definition allocation_matrix ::
  "int list \<Rightarrow> (string, int) dict \<Rightarrow> (margin_error, (string, int) dict list) result"
where
  "allocation_matrix rows cols =
     (if list_ex (\<lambda>v. v < 0) rows \<or> list_ex (\<lambda>(c, v). v < 0) cols then Inl Negative_margins
      else if sum_list rows \<noteq> sum_list (map snd cols)
        then Inl (Margins_differ (sum_list rows) (sum_list (map snd cols)))
      else
        let cats = sort (map fst cols) in
        bind_res (fill_columns distribute rows (column_total cols) cats) (\<lambda>m.
          case rebalance cats rows m of (m', excess, deficit) \<Rightarrow>
            if list_ex (\<lambda>v. v \<noteq> 0) excess \<or> list_ex (\<lambda>v. v \<noteq> 0) deficit
            then Inl Unbalanced_margins
            else Inr (map (\<lambda>row. map (\<lambda>c. (c, row c)) cats) m')))"

lemma set_column_rows:
  "row \<in> set (set_column c shares m) \<Longrightarrow> \<exists>r \<in> set m. \<exists>s \<in> set shares. row = r(c := s)"
  by (auto simp: set_column_def dest: set_zip_leftD set_zip_rightD)

text \<open>What the matrix needs of the routine that splits a column over the rows.\<close>

locale apportion =
  fixes share_out :: "int \<Rightarrow> int list \<Rightarrow> ('e, int list) result"
  assumes dist_length: "share_out t ws = Inr xs \<Longrightarrow> length xs = length ws"
    and dist_sum: "share_out t ws = Inr xs \<Longrightarrow> sum_list xs = t"
    and dist_nonneg: "share_out t ws = Inr xs \<Longrightarrow> \<forall>w \<in> set ws. 0 \<le> w \<Longrightarrow> x \<in> set xs \<Longrightarrow> 0 \<le> x"
    and dist_returns: "0 \<le> t \<Longrightarrow> ws \<noteq> [] \<or> t = 0 \<Longrightarrow> \<exists>xs. share_out t ws = Inr xs"
begin

lemma fill_columns_length:
  assumes "fill_columns share_out rows col cats = Inr m"
  shows "length m = length rows"
  using assms unfolding fill_columns_def
  by (rule for_each_preserves) (auto simp: bind_res_Inr_iff set_column_def dest!: dist_length)

lemma column_sum_set_column:
  assumes "length m = length shares"
  shows "column_sum (set_column c shares m) d = (if d = c then sum_list shares else column_sum m d)"
proof -
  have "map (\<lambda>row. row d) (set_column c shares m) = (if d = c then shares else map (\<lambda>row. row d) m)"
    using assms by (intro nth_equalityI) (auto simp: set_column_def)
  then show ?thesis by (simp add: column_sum_def)
qed

lemma fill_columns_sums:
  assumes "fill_columns share_out rows col cats = Inr m" "c \<in> set cats"
  shows "column_sum m c = col c"
proof -
  let ?P = "\<lambda>done m. length m = length rows \<and> (\<forall>c \<in> set done. column_sum m c = col c)"
  have "?P cats m"
    using assms(1) unfolding fill_columns_def
  proof (rule for_each_invariant)
    fix ys c zs m m'
    assume "?P ys m"
      and "bind_res (share_out (col c) rows) (\<lambda>shares. Inr (set_column c shares m)) = Inr m'"
    then show "?P (ys @ [c]) m'"
      by (auto simp: bind_res_Inr_iff column_sum_set_column dist_length dist_sum)
        (auto simp: set_column_def dist_length)
  qed simp
  with assms(2) show ?thesis by simp
qed

lemma fill_columns_nonneg:
  assumes "fill_columns share_out rows col cats = Inr m" "\<forall>w \<in> set rows. 0 \<le> w"
  shows "\<forall>row \<in> set m. \<forall>c. 0 \<le> row c"
  using assms(1) unfolding fill_columns_def
proof (rule for_each_preserves)
  fix c m m'
  assume nn: "\<forall>row \<in> set m. \<forall>c. 0 \<le> row c"
    and "bind_res (share_out (col c) rows) (\<lambda>shares. Inr (set_column c shares m)) = Inr m'"
  then obtain shares where d: "share_out (col c) rows = Inr shares" and m': "m' = set_column c shares m"
    by (auto simp: bind_res_Inr_iff)
  show "\<forall>row \<in> set m'. \<forall>c. 0 \<le> row c"
    using nn dist_nonneg [OF d assms(2)] by (auto simp: m' dest!: set_column_rows)
qed simp

lemma fill_columns_returns:
  assumes "\<And>c. c \<in> set cats \<Longrightarrow> 0 \<le> col c" "rows \<noteq> [] \<or> (\<forall>c \<in> set cats. col c = 0)"
  shows "\<exists>m. fill_columns share_out rows col cats = Inr m"
proof -
  have "\<exists>m. fill_columns share_out rows col cats = Inr m \<and> True"
    unfolding fill_columns_def
  proof (rule for_each_succeeds)
    fix c m assume "c \<in> set cats"
    then obtain xs where "share_out (col c) rows = Inr xs"
      using assms dist_returns [of "col c" rows] by fastforce
    then show "\<exists>m'. bind_res (share_out (col c) rows) (\<lambda>shares. Inr (set_column c shares m)) = Inr m' \<and> True"
      by simp
  qed simp
  then show ?thesis by simp
qed

end

interpretation largest_remainder: apportion distribute
  by unfold_locales
    (auto intro: length_distribute sum_distribute distribute_returns elim: distribute_nonneg)

section \<open>The balancing loops\<close>

definition balanced :: "string list \<Rightarrow> int list \<Rightarrow> balance \<Rightarrow> bool" where
  "balanced cats rows st \<longleftrightarrow>
     (case st of (m, excess, deficit) \<Rightarrow>
        length m = length rows \<and> length excess = length rows \<and> length deficit = length rows
        \<and> sum_list excess = sum_list deficit
        \<and> (\<forall>i < length rows. row_sum cats (m ! i) = rows ! i + excess ! i - deficit ! i
             \<and> 0 \<le> excess ! i \<and> 0 \<le> deficit ! i \<and> (excess ! i = 0 \<or> deficit ! i = 0)
             \<and> (\<forall>c. 0 \<le> (m ! i) c)))"

text \<open>A step of the loops: the invariant and the columns stay, no excess or deficit grows.\<close>

definition shrinks :: "balance \<Rightarrow> balance \<Rightarrow> bool" where
  "shrinks st st' \<longleftrightarrow>
     (case (st, st') of ((m, e, d), (m', e', d')) \<Rightarrow>
        (\<forall>c. column_sum m' c = column_sum m c) \<and> length m' = length m
        \<and> (\<forall>i < length m. e' ! i \<le> e ! i \<and> d' ! i \<le> d ! i))"

lemma shrinks_refl [simp]: "shrinks st st"
  by (simp add: shrinks_def split: prod.splits)

lemma shrinks_trans: "shrinks a b \<Longrightarrow> shrinks b c \<Longrightarrow> shrinks a c"
  by (cases a; cases b; cases c) (auto simp: shrinks_def intro: order_trans [of _ "_ ! _"])

lemma row_sum_update:
  "distinct cats \<Longrightarrow> c \<in> set cats \<Longrightarrow> row_sum cats (row(c := v)) = row_sum cats row - row c + v"
proof (induction cats)
  case (Cons a cats)
  show ?case
  proof (cases "a = c")
    case True
    with Cons.prems have "map (row(c := v)) cats = map row cats" by (intro map_cong) auto
    then show ?thesis
      unfolding row_sum_def True by (simp only: list.map sum_list.Cons fun_upd_same)
  next
    case False
    with Cons show ?thesis by (simp add: row_sum_def)
  qed
qed simp

lemma column_sum_update:
  "i < length m \<Longrightarrow> column_sum (m[i := row]) c = column_sum m c - (m ! i) c + row c"
  by (simp add: column_sum_def map_update sum_list_list_update)

lemma move_amount_ok:
  assumes inv: "balanced cats rows (m, e, d)" and cats: "distinct cats" "c \<in> set cats"
    and ij: "source < length rows" "target < length rows" "source \<noteq> target"
    and moved: "0 \<le> x" "x \<le> e ! source" "x \<le> d ! target" "x \<le> (m ! source) c"
  shows "balanced cats rows (move_amount source target c x (m, e, d))"
    and "shrinks (m, e, d) (move_amount source target c x (m, e, d))"
proof -
  have len: "length m = length rows" "length e = length rows" "length d = length rows"
    using inv by (simp_all add: balanced_def)
  have row: "row_sum cats (m ! i) = rows ! i + e ! i - d ! i" "0 \<le> e ! i" "0 \<le> d ! i"
    "e ! i = 0 \<or> d ! i = 0" "0 \<le> (m ! i) k" if "i < length rows" for i k
    using inv that by (auto simp: balanced_def)
  show "balanced cats rows (move_amount source target c x (m, e, d))"
    using inv ij moved row [OF ij(1)] row [OF ij(2)] len
    by (auto simp: balanced_def move_amount_def Let_def nth_list_update row_sum_update [OF cats]
        sum_list_list_update)
  show "shrinks (m, e, d) (move_amount source target c x (m, e, d))"
    using ij moved len
    by (auto simp: shrinks_def move_amount_def Let_def nth_list_update column_sum_update)
qed

lemma move_size_le:
  "move_size source target c (m, e, d) \<le> e ! source" "move_size source target c (m, e, d) \<le> d ! target"
  "move_size source target c (m, e, d) \<le> (m ! source) c"
  by (simp_all add: move_size_def)

lemma shift_categories_ok:
  assumes "balanced cats rows st" "distinct cats" "set cs \<subseteq> set cats"
    and "source < length rows" "target < length rows" "source \<noteq> target"
  shows "balanced cats rows (shift_categories source target cs st)
     \<and> shrinks st (shift_categories source target cs st)"
  using assms
proof (induction cs arbitrary: st)
  case (Cons c cs)
  obtain m e d where st: "st = (m, e, d)" by (cases st)
  let ?x = "move_size source target c st"
  have nn: "0 \<le> ?x" using Cons.prems(1,4,5) by (auto simp: balanced_def move_size_def st)
  have c: "c \<in> set cats" using Cons.prems(3) by simp
  have ok: "balanced cats rows (move_amount source target c ?x st)"
    "shrinks st (move_amount source target c ?x st)"
    using move_amount_ok [OF _ Cons.prems(2) c Cons.prems(4-6) _ move_size_le] Cons.prems(1) nn
    by (simp_all add: st)
  with Cons.IH [of "move_amount source target c ?x st"] Cons.IH [of st] Cons.prems show ?case
    by (auto simp: Let_def intro: shrinks_trans)
qed simp

lemma shift_categories_exhausts:
  assumes "balanced cats rows (m, e, d)" "distinct cats" "set cs \<subseteq> set cats" "\<forall>r \<in> set rows. 0 \<le> r"
    and "source < length rows" "target < length rows" "source \<noteq> target"
    and "\<forall>c \<in> set cats - set cs. (m ! source) c = 0" "e ! source \<noteq> 0" "d ! target \<noteq> 0"
    and "shift_categories source target cs (m, e, d) = (m', e', d')"
  shows "e' ! source = 0 \<or> d' ! target = 0"
  using assms
proof (induction cs arbitrary: m e d)
  case Nil
  then have "map (m ! source) cats = map (\<lambda>_. 0) cats" by simp
  then have "row_sum cats (m ! source) = 0" by (simp only: row_sum_def) simp
  with Nil have "rows ! source + e ! source = 0" "0 \<le> e ! source" "0 \<le> rows ! source"
    by (auto simp: balanced_def)
  with Nil.prems show ?case by simp
next
  case (Cons c cs)
  let ?x = "move_size source target c (m, e, d)"
  have x: "?x = min (min (e ! source) (d ! target)) ((m ! source) c)" by (simp add: move_size_def)
  have pos: "0 < e ! source" "0 < d ! target" "0 \<le> (m ! source) c"
    using Cons.prems(1,5,6,9,10) by (auto simp: balanced_def order.order_iff_strict)
  show ?case
  proof (cases "?x = 0")
    case True
    with pos x have "(m ! source) c = 0" by linarith
    with Cons.prems True show ?thesis by (intro Cons.IH [of m e d]) auto
  next
    case False
    obtain m1 e1 d1 where mv: "move_amount source target c ?x (m, e, d) = (m1, e1, d1)"
      by (cases "move_amount source target c ?x (m, e, d)")
    have ok: "balanced cats rows (m1, e1, d1)"
      using move_amount_ok(1) [OF Cons.prems(1,2) _ Cons.prems(5-7) _ move_size_le, of c]
        Cons.prems(3) pos x mv by auto
    have e1: "e1 ! source = e ! source - ?x" "d1 ! target = d ! target - ?x"
      and m1: "(m1 ! source) k = (if k = c then (m ! source) c - ?x else (m ! source) k)" for k
      using mv Cons.prems(1,5-7) by (auto simp: move_amount_def Let_def balanced_def)
    show ?thesis
    proof (cases "settled source target (m1, e1, d1)")
      case True
      with Cons.prems(11) False show ?thesis by (simp add: mv Let_def settled_def)
    next
      case go_on: False
      then have "(m1 ! source) c = 0"
        using e1 m1 [of c] x by (simp add: settled_def min_def split: if_splits)
      then have "\<forall>c \<in> set cats - set cs. (m1 ! source) c = 0" using Cons.prems(8) m1 by auto
      moreover have "shift_categories source target cs (m1, e1, d1) = (m', e', d')"
        using Cons.prems(11) False go_on by (simp add: mv Let_def)
      ultimately show ?thesis
        using Cons.prems ok go_on by (intro Cons.IH [of m1 e1 d1]) (auto simp: settled_def)
    qed
  qed
qed

lemma shift_targets_ok:
  assumes "balanced cats rows st" "distinct cats" "\<forall>r \<in> set rows. 0 \<le> r"
    and "source < length rows" "set ts \<subseteq> {..<length rows}"
  shows "balanced cats rows (shift_targets cats source ts st) \<and> shrinks st (shift_targets cats source ts st)"
  using assms
proof (induction cats source ts st rule: shift_targets.induct)
  case (2 cats source target ts m e d)
  let ?st = "shift_categories source target cats (m, e, d)"
  show ?case
  proof (cases "e ! source = 0 \<or> d ! target = 0")
    case True
    with 2 show ?thesis by auto
  next
    case False
    with 2(3,6) have ne: "source \<noteq> target" by (auto simp: balanced_def)
    have ok: "balanced cats rows ?st" "shrinks (m, e, d) ?st"
      using shift_categories_ok [OF 2(3,4) order_refl 2(6) _ ne] 2(7) by auto
    with False 2 show ?thesis by (auto intro: shrinks_trans)
  qed
qed simp

lemma shift_targets_exhausts:
  assumes "balanced cats rows (m, e, d)" "distinct cats" "\<forall>r \<in> set rows. 0 \<le> r"
    and "source < length rows" "set ts \<subseteq> {..<length rows}"
    and "\<forall>t < length rows. t \<notin> set ts \<longrightarrow> d ! t = 0"
    and "shift_targets cats source ts (m, e, d) = (m', e', d')"
  shows "e' ! source = 0"
  using assms
proof (induction ts arbitrary: m e d)
  case Nil
  then have "sum_list d = 0"
    by (intro sum_list_nonneg_eq_0_iff [THEN iffD2]) (auto simp: balanced_def in_set_conv_nth)
  with Nil have "sum_list e = 0" by (simp add: balanced_def)
  moreover have "\<forall>x \<in> set e. 0 \<le> x" using Nil by (auto simp: balanced_def in_set_conv_nth)
  ultimately have "\<forall>x \<in> set e. x = 0" by (simp add: sum_list_nonneg_eq_0_iff)
  with Nil show ?case by (auto simp: balanced_def)
next
  case (Cons t ts)
  obtain m1 e1 d1 where sc: "shift_categories source t cats (m, e, d) = (m1, e1, d1)"
    by (cases "shift_categories source t cats (m, e, d)")
  show ?case
  proof (cases "e ! source = 0 \<or> d ! t = 0")
    case True
    with Cons.prems show ?thesis
      by (cases "e ! source = 0") (auto intro!: Cons.IH [of m e d])
  next
    case False
    with Cons.prems(1,4) have ne: "source \<noteq> t" by (auto simp: balanced_def)
    have t: "t < length rows" using Cons.prems(5) by simp
    have ok: "balanced cats rows (m1, e1, d1)" "shrinks (m, e, d) (m1, e1, d1)"
      using shift_categories_ok [OF Cons.prems(1,2) order_refl Cons.prems(4) t ne] sc by auto
    have or0: "e1 ! source = 0 \<or> d1 ! t = 0"
      using shift_categories_exhausts [OF Cons.prems(1,2) order_refl Cons.prems(3,4) t ne _ _ _ sc] False
      by auto
    have step: "shift_targets cats source ts (m1, e1, d1) = (m', e', d')"
      using Cons.prems(7) False sc by simp
    show ?thesis
    proof (cases "e1 ! source = 0")
      case True
      have "0 \<le> e' ! source \<and> e' ! source \<le> e1 ! source"
        using shift_targets_ok [OF ok(1) Cons.prems(2-4), of ts] Cons.prems(5) step
          Cons.prems(4) ok(1) by (auto simp: balanced_def shrinks_def)
      with True show ?thesis by simp
    next
      case e1: False
      have "\<forall>u < length rows. u \<notin> set ts \<longrightarrow> d1 ! u = 0"
      proof (intro allI impI)
        fix u assume u: "u < length rows" "u \<notin> set ts"
        have "0 \<le> d1 ! u" "d1 ! u \<le> d ! u"
          using ok u(1) Cons.prems(1) by (auto simp: balanced_def shrinks_def)
        with Cons.prems(6) u or0 e1 show "d1 ! u = 0" by (cases "u = t") auto
      qed
      with Cons.prems ok step show ?thesis by (intro Cons.IH [of m1 e1 d1]) auto
    qed
  qed
qed

lemma upt_below: "set [0..<n] \<subseteq> {..<n}"
  by auto

text \<open>After the outer loop no row has an excess, and so none has a deficit.\<close>

lemma shift_sources_ok:
  assumes "balanced cats rows st" "distinct cats" "\<forall>r \<in> set rows. 0 \<le> r"
    and "set ss \<subseteq> {..<length rows}"
  shows "balanced cats rows (shift_sources cats (length rows) ss st)
     \<and> shrinks st (shift_sources cats (length rows) ss st)"
  using assms
proof (induction ss arbitrary: st)
  case (Cons s ss)
  obtain m e d where st: "st = (m, e, d)" by (cases st)
  let ?st = "shift_targets cats s [0..<length rows] st"
  have "balanced cats rows ?st" "shrinks st ?st"
    using shift_targets_ok [OF Cons.prems(1-3) _ upt_below, of s] Cons.prems(4) by auto
  with Cons.IH [of ?st] Cons.IH [of st] Cons.prems show ?case
    by (auto simp: st intro: shrinks_trans)
qed simp

lemma shift_sources_exhausts:
  assumes "balanced cats rows (m, e, d)" "distinct cats" "\<forall>r \<in> set rows. 0 \<le> r"
    and "set ss \<subseteq> {..<length rows}" "\<forall>i < length rows. i \<notin> set ss \<longrightarrow> e ! i = 0"
    and "shift_sources cats (length rows) ss (m, e, d) = (m', e', d')"
  shows "\<forall>i < length rows. e' ! i = 0"
  using assms
proof (induction ss arbitrary: m e d)
  case (Cons s ss)
  obtain m1 e1 d1 where tg: "shift_targets cats s [0..<length rows] (m, e, d) = (m1, e1, d1)"
    by (cases "shift_targets cats s [0..<length rows] (m, e, d)")
  show ?case
  proof (cases "e ! s = 0")
    case True
    with Cons.prems show ?thesis by (intro Cons.IH [of m e d]) auto
  next
    case False
    have s: "s < length rows" using Cons.prems(4) by simp
    have ok: "balanced cats rows (m1, e1, d1)" "shrinks (m, e, d) (m1, e1, d1)"
      using shift_targets_ok [OF Cons.prems(1-3) s upt_below] tg by auto
    have s0: "e1 ! s = 0"
      by (rule shift_targets_exhausts [OF Cons.prems(1-3) s _ _ tg]) auto
    have "\<forall>i < length rows. i \<notin> set ss \<longrightarrow> e1 ! i = 0"
    proof (intro allI impI)
      fix i assume i: "i < length rows" "i \<notin> set ss"
      have "0 \<le> e1 ! i" "e1 ! i \<le> e ! i"
        using ok i(1) Cons.prems(1) by (auto simp: balanced_def shrinks_def)
      with Cons.prems(5) i s0 show "e1 ! i = 0" by (cases "i = s") auto
    qed
    with Cons.prems ok tg False show ?thesis by (intro Cons.IH [of m1 e1 d1]) auto
  qed
qed simp

lemma sum_list_row_sums:
  "sum_list (map (row_sum cats) m) = sum_list (map (column_sum m) cats)"
  by (induction m) (auto simp: column_sum_def row_sum_def sum_list_addf)

lemma sum_excess_deficit:
  "length a = length b \<Longrightarrow>
     sum_list (map (\<lambda>(a, b). max 0 (a - b)) (zip a b)) - sum_list (map (\<lambda>(a, b). max 0 (b - a)) (zip a b))
       = sum_list a - sum_list (b :: int list)"
  by (induction a b rule: list_induct2) auto

lemma rebalance_start:
  assumes "length m = length rows" "\<forall>row \<in> set m. \<forall>c. 0 \<le> row c"
    and "sum_list (map (column_sum m) cats) = sum_list rows"
  shows "balanced cats rows (m,
     map (\<lambda>(a, b). max 0 (a - b)) (zip (map (row_sum cats) m) rows),
     map (\<lambda>(a, b). max 0 (b - a)) (zip (map (row_sum cats) m) rows))"
proof -
  have "sum_list (map (row_sum cats) m) = sum_list rows"
    using assms(3) by (simp only: sum_list_row_sums)
  with sum_excess_deficit [of "map (row_sum cats) m" rows] assms show ?thesis
    by (auto simp: balanced_def)
qed

lemma rebalance_exact:
  assumes "length m = length rows" "\<forall>row \<in> set m. \<forall>c. 0 \<le> row c" "\<forall>r \<in> set rows. 0 \<le> r"
    and "sum_list (map (column_sum m) cats) = sum_list rows" "distinct cats"
    and "rebalance cats rows m = (m', e', d')"
  shows "balanced cats rows (m', e', d')" "\<forall>c. column_sum m' c = column_sum m c"
    "\<forall>x \<in> set e'. x = 0" "\<forall>x \<in> set d'. x = 0"
proof -
  let ?e = "map (\<lambda>(a, b). max 0 (a - b)) (zip (map (row_sum cats) m) rows)"
  let ?d = "map (\<lambda>(a, b). max 0 (b - a)) (zip (map (row_sum cats) m) rows)"
  have run: "shift_sources cats (length rows) [0..<length rows] (m, ?e, ?d) = (m', e', d')"
    using assms(6) by (simp only: rebalance_def Let_def)
  note start = rebalance_start [OF assms(1,2,4)]
  have ok: "balanced cats rows (m', e', d') \<and> shrinks (m, ?e, ?d) (m', e', d')"
    using shift_sources_ok [OF start assms(5,3) upt_below] run by (simp only:)
  then show bal: "balanced cats rows (m', e', d')" and "\<forall>c. column_sum m' c = column_sum m c"
    by (simp_all add: shrinks_def)
  have "\<forall>i < length rows. e' ! i = 0"
    by (rule shift_sources_exhausts [OF start assms(5,3) _ _ run]) auto
  with bal show e0: "\<forall>x \<in> set e'. x = 0" by (auto simp: balanced_def in_set_conv_nth)
  then have "sum_list e' = 0" by (intro sum_list_nonneg_eq_0_iff [THEN iffD2]) auto
  moreover have "\<forall>x \<in> set d'. 0 \<le> x" using bal by (auto simp: balanced_def in_set_conv_nth)
  ultimately show "\<forall>x \<in> set d'. x = 0"
    using bal by (simp add: balanced_def sum_list_nonneg_eq_0_iff)
qed

lemma dict_get_tabulate: "dict_get (map (\<lambda>c. (c, f c)) cs) c z = (if c \<in> set cs then f c else z)"
  by (simp add: dict_get_def map_of_map_restrict restrict_map_def)

lemma column_totals_sum:
  assumes "distinct (map fst cols)"
  shows "sum_list (map (column_total cols) (sort (map fst cols))) = sum_list (map snd cols)"
proof -
  have "map (column_total cols) (map fst cols) = map snd cols"
    using assms by (auto simp: column_total_def dict_get_def)
  moreover have "sum_list (map (column_total cols) (sort (map fst cols)))
      = sum_list (map (column_total cols) (map fst cols))"
    by (metis mset_map mset_sort sum_mset_sum_list)
  ultimately show ?thesis by (simp only:)
qed

lemma column_total_nonneg:
  "\<not> list_ex (\<lambda>(c, v). v < 0) cols \<Longrightarrow> 0 \<le> column_total cols c"
  by (auto simp: column_total_def dict_get_def list_ex_iff split: option.splits dest!: map_of_SomeD)

lemma column_totals_zero:
  assumes "\<not> list_ex (\<lambda>(c, v). v < 0) cols" "sum_list (map snd cols) = 0"
  shows "column_total cols c = 0"
proof -
  have "\<forall>v \<in> set (map snd cols). 0 \<le> v" using assms(1) by (auto simp: list_ex_iff)
  with assms(2) have "\<forall>v \<in> set (map snd cols). v = 0"
    by (subst (asm) sum_list_nonneg_eq_0_iff) auto
  then show ?thesis
    by (auto simp: column_total_def dict_get_def split: option.splits dest!: map_of_SomeD)
qed

lemma allocation_matrix_steps:
  assumes nn: "\<not> list_ex (\<lambda>v. v < 0) rows" "\<not> list_ex (\<lambda>(c, v). v < 0) cols"
    and eq: "sum_list rows = sum_list (map snd cols)" and share_out: "distinct (map fst cols)"
  obtains m m' e d where "fill_columns distribute rows (column_total cols) (sort (map fst cols)) = Inr m"
    and "rebalance (sort (map fst cols)) rows m = (m', e, d)"
    and "balanced (sort (map fst cols)) rows (m', e, d)"
    and "\<forall>c. column_sum m' c = column_sum m c" "\<forall>x \<in> set e. x = 0" "\<forall>x \<in> set d. x = 0"
    and "\<forall>c \<in> fst ` set cols. column_sum m c = column_total cols c"
proof -
  let ?cats = "sort (map fst cols)"
  have rows: "\<forall>r \<in> set rows. 0 \<le> r" using nn(1) by (auto simp: list_ex_iff)
  have "rows \<noteq> [] \<or> (\<forall>c \<in> set ?cats. column_total cols c = 0)"
    using column_totals_zero [OF nn(2)] eq by (cases rows) auto
  then obtain m where m: "fill_columns distribute rows (column_total cols) ?cats = Inr m"
    using largest_remainder.fill_columns_returns [of ?cats "column_total cols" rows]
      column_total_nonneg [OF nn(2)] by auto
  obtain m' e d where r: "rebalance ?cats rows m = (m', e, d)" by (cases "rebalance ?cats rows m")
  note cs = largest_remainder.fill_columns_sums [OF m]
  have "map (column_sum m) ?cats = map (column_total cols) ?cats" using cs by auto
  then have "sum_list (map (column_sum m) ?cats) = sum_list rows"
    by (simp only: column_totals_sum [OF share_out] eq)
  from rebalance_exact [OF largest_remainder.fill_columns_length [OF m]
      largest_remainder.fill_columns_nonneg [OF m rows] rows this _ r] share_out
  show thesis using that [OF m r] cs by simp
qed

lemma allocation_matrix_sound:
  assumes "allocation_matrix rows cols = Inr M" "distinct (map fst cols)"
  shows "length M = length rows
    \<and> (\<forall>i < length rows. sum_list (map snd (M ! i)) = rows ! i)
    \<and> (\<forall>(c, v) \<in> set cols. sum_list (map (\<lambda>row. dict_get row c 0) M) = v)
    \<and> (\<forall>row \<in> set M. map fst row = sort (map fst cols) \<and> (\<forall>(c, v) \<in> set row. 0 \<le> v))"
proof -
  let ?cats = "sort (map fst cols)"
  have nn: "\<not> list_ex (\<lambda>v. v < 0) rows" "\<not> list_ex (\<lambda>(c, v). v < 0) cols"
    and eq: "sum_list rows = sum_list (map snd cols)"
    using assms(1) by (auto simp: allocation_matrix_def split: if_splits)
  from allocation_matrix_steps [OF nn eq assms(2)] obtain m m' e d where
    m: "fill_columns distribute rows (column_total cols) ?cats = Inr m" "rebalance ?cats rows m = (m', e, d)"
    and bal: "balanced ?cats rows (m', e, d)" and cs: "\<forall>c. column_sum m' c = column_sum m c"
    and zero: "\<forall>x \<in> set e. x = 0" "\<forall>x \<in> set d. x = 0"
    and ct: "\<forall>c \<in> fst ` set cols. column_sum m c = column_total cols c" .
  have M: "M = map (\<lambda>row. map (\<lambda>c. (c, row c)) ?cats) m'"
    using assms(1) nn eq m by (auto simp: allocation_matrix_def Let_def split: if_splits)
  have row: "row_sum ?cats (m' ! i) = rows ! i" "\<forall>c. 0 \<le> (m' ! i) c" if "i < length rows" for i
  proof -
    have "e ! i = 0" "d ! i = 0" using zero bal that by (auto simp: balanced_def)
    with bal that show "row_sum ?cats (m' ! i) = rows ! i" "\<forall>c. 0 \<le> (m' ! i) c"
      by (auto simp: balanced_def)
  qed
  have len: "length m' = length rows" using bal by (simp add: balanced_def)
  have "\<forall>i < length rows. sum_list (map snd (M ! i)) = rows ! i"
    using row(1) len by (simp add: M row_sum_def comp_def)
  moreover have "sum_list (map (\<lambda>row. dict_get row c 0) M) = v" if "(c, v) \<in> set cols" for c v
  proof -
    have c: "c \<in> set ?cats" using that by force
    have "map (\<lambda>row. dict_get row c 0) M = map (\<lambda>row. row c) m'"
      using c by (simp add: M dict_get_tabulate)
    moreover have "column_total cols c = v"
      using that assms(2) by (simp add: column_total_def dict_get_def)
    moreover have "column_sum m' c = column_total cols c" using cs ct that by force
    ultimately show ?thesis by (simp add: column_sum_def)
  qed
  moreover have "\<forall>row \<in> set m'. \<forall>c. 0 \<le> row c" using row(2) len by (metis in_set_conv_nth)
  ultimately show ?thesis using len by (auto simp: M comp_def)
qed

text \<open>
  C24: The matrix that \<open>_allocation_matrix\<close> returns has exactly the asked row totals and column
  totals, one entry per category in sorted order in every row, and no negative entry.
\<close>

theorem allocation_matrix_exact:
  assumes "allocation_matrix rows cols = Inr M" "distinct (map fst cols)"
  shows "length M = length rows
    \<and> (\<forall>i < length rows. sum_list (map snd (M ! i)) = rows ! i)
    \<and> (\<forall>(c, v) \<in> set cols. sum_list (map (\<lambda>row. dict_get row c 0) M) = v)
    \<and> (\<forall>row \<in> set M. map fst row = sort (map fst cols) \<and> (\<forall>(c, v) \<in> set row. 0 \<le> v))"
  by (rule allocation_matrix_sound [OF assms])

theorem allocation_matrix_exact_witness:
  "sum_list (map snd ([[(''a'', 2), (''b'', 1)], [(''a'', 3), (''b'', 2)]] ! 1)) = (5 :: int)"
proof -
  have "allocation_matrix [3, 5] [(''b'', 3), (''a'', 5)]
      = Inr [[(''a'', 2), (''b'', 1)], [(''a'', 3), (''b'', 2)]]"
    by code_simp
  from allocation_matrix_exact [OF this] show ?thesis by simp
qed

text \<open>
  C28: \<open>_allocation_matrix\<close> never fails to balance: on non-negative margins with equal sums it
  returns a matrix, so its last error is unreachable.
\<close>

theorem allocation_matrix_total:
  assumes "\<forall>r \<in> set rows. 0 \<le> r" "\<forall>(c, v) \<in> set cols. 0 \<le> v"
    and "sum_list rows = sum_list (map snd cols)" "distinct (map fst cols)"
  shows "\<exists>M. allocation_matrix rows cols = Inr M"
proof -
  have nn: "\<not> list_ex (\<lambda>v. v < 0) rows" "\<not> list_ex (\<lambda>(c, v). v < 0) cols"
    using assms(1,2) by (auto simp: list_ex_iff)
  from allocation_matrix_steps [OF nn assms(3,4)] obtain m m' e d where
    "fill_columns distribute rows (column_total cols) (sort (map fst cols)) = Inr m"
    "rebalance (sort (map fst cols)) rows m = (m', e, d)"
    "\<forall>x \<in> set e. x = 0" "\<forall>x \<in> set d. x = 0" .
  with nn assms(3) show ?thesis by (simp add: allocation_matrix_def Let_def list_ex_iff)
qed

theorem allocation_matrix_total_witness:
  "\<exists>M. allocation_matrix [3, 5, 0] [(''tax'', 7), (''fee'', 1)] = Inr M"
  by (rule allocation_matrix_total) simp_all

text \<open>
  C25: \<open>_distribute\<close> splits exactly: the shares add up to the total, one per weight; a positive
  weight sum gives each weight its exact quota rounded down or up, and nothing to a zero weight.
\<close>

theorem distribute_exact:
  assumes "distribute t ws = Inr xs"
  shows "length xs = length ws \<and> sum_list xs = t
    \<and> (0 < sum_list ws \<longrightarrow> (\<forall>i < length ws.
         (xs ! i = \<lfloor>rat_of_int (t * ws ! i) / rat_of_int (sum_list ws)\<rfloor>
          \<or> xs ! i = \<lceil>rat_of_int (t * ws ! i) / rat_of_int (sum_list ws)\<rceil>)
         \<and> (ws ! i = 0 \<longrightarrow> xs ! i = 0)))"
proof -
  have "xs ! i = \<lfloor>rat_of_int (t * ws ! i) / rat_of_int (sum_list ws)\<rfloor>
      \<or> xs ! i = \<lceil>rat_of_int (t * ws ! i) / rat_of_int (sum_list ws)\<rceil>"
    if D: "0 < sum_list ws" and i: "i < length ws" for i
  proof -
    let ?n = "t * ws ! i" and ?D = "sum_list ws"
    have fl: "\<lfloor>rat_of_int ?n / rat_of_int ?D\<rfloor> = ?n div ?D" by (rule floor_divide_of_int_eq)
    have "\<lceil>rat_of_int ?n / rat_of_int ?D\<rceil> = ?n div ?D + 1" if "0 < residue t ws i"
    proof -
      have "?n mod ?D \<noteq> 0" using that by (simp add: residue_def)
      with D show ?thesis
        by (simp add: ceiling_divide_eq_div zdiv_zminus1_eq_if del: of_int_mult)
    qed
    with fl distribute_nth [OF assms D i] show ?thesis by auto
  qed
  with length_distribute [OF assms] sum_distribute [OF assms] distribute_zero_weight [OF assms]
  show ?thesis by blast
qed

theorem distribute_exact_witness: "length [334, 333, 333 :: int] = length [1, 1, 1 :: int]"
proof -
  have "distribute 1000 [1, 1, 1] = Inr [334, 333, 333]" by code_simp
  from distribute_exact [OF this] show ?thesis by blast
qed

end
