(* ===== verification/Keyed_Table.thy ===== *)
theory Keyed_Table
  imports Prelude
begin

text \<open>
  Rebuilding a table of derived rows. \<open>generate_payroll_schedule\<close> and
  \<open>generate_payroll_allocations\<close> end alike: index the existing rows by their natural key, delete
  the rows whose key is no longer desired, overwrite the rows whose key is, and add rows for the
  new keys. \<open>sync_rows\<close> is that ending, over the functions that read a row's key, write a
  desired value over a row, and make a new row with the next primary key; \<open>derived_table\<close> states
  what those functions promise and proves what the rebuilt table then holds.
\<close>

text \<open>The next value of an \<open>INTEGER PRIMARY KEY\<close> column: one more than the largest.\<close>

definition next_id :: "nat list \<Rightarrow> nat" where
  "next_id ids = Suc (foldr max ids 0)"

lemma next_id_fresh: "i \<in> set ids \<Longrightarrow> i < next_id ids"
proof -
  have "i \<le> foldr max ids 0" if "i \<in> set ids"
    using that by (induction ids) (simp, metis foldr.simps(2) comp_apply max.cobounded1
      max.coboundedI2 set_ConsD)
  then show "i \<in> set ids \<Longrightarrow> i < next_id ids" by (simp add: next_id_def le_imp_less_Suc)
qed

text \<open>
  \<open>existing.get(key) or Row(...)\<close>, then set every column: the row with the key is replaced where
  it stands, a new row goes to the end.
\<close>

definition upsert_row ::
  "('r \<Rightarrow> 'k) \<Rightarrow> ('r \<Rightarrow> nat) \<Rightarrow> ('d \<Rightarrow> 'k) \<Rightarrow> ('d \<Rightarrow> 'r \<Rightarrow> 'r) \<Rightarrow> (nat \<Rightarrow> 'd \<Rightarrow> 'r) \<Rightarrow> 'd \<Rightarrow> 'r list \<Rightarrow> 'r list"
where
  "upsert_row key ident dkey put fresh d rows =
     (if \<exists>r \<in> set rows. key r = dkey d
      then map (\<lambda>r. if key r = dkey d then put d r else r) rows
      else rows @ [put d (fresh (next_id (map ident rows)) d)])"

definition sync_rows ::
  "('r \<Rightarrow> 'k) \<Rightarrow> ('r \<Rightarrow> nat) \<Rightarrow> ('d \<Rightarrow> 'k) \<Rightarrow> ('d \<Rightarrow> 'r \<Rightarrow> 'r) \<Rightarrow> (nat \<Rightarrow> 'd \<Rightarrow> 'r)
     \<Rightarrow> 'd list \<Rightarrow> 'r list \<Rightarrow> 'r list"
where
  "sync_rows key ident dkey put fresh ds rows =
     fold (upsert_row key ident dkey put fresh) ds
       (filter (\<lambda>r. key r \<in> dkey ` set ds) rows)"

locale derived_table =
  fixes key :: "'r \<Rightarrow> 'k" and ident :: "'r \<Rightarrow> nat" and dkey :: "'d \<Rightarrow> 'k"
    and put :: "'d \<Rightarrow> 'r \<Rightarrow> 'r" and fresh :: "nat \<Rightarrow> 'd \<Rightarrow> 'r"
  assumes put_key: "key (put d r) = dkey d"
    and put_ident: "ident (put d r) = ident r"
    and put_again: "put d (put d r) = put d r"
    and fresh_ident: "ident (fresh n d) = n"
begin

lemma rewrite_row [simp]:
  "key (if key r = dkey d then put d r else r) = key r"
  "ident (if key r = dkey d then put d r else r) = ident r"
  by (simp_all add: put_key put_ident)

lemma map_key_upsert:
  "map key (upsert_row key ident dkey put fresh d rows) =
     (if dkey d \<in> key ` set rows then map key rows else map key rows @ [dkey d])"
proof -
  have "dkey d \<in> key ` set rows \<longleftrightarrow> (\<exists>r \<in> set rows. key r = dkey d)" by force
  then show ?thesis by (simp add: upsert_row_def put_key comp_def)
qed

lemma keys_upsert:
  "key ` set (upsert_row key ident dkey put fresh d rows) = insert (dkey d) (key ` set rows)"
proof -
  have "key ` set (upsert_row key ident dkey put fresh d rows)
      = set (map key (upsert_row key ident dkey put fresh d rows))" by simp
  then show ?thesis unfolding map_key_upsert by auto
qed

lemma distinct_keys_upsert:
  "distinct (map key rows) \<Longrightarrow> distinct (map key (upsert_row key ident dkey put fresh d rows))"
  by (simp add: map_key_upsert)

lemma distinct_idents_upsert:
  assumes "distinct (map ident rows)"
  shows "distinct (map ident (upsert_row key ident dkey put fresh d rows))"
proof -
  have "next_id (map ident rows) \<notin> ident ` set rows"
    using next_id_fresh [of "next_id (map ident rows)" "map ident rows"] by auto
  moreover have "map ident (map (\<lambda>r. if key r = dkey d then put d r else r) rows) = map ident rows"
    by (simp add: comp_def)
  ultimately show ?thesis
    using assms by (simp add: upsert_row_def put_ident fresh_ident del: map_map)
qed

lemma upsert_row_written:
  assumes "r \<in> set (upsert_row key ident dkey put fresh d rows)" "key r = dkey d"
  shows "\<exists>r0. r = put d r0"
  using assms by (auto simp: upsert_row_def split: if_splits)

lemma upsert_row_other:
  assumes "key r \<noteq> dkey d"
  shows "r \<in> set (upsert_row key ident dkey put fresh d rows) \<longleftrightarrow> r \<in> set rows"
  using assms by (auto simp: upsert_row_def put_key image_iff split: if_splits)

lemma ident_kept_upsert:
  assumes "r \<in> set rows"
  shows "\<exists>r' \<in> set (upsert_row key ident dkey put fresh d rows). ident r' = ident r \<and> key r' = key r"
proof (cases "\<exists>r \<in> set rows. key r = dkey d")
  case True
  then have "(if key r = dkey d then put d r else r) \<in> set (upsert_row key ident dkey put fresh d rows)"
    using assms by (simp add: upsert_row_def)
  then show ?thesis by (rule bexI [rotated]) simp
next
  case False
  with assms show ?thesis by (auto simp: upsert_row_def)
qed

text \<open>The folded table: its keys, its rows, and the identity of the rows that stay.\<close>

lemma keys_sync: "key ` set (sync_rows key ident dkey put fresh ds rows) = dkey ` set ds"
proof -
  have "key ` set (fold (upsert_row key ident dkey put fresh) es t) = dkey ` set es \<union> key ` set t"
    for es t by (induction es arbitrary: t) (auto simp: keys_upsert)
  then show ?thesis by (auto simp: sync_rows_def)
qed

lemma distinct_keys_sync:
  assumes "distinct (map key rows)"
  shows "distinct (map key (sync_rows key ident dkey put fresh ds rows))"
proof -
  have "distinct (map key (fold (upsert_row key ident dkey put fresh) es t))"
    if "distinct (map key t)" for es t
    using that by (induction es arbitrary: t) (auto simp: distinct_keys_upsert)
  with assms show ?thesis by (simp add: sync_rows_def distinct_map_filter)
qed

lemma distinct_idents_sync:
  assumes "distinct (map ident rows)"
  shows "distinct (map ident (sync_rows key ident dkey put fresh ds rows))"
proof -
  have "distinct (map ident (fold (upsert_row key ident dkey put fresh) es t))"
    if "distinct (map ident t)" for es t
    using that by (induction es arbitrary: t) (auto simp: distinct_idents_upsert)
  with assms show ?thesis by (simp add: sync_rows_def distinct_map_filter)
qed

lemma sync_row_written:
  assumes "r \<in> set (sync_rows key ident dkey put fresh ds rows)"
    and "distinct (map dkey ds)"
  shows "\<exists>d \<in> set ds. \<exists>r0. r = put d r0"
proof -
  have "\<exists>d \<in> set es. \<exists>r0. r = put d r0"
    if "r \<in> set (fold (upsert_row key ident dkey put fresh) es t)" "key r \<in> dkey ` set es"
      "distinct (map dkey es)" for es t
    using that
  proof (induction es arbitrary: t rule: rev_induct)
    case (snoc e es)
    let ?t = "fold (upsert_row key ident dkey put fresh) es t"
    show ?case
    proof (cases "key r = dkey e")
      case True
      with snoc.prems(1) have "\<exists>r0. r = put e r0" by (auto intro: upsert_row_written)
      then show ?thesis by auto
    next
      case False
      with snoc.prems have "r \<in> set ?t" "key r \<in> dkey ` set es"
        by (auto simp: upsert_row_other)
      with snoc.IH snoc.prems(3) show ?thesis by auto
    qed
  qed simp
  moreover have "key r \<in> dkey ` set ds"
    using imageI [OF assms(1), of key] by (simp only: keys_sync)
  ultimately show ?thesis
    using assms unfolding sync_rows_def by blast
qed

lemma ident_kept_sync:
  assumes "r \<in> set rows" "key r \<in> dkey ` set ds"
  shows "\<exists>r' \<in> set (sync_rows key ident dkey put fresh ds rows). ident r' = ident r \<and> key r' = key r"
proof -
  have "\<exists>r' \<in> set (fold (upsert_row key ident dkey put fresh) es t). ident r' = ident r \<and> key r' = key r"
    if "\<exists>r' \<in> set t. ident r' = ident r \<and> key r' = key r" for es t
    using that
  proof (induction es arbitrary: t)
    case (Cons e es)
    then have "\<exists>r' \<in> set (upsert_row key ident dkey put fresh e t). ident r' = ident r \<and> key r' = key r"
      using ident_kept_upsert by metis
    with Cons.IH show ?case by simp
  qed simp
  from this [of "filter (\<lambda>r. key r \<in> dkey ` set ds) rows" ds] assms show ?thesis
    unfolding sync_rows_def by (auto simp: image_iff)
qed

text \<open>Rebuilding twice from the same desired rows changes nothing.\<close>

lemma sync_again:
  assumes "distinct (map dkey ds)"
  shows "sync_rows key ident dkey put fresh ds (sync_rows key ident dkey put fresh ds rows)
    = sync_rows key ident dkey put fresh ds rows"
proof -
  let ?t = "sync_rows key ident dkey put fresh ds rows"
  have "key r \<in> dkey ` set ds" if "r \<in> set ?t" for r
    using that keys_sync [of ds rows] by (metis imageI)
  then have keep: "filter (\<lambda>r. key r \<in> dkey ` set ds) ?t = ?t" by (simp add: filter_id_conv)
  have "upsert_row key ident dkey put fresh d ?t = ?t" if d: "d \<in> set ds" for d
  proof -
    have "(if key r = dkey d then put d r else r) = r" if r: "r \<in> set ?t" for r
    proof (cases "key r = dkey d")
      case True
      obtain d' r0 where d': "d' \<in> set ds" "r = put d' r0"
        using sync_row_written [OF r assms] by blast
      with True have "dkey d' = dkey d" by (simp add: put_key)
      with d' d assms have "d' = d" by (auto simp: distinct_map dest: inj_onD)
      with d' show ?thesis by (simp add: put_again)
    qed simp
    then have "map (\<lambda>r. if key r = dkey d then put d r else r) ?t = ?t" by (intro map_idI)
    moreover have "\<exists>r \<in> set ?t. key r = dkey d"
      using d keys_sync [of ds rows] by (metis (mono_tags, lifting) imageE imageI)
    ultimately show ?thesis by (simp only: upsert_row_def if_True)
  qed
  then have "fold (upsert_row key ident dkey put fresh) ds ?t = ?t"
    using fold_preserves [where P = "\<lambda>t. t = ?t"] by metis
  then show ?thesis by (subst sync_rows_def) (simp only: keep)
qed

end

text \<open>
  When the natural key is ordered and the desired rows come in its order, the table read in that
  order is the list of desired rows, each written over some row.
\<close>

locale sorted_table = derived_table key ident dkey put fresh
  for key :: "'r \<Rightarrow> 'k :: linorder" and ident :: "'r \<Rightarrow> nat" and dkey :: "'d \<Rightarrow> 'k"
    and put :: "'d \<Rightarrow> 'r \<Rightarrow> 'r" and fresh :: "nat \<Rightarrow> 'd \<Rightarrow> 'r"
begin

lemma sorted_sync:
  assumes "sorted (map dkey ds)" "distinct (map dkey ds)" "distinct (map key rows)"
  shows "list_all2 (\<lambda>d r. \<exists>r0. r = put d r0) ds (sort_key key (sync_rows key ident dkey put fresh ds rows))"
proof -
  let ?t = "sync_rows key ident dkey put fresh ds rows"
  have "distinct (map key (sort_key key ?t))"
    using distinct_keys_sync [OF assms(3)] mset_map_sort_key [of key key ?t] by (metis mset_eq_imp_distinct_iff)
  moreover have "set (map key (sort_key key ?t)) = set (map dkey ds)"
    using keys_sync [of ds rows] by simp
  ultimately have same: "map key (sort_key key ?t) = map dkey ds"
    using assms(1,2) by (intro sorted_distinct_set_unique) auto
  show ?thesis
  proof (rule list_all2I)
    show len: "length ds = length (sort_key key ?t)" using same by (metis length_map)
    show "\<forall>(d, r) \<in> set (zip ds (sort_key key ?t)). \<exists>r0. r = put d r0"
    proof clarify
      fix d r assume dr: "(d, r) \<in> set (zip ds (sort_key key ?t))"
      then obtain i where i: "i < length ds" "d = ds ! i" "r = sort_key key ?t ! i"
        by (auto simp: in_set_zip)
      then have "key r = dkey d" using same len by (metis nth_map)
      moreover have "r \<in> set ?t" "d \<in> set ds" using dr by (auto dest: set_zip_leftD set_zip_rightD)
      moreover from this(1) obtain d' r0 where d': "d' \<in> set ds" "r = put d' r0"
        using sync_row_written assms(2) by blast
      ultimately have "d' = d" using assms(2) by (auto simp: put_key distinct_map dest: inj_onD)
      with d' show "\<exists>r0. r = put d r0" by blast
    qed
  qed
qed

end

end
