(* ===== verification/Allocations.thy ===== *)
theory Allocations
  imports Models Apportionment Keyed_Table
begin

text \<open>
  \<open>allocations.py\<close>: every paycheck of the schedule is broken into categories. For each section
  the difference between consecutive year-to-date checkpoints is apportioned over the paychecks of
  the interval that have no statement of their own; statement lines are kept as they are; what a
  section still lacks goes to its \<open>.other\<close> category, and the deposit splits become the \<open>net\<close>
  section. The table of allocations is then synchronised with the result.
\<close>

datatype allocation_error = Margin_error margin_error | Section_exceeds string date cents

definition lift_margin :: "(margin_error, 'a) result \<Rightarrow> (allocation_error, 'a) result" where
  "lift_margin r = (case r of Inl e \<Rightarrow> Inl (Margin_error e) | Inr a \<Rightarrow> Inr a)"

lemma lift_margin_Inr [simp]: "lift_margin r = Inr a \<longleftrightarrow> r = Inr a"
  by (auto simp: lift_margin_def split: sum.splits)

definition allocation_version :: string where
  "allocation_version = ''payroll-allocation-v1''"

definition section_prefixes :: "(string \<times> string list) list" where
  "section_prefixes =
     [(''compensation'', [''earnings.'', ''imputed.'']),
      (''pretax'', [''pretax.'']),
      (''tax'', [''taxes.'']),
      (''after_tax'', [''after_tax.'']),
      (''employer'', [''employer_benefit.''])]"

definition section_total_field :: "(string \<times> money_field) list" where
  "section_total_field =
     [(''compensation'', Gross_earnings),
      (''pretax'', Pretax_deductions),
      (''tax'', Tax_withholdings),
      (''after_tax'', After_tax_deductions)]"

definition friendly_labels :: "(string \<times> string) list" where
  "friendly_labels =
     [(''pretax.employee_retirement'', ''Employee 401(k)''),
      (''pretax.employee_hsa'', ''Employee HSA''),
      (''pretax.medical'', ''Medical''),
      (''pretax.dental'', ''Dental''),
      (''pretax.vision'', ''Vision''),
      (''after_tax.employee_stock_purchase'', ''Employee stock plan''),
      (''after_tax.stock_offset'', ''Stock offset''),
      (''employer_benefit.employer_retirement'', ''Employer retirement''),
      (''employer_benefit.employer_hsa'', ''Employer HSA'')]"

definition matches :: "string \<Rightarrow> string list \<Rightarrow> bool" where
  "matches category prefixes = list_ex (starts_with category) prefixes"

text \<open>\<open>int(money(value) * 100)\<close> and \<open>money(Decimal(value) / 100)\<close>, with \<open>int\<close> truncating.\<close>

definition truncate :: "rat \<Rightarrow> int" where
  "truncate x = (if x < 0 then \<lceil>x\<rceil> else \<lfloor>x\<rfloor>)"

definition to_cents :: "cents \<Rightarrow> int" where
  "to_cents v = truncate (dmul (dec v) 100)"

definition from_cents :: "int \<Rightarrow> cents" where
  "from_cents v = money (ddiv (of_int v) 100)"

lemma from_cents_nonneg: "0 \<le> v \<Longrightarrow> 0 \<le> from_cents v"
  by (simp add: from_cents_def ddiv_def money_nonneg ctx_nonneg)

lemma cents_exact:
  assumes "\<bar>v\<bar> < 10 ^ 28"
  shows "to_cents v = v" "from_cents v = v"
  using ctx_exact [of v 0] ctx_exact [of v 2] assms
  by (simp_all add: to_cents_def from_cents_def dmul_def ddiv_def dec_def truncate_def money_def
      half_up.rnd_int)

text \<open>Evaluation takes the short way for such amounts.\<close>

lemma cents_code [code]:
  "to_cents v = (if \<bar>v\<bar> < 10000000000000000000000000000 then v else truncate (dmul (dec v) 100))"
  "from_cents v = (if \<bar>v\<bar> < 10000000000000000000000000000 then v else money (ddiv (of_int v) 100))"
  using cents_exact [of v] by (simp_all add: to_cents_def from_cents_def)

definition label_of :: "string \<Rightarrow> (string, string) dict \<Rightarrow> string" where
  "label_of category observed =
     (case map_of friendly_labels category of
        Some l \<Rightarrow> l
      | None \<Rightarrow>
          (case map_of observed category of
             Some l \<Rightarrow> l
           | None \<Rightarrow> title (map (\<lambda>c. if c = CHR ''_'' then CHR '' '' else c) (after_dot category))))"

definition allocation_fingerprint ::
  "(json \<Rightarrow> string) \<Rightarrow> payroll_schedule_entry \<Rightarrow> string \<Rightarrow> string \<Rightarrow> cents \<Rightarrow> string
     \<Rightarrow> nat option \<Rightarrow> nat option \<Rightarrow> string"
where
  "allocation_fingerprint digest row category sec v source_kind prev nxt =
     digest (JObj
       [(''version'', JStr allocation_version),
        (''schedule'', JStr (se_fingerprint row)),
        (''category'', JStr category),
        (''section'', JStr sec),
        (''amount'', JStr (show_money v)),
        (''source_kind'', JStr source_kind),
        (''previous_checkpoint_id'', jopt prev),
        (''next_checkpoint_id'', jopt nxt)])"

text \<open>\<open>_line_map\<close>: the lines of a statement in key order, and the last label of every category.\<close>

definition lines_of :: "payroll_line_item list \<Rightarrow> nat \<Rightarrow> payroll_line_item list" where
  "lines_of lines sid = filter (\<lambda>l. li_statement_id l = sid) lines"

definition line_labels :: "payroll_line_item list \<Rightarrow> (string, string) dict" where
  "line_labels lines = fold (\<lambda>l. dict_set (li_category l) (li_original_label l)) lines []"

definition checkpoint_values ::
  "payroll_line_item list \<Rightarrow> string list \<Rightarrow> (string, cents) dict \<Rightarrow> (string, cents) dict"
where
  "checkpoint_values lines prefixes previous =
     fold (\<lambda>l current.
        case li_ytd_amount l of
          None \<Rightarrow> current
        | Some y \<Rightarrow> if matches (li_category l) prefixes then dict_set (li_category l) y current else current)
       lines previous"

type_synonym desired = "(nat \<times> string, allocation_values) dict"

text \<open>\<open>_append\<close>: zero amounts are not recorded; an earlier value of the key is replaced.\<close>

definition append_allocation ::
  "(json \<Rightarrow> string) \<Rightarrow> payroll_schedule_entry \<Rightarrow> string \<Rightarrow> string \<Rightarrow> string \<Rightarrow> cents \<Rightarrow> string
     \<Rightarrow> nat option \<Rightarrow> nat option \<Rightarrow> desired \<Rightarrow> desired"
where
  "append_allocation digest row category label sec v source_kind prev nxt d =
     (if v = 0 then d
      else dict_set (se_id row, category)
        \<lparr>av_schedule_entry_id = se_id row, av_category = category, av_label = label,
         av_section = sec, av_amount = v, av_source_kind = source_kind,
         av_previous_checkpoint_id = prev, av_next_checkpoint_id = nxt,
         av_calculation_version = allocation_version,
         av_fingerprint = allocation_fingerprint digest row category sec v source_kind prev nxt\<rparr> d)"

section \<open>One checkpoint interval\<close>

text \<open>
  What the body of the checkpoint loop reads: the digest, the observed labels, the section and its
  prefixes, the lines of every statement, and the checkpoint with the one before it.
\<close>

record interval_env =
  ie_digest :: "json \<Rightarrow> string"
  ie_labels :: "(string, string) dict"
  ie_section :: string
  ie_prefixes :: "string list"
  ie_lines :: "payroll_line_item list"
  ie_previous_id :: "nat option"
  ie_checkpoint_id :: nat

definition exact_lines :: "interval_env \<Rightarrow> payroll_schedule_entry \<Rightarrow> payroll_line_item list" where
  "exact_lines env row =
     (case se_payroll_statement_id row of
        None \<Rightarrow> []
      | Some sid \<Rightarrow> filter (\<lambda>l. matches (li_category l) (ie_prefixes env)) (lines_of (ie_lines env) sid))"

definition append_exact :: "interval_env \<Rightarrow> payroll_schedule_entry \<Rightarrow> desired \<Rightarrow> desired" where
  "append_exact env row d =
     fold (\<lambda>l. append_allocation (ie_digest env) row (li_category l)
            (label_of (li_category l) (ie_labels env)) (ie_section env) (li_amount l) ''statement''
            (ie_previous_id env) (Some (ie_checkpoint_id env)))
       (exact_lines env row) d"

definition exact_values :: "interval_env \<Rightarrow> payroll_schedule_entry \<Rightarrow> (string, cents) dict" where
  "exact_values env row =
     fold (\<lambda>l. dict_set (li_category l) (li_amount l)) (exact_lines env row) []"

text \<open>The cents of each category that the interval's own statements do not explain.\<close>

definition column_cents ::
  "interval_env \<Rightarrow> payroll_schedule_entry list \<Rightarrow> (string, cents) dict \<Rightarrow> (string, cents) dict
     \<Rightarrow> (string, int) dict"
where
  "column_cents env exact_rows previous current =
     fold (\<lambda>category cols.
        let interval_target =
              dict_get current category (dict_get previous category 0) - dict_get previous category 0;
            exact_total = sum_list (map (\<lambda>row. dict_get (exact_values env row) category 0) exact_rows);
            missing = max 0 (to_cents (interval_target - exact_total))
        in if missing \<noteq> 0 then dict_set category missing cols else cols)
       (sort (remdups (map fst previous @ map fst current))) []"

text \<open>One calculated allocation.\<close>

definition append_calculated ::
  "interval_env \<Rightarrow> payroll_schedule_entry \<Rightarrow> string \<Rightarrow> int \<Rightarrow> desired \<Rightarrow> desired"
where
  "append_calculated env row category allocated d =
     append_allocation (ie_digest env) row category (label_of category (ie_labels env))
       (ie_section env) (from_cents allocated) ''calculated''
       (ie_previous_id env) (Some (ie_checkpoint_id env)) d"

text \<open>The employer section has no total on the paycheck: each category follows gross earnings.\<close>

definition allocate_employer ::
  "interval_env \<Rightarrow> payroll_schedule_entry list \<Rightarrow> (string, int) dict \<Rightarrow> desired
     \<Rightarrow> (allocation_error, desired) result"
where
  "allocate_employer env rows cols d =
     (let weights = map (\<lambda>row. to_cents (se_amounts row Gross_earnings)) rows in
      for_each (\<lambda>(category, total_cents) d.
          bind_res (lift_margin (distribute total_cents weights)) (\<lambda>shares.
            Inr (fold (\<lambda>(row, allocated). append_calculated env row category allocated)
              (zip rows shares) d)))
        cols d)"

text \<open>
  Any other section has its paycheck totals as row margins: columns that ask for more than the
  rows hold are scaled down, what the rows hold beyond the columns is the \<open>.other\<close> column.
\<close>

definition fit_columns ::
  "string \<Rightarrow> int list \<Rightarrow> (string, int) dict \<Rightarrow> (allocation_error, (string, int) dict) result"
where
  "fit_columns sec row_cents cols =
     (let residual = sum_list row_cents - sum_list (map snd cols) in
      if residual < 0 then
        let cats = sort (map fst cols) in
        bind_res (lift_margin (distribute (sum_list row_cents) (map (column_total cols) cats)))
          (\<lambda>scaled. Inr (zip cats scaled))
      else if residual \<noteq> 0 then Inr (dict_set (sec @ ''.other'') residual cols)
      else Inr cols)"

definition allocate_section ::
  "interval_env \<Rightarrow> money_field \<Rightarrow> payroll_schedule_entry list \<Rightarrow> (string, int) dict \<Rightarrow> desired
     \<Rightarrow> (allocation_error, desired) result"
where
  "allocate_section env total_field rows cols d =
     (let row_cents = map (\<lambda>row. to_cents (se_amounts row total_field)) rows in
      bind_res (fit_columns (ie_section env) row_cents cols) (\<lambda>cols'.
      bind_res (lift_margin (allocation_matrix row_cents cols')) (\<lambda>m.
        Inr (fold (\<lambda>(row, values) d.
               fold (\<lambda>(category, allocated). append_calculated env row category allocated) values d)
             (zip rows m) d))))"

definition allocate_interval ::
  "interval_env \<Rightarrow> payroll_schedule_entry list \<Rightarrow> (string, cents) dict \<Rightarrow> (string, cents) dict
     \<Rightarrow> desired \<Rightarrow> (allocation_error, desired) result"
where
  "allocate_interval env interval_rows previous current d =
     (let exact_rows = filter (\<lambda>row. exact_lines env row \<noteq> []) interval_rows;
          d' = fold (append_exact env) interval_rows d;
          calculated = filter (\<lambda>row. se_id row \<notin> set (map se_id exact_rows)) interval_rows;
          cols = column_cents env exact_rows previous current
      in case map_of section_total_field (ie_section env) of
           None \<Rightarrow> allocate_employer env calculated cols d'
         | Some total_field \<Rightarrow> allocate_section env total_field calculated cols d')"

section \<open>\<open>generate_payroll_allocations\<close>\<close>

text \<open>The tables the payroll components share, each in the order of its primary key.\<close>

record payroll_db =
  db_statements :: "payroll_statement list"
  db_lines :: "payroll_line_item list"
  db_entries :: "payroll_schedule_entry list"
  db_allocations :: "payroll_allocation list"
  db_matches :: "payroll_transaction_match list"

text \<open>The variables the checkpoint loop carries from one checkpoint to the next.\<close>

record checkpoint_state =
  ck_desired :: desired
  ck_previous_date :: "date option"
  ck_previous_values :: "(string, cents) dict"
  ck_previous_id :: "nat option"

definition section_checkpoints ::
  "payroll_statement list \<Rightarrow> payroll_line_item list \<Rightarrow> string list \<Rightarrow> int \<Rightarrow> payroll_statement list"
where
  "section_checkpoints statements lines prefixes year =
     filter (\<lambda>s. d_year (st_payment_date s) = year
        \<and> list_ex (\<lambda>l. matches (li_category l) prefixes \<and> li_ytd_amount l \<noteq> None) (lines_of lines (st_id s)))
       statements"

definition in_interval :: "date option \<Rightarrow> date \<Rightarrow> date \<Rightarrow> bool" where
  "in_interval previous_date checkpoint_date d \<longleftrightarrow>
     (case previous_date of None \<Rightarrow> True | Some p \<Rightarrow> p < d) \<and> d \<le> checkpoint_date"

definition allocate_checkpoint ::
  "(json \<Rightarrow> string) \<Rightarrow> (string, string) dict \<Rightarrow> payroll_line_item list \<Rightarrow> string \<Rightarrow> string list
     \<Rightarrow> payroll_schedule_entry list \<Rightarrow> payroll_statement \<Rightarrow> checkpoint_state
     \<Rightarrow> (allocation_error, checkpoint_state) result"
where
  "allocate_checkpoint digest labels lines sec prefixes year_rows checkpoint st =
     (let interval_rows =
            filter (\<lambda>r. in_interval (ck_previous_date st) (st_payment_date checkpoint) (se_payment_date r)) year_rows;
          current = checkpoint_values (lines_of lines (st_id checkpoint)) prefixes (ck_previous_values st);
          env = \<lparr>ie_digest = digest, ie_labels = labels, ie_section = sec, ie_prefixes = prefixes,
                 ie_lines = lines, ie_previous_id = ck_previous_id st, ie_checkpoint_id = st_id checkpoint\<rparr>
      in bind_res (allocate_interval env interval_rows (ck_previous_values st) current (ck_desired st))
           (\<lambda>d. Inr \<lparr>ck_desired = d, ck_previous_date = Some (st_payment_date checkpoint),
                     ck_previous_values = current, ck_previous_id = Some (st_id checkpoint)\<rparr>))"

definition payroll_years :: "payroll_schedule_entry list \<Rightarrow> int list" where
  "payroll_years rows = sort (remdups (map se_payroll_year rows))"

definition allocate_year ::
  "(json \<Rightarrow> string) \<Rightarrow> (string, string) dict \<Rightarrow> payroll_statement list \<Rightarrow> payroll_line_item list
     \<Rightarrow> payroll_schedule_entry list \<Rightarrow> string \<Rightarrow> string list \<Rightarrow> int \<Rightarrow> desired
     \<Rightarrow> (allocation_error, desired) result"
where
  "allocate_year digest labels statements lines rows sec prefixes year d =
     bind_res
       (for_each
         (allocate_checkpoint digest labels lines sec prefixes (filter (\<lambda>r. se_payroll_year r = year) rows))
         (section_checkpoints statements lines prefixes year)
         \<lparr>ck_desired = d, ck_previous_date = None, ck_previous_values = [], ck_previous_id = None\<rparr>)
       (\<lambda>st. Inr (ck_desired st))"

definition allocate_checkpoints ::
  "(json \<Rightarrow> string) \<Rightarrow> payroll_statement list \<Rightarrow> payroll_line_item list \<Rightarrow> payroll_schedule_entry list
     \<Rightarrow> (allocation_error, desired) result"
where
  "allocate_checkpoints digest statements lines rows =
     for_each (\<lambda>(sec, prefixes).
         for_each (allocate_year digest (line_labels lines) statements lines rows sec prefixes)
           (payroll_years rows))
       section_prefixes []"

text \<open>What a paycheck's section still lacks goes to its \<open>.other\<close> category.\<close>

definition section_sum :: "desired \<Rightarrow> nat \<Rightarrow> string \<Rightarrow> cents" where
  "section_sum d entry_id sec =
     sum_list (map (\<lambda>(k, v). av_amount v) (filter (\<lambda>((i, c), v). i = entry_id \<and> av_section v = sec) d))"

definition complete_section ::
  "(json \<Rightarrow> string) \<Rightarrow> (string, string) dict \<Rightarrow> payroll_schedule_entry \<Rightarrow> string \<times> money_field
     \<Rightarrow> desired \<Rightarrow> (allocation_error, desired) result"
where
  "complete_section digest labels row sf d =
     (case sf of (sec, field_name) \<Rightarrow>
        let section_residual = se_amounts row field_name - section_sum d (se_id row) sec in
        if section_residual < 0
        then Inl (Section_exceeds sec (se_payment_date row) \<bar>section_residual\<bar>)
        else if section_residual \<noteq> 0 then
          let category = sec @ ''.other'';
              existing_amount =
                (case map_of d (se_id row, category) of None \<Rightarrow> 0 | Some v \<Rightarrow> av_amount v)
          in Inr (append_allocation digest row category (label_of category labels) sec
               (existing_amount + section_residual) ''calculated''
               (se_previous_checkpoint_id row) (se_next_checkpoint_id row) d)
        else Inr d)"

definition complete_sections ::
  "(json \<Rightarrow> string) \<Rightarrow> (string, string) dict \<Rightarrow> payroll_schedule_entry list \<Rightarrow> desired
     \<Rightarrow> (allocation_error, desired) result"
where
  "complete_sections digest labels rows d =
     for_each (\<lambda>row. for_each (complete_section digest labels row) section_total_field) rows d"

text \<open>\<open>str(split.get("last4") or index)\<close>: an empty text falls back to the index too.\<close>

definition split_key :: "nat \<Rightarrow> deposit_split \<Rightarrow> string" where
  "split_key index split =
     (case sp_last4 split of
        None \<Rightarrow> show_nat index
      | Some t \<Rightarrow> if t = [] then show_nat index else t)"

definition append_splits :: "(json \<Rightarrow> string) \<Rightarrow> payroll_schedule_entry \<Rightarrow> desired \<Rightarrow> desired" where
  "append_splits digest row d =
     fold (\<lambda>(index, split) d.
        append_allocation digest row (''net.'' @ split_key index split)
          (if sp_account split = [] then ''Payroll deposit'' else sp_account split)
          ''net'' (sp_amount split)
          (if sp_source_kind split = [] then ''calculated'' else sp_source_kind split)
          (se_previous_checkpoint_id row) (se_next_checkpoint_id row) d)
       (zip [0..<length (se_deposit_splits row)] (se_deposit_splits row)) d"

definition sync_allocations :: "allocation_values list \<Rightarrow> payroll_allocation list \<Rightarrow> payroll_allocation list" where
  "sync_allocations =
     sync_rows (\<lambda>a. (av_schedule_entry_id (pa_values a), av_category (pa_values a))) pa_id
       (\<lambda>v. (av_schedule_entry_id v, av_category v))
       (\<lambda>v a. a\<lparr>pa_values := v\<rparr>) (\<lambda>n v. \<lparr>pa_id = n, pa_values = v\<rparr>)"

definition desired_allocations ::
  "(json \<Rightarrow> string) \<Rightarrow> payroll_db \<Rightarrow> (allocation_error, desired) result"
where
  "desired_allocations digest db =
     (let rows = sort_key se_payment_date (db_entries db);
          statements = sort_key st_payment_date (db_statements db);
          labels = line_labels (db_lines db)
      in bind_res (allocate_checkpoints digest statements (db_lines db) rows) (\<lambda>d1.
         bind_res (complete_sections digest labels rows d1) (\<lambda>d2.
           Inr (fold (append_splits digest) rows d2))))"

text \<open>The result dictionary: the number of rows and their fingerprints in order.\<close>

record allocation_result =
  ar_rows :: nat
  ar_fingerprints :: "string list"

definition generate_payroll_allocations ::
  "(json \<Rightarrow> string) \<Rightarrow> payroll_db \<Rightarrow> (allocation_error, payroll_db \<times> allocation_result) result"
where
  "generate_payroll_allocations digest db =
     bind_res (desired_allocations digest db) (\<lambda>d.
       Inr (db\<lparr>db_allocations := sync_allocations (map snd d) (db_allocations db)\<rparr>,
            \<lparr>ar_rows = length d, ar_fingerprints = sort (map (\<lambda>(k, v). av_fingerprint v) d)\<rparr>))"

section \<open>\<open>allocation_validation\<close>\<close>

record validation_check =
  vc_rule :: string
  vc_entity_id :: "string option"
  vc_status :: string
  vc_residual :: cents
  vc_failures :: "(string \<times> string) list"

definition validation_fields :: "(string \<times> money_field) list" where
  "validation_fields =
     [(''compensation'', Gross_earnings),
      (''pretax'', Pretax_deductions),
      (''tax'', Tax_withholdings),
      (''after_tax'', After_tax_deductions),
      (''net'', Net_payment)]"

definition allocated_amount :: "payroll_allocation list \<Rightarrow> nat \<Rightarrow> string \<Rightarrow> cents" where
  "allocated_amount allocations entry_id sec =
     sum_list (map (\<lambda>a. av_amount (pa_values a))
       (filter (\<lambda>a. av_schedule_entry_id (pa_values a) = entry_id \<and> av_section (pa_values a) = sec)
         allocations))"

definition allocation_failures :: "payroll_db \<Rightarrow> string \<Rightarrow> money_field \<Rightarrow> (string \<times> string) list" where
  "allocation_failures db sec field_name =
     map (\<lambda>row. (isoformat (se_payment_date row),
            show_money (allocated_amount (db_allocations db) (se_id row) sec - se_amounts row field_name)))
       (filter (\<lambda>row. allocated_amount (db_allocations db) (se_id row) sec \<noteq> se_amounts row field_name)
         (sort_key se_payment_date (db_entries db)))"

definition allocation_validation :: "payroll_db \<Rightarrow> validation_check list" where
  "allocation_validation db =
     map (\<lambda>(sec, field_name).
        let failures = allocation_failures db sec field_name in
        \<lparr>vc_rule = ''payroll_allocation_'' @ sec, vc_entity_id = None,
         vc_status = status_of (failures = []),
         vc_residual = (if failures = [] then 0 else int (length failures) * 100),
         vc_failures = failures\<rparr>)
       validation_fields"

end
