(* ===== verification/Payroll_Schedule.thy ===== *)
theory Payroll_Schedule
  imports Allocations "HOL-Library.Product_Lexorder"
begin

text \<open>
  \<open>payroll.py\<close>: the biweekly schedule reconstructed from the imported statements. Every official
  pay date up to the year's last statement gets a draft, copied from its own statement or from the
  nearest one; at every checkpoint the year-to-date values of the statement decide what the last
  calculated draft of the interval is adjusted by. The table of schedule entries is synchronised
  with the drafts and the allocations are rebuilt.

  Texts with characters outside ASCII are their UTF-8 bytes.
\<close>

datatype payroll_error =
    No_checkpoint date money_field
  | Cannot_reconcile money_field date cents
  | Arithmetic_residual date cents
  | Allocations_failed allocation_error

definition schedule_version :: string where
  "schedule_version = ''payroll-history-v1''"

definition schedule_anchor :: date where "schedule_anchor = Date 2026 7 31"
definition scope_start :: date where "scope_start = Date 2025 1 3"
definition scope_end :: date where "scope_end = Date 2026 7 31"

text \<open>
  A \<open>_Draft\<close>. The seven amounts and their adjustments (\<open>adjustments.get(name, ZERO)\<close>) are
  functions of the field, as in \<open>Models\<close>.
\<close>

record draft =
  dr_payment_date :: date
  dr_observed_deposit_date :: date
  dr_period_start :: date
  dr_period_end :: date
  dr_payroll_year :: int
  dr_payroll_index :: nat
  dr_source_kind :: string
  dr_statement_id :: "nat option"
  dr_previous_checkpoint_id :: "nat option"
  dr_next_checkpoint_id :: "nat option"
  dr_employer :: string
  dr_job_title :: "string option"
  dr_base_salary :: cents
  dr_amounts :: amounts
  dr_adjustments :: amounts
  dr_deposit_splits :: "deposit_split list"

section \<open>The official schedule\<close>

text \<open>
  The \<open>while\<close> loop of \<open>official_pay_dates\<close>. A \<open>date\<close> object is always a valid date; the test of
  validity only makes the recursion total on the model's triples.
\<close>

function pay_dates_down :: "date \<Rightarrow> date \<Rightarrow> date \<Rightarrow> date list" where
  "pay_dates_down first end_date current =
     (if valid_date current \<and> valid_date first \<and> first \<le> current
      then (if current \<le> end_date then [current] else [])
             @ pay_dates_down first end_date (add_days current (-14))
      else [])"
  by pat_completeness auto
termination
  by (relation "measure (\<lambda>(first, end_date, current). nat (ordinal current - ordinal first + 1))")
    (auto simp: ordinal_le_iff [symmetric])

declare pay_dates_down.simps [simp del]

definition official_pay_dates :: "date \<Rightarrow> date \<Rightarrow> date list" where
  "official_pay_dates first end_date = sort (pay_dates_down first end_date schedule_anchor)"

definition scope_pay_dates :: "date list" where
  "scope_pay_dates = official_pay_dates scope_start scope_end"

section \<open>Templates and deposit splits\<close>

definition salary_for_date :: "date \<Rightarrow> payroll_statement list \<Rightarrow> cents option" where
  "salary_for_date d statements =
     (let salaries = map st_base_salary statements in
      if d_year d = 2025 \<and> 16826000 \<in> set salaries then Some 16826000
      else if d_year d = 2026 then
        if d \<le> Date 2026 2 13 \<and> 16826000 \<in> set salaries then Some 16826000
        else if d \<le> Date 2026 6 5 \<and> 17056000 \<in> set salaries then Some 17056000
        else if Date 2026 6 19 \<le> d \<and> 19000000 \<in> set salaries then Some 19000000
        else None
      else None)"

text \<open>Python's \<open>min\<close> with a key returns the first minimal element, and so does \<open>arg_min_list\<close>.\<close>

definition template_for_date :: "date \<Rightarrow> payroll_statement list \<Rightarrow> payroll_statement" where
  "template_for_date d statements =
     (let desired_salary = salary_for_date d statements;
          matching = filter (\<lambda>s. case desired_salary of None \<Rightarrow> True | Some v \<Rightarrow> st_base_salary s = v) statements;
          candidates = (if matching = [] then statements else matching)
      in arg_min_list (\<lambda>s. (\<bar>days_between (st_payment_date s) d\<bar>, st_id s)) candidates)"

text \<open>\<open>category.like("net_distribution.%")\<close>: in SQLite \<open>_\<close> matches any character, in either case.\<close>

definition like_net_distribution :: "string \<Rightarrow> bool" where
  "like_net_distribution c \<longleftrightarrow>
     lower (take 3 c) = ''net'' \<and> 4 \<le> length c \<and> starts_with (lower (drop 4 c)) ''distribution.''"

text \<open>The bullet U+2022, and \<open>re.search\<close> for two or more bullets or \<open>X\<close> before four digits.\<close>

definition bullet :: string where
  "bullet = [CHR 0xE2, CHR 0x80, CHR 0xA2]"

function mask_run :: "string \<Rightarrow> nat \<times> string" where
  "mask_run [] = (0, [])"
| "mask_run (c # cs) =
     (if c = CHR ''X'' then (case mask_run cs of (n, rest) \<Rightarrow> (Suc n, rest))
      else if starts_with (c # cs) bullet then (case mask_run (drop 2 cs) of (n, rest) \<Rightarrow> (Suc n, rest))
      else (0, c # cs))"
  by pat_completeness auto
termination by (relation "measure length") auto

definition last4_here :: "string \<Rightarrow> string option" where
  "last4_here s =
     (case mask_run s of (n, rest) \<Rightarrow>
        if 2 \<le> n \<and> 4 \<le> length rest \<and> list_all is_digit (take 4 rest) then Some (take 4 rest) else None)"

fun label_last4 :: "string \<Rightarrow> string option" where
  "label_last4 [] = None"
| "label_last4 (c # cs) = (case last4_here (c # cs) of Some t \<Rightarrow> Some t | None \<Rightarrow> label_last4 cs)"

definition statement_split :: "payroll_line_item \<Rightarrow> deposit_split" where
  "statement_split line =
     (let label = li_original_label line;
          last4 = label_last4 label;
          legacy = contains (lower label) ''provident'' \<or> contains (lower label) ''axos''
      in \<lparr>sp_institution = ''SoFi'',
          sp_account =
            (case (legacy, last4) of
               (True, Some t) \<Rightarrow> ''SoFi legacy '' @ bullet @ bullet @ t
             | _ \<Rightarrow> replace_all ''Provident'' ''SoFi'' (replace_all ''PROVIDENT'' ''SoFi'' label)),
          sp_last4 = last4,
          sp_amount = li_amount line,
          sp_source_kind = ''statement''\<rparr>)"

definition calculated_splits :: "draft \<Rightarrow> deposit_split list" where
  "calculated_splits d =
     (if dr_base_salary d = 19000000 \<and> 150000 \<le> dr_amounts d Net_payment then
        [\<lparr>sp_institution = ''SoFi'', sp_account = ''SoFi Checking '' @ bullet @ bullet @ ''1206'',
          sp_last4 = Some ''1206'', sp_amount = 150000, sp_source_kind = ''calculated''\<rparr>,
         \<lparr>sp_institution = ''SoFi'', sp_account = ''SoFi Savings '' @ bullet @ bullet @ ''0697'',
          sp_last4 = Some ''0697'', sp_amount = dr_amounts d Net_payment - 150000,
          sp_source_kind = ''calculated''\<rparr>]
      else
        [\<lparr>sp_institution = ''SoFi'', sp_account = ''SoFi payroll'', sp_last4 = None,
          sp_amount = dr_amounts d Net_payment, sp_source_kind = ''calculated''\<rparr>])"

definition normalized_splits ::
  "payroll_line_item list \<Rightarrow> draft \<Rightarrow> payroll_statement option \<Rightarrow> deposit_split list"
where
  "normalized_splits lines d statement =
     (let rows =
        (case statement of
           None \<Rightarrow> []
         | Some s \<Rightarrow>
             map statement_split
               (filter (\<lambda>l. like_net_distribution (li_category l)) (lines_of lines (st_id s))))
      in if rows \<noteq> [] then rows else calculated_splits d)"

section \<open>\<open>_fingerprint\<close> and \<open>_checkpoint_value\<close>\<close>

definition field_name :: "money_field \<Rightarrow> string" where
  "field_name f =
     (case f of
        Gross_earnings \<Rightarrow> ''gross_earnings'' | Imputed_earnings \<Rightarrow> ''imputed_earnings''
      | Pretax_deductions \<Rightarrow> ''pretax_deductions'' | Tax_withholdings \<Rightarrow> ''tax_withholdings''
      | After_tax_deductions \<Rightarrow> ''after_tax_deductions''
      | Federal_taxable_gross \<Rightarrow> ''federal_taxable_gross'' | Net_payment \<Rightarrow> ''net_payment'')"

definition adjustment_name :: "money_field \<Rightarrow> string" where
  "adjustment_name f =
     (case f of
        Gross_earnings \<Rightarrow> ''gross_adjustment'' | Imputed_earnings \<Rightarrow> ''imputed_adjustment''
      | Pretax_deductions \<Rightarrow> ''pretax_adjustment'' | Tax_withholdings \<Rightarrow> ''tax_adjustment''
      | After_tax_deductions \<Rightarrow> ''after_tax_adjustment''
      | Federal_taxable_gross \<Rightarrow> ''federal_taxable_adjustment'' | Net_payment \<Rightarrow> ''net_adjustment'')"

definition split_json :: "deposit_split \<Rightarrow> json" where
  "split_json s =
     JObj [(''institution'', JStr (sp_institution s)), (''account'', JStr (sp_account s)),
       (''last4'', case sp_last4 s of None \<Rightarrow> JNull | Some t \<Rightarrow> JStr t),
       (''amount'', JStr (show_money (sp_amount s))), (''source_kind'', JStr (sp_source_kind s))]"

definition draft_fingerprint :: "(json \<Rightarrow> string) \<Rightarrow> draft \<Rightarrow> string" where
  "draft_fingerprint digest d =
     digest (JObj (
       [(''calculation_version'', JStr schedule_version),
        (''payment_date'', JStr (isoformat (dr_payment_date d))),
        (''observed_deposit_date'', JStr (isoformat (dr_observed_deposit_date d))),
        (''source_kind'', JStr (dr_source_kind d)),
        (''statement_id'', jopt (dr_statement_id d)),
        (''previous_checkpoint_id'', jopt (dr_previous_checkpoint_id d)),
        (''next_checkpoint_id'', jopt (dr_next_checkpoint_id d)),
        (''employer'', JStr (dr_employer d)),
        (''job_title'', case dr_job_title d of None \<Rightarrow> JNull | Some t \<Rightarrow> JStr t),
        (''base_salary'', JStr (show_money (dr_base_salary d)))]
       @ map (\<lambda>f. (field_name f, JStr (show_money (dr_amounts d f)))) money_fields
       @ [(''adjustments'',
            JObj (map (\<lambda>f. (adjustment_name f, JStr (show_money (dr_adjustments d f)))) money_fields)),
          (''deposit_splits'', JList (map split_json (dr_deposit_splits d)))]))"

definition checkpoint_value :: "payroll_statement \<Rightarrow> money_field \<Rightarrow> (payroll_error, cents) result" where
  "checkpoint_value s f =
     (case st_ytd_values s f of
        None \<Rightarrow> Inl (No_checkpoint (st_payment_date s) f)
      | Some raw \<Rightarrow> Inr (money raw))"

section \<open>\<open>_build_drafts\<close>: one draft per official date\<close>

definition scope_statements :: "payroll_statement list \<Rightarrow> payroll_statement list" where
  "scope_statements statements =
     sort_key st_payment_date
       (filter (\<lambda>s. scope_start \<le> st_payment_date s \<and> st_payment_date s \<le> scope_end) statements)"

definition statements_by_date :: "payroll_statement list \<Rightarrow> (date, payroll_statement) dict" where
  "statements_by_date statements = fold (\<lambda>s. dict_set (st_payment_date s) s) statements []"

definition statement_years :: "payroll_statement list \<Rightarrow> int list" where
  "statement_years statements = remdups (map (\<lambda>s. d_year (st_payment_date s)) statements)"

definition latest_of_year :: "payroll_statement list \<Rightarrow> int \<Rightarrow> date" where
  "latest_of_year statements year =
     Max (set (map st_payment_date (filter (\<lambda>s. d_year (st_payment_date s) = year) statements)))"

definition draft_dates :: "payroll_statement list \<Rightarrow> date list" where
  "draft_dates statements =
     filter (\<lambda>d. d_year d \<in> set (statement_years statements) \<and> d \<le> latest_of_year statements (d_year d))
       scope_pay_dates"

definition new_draft :: "payroll_statement list \<Rightarrow> date \<Rightarrow> nat \<Rightarrow> draft" where
  "new_draft statements d index =
     (let statement = map_of (statements_by_date statements) d;
          template = (case statement of Some s \<Rightarrow> s | None \<Rightarrow> template_for_date d statements);
          period_end = add_days d (-6)
      in \<lparr>dr_payment_date = d,
          dr_observed_deposit_date =
            (case Option.bind statement st_observed_deposit_date of Some o_date \<Rightarrow> o_date | None \<Rightarrow> add_days d (-2)),
          dr_period_start = (case statement of Some s \<Rightarrow> st_period_start s | None \<Rightarrow> add_days period_end (-13)),
          dr_period_end = (case statement of Some s \<Rightarrow> st_period_end s | None \<Rightarrow> period_end),
          dr_payroll_year = d_year d,
          dr_payroll_index = index,
          dr_source_kind = (case statement of Some s \<Rightarrow> ''statement'' | None \<Rightarrow> ''calculated''),
          dr_statement_id = map_option st_id statement,
          dr_previous_checkpoint_id = None,
          dr_next_checkpoint_id = map_option st_id statement,
          dr_employer = st_employer template,
          dr_job_title = st_job_title template,
          dr_base_salary = st_base_salary template,
          dr_amounts = st_amounts template,
          dr_adjustments = (\<lambda>_. 0),
          dr_deposit_splits = []\<rparr>)"

text \<open>The loop over the dates counts the paychecks of every year.\<close>

definition add_draft ::
  "payroll_statement list \<Rightarrow> date \<Rightarrow> (int, nat) dict \<times> draft list \<Rightarrow> (int, nat) dict \<times> draft list"
where
  "add_draft statements d st =
     (let index = dict_get (fst st) (d_year d) 0 + 1
      in (dict_set (d_year d) index (fst st), snd st @ [new_draft statements d index]))"

definition initial_drafts :: "payroll_statement list \<Rightarrow> draft list" where
  "initial_drafts statements = snd (fold (add_draft statements) (draft_dates statements) ([], []))"

section \<open>\<open>_build_drafts\<close>: the checkpoints\<close>

text \<open>
  The drafts are objects that several lists share; here they are positions of one list, and a
  write goes to the list.
\<close>

definition adjust_draft :: "money_field \<Rightarrow> cents \<Rightarrow> draft \<Rightarrow> draft" where
  "adjust_draft f residual d =
     d\<lparr>dr_amounts := (dr_amounts d)(f := dr_amounts d f + residual),
       dr_adjustments := (dr_adjustments d)(f := dr_adjustments d f + residual)\<rparr>"

definition balance_field ::
  "payroll_statement \<Rightarrow> nat list \<Rightarrow> nat list \<Rightarrow> money_field \<Rightarrow> draft list \<times> amounts
     \<Rightarrow> (payroll_error, draft list \<times> amounts) result"
where
  "balance_field checkpoint interval calculated f st =
     (let drafts = fst st; previous_ytd = snd st in
      bind_res (checkpoint_value checkpoint f) (\<lambda>checkpoint_ytd.
        let interval_target = checkpoint_ytd - previous_ytd f;
            interval_current = sum_list (map (\<lambda>i. dr_amounts (drafts ! i) f) interval);
            residual = interval_target - interval_current
        in if residual \<noteq> 0 then
             if calculated = [] then Inl (Cannot_reconcile f (st_payment_date checkpoint) residual)
             else let target = last calculated
                  in Inr (drafts[target := adjust_draft f residual (drafts ! target)],
                          previous_ytd(f := checkpoint_ytd))
           else Inr (drafts, previous_ytd(f := checkpoint_ytd))))"

record balance_state =
  ba_drafts :: "draft list"
  ba_previous_date :: "date option"
  ba_previous_ytd :: amounts
  ba_previous_id :: "nat option"

definition interval_positions :: "int \<Rightarrow> date option \<Rightarrow> date \<Rightarrow> draft list \<Rightarrow> nat list" where
  "interval_positions year previous_date checkpoint_date drafts =
     filter (\<lambda>i. dr_payroll_year (drafts ! i) = year
        \<and> in_interval previous_date checkpoint_date (dr_payment_date (drafts ! i)))
       [0..<length drafts]"

definition mark_calculated :: "nat option \<Rightarrow> nat \<Rightarrow> nat list \<Rightarrow> draft list \<Rightarrow> draft list" where
  "mark_calculated previous_id checkpoint_id calculated drafts =
     fold (\<lambda>i ds. ds[i := (ds ! i)\<lparr>dr_previous_checkpoint_id := previous_id,
             dr_next_checkpoint_id := Some checkpoint_id\<rparr>]) calculated drafts"

definition balance_checkpoint ::
  "int \<Rightarrow> payroll_statement \<Rightarrow> balance_state \<Rightarrow> (payroll_error, balance_state) result"
where
  "balance_checkpoint year checkpoint st =
     (let interval = interval_positions year (ba_previous_date st) (st_payment_date checkpoint) (ba_drafts st);
          calculated = filter (\<lambda>i. dr_source_kind (ba_drafts st ! i) = ''calculated'') interval;
          drafts = mark_calculated (ba_previous_id st) (st_id checkpoint) calculated (ba_drafts st)
      in bind_res (for_each (balance_field checkpoint interval calculated) money_fields
             (drafts, ba_previous_ytd st)) (\<lambda>r.
           Inr \<lparr>ba_drafts = fst r, ba_previous_date = Some (st_payment_date checkpoint),
                ba_previous_ytd = snd r, ba_previous_id = Some (st_id checkpoint)\<rparr>))"

definition balance_year ::
  "payroll_statement list \<Rightarrow> int \<Rightarrow> draft list \<Rightarrow> (payroll_error, draft list) result"
where
  "balance_year statements year drafts =
     bind_res (for_each (balance_checkpoint year)
         (filter (\<lambda>s. d_year (st_payment_date s) = year) statements)
         \<lparr>ba_drafts = drafts, ba_previous_date = None, ba_previous_ytd = (\<lambda>_. 0), ba_previous_id = None\<rparr>)
       (\<lambda>st. Inr (ba_drafts st))"

definition arithmetic_residual :: "amounts \<Rightarrow> cents" where
  "arithmetic_residual a =
     a Gross_earnings - a Imputed_earnings - a Pretax_deductions - a Tax_withholdings
       - a After_tax_deductions - a Net_payment"

definition finish_draft ::
  "payroll_line_item list \<Rightarrow> payroll_statement list \<Rightarrow> draft \<Rightarrow> (payroll_error, draft) result"
where
  "finish_draft lines statements d =
     (let statement = map_of (statements_by_date statements) (dr_payment_date d);
          d' = d\<lparr>dr_deposit_splits := normalized_splits lines d statement\<rparr>;
          arithmetic = arithmetic_residual (dr_amounts d)
      in if arithmetic \<noteq> 0 then Inl (Arithmetic_residual (dr_payment_date d) arithmetic) else Inr d')"

definition build_drafts ::
  "payroll_statement list \<Rightarrow> payroll_line_item list \<Rightarrow> (payroll_error, draft list) result"
where
  "build_drafts all_statements lines =
     (let statements = scope_statements all_statements in
      if statements = [] then Inr []
      else bind_res (for_each (balance_year statements) (sort (statement_years statements))
               (initial_drafts statements))
             (map_res (finish_draft lines statements)))"

section \<open>\<open>generate_payroll_schedule\<close>\<close>

definition write_entry :: "(json \<Rightarrow> string) \<Rightarrow> draft \<Rightarrow> payroll_schedule_entry \<Rightarrow> payroll_schedule_entry" where
  "write_entry digest d row =
     row\<lparr>se_payroll_statement_id := dr_statement_id d,
         se_previous_checkpoint_id := dr_previous_checkpoint_id d,
         se_next_checkpoint_id := dr_next_checkpoint_id d,
         se_payment_date := dr_payment_date d,
         se_observed_deposit_date := dr_observed_deposit_date d,
         se_period_start := dr_period_start d,
         se_period_end := dr_period_end d,
         se_payroll_year := dr_payroll_year d,
         se_payroll_index := dr_payroll_index d,
         se_source_kind := dr_source_kind d,
         se_calculation_version := schedule_version,
         se_employer := dr_employer d,
         se_job_title := dr_job_title d,
         se_base_salary := dr_base_salary d,
         se_amounts := dr_amounts d,
         se_adjustments := dr_adjustments d,
         se_deposit_splits := dr_deposit_splits d,
         se_fingerprint := draft_fingerprint digest d\<rparr>"

definition new_entry :: "(json \<Rightarrow> string) \<Rightarrow> nat \<Rightarrow> draft \<Rightarrow> payroll_schedule_entry" where
  "new_entry digest n d =
     \<lparr>se_id = n, se_payroll_statement_id = None, se_previous_checkpoint_id = None,
      se_next_checkpoint_id = None, se_payment_date = dr_payment_date d,
      se_observed_deposit_date = dr_observed_deposit_date d, se_period_start = dr_period_start d,
      se_period_end = dr_period_end d, se_payroll_year = dr_payroll_year d,
      se_payroll_index = dr_payroll_index d, se_source_kind = dr_source_kind d,
      se_calculation_version = schedule_version, se_employer = dr_employer d,
      se_job_title = dr_job_title d, se_base_salary = dr_base_salary d, se_amounts = dr_amounts d,
      se_adjustments = (\<lambda>_. 0), se_deposit_splits = [], se_fingerprint = draft_fingerprint digest d\<rparr>"

definition sync_entries ::
  "(json \<Rightarrow> string) \<Rightarrow> draft list \<Rightarrow> payroll_schedule_entry list \<Rightarrow> payroll_schedule_entry list"
where
  "sync_entries digest =
     sync_rows se_payment_date se_id dr_payment_date (write_entry digest) (new_entry digest)"

text \<open>
  Deleting an entry deletes its allocations with it (the relationship's cascade); every match of
  a transaction is deleted first.
\<close>

definition rebuild_entries :: "(json \<Rightarrow> string) \<Rightarrow> draft list \<Rightarrow> payroll_db \<Rightarrow> payroll_db" where
  "rebuild_entries digest drafts db =
     (let kept = map se_id (filter (\<lambda>r. se_payment_date r \<in> dr_payment_date ` set drafts) (db_entries db)) in
      db\<lparr>db_matches := [],
         db_entries := sync_entries digest drafts (db_entries db),
         db_allocations := filter (\<lambda>a. av_schedule_entry_id (pa_values a) \<in> set kept) (db_allocations db)\<rparr>)"

record schedule_result =
  sr_rows :: nat
  sr_statement_rows :: nat
  sr_calculated_rows :: nat
  sr_version :: string
  sr_fingerprints :: "string list"
  sr_allocations :: allocation_result

definition generate_payroll_schedule ::
  "(json \<Rightarrow> string) \<Rightarrow> payroll_db \<Rightarrow> (payroll_error, payroll_db \<times> schedule_result) result"
where
  "generate_payroll_schedule digest db =
     bind_res (build_drafts (db_statements db) (db_lines db)) (\<lambda>drafts.
       case generate_payroll_allocations digest (rebuild_entries digest drafts db) of
         Inl e \<Rightarrow> Inl (Allocations_failed e)
       | Inr (db', ar) \<Rightarrow>
           Inr (db',
             \<lparr>sr_rows = length drafts,
              sr_statement_rows = length (filter (\<lambda>d. dr_source_kind d = ''statement'') drafts),
              sr_calculated_rows = length (filter (\<lambda>d. dr_source_kind d = ''calculated'') drafts),
              sr_version = schedule_version,
              sr_fingerprints =
                map (\<lambda>d. isoformat (dr_payment_date d) @ '':'' @ draft_fingerprint digest d) drafts,
              sr_allocations = ar\<rparr>))"

section \<open>\<open>schedule_validation\<close>\<close>

definition cadence_failures :: "payroll_schedule_entry list \<Rightarrow> (date \<times> date) list" where
  "cadence_failures rows =
     map (\<lambda>(l, r). (se_payment_date l, se_payment_date r))
       (filter (\<lambda>(l, r). days_between (se_payment_date r) (se_payment_date l) \<noteq> 14)
         (zip rows (tl rows)))"

definition cadence_check :: "payroll_schedule_entry list \<Rightarrow> validation_check" where
  "cadence_check rows =
     (let failures = cadence_failures rows in
      \<lparr>vc_rule = ''fourteen_day_cadence'', vc_entity_id = None, vc_status = status_of (failures = []),
       vc_residual = int (length failures) * 100,
       vc_failures = map (\<lambda>(l, r). (isoformat l, isoformat r)) failures\<rparr>)"

definition coverage_check :: "payroll_schedule_entry list \<Rightarrow> int \<Rightarrow> validation_check" where
  "coverage_check rows year =
     (let year_rows = filter (\<lambda>r. se_payroll_year r = year) rows;
          expected = filter (\<lambda>d. d_year d = year \<and> d \<le> se_payment_date (last year_rows)) scope_pay_dates;
          actual = map se_payment_date year_rows
      in \<lparr>vc_rule = ''payroll_year_'' @ show_nat (nat year) @ ''_coverage'', vc_entity_id = None,
          vc_status = status_of (actual = expected),
          vc_residual = (int (length actual) - int (length expected)) * 100,
          vc_failures = [(''expected'', show_nat (length expected)), (''actual'', show_nat (length actual))]\<rparr>)"

definition arithmetic_check :: "payroll_schedule_entry list \<Rightarrow> validation_check" where
  "arithmetic_check rows =
     (let failures =
        map (\<lambda>r. (isoformat (se_payment_date r), show_money (arithmetic_residual (se_amounts r))))
          (filter (\<lambda>r. arithmetic_residual (se_amounts r) \<noteq> 0) rows)
      in \<lparr>vc_rule = ''calculated_payroll_arithmetic'', vc_entity_id = None,
          vc_status = status_of (failures = []), vc_residual = 0, vc_failures = failures\<rparr>)"

definition ytd_residual ::
  "payroll_schedule_entry list \<Rightarrow> payroll_statement \<Rightarrow> money_field \<Rightarrow> (payroll_error, cents) result"
where
  "ytd_residual rows s f =
     bind_res (checkpoint_value s f) (\<lambda>ytd.
       Inr (sum_list (map (\<lambda>r. se_amounts r f)
              (filter (\<lambda>r. se_payroll_year r = d_year (st_payment_date s) \<and> se_payment_date r \<le> st_payment_date s)
                rows)) - ytd))"

definition ytd_check ::
  "payroll_schedule_entry list \<Rightarrow> payroll_statement \<Rightarrow> (payroll_error, validation_check) result"
where
  "ytd_check rows s =
     bind_res (map_res (ytd_residual rows s) money_fields) (\<lambda>residuals.
       let failed = filter (\<lambda>(f, v). v \<noteq> 0) (zip money_fields residuals) in
       Inr \<lparr>vc_rule = ''checkpoint_ytd'', vc_entity_id = Some (show_nat (st_id s)),
            vc_status = status_of (failed = []),
            vc_residual = sum_list (map (\<lambda>(f, v). \<bar>v\<bar>) failed),
            vc_failures = map (\<lambda>(f, v). (field_name f, show_money v)) failed\<rparr>)"

definition schedule_validation :: "payroll_db \<Rightarrow> (payroll_error, validation_check list) result" where
  "schedule_validation db =
     (let rows = sort_key se_payment_date (db_entries db) in
      bind_res (map_res (ytd_check rows) (sort_key st_payment_date (db_statements db))) (\<lambda>ytd_checks.
        Inr ([cadence_check rows]
             @ map (coverage_check rows) (payroll_years rows)
             @ [arithmetic_check rows]
             @ ytd_checks
             @ allocation_validation db)))"

end
