(* ===== verification/Allocation_Facts.thy ===== *)
theory Allocation_Facts
  imports Allocations
begin

text \<open>
  What \<open>generate_payroll_allocations\<close> achieves: the invariant of the desired rows, the completion of
  every section, and the checks of \<open>allocation_validation\<close> on the rebuilt table.
\<close>

section \<open>Categories belong to one section\<close>

definition section_category :: "string \<Rightarrow> string \<Rightarrow> bool" where
  "section_category sec c \<longleftrightarrow>
     sec = ''net'' \<and> starts_with c ''net.'' \<or>
     (\<exists>p. (sec, p) \<in> set section_prefixes \<and> (matches c p \<or> c = sec @ ''.other''))"

lemma other_categories_apart:
  "list_all (\<lambda>(s, f). list_all (\<lambda>(sec, p).
     (matches (s @ ''.other'') p \<or> s @ ''.other'' = sec @ ''.other'') \<longrightarrow> sec = s) section_prefixes
     \<and> \<not> starts_with (s @ ''.other'') ''net.'') section_total_field"
  by code_simp

lemma section_category_other:
  assumes "(s, f) \<in> set section_total_field" "section_category sec (s @ ''.other'')"
  shows "sec = s"
  using assms other_categories_apart by (fastforce simp: section_category_def list_all_iff)

lemma no_section_starts_with_n:
  "list_all (\<lambda>(sec, ps). sec \<noteq> [] \<and> hd sec \<noteq> CHR ''n''
     \<and> list_all (\<lambda>p. p \<noteq> [] \<and> hd p \<noteq> CHR ''n'') ps) section_prefixes"
  by code_simp

lemma starts_with_hd: "starts_with s p \<Longrightarrow> p \<noteq> [] \<Longrightarrow> hd s = hd p"
  by (cases s; cases p) (auto simp: starts_with_def)

lemma section_category_net:
  assumes "section_category sec (''net.'' @ x)"
  shows "sec = ''net''"
proof (rule ccontr)
  assume "sec \<noteq> ''net''"
  then obtain ps where ps: "(sec, ps) \<in> set section_prefixes"
    and c: "matches (''net.'' @ x) ps \<or> ''net.'' @ x = sec @ ''.other''"
    using assms unfolding section_category_def by blast
  have sec: "sec \<noteq> []" "hd sec \<noteq> CHR ''n''" and p: "\<forall>p \<in> set ps. p \<noteq> [] \<and> hd p \<noteq> CHR ''n''"
    using no_section_starts_with_n ps by (auto simp: list_all_iff)
  have n: "hd (''net.'' @ x) = CHR ''n''" by simp
  from c show False
  proof
    assume "matches (''net.'' @ x) ps"
    then obtain q where q: "q \<in> set ps" "starts_with (''net.'' @ x) q"
      unfolding matches_def list_ex_iff by blast
    with p have ne: "q \<noteq> []" "hd q \<noteq> CHR ''n''" by blast+
    have "hd (''net.'' @ x) = hd q" by (rule starts_with_hd [OF q(2) ne(1)])
    with n ne(2) show False by (simp only:)
  next
    assume "''net.'' @ x = sec @ ''.other''"
    then have "hd (''net.'' @ x) = hd (sec @ ''.other'')" by (rule arg_cong)
    also have "\<dots> = hd sec" using sec(1) by (rule hd_append2)
    finally show False using n sec(2) by (simp only:)
  qed
qed

lemma section_fields_check:
  "list_all (\<lambda>(s, f). list_ex (\<lambda>(sec, p). sec = s) section_prefixes \<and> s \<noteq> ''net'' \<and> s \<noteq> ''employer'')
     section_total_field
   \<and> list_all (\<lambda>(sec, p). sec = ''employer'' \<or> list_ex (\<lambda>(s, f). s = sec) section_total_field) section_prefixes
   \<and> distinct (map fst section_total_field)"
  by code_simp

lemma section_fields:
  "(s, f) \<in> set section_total_field \<Longrightarrow> \<exists>p. (s, p) \<in> set section_prefixes"
  using section_fields_check unfolding list_all_iff list_ex_iff by fastforce

lemma section_field_names:
  "(s, f) \<in> set section_total_field \<Longrightarrow> s \<noteq> ''net'' \<and> s \<noteq> ''employer''"
  using section_fields_check unfolding list_all_iff by fastforce

lemma distinct_section_fields: "distinct (map fst section_total_field)"
  using section_fields_check by blast

section \<open>The invariant of the desired rows\<close>

definition entry_ok :: "nat \<times> string \<Rightarrow> allocation_values \<Rightarrow> bool" where
  "entry_ok k v \<longleftrightarrow>
     av_schedule_entry_id v = fst k \<and> av_category v = snd k
     \<and> av_section v \<in> fst ` set section_prefixes \<and> section_category (av_section v) (snd k)
     \<and> (snd k = av_section v @ ''.other'' \<longrightarrow> av_section v \<noteq> ''employer'' \<longrightarrow> 0 \<le> av_amount v)"

definition desired_ok :: "desired \<Rightarrow> bool" where
  "desired_ok d \<longleftrightarrow> dict_wf d \<and> (\<forall>k v. map_of d k = Some v \<longrightarrow> entry_ok k v)"

lemma desired_ok_Nil [simp]: "desired_ok []"
  by (simp add: desired_ok_def)

lemma desired_ok_append:
  assumes "desired_ok d" "sec \<in> fst ` set section_prefixes" "section_category sec category"
    and "category = sec @ ''.other'' \<Longrightarrow> sec \<noteq> ''employer'' \<Longrightarrow> 0 \<le> v"
  shows "desired_ok (append_allocation digest row category label sec v source_kind prev nxt d)"
  using assms by (auto simp: desired_ok_def append_allocation_def entry_ok_def)

text \<open>No statement line books a negative amount under the \<open>.other\<close> category of a section.\<close>

definition no_negative_other :: "payroll_line_item list \<Rightarrow> bool" where
  "no_negative_other lines \<longleftrightarrow>
     list_all (\<lambda>l. list_all (\<lambda>(sec, f). li_category l = sec @ ''.other'' \<longrightarrow> 0 \<le> li_amount l)
       section_total_field) lines"

definition env_ok :: "interval_env \<Rightarrow> bool" where
  "env_ok env \<longleftrightarrow> (ie_section env, ie_prefixes env) \<in> set section_prefixes \<and> no_negative_other (ie_lines env)"

lemma env_section_field:
  assumes "env_ok env" "ie_section env \<noteq> ''employer''"
  shows "\<exists>f. (ie_section env, f) \<in> set section_total_field"
  using assms section_fields_check unfolding env_ok_def list_all_iff list_ex_iff by fastforce

lemma env_section: "env_ok env \<Longrightarrow> ie_section env \<in> fst ` set section_prefixes"
  unfolding env_ok_def by force

lemma env_ok_line:
  assumes "env_ok env" "l \<in> set (exact_lines env row)"
  shows "section_category (ie_section env) (li_category l)"
    and "li_category l = ie_section env @ ''.other'' \<Longrightarrow> ie_section env \<noteq> ''employer'' \<Longrightarrow> 0 \<le> li_amount l"
proof -
  have l: "l \<in> set (ie_lines env)" "matches (li_category l) (ie_prefixes env)"
    using assms(2) by (auto simp: exact_lines_def lines_of_def split: option.splits)
  then show "section_category (ie_section env) (li_category l)"
    using assms(1) by (auto simp: section_category_def env_ok_def)
  assume "li_category l = ie_section env @ ''.other''" "ie_section env \<noteq> ''employer''"
  with env_section_field [OF assms(1)] l(1) assms(1) show "0 \<le> li_amount l"
    by (fastforce simp: env_ok_def no_negative_other_def list_all_iff)
qed

lemma desired_ok_exact:
  assumes "env_ok env" "desired_ok d"
  shows "desired_ok (append_exact env row d)"
proof -
  have "desired_ok (fold (\<lambda>l. append_allocation (ie_digest env) row (li_category l)
      (label_of (li_category l) (ie_labels env)) (ie_section env) (li_amount l) ''statement''
      (ie_previous_id env) (Some (ie_checkpoint_id env))) ls d)"
    if "set ls \<subseteq> set (exact_lines env row)" for ls
    using assms(2) by (rule fold_preserves)
      (use that in \<open>auto intro: desired_ok_append env_section [OF assms(1)] env_ok_line [OF assms(1)]\<close>)
  then show ?thesis by (simp add: append_exact_def)
qed

lemma desired_ok_calculated:
  assumes "env_ok env" "desired_ok d" "section_category (ie_section env) category"
    and "ie_section env \<noteq> ''employer'' \<Longrightarrow> 0 \<le> allocated"
  shows "desired_ok (append_calculated env row category allocated d)"
  unfolding append_calculated_def using assms env_section [OF assms(1)] by (intro desired_ok_append from_cents_nonneg) auto

section \<open>The columns of an interval\<close>

definition keys_match :: "string list \<Rightarrow> (string, 'v) dict \<Rightarrow> bool" where
  "keys_match prefixes d \<longleftrightarrow> fst ` set d \<subseteq> {c. matches c prefixes}"

lemma keys_match_set: "matches c ps \<Longrightarrow> keys_match ps d \<Longrightarrow> keys_match ps (dict_set c v d)"
  by (simp add: keys_match_def)

lemma checkpoint_values_match:
  "keys_match prefixes previous \<Longrightarrow> keys_match prefixes (checkpoint_values lines prefixes previous)"
  unfolding checkpoint_values_def
proof (induction lines arbitrary: previous)
  case (Cons l lines)
  show ?case
    unfolding fold_Cons comp_apply
    by (rule Cons.IH) (use Cons.prems in \<open>auto intro: keys_match_set split: option.splits\<close>)
qed simp

lemma column_cents_wf: "dict_wf (column_cents env rows previous current)"
proof -
  have "dict_wf (fold (\<lambda>c cols. if P c then dict_set c (f c) cols else cols) cs d)" if "dict_wf d"
    for P f cs and d :: "(string, int) dict"
    using that by (induction cs arbitrary: d) auto
  then show ?thesis unfolding column_cents_def Let_def by simp
qed

lemma column_cents_keys:
  "fst ` set (column_cents env rows previous current) \<subseteq> fst ` set previous \<union> fst ` set current"
proof -
  have "fst ` set (fold (\<lambda>c cols. if P c then dict_set c (f c) cols else cols) cs d)
      \<subseteq> set cs \<union> fst ` set d" for P f cs and d :: "(string, int) dict"
  proof (induction cs arbitrary: d)
    case (Cons c cs)
    show ?case
      unfolding fold_Cons comp_apply
      by (rule order_trans [OF Cons.IH]) (simp add: keys_dict_set, blast)
  qed simp
  from this [where cs = "sort (remdups (map fst previous @ map fst current))" and d = "[]"] show ?thesis
    unfolding column_cents_def Let_def by simp
qed

section \<open>Every interval keeps the invariant\<close>

lemma column_total_key: "c \<in> fst ` set cols \<Longrightarrow> \<exists>v. (c, v) \<in> set cols"
  by auto

lemma columns_section_category:
  assumes "env_ok env" "keys_match (ie_prefixes env) cols" "c \<in> fst ` set cols"
  shows "section_category (ie_section env) c"
  using assms by (auto simp: section_category_def env_ok_def keys_match_def)

lemma column_cents_match:
  "keys_match ps previous \<Longrightarrow> keys_match ps current
    \<Longrightarrow> keys_match ps (column_cents env rows previous current)"
  unfolding keys_match_def by (rule order_trans [OF column_cents_keys]) (rule Un_least)

lemma section_category_own: "env_ok env \<Longrightarrow> section_category (ie_section env) (ie_section env @ ''.other'')"
  unfolding section_category_def env_ok_def by blast

lemma allocate_employer_ok:
  assumes "env_ok env" "keys_match (ie_prefixes env) cols" "ie_section env = ''employer''"
    and "desired_ok d" "allocate_employer env rows cols d = Inr d'"
  shows "desired_ok d'"
proof (rule for_each_preserves [where P = desired_ok, OF assms(5) [unfolded allocate_employer_def Let_def] assms(4)])
  fix x d d'
  assume x: "x \<in> set cols" and d: "desired_ok d"
    and step: "(case x of (category, total_cents) \<Rightarrow> \<lambda>d.
        bind_res (lift_margin (distribute total_cents (map (\<lambda>row. to_cents (se_amounts row Gross_earnings)) rows)))
          (\<lambda>shares. Inr (fold (\<lambda>(row, allocated). append_calculated env row category allocated)
             (zip rows shares) d))) d = Inr d'"
  obtain category t where ct: "x = (category, t)" by (cases x)
  have cat: "section_category (ie_section env) category"
    using columns_section_category [OF assms(1,2)] x ct by force
  have "desired_ok (fold (\<lambda>(row, allocated). append_calculated env row category allocated) ps d)" for ps
    using d by (rule fold_preserves)
      (auto intro: desired_ok_calculated [OF assms(1) _ cat] simp: assms(3))
  with step show "desired_ok d'" by (auto simp: ct bind_res_Inr_iff)
qed

lemma fit_columns_ok:
  assumes "fit_columns sec row_cents cols = Inr cols'" "dict_wf cols"
  shows "dict_wf cols'" and "fst ` set cols' \<subseteq> insert (sec @ ''.other'') (fst ` set cols)"
proof -
  let ?residual = "sum_list row_cents - sum_list (map snd cols)"
  have "dict_wf cols' \<and> fst ` set cols' \<subseteq> insert (sec @ ''.other'') (fst ` set cols)"
  proof (cases "?residual < 0")
    case True
    then obtain scaled where
      sc: "distribute (sum_list row_cents) (map (column_total cols) (sort (map fst cols))) = Inr scaled"
      and c': "cols' = zip (sort (map fst cols)) scaled"
      using assms(1) by (auto simp: fit_columns_def Let_def bind_res_Inr_iff)
    have "map fst cols' = sort (map fst cols)"
      using length_distribute [OF sc] by (simp add: c')
    then have "set (map fst cols') = set (map fst cols)" "distinct (map fst cols')"
      using assms(2) by (simp_all only: set_sort distinct_sort dict_wf_def)
    then show ?thesis unfolding set_map dict_wf_def by blast
  next
    case False
    then have "cols' = cols \<or> cols' = dict_set (sec @ ''.other'') ?residual cols"
      using assms(1) by (simp add: fit_columns_def Let_def split: if_splits)
    then show ?thesis
      using assms(2) by (elim disjE) (simp_all add: subset_insertI)
  qed
  then show "dict_wf cols'" and "fst ` set cols' \<subseteq> insert (sec @ ''.other'') (fst ` set cols)"
    by blast+
qed

lemma allocate_section_ok:
  assumes "env_ok env" "keys_match (ie_prefixes env) cols" "dict_wf cols"
    and "desired_ok d" "allocate_section env f rows cols d = Inr d'"
  shows "desired_ok d'"
proof -
  let ?rc = "map (\<lambda>row. to_cents (se_amounts row f)) rows"
  obtain cols' m where fit: "fit_columns (ie_section env) ?rc cols = Inr cols'"
    and m: "allocation_matrix ?rc cols' = Inr m"
    and d': "d' = fold (\<lambda>(row, values) d.
        fold (\<lambda>(category, allocated). append_calculated env row category allocated) values d) (zip rows m) d"
    using assms(5) by (auto simp: allocate_section_def Let_def bind_res_Inr_iff)
  note cols' = fit_columns_ok [OF fit assms(3)]
  have cat: "section_category (ie_section env) c" if "c \<in> fst ` set cols'" for c
  proof -
    have "c \<in> insert (ie_section env @ ''.other'') (fst ` set cols)" by (rule subsetD [OF cols'(2) that])
    then show ?thesis
    proof (rule insertE)
      assume c: "c = ie_section env @ ''.other''"
      show ?thesis unfolding c by (rule section_category_own [OF assms(1)])
    next
      assume "c \<in> fst ` set cols"
      then show ?thesis by (rule columns_section_category [OF assms(1,2)])
    qed
  qed
  note sound = allocation_matrix_sound [OF m cols'(1) [unfolded dict_wf_def]]
  have entries: "section_category (ie_section env) (fst e) \<and> 0 \<le> snd e" if "vs \<in> set m" "e \<in> set vs"
    for e vs
  proof -
    have "map fst vs = sort (map fst cols')" "\<forall>(c, v) \<in> set vs. 0 \<le> v"
      using sound that(1) by auto
    moreover from this(1) have "fst e \<in> fst ` set cols'"
      using that(2) by (metis imageI set_map set_sort)
    ultimately show ?thesis using cat that(2) by auto
  qed
  have inner: "desired_ok (fold (\<lambda>(category, allocated). append_calculated env row category allocated) vs d)"
    if "desired_ok d" "\<forall>e \<in> set vs. section_category (ie_section env) (fst e) \<and> 0 \<le> snd e" for row vs d
    using that(1)
  proof (rule fold_preserves)
    fix e d assume e: "e \<in> set vs" and d: "desired_ok d"
    obtain c v where cv: "e = (c, v)" by (cases e)
    with e that(2) have "section_category (ie_section env) c" "0 \<le> v" by force+
    then show "desired_ok ((case e of (category, allocated) \<Rightarrow> append_calculated env row category allocated) d)"
      using desired_ok_calculated [OF assms(1) d] by (simp add: cv)
  qed
  have "desired_ok (fold (\<lambda>(row, values) d.
      fold (\<lambda>(category, allocated). append_calculated env row category allocated) values d) ps d)"
    if "desired_ok d" "\<forall>p \<in> set ps. snd p \<in> set m" for ps d
    using that(1)
  proof (rule fold_preserves)
    fix p d assume p: "p \<in> set ps" and d: "desired_ok d"
    obtain row vs where rv: "p = (row, vs)" by (cases p)
    have "\<forall>e \<in> set vs. section_category (ie_section env) (fst e) \<and> 0 \<le> snd e"
      using entries that(2) p rv by auto
    then show "desired_ok ((case p of (row, values) \<Rightarrow>
        fold (\<lambda>(category, allocated). append_calculated env row category allocated) values) d)"
      using inner [OF d] by (simp add: rv)
  qed
  from this [OF assms(4), of "zip rows m"] have "desired_ok d'"
    if "\<forall>p \<in> set (zip rows m). snd p \<in> set m"
    using that unfolding d' by blast
  moreover have "\<forall>p \<in> set (zip rows m). snd p \<in> set m" by (auto dest: set_zip_rightD)
  ultimately show ?thesis by blast
qed

lemma allocate_interval_ok:
  assumes "env_ok env" "keys_match (ie_prefixes env) previous" "keys_match (ie_prefixes env) current"
    and "desired_ok d" "allocate_interval env rows previous current d = Inr d'"
  shows "desired_ok d'"
proof -
  have exact: "desired_ok (fold (append_exact env) rs d)" for rs
    using assms(4) by (rule fold_preserves) (rule desired_ok_exact [OF assms(1)])
  note cols = column_cents_match [OF assms(2,3)] column_cents_wf
  show ?thesis
  proof (cases "map_of section_total_field (ie_section env)")
    case None
    then have "ie_section env = ''employer''"
      using env_section_field [OF assms(1)] by (force simp: map_of_eq_None_iff)
    with None assms(5) show ?thesis
      using allocate_employer_ok [OF assms(1) cols(1) _ exact] by (auto simp: allocate_interval_def Let_def)
  next
    case (Some f)
    with assms(5) show ?thesis
      using allocate_section_ok [OF assms(1) cols exact] by (auto simp: allocate_interval_def Let_def)
  qed
qed

lemma allocate_year_ok:
  assumes "(sec, prefixes) \<in> set section_prefixes" "no_negative_other lines"
    and "desired_ok d" "allocate_year digest labels statements lines rows sec prefixes year d = Inr d'"
  shows "desired_ok d'"
proof -
  obtain st where run: "for_each (allocate_checkpoint digest labels lines sec prefixes
        (filter (\<lambda>r. se_payroll_year r = year) rows))
      (section_checkpoints statements lines prefixes year)
      \<lparr>ck_desired = d, ck_previous_date = None, ck_previous_values = [], ck_previous_id = None\<rparr> = Inr st"
    and d': "d' = ck_desired st"
    using assms(4) by (auto simp: allocate_year_def bind_res_Inr_iff)
  have "desired_ok (ck_desired st) \<and> keys_match prefixes (ck_previous_values st)"
    using run
  proof (rule for_each_preserves)
    fix c and s s' :: checkpoint_state
    assume inv: "desired_ok (ck_desired s) \<and> keys_match prefixes (ck_previous_values s)"
      and step: "allocate_checkpoint digest labels lines sec prefixes
        (filter (\<lambda>r. se_payroll_year r = year) rows) c s = Inr s'"
    let ?cur = "checkpoint_values (lines_of lines (st_id c)) prefixes (ck_previous_values s)"
    have cur: "keys_match prefixes ?cur" using inv by (simp add: checkpoint_values_match)
    show "desired_ok (ck_desired s') \<and> keys_match prefixes (ck_previous_values s')"
      using step inv cur assms(1,2)
      by (auto simp: allocate_checkpoint_def Let_def bind_res_Inr_iff env_ok_def
          intro: allocate_interval_ok [rotated -1])
  qed (use assms(3) in \<open>simp add: keys_match_def\<close>)
  then show ?thesis by (simp add: d')
qed

lemma allocate_checkpoints_ok:
  assumes "no_negative_other lines" "allocate_checkpoints digest statements lines rows = Inr d"
  shows "desired_ok d"
proof (rule for_each_preserves [where P = desired_ok, OF assms(2) [unfolded allocate_checkpoints_def]])
  fix x d d'
  assume x: "x \<in> set section_prefixes" and d: "desired_ok d"
    and step: "(case x of (sec, prefixes) \<Rightarrow>
        for_each (allocate_year digest (line_labels lines) statements lines rows sec prefixes)
          (payroll_years rows)) d = Inr d'"
  obtain sec ps where sp: "x = (sec, ps)" by (cases x)
  show "desired_ok d'"
    by (rule for_each_preserves [where P = desired_ok, OF step [unfolded sp prod.case] d])
      (use allocate_year_ok assms(1) x sp in blast)
qed simp

section \<open>Completion makes every section of every paycheck add up\<close>

lemma section_sum_Nil [simp]: "section_sum [] j sec = 0"
  by (simp add: section_sum_def)

lemma section_sum_Cons [simp]:
  "section_sum (((i, c), v) # d) j sec =
     (if i = j \<and> av_section v = sec then av_amount v else 0) + section_sum d j sec"
  by (simp add: section_sum_def)

lemma section_sum_set:
  assumes "dict_wf d"
  shows "section_sum (dict_set (i, c) v d) j sec =
    section_sum d j sec
    - (case map_of d (i, c) of None \<Rightarrow> 0 | Some w \<Rightarrow> if i = j \<and> av_section w = sec then av_amount w else 0)
    + (if i = j \<and> av_section v = sec then av_amount v else 0)"
  using assms
proof (induction d)
  case (Cons p d)
  obtain i' c' w where p: "p = ((i', c'), w)" by (metis prod.exhaust)
  have wf: "dict_wf d" using Cons.prems by (simp add: dict_wf_def)
  show ?case
  proof (cases "(i, c) = (i', c')")
    case True
    then show ?thesis by (simp add: p)
  next
    case False
    then have "dict_set (i, c) v (p # d) = ((i', c'), w) # dict_set (i, c) v d"
      and "map_of (p # d) (i, c) = map_of d (i, c)" by (auto simp: p)
    then show ?thesis by (simp only: section_sum_Cons Cons.IH [OF wf] p)
  qed
qed simp

definition completed :: "payroll_schedule_entry \<Rightarrow> string \<times> money_field \<Rightarrow> desired \<Rightarrow> bool" where
  "completed row sf d \<longleftrightarrow> section_sum d (se_id row) (fst sf) = se_amounts row (snd sf)"

lemma complete_section_effect:
  assumes "sf \<in> set section_total_field" "desired_ok d" "complete_section digest labels row sf d = Inr d'"
  shows "desired_ok d'" and "completed row sf d'"
    and "i \<noteq> se_id row \<or> sec \<noteq> fst sf \<Longrightarrow> section_sum d' i sec = section_sum d i sec"
proof -
  obtain s f where sf: "sf = (s, f)" by (cases sf)
  let ?k = "(se_id row, s @ ''.other'')"
  let ?missing = "se_amounts row f - section_sum d (se_id row) s"
  have sec_in: "s \<in> fst ` set section_prefixes"
    using section_fields assms(1) sf by force
  have own: "section_category s (s @ ''.other'')"
    using section_fields assms(1) by (auto simp: sf section_category_def)
  have ex: "av_section w = s \<and> 0 \<le> av_amount w" if "map_of d ?k = Some w" for w
  proof -
    have ok: "entry_ok ?k w" using that assms(2) by (simp add: desired_ok_def)
    then have "section_category (av_section w) (s @ ''.other'')" by (simp add: entry_ok_def)
    then have ws: "av_section w = s"
      using section_category_other [of s f] assms(1) by (simp add: sf)
    have "s \<noteq> ''employer''" using section_field_names [of s f] assms(1) by (simp add: sf)
    with ok ws have "0 \<le> av_amount w" by (simp add: entry_ok_def)
    with ws show ?thesis ..
  qed
  let ?old = "case map_of d ?k of None \<Rightarrow> 0 | Some w \<Rightarrow> av_amount w"
  have old: "0 \<le> ?old" using ex by (auto split: option.splits)
  have wf: "dict_wf d" using assms(2) by (simp add: desired_ok_def)
  have cases: "?missing = 0 \<and> d' = d \<or> 0 < ?missing \<and>
      d' = append_allocation digest row (s @ ''.other'') (label_of (s @ ''.other'') labels) s
        (?old + ?missing) ''calculated'' (se_previous_checkpoint_id row) (se_next_checkpoint_id row) d"
    using assms(3) by (simp add: sf complete_section_def Let_def split: if_splits)
  show "desired_ok d'"
    using cases
  proof (elim disjE conjE)
    assume pos: "0 < ?missing" and d': "d' = append_allocation digest row (s @ ''.other'')
      (label_of (s @ ''.other'') labels) s (?old + ?missing) ''calculated''
      (se_previous_checkpoint_id row) (se_next_checkpoint_id row) d"
    show ?thesis unfolding d' by (rule desired_ok_append [OF assms(2) sec_in own]) (use pos old in linarith)
  qed (use assms(2) in simp)
  have sums: "section_sum d' i sec = (if i = se_id row \<and> sec = s then se_amounts row f else section_sum d i sec)"
    for i sec
    using cases
  proof (elim disjE conjE)
    assume pos: "0 < ?missing" and d': "d' = append_allocation digest row (s @ ''.other'')
      (label_of (s @ ''.other'') labels) s (?old + ?missing) ''calculated''
      (se_previous_checkpoint_id row) (se_next_checkpoint_id row) d"
    have "?old + ?missing \<noteq> 0" using pos old by linarith
    then obtain v where v: "d' = dict_set ?k v d" "av_section v = s" "av_amount v = ?old + ?missing"
      unfolding d' append_allocation_def by (simp add: Let_def)
    show ?thesis
      using ex by (auto simp: v(1) section_sum_set [OF wf] v(2,3) split: option.splits)
  qed auto
  show "completed row sf d'" using sums by (simp add: completed_def sf)
  show "section_sum d' i sec = section_sum d i sec" if "i \<noteq> se_id row \<or> sec \<noteq> fst sf"
    using sums that by (auto simp: sf)
qed

lemma complete_row_effect:
  assumes "desired_ok d" "for_each (complete_section digest labels row) section_total_field d = Inr d'"
  shows "desired_ok d' \<and> (\<forall>sf \<in> set section_total_field. completed row sf d')
    \<and> (\<forall>i sec. i \<noteq> se_id row \<longrightarrow> section_sum d' i sec = section_sum d i sec)"
proof (rule for_each_invariant [where P = "\<lambda>pre t. desired_ok t \<and> (\<forall>sf \<in> set pre. completed row sf t)
    \<and> (\<forall>i sec. i \<noteq> se_id row \<longrightarrow> section_sum t i sec = section_sum d i sec)", OF assms(2)])
  fix pre sf rest t t'
  assume split: "section_total_field = pre @ sf # rest"
    and inv: "desired_ok t \<and> (\<forall>sf \<in> set pre. completed row sf t)
      \<and> (\<forall>i sec. i \<noteq> se_id row \<longrightarrow> section_sum t i sec = section_sum d i sec)"
    and step: "complete_section digest labels row sf t = Inr t'"
  have "sf \<in> set section_total_field" by (simp add: split)
  note eff = complete_section_effect [OF this conjunct1 [OF inv] step]
  have "fst sf \<notin> fst ` set pre"
    using distinct_section_fields by (simp add: split)
  then have "completed row sf' t'" if "sf' \<in> set pre" for sf'
  proof -
    have "fst sf' \<noteq> fst sf" using that \<open>fst sf \<notin> fst ` set pre\<close> by (metis imageI)
    then have "section_sum t' (se_id row) (fst sf') = section_sum t (se_id row) (fst sf')"
      by (intro eff(3) disjI2)
    moreover have "completed row sf' t" using inv that by blast
    ultimately show ?thesis by (simp only: completed_def)
  qed
  then have "\<forall>sf \<in> set (pre @ [sf]). completed row sf t'" using eff(2) by simp
  moreover have "\<forall>i sec. i \<noteq> se_id row \<longrightarrow> section_sum t' i sec = section_sum d i sec"
    using inv eff(3) by metis
  ultimately show "desired_ok t' \<and> (\<forall>sf \<in> set (pre @ [sf]). completed row sf t')
      \<and> (\<forall>i sec. i \<noteq> se_id row \<longrightarrow> section_sum t' i sec = section_sum d i sec)"
    using eff(1) by blast
qed (use assms(1) in simp)

lemma complete_sections_effect:
  assumes "desired_ok d" "distinct (map se_id rows)" "complete_sections digest labels rows d = Inr d'"
  shows "desired_ok d' \<and> (\<forall>row \<in> set rows. \<forall>sf \<in> set section_total_field. completed row sf d')"
proof (rule for_each_invariant [where P = "\<lambda>pre t. desired_ok t
    \<and> (\<forall>row \<in> set pre. \<forall>sf \<in> set section_total_field. completed row sf t)",
    OF assms(3) [unfolded complete_sections_def]])
  fix pre row rest t t'
  assume split: "rows = pre @ row # rest"
    and inv: "desired_ok t \<and> (\<forall>row \<in> set pre. \<forall>sf \<in> set section_total_field. completed row sf t)"
    and step: "for_each (complete_section digest labels row) section_total_field t = Inr t'"
  note eff = complete_row_effect [OF conjunct1 [OF inv] step]
  have "se_id row \<notin> se_id ` set pre" using assms(2) by (simp add: split)
  then have "completed r sf t'" if "r \<in> set pre" "sf \<in> set section_total_field" for r sf
  proof -
    have "se_id r \<noteq> se_id row" using that(1) \<open>se_id row \<notin> se_id ` set pre\<close> by (metis imageI)
    then have "section_sum t' (se_id r) (fst sf) = section_sum t (se_id r) (fst sf)"
      using eff inv by blast
    moreover have "completed r sf t" using inv that by blast
    ultimately show ?thesis by (simp only: completed_def)
  qed
  moreover have "completed row sf t'" if "sf \<in> set section_total_field" for sf
    using eff inv that by blast
  ultimately have "\<forall>row \<in> set (pre @ [row]). \<forall>sf \<in> set section_total_field. completed row sf t'"
    by simp
  then show "desired_ok t'
      \<and> (\<forall>row \<in> set (pre @ [row]). \<forall>sf \<in> set section_total_field. completed row sf t')"
    using eff inv by blast
qed (use assms(1) in simp)

section \<open>The deposit splits become the net section\<close>

definition keyed_ok :: "desired \<Rightarrow> bool" where
  "keyed_ok d \<longleftrightarrow> dict_wf d \<and> (\<forall>k v. map_of d k = Some v \<longrightarrow>
     av_schedule_entry_id v = fst k \<and> av_category v = snd k \<and> section_category (av_section v) (snd k))"

lemma desired_keyed: "desired_ok d \<Longrightarrow> keyed_ok d"
  unfolding desired_ok_def keyed_ok_def entry_ok_def by blast

lemma keyed_ok_append:
  assumes "keyed_ok d" "section_category sec category"
  shows "keyed_ok (append_allocation digest row category label sec v source_kind prev nxt d)"
  using assms by (auto simp: keyed_ok_def append_allocation_def)

lemma section_sum_append:
  assumes "dict_wf d"
  shows "section_sum (append_allocation digest row c label sec v source_kind prev nxt d) j s =
    section_sum d j s
    - (if v = 0 then 0 else case map_of d (se_id row, c) of None \<Rightarrow> 0
         | Some w \<Rightarrow> if se_id row = j \<and> av_section w = s then av_amount w else 0)
    + (if se_id row = j \<and> sec = s then v else 0)"
  by (auto simp: append_allocation_def section_sum_set [OF assms] split: option.splits)

lemma map_of_append_other:
  "k \<noteq> (se_id row, c) \<Longrightarrow>
   map_of (append_allocation digest row c label sec v source_kind prev nxt d) k = map_of d k"
  by (simp add: append_allocation_def)

lemma net_category: "section_category ''net'' (''net.'' @ x)"
  unfolding section_category_def starts_with_def by simp

text \<open>The body of the loop over the splits of a paycheck.\<close>

definition append_split :: "(json \<Rightarrow> string) \<Rightarrow> payroll_schedule_entry \<Rightarrow> nat \<times> deposit_split \<Rightarrow> desired \<Rightarrow> desired" where
  "append_split digest row p d =
     append_allocation digest row (''net.'' @ split_key (fst p) (snd p))
       (if sp_account (snd p) = [] then ''Payroll deposit'' else sp_account (snd p)) ''net'' (sp_amount (snd p))
       (if sp_source_kind (snd p) = [] then ''calculated'' else sp_source_kind (snd p))
       (se_previous_checkpoint_id row) (se_next_checkpoint_id row) d"

lemma append_splits_fold:
  "append_splits digest row d =
     fold (append_split digest row) (zip [0..<length (se_deposit_splits row)] (se_deposit_splits row)) d"
  unfolding append_splits_def append_split_def case_prod_unfold ..

lemma append_split_effect:
  assumes "keyed_ok d"
  shows "keyed_ok (append_split digest row p d)"
    and "sec \<noteq> ''net'' \<or> i \<noteq> se_id row \<Longrightarrow> section_sum (append_split digest row p d) i sec = section_sum d i sec"
    and "map_of d (se_id row, ''net.'' @ split_key (fst p) (snd p)) = None \<Longrightarrow>
      section_sum (append_split digest row p d) (se_id row) ''net''
        = section_sum d (se_id row) ''net'' + sp_amount (snd p)"
    and "(i, c) \<noteq> (se_id row, ''net.'' @ split_key (fst p) (snd p)) \<Longrightarrow>
      map_of (append_split digest row p d) (i, c) = map_of d (i, c)"
proof -
  have wf: "dict_wf d" using assms by (simp add: keyed_ok_def)
  show "keyed_ok (append_split digest row p d)"
    unfolding append_split_def by (rule keyed_ok_append [OF assms net_category])
  have net: "av_section w = ''net''" if "map_of d (se_id row, ''net.'' @ x) = Some w" for w x
  proof -
    have "section_category (av_section w) (snd (se_id row, ''net.'' @ x))"
      using assms that unfolding keyed_ok_def by blast
    then show ?thesis unfolding snd_conv by (rule section_category_net)
  qed
  show "section_sum (append_split digest row p d) i sec = section_sum d i sec"
    if "sec \<noteq> ''net'' \<or> i \<noteq> se_id row"
  proof -
    have "\<not> (se_id row = i \<and> ''net'' = sec)" using that by blast
    have "\<not> (se_id row = i \<and> av_section w = sec)"
      if "map_of d (se_id row, ''net.'' @ split_key (fst p) (snd p)) = Some w" for w
      using net [OF that] \<open>sec \<noteq> ''net'' \<or> i \<noteq> se_id row\<close> by metis
    then have "(case map_of d (se_id row, ''net.'' @ split_key (fst p) (snd p)) of None \<Rightarrow> 0
        | Some w \<Rightarrow> if se_id row = i \<and> av_section w = sec then av_amount w else 0) = 0"
      by (cases "map_of d (se_id row, ''net.'' @ split_key (fst p) (snd p))")
        (simp_all only: option.case if_False)
    with \<open>\<not> (se_id row = i \<and> ''net'' = sec)\<close> show ?thesis
      unfolding append_split_def section_sum_append [OF wf]
      by (simp only: if_False if_cancel diff_zero add_0_right)
  qed
  show "section_sum (append_split digest row p d) (se_id row) ''net''
        = section_sum d (se_id row) ''net'' + sp_amount (snd p)"
    if "map_of d (se_id row, ''net.'' @ split_key (fst p) (snd p)) = None"
    unfolding append_split_def section_sum_append [OF wf] by (simp only: that) simp
  show "map_of (append_split digest row p d) (i, c) = map_of d (i, c)"
    if "(i, c) \<noteq> (se_id row, ''net.'' @ split_key (fst p) (snd p))"
    unfolding append_split_def by (rule map_of_append_other [OF that])
qed

text \<open>The amount under a key is replaced, unless the new amount is zero.\<close>

definition net_amount :: "desired \<Rightarrow> nat \<Rightarrow> string \<Rightarrow> cents" where
  "net_amount d i x = (case map_of d (i, ''net.'' @ x) of None \<Rightarrow> 0 | Some w \<Rightarrow> av_amount w)"

lemma append_split_net:
  fixes p :: "nat \<times> deposit_split"
  assumes "keyed_ok d"
  defines "k \<equiv> split_key (fst p) (snd p)" and "v \<equiv> sp_amount (snd p)"
  shows "section_sum (append_split digest row p d) (se_id row) ''net''
      = section_sum d (se_id row) ''net'' + (if v = 0 then 0 else v - net_amount d (se_id row) k)"
    and "net_amount (append_split digest row p d) (se_id row) x = (if x = k \<and> v \<noteq> 0 then v else net_amount d (se_id row) x)"
proof -
  have wf: "dict_wf d" using assms(1) by (simp add: keyed_ok_def)
  have "av_section w = ''net''" if "map_of d (se_id row, ''net.'' @ k) = Some w" for w
  proof -
    have "section_category (av_section w) (snd (se_id row, ''net.'' @ k))"
      using assms(1) that unfolding keyed_ok_def by blast
    then show ?thesis unfolding snd_conv by (rule section_category_net)
  qed
  then show "section_sum (append_split digest row p d) (se_id row) ''net''
      = section_sum d (se_id row) ''net'' + (if v = 0 then 0 else v - net_amount d (se_id row) k)"
    unfolding append_split_def section_sum_append [OF wf] net_amount_def k_def [symmetric] v_def [symmetric]
    by (cases "map_of d (se_id row, ''net.'' @ k)") simp_all
  show "net_amount (append_split digest row p d) (se_id row) x = (if x = k \<and> v \<noteq> 0 then v else net_amount d (se_id row) x)"
    unfolding append_split_def net_amount_def append_allocation_def k_def [symmetric] v_def [symmetric] by simp
qed

text \<open>
  What the splits of a paycheck come to in the table: a split is lost when a later one of the same key has an
  amount, for both are written under that key. The keys are the last four digits where a split has them.
\<close>

fun surviving_sum :: "(string \<times> cents) list \<Rightarrow> cents" where
  "surviving_sum [] = 0"
| "surviving_sum ((k, v) # ps) = (if list_ex (\<lambda>(k', w). k' = k \<and> w \<noteq> 0) ps then 0 else v) + surviving_sum ps"

definition stored_net :: "deposit_split list \<Rightarrow> cents" where
  "stored_net xs = surviving_sum (map (\<lambda>(i, sp). (split_key i sp, sp_amount sp)) (zip [0..<length xs] xs))"

lemma surviving_sum_snoc:
  "surviving_sum (ps @ [(k, v)])
     = (if v = 0 then surviving_sum ps else surviving_sum (filter (\<lambda>p. fst p \<noteq> k) ps) + v)"
proof (induction ps)
  case (Cons p ps)
  obtain k' w where p: "p = (k', w)" by fastforce
  have "list_ex (\<lambda>(k'', u). k'' = k' \<and> u \<noteq> 0) (filter (\<lambda>p. fst p \<noteq> k) ps) = list_ex (\<lambda>(k'', u). k'' = k' \<and> u \<noteq> 0) ps"
    if "k' \<noteq> k" using that by (induction ps) auto
  with Cons show ?case by (auto simp: p)
qed simp

lemma surviving_sum_split:
  "surviving_sum ps = surviving_sum (filter (\<lambda>p. fst p \<noteq> k) ps) + surviving_sum (filter (\<lambda>p. fst p = k) ps)"
proof (induction ps)
  case (Cons p ps)
  obtain k' w where p: "p = (k', w)" by fastforce
  have "list_ex (\<lambda>(k'', u). k'' = k' \<and> u \<noteq> 0) (filter (\<lambda>p. fst p \<noteq> k) ps) = list_ex (\<lambda>(k'', u). k'' = k' \<and> u \<noteq> 0) ps"
    if "k' \<noteq> k" using that by (induction ps) auto
  moreover have "list_ex (\<lambda>(k'', u). k'' = k' \<and> u \<noteq> 0) (filter (\<lambda>p. fst p = k) ps) = list_ex (\<lambda>(k'', u). k'' = k' \<and> u \<noteq> 0) ps"
    if "k' = k" using that by (induction ps) auto
  ultimately show ?case using Cons by (auto simp: p)
qed simp

lemma surviving_sum_distinct: "distinct (map fst ps) \<Longrightarrow> surviving_sum ps = sum_list (map snd ps)"
  by (induction ps rule: surviving_sum.induct) (force simp: list_ex_iff)+

lemma fold_split_effect:
  assumes "keyed_ok d" "\<forall>x. map_of d (se_id row, ''net.'' @ x) = None"
  defines "kv \<equiv> map (\<lambda>p. (split_key (fst p) (snd p), sp_amount (snd p)))"
  shows "keyed_ok (fold (append_split digest row) ps d)
    \<and> (\<forall>i sec. sec \<noteq> ''net'' \<or> i \<noteq> se_id row \<longrightarrow>
         section_sum (fold (append_split digest row) ps d) i sec = section_sum d i sec)
    \<and> section_sum (fold (append_split digest row) ps d) (se_id row) ''net''
        = section_sum d (se_id row) ''net'' + surviving_sum (kv ps)
    \<and> (\<forall>x. net_amount (fold (append_split digest row) ps d) (se_id row) x = surviving_sum (filter (\<lambda>p. fst p = x) (kv ps)))
    \<and> (\<forall>i c. i \<noteq> se_id row \<longrightarrow> map_of (fold (append_split digest row) ps d) (i, c) = map_of d (i, c))"
proof (induction ps rule: rev_induct)
  case Nil
  with assms(1,2) show ?case by (simp add: kv_def net_amount_def)
next
  case (snoc p ps)
  let ?d = "fold (append_split digest row) ps d"
  let ?k = "split_key (fst p) (snd p)" and ?v = "sp_amount (snd p)"
  have ok: "keyed_ok ?d" using snoc by blast
  note eff = append_split_effect [OF ok, where digest = digest and row = row and p = p]
  note net = append_split_net [OF ok, where digest = digest and row = row and p = p]
  have kv: "kv (ps @ [p]) = kv ps @ [(?k, ?v)]" by (simp add: kv_def)
  have old: "net_amount ?d (se_id row) ?k = surviving_sum (filter (\<lambda>p. fst p = ?k) (kv ps))" using snoc by blast
  have keep: "section_sum (append_split digest row p ?d) i sec = section_sum d i sec"
    if "sec \<noteq> ''net'' \<or> i \<noteq> se_id row" for i sec
    using eff(2) [OF that] snoc that by simp
  have total_net: "section_sum (append_split digest row p ?d) (se_id row) ''net''
      = section_sum d (se_id row) ''net'' + surviving_sum (kv ps @ [(?k, ?v)])"
    using net(1) old snoc surviving_sum_split [of "kv ps" ?k] by (simp add: surviving_sum_snoc)
  have each: "net_amount (append_split digest row p ?d) (se_id row) x
      = surviving_sum (filter (\<lambda>p. fst p = x) (kv ps @ [(?k, ?v)]))" for x
  proof -
    have "filter (\<lambda>p. fst p \<noteq> ?k) (filter (\<lambda>p. fst p = ?k) (kv ps)) = []" by (simp add: filter_empty_conv)
    moreover have "net_amount ?d (se_id row) x = surviving_sum (filter (\<lambda>p. fst p = x) (kv ps))" using snoc by blast
    ultimately show ?thesis unfolding net(2) by (cases "x = ?k") (simp_all add: surviving_sum_snoc del: filter_filter)
  qed
  have apart: "map_of (append_split digest row p ?d) (i, c) = map_of d (i, c)" if "i \<noteq> se_id row" for i c
  proof -
    have "map_of (append_split digest row p ?d) (i, c) = map_of ?d (i, c)" using that by (intro eff(4)) simp
    with snoc that show ?thesis by simp
  qed
  show ?case unfolding kv fold_append comp_apply fold_simps using eff(1) keep total_net each apart by blast
qed

lemma append_splits_effect:
  assumes "keyed_ok d" "\<forall>x. map_of d (se_id row, ''net.'' @ x) = None"
  shows "keyed_ok (append_splits digest row d)
    \<and> (\<forall>i sec. sec \<noteq> ''net'' \<or> i \<noteq> se_id row \<longrightarrow>
         section_sum (append_splits digest row d) i sec = section_sum d i sec)
    \<and> section_sum (append_splits digest row d) (se_id row) ''net''
        = section_sum d (se_id row) ''net'' + stored_net (se_deposit_splits row)
    \<and> (\<forall>i c. i \<noteq> se_id row \<longrightarrow> map_of (append_splits digest row d) (i, c) = map_of d (i, c))"
  using fold_split_effect [OF assms, where ps = "zip [0..<length (se_deposit_splits row)] (se_deposit_splits row)" and digest = digest]
  unfolding append_splits_fold stored_net_def case_prod_unfold by blast

definition no_net :: "nat \<Rightarrow> desired \<Rightarrow> bool" where
  "no_net i d \<longleftrightarrow> section_sum d i ''net'' = 0 \<and> (\<forall>x. map_of d (i, ''net.'' @ x) = None)"

lemma section_sum_zero:
  assumes "dict_wf d" "\<And>k v. map_of d k = Some v \<Longrightarrow> av_section v \<noteq> sec"
  shows "section_sum d i sec = 0"
  using assms
proof (induction d)
  case (Cons p d)
  obtain i' c w where p: "p = ((i', c), w)" by (metis prod.exhaust)
  have wf: "dict_wf d" and new: "map_of d (i', c) = None"
    using Cons.prems(1) by (auto simp: dict_wf_def p map_of_eq_None_iff)
  have "av_section w \<noteq> sec" using Cons.prems(2) [of "(i', c)" w] by (simp add: p)
  moreover have "av_section v \<noteq> sec" if "map_of d k = Some v" for k v
    using Cons.prems(2) [of k v] that new by (cases "k = (i', c)") (auto simp: p)
  ultimately show ?case using Cons.IH [OF wf] by (simp add: p)
qed simp

lemma prefixes_no_net: "''net'' \<notin> fst ` set section_prefixes"
  by code_simp

lemma desired_no_net:
  assumes "desired_ok d"
  shows "no_net i d"
  unfolding no_net_def
proof (intro conjI allI)
  have other: "av_section v \<noteq> ''net''" if "map_of d k = Some v" for k v
  proof -
    have "av_section v \<in> fst ` set section_prefixes"
      using assms that unfolding desired_ok_def entry_ok_def by blast
    with prefixes_no_net show ?thesis by metis
  qed
  show "section_sum d i ''net'' = 0"
    using assms other unfolding desired_ok_def by (intro section_sum_zero) blast+
  fix x
  show "map_of d (i, ''net.'' @ x) = None"
  proof (rule ccontr)
    assume "map_of d (i, ''net.'' @ x) \<noteq> None"
    then obtain v where v: "map_of d (i, ''net.'' @ x) = Some v" by blast
    have "section_category (av_section v) (snd (i, ''net.'' @ x))"
      using assms v unfolding desired_ok_def entry_ok_def by blast
    then have "av_section v = ''net''" unfolding snd_conv by (rule section_category_net)
    with other [OF v] show False ..
  qed
qed

lemma append_all_splits:
  assumes "keyed_ok d" "distinct (map se_id rows)" "\<forall>row \<in> set rows. no_net (se_id row) d"
  shows "keyed_ok (fold (append_splits digest) rows d)
    \<and> (\<forall>i sec. sec \<noteq> ''net'' \<or> i \<notin> se_id ` set rows \<longrightarrow>
         section_sum (fold (append_splits digest) rows d) i sec = section_sum d i sec)
    \<and> (\<forall>row \<in> set rows. section_sum (fold (append_splits digest) rows d) (se_id row) ''net''
         = stored_net (se_deposit_splits row))"
  using assms
proof (induction rows arbitrary: d)
  case (Cons row rows)
  let ?d = "append_splits digest row d"
  have row: "no_net (se_id row) d" using Cons.prems(3) by auto
  note eff = append_splits_effect [OF Cons.prems(1) conjunct2 [OF row [unfolded no_net_def]], where digest = digest]
  have apart: "se_id r \<noteq> se_id row" if "r \<in> set rows" for r
    using Cons.prems(2) that by (metis distinct.simps(2) image_eqI list.simps(9) set_map)
  have "\<forall>r \<in> set rows. no_net (se_id r) ?d"
    using Cons.prems(3) eff apart unfolding no_net_def by simp
  from Cons.IH [OF conjunct1 [OF eff] _ this] Cons.prems(2)
  have IH: "keyed_ok (fold (append_splits digest) rows ?d)"
    "\<And>i sec. sec \<noteq> ''net'' \<or> i \<notin> se_id ` set rows \<Longrightarrow>
         section_sum (fold (append_splits digest) rows ?d) i sec = section_sum ?d i sec"
    "\<And>r. r \<in> set rows \<Longrightarrow> section_sum (fold (append_splits digest) rows ?d) (se_id r) ''net''
         = stored_net (se_deposit_splits r)"
    by auto
  have "section_sum (fold (append_splits digest) rows ?d) (se_id row) ''net'' = section_sum ?d (se_id row) ''net''"
    using Cons.prems(2) by (intro IH(2)) simp
  also have "\<dots> = stored_net (se_deposit_splits row)"
    using eff row unfolding no_net_def by presburger
  finally have own: "section_sum (fold (append_splits digest) rows ?d) (se_id row) ''net''
      = stored_net (se_deposit_splits row)" .
  have keep: "section_sum (fold (append_splits digest) rows ?d) i sec = section_sum d i sec"
    if "sec \<noteq> ''net'' \<or> i \<notin> se_id ` set (row # rows)" for i sec
  proof -
    have "section_sum (fold (append_splits digest) rows ?d) i sec = section_sum ?d i sec"
      using that by (intro IH(2)) auto
    also have "\<dots> = section_sum d i sec" using eff that by simp
    finally show ?thesis .
  qed
  show ?case
    unfolding fold_Cons comp_apply using IH(1,3) own keep by (metis set_ConsD)
qed simp

text \<open>The desired rows of a successful run, before the table is touched.\<close>

definition sections_filled :: "payroll_schedule_entry list \<Rightarrow> desired \<Rightarrow> bool" where
  "sections_filled rows d \<longleftrightarrow>
     (\<forall>row \<in> set rows. \<forall>(sec, f) \<in> set section_total_field. section_sum d (se_id row) sec = se_amounts row f)
     \<and> (\<forall>row \<in> set rows. section_sum d (se_id row) ''net'' = stored_net (se_deposit_splits row))"

lemma desired_allocations_sound:
  assumes "desired_allocations digest db = Inr d"
    and "no_negative_other (db_lines db)" "distinct (map se_id (db_entries db))"
  shows "keyed_ok d" and "sections_filled (db_entries db) d"
proof -
  let ?rows = "sort_key se_payment_date (db_entries db)"
  obtain d1 d2 where d1: "allocate_checkpoints digest (sort_key st_payment_date (db_statements db))
        (db_lines db) ?rows = Inr d1"
    and d2: "complete_sections digest (line_labels (db_lines db)) ?rows d1 = Inr d2"
    and d: "d = fold (append_splits digest) ?rows d2"
    using assms(1) by (auto simp: desired_allocations_def Let_def bind_res_Inr_iff)
  have "mset (map se_id ?rows) = mset (map se_id (db_entries db))"
    by (rule mset_map_sort_key)
  then have ids: "distinct (map se_id ?rows)" using assms(3) by (metis mset_eq_imp_distinct_iff)
  note eff = complete_sections_effect [OF allocate_checkpoints_ok [OF assms(2) d1] ids d2]
  have d2_ok: "desired_ok d2" using eff by blast
  have "\<forall>row \<in> set ?rows. no_net (se_id row) d2"
    using desired_no_net [OF d2_ok] by simp
  note net = append_all_splits [OF desired_keyed [OF d2_ok] ids this, where digest = digest, folded d]
  show "keyed_ok d" using net by blast
  have "section_sum d (se_id row) sec = se_amounts row f"
    if row: "row \<in> set ?rows" and sf: "(sec, f) \<in> set section_total_field" for row sec f
  proof -
    have "completed row (sec, f) d2" using eff row sf by blast
    then have "section_sum d2 (se_id row) sec = se_amounts row f" unfolding completed_def fst_conv snd_conv .
    moreover have "sec \<noteq> ''net''" using section_field_names [OF sf] by blast
    ultimately show ?thesis using net by metis
  qed
  with net show "sections_filled (db_entries db) d" by (auto simp: sections_filled_def)
qed

section \<open>The table of allocations\<close>

definition allocation_key :: "payroll_allocation \<Rightarrow> nat \<times> string" where
  "allocation_key a = (av_schedule_entry_id (pa_values a), av_category (pa_values a))"

interpretation allocations: derived_table allocation_key pa_id
  "\<lambda>v. (av_schedule_entry_id v, av_category v)"
  "\<lambda>v a. a\<lparr>pa_values := v\<rparr>" "\<lambda>n v. \<lparr>pa_id = n, pa_values = v\<rparr>"
  by unfold_locales (auto simp: allocation_key_def)

lemma sync_allocations_rows:
  "sync_allocations =
     sync_rows allocation_key pa_id (\<lambda>v. (av_schedule_entry_id v, av_category v))
       (\<lambda>v a. a\<lparr>pa_values := v\<rparr>) (\<lambda>n v. \<lparr>pa_id = n, pa_values = v\<rparr>)"
  unfolding sync_allocations_def allocation_key_def ..

lemma sync_allocations_values:
  assumes "distinct (map allocation_key rows)"
    and "distinct (map (\<lambda>v. (av_schedule_entry_id v, av_category v)) vs)"
  shows "mset (map pa_values (sync_allocations vs rows)) = mset vs"
proof -
  let ?key = "\<lambda>v. (av_schedule_entry_id v, av_category v)" and ?t = "sync_allocations vs rows"
  have keys: "allocation_key ` set ?t = ?key ` set vs"
    and dist: "distinct (map allocation_key ?t)"
    using allocations.keys_sync allocations.distinct_keys_sync [OF assms(1)]
    unfolding sync_allocations_rows by blast+
  have "map ?key (map pa_values ?t) = map allocation_key ?t"
    by (simp add: allocation_key_def)
  with dist have dist_vals: "distinct (map pa_values ?t)" by (metis distinct_map)
  have sub: "set (map pa_values ?t) \<subseteq> set vs"
  proof
    fix v assume "v \<in> set (map pa_values ?t)"
    then obtain r where r: "r \<in> set ?t" "v = pa_values r" by auto
    then obtain w r0 where "w \<in> set vs" "r = r0\<lparr>pa_values := w\<rparr>"
      using allocations.sync_row_written assms(2) unfolding sync_allocations_rows by blast
    with r show "v \<in> set vs" by simp
  qed
  have "set vs \<subseteq> set (map pa_values ?t)"
  proof
    fix w assume w: "w \<in> set vs"
    then obtain r where r: "r \<in> set ?t" "allocation_key r = ?key w" using keys by (metis (mono_tags, lifting) imageE imageI)
    then have "pa_values r \<in> set vs" "?key (pa_values r) = ?key w"
      using sub by (auto simp: allocation_key_def)
    with assms(2) w have "pa_values r = w" by (auto simp: distinct_map dest: inj_onD)
    with r(1) show "w \<in> set (map pa_values ?t)" by auto
  qed
  moreover have "distinct vs" using assms(2) by (simp add: distinct_map)
  ultimately show ?thesis
    using sub dist_vals by (metis set_eq_iff_mset_eq_distinct subset_antisym)
qed

lemma keyed_values:
  assumes "keyed_ok d"
  shows "map (\<lambda>v. (av_schedule_entry_id v, av_category v)) (map snd d) = map fst d"
proof -
  have "(av_schedule_entry_id (snd p), av_category (snd p)) = fst p" if "p \<in> set d" for p
  proof -
    have "map_of d (fst p) = Some (snd p)"
      using assms that by (simp add: keyed_ok_def dict_wf_def)
    then show ?thesis using assms unfolding keyed_ok_def by (metis prod.collapse)
  qed
  then show ?thesis by simp
qed

lemma allocated_amount_mset:
  assumes "mset (map pa_values t) = mset (map snd d)" "keyed_ok d"
  shows "allocated_amount t i sec = section_sum d i sec"
proof -
  let ?P = "\<lambda>v. av_schedule_entry_id v = i \<and> av_section v = sec"
  have "allocated_amount t i sec = sum_list (map av_amount (filter ?P (map pa_values t)))"
    by (simp add: allocated_amount_def filter_map comp_def)
  also have "\<dots> = sum_list (map av_amount (filter ?P (map snd d)))"
  proof -
    have "mset (filter ?P (map pa_values t)) = mset (filter ?P (map snd d))"
      unfolding mset_filter assms(1) ..
    then have "image_mset av_amount (mset (filter ?P (map pa_values t)))
        = image_mset av_amount (mset (filter ?P (map snd d)))" by (rule arg_cong)
    then show ?thesis unfolding mset_map [symmetric] sum_mset_sum_list [symmetric] by (rule arg_cong)
  qed
  also have "\<dots> = sum_list (map (\<lambda>p. av_amount (snd p)) (filter (\<lambda>p. ?P (snd p)) d))"
    by (simp add: filter_map comp_def)
  also have "filter (\<lambda>p. ?P (snd p)) d = filter (\<lambda>((i', c), v). i' = i \<and> av_section v = sec) d"
  proof (rule filter_cong [OF refl])
    fix p assume p: "p \<in> set d"
    then have "map_of d (fst p) = Some (snd p)"
      using assms(2) by (simp add: keyed_ok_def dict_wf_def)
    then have "av_schedule_entry_id (snd p) = fst (fst p)"
      using assms(2) unfolding keyed_ok_def by blast
    then show "?P (snd p) = (\<lambda>((i', c), v). i' = i \<and> av_section v = sec) p"
      by (simp add: case_prod_unfold)
  qed
  finally show ?thesis by (simp add: section_sum_def case_prod_unfold)
qed

section \<open>The checks after a run\<close>

definition keys_unique :: "payroll_db \<Rightarrow> bool" where
  "keys_unique db \<longleftrightarrow> distinct (map se_id (db_entries db)) \<and> distinct (map allocation_key (db_allocations db))"

definition reconciled_db :: "payroll_db \<Rightarrow> bool" where
  "reconciled_db db \<longleftrightarrow> list_all (\<lambda>c. vc_status c = ''reconciled'' \<and> vc_residual c = 0) (allocation_validation db)"

definition check_of :: "payroll_db \<Rightarrow> string \<times> money_field \<Rightarrow> validation_check" where
  "check_of db p = (let failures = allocation_failures db (fst p) (snd p) in
     \<lparr>vc_rule = ''payroll_allocation_'' @ fst p, vc_entity_id = None, vc_status = status_of (failures = []),
      vc_residual = (if failures = [] then 0 else int (length failures) * 100), vc_failures = failures\<rparr>)"

lemma reconciled_db_iff:
  "reconciled_db db \<longleftrightarrow> (\<forall>(sec, f) \<in> set validation_fields. \<forall>row \<in> set (db_entries db).
     allocated_amount (db_allocations db) (se_id row) sec = se_amounts row f)"
proof -
  have "vc_status (check_of db p) = status_of (allocation_failures db (fst p) (snd p) = [])"
    "vc_residual (check_of db p) = (if allocation_failures db (fst p) (snd p) = [] then 0
       else int (length (allocation_failures db (fst p) (snd p))) * 100)" for p
    by (simp_all only: check_of_def Let_def validation_check.simps)
  then have "vc_status (check_of db p) = ''reconciled'' \<and> vc_residual (check_of db p) = 0 \<longleftrightarrow> allocation_failures db (fst p) (snd p) = []" for p
    by (simp only: status_of_reconciled) simp
  moreover have "allocation_validation db = map (check_of db) validation_fields"
    unfolding allocation_validation_def check_of_def case_prod_unfold ..
  moreover have "allocation_failures db sec f = [] \<longleftrightarrow>
      (\<forall>row \<in> set (db_entries db). allocated_amount (db_allocations db) (se_id row) sec = se_amounts row f)" for sec f
    by (simp add: allocation_failures_def filter_empty_conv)
  ultimately show ?thesis
    unfolding reconciled_db_def by (simp only: list_all_iff set_map ball_simps case_prod_unfold fst_conv snd_conv)
qed

text \<open>The checks of the four sections a statement itemises, and that of the net amount.\<close>

definition sections_reconciled :: "payroll_db \<Rightarrow> bool" where
  "sections_reconciled db \<longleftrightarrow> (\<forall>row \<in> set (db_entries db).
     \<forall>(sec, f) \<in> {(''compensation'', Gross_earnings), (''pretax'', Pretax_deductions), (''tax'', Tax_withholdings),
         (''after_tax'', After_tax_deductions)}.
       allocated_amount (db_allocations db) (se_id row) sec = se_amounts row f)"

definition net_is_stored :: "payroll_db \<Rightarrow> bool" where
  "net_is_stored db \<longleftrightarrow> (\<forall>row \<in> set (db_entries db).
     allocated_amount (db_allocations db) (se_id row) ''net'' = stored_net (se_deposit_splits row))"

lemma section_total_set: "set section_total_field =
    {(''compensation'', Gross_earnings), (''pretax'', Pretax_deductions), (''tax'', Tax_withholdings), (''after_tax'', After_tax_deductions)}"
  unfolding section_total_field_def by simp

lemma reconciled_when_stored:
  assumes "sections_reconciled db" "net_is_stored db"
  shows "reconciled_db db \<longleftrightarrow> (\<forall>row \<in> set (db_entries db). stored_net (se_deposit_splits row) = se_amounts row Net_payment)"
proof -
  have all_fields: "validation_fields = section_total_field @ [(''net'', Net_payment)]"
    by (simp only: validation_fields_def section_total_field_def append.simps)
  have fields: "set validation_fields = insert (''net'', Net_payment) (set section_total_field)"
    unfolding all_fields set_append list.set by (simp only: Un_insert_right Un_empty_right)
  have "reconciled_db db \<longleftrightarrow>
      (\<forall>row \<in> set (db_entries db). allocated_amount (db_allocations db) (se_id row) ''net'' = se_amounts row Net_payment)
      \<and> (\<forall>(sec, f) \<in> set section_total_field. \<forall>row \<in> set (db_entries db).
           allocated_amount (db_allocations db) (se_id row) sec = se_amounts row f)"
    by (simp only: reconciled_db_iff fields ball_simps prod.case)
  also have "(\<forall>(sec, f) \<in> set section_total_field. \<forall>row \<in> set (db_entries db).
      allocated_amount (db_allocations db) (se_id row) sec = se_amounts row f) \<longleftrightarrow> True"
    using assms(1) unfolding sections_reconciled_def section_total_set [symmetric] by blast
  also have "(\<forall>row \<in> set (db_entries db). allocated_amount (db_allocations db) (se_id row) ''net'' = se_amounts row Net_payment)
      \<longleftrightarrow> (\<forall>row \<in> set (db_entries db). stored_net (se_deposit_splits row) = se_amounts row Net_payment)"
    by (intro ball_cong refl) (simp only: assms(2) [unfolded net_is_stored_def, rule_format])
  also have "(\<dots> \<and> True) \<longleftrightarrow> \<dots>" by (simp only: simp_thms)
  finally show ?thesis .
qed

lemma generate_allocations_sound:
  assumes "generate_payroll_allocations digest db = Inr (db', r)"
    and "no_negative_other (db_lines db)" "keys_unique db"
  shows "sections_reconciled db'" and "net_is_stored db'" and "distinct (map allocation_key (db_allocations db'))"
    and "ar_rows r = length (db_allocations db')" and "db_entries db' = db_entries db"
proof -
  obtain d where d: "desired_allocations digest db = Inr d"
    and db': "db' = db\<lparr>db_allocations := sync_allocations (map snd d) (db_allocations db)\<rparr>"
    and r: "ar_rows r = length d"
    using assms(1) by (auto simp: generate_payroll_allocations_def bind_res_Inr_iff)
  have ids: "distinct (map se_id (db_entries db))" and keys: "distinct (map allocation_key (db_allocations db))"
    using assms(3) by (auto simp: keys_unique_def)
  note sound = desired_allocations_sound [OF d assms(2) ids]
  have "distinct (map (\<lambda>v. (av_schedule_entry_id v, av_category v)) (map snd d))"
    unfolding keyed_values [OF sound(1)] using sound(1) by (simp add: keyed_ok_def dict_wf_def)
  note table = sync_allocations_values [OF keys this]
  show entries: "db_entries db' = db_entries db" by (simp add: db')
  have allocs: "db_allocations db' = sync_allocations (map snd d) (db_allocations db)" by (simp add: db')
  have sums: "allocated_amount (db_allocations db') i sec = section_sum d i sec" for i sec
    unfolding allocs by (rule allocated_amount_mset [OF table sound(1)])
  show "sections_reconciled db'" "net_is_stored db'"
    using sound(2) unfolding sections_reconciled_def net_is_stored_def sections_filled_def section_total_set sums entries by blast+
  show "distinct (map allocation_key (db_allocations db'))"
    unfolding allocs sync_allocations_rows by (rule allocations.distinct_keys_sync [OF keys])
  show "ar_rows r = length (db_allocations db')"
    using arg_cong [OF table, of size] by (simp add: r allocs)
qed

section \<open>An example database\<close>

text \<open>Two paychecks of one year; the second has a statement whose year-to-date values cover both.\<close>

definition example_amounts :: "cents \<Rightarrow> cents \<Rightarrow> amounts" where
  "example_amounts gross tax f =
     (case f of Gross_earnings \<Rightarrow> gross | Tax_withholdings \<Rightarrow> tax | Net_payment \<Rightarrow> gross - tax | _ \<Rightarrow> 0)"

definition example_entry :: "nat \<Rightarrow> date \<Rightarrow> nat option \<Rightarrow> cents \<Rightarrow> cents \<Rightarrow> payroll_schedule_entry" where
  "example_entry i d sid gross tax =
     \<lparr>se_id = i, se_payroll_statement_id = sid, se_previous_checkpoint_id = None,
      se_next_checkpoint_id = Some 1, se_payment_date = d, se_observed_deposit_date = d,
      se_period_start = d, se_period_end = d, se_payroll_year = d_year d, se_payroll_index = i,
      se_source_kind = ''statement'', se_calculation_version = [], se_employer = ''E'',
      se_job_title = None, se_base_salary = 0, se_amounts = example_amounts gross tax,
      se_adjustments = (\<lambda>_. 0),
      se_deposit_splits = [\<lparr>sp_institution = ''B'', sp_account = ''C'', sp_last4 = Some ''1234'',
        sp_amount = gross - tax, sp_source_kind = ''statement''\<rparr>],
      se_fingerprint = ''f''\<rparr>"

definition example_statement :: payroll_statement where
  "example_statement =
     \<lparr>st_id = 1, st_employer = ''E'', st_job_title = None, st_period_start = Date 2024 1 1,
      st_period_end = Date 2024 1 14, st_payment_date = Date 2024 1 19, st_observed_deposit_date = None,
      st_base_salary = 0, st_amounts = example_amounts 30000 7000, st_ytd_values = (\<lambda>_. None),
      st_detail_complete = True\<rparr>"

definition example_line :: "nat \<Rightarrow> string \<Rightarrow> cents \<Rightarrow> cents option \<Rightarrow> payroll_line_item" where
  "example_line i c a y =
     \<lparr>li_id = i, li_statement_id = 1, li_category = c, li_original_label = c,
      li_amount = a, li_ytd_amount = y\<rparr>"

definition example_db :: payroll_db where
  "example_db =
     \<lparr>db_statements = [example_statement],
      db_lines = [example_line 1 ''earnings.regular'' 25000 (Some 45000),
        example_line 2 ''taxes.federal'' 7000 (Some 12000)],
      db_entries = [example_entry 1 (Date 2024 1 5) None 20000 5000,
        example_entry 2 (Date 2024 1 19) (Some 1) 30000 7000],
      db_allocations = [], db_matches = []\<rparr>"
lemma example_db_run: "isl (generate_payroll_allocations (\<lambda>_. ''h'') example_db) = False"
  by code_simp

lemma example_db_ok: "no_negative_other (db_lines example_db) \<and> keys_unique example_db"
  by code_simp

lemma result_Inr: "isl m = False \<Longrightarrow> \<exists>a b. m = Inr (a, b)" for m :: "'e + 'a \<times> 'b"
  by (cases m) auto

lemmas example_db_result = result_Inr [OF example_db_run]

text \<open>Two deposits into one account: the second is written over the first.\<close>

lemma same_digits_lose_a_deposit:
  "stored_net (map (\<lambda>v. \<lparr>sp_institution = ''B'', sp_account = ''C'', sp_last4 = Some ''1206'', sp_amount = v,
     sp_source_kind = ''statement''\<rparr>) [100000, 50000]) = 50000"
  by code_simp

section \<open>Properties\<close>

text \<open>
  C2: After \<open>generate_payroll_allocations\<close> succeeds, the allocations of every paycheck add up to its compensation,
  pretax, tax and after-tax amounts, and its net allocations to its deposit splits less those that a later split
  of the same last four digits overwrites. So all five checks of \<open>allocation_validation\<close> are reconciled exactly
  when the splits that are left add up to the net amount of every paycheck. The rebuilt table has one row per
  entry and category and as many rows as the result reports. Assumed are unique primary and natural keys, and
  that no statement line books a negative amount under the \<open>.other\<close> category of a section: there an amount
  that comes to zero would not be written over it.
\<close>

theorem generate_allocations_reconciled:
  assumes "generate_payroll_allocations digest db = Inr (db', r)"
    and "no_negative_other (db_lines db)" "keys_unique db"
  shows "sections_reconciled db' \<and> net_is_stored db'
    \<and> (reconciled_db db' \<longleftrightarrow> (\<forall>row \<in> set (db_entries db). stored_net (se_deposit_splits row) = se_amounts row Net_payment))
    \<and> distinct (map allocation_key (db_allocations db')) \<and> ar_rows r = length (db_allocations db')"
  using generate_allocations_sound [OF assms] reconciled_when_stored [of db'] by simp

theorem generate_allocations_reconciled_witness:
  "\<exists>db' r. generate_payroll_allocations (\<lambda>_. ''h'') example_db = Inr (db', r)
    \<and> reconciled_db db' \<and> ar_rows r = length (db_allocations db')"
proof -
  obtain db' r where run: "generate_payroll_allocations (\<lambda>_. ''h'') example_db = Inr (db', r)"
    using example_db_result by blast
  have "list_all (\<lambda>row. stored_net (se_deposit_splits row) = se_amounts row Net_payment) (db_entries example_db)"
    by code_simp
  with generate_allocations_reconciled [OF run] example_db_ok run show ?thesis unfolding list_all_iff by blast
qed

text \<open>
  C9: Regenerating the allocations is idempotent: a second run on the database that the first one
  left behind changes neither the rows nor their primary keys and reports the same fingerprints. The
  assumptions are those of the property before.
\<close>

theorem generate_allocations_again:
  assumes "generate_payroll_allocations digest db = Inr (db', r)"
    and "no_negative_other (db_lines db)" "keys_unique db"
  shows "generate_payroll_allocations digest db' = Inr (db', r)"
proof -
  obtain d where d: "desired_allocations digest db = Inr d"
    and db': "db' = db\<lparr>db_allocations := sync_allocations (map snd d) (db_allocations db)\<rparr>"
    and r: "r = \<lparr>ar_rows = length d, ar_fingerprints = sort (map (\<lambda>(k, v). av_fingerprint v) d)\<rparr>"
    using assms(1) by (auto simp: generate_payroll_allocations_def bind_res_Inr_iff)
  have ids: "distinct (map se_id (db_entries db))" using assms(3) by (simp add: keys_unique_def)
  have ok: "keyed_ok d"
    by (rule desired_allocations_sound(1) [OF d assms(2) ids])
  have keys: "distinct (map (\<lambda>v. (av_schedule_entry_id v, av_category v)) (map snd d))"
    using ok unfolding keyed_values [OF ok] by (simp add: keyed_ok_def dict_wf_def)
  have "desired_allocations digest db' = Inr d"
    using d by (simp add: db' desired_allocations_def)
  moreover have "sync_allocations (map snd d) (db_allocations db') = db_allocations db'"
    unfolding db' sync_allocations_rows by (simp add: allocations.sync_again [OF keys])
  ultimately show ?thesis
    by (simp add: generate_payroll_allocations_def r)
qed

theorem generate_allocations_again_witness:
  "\<exists>db' r. generate_payroll_allocations (\<lambda>_. ''h'') example_db = Inr (db', r)
    \<and> generate_payroll_allocations (\<lambda>_. ''h'') db' = Inr (db', r)"
proof -
  obtain db' r where run: "generate_payroll_allocations (\<lambda>_. ''h'') example_db = Inr (db', r)"
    using example_db_result by blast
  with generate_allocations_again [OF this] example_db_ok show ?thesis by blast
qed

end
