(* ===== verification/Schedule_Facts.thy ===== *)
theory Schedule_Facts
  imports Payroll_Schedule Allocation_Facts
begin

text \<open>
  What \<open>payroll.py\<close> achieves: the official dates, the balance of the drafts against every checkpoint,
  and the checks of \<open>schedule_validation\<close> on the rebuilt tables.
\<close>

section \<open>The official dates\<close>

definition on_schedule :: "date \<Rightarrow> bool" where
  "on_schedule d \<longleftrightarrow> valid_date d \<and> (ordinal schedule_anchor - ordinal d) mod 14 = 0"

lemma anchor_valid [simp]: "valid_date schedule_anchor" "valid_date scope_start" "valid_date scope_end"
  by (code_simp)+

lemma pay_dates_down_set:
  assumes "valid_date first" "valid_date current"
  shows "d \<in> set (pay_dates_down first end_date current) \<longleftrightarrow>
    valid_date d \<and> first \<le> d \<and> d \<le> end_date \<and> d \<le> current \<and> (ordinal current - ordinal d) mod 14 = 0"
  using assms
proof (induction first end_date current rule: pay_dates_down.induct)
  case (1 first end_date current)
  let ?prev = "add_days current (- 14)"
  show ?case
  proof (cases "first \<le> current")
    case False
    then show ?thesis by (subst pay_dates_down.simps) (auto intro: order_trans)
  next
    case True
    have valid: "valid_date ?prev" using "1.prems" by simp
    note IH = "1.IH" [OF conjI [OF "1.prems"(2) conjI [OF "1.prems"(1) True]] "1.prems"(1) valid]
    have below: "d \<le> current \<and> (ordinal current - ordinal d) mod 14 = 0 \<longleftrightarrow>
        d = current \<or> d \<le> ?prev \<and> (ordinal ?prev - ordinal d) mod 14 = 0" if d: "valid_date d"
    proof -
      have le: "d \<le> x \<longleftrightarrow> ordinal d \<le> ordinal x" if "valid_date x" for x
        using d that by (simp add: ordinal_le_iff)
      have eq: "d = current \<longleftrightarrow> ordinal d = ordinal current"
        using d "1.prems"(2) by (simp add: ordinal_eq_iff)
      show ?thesis
        unfolding le [OF "1.prems"(2)] le [OF valid] eq ordinal_add_days [OF "1.prems"(2)] by presburger
    qed
    have "d \<in> set (pay_dates_down first end_date current) \<longleftrightarrow>
        d = current \<and> current \<le> end_date \<or> d \<in> set (pay_dates_down first end_date ?prev)"
      using True "1.prems" by (subst pay_dates_down.simps) auto
    then show ?thesis using IH below "1.prems" True by (cases "valid_date d") auto
  qed
qed

lemma pay_dates_down_distinct:
  assumes "valid_date first" "valid_date current"
  shows "distinct (pay_dates_down first end_date current)"
  using assms
proof (induction first end_date current rule: pay_dates_down.induct)
  case (1 first end_date current)
  show ?case
  proof (cases "first \<le> current")
    case True
    have valid: "valid_date (add_days current (- 14))" using "1.prems" by simp
    have "distinct (pay_dates_down first end_date (add_days current (- 14)))"
      using "1.IH" "1.prems" True valid by blast
    moreover have "current \<notin> set (pay_dates_down first end_date (add_days current (- 14)))"
      using pay_dates_down_set [OF "1.prems"(1) valid] add_days_less_iff [OF "1.prems"(2), of "- 14" 0]
      by auto
    ultimately show ?thesis using "1.prems" True by (subst pay_dates_down.simps) auto
  qed (subst pay_dates_down.simps, simp)
qed

lemma official_pay_dates_set:
  assumes "valid_date first"
  shows "d \<in> set (official_pay_dates first end_date) \<longleftrightarrow>
    on_schedule d \<and> first \<le> d \<and> d \<le> end_date \<and> d \<le> schedule_anchor"
  unfolding official_pay_dates_def on_schedule_def
  by (auto simp: pay_dates_down_set [OF assms])

lemma official_pay_dates_sorted:
  assumes "valid_date first"
  shows "sorted_wrt (<) (official_pay_dates first end_date)"
  using pay_dates_down_distinct [OF assms, of schedule_anchor end_date]
  by (simp add: official_pay_dates_def strict_sorted_iff)

section \<open>Balancing an interval\<close>

text \<open>
  What no balancing step changes: the dates and the origin of a draft, and the template amounts
  under its adjustments.
\<close>

definition shape :: "draft \<Rightarrow> date \<times> int \<times> nat \<times> string \<times> nat option \<times> cents \<times> amounts" where
  "shape d = (dr_payment_date d, dr_payroll_year d, dr_payroll_index d, dr_source_kind d,
     dr_statement_id d, dr_base_salary d, \<lambda>f. dr_amounts d f - dr_adjustments d f)"

lemma shape_fields:
  "shape d = shape d' \<Longrightarrow> dr_payment_date d = dr_payment_date d' \<and> dr_payroll_year d = dr_payroll_year d'
     \<and> dr_source_kind d = dr_source_kind d' \<and> dr_statement_id d = dr_statement_id d'
     \<and> dr_base_salary d = dr_base_salary d'"
  by (simp add: shape_def)

lemma shape_adjust [simp]: "shape (adjust_draft f v d) = shape d"
  by (simp add: shape_def adjust_draft_def fun_eq_iff)

lemma map_shape_update: "i < length ds \<Longrightarrow> shape d = shape (ds ! i) \<Longrightarrow> map shape (ds[i := d]) = map shape ds"
  by (simp add: map_update list_update_same_conv)

lemma map_shape_nth: "map shape ds' = map shape ds \<Longrightarrow> i < length ds \<Longrightarrow> shape (ds' ! i) = shape (ds ! i)"
  by (metis length_map nth_map)

lemma map_shape_length: "map shape ds' = map shape ds \<Longrightarrow> length ds' = length ds"
  by (metis length_map)

definition position_sum :: "nat list \<Rightarrow> money_field \<Rightarrow> draft list \<Rightarrow> cents" where
  "position_sum ps f ds = sum_list (map (\<lambda>i. dr_amounts (ds ! i) f) ps)"

lemma position_sum_cong:
  "(\<And>i. i \<in> set ps \<Longrightarrow> dr_amounts (ds ! i) f = dr_amounts (ds' ! i) f) \<Longrightarrow>
   position_sum ps f ds = position_sum ps f ds'"
  unfolding position_sum_def by (intro arg_cong [where f = sum_list] map_cong) auto

lemma position_sum_adjust:
  assumes "distinct ps" "t \<in> set ps" "t < length ds"
  shows "position_sum ps f (ds[t := adjust_draft f v (ds ! t)]) = position_sum ps f ds + v"
proof -
  let ?ds = "ds[t := adjust_draft f v (ds ! t)]"
  have "position_sum ps f ?ds = (\<Sum>i \<in> set ps. dr_amounts (?ds ! i) f)"
    using assms(1) by (simp add: position_sum_def sum_list_distinct_conv_sum_set)
  also have "\<dots> = dr_amounts (?ds ! t) f + (\<Sum>i \<in> set ps - {t}. dr_amounts (?ds ! i) f)"
    using assms(2) by (simp add: sum.remove)
  also have "(\<Sum>i \<in> set ps - {t}. dr_amounts (?ds ! i) f) = (\<Sum>i \<in> set ps - {t}. dr_amounts (ds ! i) f)"
    by (intro sum.cong) auto
  also have "dr_amounts (?ds ! t) f = dr_amounts (ds ! t) f + v"
    using assms(3) by (simp add: adjust_draft_def)
  also have "dr_amounts (ds ! t) f + v + (\<Sum>i \<in> set ps - {t}. dr_amounts (ds ! i) f)
      = (\<Sum>i \<in> set ps. dr_amounts (ds ! i) f) + v"
    using assms(2) by (simp add: sum.remove)
  finally show ?thesis using assms(1) by (simp add: position_sum_def sum_list_distinct_conv_sum_set)
qed

text \<open>
  One field: afterwards the interval adds up to the step of the year-to-date value, and nothing but
  this field of a calculated draft has moved.
\<close>

definition only_touches :: "nat list \<Rightarrow> draft list \<Rightarrow> draft list \<Rightarrow> bool" where
  "only_touches ps ds ds' \<longleftrightarrow> map shape ds' = map shape ds \<and> (\<forall>i. i \<notin> set ps \<longrightarrow> ds' ! i = ds ! i)"

lemma only_touches_refl [simp]: "only_touches ps ds ds"
  by (simp add: only_touches_def)

lemma only_touches_trans: "only_touches ps ds ds' \<Longrightarrow> only_touches ps ds' ds'' \<Longrightarrow> only_touches ps ds ds''"
  by (simp add: only_touches_def)

lemma balance_field_effect:
  assumes step: "balance_field c interval calculated f (ds, prev) = Inr (ds', prev')"
    and ps: "distinct interval" "set calculated \<subseteq> set interval" "set interval \<subseteq> {..<length ds}"
  shows "only_touches calculated ds ds'"
    and "checkpoint_value c f = Inr (prev' f)" and "prev' = prev(f := prev' f)"
    and "position_sum interval f ds' = prev' f - prev f"
    and "g \<noteq> f \<Longrightarrow> dr_amounts (ds' ! i) g = dr_amounts (ds ! i) g"
proof -
  obtain ytd where ytd: "checkpoint_value c f = Inr ytd"
    using step by (auto simp: balance_field_def Let_def bind_res_Inr_iff)
  let ?r = "ytd - prev f - position_sum interval f ds"
  let ?t = "last calculated"
  have cases: "?r = 0 \<and> ds' = ds \<or> calculated \<noteq> [] \<and> ds' = ds[?t := adjust_draft f ?r (ds ! ?t)]"
    and prev': "prev' = prev(f := ytd)"
    using step by (auto simp: balance_field_def Let_def ytd position_sum_def split: if_splits)
  show "checkpoint_value c f = Inr (prev' f)" "prev' = prev(f := prev' f)" by (simp_all add: ytd prev')
  have t: "?t \<in> set interval" "?t < length ds" if "calculated \<noteq> []"
    using ps last_in_set [OF that] by auto
  show "only_touches calculated ds ds'"
    using cases
  proof (elim disjE conjE)
    assume ne: "calculated \<noteq> []" and ds': "ds' = ds[?t := adjust_draft f ?r (ds ! ?t)]"
    have "map shape ds' = map shape ds" unfolding ds' by (rule map_shape_update [OF t(2) [OF ne]]) simp
    moreover have "ds' ! i = ds ! i" if "i \<notin> set calculated" for i
      unfolding ds' using that last_in_set [OF ne] by (metis nth_list_update_neq)
    ultimately show ?thesis by (simp add: only_touches_def)
  qed simp
  show "position_sum interval f ds' = prev' f - prev f"
    using cases
  proof (elim disjE conjE)
    assume ne: "calculated \<noteq> []" and ds': "ds' = ds[?t := adjust_draft f ?r (ds ! ?t)]"
    show ?thesis unfolding ds' by (subst position_sum_adjust [OF ps(1) t [OF ne]]) (simp add: prev')
  qed (simp add: prev')
  assume g: "g \<noteq> f"
  show "dr_amounts (ds' ! i) g = dr_amounts (ds ! i) g"
    using cases
  proof (elim disjE conjE)
    assume ne: "calculated \<noteq> []" and ds': "ds' = ds[?t := adjust_draft f ?r (ds ! ?t)]"
    show ?thesis using g t(2) [OF ne] by (cases "i = ?t") (simp_all add: ds' adjust_draft_def)
  qed simp
qed

lemma balance_fields_effect:
  assumes run: "for_each (balance_field c interval calculated) money_fields (ds, prev) = Inr (ds', prev')"
    and ps: "distinct interval" "set calculated \<subseteq> set interval" "set interval \<subseteq> {..<length ds}"
  shows "only_touches calculated ds ds'" and "checkpoint_value c f = Inr (prev' f)"
    and "position_sum interval f ds' = prev' f - prev f"
proof -
  let ?P = "\<lambda>pre r. only_touches calculated ds (fst r)
      \<and> (\<forall>f \<in> set pre. checkpoint_value c f = Inr (snd r f) \<and> position_sum interval f (fst r) = snd r f - prev f)
      \<and> (\<forall>f. f \<notin> set pre \<longrightarrow> snd r f = prev f)"
  have "?P money_fields (ds', prev')"
  proof (rule for_each_invariant [where P = ?P, OF run])
    fix pre f rest r r'
    assume split: "money_fields = pre @ f # rest" and inv: "?P pre r"
      and step: "balance_field c interval calculated f r = Inr r'"
    have inv1: "only_touches calculated ds (fst r)"
      and inv2: "\<And>g. g \<in> set pre \<Longrightarrow> checkpoint_value c g = Inr (snd r g)
        \<and> position_sum interval g (fst r) = snd r g - prev g"
      and inv3: "\<And>g. g \<notin> set pre \<Longrightarrow> snd r g = prev g"
      using inv by blast+
    have new: "f \<notin> set pre" using distinct_money_fields by (simp add: split)
    have len: "length (fst r) = length ds"
      using inv1 unfolding only_touches_def by (blast dest: map_shape_length)
    have step': "balance_field c interval calculated f (fst r, snd r) = Inr (fst r', snd r')"
      using step by simp
    have ps': "set interval \<subseteq> {..<length (fst r)}" using ps(3) len by simp
    note eff = balance_field_effect [OF step' ps(1,2) ps']
    have kept: "snd r' g = snd r g" if "g \<noteq> f" for g using eff(3) that by (metis fun_upd_other)
    have "position_sum interval g (fst r') = position_sum interval g (fst r)" if "g \<noteq> f" for g
      using eff(5) [OF that] by (rule position_sum_cong)
    then have "checkpoint_value c g = Inr (snd r' g) \<and> position_sum interval g (fst r') = snd r' g - prev g"
      if "g \<in> set (pre @ [f])" for g
      using that inv2 [of g] inv3 [OF new] eff(2,4) kept [of g] by (cases "g = f") auto
    moreover have "snd r' g = prev g" if "g \<notin> set (pre @ [f])" for g
      using that inv3 kept by simp
    ultimately show "?P (pre @ [f]) r'" using only_touches_trans [OF inv1 eff(1)] by blast
  qed simp
  then show "only_touches calculated ds ds'" "checkpoint_value c f = Inr (prev' f)"
    "position_sum interval f ds' = prev' f - prev f"
    by auto
qed

section \<open>Balancing a year\<close>

lemma interval_positions_shape:
  assumes "map shape ds' = map shape ds"
  shows "interval_positions y p D ds' = interval_positions y p D ds"
proof -
  have "dr_payroll_year (ds' ! i) = dr_payroll_year (ds ! i) \<and> dr_payment_date (ds' ! i) = dr_payment_date (ds ! i)"
    if "i < length ds" for i
    using map_shape_nth [OF assms that] by (simp add: shape_def)
  then show ?thesis
    unfolding interval_positions_def map_shape_length [OF assms] by (intro filter_cong) auto
qed

lemma interval_positions_set:
  "i \<in> set (interval_positions y p D ds) \<longleftrightarrow>
     i < length ds \<and> dr_payroll_year (ds ! i) = y \<and> in_interval p D (dr_payment_date (ds ! i))"
  by (auto simp: interval_positions_def)

lemma interval_positions_distinct [simp]: "distinct (interval_positions y p D ds)"
  by (simp add: interval_positions_def)

definition ytd_of :: "int \<Rightarrow> date \<Rightarrow> money_field \<Rightarrow> draft list \<Rightarrow> cents" where
  "ytd_of y D f ds = position_sum (interval_positions y None D ds) f ds"

lemma ytd_of_split:
  assumes "p \<le> D"
  shows "ytd_of y D f ds = ytd_of y p f ds + position_sum (interval_positions y (Some p) D ds) f ds"
proof -
  let ?xs = "interval_positions y None D ds"
  have "filter (\<lambda>i. dr_payment_date (ds ! i) \<le> p) ?xs = interval_positions y None p ds"
    unfolding interval_positions_def filter_filter in_interval_def
    using assms by (intro filter_cong) auto
  moreover have "filter (\<lambda>i. \<not> dr_payment_date (ds ! i) \<le> p) ?xs = interval_positions y (Some p) D ds"
    unfolding interval_positions_def filter_filter in_interval_def by (intro filter_cong) auto
  ultimately show ?thesis
    unfolding ytd_of_def position_sum_def
    by (subst sum_list_partition [where P = "\<lambda>i. dr_payment_date (ds ! i) \<le> p"]) simp
qed

lemma ytd_of_unchanged:
  assumes "map shape ds' = map shape ds"
    and "\<And>i. i \<in> set (interval_positions y None D ds) \<Longrightarrow> dr_amounts (ds' ! i) f = dr_amounts (ds ! i) f"
  shows "ytd_of y D f ds' = ytd_of y D f ds"
  unfolding ytd_of_def interval_positions_shape [OF assms(1)] using assms(2) by (rule position_sum_cong)

lemma mark_calculated_effect:
  assumes "set ps \<subseteq> {..<length ds}"
  shows "only_touches ps ds (mark_calculated p c ps ds)
    \<and> (\<forall>i. dr_amounts (mark_calculated p c ps ds ! i) = dr_amounts (ds ! i))"
proof -
  let ?f = "\<lambda>i ds. ds[i := (ds ! i)\<lparr>dr_previous_checkpoint_id := p, dr_next_checkpoint_id := Some c\<rparr>]"
  let ?P = "\<lambda>t. only_touches ps ds t \<and> (\<forall>i. dr_amounts (t ! i) = dr_amounts (ds ! i))"
  have "?P (fold ?f ps ds)"
  proof (rule fold_preserves [where P = ?P])
    fix j t assume j: "j \<in> set ps" and inv: "?P t"
    have len: "j < length t"
      using j assms inv map_shape_length [of t ds] by (auto simp: only_touches_def)
    have "map shape (?f j t) = map shape t"
      by (rule map_shape_update [OF len]) (simp add: shape_def)
    moreover have "?f j t ! i = t ! i" if "i \<notin> set ps" for i
      using that j by (intro nth_list_update_neq) auto
    moreover have "dr_amounts (?f j t ! i) = dr_amounts (t ! i)" for i
      using len by (cases "i = j") simp_all
    ultimately show "?P (?f j t)" using inv by (simp add: only_touches_def)
  qed simp
  then show ?thesis by (simp add: mark_calculated_def)
qed

definition year_inv :: "int \<Rightarrow> draft list \<Rightarrow> payroll_statement list \<Rightarrow> balance_state \<Rightarrow> bool" where
  "year_inv y ds0 pre st \<longleftrightarrow>
     map shape (ba_drafts st) = map shape ds0
     \<and> (\<forall>i < length ds0. dr_source_kind (ds0 ! i) \<noteq> ''calculated'' \<or> dr_payroll_year (ds0 ! i) \<noteq> y
          \<longrightarrow> dr_amounts (ba_drafts st ! i) = dr_amounts (ds0 ! i))
     \<and> (\<forall>c \<in> set pre. \<forall>f. checkpoint_value c f = Inr (ytd_of y (st_payment_date c) f (ba_drafts st)))
     \<and> (case ba_previous_date st of
          None \<Rightarrow> pre = [] \<and> (\<forall>f. ba_previous_ytd st f = 0)
        | Some p \<Rightarrow> p \<in> st_payment_date ` set pre \<and> (\<forall>c \<in> set pre. st_payment_date c \<le> p)
            \<and> (\<forall>f. ba_previous_ytd st f = ytd_of y p f (ba_drafts st)))"

lemma balance_checkpoint_effect:
  assumes step: "balance_checkpoint y c st = Inr st'"
  defines "ds \<equiv> ba_drafts st" and "D \<equiv> st_payment_date c"
  defines "interval \<equiv> interval_positions y (ba_previous_date st) D ds"
  shows "map shape (ba_drafts st') = map shape ds"
    and "\<forall>i. i \<notin> set interval \<or> dr_source_kind (ds ! i) \<noteq> ''calculated'' \<longrightarrow>
      dr_amounts (ba_drafts st' ! i) = dr_amounts (ds ! i)"
    and "checkpoint_value c f = Inr (ba_previous_ytd st' f)"
    and "position_sum interval f (ba_drafts st') = ba_previous_ytd st' f - ba_previous_ytd st f"
    and "ba_previous_date st' = Some D"
proof -
  define calculated where "calculated = filter (\<lambda>i. dr_source_kind (ds ! i) = ''calculated'') interval"
  define marked where "marked = mark_calculated (ba_previous_id st) (st_id c) calculated ds"
  obtain r where r: "for_each (balance_field c interval calculated) money_fields (marked, ba_previous_ytd st) = Inr r"
    and st': "ba_drafts st' = fst r" "ba_previous_ytd st' = snd r" "ba_previous_date st' = Some D"
    using step unfolding balance_checkpoint_def Let_def ds_def D_def interval_def calculated_def marked_def
    by (auto simp: bind_res_Inr_iff)
  have sub: "set calculated \<subseteq> set interval" "set interval \<subseteq> {..<length ds}" "distinct interval"
    by (auto simp: calculated_def interval_def interval_positions_set)
  have mark: "only_touches calculated ds marked" "\<forall>i. dr_amounts (marked ! i) = dr_amounts (ds ! i)"
    using mark_calculated_effect [of calculated ds] sub unfolding marked_def by blast+
  have shape_marked: "map shape marked = map shape ds" using mark(1) by (simp add: only_touches_def)
  have in_marked: "set interval \<subseteq> {..<length marked}"
    using sub(2) map_shape_length [OF shape_marked] by simp
  have run: "for_each (balance_field c interval calculated) money_fields (marked, ba_previous_ytd st)
      = Inr (ba_drafts st', ba_previous_ytd st')"
    using r st' by simp
  note eff = balance_fields_effect [OF run sub(3,1) in_marked]
  show "map shape (ba_drafts st') = map shape ds"
    using eff(1) shape_marked unfolding only_touches_def by (metis (full_types))
  show "\<forall>i. i \<notin> set interval \<or> dr_source_kind (ds ! i) \<noteq> ''calculated'' \<longrightarrow>
      dr_amounts (ba_drafts st' ! i) = dr_amounts (ds ! i)"
  proof (intro allI impI)
    fix i assume "i \<notin> set interval \<or> dr_source_kind (ds ! i) \<noteq> ''calculated''"
    then have "i \<notin> set calculated" unfolding calculated_def set_filter by blast
    with eff(1) have "ba_drafts st' ! i = marked ! i" unfolding only_touches_def by blast
    with mark(2) show "dr_amounts (ba_drafts st' ! i) = dr_amounts (ds ! i)" by simp
  qed
  show "checkpoint_value c f = Inr (ba_previous_ytd st' f)"
    "position_sum interval f (ba_drafts st') = ba_previous_ytd st' f - ba_previous_ytd st f"
    using eff(2,3) by blast+
  show "ba_previous_date st' = Some D" by (rule st')
qed

lemma year_inv_step:
  assumes inv: "year_inv y ds0 pre st" and step: "balance_checkpoint y c st = Inr st'"
    and order: "\<forall>b \<in> set pre. st_payment_date b \<le> st_payment_date c"
  shows "year_inv y ds0 (pre @ [c]) st'"
proof -
  define ds where "ds = ba_drafts st"
  define ds' where "ds' = ba_drafts st'"
  define D where "D = st_payment_date c"
  define interval where "interval = interval_positions y (ba_previous_date st) D ds"
  note eff = balance_checkpoint_effect [OF step, folded ds_def ds'_def D_def, folded interval_def]
  have shape0: "map shape ds = map shape ds0"
    and keep0: "\<And>i. i < length ds0 \<Longrightarrow> dr_source_kind (ds0 ! i) \<noteq> ''calculated'' \<or> dr_payroll_year (ds0 ! i) \<noteq> y
          \<Longrightarrow> dr_amounts (ds ! i) = dr_amounts (ds0 ! i)"
    and done0: "\<And>b f. b \<in> set pre \<Longrightarrow> checkpoint_value b f = Inr (ytd_of y (st_payment_date b) f ds)"
    using inv unfolding year_inv_def ds_def by blast+
  have early: "ytd_of y E f ds' = ytd_of y E f ds" if p: "ba_previous_date st = Some p" "E \<le> p" for E f p
  proof (rule ytd_of_unchanged [OF eff(1)])
    fix i assume "i \<in> set (interval_positions y None E ds)"
    then have "i \<notin> set interval"
      using p by (auto simp: interval_def interval_positions_set in_interval_def)
    with eff(2) show "dr_amounts (ds' ! i) f = dr_amounts (ds ! i) f" by metis
  qed
  have now: "ba_previous_ytd st' f = ytd_of y D f ds'" for f
  proof (cases "ba_previous_date st")
    case None
    then have "ba_previous_ytd st f = 0" using inv by (simp add: year_inv_def)
    moreover have "interval = interval_positions y None D ds'"
      using None by (simp add: interval_def interval_positions_shape [OF eff(1)])
    ultimately show ?thesis using eff(4) [of f] by (simp add: ytd_of_def)
  next
    case (Some p)
    then have prev: "ba_previous_ytd st f = ytd_of y p f ds" and "p \<in> st_payment_date ` set pre"
      using inv by (auto simp: year_inv_def ds_def)
    with order have pD: "p \<le> D" by (auto simp: D_def)
    have "interval = interval_positions y (Some p) D ds'"
      using Some by (simp add: interval_def interval_positions_shape [OF eff(1)])
    then show ?thesis
      using eff(4) [of f] prev early [OF Some order_refl, of f] by (simp add: ytd_of_split [OF pD])
  qed
  have old: "checkpoint_value b f = Inr (ytd_of y (st_payment_date b) f ds')" if b: "b \<in> set pre" for b f
  proof (cases "ba_previous_date st")
    case None
    then show ?thesis using inv b by (simp add: year_inv_def)
  next
    case (Some p)
    then have "st_payment_date b \<le> p" using inv b by (simp add: year_inv_def)
    then show ?thesis using done0 [OF b] early [OF Some] by simp
  qed
  have keep: "dr_amounts (ds' ! i) = dr_amounts (ds0 ! i)"
    if i: "i < length ds0" "dr_source_kind (ds0 ! i) \<noteq> ''calculated'' \<or> dr_payroll_year (ds0 ! i) \<noteq> y" for i
  proof -
    have "dr_source_kind (ds ! i) = dr_source_kind (ds0 ! i)" "dr_payroll_year (ds ! i) = dr_payroll_year (ds0 ! i)"
      using shape_fields [OF map_shape_nth [OF shape0 i(1)]] by blast+
    then have "i \<notin> set interval \<or> dr_source_kind (ds ! i) \<noteq> ''calculated''"
      using i(2) unfolding interval_def interval_positions_set by metis
    with eff(2) have "dr_amounts (ds' ! i) = dr_amounts (ds ! i)" by blast
    with keep0 [OF i] show ?thesis by simp
  qed
  have all: "checkpoint_value b f = Inr (ytd_of y (st_payment_date b) f ds')" if "b \<in> set (pre @ [c])" for b f
    using that old eff(3) now by (auto simp: D_def)
  have "\<forall>b \<in> set (pre @ [c]). st_payment_date b \<le> D" using order by (simp add: D_def)
  then show ?thesis
    unfolding year_inv_def using eff(1,5) shape0 keep all now
    by (simp add: ds'_def [symmetric] D_def)
qed

lemma balance_year_effect:
  assumes "sorted (map st_payment_date statements)" "balance_year statements y ds = Inr ds'"
  shows "map shape ds' = map shape ds"
    and "i < length ds \<Longrightarrow> dr_source_kind (ds ! i) \<noteq> ''calculated'' \<or> dr_payroll_year (ds ! i) \<noteq> y
      \<Longrightarrow> dr_amounts (ds' ! i) = dr_amounts (ds ! i)"
    and "c \<in> set statements \<Longrightarrow> d_year (st_payment_date c) = y \<Longrightarrow>
      checkpoint_value c f = Inr (ytd_of y (st_payment_date c) f ds')"
proof -
  let ?cs = "filter (\<lambda>s. d_year (st_payment_date s) = y) statements"
  obtain st where run: "for_each (balance_checkpoint y) ?cs
      \<lparr>ba_drafts = ds, ba_previous_date = None, ba_previous_ytd = (\<lambda>_. 0), ba_previous_id = None\<rparr> = Inr st"
    and ds': "ds' = ba_drafts st"
    using assms(2) by (auto simp: balance_year_def bind_res_Inr_iff)
  have sorted: "sorted (map st_payment_date ?cs)" using assms(1) by (rule sorted_filter)
  have inv: "year_inv y ds ?cs st"
  proof (rule for_each_invariant [where P = "year_inv y ds", OF run])
    fix pre c rest s s'
    assume cs: "?cs = pre @ c # rest" and "year_inv y ds pre s" "balance_checkpoint y c s = Inr s'"
    moreover have "\<forall>b \<in> set pre. st_payment_date b \<le> st_payment_date c"
      using sorted unfolding cs by (auto simp: sorted_append)
    ultimately show "year_inv y ds (pre @ [c]) s'" by (intro year_inv_step)
  qed (simp add: year_inv_def)
  show "map shape ds' = map shape ds" using inv by (simp add: year_inv_def ds')
  show "dr_amounts (ds' ! i) = dr_amounts (ds ! i)"
    if "i < length ds" "dr_source_kind (ds ! i) \<noteq> ''calculated'' \<or> dr_payroll_year (ds ! i) \<noteq> y"
    using inv that unfolding year_inv_def ds' by blast
  show "checkpoint_value c f = Inr (ytd_of y (st_payment_date c) f ds')"
    if "c \<in> set statements" "d_year (st_payment_date c) = y"
  proof -
    have "c \<in> set ?cs" using that by simp
    then show ?thesis using inv unfolding year_inv_def ds' by blast
  qed
qed

lemma balance_years_effect:
  assumes "sorted (map st_payment_date statements)"
    and run: "for_each (balance_year statements) ys ds = Inr ds'" and "distinct ys"
  shows "map shape ds' = map shape ds"
    and "i < length ds \<Longrightarrow> dr_source_kind (ds ! i) \<noteq> ''calculated'' \<Longrightarrow> dr_amounts (ds' ! i) = dr_amounts (ds ! i)"
    and "c \<in> set statements \<Longrightarrow> d_year (st_payment_date c) \<in> set ys \<Longrightarrow>
      checkpoint_value c f = Inr (ytd_of (d_year (st_payment_date c)) (st_payment_date c) f ds')"
proof -
  let ?P = "\<lambda>pre t. map shape t = map shape ds
    \<and> (\<forall>i < length ds. dr_source_kind (ds ! i) \<noteq> ''calculated'' \<longrightarrow> dr_amounts (t ! i) = dr_amounts (ds ! i))
    \<and> (\<forall>c \<in> set statements. \<forall>f. d_year (st_payment_date c) \<in> set pre \<longrightarrow>
        checkpoint_value c f = Inr (ytd_of (d_year (st_payment_date c)) (st_payment_date c) f t))"
  have "?P ys ds'"
  proof (rule for_each_invariant [where P = ?P, OF run])
    fix pre y rest t t'
    assume split: "ys = pre @ y # rest" and inv: "?P pre t" and step: "balance_year statements y t = Inr t'"
    note eff = balance_year_effect [OF assms(1) step]
    have shape: "map shape t = map shape ds" using inv by blast
    have len: "length t = length ds" using shape by (rule map_shape_length)
    have stay: "dr_amounts (t' ! i) = dr_amounts (ds ! i)"
      if "i < length ds" "dr_source_kind (ds ! i) \<noteq> ''calculated''" for i
    proof -
      have "dr_source_kind (t ! i) \<noteq> ''calculated''"
        using that shape_fields [OF map_shape_nth [OF shape that(1)]] by metis
      then have "dr_amounts (t' ! i) = dr_amounts (t ! i)" using eff(2) [of i] that(1) len by simp
      then show ?thesis using inv that by simp
    qed
    have ytd: "checkpoint_value c f = Inr (ytd_of (d_year (st_payment_date c)) (st_payment_date c) f t')"
      if c: "c \<in> set statements" "d_year (st_payment_date c) \<in> set (pre @ [y])" for c f
    proof (cases "d_year (st_payment_date c) = y")
      case True
      then show ?thesis using eff(3) [OF c(1), of f] by simp
    next
      case False
      then have "checkpoint_value c f = Inr (ytd_of (d_year (st_payment_date c)) (st_payment_date c) f t)"
        using inv c by simp
      moreover have "ytd_of (d_year (st_payment_date c)) (st_payment_date c) f t'
          = ytd_of (d_year (st_payment_date c)) (st_payment_date c) f t"
      proof (rule ytd_of_unchanged [OF eff(1)])
        fix i assume i: "i \<in> set (interval_positions (d_year (st_payment_date c)) None (st_payment_date c) t)"
        then have "i < length t" "dr_payroll_year (t ! i) \<noteq> y"
          using False by (simp_all add: interval_positions_set)
        then show "dr_amounts (t' ! i) f = dr_amounts (t ! i) f" using eff(2) [of i] by simp
      qed
      ultimately show ?thesis by simp
    qed
    show "?P (pre @ [y]) t'" using eff(1) shape stay ytd by auto
  qed simp
  then show "map shape ds' = map shape ds"
    "i < length ds \<Longrightarrow> dr_source_kind (ds ! i) \<noteq> ''calculated'' \<Longrightarrow> dr_amounts (ds' ! i) = dr_amounts (ds ! i)"
    "c \<in> set statements \<Longrightarrow> d_year (st_payment_date c) \<in> set ys \<Longrightarrow>
      checkpoint_value c f = Inr (ytd_of (d_year (st_payment_date c)) (st_payment_date c) f ds')"
    by blast+
qed

section \<open>The drafts\<close>

lemma statements_by_date_lookup:
  "map_of (statements_by_date statements) d = Some s \<Longrightarrow> s \<in> set statements \<and> st_payment_date s = d"
proof -
  have "map_of (fold (\<lambda>s. dict_set (st_payment_date s) s) xs t) d = Some s \<Longrightarrow>
      map_of t d = Some s \<or> s \<in> set xs \<and> st_payment_date s = d" for xs t
  proof (induction xs arbitrary: t)
    case (Cons x xs)
    from Cons.IH [of "dict_set (st_payment_date x) x t"] Cons.prems show ?case
      by (auto split: if_splits)
  qed simp
  from this [of statements "[]"] show "map_of (statements_by_date statements) d = Some s \<Longrightarrow> ?thesis"
    by (simp add: statements_by_date_def)
qed

lemma statements_by_date_None:
  "map_of (statements_by_date statements) d = None \<longleftrightarrow> d \<notin> st_payment_date ` set statements"
proof -
  have "map_of (fold (\<lambda>s. dict_set (st_payment_date s) s) xs t) d = None \<longleftrightarrow>
      map_of t d = None \<and> d \<notin> st_payment_date ` set xs" for xs t
    by (induction xs arbitrary: t) auto
  from this [of statements "[]"] show ?thesis by (simp add: statements_by_date_def)
qed

definition draft_of :: "payroll_statement list \<Rightarrow> draft \<Rightarrow> bool" where
  "draft_of statements d \<longleftrightarrow> (\<exists>n. d = new_draft statements (dr_payment_date d) n)"

lemma initial_drafts_facts:
  "map dr_payment_date (initial_drafts statements) = draft_dates statements
   \<and> (\<forall>d \<in> set (initial_drafts statements). draft_of statements d)"
proof -
  let ?step = "add_draft statements"
  have "map dr_payment_date (snd (fold ?step ds st)) = map dr_payment_date (snd st) @ ds
      \<and> (\<forall>d \<in> set (snd (fold ?step ds st)). d \<in> set (snd st) \<or> draft_of statements d)" for ds st
  proof (induction ds arbitrary: st)
    case (Cons d ds)
    have new: "dr_payment_date (new_draft statements d n) = d" for n by (simp add: new_draft_def Let_def)
    then have "draft_of statements (new_draft statements d n)" for n
      unfolding draft_of_def by (metis new)
    with Cons.IH [of "?step d st"] new show ?case by (auto simp: add_draft_def Let_def)
  qed simp
  from this [of "draft_dates statements" "([], [])"] show ?thesis
    by (simp add: initial_drafts_def)
qed

lemma new_draft_fields:
  "dr_payroll_year (new_draft statements d n) = d_year d"
  "dr_source_kind (new_draft statements d n) = ''statement'' \<longleftrightarrow> d \<in> st_payment_date ` set statements"
  "dr_source_kind (new_draft statements d n) = ''calculated'' \<longleftrightarrow> d \<notin> st_payment_date ` set statements"
  using statements_by_date_None [of statements d]
  by (auto simp: new_draft_def Let_def split: option.splits)

lemma ytd_of_list:
  "ytd_of y D f ds =
     sum_list (map (\<lambda>d. dr_amounts d f) (filter (\<lambda>d. dr_payroll_year d = y \<and> dr_payment_date d \<le> D) ds))"
proof -
  let ?P = "\<lambda>d. dr_payroll_year d = y \<and> dr_payment_date d \<le> D"
  have "filter ?P ds = map ((!) ds) (filter (?P \<circ> (!) ds) [0..<length ds])"
    by (metis filter_map map_nth)
  then show ?thesis
    by (simp add: ytd_of_def position_sum_def interval_positions_def in_interval_def comp_def)
qed

definition finished_as :: "payroll_line_item list \<Rightarrow> payroll_statement list \<Rightarrow> draft \<Rightarrow> draft \<Rightarrow> bool" where
  "finished_as lines statements d d' \<longleftrightarrow>
     d' = d\<lparr>dr_deposit_splits := normalized_splits lines d (map_of (statements_by_date statements) (dr_payment_date d))\<rparr>
     \<and> arithmetic_residual (dr_amounts d) = 0"

lemma finish_draft_Inr: "finish_draft lines statements d = Inr d' \<longleftrightarrow> finished_as lines statements d d'"
  by (auto simp: finish_draft_def finished_as_def Let_def)

lemma build_drafts_balanced:
  assumes "build_drafts all_statements lines = Inr ds"
  defines "statements \<equiv> scope_statements all_statements"
  obtains drafts where "list_all2 (finished_as lines statements) drafts ds"
    and "map shape drafts = map shape (initial_drafts statements)"
    and "\<forall>i < length drafts. dr_source_kind (initial_drafts statements ! i) \<noteq> ''calculated'' \<longrightarrow>
      dr_amounts (drafts ! i) = dr_amounts (initial_drafts statements ! i)"
    and "\<forall>c \<in> set statements. \<forall>f.
      checkpoint_value c f = Inr (ytd_of (d_year (st_payment_date c)) (st_payment_date c) f drafts)"
proof (cases "statements = []")
  case True
  then have "ds = []" using assms(1) by (simp add: build_drafts_def Let_def statements_def)
  moreover have "initial_drafts statements = []"
    by (simp add: True initial_drafts_def draft_dates_def statement_years_def)
  ultimately show ?thesis using that [of "[]"] True by simp
next
  case False
  then obtain drafts where run: "for_each (balance_year statements) (sort (statement_years statements))
        (initial_drafts statements) = Inr drafts"
    and fin: "map_res (finish_draft lines statements) drafts = Inr ds"
    using assms(1) unfolding build_drafts_def Let_def statements_def
    by (auto simp: bind_res_Inr_iff)
  have sorted: "sorted (map st_payment_date statements)"
    by (simp add: statements_def scope_statements_def)
  have years: "distinct (sort (statement_years statements))"
    and all: "c \<in> set statements \<Longrightarrow> d_year (st_payment_date c) \<in> set (sort (statement_years statements))" for c
    by (auto simp: statement_years_def)
  note eff = balance_years_effect [OF sorted run years]
  have "list_all2 (finished_as lines statements) drafts ds"
    using map_res_Inr [OF fin] by (simp add: finish_draft_Inr)
  moreover have "length drafts = length (initial_drafts statements)"
    using eff(1) by (rule map_shape_length)
  ultimately show ?thesis using that [of drafts] eff all by simp
qed

text \<open>The checks a list of drafts has to pass, as the code reads them off the finished drafts.\<close>

definition draft_balanced :: "payroll_statement list \<Rightarrow> draft list \<Rightarrow> payroll_statement \<Rightarrow> money_field \<Rightarrow> bool" where
  "draft_balanced statements ds c f \<longleftrightarrow>
     checkpoint_value c f = Inr (sum_list (map (\<lambda>d. dr_amounts d f)
       (filter (\<lambda>d. dr_payroll_year d = d_year (st_payment_date c) \<and> dr_payment_date d \<le> st_payment_date c) ds)))"

definition keeps_statement :: "payroll_statement list \<Rightarrow> draft \<Rightarrow> bool" where
  "keeps_statement statements d \<longleftrightarrow>
     (case map_of (statements_by_date statements) (dr_payment_date d) of
        None \<Rightarrow> dr_source_kind d = ''calculated'' \<and> dr_statement_id d = None
      | Some s \<Rightarrow> dr_source_kind d = ''statement'' \<and> dr_statement_id d = Some (st_id s)
          \<and> dr_amounts d = st_amounts s)"

lemma finished_fields:
  assumes "finished_as lines statements d d'"
  shows "dr_payment_date d' = dr_payment_date d" "dr_payroll_year d' = dr_payroll_year d"
    "dr_amounts d' = dr_amounts d" "dr_source_kind d' = dr_source_kind d" "dr_statement_id d' = dr_statement_id d"
    "dr_base_salary d' = dr_base_salary d" "dr_adjustments d' = dr_adjustments d"
    "arithmetic_residual (dr_amounts d') = 0"
  using assms by (simp_all add: finished_as_def)

lemma list_all2_map_eq: "list_all2 R xs ys \<Longrightarrow> (\<And>x y. R x y \<Longrightarrow> f x = g y) \<Longrightarrow> map f xs = map g ys"
  by (induction rule: list_all2_induct) auto

lemma build_drafts_sound:
  assumes "build_drafts all_statements lines = Inr ds"
  defines "statements \<equiv> scope_statements all_statements"
  shows "map dr_payment_date ds = draft_dates statements"
    and "\<forall>d \<in> set ds. arithmetic_residual (dr_amounts d) = 0"
    and "\<forall>d \<in> set ds. dr_payroll_year d = d_year (dr_payment_date d)"
    and "\<forall>c \<in> set statements. \<forall>f. draft_balanced statements ds c f"
    and "\<forall>d \<in> set ds. keeps_statement statements d"
    and "\<forall>d \<in> set ds. \<exists>d0. finished_as lines statements d0 d"
proof -
  let ?init = "initial_drafts statements"
  obtain drafts where fin: "list_all2 (finished_as lines statements) drafts ds"
    and shape: "map shape drafts = map shape ?init"
    and kept: "\<And>i. i < length drafts \<Longrightarrow> dr_source_kind (?init ! i) \<noteq> ''calculated'' \<Longrightarrow>
      dr_amounts (drafts ! i) = dr_amounts (?init ! i)"
    and ytd: "\<forall>c \<in> set statements. \<forall>f.
      checkpoint_value c f = Inr (ytd_of (d_year (st_payment_date c)) (st_payment_date c) f drafts)"
    using build_drafts_balanced [OF assms(1)] unfolding statements_def by metis
  have len: "length drafts = length ds" "length drafts = length ?init"
    using fin shape by (auto dest: list_all2_lengthD map_shape_length)
  have nth: "finished_as lines statements (drafts ! i) (ds ! i)" "shape (drafts ! i) = shape (?init ! i)"
    "draft_of statements (?init ! i)" if "i < length ds" for i
    using fin that len initial_drafts_facts [of statements] map_shape_nth [OF shape, of i]
    by (auto simp: list_all2_conv_all_nth)
  have "map dr_payment_date ds = map dr_payment_date ?init"
  proof (rule nth_equalityI)
    fix i assume "i < length (map dr_payment_date ds)"
    then have i: "i < length ds" by simp
    show "map dr_payment_date ds ! i = map dr_payment_date ?init ! i"
      using finished_fields(1) [OF nth(1) [OF i]] shape_fields [OF nth(2) [OF i]] i len by simp
  qed (use len in simp)
  then show "map dr_payment_date ds = draft_dates statements"
    using initial_drafts_facts [of statements] by simp
  show "\<forall>d \<in> set ds. arithmetic_residual (dr_amounts d) = 0"
    unfolding all_set_conv_all_nth using finished_fields(8) [OF nth(1)] by blast
  show "\<forall>d \<in> set ds. \<exists>d0. finished_as lines statements d0 d"
    unfolding all_set_conv_all_nth using nth(1) by blast
  have origin: "\<exists>n. ?init ! i = new_draft statements (dr_payment_date (ds ! i)) n" if "i < length ds" for i
    using nth [OF that] finished_fields(1) [OF nth(1) [OF that]] shape_fields [OF nth(2) [OF that]]
    unfolding draft_of_def by metis
  show "\<forall>d \<in> set ds. dr_payroll_year d = d_year (dr_payment_date d)"
  proof
    fix d assume "d \<in> set ds"
    then obtain i where i: "i < length ds" "d = ds ! i" by (auto simp: in_set_conv_nth)
    show "dr_payroll_year d = d_year (dr_payment_date d)"
      using origin [OF i(1)] finished_fields(2) [OF nth(1) [OF i(1)]] shape_fields [OF nth(2) [OF i(1)]] i(2)
      by (metis new_draft_fields(1))
  qed
  show "\<forall>c \<in> set statements. \<forall>f. draft_balanced statements ds c f"
  proof (intro ballI allI)
    fix c f assume c: "c \<in> set statements"
    have "filter P (map (\<lambda>d. (dr_payroll_year d, dr_payment_date d, dr_amounts d f)) drafts)
        = filter P (map (\<lambda>d. (dr_payroll_year d, dr_payment_date d, dr_amounts d f)) ds)" for P
      by (rule arg_cong [where f = "filter P"], rule list_all2_map_eq [OF fin])
        (simp add: finished_fields)
    from this [of "\<lambda>(y, d, a). y = d_year (st_payment_date c) \<and> d \<le> st_payment_date c"]
    have "map (\<lambda>d. dr_amounts d f) (filter (\<lambda>d. dr_payroll_year d = d_year (st_payment_date c)
          \<and> dr_payment_date d \<le> st_payment_date c) drafts)
        = map (\<lambda>d. dr_amounts d f) (filter (\<lambda>d. dr_payroll_year d = d_year (st_payment_date c)
          \<and> dr_payment_date d \<le> st_payment_date c) ds)"
      by (auto simp: filter_map comp_def dest: arg_cong [where f = "map (\<lambda>(y, d, a). a)"])
    then show "draft_balanced statements ds c f"
      using bspec [OF ytd c] by (simp add: draft_balanced_def ytd_of_list)
  qed
  show "\<forall>d \<in> set ds. keeps_statement statements d"
  proof
    fix d assume "d \<in> set ds"
    then obtain i where i: "i < length ds" "d = ds ! i" by (auto simp: in_set_conv_nth)
    obtain n where n: "?init ! i = new_draft statements (dr_payment_date d) n"
      using origin [OF i(1)] i(2) by blast
    have fields: "dr_source_kind d = dr_source_kind (?init ! i)" "dr_statement_id d = dr_statement_id (?init ! i)"
      "dr_amounts d = dr_amounts (drafts ! i)"
      using finished_fields [OF nth(1) [OF i(1)]] shape_fields [OF nth(2) [OF i(1)]] i(2) by auto
    show "keeps_statement statements d"
    proof (cases "map_of (statements_by_date statements) (dr_payment_date d)")
      case None
      then have "dr_source_kind (?init ! i) = ''calculated''" "dr_statement_id (?init ! i) = None"
        by (simp_all add: n new_draft_def Let_def)
      then show ?thesis unfolding keeps_statement_def None option.case fields(1,2) ..
    next
      case (Some s)
      have init: "dr_source_kind (?init ! i) = ''statement''" "dr_amounts (?init ! i) = st_amounts s"
        "dr_statement_id (?init ! i) = Some (st_id s)"
        by (simp_all add: n new_draft_def Let_def Some)
      then have "dr_amounts (drafts ! i) = dr_amounts (?init ! i)"
        using i len by (intro kept) simp_all
      with init show ?thesis unfolding keeps_statement_def Some option.case fields by metis
    qed
  qed
qed

section \<open>The deposit splits of a draft\<close>

text \<open>The net distribution lines of a statement come to its net payment in the table, or there are none.\<close>

definition net_lines_add_up :: "payroll_line_item list \<Rightarrow> payroll_statement \<Rightarrow> bool" where
  "net_lines_add_up lines s \<longleftrightarrow>
     (let rows = map statement_split
        (filter (\<lambda>l. like_net_distribution (li_category l)) (lines_of lines (st_id s)))
      in rows = [] \<or> stored_net rows = st_amounts s Net_payment)"

lemma calculated_splits_add_up: "stored_net (calculated_splits d) = dr_amounts d Net_payment"
  by (simp add: stored_net_def calculated_splits_def split_key_def)

lemma finished_splits_add_up:
  assumes "finished_as lines statements d0 d" "keeps_statement statements d"
    and "list_all (net_lines_add_up lines) statements"
  shows "stored_net (dr_deposit_splits d) = dr_amounts d Net_payment"
proof -
  let ?st = "map_of (statements_by_date statements) (dr_payment_date d0)"
  have d: "dr_deposit_splits d = normalized_splits lines d0 ?st" "dr_amounts d = dr_amounts d0"
    "dr_payment_date d = dr_payment_date d0"
    using assms(1) by (simp_all add: finished_as_def)
  show ?thesis
  proof (cases ?st)
    case None
    then show ?thesis
      using calculated_splits_add_up [of d0] by (simp add: d normalized_splits_def)
  next
    case (Some s)
    then have "s \<in> set statements" using statements_by_date_lookup by blast
    then have ok: "net_lines_add_up lines s" using assms(3) by (simp add: list_all_iff)
    have amounts: "dr_amounts d0 = st_amounts s"
      using assms(2) unfolding keeps_statement_def d(2,3) Some option.case by blast
    let ?rows = "map statement_split (filter (\<lambda>l. like_net_distribution (li_category l)) (lines_of lines (st_id s)))"
    show ?thesis
    proof (cases "?rows = []")
      case True
      then have "dr_deposit_splits d = calculated_splits d0"
        unfolding d(1) normalized_splits_def Let_def Some option.case by (simp only: not_True_eq_False simp_thms if_False)
      then show ?thesis using calculated_splits_add_up [of d0] by (simp only: d(2))
    next
      case False
      then have "dr_deposit_splits d = ?rows"
        unfolding d(1) normalized_splits_def Let_def Some option.case by (simp only: simp_thms if_True)
      moreover have "stored_net ?rows = st_amounts s Net_payment"
        using ok False unfolding net_lines_add_up_def Let_def by blast
      ultimately show ?thesis using amounts by (simp only: d(2))
    qed
  qed
qed

section \<open>The table of schedule entries\<close>

interpretation entries: sorted_table se_payment_date se_id dr_payment_date "write_entry digest" "new_entry digest"
  for digest
  by unfold_locales (simp_all add: write_entry_def new_entry_def)

lemma write_entry_fields:
  "se_payment_date (write_entry digest d r) = dr_payment_date d"
  "se_payroll_year (write_entry digest d r) = dr_payroll_year d"
  "se_amounts (write_entry digest d r) = dr_amounts d"
  "se_deposit_splits (write_entry digest d r) = dr_deposit_splits d"
  by (simp_all add: write_entry_def)

definition entries_unique :: "payroll_db \<Rightarrow> bool" where
  "entries_unique db \<longleftrightarrow> keys_unique db \<and> distinct (map se_payment_date (db_entries db))"

lemma draft_dates_sorted: "sorted_wrt (<) (draft_dates statements)"
  unfolding draft_dates_def scope_pay_dates_def
  by (intro sorted_wrt_filter official_pay_dates_sorted) simp

lemma rebuilt_rows:
  assumes "map dr_payment_date ds = draft_dates statements" "entries_unique db"
  shows "list_all2 (\<lambda>d r. \<exists>r0. r = write_entry digest d r0) ds
      (sort_key se_payment_date (db_entries (rebuild_entries digest ds db)))"
    and "keys_unique (rebuild_entries digest ds db)"
    and "entries_unique (rebuild_entries digest ds db)"
proof -
  have ids: "distinct (map se_id (db_entries db))" and dates: "distinct (map se_payment_date (db_entries db))"
    and allocs: "distinct (map allocation_key (db_allocations db))"
    using assms(2) by (auto simp: entries_unique_def keys_unique_def)
  have strict: "sorted (map dr_payment_date ds)" "distinct (map dr_payment_date ds)"
    using draft_dates_sorted [of statements] assms(1) by (simp_all add: strict_sorted_iff)
  have table: "db_entries (rebuild_entries digest ds db) = sync_entries digest ds (db_entries db)"
    by (simp add: rebuild_entries_def Let_def)
  show "list_all2 (\<lambda>d r. \<exists>r0. r = write_entry digest d r0) ds
      (sort_key se_payment_date (db_entries (rebuild_entries digest ds db)))"
    unfolding table sync_entries_def by (rule entries.sorted_sync [OF strict dates])
  have "distinct (map allocation_key (db_allocations (rebuild_entries digest ds db)))"
    using allocs by (simp add: rebuild_entries_def Let_def distinct_map_filter)
  moreover have "distinct (map se_id (sync_entries digest ds (db_entries db)))"
    unfolding sync_entries_def by (rule entries.distinct_idents_sync [OF ids])
  ultimately show keys: "keys_unique (rebuild_entries digest ds db)" by (simp add: keys_unique_def table)
  have "distinct (map se_payment_date (sync_entries digest ds (db_entries db)))"
    unfolding sync_entries_def by (rule entries.distinct_keys_sync [OF dates])
  with keys show "entries_unique (rebuild_entries digest ds db)" by (simp add: entries_unique_def table)
qed

section \<open>The checks of the rebuilt schedule\<close>

definition check_ok :: "validation_check \<Rightarrow> bool" where
  "check_ok c \<longleftrightarrow> vc_status c = ''reconciled'' \<and> vc_residual c = 0"

lemma coverage_ok:
  assumes dates: "map se_payment_date rows = draft_dates statements"
    and years: "\<forall>r \<in> set rows. se_payroll_year r = d_year (se_payment_date r)"
    and y: "y \<in> set (payroll_years rows)"
  shows "check_ok (coverage_check rows y)"
proof -
  let ?rows = "filter (\<lambda>r. se_payroll_year r = y) rows"
  let ?L = "latest_of_year statements y"
  let ?P = "\<lambda>d. d_year d = y \<and> d \<le> ?L"
  have "?rows = filter (\<lambda>r. d_year (se_payment_date r) = y) rows"
    using years by (intro filter_cong) auto
  then have "map se_payment_date ?rows = filter (\<lambda>d. d_year d = y) (draft_dates statements)"
    using dates by (simp add: filter_map comp_def flip: dates)
  moreover have ne: "?rows \<noteq> []" using y by (auto simp: payroll_years_def filter_empty_conv)
  ultimately obtain d where "d \<in> set (draft_dates statements)" "d_year d = y"
    by (metis (mono_tags, lifting) filter_empty_conv map_is_Nil_conv)
  then have "y \<in> set (statement_years statements)" by (auto simp: draft_dates_def)
  then have "filter (\<lambda>d. d_year d = y) (draft_dates statements) = filter ?P scope_pay_dates"
    by (auto simp: draft_dates_def intro!: filter_cong)
  with \<open>map se_payment_date ?rows = filter (\<lambda>d. d_year d = y) (draft_dates statements)\<close>
  have actual: "map se_payment_date ?rows = filter ?P scope_pay_dates" by simp
  have sorted: "sorted (filter ?P scope_pay_dates)"
    using official_pay_dates_sorted [of scope_start scope_end]
    by (intro sorted_filter [where f = id, unfolded list.map_id id_apply])
      (simp add: scope_pay_dates_def strict_sorted_iff)
  have ne': "filter ?P scope_pay_dates \<noteq> []" using ne actual by (metis map_is_Nil_conv)
  have last: "se_payment_date (last ?rows) = last (filter ?P scope_pay_dates)"
    using ne actual by (metis last_map)
  have top: "d \<le> last (filter ?P scope_pay_dates)" if "d \<in> set (filter ?P scope_pay_dates)" for d
    by (rule sorted_le_last [OF sorted that])
  have "last (filter ?P scope_pay_dates) \<le> ?L"
    using last_in_set [OF ne'] by auto
  then have "filter (\<lambda>d. d_year d = y \<and> d \<le> last (filter ?P scope_pay_dates)) scope_pay_dates = filter ?P scope_pay_dates"
    using top by (intro filter_cong) auto
  then have "map se_payment_date ?rows = filter (\<lambda>d. d_year d = y \<and> d \<le> se_payment_date (last ?rows)) scope_pay_dates"
    by (simp only: actual last)
  then show ?thesis
    by (simp add: check_ok_def coverage_check_def Let_def) (metis length_map)
qed

lemma arithmetic_ok:
  "\<forall>r \<in> set rows. arithmetic_residual (se_amounts r) = 0 \<Longrightarrow> check_ok (arithmetic_check rows)"
  by (simp add: check_ok_def arithmetic_check_def Let_def filter_empty_conv)

lemma ytd_check_ok:
  assumes "\<forall>f. ytd_residual rows s f = Inr 0"
  shows "\<exists>c. ytd_check rows s = Inr c \<and> check_ok c"
proof -
  have "map_res (ytd_residual rows s) fs = Inr (map (\<lambda>_. 0) fs)" for fs
    using assms by (induction fs) simp_all
  moreover have "filter (\<lambda>(f, v). v \<noteq> 0) (zip fs (map (\<lambda>_. 0 :: cents) fs)) = []" for fs :: "money_field list"
    by (induction fs) simp_all
  ultimately show ?thesis by (simp add: ytd_check_def check_ok_def)
qed

lemma map_res_all_ok:
  "(\<And>x. x \<in> set xs \<Longrightarrow> \<exists>c. f x = Inr c \<and> P c) \<Longrightarrow> \<exists>cs. map_res f xs = Inr cs \<and> list_all P cs"
  by (induction xs) (simp, fastforce)

definition in_scope :: "payroll_statement \<Rightarrow> bool" where
  "in_scope s \<longleftrightarrow> scope_start \<le> st_payment_date s \<and> st_payment_date s \<le> scope_end"

lemma scope_statements_set: "set (scope_statements sts) = {s \<in> set sts. in_scope s}"
  by (auto simp: scope_statements_def in_scope_def)

lemma rebuilt_fields [simp]:
  "db_statements (rebuild_entries digest ds db) = db_statements db"
  "db_lines (rebuild_entries digest ds db) = db_lines db"
  by (simp_all add: rebuild_entries_def Let_def)

lemma generate_allocations_frame:
  assumes "generate_payroll_allocations digest db = Inr (db', r)"
  shows "db_entries db' = db_entries db" "db_statements db' = db_statements db" "db_lines db' = db_lines db"
  using assms by (auto simp: generate_payroll_allocations_def bind_res_Inr_iff)

lemma generate_schedule_run:
  assumes "generate_payroll_schedule digest db = Inr (db', r)"
  obtains ds ar where "build_drafts (db_statements db) (db_lines db) = Inr ds"
    and "generate_payroll_allocations digest (rebuild_entries digest ds db) = Inr (db', ar)"
proof -
  obtain ds where ds: "build_drafts (db_statements db) (db_lines db) = Inr ds"
    using assms unfolding generate_payroll_schedule_def by (elim bind_res_InrE)
  show thesis
  proof (cases "generate_payroll_allocations digest (rebuild_entries digest ds db)")
    case (Inl e)
    then show ?thesis using assms by (simp add: generate_payroll_schedule_def ds)
  next
    case (Inr p)
    obtain d a where p: "p = (d, a)" by (cases p)
    have "d = db'" using assms by (simp add: generate_payroll_schedule_def ds Inr p)
    then show ?thesis using that ds Inr p by blast
  qed
qed

text \<open>The checks of the rows of a rebuilt schedule, in the order of \<open>schedule_validation\<close> after the first.\<close>

definition rows_reconciled :: "payroll_db \<Rightarrow> bool" where
  "rows_reconciled db \<longleftrightarrow>
     (let rows = sort_key se_payment_date (db_entries db) in
      (\<forall>y \<in> set (payroll_years rows). check_ok (coverage_check rows y))
      \<and> check_ok (arithmetic_check rows)
      \<and> (\<forall>s \<in> set (db_statements db). \<not> in_scope s \<or> (\<exists>c. ytd_check rows s = Inr c \<and> check_ok c)))"

lemma generate_schedule_sound:
  assumes run: "generate_payroll_schedule digest db = Inr (db', r)"
    and unique: "entries_unique db" and neg: "no_negative_other (db_lines db)"
  shows "rows_reconciled db'" and "sections_reconciled db'" and "net_is_stored db'"
    and "(\<forall>s \<in> set (db_statements db). in_scope s \<longrightarrow> net_lines_add_up (db_lines db) s) \<Longrightarrow> reconciled_db db'"
    and "db_statements db' = db_statements db"
proof -
  let ?sts = "scope_statements (db_statements db)"
  obtain ds ar where ds: "build_drafts (db_statements db) (db_lines db) = Inr ds"
    and alloc: "generate_payroll_allocations digest (rebuild_entries digest ds db) = Inr (db', ar)"
    using run by (rule generate_schedule_run)
  note sound = build_drafts_sound [OF ds]
  let ?db1 = "rebuild_entries digest ds db"
  note rows = rebuilt_rows [OF sound(1) unique, where digest = digest]
  define table where "table = sort_key se_payment_date (db_entries ?db1)"
  have table: "list_all2 (\<lambda>d r. \<exists>r0. r = write_entry digest d r0) ds table"
    unfolding table_def by (rule rows(1))
  have row: "\<exists>d \<in> set ds. \<exists>r0. r = write_entry digest d r0" if "r \<in> set table" for r
  proof -
    obtain i where i: "i < length table" "r = table ! i" using \<open>r \<in> set table\<close> by (auto simp: in_set_conv_nth)
    then have "i < length ds" "\<exists>r0. r = write_entry digest (ds ! i) r0"
      using table by (simp_all add: list_all2_conv_all_nth)
    then show ?thesis using nth_mem by blast
  qed
  have same_rows: "set (db_entries ?db1) = set table" by (simp add: table_def)
  have frame: "db_entries db' = db_entries ?db1" "db_statements db' = db_statements db"
    using generate_allocations_frame [OF alloc] by simp_all
  have allocations: "sections_reconciled db'" "net_is_stored db'"
    using generate_allocations_sound(1,2) [OF alloc _ rows(2)] neg by simp_all
  then show "sections_reconciled db'" "net_is_stored db'" by blast+
  show "db_statements db' = db_statements db" by (rule frame(2))
  show "reconciled_db db'" if net: "\<forall>s \<in> set (db_statements db). in_scope s \<longrightarrow> net_lines_add_up (db_lines db) s"
    unfolding reconciled_when_stored [OF allocations] frame(1) same_rows
  proof
    fix r assume "r \<in> set table"
    then obtain d r0 where d: "d \<in> set ds" "r = write_entry digest d r0" using row by blast
    then obtain d0 where "finished_as (db_lines db) ?sts d0 d" using sound(6) by blast
    moreover have "list_all (net_lines_add_up (db_lines db)) ?sts"
      using net by (simp add: list_all_iff scope_statements_set)
    ultimately have "stored_net (dr_deposit_splits d) = dr_amounts d Net_payment"
      using finished_splits_add_up sound(5) d(1) by blast
    then show "stored_net (se_deposit_splits r) = se_amounts r Net_payment" by (simp add: d(2) write_entry_fields)
  qed
  have fields: "map (\<lambda>r. (se_payroll_year r, se_payment_date r, se_amounts r)) table
      = map (\<lambda>d. (dr_payroll_year d, dr_payment_date d, dr_amounts d)) ds"
    by (rule list_all2_map_eq [symmetric, OF table]) (auto simp: write_entry_fields)
  have dates: "map se_payment_date table = draft_dates ?sts"
    unfolding sound(1) [symmetric]
    by (rule list_all2_map_eq [symmetric, OF table]) (auto simp: write_entry_fields)
  have years: "\<forall>r \<in> set table. se_payroll_year r = d_year (se_payment_date r)"
    and arith: "\<forall>r \<in> set table. arithmetic_residual (se_amounts r) = 0"
    using row sound(2,3) by (auto simp: write_entry_fields dest!: row)
  have "ytd_residual table c f = Inr 0" if c: "c \<in> set ?sts" for c f
  proof -
    let ?P = "\<lambda>(y, d, a). y = d_year (st_payment_date c) \<and> d \<le> st_payment_date c"
    have "map (\<lambda>(y, d, a). a f) (filter ?P (map (\<lambda>r. (se_payroll_year r, se_payment_date r, se_amounts r)) table))
        = map (\<lambda>(y, d, a). a f) (filter ?P (map (\<lambda>d. (dr_payroll_year d, dr_payment_date d, dr_amounts d)) ds))"
      by (simp only: fields)
    then have "map (\<lambda>r. se_amounts r f) (filter (\<lambda>r. se_payroll_year r = d_year (st_payment_date c)
          \<and> se_payment_date r \<le> st_payment_date c) table)
        = map (\<lambda>d. dr_amounts d f) (filter (\<lambda>d. dr_payroll_year d = d_year (st_payment_date c)
          \<and> dr_payment_date d \<le> st_payment_date c) ds)"
      by (simp add: filter_map comp_def)
    moreover have "draft_balanced ?sts ds c f" using sound(4) c by blast
    ultimately show ?thesis by (simp add: ytd_residual_def draft_balanced_def)
  qed
  then have ytd: "\<exists>c'. ytd_check table c = Inr c' \<and> check_ok c'" if "c \<in> set ?sts" for c
    using that by (intro ytd_check_ok) blast
  have sorted: "sort_key se_payment_date (db_entries db') = table" by (simp only: frame(1) table_def)
  show "rows_reconciled db'"
    unfolding rows_reconciled_def Let_def sorted frame(2)
    using coverage_ok [OF dates years] arithmetic_ok [OF arith] ytd scope_statements_set by blast
qed

text \<open>When every statement is in scope the validation returns, and its checks are those of the rows and of the allocations.\<close>

lemma validation_returns:
  assumes "rows_reconciled db" "\<forall>s \<in> set (db_statements db). in_scope s"
  obtains c checks where "schedule_validation db = Inr (c # checks @ allocation_validation db)" and "list_all check_ok checks"
proof -
  let ?rows = "sort_key se_payment_date (db_entries db)"
  have "\<exists>c. ytd_check ?rows s = Inr c \<and> check_ok c" if "s \<in> set (sort_key st_payment_date (db_statements db))" for s
    using assms that unfolding rows_reconciled_def Let_def by auto
  then obtain ytds where ytds: "map_res (ytd_check ?rows) (sort_key st_payment_date (db_statements db)) = Inr ytds" "list_all check_ok ytds"
    using map_res_all_ok by metis
  let ?checks = "map (coverage_check ?rows) (payroll_years ?rows) @ [arithmetic_check ?rows] @ ytds"
  have "schedule_validation db = Inr (cadence_check ?rows # ?checks @ allocation_validation db)"
    using ytds(1) by (simp add: schedule_validation_def Let_def)
  moreover have "list_all check_ok ?checks"
    using assms(1) ytds(2) by (auto simp: rows_reconciled_def Let_def list_all_iff)
  ultimately show thesis by (rule that)
qed

section \<open>An example import\<close>

text \<open>
  One statement, for the second paycheck of 2025, whose year-to-date values include a first
  paycheck that was five dollars smaller.
\<close>

definition january_amounts :: "cents \<Rightarrow> amounts" where
  "january_amounts gross f =
     (case f of Gross_earnings \<Rightarrow> gross | Tax_withholdings \<Rightarrow> 100000 | Net_payment \<Rightarrow> gross - 100000 | _ \<Rightarrow> 0)"

definition january_ytd :: "money_field \<Rightarrow> rat option" where
  "january_ytd f = Some (dec (january_amounts 600000 f + january_amounts 599500 f))"

definition january_statement :: payroll_statement where
  "january_statement =
     \<lparr>st_id = 1, st_employer = ''E'', st_job_title = None, st_period_start = Date 2024 12 29,
      st_period_end = Date 2025 1 11, st_payment_date = Date 2025 1 17, st_observed_deposit_date = None,
      st_base_salary = 16826000, st_amounts = january_amounts 600000,
      st_ytd_values = january_ytd,
      st_detail_complete = False\<rparr>"

definition january_db :: payroll_db where
  "january_db =
     \<lparr>db_statements = [january_statement], db_lines = [], db_entries = [], db_allocations = [],
      db_matches = [\<lparr>pm_schedule_entry_id = 9, pm_transaction_id = 7, pm_amount = 5, pm_match_group = []\<rparr>]\<rparr>"

lemma january_drafts_run: "isl (build_drafts [january_statement] []) = False"
  by code_simp

lemma january_input_ok:
  "entries_unique january_db \<and> no_negative_other (db_lines january_db)
   \<and> list_all (\<lambda>s. in_scope s \<and> net_lines_add_up (db_lines january_db) s) (db_statements january_db)"
  by code_simp

lemma january_db_run: "isl (generate_payroll_schedule (\<lambda>_. ''h'') january_db) = False"
  by code_simp

lemmas january_db_result = result_Inr [OF january_db_run]

lemma january_drafts_result: "\<exists>ds. build_drafts [january_statement] [] = Inr ds"
  using january_drafts_run by (cases "build_drafts [january_statement] []") auto

section \<open>Properties\<close>

text \<open>
  C29: \<open>official_pay_dates\<close> returns, in increasing order and without repetition, exactly the dates
  between its bounds, up to the anchor, that lie a multiple of fourteen days before the anchor.
\<close>

theorem official_pay_dates_exact:
  assumes "valid_date first"
  shows "sorted_wrt (<) (official_pay_dates first end_date)
    \<and> set (official_pay_dates first end_date)
      = {d. on_schedule d \<and> first \<le> d \<and> d \<le> end_date \<and> d \<le> schedule_anchor}"
  using official_pay_dates_sorted [OF assms] official_pay_dates_set [OF assms] by blast

theorem official_pay_dates_exact_witness:
  "valid_date (Date 2026 6 30)
   \<and> set (official_pay_dates (Date 2026 6 30) scope_end)
      = {d. on_schedule d \<and> Date 2026 6 30 \<le> d \<and> d \<le> scope_end \<and> d \<le> schedule_anchor}
   \<and> official_pay_dates (Date 2026 6 30) scope_end = [Date 2026 7 3, Date 2026 7 17, Date 2026 7 31]"
proof (intro conjI)
  show valid: "valid_date (Date 2026 6 30)" by code_simp
  show "set (official_pay_dates (Date 2026 6 30) scope_end)
      = {d. on_schedule d \<and> Date 2026 6 30 \<le> d \<and> d \<le> scope_end \<and> d \<le> schedule_anchor}"
    by (rule conjunct2 [OF official_pay_dates_exact [OF valid]])
  show "official_pay_dates (Date 2026 6 30) scope_end = [Date 2026 7 3, Date 2026 7 17, Date 2026 7 31]"
    by code_simp
qed

text \<open>
  C26: When \<open>_build_drafts\<close> returns, every draft satisfies the paycheck identity (gross less imputed
  earnings, deductions and taxes is net), the drafts lie on the official dates of the years covered,
  and for every statement in scope and every money field the drafts of its year up to its date add
  up to the year-to-date value printed on the statement.
\<close>

theorem build_drafts_reconcile:
  assumes "build_drafts all_statements lines = Inr ds"
  shows "map dr_payment_date ds = draft_dates (scope_statements all_statements)
    \<and> (\<forall>d \<in> set ds. arithmetic_residual (dr_amounts d) = 0)
    \<and> (\<forall>c \<in> set (scope_statements all_statements). \<forall>f. draft_balanced (scope_statements all_statements) ds c f)"
  using build_drafts_sound [OF assms] by blast

theorem build_drafts_reconcile_witness:
  "\<exists>ds. build_drafts [january_statement] [] = Inr ds
    \<and> map dr_payment_date ds = draft_dates (scope_statements [january_statement])
    \<and> (\<forall>d \<in> set ds. arithmetic_residual (dr_amounts d) = 0)"
proof -
  obtain ds where run: "build_drafts [january_statement] [] = Inr ds" using january_drafts_result by blast
  with build_drafts_reconcile [OF run] show ?thesis by blast
qed

text \<open>
  C27: Reconstruction never alters imported evidence: a draft on a date with a statement carries that
  statement's identity and exactly its seven amounts, and a draft on any other date is marked as
  calculated and refers to no statement.
\<close>

theorem build_drafts_keep_statements:
  assumes "build_drafts all_statements lines = Inr ds"
  shows "\<forall>d \<in> set ds. keeps_statement (scope_statements all_statements) d"
  using build_drafts_sound(5) [OF assms] .

theorem build_drafts_keep_statements_witness:
  "\<exists>ds. build_drafts [january_statement] [] = Inr ds
    \<and> (\<forall>d \<in> set ds. keeps_statement (scope_statements [january_statement]) d)"
proof -
  obtain ds where run: "build_drafts [january_statement] [] = Inr ds" using january_drafts_result by blast
  with build_drafts_keep_statements [OF run] show ?thesis by blast
qed

text \<open>
  C3: After \<open>generate_payroll_schedule\<close> succeeds, the rebuilt schedule passes the checks of \<open>schedule_validation\<close>
  besides the cadence of its dates: the coverage of every year and the arithmetic of every paycheck; the
  year-to-date values of every statement within the dates of the scope; and of the allocations the four itemised
  sections. The net check holds when the net distribution lines of each such statement, less those a later one of
  the same last four digits overwrites, come to its net payment or are missing. When all statements are within the
  scope the validation returns these checks; a statement outside it is checked against no rows, and is left out
  here. Assumed are unique keys, and no negative line under the \<open>.other\<close> category of a section.
\<close>

theorem generate_schedule_reconciled:
  assumes "generate_payroll_schedule digest db = Inr (db', r)" "entries_unique db" "no_negative_other (db_lines db)"
  shows "rows_reconciled db' \<and> sections_reconciled db' \<and> net_is_stored db'
    \<and> ((\<forall>s \<in> set (db_statements db). in_scope s \<longrightarrow> net_lines_add_up (db_lines db) s) \<longrightarrow> reconciled_db db')
    \<and> ((\<forall>s \<in> set (db_statements db). in_scope s) \<longrightarrow>
        (\<exists>c checks. schedule_validation db' = Inr (c # checks @ allocation_validation db') \<and> list_all check_ok checks))"
proof -
  note sound = generate_schedule_sound [OF assms]
  have "\<exists>c checks. schedule_validation db' = Inr (c # checks @ allocation_validation db') \<and> list_all check_ok checks"
    if "\<forall>s \<in> set (db_statements db). in_scope s"
    using validation_returns [OF sound(1)] that unfolding sound(5) by blast
  with sound(1-4) show ?thesis by blast
qed

theorem generate_schedule_reconciled_witness:
  "\<exists>db' r c checks. generate_payroll_schedule (\<lambda>_. ''h'') january_db = Inr (db', r)
    \<and> schedule_validation db' = Inr (c # checks @ allocation_validation db') \<and> list_all check_ok checks \<and> reconciled_db db'"
proof -
  obtain db' r where run: "generate_payroll_schedule (\<lambda>_. ''h'') january_db = Inr (db', r)"
    using january_db_result by blast
  with generate_schedule_reconciled [OF run] january_input_ok show ?thesis unfolding list_all_iff by blast
qed

end
