(* ===== verification/Housing.thy ===== *)
theory Housing
  imports Decimal_Money Calendar_Dates
begin

text \<open>
  \<open>housing.py\<close>: the versioned housing plan. A plan and its alternatives are validated; every
  alternative is evaluated into sale proceeds, monthly capacities, the dated cash transition and a
  day-by-day comparison with staying. Money inputs are whole cents; what the code divides is a
  decimal, rounded by the arithmetic context.

  A run is \<open>None\<close> when a loop does not end and \<open>Inl\<close> when an assertion fails; neither happens to a
  plan that passed validation, which is a theorem of \<open>Housing_Facts\<close>.
\<close>

datatype housing_error =
    Return_without_deposit | Funds_before_closing | Bad_comparison_period
  | Principal_exceeds_payment | Dedicated_exceeds_cash | Duplicate_names
  | Event_too_late | Event_before_baseline | Assertion_failed

datatype cost_kind = Cost_expense | Cost_deposit

record cost =
  co_name :: string
  co_amount :: "cents option"
  co_due :: date
  co_kind :: cost_kind
  co_returned :: "date option"

record housing_scenario =
  hs_name :: string
  hs_sale_price :: "cents option"
  hs_payoff :: "cents option"
  hs_selling_fees :: "cents option"
  hs_sale_date :: date
  hs_funds_date :: date
  hs_move_date :: date
  hs_rent :: "cents option"
  hs_rental_extras :: "cents option"
  hs_costs :: "cost list"
  hs_costs_complete :: bool

datatype condo_meaning = Condo_unknown | Purchase_price | Estimated_value | Condo_mortgage_balance

record housing_input =
  hp_target_date :: date
  hp_as_of :: date
  hp_end_date :: date
  hp_baseline_complete :: bool
  hp_condo_amount_meaning :: condo_meaning
  hp_condo_amount :: "cents option"
  hp_cash :: "cents option"
  hp_dedicated_cash :: "cents option"
  hp_other_net_assets :: "cents option"
  hp_income :: "cents option"
  hp_nonhousing :: "cents option"
  hp_other_savings :: "cents option"
  hp_home_value :: "cents option"
  hp_mortgage_balance :: "cents option"
  hp_mortgage_payment :: "cents option"
  hp_principal_interest :: "cents option"
  hp_annual_rate :: "rat option"
  hp_owner_extras :: "cents option"
  hp_reserve :: "cents option"
  hp_monthly_set_aside :: "cents option"
  hp_housing_costs_complete :: bool
  hp_scenarios :: "housing_scenario list"

section \<open>Validation\<close>

definition valid_return :: "cost \<Rightarrow> (housing_error, cost) result" where
  "valid_return c =
     (case co_returned c of
        None \<Rightarrow> Inr c
      | Some r \<Rightarrow> if co_kind c \<noteq> Cost_deposit \<or> r < co_due c then Inl Return_without_deposit else Inr c)"

definition ordered :: "housing_scenario \<Rightarrow> (housing_error, housing_scenario) result" where
  "ordered s = (if hs_funds_date s < hs_sale_date s then Inl Funds_before_closing else Inr s)"

definition return_dates :: "housing_scenario \<Rightarrow> date list" where
  "return_dates s = List.map_filter co_returned (hs_costs s)"

definition event_dates :: "housing_scenario \<Rightarrow> date list" where
  "event_dates s =
     [hs_sale_date s, hs_move_date s, hs_funds_date s] @ map co_due (hs_costs s) @ return_dates s"

definition first_event :: "housing_scenario \<Rightarrow> date" where
  "first_event s = foldl min (min (hs_sale_date s) (hs_move_date s)) (map co_due (hs_costs s))"

definition scenario_in_range :: "date \<Rightarrow> housing_scenario \<Rightarrow> unit \<Rightarrow> (housing_error, unit) result" where
  "scenario_in_range as_of s u =
     (if list_ex (\<lambda>day. 3660 < days_between day as_of) (event_dates s) then Inl Event_too_late
      else if first_event s < as_of then Inl Event_before_baseline
      else Inr ())"

text \<open>\<open>a is not None and b is not None and a > b\<close>\<close>

definition both_exceed :: "cents option \<Rightarrow> cents option \<Rightarrow> bool" where
  "both_exceed a b = (case (a, b) of (Some x, Some y) \<Rightarrow> y < x | _ \<Rightarrow> False)"

definition consistent :: "housing_input \<Rightarrow> (housing_error, housing_input) result" where
  "consistent p =
     (if \<not> hp_as_of p < hp_end_date p \<or> 3660 < days_between (hp_end_date p) (hp_as_of p)
      then Inl Bad_comparison_period
      else if both_exceed (hp_principal_interest p) (hp_mortgage_payment p) then Inl Principal_exceeds_payment
      else if both_exceed (hp_dedicated_cash p) (hp_cash p) then Inl Dedicated_exceeds_cash
      else if \<not> distinct (map hs_name (hp_scenarios p)) then Inl Duplicate_names
      else bind_res (for_each (scenario_in_range (hp_as_of p)) (hp_scenarios p) ()) (\<lambda>_. Inr p))"

section \<open>Dates and dated events\<close>

definition anniversary :: "date \<Rightarrow> int \<Rightarrow> date" where
  "anniversary start months =
     (let index = d_year start * 12 + d_month start - 1 + months;
          year = index div 12; month = index mod 12
      in Date year (month + 1) (min (d_day start) (days_in_month year (month + 1))))"

text \<open>The months completed by \<open>day\<close> since \<open>start\<close>.\<close>

definition completed_months :: "date \<Rightarrow> date \<Rightarrow> int" where
  "completed_months start day =
     (let months = (d_year day - d_year start) * 12 + d_month day - d_month start
      in if day < anniversary start months then months - 1 else months)"

datatype event_kind = Reserve | Overlap | Sale | Expense | Deposit | Deposit_returned

type_synonym event_item = "string \<times> rat \<times> event_kind"
type_synonym events = "(date, event_item list) dict"

definition add_event :: "date \<Rightarrow> string \<Rightarrow> rat \<Rightarrow> event_kind \<Rightarrow> events \<Rightarrow> events" where
  "add_event day name v kind evs = dict_set day (dict_get evs day [] @ [(name, v, kind)]) evs"

text \<open>
  The rent of the days from \<open>day\<close> to before \<open>until\<close>. As in \<open>Payroll_Schedule\<close>, the test of validity
  only makes the recursion total on the model's triples.
\<close>

function overlap_rent :: "rat \<Rightarrow> date \<Rightarrow> date \<Rightarrow> rat \<Rightarrow> rat" where
  "overlap_rent rent until day acc =
     (if valid_date day \<and> valid_date until \<and> day < until
      then overlap_rent rent until (next_day day)
             (dadd acc (ddiv rent (of_int (days_in_month (d_year day) (d_month day)))))
      else acc)"
  by pat_completeness auto
termination
  by (relation "measure (\<lambda>(rent, until, day, acc). nat (ordinal until - ordinal day))")
    (auto simp: ordinal_next_day ordinal_strict_mono)

declare overlap_rent.simps [simp del]

text \<open>One rental event per started month of overlap; \<open>None\<close> would be a loop that never ends.\<close>

partial_function (option) overlap_events ::
  "rat \<Rightarrow> date \<Rightarrow> date \<Rightarrow> int \<Rightarrow> date \<Rightarrow> events \<Rightarrow> events option"
where
  "overlap_events rent move sale number due evs =
     (if due < sale then
        let until = min (anniversary move number) sale;
            overlap = overlap_rent rent until due 0
        in overlap_events rent move sale (number + 1) until
             (add_event due ''Rental costs during housing overlap'' (- overlap) Overlap evs)
      else Some evs)"

declare overlap_events.simps [code]

definition cost_event_kind :: "cost_kind \<Rightarrow> event_kind" where
  "cost_event_kind k = (case k of Cost_expense \<Rightarrow> Expense | Cost_deposit \<Rightarrow> Deposit)"

text \<open>The events of one cost whose amount is known.\<close>

definition add_cost :: "cost \<Rightarrow> events \<Rightarrow> events" where
  "add_cost c evs =
     (case co_amount c of
        None \<Rightarrow> evs
      | Some a \<Rightarrow>
          let evs' = add_event (co_due c) (co_name c) (- dec a) (cost_event_kind (co_kind c)) evs
          in case co_returned c of
               None \<Rightarrow> evs'
             | Some r \<Rightarrow> add_event r (co_name c @ '' returned'') (dec a) Deposit_returned evs')"

definition scenario_events ::
  "housing_input \<Rightarrow> housing_scenario \<Rightarrow> cents \<Rightarrow> cents option \<Rightarrow> events option"
where
  "scenario_events p s proceeds rent =
     (let start = add_event (hp_as_of p) ''Starting reserve check'' 0 Reserve [];
          overlapped =
            (case rent of
               None \<Rightarrow> Some start
             | Some r \<Rightarrow>
                 if hs_move_date s < hs_sale_date s
                 then overlap_events (dec r) (hs_move_date s) (hs_sale_date s) 1 (hs_move_date s) start
                 else Some start)
      in case overlapped of
           None \<Rightarrow> None
         | Some evs \<Rightarrow>
             let sold = add_event (if 0 \<le> proceeds then hs_funds_date s else hs_sale_date s)
                   ''Sale cash after payoff and selling expenses'' (dec proceeds) Sale evs;
                 costed = fold add_cost (hs_costs s) sold
             in Some (add_event (max (hs_move_date s) (hs_funds_date s))
                  ''Reserve checkpoint (not an expense)'' 0 Reserve costed))"

section \<open>The cash transition\<close>

record transition_row =
  tr_date :: date
  tr_items :: "(string \<times> cents \<times> event_kind) list"
  tr_cash :: cents
  tr_shortfall :: cents

record transition_state =
  ts_base :: rat
  ts_required :: rat
  ts_immediate :: rat
  ts_timeline :: "transition_row list"

definition transition_step ::
  "date \<Rightarrow> cents \<Rightarrow> cents \<Rightarrow> events \<Rightarrow> date \<Rightarrow> transition_state \<Rightarrow> transition_state"
where
  "transition_step as_of reserve set_aside evs day st =
     (let months = completed_months as_of day;
          items = dict_get evs day [];
          base = fold (\<lambda>(name, delta, kind) b. dadd b delta) items (ts_base st);
          deficit = max 0 (dsub (dec reserve) base);
          required = (if months \<noteq> 0 then max (ts_required st) (ddiv deficit (of_int months)) else ts_required st);
          immediate = (if months \<noteq> 0 then ts_immediate st else max (ts_immediate st) deficit);
          funded = dadd base (dmul (dec set_aside) (of_int months))
      in \<lparr>ts_base = base, ts_required = required, ts_immediate = immediate,
          ts_timeline = ts_timeline st
            @ [\<lparr>tr_date = day, tr_items = map (\<lambda>(n, v, k). (n, money v, k)) items,
                tr_cash = money funded, tr_shortfall = money (max 0 (dsub (dec reserve) funded))\<rparr>]\<rparr>)"

definition transition ::
  "date \<Rightarrow> cents \<Rightarrow> cents \<Rightarrow> cents \<Rightarrow> events \<Rightarrow> transition_state"
where
  "transition as_of dedicated reserve set_aside evs =
     fold (transition_step as_of reserve set_aside evs) (sort (map fst evs))
       \<lparr>ts_base = dec dedicated, ts_required = 0, ts_immediate = 0, ts_timeline = []\<rparr>"

text \<open>\<open>quantize(CENT, rounding=ROUND_UP)\<close>\<close>

definition round_up_cents :: "rat \<Rightarrow> cents" where
  "round_up_cents x = away_from_zero (x * 100)"

record transition_result =
  tn_timeline :: "transition_row list"
  tn_required_monthly :: cents
  tn_needed_now :: cents
  tn_reserve :: cents

definition transition_summary :: "cents \<Rightarrow> transition_state \<Rightarrow> transition_result" where
  "transition_summary reserve st =
     \<lparr>tn_timeline = ts_timeline st, tn_required_monthly = round_up_cents (ts_required st),
      tn_needed_now = money (ts_immediate st), tn_reserve = reserve\<rparr>"

section \<open>The day-by-day comparison\<close>

text \<open>The inputs the caller has checked to be known.\<close>

record known_inputs =
  kn_cash :: cents
  kn_other_net_assets :: cents
  kn_income :: cents
  kn_nonhousing :: cents
  kn_other_savings :: cents
  kn_home_value :: cents
  kn_mortgage_balance :: cents
  kn_principal_interest :: cents
  kn_annual_rate :: rat
  kn_sale_price :: cents
  kn_payoff :: cents
  kn_selling_fees :: cents

record comparison_row =
  cr_date :: date
  cr_stay_cash :: cents
  cr_move_cash :: cents
  cr_stay_net_worth :: cents
  cr_move_net_worth :: cents
  cr_cash_difference :: cents
  cr_net_worth_difference :: cents
  cr_stay_debt :: cents
  cr_refundable_deposits :: cents

record comparison_state =
  cm_stay :: rat
  cm_move :: rat
  cm_debt :: rat
  cm_moved_debt :: rat
  cm_deposit :: rat
  cm_saved_elsewhere :: rat
  cm_low_cash :: rat
  cm_low_date :: date
  cm_rows :: "comparison_row list"
  cm_day :: date
  cm_payment_number :: int
  cm_next_payment :: date

definition monthly_interest :: "known_inputs \<Rightarrow> rat \<Rightarrow> rat" where
  "monthly_interest k debt = ddiv (dmul debt (kn_annual_rate k)) 1200"

definition make_payment :: "date \<Rightarrow> housing_scenario \<Rightarrow> known_inputs \<Rightarrow> comparison_state \<Rightarrow> comparison_state" where
  "make_payment as_of s k st =
     (if cm_day st = cm_next_payment st then
        let principal = min (cm_debt st) (dsub (dec (kn_principal_interest k)) (monthly_interest k (cm_debt st)));
            debt = dsub (cm_debt st) principal;
            number = cm_payment_number st + 1
        in st\<lparr>cm_debt := debt,
              cm_moved_debt := (if cm_day st < hs_sale_date s then debt else cm_moved_debt st),
              cm_payment_number := number, cm_next_payment := anniversary as_of number\<rparr>
      else st)"

definition apply_event :: "event_item \<Rightarrow> comparison_state \<Rightarrow> comparison_state" where
  "apply_event e st =
     (case e of (name, delta, kind) \<Rightarrow>
        st\<lparr>cm_move := (if kind \<noteq> Overlap then dadd (cm_move st) delta else cm_move st),
           cm_deposit := (if kind = Deposit \<or> kind = Deposit_returned
             then dsub (cm_deposit st) delta else cm_deposit st)\<rparr>)"

definition settle_day :: "housing_scenario \<Rightarrow> events \<Rightarrow> comparison_state \<Rightarrow> comparison_state" where
  "settle_day s evs st =
     (let st1 = fold apply_event (dict_get evs (cm_day st) []) st;
          st2 = st1\<lparr>cm_moved_debt := (if cm_day st1 = hs_sale_date s then 0 else cm_moved_debt st1)\<rparr>
      in if cm_move st2 < cm_low_cash st2
         then st2\<lparr>cm_low_cash := cm_move st2, cm_low_date := cm_day st2\<rparr> else st2)"

definition record_row :: "date \<Rightarrow> housing_scenario \<Rightarrow> known_inputs \<Rightarrow> comparison_state \<Rightarrow> comparison_state" where
  "record_row end_date s k st =
     (let day = cm_day st in
      if day = end_date \<or> d_day day = 1 then
        let receivable =
              (if hs_sale_date s \<le> day \<and> day < hs_funds_date s
               then dec (max 0 (kn_sale_price k - kn_payoff k - kn_selling_fees k)) else 0);
            common = dadd (dec (kn_other_net_assets k)) (cm_saved_elsewhere st);
            stay_worth = dadd (dsub (dadd (cm_stay st) (dec (kn_home_value k))) (cm_debt st)) common;
            move_worth =
              dadd (dadd (dadd (dsub (dadd (cm_move st)
                (if day < hs_sale_date s then dec (kn_home_value k) else 0)) (cm_moved_debt st))
                (cm_deposit st)) receivable) common
        in st\<lparr>cm_rows := cm_rows st
             @ [\<lparr>cr_date = day, cr_stay_cash = money (cm_stay st), cr_move_cash = money (cm_move st),
                 cr_stay_net_worth = money stay_worth, cr_move_net_worth = money move_worth,
                 cr_cash_difference = money (dsub (cm_move st) (cm_stay st)),
                 cr_net_worth_difference = money (dsub move_worth stay_worth),
                 cr_stay_debt = money (cm_debt st), cr_refundable_deposits = money (cm_deposit st)\<rparr>]\<rparr>
      else st)"

definition spend_day ::
  "housing_scenario \<Rightarrow> known_inputs \<Rightarrow> cents \<Rightarrow> cents \<Rightarrow> comparison_state \<Rightarrow> comparison_state"
where
  "spend_day s k owner rent st =
     (let day = cm_day st;
          fraction = ddiv 1 (of_int (days_in_month (d_year day) (d_month day)));
          common_flow = dec (kn_income k - kn_nonhousing k - kn_other_savings k);
          loan_payment = min (dec (kn_principal_interest k)) (dadd (cm_debt st) (monthly_interest k (cm_debt st)));
          actual_owner = dadd (dec (owner - kn_principal_interest k)) loan_payment;
          move_cost = dadd (if day < hs_sale_date s then actual_owner else 0)
            (if hs_move_date s \<le> day then dec rent else 0)
      in st\<lparr>cm_stay := dadd (cm_stay st) (dmul (dsub common_flow actual_owner) fraction),
            cm_move := dadd (cm_move st) (dmul (dsub common_flow move_cost) fraction),
            cm_saved_elsewhere := dadd (cm_saved_elsewhere st) (dmul (dec (kn_other_savings k)) fraction),
            cm_day := next_day day\<rparr>)"

text \<open>A day up to its recorded row, then the loop with its early exit at the end date.\<close>

definition book_day ::
  "date \<Rightarrow> date \<Rightarrow> housing_scenario \<Rightarrow> known_inputs \<Rightarrow> events \<Rightarrow> comparison_state \<Rightarrow> comparison_state"
where
  "book_day as_of end_date s k evs st =
     record_row end_date s k (settle_day s evs (make_payment as_of s k st))"

function compare_days ::
  "date \<Rightarrow> date \<Rightarrow> housing_scenario \<Rightarrow> known_inputs \<Rightarrow> events \<Rightarrow> cents \<Rightarrow> cents \<Rightarrow> comparison_state
     \<Rightarrow> comparison_state"
where
  "compare_days as_of end_date s k evs owner rent st =
     (if valid_date (cm_day st) \<and> valid_date end_date \<and> cm_day st \<le> end_date
      then let booked = book_day as_of end_date s k evs st
           in if cm_day booked = end_date then booked
              else compare_days as_of end_date s k evs owner rent (spend_day s k owner rent booked)
      else st)"
  by pat_completeness auto

lemma apply_events_day [simp]: "cm_day (fold apply_event items st) = cm_day st"
  by (induction items arbitrary: st) (auto simp: apply_event_def)

lemma book_day_day [simp]: "cm_day (book_day as_of end_date s k evs st) = cm_day st"
  by (simp add: book_day_def record_row_def settle_day_def make_payment_def Let_def)

lemma spend_day_day [simp]: "cm_day (spend_day s k owner rent st) = next_day (cm_day st)"
  by (simp add: spend_day_def Let_def)

termination compare_days
  by (relation "measure (\<lambda>(as_of, end_date, s, k, evs, owner, rent, st).
      nat (ordinal end_date - ordinal (cm_day st) + 1))")
    (auto simp: ordinal_next_day ordinal_le_iff [symmetric])

declare compare_days.simps [simp del]

definition initial_comparison :: "date \<Rightarrow> known_inputs \<Rightarrow> comparison_state" where
  "initial_comparison as_of k =
     \<lparr>cm_stay = dec (kn_cash k), cm_move = dec (kn_cash k), cm_debt = dec (kn_mortgage_balance k),
      cm_moved_debt = dec (kn_mortgage_balance k), cm_deposit = 0, cm_saved_elsewhere = 0,
      cm_low_cash = dec (kn_cash k), cm_low_date = as_of, cm_rows = [], cm_day = as_of,
      cm_payment_number = 1, cm_next_payment = anniversary as_of 1\<rparr>"

record comparison_result =
  cp_periods :: "comparison_row list"
  cp_ending :: comparison_row
  cp_lowest_move_cash :: cents
  cp_lowest_cash_date :: date

text \<open>\<open>rows[-1]\<close> raises on an empty list: the comparison is then \<open>None\<close>.\<close>

definition compare ::
  "date \<Rightarrow> date \<Rightarrow> housing_scenario \<Rightarrow> known_inputs \<Rightarrow> events \<Rightarrow> cents \<Rightarrow> cents \<Rightarrow> comparison_result option"
where
  "compare as_of end_date s k evs owner rent =
     (let st = compare_days as_of end_date s k evs owner rent (initial_comparison as_of k) in
      if cm_rows st = [] then None
      else Some \<lparr>cp_periods = cm_rows st, cp_ending = last (cm_rows st),
                 cp_lowest_move_cash = money (cm_low_cash st), cp_lowest_cash_date = cm_low_date st\<rparr>)"

section \<open>\<open>evaluate_scenario\<close>\<close>

datatype housing_warning =
    Baseline_unconfirmed | Housing_costs_unconfirmed | Cost_list_unconfirmed | Condo_amount_unclear
  | Misses_goal_date | Events_beyond_period | Gap_before_move | Negative_proceeds
  | Required_exceeds_capacity | Set_aside_exceeds_stay | Set_aside_exceeds_move

definition is_unknown :: "string \<Rightarrow> 'a option \<Rightarrow> string list" where
  "is_unknown key v = (if v = None then [key] else [])"

definition unknown_inputs :: "housing_input \<Rightarrow> housing_scenario \<Rightarrow> string list" where
  "unknown_inputs p s =
     is_unknown ''cash'' (hp_cash p) @ is_unknown ''dedicated_cash'' (hp_dedicated_cash p)
     @ is_unknown ''other_net_assets'' (hp_other_net_assets p) @ is_unknown ''income'' (hp_income p)
     @ is_unknown ''nonhousing'' (hp_nonhousing p) @ is_unknown ''other_savings'' (hp_other_savings p)
     @ is_unknown ''home_value'' (hp_home_value p) @ is_unknown ''mortgage_balance'' (hp_mortgage_balance p)
     @ is_unknown ''mortgage_payment'' (hp_mortgage_payment p)
     @ is_unknown ''principal_interest'' (hp_principal_interest p)
     @ is_unknown ''annual_rate'' (hp_annual_rate p) @ is_unknown ''owner_extras'' (hp_owner_extras p)
     @ is_unknown ''reserve'' (hp_reserve p) @ is_unknown ''monthly_set_aside'' (hp_monthly_set_aside p)
     @ is_unknown ''sale_price'' (hs_sale_price s) @ is_unknown ''payoff'' (hs_payoff s)
     @ is_unknown ''selling_fees'' (hs_selling_fees s) @ is_unknown ''rent'' (hs_rent s)
     @ is_unknown ''rental_extras'' (hs_rental_extras s)
     @ map (\<lambda>c. ''cost: '' @ co_name c) (filter (\<lambda>c. co_amount c = None) (hs_costs s))"

definition dated_warnings :: "housing_input \<Rightarrow> housing_scenario \<Rightarrow> housing_warning list" where
  "dated_warnings p s =
     (if hp_baseline_complete p then [] else [Baseline_unconfirmed])
     @ (if hp_housing_costs_complete p then [] else [Housing_costs_unconfirmed])
     @ (if hs_costs_complete s then [] else [Cost_list_unconfirmed])
     @ (if hp_condo_amount_meaning p = Condo_unknown \<and> hp_condo_amount p \<noteq> None then [Condo_amount_unclear] else [])
     @ (if hp_target_date p < max (hs_sale_date s) (hs_move_date s) then [Misses_goal_date] else [])
     @ (if hp_end_date p < foldl max (max (hs_funds_date s) (hs_move_date s)) (map co_due (hs_costs s))
        then [Events_beyond_period] else [])
     @ (if hs_sale_date s < hs_move_date s then [Gap_before_move] else [])"

definition sale_proceeds :: "housing_scenario \<Rightarrow> cents option" where
  "sale_proceeds s =
     (case (hs_sale_price s, hs_payoff s, hs_selling_fees s) of
        (Some price, Some payoff, Some fees) \<Rightarrow> Some (price - payoff - fees)
      | _ \<Rightarrow> None)"

definition sum_known :: "cents option \<Rightarrow> cents option \<Rightarrow> cents option" where
  "sum_known a b = (case (a, b) of (Some x, Some y) \<Rightarrow> Some (x + y) | _ \<Rightarrow> None)"

record monthly_result =
  mo_stay_housing :: cents
  mo_move_housing :: cents
  mo_stay_spending :: cents
  mo_move_spending :: cents
  mo_stay_capacity :: cents
  mo_move_capacity :: cents

definition monthly_plan :: "housing_input \<Rightarrow> cents option \<Rightarrow> cents option \<Rightarrow> monthly_result option" where
  "monthly_plan p owner rent =
     (case (owner, rent, hp_income p, hp_nonhousing p, hp_other_savings p) of
        (Some ow, Some re, Some income, Some nonhousing, Some savings) \<Rightarrow>
          let available = income - nonhousing - savings in
          Some \<lparr>mo_stay_housing = ow, mo_move_housing = re,
                mo_stay_spending = ow + nonhousing, mo_move_spending = re + nonhousing,
                mo_stay_capacity = available - ow, mo_move_capacity = available - re\<rparr>
      | _ \<Rightarrow> None)"

definition known_inputs_of :: "housing_input \<Rightarrow> housing_scenario \<Rightarrow> known_inputs option" where
  "known_inputs_of p s =
     Option.bind (hp_cash p) (\<lambda>cash. Option.bind (hp_other_net_assets p) (\<lambda>other.
     Option.bind (hp_income p) (\<lambda>income. Option.bind (hp_nonhousing p) (\<lambda>nonhousing.
     Option.bind (hp_other_savings p) (\<lambda>savings. Option.bind (hp_home_value p) (\<lambda>home.
     Option.bind (hp_mortgage_balance p) (\<lambda>balance. Option.bind (hp_principal_interest p) (\<lambda>interest.
     Option.bind (hp_annual_rate p) (\<lambda>rate. Option.bind (hs_sale_price s) (\<lambda>price.
     Option.bind (hs_payoff s) (\<lambda>payoff. Option.bind (hs_selling_fees s) (\<lambda>fees.
       Some \<lparr>kn_cash = cash, kn_other_net_assets = other, kn_income = income, kn_nonhousing = nonhousing,
             kn_other_savings = savings, kn_home_value = home, kn_mortgage_balance = balance,
             kn_principal_interest = interest, kn_annual_rate = rate, kn_sale_price = price,
             kn_payoff = payoff, kn_selling_fees = fees\<rparr>))))))))))))"

record housing_result =
  hr_name :: string
  hr_unknown :: "string list"
  hr_warnings :: "housing_warning list"
  hr_proceeds :: "cents option"
  hr_monthly :: "monthly_result option"
  hr_transition :: "transition_result option"
  hr_comparison :: "comparison_result option"

text \<open>What becomes of the events: the transition with its warning, and the two warnings on the set-aside.\<close>

definition plan_transition :: "housing_input \<Rightarrow> events \<Rightarrow> transition_state option" where
  "plan_transition p evs =
     (case (hp_dedicated_cash p, hp_reserve p, hp_monthly_set_aside p) of
        (Some dedicated, Some reserve, Some set_aside) \<Rightarrow>
          Some (transition (hp_as_of p) dedicated reserve set_aside evs)
      | _ \<Rightarrow> None)"

definition capacity_warnings ::
  "housing_input \<Rightarrow> housing_scenario \<Rightarrow> monthly_result option \<Rightarrow> transition_state option \<Rightarrow> events
     \<Rightarrow> housing_warning list"
where
  "capacity_warnings p s monthly tr evs =
     (case (tr, monthly) of
        (Some st, Some mo) \<Rightarrow> if dec (mo_stay_capacity mo) < ts_required st then [Required_exceeds_capacity] else []
      | _ \<Rightarrow> [])
     @ (case (hp_monthly_set_aside p, monthly) of
          (Some a, Some mo) \<Rightarrow>
            (if mo_stay_capacity mo < a then [Set_aside_exceeds_stay] else [])
            @ (if hs_move_date s < foldl max (hp_as_of p) (map fst evs) \<and> mo_move_capacity mo < a
               then [Set_aside_exceeds_move] else [])
        | _ \<Rightarrow> [])"

definition evaluate_events ::
  "housing_input \<Rightarrow> housing_scenario \<Rightarrow> cents option \<Rightarrow> cents option \<Rightarrow> events \<Rightarrow> housing_result
     \<Rightarrow> (housing_error, housing_result) result"
where
  "evaluate_events p s owner rent evs base =
     (let tr = plan_transition p evs;
          res = base\<lparr>hr_warnings := hr_warnings base @ capacity_warnings p s (hr_monthly base) tr evs,
                  hr_transition :=
                    (case (tr, hp_reserve p) of
                       (Some st, Some reserve) \<Rightarrow> Some (transition_summary reserve st) | _ \<Rightarrow> None)\<rparr>
      in case (hr_unknown base, owner, rent) of
           ([], Some ow, Some re) \<Rightarrow>
             (case known_inputs_of p s of
                None \<Rightarrow> Inl Assertion_failed
              | Some k \<Rightarrow>
                  (case compare (hp_as_of p) (hp_end_date p) s k evs ow re of
                     None \<Rightarrow> Inl Assertion_failed
                   | Some c \<Rightarrow> Inr (res\<lparr>hr_comparison := Some c\<rparr>)))
         | _ \<Rightarrow> Inr res)"

definition evaluate_scenario ::
  "housing_input \<Rightarrow> housing_scenario \<Rightarrow> (housing_error, housing_result) result option"
where
  "evaluate_scenario p s =
     (let proceeds = sale_proceeds s;
          owner = sum_known (hp_mortgage_payment p) (hp_owner_extras p);
          rent = sum_known (hs_rent s) (hs_rental_extras s);
          base = \<lparr>hr_name = hs_name s, hr_unknown = unknown_inputs p s,
                  hr_warnings = dated_warnings p s
                    @ (case proceeds of Some v \<Rightarrow> if v < 0 then [Negative_proceeds] else [] | None \<Rightarrow> []),
                  hr_proceeds = proceeds, hr_monthly = monthly_plan p owner rent,
                  hr_transition = None, hr_comparison = None\<rparr>
      in case proceeds of
           None \<Rightarrow> Some (Inr base)
         | Some v \<Rightarrow>
             if list_all (\<lambda>c. co_amount c \<noteq> None) (hs_costs s)
                \<and> (hs_sale_date s \<le> hs_move_date s \<or> rent \<noteq> None)
             then map_option (\<lambda>evs. evaluate_events p s owner rent evs base) (scenario_events p s v rent)
             else Some (Inr base))"

text \<open>\<open>evaluate\<close>: every alternative in turn.\<close>

fun evaluate_all ::
  "housing_input \<Rightarrow> housing_scenario list \<Rightarrow> (housing_error, housing_result list) result option"
where
  "evaluate_all p [] = Some (Inr [])"
| "evaluate_all p (s # ss) =
     Option.bind (evaluate_scenario p s) (\<lambda>r.
       case r of
         Inl e \<Rightarrow> Some (Inl e)
       | Inr x \<Rightarrow> map_option (\<lambda>rest. bind_res rest (\<lambda>xs. Inr (x # xs))) (evaluate_all p ss))"

definition evaluate :: "housing_input \<Rightarrow> (housing_error, housing_result list) result option" where
  "evaluate p = evaluate_all p (hp_scenarios p)"

end
