(* ===== verification/Housing_Facts.thy ===== *)
theory Housing_Facts
  imports Housing
begin

text \<open>
  Anniversaries and completed months, the end of every loop of \<open>housing.py\<close> on a validated plan,
  what the comparison records, and why the required monthly saving is enough.
\<close>

section \<open>Anniversaries\<close>

lemma anniversary_month_index [simp]: "month_index (anniversary start months) = month_index start + months"
  by (simp add: anniversary_def month_index_def Let_def)

lemma anniversary_valid [simp]:
  assumes "valid_date start"
  shows "valid_date (anniversary start months)"
proof -
  let ?m = "(d_year start * 12 + d_month start - 1 + months) mod 12"
  have "0 \<le> ?m" "?m < 12" by simp_all
  moreover have "1 \<le> days_in_month y m" for y m
    using days_in_month_bounds(1) [of y m] by linarith
  ultimately show ?thesis
    using assms by (auto simp: anniversary_def valid_date_def Let_def min_def)
qed

lemma month_index_less:
  assumes "valid_date a" "valid_date b" "month_index a < month_index b"
  shows "a < b"
  using assms by (auto simp: month_index_def less_date_def valid_date_def)

lemma anniversary_strict:
  "valid_date start \<Longrightarrow> m < n \<Longrightarrow> anniversary start m < anniversary start n"
  by (intro month_index_less) simp_all

lemma anniversary_0 [simp]: "valid_date start \<Longrightarrow> anniversary start 0 = start"
proof -
  assume v: "valid_date start"
  have "(y * 12 + m - 1) div 12 = y \<and> (y * 12 + m - 1) mod 12 = m - 1" if "1 \<le> m" "m \<le> 12" for y m :: int
    using that by presburger
  then have "(d_year start * 12 + d_month start - 1) div 12 = d_year start"
    "(d_year start * 12 + d_month start - 1) mod 12 = d_month start - 1"
    using v by (simp_all add: valid_date_def)
  then show "anniversary start 0 = start"
    using v by (cases start) (auto simp: anniversary_def Let_def valid_date_def)
qed

lemma completed_months_bounds:
  assumes "valid_date start" "valid_date day"
  shows "anniversary start (completed_months start day) \<le> day"
    and "day < anniversary start (completed_months start day + 1)"
proof -
  let ?m = "(d_year day - d_year start) * 12 + d_month day - d_month start"
  have idx: "month_index start + ?m = month_index day" by (simp add: month_index_def)
  have before: "anniversary start (?m - 1) < day" and after: "day < anniversary start (?m + 1)"
    using assms idx by (auto intro!: month_index_less)
  show "anniversary start (completed_months start day) \<le> day"
    using before by (simp add: completed_months_def Let_def less_imp_le not_less)
  show "day < anniversary start (completed_months start day + 1)"
    using after by (simp add: completed_months_def Let_def)
qed

lemma completed_months_unique:
  assumes "valid_date start" "anniversary start m \<le> day" "day < anniversary start (m + 1)" "valid_date day"
  shows "completed_months start day = m"
proof -
  let ?c = "completed_months start day"
  note b = completed_months_bounds [OF assms(1,4)]
  have "\<not> ?c < m"
    using b(2) assms(2) anniversary_strict [OF assms(1), of "?c + 1" m] by (cases "?c + 1 = m") auto
  moreover have "\<not> m < ?c"
    using b(1) assms(3) anniversary_strict [OF assms(1), of "m + 1" ?c] by (cases "m + 1 = ?c") auto
  ultimately show ?thesis by simp
qed

lemma completed_months_nonneg:
  assumes "valid_date start" "valid_date day" "start \<le> day"
  shows "0 \<le> completed_months start day"
proof (rule ccontr)
  assume "\<not> 0 \<le> completed_months start day"
  then have "anniversary start (completed_months start day + 1) \<le> anniversary start 0"
    using anniversary_strict [OF assms(1), of "completed_months start day + 1" 0]
    by (cases "completed_months start day + 1 = 0") auto
  with completed_months_bounds(2) [OF assms(1,2)] assms show False by simp
qed

section \<open>The loops end\<close>

lemma overlap_events_return:
  assumes "valid_date move" "valid_date sale" "valid_date due" "due \<le> anniversary move (n - 1)"
  shows "\<exists>evs'. overlap_events rent move sale n due evs = Some evs'
    \<and> fst ` set evs' \<subseteq> fst ` set evs \<union> {d. valid_date d \<and> due \<le> d \<and> d < sale}"
  using assms
proof (induction "nat (ordinal sale - ordinal due)" arbitrary: n due evs rule: less_induct)
  case less
  show ?case
  proof (cases "due < sale")
    case False
    then show ?thesis by (subst overlap_events.simps) simp
  next
    case True
    define until where "until = min (anniversary move n) sale"
    let ?evs = "add_event due ''Rental costs during housing overlap'' (- overlap_rent rent until due 0) Overlap evs"
    have valid: "valid_date until" using less.prems by (simp add: until_def min_def)
    have "anniversary move (n - 1) < anniversary move n"
      using less.prems(1) by (intro anniversary_strict) auto
    then have later: "due < until" using less.prems(4) True by (simp add: until_def)
    then have "ordinal due < ordinal until" "ordinal until \<le> ordinal sale"
      using less.prems valid by (auto simp: until_def ordinal_less_iff ordinal_le_iff)
    then have dec: "nat (ordinal sale - ordinal until) < nat (ordinal sale - ordinal due)" by simp
    have le: "until \<le> anniversary move (n + 1 - 1)" by (simp add: until_def)
    obtain evs' where evs': "overlap_events rent move sale (n + 1) until ?evs = Some evs'"
      "fst ` set evs' \<subseteq> fst ` set ?evs \<union> {d. valid_date d \<and> until \<le> d \<and> d < sale}"
      using less.hyps [OF dec less.prems(1,2) valid le] by blast
    have keys: "fst ` set ?evs = insert due (fst ` set evs)"
      unfolding add_event_def by (rule keys_dict_set)
    have "{d. valid_date d \<and> until \<le> d \<and> d < sale} \<subseteq> {d. valid_date d \<and> due \<le> d \<and> d < sale}"
      using later by (auto intro: less_imp_le order_trans)
    moreover have "due \<in> {d. valid_date d \<and> due \<le> d \<and> d < sale}" using True less.prems(3) by simp
    ultimately have "fst ` set evs' \<subseteq> fst ` set evs \<union> {d. valid_date d \<and> due \<le> d \<and> d < sale}"
      using evs'(2) [unfolded keys] by blast
    moreover have "overlap_events rent move sale n due evs = Some evs'"
      using True evs'(1) by (subst overlap_events.simps) (simp add: Let_def until_def)
    ultimately show ?thesis by blast
  qed
qed

text \<open>The dates of a scenario are dates, and so are those of the plan.\<close>

definition scenario_dates_valid :: "housing_scenario \<Rightarrow> bool" where
  "scenario_dates_valid s \<longleftrightarrow> valid_date (hs_sale_date s) \<and> valid_date (hs_funds_date s) \<and> valid_date (hs_move_date s)
     \<and> list_all (\<lambda>c. valid_date (co_due c) \<and> (case co_returned c of None \<Rightarrow> True | Some r \<Rightarrow> valid_date r)) (hs_costs s)"

definition plan_dates_valid :: "housing_input \<Rightarrow> bool" where
  "plan_dates_valid p \<longleftrightarrow> valid_date (hp_as_of p) \<and> valid_date (hp_end_date p)
     \<and> list_all scenario_dates_valid (hp_scenarios p)"

lemma scenario_events_return:
  assumes "scenario_dates_valid s"
  shows "\<exists>evs. scenario_events p s proceeds rent = Some evs"
proof (cases rent)
  case None
  then show ?thesis by (simp add: scenario_events_def Let_def)
next
  case (Some r)
  have "\<exists>evs. overlap_events (dec r) (hs_move_date s) (hs_sale_date s) 1 (hs_move_date s) e = Some evs" for e
    using overlap_events_return [of "hs_move_date s" "hs_sale_date s" "hs_move_date s" 1] assms
    by (fastforce simp: scenario_dates_valid_def)
  then obtain evs where "overlap_events (dec r) (hs_move_date s) (hs_sale_date s) 1 (hs_move_date s)
      (add_event (hp_as_of p) ''Starting reserve check'' 0 Reserve []) = Some evs" by blast
  then show ?thesis by (simp add: scenario_events_def Let_def Some)
qed

section \<open>What the comparison records\<close>

text \<open>
  The state at the start of the loop's body on a day of the period: one row for every first of a
  month so far, all earlier than the day, and the lowest balance met up to the day before.
\<close>

definition row_dates_ok :: "date \<Rightarrow> comparison_state \<Rightarrow> bool" where
  "row_dates_ok as_of st \<longleftrightarrow>
     set (map cr_date (cm_rows st)) = {d. valid_date d \<and> as_of \<le> d \<and> d < cm_day st \<and> d_day d = 1}
     \<and> sorted_wrt (<) (map cr_date (cm_rows st))"

lemma booked_rows:
  "map cr_date (cm_rows (book_day as_of end_date s k evs st)) =
     map cr_date (cm_rows st) @ (if cm_day st = end_date \<or> d_day (cm_day st) = 1 then [cm_day st] else [])"
proof -
  have fold: "cm_rows (fold apply_event items st) = cm_rows st" for items and st :: comparison_state
    by (induction items arbitrary: st) (auto simp: apply_event_def)
  have settle: "cm_rows (settle_day s evs st) = cm_rows st" "cm_day (settle_day s evs st) = cm_day st"
    for st by (simp_all add: settle_day_def Let_def fold)
  have pay: "cm_rows (make_payment as_of s k st) = cm_rows st" "cm_day (make_payment as_of s k st) = cm_day st"
    by (simp_all add: make_payment_def Let_def)
  have "map cr_date (cm_rows (record_row end_date s k t)) =
      map cr_date (cm_rows t) @ (if cm_day t = end_date \<or> d_day (cm_day t) = 1 then [cm_day t] else [])" for t
    by (simp add: record_row_def Let_def)
  then show ?thesis by (simp add: book_day_def settle pay)
qed

lemma next_day_greater: "valid_date d \<Longrightarrow> d < next_day d"
  by (simp add: next_day_valid ordinal_next_day flip: ordinal_less_iff)

lemma less_next_day: "valid_date d \<Longrightarrow> valid_date e \<Longrightarrow> e < next_day d \<longleftrightarrow> e \<le> d"
  using ordinal_less_iff [of e "next_day d"] ordinal_le_iff [of e d]
  by (auto simp: next_day_valid ordinal_next_day)

lemma compare_days_rows:
  assumes "valid_date end_date" "valid_date (cm_day st)" "cm_day st \<le> end_date" "as_of \<le> cm_day st"
    and "row_dates_ok as_of st"
  shows "set (map cr_date (cm_rows (compare_days as_of end_date s k evs owner rent st))) =
      {d. valid_date d \<and> as_of \<le> d \<and> d \<le> end_date \<and> (d_day d = 1 \<or> d = end_date)}
    \<and> sorted_wrt (<) (map cr_date (cm_rows (compare_days as_of end_date s k evs owner rent st)))"
  using assms(2-5)
proof (induction "nat (ordinal end_date - ordinal (cm_day st))" arbitrary: st rule: less_induct)
  case less
  let ?b = "book_day as_of end_date s k evs st"
  note rows = booked_rows [of as_of end_date s k evs st]
  have earlier: "\<forall>d \<in> set (map cr_date (cm_rows st)). d < cm_day st"
    using less.prems(4) by (auto simp: row_dates_ok_def)
  show ?case
  proof (cases "cm_day st = end_date")
    case True
    have "compare_days as_of end_date s k evs owner rent st = ?b"
      using True assms(1) by (subst compare_days.simps) (simp add: Let_def)
    moreover have "set (map cr_date (cm_rows ?b)) =
        {d. valid_date d \<and> as_of \<le> d \<and> d \<le> end_date \<and> (d_day d = 1 \<or> d = end_date)}"
      using less.prems(1,3,4) True unfolding rows row_dates_ok_def by auto
    moreover have "sorted_wrt (<) (map cr_date (cm_rows ?b))"
      using less.prems(4) earlier unfolding rows row_dates_ok_def by (auto simp: sorted_wrt_append)
    ultimately show ?thesis by simp
  next
    case False
    let ?n = "spend_day s k owner rent ?b"
    have lt: "cm_day st < end_date" using less.prems(2) False by simp
    have nd: "valid_date (next_day (cm_day st))" "next_day (cm_day st) \<le> end_date"
      using less.prems(1) lt assms(1) by (auto simp: next_day_valid ordinal_next_day
        simp flip: ordinal_le_iff ordinal_less_iff)
    have step: "compare_days as_of end_date s k evs owner rent st = compare_days as_of end_date s k evs owner rent ?n"
      using less.prems(1,2) False assms(1) by (subst compare_days.simps) (simp add: Let_def)
    have rows_n: "map cr_date (cm_rows ?n) = map cr_date (cm_rows ?b)" by (simp add: spend_day_def Let_def)
    have "row_dates_ok as_of ?n"
      using less.prems(1,3,4) False earlier
      unfolding row_dates_ok_def rows_n rows
      by (auto simp: sorted_wrt_append less_next_day)
    moreover have "nat (ordinal end_date - ordinal (cm_day ?n)) < nat (ordinal end_date - ordinal (cm_day st))"
      using less.prems(1) lt assms(1) by (simp add: ordinal_next_day flip: ordinal_less_iff)
    moreover have "as_of \<le> next_day (cm_day st)"
      using less.prems(1,3) next_day_greater [of "cm_day st"] by simp
    ultimately show ?thesis unfolding step using less.hyps [of ?n] nd by simp
  qed
qed

text \<open>The lowest balance is below every recorded one, and a mortgage never turns negative.\<close>

definition balances_ok :: "comparison_state \<Rightarrow> bool" where
  "balances_ok st \<longleftrightarrow> 0 \<le> cm_debt st
     \<and> list_all (\<lambda>r. money (cm_low_cash st) \<le> cr_move_cash r \<and> 0 \<le> cr_stay_debt r) (cm_rows st)"

lemma make_payment_ok: "balances_ok st \<Longrightarrow> balances_ok (make_payment as_of s k st)"
  by (simp add: balances_ok_def make_payment_def Let_def dsub_def ctx_nonneg)

lemma apply_events_frame:
  "cm_debt (fold apply_event items st) = cm_debt st \<and> cm_rows (fold apply_event items st) = cm_rows st
   \<and> cm_low_cash (fold apply_event items st) = cm_low_cash st"
  by (induction items arbitrary: st) (auto simp: apply_event_def)

lemma settle_day_ok:
  assumes "balances_ok st"
  shows "balances_ok (settle_day s evs st)" and "cm_low_cash (settle_day s evs st) \<le> cm_move (settle_day s evs st)"
proof -
  let ?st = "fold apply_event (dict_get evs (cm_day st) []) st"
  have frame: "cm_debt ?st = cm_debt st" "cm_rows ?st = cm_rows st" "cm_low_cash ?st = cm_low_cash st"
    using apply_events_frame [of "dict_get evs (cm_day st) []" st] by auto
  have fields: "cm_debt (settle_day s evs st) = cm_debt st" "cm_rows (settle_day s evs st) = cm_rows st"
    "cm_low_cash (settle_day s evs st) = min (cm_low_cash st) (cm_move ?st)"
    "cm_move (settle_day s evs st) = cm_move ?st"
    by (simp_all add: settle_day_def Let_def frame min_def)
  have "money (min (cm_low_cash st) (cm_move ?st)) \<le> money (cm_low_cash st)"
    by (rule money_mono) simp
  then show "balances_ok (settle_day s evs st)"
    using assms unfolding balances_ok_def fields list_all_iff by (meson order_trans)
  show "cm_low_cash (settle_day s evs st) \<le> cm_move (settle_day s evs st)" unfolding fields by simp
qed

lemma record_row_ok:
  "balances_ok st \<Longrightarrow> cm_low_cash st \<le> cm_move st \<Longrightarrow> balances_ok (record_row end_date s k st)"
  by (simp add: balances_ok_def record_row_def Let_def money_mono money_nonneg)

lemma book_day_ok: "balances_ok st \<Longrightarrow> balances_ok (book_day as_of end_date s k evs st)"
  unfolding book_day_def by (intro record_row_ok settle_day_ok make_payment_ok)

lemma compare_days_ok:
  "balances_ok st \<Longrightarrow> balances_ok (compare_days as_of end_date s k evs owner rent st)"
proof (induction as_of end_date s k evs owner rent st rule: compare_days.induct)
  case (1 as_of end_date s k evs owner rent st)
  let ?b = "book_day as_of end_date s k evs st"
  have b: "balances_ok ?b" using "1.prems" by (rule book_day_ok)
  then have n: "balances_ok (spend_day s k owner rent ?b)"
    by (simp add: balances_ok_def spend_day_def Let_def)
  show ?case
  proof (cases "valid_date (cm_day st) \<and> valid_date end_date \<and> cm_day st \<le> end_date")
    case True
    show ?thesis
    proof (cases "cm_day ?b = end_date")
      case False
      with "1.IH" [OF True refl False n] True show ?thesis
        by (subst compare_days.simps) (simp add: Let_def)
    qed (use b True in \<open>subst compare_days.simps, simp add: Let_def\<close>)
  qed (use "1.prems" in \<open>subst compare_days.simps, auto\<close>)
qed

lemma compare_returns:
  assumes "valid_date as_of" "valid_date end_date" "as_of \<le> end_date" "0 \<le> kn_mortgage_balance k"
  shows "\<exists>c. compare as_of end_date s k evs owner rent = Some c
    \<and> set (map cr_date (cp_periods c)) =
        {d. valid_date d \<and> as_of \<le> d \<and> d \<le> end_date \<and> (d_day d = 1 \<or> d = end_date)}
    \<and> sorted_wrt (<) (map cr_date (cp_periods c)) \<and> cr_date (cp_ending c) = end_date
    \<and> list_all (\<lambda>r. cp_lowest_move_cash c \<le> cr_move_cash r \<and> 0 \<le> cr_stay_debt r) (cp_periods c)"
proof -
  let ?st = "compare_days as_of end_date s k evs owner rent (initial_comparison as_of k)"
  have "row_dates_ok as_of (initial_comparison as_of k)"
    by (auto simp: row_dates_ok_def initial_comparison_def)
  then have dates: "set (map cr_date (cm_rows ?st)) =
      {d. valid_date d \<and> as_of \<le> d \<and> d \<le> end_date \<and> (d_day d = 1 \<or> d = end_date)}"
    "sorted_wrt (<) (map cr_date (cm_rows ?st))"
    using compare_days_rows [of end_date "initial_comparison as_of k" as_of s k evs owner rent] assms
    by (simp_all add: initial_comparison_def)
  have end_in: "end_date \<in> set (map cr_date (cm_rows ?st))" unfolding dates(1) using assms by simp
  then have ne: "cm_rows ?st \<noteq> []" by auto
  have last_in: "last (map cr_date (cm_rows ?st)) \<le> end_date"
    using last_in_set [of "map cr_date (cm_rows ?st)"] ne unfolding dates(1) by auto
  have "sorted (map cr_date (cm_rows ?st))" using dates(2) by (simp add: strict_sorted_iff)
  then have "end_date \<le> last (map cr_date (cm_rows ?st))" using end_in by (rule sorted_le_last)
  with last_in have last: "cr_date (last (cm_rows ?st)) = end_date" using ne by (simp add: last_map)
  have "balances_ok (initial_comparison as_of k)"
    using assms(4) by (simp add: balances_ok_def initial_comparison_def)
  then have ok: "balances_ok ?st" by (rule compare_days_ok)
  show ?thesis
    using ne dates last ok by (auto simp: compare_def Let_def balances_ok_def)
qed

section \<open>A validated plan evaluates\<close>

lemma is_unknown_Nil [simp]: "is_unknown key v = [] \<longleftrightarrow> v \<noteq> None"
  by (simp add: is_unknown_def)

lemma known_inputs_exist:
  "unknown_inputs p s = [] \<Longrightarrow> \<exists>k. known_inputs_of p s = Some k \<and> hp_mortgage_balance p = Some (kn_mortgage_balance k)"
  by (auto simp: unknown_inputs_def known_inputs_of_def)

definition debts_ok :: "housing_input \<Rightarrow> bool" where
  "debts_ok p \<longleftrightarrow> (case hp_mortgage_balance p of None \<Rightarrow> True | Some b \<Rightarrow> 0 \<le> b)"

lemma evaluate_events_returns:
  assumes "valid_date (hp_as_of p)" "valid_date (hp_end_date p)" "hp_as_of p < hp_end_date p" "debts_ok p"
    and "hr_unknown base = unknown_inputs p s"
  shows "\<exists>r. evaluate_events p s owner rent evs base = Inr r"
proof (cases "hr_unknown base = [] \<and> owner \<noteq> None \<and> rent \<noteq> None")
  case True
  then obtain k where k: "known_inputs_of p s = Some k" "hp_mortgage_balance p = Some (kn_mortgage_balance k)"
    using known_inputs_exist assms(5) by metis
  then have "0 \<le> kn_mortgage_balance k" using assms(4) by (simp add: debts_ok_def)
  then obtain c where "compare (hp_as_of p) (hp_end_date p) s k evs (the owner) (the rent) = Some c"
    using compare_returns assms(1-3) less_imp_le by metis
  with True k show ?thesis by (auto simp: evaluate_events_def Let_def)
next
  case False
  then show ?thesis by (auto simp: evaluate_events_def Let_def split: list.splits option.splits)
qed

lemma evaluate_scenario_returns:
  assumes "valid_date (hp_as_of p)" "valid_date (hp_end_date p)" "hp_as_of p < hp_end_date p" "debts_ok p"
    and "scenario_dates_valid s"
  shows "\<exists>r. evaluate_scenario p s = Some (Inr r)"
proof (cases "sale_proceeds s")
  case None
  then show ?thesis by (simp add: evaluate_scenario_def Let_def)
next
  case (Some v)
  obtain evs where "scenario_events p s v (sum_known (hs_rent s) (hs_rental_extras s)) = Some evs"
    using scenario_events_return [OF assms(5)] by blast
  moreover have "\<exists>r. evaluate_events p s owner rent evs base = Inr r"
    if "hr_unknown base = unknown_inputs p s" for owner rent base
    using assms(1-4) that by (rule evaluate_events_returns)
  ultimately show ?thesis by (auto simp: evaluate_scenario_def Let_def Some)
qed

lemma evaluate_all_returns:
  assumes "\<And>s. s \<in> set ss \<Longrightarrow> \<exists>r. evaluate_scenario p s = Some (Inr r)"
  shows "\<exists>rs. evaluate_all p ss = Some (Inr rs) \<and> length rs = length ss"
  using assms
proof (induction ss)
  case (Cons s ss)
  then obtain r rs where "evaluate_scenario p s = Some (Inr r)"
    "evaluate_all p ss = Some (Inr rs)" "length rs = length ss" by (metis list.set_intros)
  then show ?case by simp
qed simp

section \<open>The required saving keeps the reserve\<close>

text \<open>Events whose amounts are whole cents, as every event but the rent of an overlap is.\<close>

definition cents_events :: "events \<Rightarrow> bool" where
  "cents_events evs \<longleftrightarrow> list_all (\<lambda>(day, items). list_all (\<lambda>(n, v, k). dec (money v) = v) items) evs"

definition day_total :: "events \<Rightarrow> date \<Rightarrow> cents" where
  "day_total evs day = sum_list (map (\<lambda>(n, v, k). money v) (dict_get evs day []))"

text \<open>The dedicated cash on a day when nothing is set aside, and a bound for every partial sum.\<close>

definition balance_on :: "cents \<Rightarrow> events \<Rightarrow> date \<Rightarrow> cents" where
  "balance_on dedicated evs day =
     dedicated + sum_list (map (day_total evs) (filter (\<lambda>d. d \<le> day) (sort (map fst evs))))"

definition magnitude :: "cents \<Rightarrow> events \<Rightarrow> int" where
  "magnitude dedicated evs =
     \<bar>dedicated\<bar> + sum_list (map (\<lambda>d. sum_list (map (\<lambda>(n, v, k). \<bar>money v\<bar>) (dict_get evs d []))) (sort (map fst evs)))"

lemma sum_list_map_nonneg: "(\<And>x. 0 \<le> f x) \<Longrightarrow> 0 \<le> sum_list (map f xs)" for f :: "'a \<Rightarrow> int"
  by (induction xs) auto

lemma abs_sum_list_le: "\<bar>sum_list (map f xs)\<bar> \<le> sum_list (map (\<lambda>x. \<bar>f x\<bar>) xs)" for f :: "'a \<Rightarrow> int"
  by (induction xs) auto

lemma fold_dadd_exact:
  assumes "list_all (\<lambda>(n, v, k). dec (money v) = v) items"
    and "\<bar>b\<bar> + sum_list (map (\<lambda>(n, v, k). \<bar>money v\<bar>) items) < 10 ^ 28"
  shows "fold (\<lambda>(name, delta, kind) b. dadd b delta) items (dec b)
    = dec (b + sum_list (map (\<lambda>(n, v, k). money v) items))"
  using assms
proof (induction items arbitrary: b)
  case (Cons e items)
  obtain n v k where e: "e = (n, v, k)" by (metis prod.exhaust)
  have v: "dec (money v) = v" and items: "list_all (\<lambda>(n, v, k). dec (money v) = v) items"
    using Cons.prems(1) by (simp_all add: e)
  have nn: "0 \<le> sum_list (map (\<lambda>(n, v, k). \<bar>money v\<bar>) items)"
    by (rule sum_list_nonneg_int) auto
  have small: "\<bar>b + money v\<bar> < 10 ^ 28" using Cons.prems(2) nn by (simp add: e)
  have "dadd (dec b) v = dec (b + money v)"
    using ctx_dec [OF small] v by (metis dadd_def dec_simps(2))
  moreover have "\<bar>b + money v\<bar> + sum_list (map (\<lambda>(n, v, k). \<bar>money v\<bar>) items) < 10 ^ 28"
    using Cons.prems(2) by (simp add: e)
  ultimately show ?case using Cons.IH [OF items] by (simp add: e add.assoc)
qed simp

lemma cents_day:
  assumes "cents_events evs"
  shows "list_all (\<lambda>(n, v, k). dec (money v) = v) (dict_get evs day [])"
proof (cases "map_of evs day")
  case (Some items)
  then have "(day, items) \<in> set evs" by (rule map_of_SomeD)
  with assms have "list_all (\<lambda>(n, v, k). dec (money v) = v) items"
    unfolding cents_events_def list_all_iff [of _ evs] by blast
  with Some show ?thesis by (simp add: dict_get_def)
qed (simp add: dict_get_def)

text \<open>
  Rounding a quotient of cents up to cents loses nothing: the quotient is far enough from the next
  lower cent for the arithmetic context to see the difference.
\<close>

lemma round_up_quotient:
  assumes "0 < m" "m \<le> 10000" "c < 10 ^ 22" "ddiv (dec c) (of_int m) \<le> r" "0 \<le> r"
  shows "c \<le> round_up_cents r * m"
proof (rule ccontr)
  let ?R = "round_up_cents r"
  assume "\<not> c \<le> ?R * m"
  then have "?R * m + 1 \<le> c" by simp
  have R0: "0 \<le> ?R"
    using assms(5) by (simp add: round_up_cents_def away_from_zero.rnd_nonneg)
  have rR: "r * 100 \<le> of_int ?R"
    using assms(5) by (simp add: round_up_cents_def away_from_zero_def le_of_int_ceiling)
  have "?R * 1 \<le> ?R * m" using R0 assms(1) by (intro mult_left_mono) auto
  with \<open>?R * m + 1 \<le> c\<close> assms(3) have "?R < 10 ^ 22" by simp
  then have small: "\<bar>?R * 10000 + 1\<bar> < 10 ^ 28" using R0 by simp
  have "(?R * 10000 + 1) * m = (?R * m) * 10000 + m" by (simp add: algebra_simps)
  also have "\<dots> \<le> (?R * m) * 10000 + 10000" using assms(2) by simp
  also have "\<dots> = (?R * m + 1) * 10000" by (simp add: algebra_simps)
  also have "\<dots> \<le> c * 10000" using \<open>?R * m + 1 \<le> c\<close> by (intro mult_right_mono) auto
  finally have key: "(?R * 10000 + 1) * m \<le> c * 10000" .
  have "of_int (?R * 10000 + 1) / 10 ^ 6 \<le> dec c / of_int m"
  proof -
    have "of_int (?R * 10000 + 1) * of_int m \<le> (of_int c :: rat) * 10000"
      using key by (metis of_int_le_iff of_int_mult of_int_numeral)
    then show ?thesis using assms(1) by (simp add: dec_def field_simps)
  qed
  then have "ctx (of_int (?R * 10000 + 1) / 10 ^ 6) \<le> ddiv (dec c) (of_int m)"
    unfolding ddiv_def by (rule ctx_mono)
  then have "of_int (?R * 10000 + 1) / 10 ^ 6 \<le> r"
    using ctx_exact [OF small, of 6] assms(4) by linarith
  with rR show False by simp
qed

definition transition_inv ::
  "date \<Rightarrow> cents \<Rightarrow> cents \<Rightarrow> events \<Rightarrow> date list \<Rightarrow> transition_state \<Rightarrow> bool"
where
  "transition_inv as_of dedicated reserve evs pre st \<longleftrightarrow>
     ts_base st = dec (dedicated + sum_list (map (day_total evs) pre))
     \<and> 0 \<le> ts_required st \<and> 0 \<le> ts_immediate st
     \<and> (\<forall>i < length pre. let deficit = max 0 (reserve - (dedicated + sum_list (map (day_total evs) (take (Suc i) pre))));
           months = completed_months as_of (pre ! i)
         in (months = 0 \<longrightarrow> dec deficit \<le> ts_immediate st)
            \<and> (months \<noteq> 0 \<longrightarrow> ddiv (dec deficit) (of_int months) \<le> ts_required st))"

lemma dec_max: "max 0 (dec x) = dec (max 0 x)"
  by (simp add: max_def dec_simps)

lemma transition_inv_step:
  assumes inv: "transition_inv as_of dedicated reserve evs pre st" and cents: "cents_events evs"
    and small: "\<bar>dedicated + sum_list (map (day_total evs) pre)\<bar>
        + sum_list (map (\<lambda>(n, v, k). \<bar>money v\<bar>) (dict_get evs day [])) < 10 ^ 22"
      "\<bar>reserve\<bar> < 10 ^ 22"
  shows "transition_inv as_of dedicated reserve evs (pre @ [day]) (transition_step as_of reserve a evs day st)"
proof -
  let ?b = "dedicated + sum_list (map (day_total evs) pre)"
  let ?b' = "?b + day_total evs day"
  let ?st = "transition_step as_of reserve a evs day st"
  let ?d = "max 0 (reserve - ?b')"
  have "\<bar>?b\<bar> + sum_list (map (\<lambda>(n, v, k). \<bar>money v\<bar>) (dict_get evs day [])) < 10 ^ 28"
    using small(1) by simp
  then have base: "ts_base ?st = dec ?b'"
    using fold_dadd_exact [OF cents_day [OF cents, of day], of ?b] inv
    by (simp add: transition_step_def Let_def transition_inv_def day_total_def)
  have "\<bar>day_total evs day\<bar> \<le> sum_list (map (\<lambda>(n, v, k). \<bar>money v\<bar>) (dict_get evs day []))"
    using abs_sum_list_le [of "\<lambda>(n, v, k). money v" "dict_get evs day []"]
    by (simp add: day_total_def case_prod_unfold)
  then have "\<bar>reserve - ?b'\<bar> < 2 * 10 ^ 22" using small by linarith
  then have "\<bar>reserve - ?b'\<bar> < 10 ^ 28" by simp
  then have "dsub (dec reserve) (dec ?b') = dec (reserve - ?b')"
    unfolding dsub_def by (metis ctx_dec dec_simps(3))
  then have deficit: "max 0 (dsub (dec reserve) (ts_base ?st)) = dec ?d"
    by (simp only: base dec_max)
  have req: "ts_required ?st = (if completed_months as_of day \<noteq> 0
        then max (ts_required st) (ddiv (dec ?d) (of_int (completed_months as_of day))) else ts_required st)"
    and imm: "ts_immediate ?st = (if completed_months as_of day \<noteq> 0 then ts_immediate st
        else max (ts_immediate st) (dec ?d))"
    using deficit by (simp_all add: transition_step_def Let_def)
  have grow: "ts_required st \<le> ts_required ?st" "ts_immediate st \<le> ts_immediate ?st"
    by (simp_all add: req imm)
  show ?thesis
    unfolding transition_inv_def
  proof (intro conjI allI impI)
    show "ts_base ?st = dec (dedicated + sum_list (map (day_total evs) (pre @ [day])))"
      by (simp add: base add.assoc)
    show "0 \<le> ts_required ?st" "0 \<le> ts_immediate ?st"
      using inv grow unfolding transition_inv_def by (meson order_trans)+
    fix i assume i: "i < length (pre @ [day])"
    show "let deficit = max 0 (reserve - (dedicated + sum_list (map (day_total evs) (take (Suc i) (pre @ [day])))));
           months = completed_months as_of ((pre @ [day]) ! i)
         in (months = 0 \<longrightarrow> dec deficit \<le> ts_immediate ?st)
            \<and> (months \<noteq> 0 \<longrightarrow> ddiv (dec deficit) (of_int months) \<le> ts_required ?st)"
    proof (cases "i < length pre")
      case True
      then show ?thesis
        using inv grow unfolding transition_inv_def Let_def
        by (auto simp: nth_append intro: order_trans)
    next
      case False
      then have "i = length pre" using i by simp
      then show ?thesis by (simp add: Let_def req imm add.assoc)
    qed
  qed
qed

lemma magnitude_prefix:
  assumes "sort (map fst evs) = pre @ day # rest"
  shows "\<bar>dedicated + sum_list (map (day_total evs) pre)\<bar>
    + sum_list (map (\<lambda>(n, v, k). \<bar>money v\<bar>) (dict_get evs day [])) \<le> magnitude dedicated evs"
    and "\<bar>day_total evs day\<bar> \<le> sum_list (map (\<lambda>(n, v, k). \<bar>money v\<bar>) (dict_get evs day []))"
proof -
  let ?abs = "\<lambda>d. sum_list (map (\<lambda>(n, v, k). \<bar>money v\<bar>) (dict_get evs d []))"
  have nn: "0 \<le> ?abs d" for d by (rule sum_list_nonneg_int) auto
  have le: "\<bar>day_total evs d\<bar> \<le> ?abs d" for d
    using abs_sum_list_le [of "\<lambda>(n, v, k). money v" "dict_get evs d []"]
    by (simp add: day_total_def case_prod_unfold)
  have "\<bar>sum_list (map (day_total evs) pre)\<bar> \<le> sum_list (map (\<lambda>d. \<bar>day_total evs d\<bar>) pre)"
    by (rule abs_sum_list_le)
  also have "\<dots> \<le> sum_list (map ?abs pre)" using le by (intro sum_list_mono)
  finally have "\<bar>sum_list (map (day_total evs) pre)\<bar> \<le> sum_list (map ?abs pre)" .
  moreover have "0 \<le> sum_list (map ?abs rest)" using nn by (intro sum_list_nonneg_int) auto
  ultimately show "\<bar>dedicated + sum_list (map (day_total evs) pre)\<bar> + ?abs day \<le> magnitude dedicated evs"
    unfolding magnitude_def assms(1) by simp
  show "\<bar>day_total evs day\<bar> \<le> ?abs day" by (rule le)
qed

lemma transition_invariant:
  assumes "cents_events evs" "magnitude dedicated evs < 10 ^ 22" "\<bar>reserve\<bar> < 10 ^ 22"
  shows "transition_inv as_of dedicated reserve evs (sort (map fst evs))
    (transition as_of dedicated reserve a evs)"
proof -
  let ?st0 = "\<lparr>ts_base = dec dedicated, ts_required = 0, ts_immediate = 0, ts_timeline = []\<rparr>"
  have "transition_inv as_of dedicated reserve evs pre (fold (transition_step as_of reserve a evs) pre ?st0)"
    if "sort (map fst evs) = pre @ rest" for pre rest
    using that
  proof (induction pre arbitrary: rest rule: rev_induct)
    case (snoc day pre)
    have "sort (map fst evs) = pre @ day # rest" using snoc.prems by simp
    with snoc.IH order.strict_trans1 [OF magnitude_prefix(1) [OF this] assms(2)] show ?case
      by (simp add: transition_inv_step [OF _ assms(1) _ assms(3)])
  qed (simp add: transition_inv_def)
  then show ?thesis by (simp add: transition_def)
qed

lemma filter_le_take:
  fixes ds :: "'a :: linorder list"
  assumes "sorted_wrt (<) ds" "i < length ds"
  shows "filter (\<lambda>d. d \<le> ds ! i) ds = take (Suc i) ds"
proof -
  have split: "ds = take (Suc i) ds @ drop (Suc i) ds" by simp
  have "d \<le> ds ! i" if d: "d \<in> set (take (Suc i) ds)" for d
  proof -
    obtain j where "j < Suc i" "j < length ds" "d = ds ! j" using d by (auto simp: in_set_conv_nth)
    then show ?thesis using assms by (cases "j = i") (auto simp: sorted_wrt_iff_nth_less intro: less_imp_le)
  qed
  then have "filter (\<lambda>d. d \<le> ds ! i) (take (Suc i) ds) = take (Suc i) ds" by (simp add: filter_id_conv)
  moreover have "\<not> d \<le> ds ! i" if d: "d \<in> set (drop (Suc i) ds)" for d
  proof -
    obtain j where "j < length (drop (Suc i) ds)" "d = drop (Suc i) ds ! j"
      using d unfolding in_set_conv_nth by blast
    then have "Suc i + j < length ds" "d = ds ! (Suc i + j)" using assms(2) by (simp_all add: less_diff_conv add.commute)
    then show ?thesis using assms by (auto simp: sorted_wrt_iff_nth_less not_le)
  qed
  then have "filter (\<lambda>d. d \<le> ds ! i) (drop (Suc i) ds) = []" by (simp add: filter_empty_conv)
  ultimately show ?thesis by (subst split, unfold filter_append) simp
qed

lemma transition_sufficient:
  assumes "cents_events evs" "magnitude dedicated evs < 10 ^ 21" "\<bar>reserve\<bar> < 10 ^ 21"
    and "distinct (map fst evs)" "(day, items) \<in> set evs"
    and "0 \<le> completed_months as_of day" "completed_months as_of day \<le> 10000"
    and res_def: "res = transition_summary reserve (transition as_of dedicated reserve a evs)"
  shows "reserve \<le> balance_on dedicated evs day + tn_needed_now res
    + tn_required_monthly res * completed_months as_of day"
proof -
  let ?st = "transition as_of dedicated reserve a evs" and ?ds = "sort (map fst evs)"
  let ?m = "completed_months as_of day"
  have mag: "magnitude dedicated evs < 10 ^ 22" "\<bar>reserve\<bar> < 10 ^ 22" using assms(2,3) by simp_all
  have inv: "transition_inv as_of dedicated reserve evs ?ds ?st"
    by (rule transition_invariant [OF assms(1) mag])
  have strict: "sorted_wrt (<) ?ds" using assms(4) by (simp add: strict_sorted_iff)
  have "day \<in> set ?ds" using assms(5) by force
  then obtain i where i: "i < length ?ds" "?ds ! i = day" unfolding in_set_conv_nth by blast
  have "filter (\<lambda>d. d \<le> day) ?ds = take (Suc i) ?ds"
    using filter_le_take [OF strict i(1)] i(2) by simp
  then have bal: "dedicated + sum_list (map (day_total evs) (take (Suc i) ?ds)) = balance_on dedicated evs day"
    by (simp add: balance_on_def)
  let ?d = "max 0 (reserve - balance_on dedicated evs day)"
  have step: "(?m = 0 \<longrightarrow> dec ?d \<le> ts_immediate ?st) \<and> (?m \<noteq> 0 \<longrightarrow> ddiv (dec ?d) (of_int ?m) \<le> ts_required ?st)"
    using inv i bal unfolding transition_inv_def Let_def by metis
  have nn: "0 \<le> ts_required ?st" "0 \<le> ts_immediate ?st" using inv by (simp_all add: transition_inv_def)
  have now: "0 \<le> tn_needed_now res" and req: "0 \<le> tn_required_monthly res"
    using nn by (simp_all add: res_def transition_summary_def money_nonneg round_up_cents_def
        away_from_zero.rnd_nonneg)
  show ?thesis
  proof (cases "?m = 0")
    case True
    then have "money (dec ?d) \<le> money (ts_immediate ?st)" using step by (intro money_mono) simp
    then have "?d \<le> tn_needed_now res" by (simp add: res_def transition_summary_def)
    then show ?thesis using True by simp
  next
    case False
    have "\<bar>balance_on dedicated evs day\<bar> \<le> magnitude dedicated evs"
    proof -
      have "?ds = take i ?ds @ day # drop (Suc i) ?ds" using id_take_nth_drop [OF i(1)] i(2) by simp
      note mag = magnitude_prefix(1) [OF this, where dedicated = dedicated] magnitude_prefix(2) [OF this]
      have "balance_on dedicated evs day = dedicated + sum_list (map (day_total evs) (take i ?ds)) + day_total evs day"
        unfolding bal [symmetric] take_Suc_conv_app_nth [OF i(1)] i(2) by simp
      with mag show ?thesis by linarith
    qed
    then have "?d < 2 * 10 ^ 21" using assms(2,3) by linarith
    then have "?d < 10 ^ 22" by simp
    then have "?d \<le> round_up_cents (ts_required ?st) * ?m"
      using False assms(6,7) step nn by (intro round_up_quotient) auto
    then have "?d \<le> tn_required_monthly res * ?m" by (simp add: res_def transition_summary_def)
    then show ?thesis using now by simp
  qed
qed

section \<open>An example plan\<close>

definition example_cost :: cost where
  "example_cost =
     \<lparr>co_name = ''movers'', co_amount = Some 250000, co_due = Date 2024 3 1, co_kind = Cost_deposit,
      co_returned = Some (Date 2024 3 20)\<rparr>"

definition example_scenario :: housing_scenario where
  "example_scenario =
     \<lparr>hs_name = ''sell'', hs_sale_price = Some 40000000, hs_payoff = Some 20000000,
      hs_selling_fees = Some 2400000, hs_sale_date = Date 2024 2 10, hs_funds_date = Date 2024 2 12,
      hs_move_date = Date 2024 2 1, hs_rent = Some 200000, hs_rental_extras = Some 10000,
      hs_costs = [example_cost], hs_costs_complete = True\<rparr>"

definition example_plan :: housing_input where
  "example_plan =
     \<lparr>hp_target_date = Date 2024 6 1, hp_as_of = Date 2024 1 15, hp_end_date = Date 2024 4 1,
      hp_baseline_complete = True, hp_condo_amount_meaning = Purchase_price, hp_condo_amount = None,
      hp_cash = Some 3000000, hp_dedicated_cash = Some 500000, hp_other_net_assets = Some 100000,
      hp_income = Some 900000, hp_nonhousing = Some 300000, hp_other_savings = Some 50000,
      hp_home_value = Some 39000000, hp_mortgage_balance = Some 20000000,
      hp_mortgage_payment = Some 180000, hp_principal_interest = Some 150000,
      hp_annual_rate = Some 6, hp_owner_extras = Some 40000, hp_reserve = Some 1000000,
      hp_monthly_set_aside = Some 100000, hp_housing_costs_complete = True,
      hp_scenarios = [example_scenario]\<rparr>"

definition example_events :: events where
  "example_events =
     [(Date 2024 1 15, [(''start'', 0, Reserve)]), (Date 2024 4 20, [(''movers'', - 2500, Expense)])]"

section \<open>Properties\<close>

text \<open>
  \<open>anniversary\<close> and the month count of the transition fit together: an anniversary is a valid
  date in exactly the month asked for, on no later day of the month than the start, and the number
  of months counted for a day is the one number of anniversaries that have passed by that day.
\<close>

lemma completed_months_exact:
  assumes "valid_date start" "valid_date day"
  shows "valid_date (anniversary start n) \<and> month_index (anniversary start n) = month_index start + n
    \<and> d_day (anniversary start n) \<le> d_day start
    \<and> (completed_months start day = n \<longleftrightarrow> anniversary start n \<le> day \<and> day < anniversary start (n + 1))"
proof (intro conjI)
  show "valid_date (anniversary start n)" using assms(1) by simp
  show "month_index (anniversary start n) = month_index start + n" by simp
  show "d_day (anniversary start n) \<le> d_day start" by (simp add: anniversary_def Let_def)
  show "completed_months start day = n \<longleftrightarrow> anniversary start n \<le> day \<and> day < anniversary start (n + 1)"
    using completed_months_bounds [OF assms] completed_months_unique [OF assms(1) _ _ assms(2)] by metis
qed

lemma completed_months_exact_witness:
  "anniversary (Date 2024 1 31) 1 = Date 2024 2 29
   \<and> (completed_months (Date 2024 1 31) (Date 2024 2 29) = 1 \<longleftrightarrow>
        anniversary (Date 2024 1 31) 1 \<le> Date 2024 2 29 \<and> Date 2024 2 29 < anniversary (Date 2024 1 31) (1 + 1))"
proof -
  have "valid_date (Date 2024 1 31)" "valid_date (Date 2024 2 29)" by code_simp+
  note exact = completed_months_exact [OF this, of 1]
  have "anniversary (Date 2024 1 31) 1 = Date 2024 2 29" by code_simp
  with exact show ?thesis by blast
qed

text \<open>
  C30: Evaluating a plan that passed validation always returns: the overlap loop reaches the sale
  date, the comparison reaches its end date, no assertion fails and every alternative has a result.
\<close>

theorem evaluate_total:
  assumes "consistent p = Inr q" "plan_dates_valid p" "debts_ok p"
  shows "\<exists>rs. evaluate p = Some (Inr rs) \<and> length rs = length (hp_scenarios p)"
proof -
  have "hp_as_of p < hp_end_date p"
  proof (rule ccontr)
    assume "\<not> hp_as_of p < hp_end_date p"
    then have "consistent p = Inl Bad_comparison_period" by (simp add: consistent_def)
    with assms(1) show False by simp
  qed
  then have "\<exists>r. evaluate_scenario p s = Some (Inr r)" if "s \<in> set (hp_scenarios p)" for s
    using assms(2,3) that evaluate_scenario_returns by (auto simp: plan_dates_valid_def list_all_iff)
  then show ?thesis unfolding evaluate_def by (rule evaluate_all_returns)
qed

theorem evaluate_total_witness:
  "isl (consistent example_plan) = False
   \<and> (\<exists>rs. evaluate example_plan = Some (Inr rs) \<and> length rs = length (hp_scenarios example_plan))"
proof -
  have run: "isl (consistent example_plan) = False" by code_simp
  then obtain q where q: "consistent example_plan = Inr q" by (cases "consistent example_plan") auto
  have "plan_dates_valid example_plan" "debts_ok example_plan" by code_simp+
  with run evaluate_total [OF q] show ?thesis by blast
qed

text \<open>
  C31: The comparison has one row for the first of every month of the period and one for its end
  date, in order, ends on the end date, reports a lowest cash balance that no row undercuts, and
  never shows a negative mortgage.
\<close>

theorem comparison_rows_exact:
  assumes "valid_date as_of" "valid_date end_date" "as_of \<le> end_date" "0 \<le> kn_mortgage_balance k"
  shows "\<exists>c. compare as_of end_date s k evs owner rent = Some c
    \<and> set (map cr_date (cp_periods c)) =
        {d. valid_date d \<and> as_of \<le> d \<and> d \<le> end_date \<and> (d_day d = 1 \<or> d = end_date)}
    \<and> sorted_wrt (<) (map cr_date (cp_periods c)) \<and> cr_date (cp_ending c) = end_date
    \<and> list_all (\<lambda>r. cp_lowest_move_cash c \<le> cr_move_cash r \<and> 0 \<le> cr_stay_debt r) (cp_periods c)"
  by (rule compare_returns [OF assms])

theorem comparison_rows_exact_witness:
  "\<exists>k c. known_inputs_of example_plan example_scenario = Some k
    \<and> compare (Date 2024 1 15) (Date 2024 4 1) example_scenario k [] 220000 210000 = Some c
    \<and> cr_date (cp_ending c) = Date 2024 4 1"
proof -
  have known: "(case known_inputs_of example_plan example_scenario of None \<Rightarrow> False
      | Some k \<Rightarrow> 0 \<le> kn_mortgage_balance k) = True" by code_simp
  then obtain k where k: "known_inputs_of example_plan example_scenario = Some k" "0 \<le> kn_mortgage_balance k"
    by (auto split: option.splits)
  have dates: "valid_date (Date 2024 1 15)" "valid_date (Date 2024 4 1)" "Date 2024 1 15 \<le> Date 2024 4 1"
    by code_simp+
  from comparison_rows_exact [OF dates k(2)] k(1) show ?thesis by blast
qed

text \<open>
  C11: The required monthly saving that the transition reports is enough: with the amount needed now
  and that saving on every completed month, the dedicated cash covers the reserve on every event
  date, for events in whole cents and amounts far beyond the accepted inputs.
\<close>

theorem required_saving_keeps_reserve:
  assumes "cents_events evs" "magnitude dedicated evs < 10 ^ 21" "\<bar>reserve\<bar> < 10 ^ 21"
    and "distinct (map fst evs)" "(day, items) \<in> set evs"
    and "0 \<le> completed_months as_of day" "completed_months as_of day \<le> 10000"
    and "res = transition_summary reserve (transition as_of dedicated reserve a evs)"
  shows "reserve \<le> balance_on dedicated evs day + tn_needed_now res
    + tn_required_monthly res * completed_months as_of day"
  by (rule transition_sufficient [OF assms])

theorem required_saving_keeps_reserve_witness:
  "let res = transition_summary 1000000 (transition (Date 2024 1 15) 500000 1000000 0 example_events)
   in 1000000 \<le> balance_on 500000 example_events (Date 2024 4 20) + tn_needed_now res
        + tn_required_monthly res * completed_months (Date 2024 1 15) (Date 2024 4 20)"
proof -
  have *: "cents_events example_events" "magnitude 500000 example_events < 10 ^ 21" "\<bar>1000000 :: int\<bar> < 10 ^ 21"
    "distinct (map fst example_events)"
    "(Date 2024 4 20, [(''movers'', - 2500, Expense)]) \<in> set example_events"
    "0 \<le> completed_months (Date 2024 1 15) (Date 2024 4 20)"
    "completed_months (Date 2024 1 15) (Date 2024 4 20) \<le> 10000"
    by code_simp+
  show ?thesis unfolding Let_def by (rule required_saving_keeps_reserve [OF * refl])
qed

end
