(* ===== verification/Life_Plan.thy ===== *)
theory Life_Plan
  imports Decimal_Money Calendar_Dates Models
begin

text \<open>
  \<open>life_plan.py\<close>: the month-by-month projection of a household from its starting balances to the
  end age, on three market paths, and the reverse solver that finds the smallest saving, income or
  capital that makes a plan work.

  All balances are whole cents (\<open>money()\<close> is applied at every assignment of the code). The monthly
  rate of a path is the twelfth root of a floating-point number: that one function of the
  platform's floating-point library is the argument \<open>rate\<close> of the definitions that use it, from the
  annual percentage to the monthly \<open>Decimal\<close>.
\<close>

datatype path = Middle | Rough | Early_crash

definition paths :: "path list" where
  "paths = [Middle, Rough, Early_crash]"

datatype priority = Required | Flexible

datatype life_error =
    Bad_state | Bad_target_age | Bad_current_age | End_age_passed | Target_age_out_of_range | No_periods

record projection_profile =
  lp_birth_date :: date
  lp_state :: string
  lp_end_age :: int
  lp_current_monthly_outflow :: cents
  lp_essential_monthly_spend :: cents
  lp_flexible_monthly_spend :: cents
  lp_cash_floor :: cents
  lp_retirement_tax_rate_pct :: rat
  lp_target_ages :: "int list"

record projection_goal =
  lg_id :: int
  lg_name :: string
  lg_target_date :: date
  lg_target_amount :: cents
  lg_reserved_amount :: cents
  lg_annual_cost :: cents
  lg_priority :: priority
  lg_enabled :: bool

record projection_payroll =
  pp_annual_salary :: cents
  pp_net_per_paycheck :: cents
  pp_employee_retirement :: cents
  pp_employer_retirement :: cents
  pp_employee_hsa :: cents
  pp_employer_hsa :: cents
  pp_stock_plan :: cents

record projection_start =
  sp_as_of :: date
  sp_cash :: cents
  sp_accessible :: cents
  sp_retirement :: cents
  sp_hsa :: cents
  sp_restricted :: cents
  sp_debt :: cents
  sp_payroll :: "projection_payroll option"

section \<open>The profile\<close>

definition age_months :: "date \<Rightarrow> date \<Rightarrow> int" where
  "age_months birth v =
     (let months = (d_year v - d_year birth) * 12 + d_month v - d_month birth
      in if d_day v < d_day birth then months - 1 else months)"

definition month_for_age :: "date \<Rightarrow> int \<Rightarrow> date" where
  "month_for_age birth age = Date (d_year birth + age) (d_month birth) 1"

text \<open>\<open>upper\<close> and \<open>isalpha\<close> on the ASCII characters.\<close>

definition normalize_state :: "string \<Rightarrow> (life_error, string) result" where
  "normalize_state v =
     (let n = map upper_char v
      in if n \<noteq> [] \<and> list_all (\<lambda>c. is_upper c \<or> is_lower c) n then Inr n else Inl Bad_state)"

text \<open>\<open>sorted(set(value))\<close>\<close>

definition unique_target_ages :: "int list \<Rightarrow> (life_error, int list) result" where
  "unique_target_ages v =
     (if list_ex (\<lambda>age. age < 18 \<or> 110 < age) v then Inl Bad_target_age else Inr (sort (remdups v)))"

definition ages_in_range :: "int \<Rightarrow> int \<Rightarrow> int list \<Rightarrow> bool" where
  "ages_in_range current_age end_age ages \<longleftrightarrow> \<not> list_ex (\<lambda>age. age \<le> current_age \<or> end_age \<le> age) ages"

definition validate_age_ordering :: "date \<Rightarrow> projection_profile \<Rightarrow> (life_error, projection_profile) result" where
  "validate_age_ordering today p =
     (let current_age = age_months (lp_birth_date p) today div 12 in
      if current_age < 18 \<or> 100 < current_age then Inl Bad_current_age
      else if lp_end_age p \<le> current_age then Inl End_age_passed
      else if \<not> ages_in_range current_age (lp_end_age p) (lp_target_ages p) then Inl Target_age_out_of_range
      else Inr p)"

section \<open>Withdrawals\<close>

definition retirement_access_age_months :: int where
  "retirement_access_age_months = 59 * 12 + 6"

definition take_accessible :: "cents \<Rightarrow> cents \<Rightarrow> cents \<Rightarrow> cents \<Rightarrow> cents \<times> cents \<times> cents" where
  "take_accessible requested cash accessible cash_floor =
     (let spendable_cash = max 0 (cash - cash_floor);
          from_cash = min spendable_cash requested;
          remaining = requested - from_cash;
          from_accessible = min accessible remaining
      in (remaining - from_accessible, cash - from_cash, accessible - from_accessible))"

definition spendable_rate :: "rat \<Rightarrow> rat" where
  "spendable_rate tax_rate_pct = dsub 1 (ddiv tax_rate_pct 100)"

definition take_retirement :: "cents \<Rightarrow> cents \<Rightarrow> rat \<Rightarrow> cents \<times> cents" where
  "take_retirement requested retirement tax_rate_pct =
     (if requested \<le> 0 then (0, retirement)
      else let r = spendable_rate tax_rate_pct in
        if r \<le> 0 then (requested, retirement)
        else
          let gross_needed = money (ddiv (dec requested) r);
              gross_taken = min retirement gross_needed
          in (max 0 (requested - money (dmul (dec gross_taken) r)), retirement - gross_taken))"

definition withdraw ::
  "cents \<Rightarrow> cents \<Rightarrow> cents \<Rightarrow> cents \<Rightarrow> cents \<Rightarrow> int \<Rightarrow> rat \<Rightarrow> cents \<times> cents \<times> cents \<times> cents"
where
  "withdraw requested cash accessible retirement cash_floor age tax_rate_pct =
     (case take_accessible requested cash accessible cash_floor of (remaining, cash', accessible') \<Rightarrow>
        if 0 < remaining \<and> retirement_access_age_months \<le> age
        then case take_retirement remaining retirement tax_rate_pct of
               (remaining', retirement') \<Rightarrow> (remaining', cash', accessible', retirement')
        else (remaining, cash', accessible', retirement))"

section \<open>One month of the projection\<close>

record sim_options =
  so_target_age :: int
  so_path :: path
  so_as_of :: date
  so_extra_monthly_saving :: cents
  so_additional_monthly_income :: cents
  so_liquidity_event :: cents
  so_liquidity_event_month :: "date option"
  so_flexible_spend_override :: "cents option"
  so_include_periods :: bool
  so_assessment_start_month :: "date option"

text \<open>The monthly amounts the code derives from the latest paycheck before the loop.\<close>

record monthly_pay =
  mp_gross :: cents
  mp_net :: cents
  mp_employee_retirement :: cents
  mp_employer_retirement :: cents
  mp_employee_hsa :: cents
  mp_employer_hsa :: cents
  mp_stock_plan :: cents

definition per_month :: "cents \<Rightarrow> cents" where
  "per_month per_paycheck = money (ddiv (dmul (dec per_paycheck) 26) 12)"

definition monthly_pay_of :: "projection_payroll option \<Rightarrow> monthly_pay" where
  "monthly_pay_of payroll =
     (case payroll of
        None \<Rightarrow> \<lparr>mp_gross = 0, mp_net = 0, mp_employee_retirement = 0, mp_employer_retirement = 0,
                 mp_employee_hsa = 0, mp_employer_hsa = 0, mp_stock_plan = 0\<rparr>
      | Some p \<Rightarrow> \<lparr>mp_gross = money (ddiv (dec (pp_annual_salary p)) 12),
                   mp_net = per_month (pp_net_per_paycheck p),
                   mp_employee_retirement = per_month (pp_employee_retirement p),
                   mp_employer_retirement = per_month (pp_employer_retirement p),
                   mp_employee_hsa = per_month (pp_employee_hsa p),
                   mp_employer_hsa = per_month (pp_employer_hsa p),
                   mp_stock_plan = per_month (pp_stock_plan p)\<rparr>)"

record stop_assets =
  sa_cash :: cents
  sa_accessible :: cents
  sa_accessible_total :: cents
  sa_retirement :: cents
  sa_hsa :: cents
  sa_restricted :: cents

record period =
  pr_month :: date
  pr_age_months :: int
  pr_working :: bool
  pr_gross_income :: cents
  pr_net_income :: cents
  pr_additional_income :: cents
  pr_employee_retirement :: cents
  pr_employer_retirement :: cents
  pr_stock_plan :: cents
  pr_essential_spend :: cents
  pr_flexible_spend :: cents
  pr_goal_spend :: cents
  pr_cash :: cents
  pr_accessible :: cents
  pr_retirement :: cents
  pr_hsa :: cents
  pr_restricted :: cents
  pr_debt :: cents
  pr_investment_result :: cents
  pr_total_spendable :: cents

text \<open>
  The local variables of the loop. The last four are reset at the start of every month.
\<close>

record sim_state =
  ss_cash :: cents
  ss_accessible :: cents
  ss_retirement :: cents
  ss_hsa :: cents
  ss_restricted :: cents
  ss_required_failed :: bool
  ss_flexible_failed :: bool
  ss_bridge_failed :: bool
  ss_first_shortfall :: "date option"
  ss_goal_results :: "(int, bool \<times> cents) dict"
  ss_months_after_stop :: int
  ss_crash_applied :: bool
  ss_work_stop_assets :: "stop_assets option"
  ss_last_period :: "period option"
  ss_periods :: "period list"
  ss_investment_result :: cents
  ss_essential_spend :: cents
  ss_flexible_spend :: cents
  ss_goal_spend :: cents

definition path_monthly_rate :: "(rat \<Rightarrow> rat) \<Rightarrow> path \<Rightarrow> bool \<Rightarrow> int \<Rightarrow> rat" where
  "path_monthly_rate rate path working months_after_stop =
     (case path of
        Middle \<Rightarrow> rate 4
      | Rough \<Rightarrow> rate 2
      | Early_crash \<Rightarrow> if working then rate 4 else if months_after_stop \<le> 24 then 0 else rate 3)"

definition or_else :: "'a option \<Rightarrow> 'a option \<Rightarrow> 'a option" where
  "or_else a b = (case a of None \<Rightarrow> b | Some _ \<Rightarrow> a)"

definition stop_assets_of :: "sim_state \<Rightarrow> stop_assets" where
  "stop_assets_of st =
     \<lparr>sa_cash = ss_cash st, sa_accessible = ss_accessible st,
      sa_accessible_total = ss_cash st + ss_accessible st, sa_retirement = ss_retirement st,
      sa_hsa = ss_hsa st, sa_restricted = ss_restricted st\<rparr>"

text \<open>A withdrawal on the variables of the loop: what remains unpaid, and the variables after it.\<close>

definition withdraw_from :: "projection_profile \<Rightarrow> int \<Rightarrow> cents \<Rightarrow> sim_state \<Rightarrow> cents \<times> sim_state" where
  "withdraw_from p age requested st =
     (case withdraw requested (ss_cash st) (ss_accessible st) (ss_retirement st) (lp_cash_floor p) age
             (lp_retirement_tax_rate_pct p) of
        (remaining, cash, accessible, retirement) \<Rightarrow>
          (remaining, st\<lparr>ss_cash := cash, ss_accessible := accessible, ss_retirement := retirement\<rparr>))"

definition counts_toward_result :: "sim_options \<Rightarrow> date \<Rightarrow> bool" where
  "counts_toward_result opts month =
     (case so_assessment_start_month opts of None \<Rightarrow> True | Some start \<Rightarrow> start \<le> month)"

definition fund_goal ::
  "sim_options \<Rightarrow> projection_profile \<Rightarrow> date \<Rightarrow> int \<Rightarrow> projection_goal \<Rightarrow> sim_state \<Rightarrow> sim_state"
where
  "fund_goal opts p month age g st =
     (case withdraw_from p age (lg_target_amount g) st of (remaining, st1) \<Rightarrow>
        let short = (0 < remaining \<and> counts_toward_result opts month);
            required = (short \<and> lg_priority g = Required);
            bridge = (required \<and> age < retirement_access_age_months \<and> 0 < ss_retirement st1)
        in st1\<lparr>ss_goal_spend := ss_goal_spend st1 + (lg_target_amount g - remaining),
               ss_goal_results := dict_set (lg_id g) (remaining = 0, remaining) (ss_goal_results st1),
               ss_required_failed := (ss_required_failed st1 \<or> required),
               ss_flexible_failed := (ss_flexible_failed st1 \<or> (short \<and> lg_priority g \<noteq> Required)),
               ss_bridge_failed := (ss_bridge_failed st1 \<or> bridge),
               ss_first_shortfall := or_else (ss_first_shortfall st1) (if required then Some month else None)\<rparr>)"

text \<open>
  The flags the helper returns are disjoined to the variables by its caller; folding the goals over
  the variables themselves does both.
\<close>

definition fund_due_goals ::
  "sim_options \<Rightarrow> projection_profile \<Rightarrow> date \<Rightarrow> int \<Rightarrow> priority \<Rightarrow> projection_goal list \<Rightarrow> sim_state \<Rightarrow> sim_state"
where
  "fund_due_goals opts p month age prio rows st =
     fold (fund_goal opts p month age) (filter (\<lambda>g. lg_priority g = prio) rows) st"

text \<open>A return on the four invested balances, rounded to cents on each.\<close>

definition apply_return :: "rat \<Rightarrow> sim_state \<Rightarrow> sim_state" where
  "apply_return r st =
     (let a = money (dmul (dec (ss_accessible st)) r);
          t = money (dmul (dec (ss_retirement st)) r);
          h = money (dmul (dec (ss_hsa st)) r);
          x = money (dmul (dec (ss_restricted st)) r)
      in st\<lparr>ss_accessible := ss_accessible st + a, ss_retirement := ss_retirement st + t,
            ss_hsa := ss_hsa st + h, ss_restricted := ss_restricted st + x,
            ss_investment_result := ss_investment_result st + a + t + h + x\<rparr>)"

definition crash_rate :: rat where
  "crash_rate = ddiv (-35) 100"

definition apply_crash :: "path \<Rightarrow> bool \<Rightarrow> sim_state \<Rightarrow> sim_state" where
  "apply_crash path working st =
     (if path = Early_crash \<and> \<not> working \<and> \<not> ss_crash_applied st
      then (apply_return crash_rate st)\<lparr>ss_crash_applied := True\<rparr> else st)"

text \<open>The start of a month: the liquidity event, the counter of months after work stops, the crash.\<close>

definition receive_event :: "sim_options \<Rightarrow> date \<Rightarrow> date \<Rightarrow> sim_state \<Rightarrow> sim_state" where
  "receive_event opts stop_month month st =
     (if month = (case so_liquidity_event_month opts of None \<Rightarrow> stop_month | Some m \<Rightarrow> m)
      then st\<lparr>ss_accessible := ss_accessible st + so_liquidity_event opts\<rparr> else st)"

definition note_stop :: "bool \<Rightarrow> sim_state \<Rightarrow> sim_state" where
  "note_stop working st =
     (if working then st
      else st\<lparr>ss_months_after_stop := ss_months_after_stop st + 1,
              ss_work_stop_assets := or_else (ss_work_stop_assets st) (Some (stop_assets_of st))\<rparr>)"

definition clear_month :: "sim_state \<Rightarrow> sim_state" where
  "clear_month st =
     st\<lparr>ss_investment_result := 0, ss_essential_spend := 0, ss_flexible_spend := 0, ss_goal_spend := 0\<rparr>"

definition contribute :: "monthly_pay \<Rightarrow> bool \<Rightarrow> sim_state \<Rightarrow> sim_state" where
  "contribute pay working st =
     (if working then
        st\<lparr>ss_retirement := ss_retirement st + mp_employee_retirement pay + mp_employer_retirement pay,
           ss_hsa := ss_hsa st + (mp_employee_hsa pay + mp_employer_hsa pay),
           ss_accessible := ss_accessible st + mp_stock_plan pay\<rparr>
      else st)"

text \<open>A month at work: pay in, spend, sweep the cash above the floor into investments, fund goals.\<close>

definition sweep_cash :: "projection_profile \<Rightarrow> sim_state \<Rightarrow> sim_state" where
  "sweep_cash p st =
     (if lp_cash_floor p < ss_cash st
      then st\<lparr>ss_accessible := ss_accessible st + ss_cash st - lp_cash_floor p, ss_cash := lp_cash_floor p\<rparr>
      else st)"

definition work_spending ::
  "sim_options \<Rightarrow> projection_profile \<Rightarrow> monthly_pay \<Rightarrow> date \<Rightarrow> int \<Rightarrow> sim_state \<Rightarrow> sim_state"
where
  "work_spending opts p pay month age st =
     (let outflow = max 0 (lp_current_monthly_outflow p - so_extra_monthly_saving opts) in
      case withdraw_from p age outflow
             (st\<lparr>ss_cash := ss_cash st + mp_net pay + so_additional_monthly_income opts\<rparr>) of
        (remaining, st1) \<Rightarrow>
          let failed = (0 < remaining \<and> counts_toward_result opts month)
          in st1\<lparr>ss_essential_spend := outflow - remaining,
                 ss_required_failed := (ss_required_failed st1 \<or> failed),
                 ss_first_shortfall := or_else (ss_first_shortfall st1) (if failed then Some month else None)\<rparr>)"

definition work_month ::
  "sim_options \<Rightarrow> projection_profile \<Rightarrow> monthly_pay \<Rightarrow> projection_goal list \<Rightarrow> date \<Rightarrow> int \<Rightarrow> sim_state \<Rightarrow> sim_state"
where
  "work_month opts p pay due month age st =
     fund_due_goals opts p month age Flexible due
       (fund_due_goals opts p month age Required due
         (sweep_cash p (work_spending opts p pay month age st)))"

text \<open>A month after work: essentials, required goals, optional spending, flexible goals, in that order.\<close>

definition continuing_cost :: "priority \<Rightarrow> date \<Rightarrow> projection_goal list \<Rightarrow> cents" where
  "continuing_cost prio month enabled =
     money (foldl (\<lambda>acc g. dadd acc (ddiv (dec (lg_annual_cost g)) 12)) 0
       (filter (\<lambda>g. lg_priority g = prio \<and> month_start (lg_target_date g) \<le> month) enabled))"

definition essential_spending ::
  "projection_profile \<Rightarrow> projection_goal list \<Rightarrow> date \<Rightarrow> int \<Rightarrow> sim_state \<Rightarrow> sim_state"
where
  "essential_spending p enabled month age st =
     (let requested = lp_essential_monthly_spend p + continuing_cost Required month enabled in
      case withdraw_from p age requested st of (remaining, st1) \<Rightarrow>
        let failed = (0 < remaining)
        in st1\<lparr>ss_essential_spend := requested - remaining,
               ss_required_failed := (ss_required_failed st1 \<or> failed),
               ss_first_shortfall := or_else (ss_first_shortfall st1) (if failed then Some month else None),
               ss_bridge_failed := (ss_bridge_failed st1
                 \<or> (failed \<and> age < retirement_access_age_months \<and> 0 < ss_retirement st1))\<rparr>)"

definition wanted_flexible :: "sim_options \<Rightarrow> projection_profile \<Rightarrow> cents" where
  "wanted_flexible opts p =
     (case so_flexible_spend_override opts of None \<Rightarrow> lp_flexible_monthly_spend p | Some v \<Rightarrow> v)"

definition flexible_spending ::
  "sim_options \<Rightarrow> projection_profile \<Rightarrow> projection_goal list \<Rightarrow> date \<Rightarrow> int \<Rightarrow> sim_state \<Rightarrow> sim_state"
where
  "flexible_spending opts p enabled month age st =
     (let requested = wanted_flexible opts p + continuing_cost Flexible month enabled in
      case withdraw_from p age requested st of (remaining, st1) \<Rightarrow>
        st1\<lparr>ss_flexible_spend := requested - remaining,
            ss_flexible_failed := (ss_flexible_failed st1 \<or> 0 < remaining)\<rparr>)"

definition retired_month ::
  "sim_options \<Rightarrow> projection_profile \<Rightarrow> projection_goal list \<Rightarrow> projection_goal list \<Rightarrow> date \<Rightarrow> int \<Rightarrow> sim_state \<Rightarrow> sim_state"
where
  "retired_month opts p enabled due month age st =
     fund_due_goals opts p month age Flexible due
       (flexible_spending opts p enabled month age
         (fund_due_goals opts p month age Required due
           (essential_spending p enabled month age st)))"

text \<open>The growth of the month and its record.\<close>

definition grow :: "rat \<Rightarrow> sim_state \<Rightarrow> sim_state" where
  "grow r st = (if r \<noteq> 0 then apply_return r st else st)"

definition record_period ::
  "sim_options \<Rightarrow> projection_profile \<Rightarrow> monthly_pay \<Rightarrow> cents \<Rightarrow> date \<Rightarrow> int \<Rightarrow> bool \<Rightarrow> sim_state \<Rightarrow> sim_state"
where
  "record_period opts p pay debt month age working st =
     (let spendable_retirement = money (dmul (dec (ss_retirement st)) (spendable_rate (lp_retirement_tax_rate_pct p)));
          row = \<lparr>pr_month = month, pr_age_months = age, pr_working = working,
                 pr_gross_income = (if working then mp_gross pay else 0),
                 pr_net_income = (if working then mp_net pay else 0),
                 pr_additional_income = (if working then so_additional_monthly_income opts else 0),
                 pr_employee_retirement = (if working then mp_employee_retirement pay else 0),
                 pr_employer_retirement = (if working then mp_employer_retirement pay else 0),
                 pr_stock_plan = (if working then mp_stock_plan pay else 0),
                 pr_essential_spend = ss_essential_spend st, pr_flexible_spend = ss_flexible_spend st,
                 pr_goal_spend = ss_goal_spend st, pr_cash = ss_cash st, pr_accessible = ss_accessible st,
                 pr_retirement = ss_retirement st, pr_hsa = ss_hsa st, pr_restricted = ss_restricted st,
                 pr_debt = debt, pr_investment_result = ss_investment_result st,
                 pr_total_spendable = ss_cash st + ss_accessible st + spendable_retirement\<rparr>
      in st\<lparr>ss_last_period := Some row,
            ss_periods := (if so_include_periods opts then ss_periods st @ [row] else ss_periods st)\<rparr>)"

text \<open>What does not change over the loop.\<close>

record sim_plan =
  pl_rate :: "rat \<Rightarrow> rat"
  pl_options :: sim_options
  pl_profile :: projection_profile
  pl_enabled :: "projection_goal list"
  pl_pay :: monthly_pay
  pl_debt :: cents
  pl_stop_month :: date

text \<open>The money movements of a month in order: what precedes spending, then spending, then growth.\<close>

definition open_month :: "sim_plan \<Rightarrow> date \<Rightarrow> sim_state \<Rightarrow> sim_state" where
  "open_month pl month st =
     (let working = (month < pl_stop_month pl) in
      contribute (pl_pay pl) working
        (apply_crash (so_path (pl_options pl)) working
          (clear_month (note_stop working (receive_event (pl_options pl) (pl_stop_month pl) month st)))))"

definition spend_month :: "sim_plan \<Rightarrow> date \<Rightarrow> sim_state \<Rightarrow> sim_state" where
  "spend_month pl month st =
     (let age = age_months (lp_birth_date (pl_profile pl)) month;
          due = filter (\<lambda>g. month_start (lg_target_date g) = month) (pl_enabled pl)
      in if month < pl_stop_month pl
         then work_month (pl_options pl) (pl_profile pl) (pl_pay pl) due month age st
         else retired_month (pl_options pl) (pl_profile pl) (pl_enabled pl) due month age st)"

definition close_month :: "sim_plan \<Rightarrow> date \<Rightarrow> sim_state \<Rightarrow> sim_state" where
  "close_month pl month st =
     (let working = (month < pl_stop_month pl) in
      record_period (pl_options pl) (pl_profile pl) (pl_pay pl) (pl_debt pl) month
        (age_months (lp_birth_date (pl_profile pl)) month) working
        (grow (path_monthly_rate (pl_rate pl) (so_path (pl_options pl)) working (ss_months_after_stop st)) st))"

definition simulate_month :: "sim_plan \<Rightarrow> date \<Rightarrow> sim_state \<Rightarrow> sim_state" where
  "simulate_month pl month st = close_month pl month (spend_month pl month (open_month pl month st))"

section \<open>The projection\<close>

text \<open>
  \<open>while month <= end_month\<close>. The test of validity only makes the recursion total on the model's
  triples; both months are first days of months whenever the code runs.
\<close>

function simulate_months :: "sim_plan \<Rightarrow> date \<Rightarrow> date \<Rightarrow> sim_state \<Rightarrow> sim_state" where
  "simulate_months pl end_month month st =
     (if valid_date month \<and> valid_date end_month \<and> month \<le> end_month
      then simulate_months pl end_month (next_month month) (simulate_month pl month st)
      else st)"
  by pat_completeness auto

lemma month_index_mono: "a \<le> b \<Longrightarrow> valid_date a \<Longrightarrow> valid_date b \<Longrightarrow> month_index a \<le> month_index b"
  by (cases a; cases b) (auto simp: month_index_def valid_date_def)

termination simulate_months
  by (relation "measure (\<lambda>(pl, end_month, month, st). nat (month_index end_month - month_index month + 1))")
    (auto dest: month_index_mono)

declare simulate_months.simps [simp del]

datatype plan_status = Works | Works_essentials_only | Shortfall | Insufficient_accessible_bridge

definition plan_status_of :: "sim_state \<Rightarrow> plan_status" where
  "plan_status_of st =
     (if ss_required_failed st then
        if ss_bridge_failed st then Insufficient_accessible_bridge else Shortfall
      else if ss_flexible_failed st then Works_essentials_only else Works)"

record sim_result =
  sr_target_age :: int
  sr_path :: path
  sr_status :: plan_status
  sr_first_shortfall_month :: "date option"
  sr_work_stop_month :: date
  sr_work_stop_assets :: stop_assets
  sr_end_assets :: period
  sr_goal_results :: "(int, bool \<times> cents) dict"
  sr_periods :: "period list"

definition initial_state :: "projection_start \<Rightarrow> projection_goal list \<Rightarrow> sim_state" where
  "initial_state start enabled =
     \<lparr>ss_cash = sp_cash start, ss_accessible = sp_accessible start, ss_retirement = sp_retirement start,
      ss_hsa = sp_hsa start, ss_restricted = sp_restricted start, ss_required_failed = False,
      ss_flexible_failed = False, ss_bridge_failed = False, ss_first_shortfall = None,
      ss_goal_results = fold (\<lambda>g. dict_set (lg_id g) (True, 0)) enabled [],
      ss_months_after_stop = 0, ss_crash_applied = False, ss_work_stop_assets = None,
      ss_last_period = None, ss_periods = [], ss_investment_result = 0, ss_essential_spend = 0,
      ss_flexible_spend = 0, ss_goal_spend = 0\<rparr>"

definition plan_of ::
  "(rat \<Rightarrow> rat) \<Rightarrow> projection_profile \<Rightarrow> projection_goal list \<Rightarrow> projection_start \<Rightarrow> sim_options \<Rightarrow> sim_plan"
where
  "plan_of rate p goals start opts =
     \<lparr>pl_rate = rate, pl_options = opts, pl_profile = p, pl_enabled = filter lg_enabled goals,
      pl_pay = monthly_pay_of (sp_payroll start), pl_debt = sp_debt start,
      pl_stop_month = month_for_age (lp_birth_date p) (so_target_age opts)\<rparr>"

definition final_state ::
  "(rat \<Rightarrow> rat) \<Rightarrow> projection_profile \<Rightarrow> projection_goal list \<Rightarrow> projection_start \<Rightarrow> sim_options \<Rightarrow> sim_state"
where
  "final_state rate p goals start opts =
     simulate_months (plan_of rate p goals start opts) (month_for_age (lp_birth_date p) (lp_end_age p))
       (month_start (so_as_of opts)) (initial_state start (filter lg_enabled goals))"

definition simulate ::
  "(rat \<Rightarrow> rat) \<Rightarrow> projection_profile \<Rightarrow> projection_goal list \<Rightarrow> projection_start \<Rightarrow> sim_options
     \<Rightarrow> (life_error, sim_result) result"
where
  "simulate rate p goals start opts =
     (let st = final_state rate p goals start opts in
      case ss_last_period st of
        None \<Rightarrow> Inl No_periods
      | Some row \<Rightarrow> Inr
          \<lparr>sr_target_age = so_target_age opts, sr_path = so_path opts, sr_status = plan_status_of st,
           sr_first_shortfall_month = ss_first_shortfall st,
           sr_work_stop_month = month_for_age (lp_birth_date p) (so_target_age opts),
           sr_work_stop_assets =
             (case ss_work_stop_assets st of None \<Rightarrow> stop_assets_of st | Some a \<Rightarrow> a),
           sr_end_assets = row, sr_goal_results = ss_goal_results st, sr_periods = ss_periods st\<rparr>)"

section \<open>The reverse solver\<close>

definition works :: "sim_result \<Rightarrow> bool" where
  "works r \<longleftrightarrow> sr_status r = Works"

text \<open>
  \<open>_minimum_change\<close>: doubling until a lever works, at most \<open>max_doublings\<close> times, then at most 40
  halvings. \<open>evaluate\<close> is the projection as a function of the lever, reduced to whether it works.
\<close>

type_synonym lever = "cents \<Rightarrow> (life_error, bool) result"

fun find_high :: "lever \<Rightarrow> nat \<Rightarrow> cents \<Rightarrow> cents \<Rightarrow> (life_error, (cents \<times> cents) option) result" where
  "find_high ev 0 low high = Inr None"
| "find_high ev (Suc n) low high =
     bind_res (ev high) (\<lambda>ok. if ok then Inr (Some (low, high)) else find_high ev n high (high * 2))"

definition midpoint :: "cents \<Rightarrow> cents \<Rightarrow> cents" where
  "midpoint low high = money (ddiv (dec (low + high)) 2)"

fun bisect :: "lever \<Rightarrow> nat \<Rightarrow> cents \<Rightarrow> cents \<Rightarrow> (life_error, cents) result" where
  "bisect ev 0 low high = Inr high"
| "bisect ev (Suc n) low high =
     bind_res (ev (midpoint low high)) (\<lambda>ok.
       let low' = (if ok then low else midpoint low high);
           high' = (if ok then midpoint low high else high)
       in if high' - low' \<le> 1 then Inr high' else bisect ev n low' high')"

definition minimum_change :: "lever \<Rightarrow> cents \<Rightarrow> nat \<Rightarrow> (life_error, cents option) result" where
  "minimum_change ev initial_high max_doublings =
     bind_res (ev 0) (\<lambda>ok.
       if ok then Inr (Some 0)
       else bind_res (find_high ev max_doublings 0 initial_high) (\<lambda>found.
         case found of
           None \<Rightarrow> Inr None
         | Some (low, high) \<Rightarrow> bind_res (bisect ev 40 low high) (\<lambda>v. Inr (Some v))))"

text \<open>The keyword arguments of \<open>_simulate\<close> at their defaults.\<close>

definition default_options :: "int \<Rightarrow> path \<Rightarrow> date \<Rightarrow> sim_options" where
  "default_options target_age path as_of =
     \<lparr>so_target_age = target_age, so_path = path, so_as_of = as_of, so_extra_monthly_saving = 0,
      so_additional_monthly_income = 0, so_liquidity_event = 0, so_liquidity_event_month = None,
      so_flexible_spend_override = None, so_include_periods = True, so_assessment_start_month = None\<rparr>"

definition income_options :: "int \<Rightarrow> path \<Rightarrow> date \<Rightarrow> cents \<Rightarrow> sim_options" where
  "income_options target_age path as_of v =
     (default_options target_age path as_of)\<lparr>so_additional_monthly_income := v, so_include_periods := False\<rparr>"

definition capital_options :: "date \<Rightarrow> int \<Rightarrow> path \<Rightarrow> date \<Rightarrow> cents \<Rightarrow> sim_options" where
  "capital_options stop_month target_age path as_of v =
     (default_options target_age path as_of)\<lparr>so_liquidity_event := v,
        so_liquidity_event_month := Some stop_month, so_assessment_start_month := Some stop_month,
        so_include_periods := False\<rparr>"

definition works_with ::
  "(rat \<Rightarrow> rat) \<Rightarrow> projection_profile \<Rightarrow> projection_goal list \<Rightarrow> projection_start \<Rightarrow> sim_options
     \<Rightarrow> (life_error, bool) result"
where
  "works_with rate p goals start opts =
     bind_res (simulate rate p goals start opts) (\<lambda>r. Inr (works r))"

definition additional_income_needed ::
  "(rat \<Rightarrow> rat) \<Rightarrow> projection_profile \<Rightarrow> projection_goal list \<Rightarrow> projection_start \<Rightarrow> int \<Rightarrow> path \<Rightarrow> date
     \<Rightarrow> (life_error, cents option) result"
where
  "additional_income_needed rate p goals start target_age path as_of =
     minimum_change (\<lambda>v. works_with rate p goals start (income_options target_age path as_of v)) 100000 64"

definition retirement_capital_needed ::
  "(rat \<Rightarrow> rat) \<Rightarrow> projection_profile \<Rightarrow> projection_goal list \<Rightarrow> projection_start \<Rightarrow> int \<Rightarrow> path \<Rightarrow> date
     \<Rightarrow> (life_error, cents option) result"
where
  "retirement_capital_needed rate p goals start target_age path as_of =
     (let stop_month = month_for_age (lp_birth_date p) target_age in
      minimum_change
        (\<lambda>v. works_with rate p goals start (capital_options stop_month target_age path as_of v)) 1000000 64)"

fun first_working_age :: "(int \<Rightarrow> (life_error, bool) result) \<Rightarrow> int list \<Rightarrow> (life_error, int option) result" where
  "first_working_age ev [] = Inr None"
| "first_working_age ev (age # ages) =
     bind_res (ev age) (\<lambda>ok. if ok then Inr (Some age) else first_working_age ev ages)"

definition age_options :: "date \<Rightarrow> int \<Rightarrow> sim_options" where
  "age_options as_of age = (default_options age Middle as_of)\<lparr>so_include_periods := False\<rparr>"

definition earliest_viable_age ::
  "(rat \<Rightarrow> rat) \<Rightarrow> projection_profile \<Rightarrow> projection_goal list \<Rightarrow> projection_start \<Rightarrow> int \<Rightarrow> date
     \<Rightarrow> (life_error, int option) result"
where
  "earliest_viable_age rate p goals start target_age as_of =
     first_working_age (\<lambda>age. works_with rate p goals start (age_options as_of age))
       [target_age..lp_end_age p - 1]"

section \<open>\<open>project_projection_inputs\<close>\<close>

record make_it_happen =
  mi_additional_income :: "cents option"
  mi_capital_needed :: "cents option"
  mi_deadline :: date
  mi_pre_retirement_shortfall :: "date option"

definition make_it_happen_of :: "sim_result \<Rightarrow> cents option \<Rightarrow> cents option \<Rightarrow> make_it_happen" where
  "make_it_happen_of r income capital =
     \<lparr>mi_additional_income = income, mi_capital_needed = capital, mi_deadline = sr_work_stop_month r,
      mi_pre_retirement_shortfall =
        (case sr_first_shortfall_month r of
           None \<Rightarrow> None | Some m \<Rightarrow> if m < sr_work_stop_month r then Some m else None)\<rparr>"

record projection_inputs =
  in_profile :: projection_profile
  in_goals :: "projection_goal list"
  in_start :: projection_start

definition project_path ::
  "(rat \<Rightarrow> rat) \<Rightarrow> projection_inputs \<Rightarrow> date \<Rightarrow> int \<Rightarrow> path \<Rightarrow> (life_error, path \<times> sim_result \<times> make_it_happen) result"
where
  "project_path rate i today age path =
     bind_res (simulate rate (in_profile i) (in_goals i) (in_start i) (default_options age path today)) (\<lambda>r.
     bind_res (additional_income_needed rate (in_profile i) (in_goals i) (in_start i) age path today) (\<lambda>income.
     bind_res (retirement_capital_needed rate (in_profile i) (in_goals i) (in_start i) age path today) (\<lambda>capital.
       Inr (path, r, make_it_happen_of r income capital))))"

record goal_impact =
  gi_goal_id :: int
  gi_required_monthly_saving :: cents
  gi_cash_funded :: bool
  gi_end_asset_change :: cents
  gi_first_shortfall_with :: "date option"
  gi_first_shortfall_without :: "date option"
  gi_creates_bridge_failure :: bool
  gi_delay_years :: "int option"

definition months_until :: "date \<Rightarrow> projection_goal \<Rightarrow> int" where
  "months_until today g =
     max 1 ((d_year (lg_target_date g) - d_year today) * 12 + d_month (lg_target_date g) - d_month today)"

definition required_monthly_saving :: "date \<Rightarrow> projection_goal \<Rightarrow> cents" where
  "required_monthly_saving today g =
     money (ddiv (dec (max 0 (lg_target_amount g - lg_reserved_amount g))) (of_int (months_until today g)))"

definition delay_years :: "int option \<Rightarrow> int option \<Rightarrow> int option" where
  "delay_years with_goal without = (case (with_goal, without) of (Some a, Some b) \<Rightarrow> Some (max 0 (a - b)) | _ \<Rightarrow> None)"

definition goal_impact_of ::
  "(rat \<Rightarrow> rat) \<Rightarrow> projection_inputs \<Rightarrow> date \<Rightarrow> int \<Rightarrow> sim_result \<Rightarrow> int option \<Rightarrow> projection_goal
     \<Rightarrow> (life_error, goal_impact) result"
where
  "goal_impact_of rate i today age with_goals with_viable g =
     (let others = filter (\<lambda>row. lg_id row \<noteq> lg_id g) (in_goals i) in
      bind_res (simulate rate (in_profile i) others (in_start i) (age_options today age)) (\<lambda>without.
      bind_res (earliest_viable_age rate (in_profile i) others (in_start i) age today) (\<lambda>without_viable.
        Inr \<lparr>gi_goal_id = lg_id g, gi_required_monthly_saving = required_monthly_saving today g,
             gi_cash_funded = fst (dict_get (sr_goal_results with_goals) (lg_id g) (False, 0)),
             gi_end_asset_change =
               pr_total_spendable (sr_end_assets with_goals) - pr_total_spendable (sr_end_assets without),
             gi_first_shortfall_with = sr_first_shortfall_month with_goals,
             gi_first_shortfall_without = sr_first_shortfall_month without,
             gi_creates_bridge_failure =
               (sr_status with_goals = Insufficient_accessible_bridge
                \<and> sr_status without \<noteq> Insufficient_accessible_bridge),
             gi_delay_years = delay_years with_viable without_viable\<rparr>)))"

type_synonym age_projection = "int \<times> (path \<times> sim_result \<times> make_it_happen) list"

definition project_age :: "(rat \<Rightarrow> rat) \<Rightarrow> projection_inputs \<Rightarrow> date \<Rightarrow> int \<Rightarrow> (life_error, age_projection) result" where
  "project_age rate i today age =
     bind_res (map_res (project_path rate i today age) paths) (\<lambda>rows. Inr (age, rows))"

definition project_impacts ::
  "(rat \<Rightarrow> rat) \<Rightarrow> projection_inputs \<Rightarrow> date \<Rightarrow> age_projection \<Rightarrow> (life_error, int \<times> goal_impact list) result"
where
  "project_impacts rate i today ap =
     (case map_of (snd ap) Middle of
        None \<Rightarrow> Inl No_periods
      | Some (r, _) \<Rightarrow>
          bind_res (earliest_viable_age rate (in_profile i) (in_goals i) (in_start i) (fst ap) today) (\<lambda>viable.
          bind_res (map_res (goal_impact_of rate i today (fst ap) r viable) (filter lg_enabled (in_goals i))) (\<lambda>rows.
            Inr (fst ap, rows))))"

datatype projection_warning = Outflow_is_zero | Essentials_are_zero | Cash_below_floor | Planning_model_only

definition projection_warnings :: "projection_inputs \<Rightarrow> projection_warning list" where
  "projection_warnings i =
     (if lp_current_monthly_outflow (in_profile i) = 0 then [Outflow_is_zero] else [])
     @ (if lp_essential_monthly_spend (in_profile i) = 0 then [Essentials_are_zero] else [])
     @ (if sp_cash (in_start i) < lp_cash_floor (in_profile i) then [Cash_below_floor] else [])
     @ [Planning_model_only]"

record projection =
  pn_as_of :: date
  pn_results :: "age_projection list"
  pn_goal_impacts :: "(int \<times> goal_impact list) list"
  pn_warnings :: "projection_warning list"

definition requested_ages :: "int list \<Rightarrow> projection_inputs \<Rightarrow> int list" where
  "requested_ages target_ages i = (if target_ages = [] then lp_target_ages (in_profile i) else target_ages)"

definition project_projection_inputs ::
  "(rat \<Rightarrow> rat) \<Rightarrow> projection_inputs \<Rightarrow> int list \<Rightarrow> date option \<Rightarrow> (life_error, projection) result"
where
  "project_projection_inputs rate i target_ages as_of =
     (let today = (case as_of of None \<Rightarrow> sp_as_of (in_start i) | Some d \<Rightarrow> d);
          ages = requested_ages target_ages i
      in if \<not> ages_in_range (age_months (lp_birth_date (in_profile i)) today div 12) (lp_end_age (in_profile i)) ages
         then Inl Target_age_out_of_range
         else bind_res (map_res (project_age rate i today) ages) (\<lambda>results.
              bind_res (map_res (project_impacts rate i today) results) (\<lambda>impacts.
                Inr \<lparr>pn_as_of = today, pn_results = results, pn_goal_impacts = fold (\<lambda>(age, rows). dict_set age rows) impacts [],
                     pn_warnings = projection_warnings i\<rparr>)))"

end
