(* ===== verification/Life_Facts.thy ===== *)
theory Life_Facts
  imports Life_Plan
begin

text \<open>
  Facts about the projection: what a withdrawal takes from which balance, and that net
  withdrawals from retirement accounts meet a request to the cent.
\<close>

section \<open>Withdrawals\<close>

lemma ctx_near: "\<bar>ctx x - x\<bar> \<le> \<bar>x\<bar> / 10 ^ 27"
proof (cases "x = 0")
  case False
  define s where "s = (10 :: rat) powi (27 - adjusted x)"
  have s: "0 < s" by (simp add: s_def)
  have "\<bar>of_int (half_even (x * s)) - x * s\<bar> \<le> 1 / 2" by (rule half_even.rnd_near)
  moreover have "\<bar>of_int (half_even (x * s)) / s - x\<bar> * s = \<bar>(of_int (half_even (x * s)) / s - x) * s\<bar>"
    using s by (simp add: abs_mult)
  moreover have "(of_int (half_even (x * s)) / s - x) * s = of_int (half_even (x * s)) - x * s"
    using s by (simp add: left_diff_distrib)
  ultimately have "\<bar>of_int (half_even (x * s)) / s - x\<bar> * s \<le> 1 / 2" by simp
  then have "\<bar>ctx x - x\<bar> \<le> 1 / 2 / s"
    using s False by (simp add: ctx_def Let_def s_def [symmetric] pos_le_divide_eq)
  also have "1 / 2 / s \<le> 1 / s" using s by (intro divide_right_mono) auto
  also have "1 / s = 10 powi adjusted x / 10 ^ 27"
    by (simp add: s_def power_int_diff)
  also have "\<dots> \<le> \<bar>x\<bar> / 10 ^ 27"
    using adjusted_bounds(1) [OF False] by (simp add: divide_right_mono)
  finally show ?thesis .
qed simp

text \<open>A stored tax rate: four places, from 0 to 60 percent.\<close>

definition stored_rate :: "rat \<Rightarrow> bool" where
  "stored_rate t \<longleftrightarrow> (\<exists>n. t = of_int n / 10000 \<and> 0 \<le> n \<and> n \<le> 600000)"

lemma spendable_rate_exact:
  assumes "stored_rate t"
  obtains k where "spendable_rate t = of_int k / 10 ^ 6" and "400000 \<le> k" and "k \<le> 10 ^ 6"
proof -
  obtain n where t: "t = of_int n / 10000" and n: "0 \<le> n" "n \<le> 600000"
    using assms by (auto simp: stored_rate_def)
  have "ddiv t 100 = ctx (of_int n / 10 ^ 6)" by (simp add: ddiv_def t)
  also have "\<dots> = of_int n / 10 ^ 6" using n by (intro ctx_exact) simp
  finally have d: "ddiv t 100 = of_int n / 10 ^ 6" .
  have "spendable_rate t = ctx (of_int (10 ^ 6 - n) / 10 ^ 6)"
    unfolding spendable_rate_def dsub_def d by (simp add: diff_divide_distrib)
  also have "\<dots> = of_int (10 ^ 6 - n) / 10 ^ 6" using n by (intro ctx_exact) simp
  finally show ?thesis using that [of "10 ^ 6 - n"] n by simp
qed

lemma half_up_unique:
  assumes "\<bar>x - of_int z\<bar> < 1 / 2"
  shows "half_up x = z"
proof -
  have "\<bar>of_int (half_up x) - x\<bar> \<le> 1 / 2" by (rule half_up.rnd_near)
  with assms have "\<bar>of_int (half_up x) - of_int z :: rat\<bar> < 1" by linarith
  then have "\<bar>of_int (half_up x - z) :: rat\<bar> < 1" by simp
  then show ?thesis by linarith
qed

text \<open>Taking the grossed-up amount from a taxed balance nets exactly the request.\<close>

lemma net_of_gross:
  assumes t: "stored_rate t" and q: "0 < q" "q < 10 ^ 18"
  shows "money (dmul (dec (money (ddiv (dec q) (spendable_rate t)))) (spendable_rate t)) = q"
proof -
  obtain k where r: "spendable_rate t = of_int k / 10 ^ 6" and k: "400000 \<le> k" "k \<le> 10 ^ 6"
    using t by (rule spendable_rate_exact)
  let ?r = "of_int k / 10 ^ 6 :: rat"
  define x where "x = dec q / ?r"
  define g where "g = money (ddiv (dec q) ?r)"
  have r0: "0 < ?r" "?r \<le> 1" "2 / 5 \<le> ?r" using k by (simp_all add: field_simps)
  have x0: "0 \<le> x" using q k by (simp add: x_def)
  have xr: "x * ?r = dec q" using r0(1) by (simp add: x_def)
  have qb: "dec q \<le> 10 ^ 16" using q(2) by (simp add: dec_def)
  have xb: "x \<le> 10 ^ 17"
  proof -
    have "x * (2 / 5) \<le> x * ?r" using x0 r0(3) by (intro mult_left_mono) auto
    with xr qb show ?thesis by simp
  qed
  have cx: "\<bar>ctx x - x\<bar> \<le> 1 / 10000000000"
    using ctx_near [of x] x0 xb by simp
  have g: "g = half_up (ctx x * 100)" by (simp add: g_def ddiv_def x_def money_def)
  have near: "\<bar>of_int g - ctx x * 100\<bar> \<le> 1 / 2" unfolding g by (rule half_up.rnd_near)
  have gx: "\<bar>of_int g - x * 100\<bar> \<le> 1 / 2 + 1 / 100000000"
    using near cx unfolding abs_le_iff by linarith
  have gb: "\<bar>g\<bar> < 10 ^ 20"
  proof -
    have "\<bar>of_int g\<bar> \<le> x * 100 + 1" using gx x0 unfolding abs_le_iff by linarith
    also have "\<dots> < 10 ^ 20" using xb by simp
    finally have "of_int \<bar>g\<bar> < (of_int (10 ^ 20) :: rat)" by simp
    then show ?thesis by (simp only: of_int_less_iff)
  qed
  have "\<bar>g * k\<bar> < 10 ^ 28"
  proof -
    have "\<bar>g * k\<bar> = \<bar>g\<bar> * k" using k by (simp add: abs_mult)
    also have "\<dots> \<le> 10 ^ 20 * 10 ^ 6" using gb k by (intro mult_mono) auto
    finally show ?thesis by simp
  qed
  then have "dmul (dec g) ?r = of_int (g * k) / 10 ^ 8"
    using ctx_exact [of "g * k" 8] by (simp add: dmul_def dec_def)
  then have d: "dmul (dec g) ?r = of_int (g * k) / 10 ^ 8" .
  have m: "money (dmul (dec g) ?r) = half_up (of_int g * ?r)"
    unfolding money_def d by (rule arg_cong [of _ _ half_up]) simp
  have "half_up (of_int g * ?r) = q"
  proof (cases "k = 10 ^ 6")
    case True
    then have "x = dec q" by (simp add: x_def)
    then have "ctx x = dec q" using q by (simp add: ctx_dec)
    then have "g = q" by (simp add: g dec_def half_up.rnd_int)
    then show ?thesis using True by (simp add: half_up.rnd_int)
  next
    case False
    with k have k1: "k \<le> 999999" by simp
    have e: "of_int g * ?r - of_int q = (of_int g - x * 100) * ?r"
      using xr by (simp add: left_diff_distrib dec_def)
    have "\<bar>of_int g * ?r - of_int q\<bar> = \<bar>of_int g - x * 100\<bar> * ?r"
      unfolding e by (simp only: abs_mult abs_of_pos [OF r0(1)])
    also have "\<dots> \<le> (1 / 2 + 1 / 100000000) * (999999 / 10 ^ 6)"
      using gx k1 k by (intro mult_mono) (auto simp: field_simps)
    also have "\<dots> < 1 / 2" by simp
    finally show ?thesis by (rule half_up_unique)
  qed
  with m show ?thesis by (simp add: r g_def)
qed

lemma take_accessible_spec:
  assumes "take_accessible q c a f = (rem, c', a')" "0 \<le> q" "0 \<le> a"
  shows "rem = max 0 (q - max 0 (c - f) - a)" and "c' = c - min (max 0 (c - f)) q"
    and "a' = a - min a (q - min (max 0 (c - f)) q)"
  using assms by (auto simp: take_accessible_def Let_def min_def max_def)

lemma gross_bound:
  assumes "stored_rate t" "0 < q" "q < 10 ^ 18"
  shows "money (ddiv (dec q) (spendable_rate t)) \<le> 10 ^ 19"
proof -
  obtain k where r: "spendable_rate t = of_int k / 10 ^ 6" and k: "400000 \<le> k" "k \<le> 10 ^ 6"
    using assms(1) by (rule spendable_rate_exact)
  have "dec q \<le> dec (10 ^ 19) * (2 / 5)" using assms(3) by (simp add: dec_def)
  also have "\<dots> \<le> dec (10 ^ 19) * spendable_rate t"
    using k by (intro mult_left_mono) (simp_all add: r)
  finally have "dec q / spendable_rate t \<le> dec (10 ^ 19)"
    using k by (simp add: r field_simps)
  then have "ddiv (dec q) (spendable_rate t) \<le> ctx (dec (10 ^ 19))"
    by (simp only: ddiv_def ctx_mono)
  also have "\<dots> = dec (10 ^ 19)" by (rule ctx_dec) simp
  finally show ?thesis by (rule money_le)
qed

lemma take_retirement_spec:
  assumes "take_retirement q b t = (rem, b')" "0 < q" "q < 10 ^ 18" "0 \<le> b" "stored_rate t"
  shows "0 \<le> rem \<and> rem \<le> q \<and> 0 \<le> b' \<and> b' \<le> b \<and> (0 < rem \<longrightarrow> b' = 0) \<and> q - rem \<le> b - b'"
proof -
  obtain k where r: "spendable_rate t = of_int k / 10 ^ 6" and k: "400000 \<le> k" "k \<le> 10 ^ 6"
    using assms(5) by (rule spendable_rate_exact)
  define g where "g = money (ddiv (dec q) (spendable_rate t))"
  have r0: "0 < spendable_rate t" using k by (simp add: r)
  have g0: "0 \<le> g" using assms(2) r0 by (simp add: g_def ddiv_def money_nonneg ctx_nonneg)
  have res: "rem = max 0 (q - money (dmul (dec (min b g)) (spendable_rate t)))" "b' = b - min b g"
    using assms(1,2) r0 by (auto simp: take_retirement_def Let_def g_def)
  have m0: "0 \<le> money (dmul (dec (min b g)) (spendable_rate t))"
    using r0 g0 assms(4) by (simp add: dmul_def money_nonneg ctx_nonneg)
  have "rem = 0" if "g \<le> b"
    using that net_of_gross [OF assms(5,2,3)] res(1) by (simp add: g_def min_absorb2)
  then have "0 < rem \<longrightarrow> b' = 0" using res(2) by force
  moreover have "money (dmul (dec (min b g)) (spendable_rate t)) \<le> min b g"
  proof (rule money_le)
    have "dec (min b g) * spendable_rate t \<le> dec (min b g)"
      using k g0 assms(4) by (intro mult_left_le) (simp_all add: r)
    then have "dmul (dec (min b g)) (spendable_rate t) \<le> ctx (dec (min b g))"
      by (simp add: dmul_def ctx_mono)
    also have "\<dots> = dec (min b g)"
      using gross_bound [OF assms(5,2,3)] g0 assms(4) by (intro ctx_dec) (simp add: g_def)
    finally show "dmul (dec (min b g)) (spendable_rate t) \<le> dec (min b g)" .
  qed
  ultimately show ?thesis using m0 g0 res assms(2,4) by auto
qed

text \<open>More to take from and less to pay never leaves more unpaid or less behind.\<close>

lemma take_retirement_mono:
  assumes "take_retirement q b t = (rem, b')" "take_retirement q2 b2 t = (rem2, b2')"
    and "0 < q2" "q2 \<le> q" "q < 10 ^ 18" "0 \<le> b" "b \<le> b2" "stored_rate t"
  shows "rem2 \<le> rem \<and> b' \<le> b2'"
proof -
  obtain k where r: "spendable_rate t = of_int k / 10 ^ 6" and k: "400000 \<le> k" "k \<le> 10 ^ 6"
    using assms(8) by (rule spendable_rate_exact)
  have r0: "0 < spendable_rate t" using k by (simp add: r)
  define gross where "gross v = money (ddiv (dec v) (spendable_rate t))" for v
  define net where "net v = money (dmul (dec v) (spendable_rate t))" for v
  have gross: "gross q2 \<le> gross q"
    using assms(4) r0 by (simp add: gross_def ddiv_def money_mono ctx_mono divide_right_mono)
  have net: "net u \<le> net v" if "u \<le> v" for u v
    using that r0 by (simp add: net_def dmul_def money_mono ctx_mono mult_right_mono)
  have res: "rem = max 0 (q - net (min b (gross q)))" "b' = b - min b (gross q)"
      "rem2 = max 0 (q2 - net (min b2 (gross q2)))" "b2' = b2 - min b2 (gross q2)"
    using assms(1-4) r0 by (auto simp: take_retirement_def Let_def gross_def net_def)
  have spec2: "0 < rem2 \<longrightarrow> b2' = 0" and b2': "0 \<le> b2'"
    using take_retirement_spec [OF assms(2,3) _ _ assms(8)] assms(4-7) by auto
  have "rem2 \<le> rem"
  proof (cases "0 < rem2")
    case True
    with spec2 res(4) have low: "b2 \<le> gross q2" by simp
    with assms(7) gross have "min b (gross q) = b" "min b2 (gross q2) = b2" by auto
    with net [OF assms(7)] assms(4) res show ?thesis by simp
  next
    case False
    then show ?thesis using res(1) by simp
  qed
  moreover have "b' \<le> b2'" using res gross assms(7) by (auto simp: min_def)
  ultimately show ?thesis ..
qed

lemma take_accessible_mono:
  assumes "take_accessible q c a f = (rem, c', a')" "take_accessible q2 c2 a2 f = (rem2, c2', a2')"
    and "0 \<le> q2" "q2 \<le> q" "c \<le> c2" "0 \<le> a" "a \<le> a2"
  shows "rem2 \<le> rem \<and> c' \<le> c2' \<and> a' \<le> a2'"
proof -
  note A = take_accessible_spec [OF assms(1) order.trans [OF assms(3,4)] assms(6)]
  note B = take_accessible_spec [OF assms(2,3) order.trans [OF assms(6,7)]]
  show ?thesis
    using assms(3-7) unfolding A B by (simp add: min_def max_def)
qed

lemma withdraw_mono:
  assumes "withdraw q c a b f age t = (rem, c', a', b')"
    and "withdraw q2 c2 a2 b2 f age t = (rem2, c2', a2', b2')"
    and "0 \<le> q2" "q2 \<le> q" "q < 10 ^ 18" "c \<le> c2" "0 \<le> a" "a \<le> a2" "0 \<le> b" "b \<le> b2" "stored_rate t"
  shows "rem2 \<le> rem \<and> c' \<le> c2' \<and> a' \<le> a2' \<and> b' \<le> b2'"
proof -
  obtain u uc ua where A: "take_accessible q c a f = (u, uc, ua)" by (cases "take_accessible q c a f") auto
  obtain v vc va where B: "take_accessible q2 c2 a2 f = (v, vc, va)" by (cases "take_accessible q2 c2 a2 f") auto
  obtain ur ub where ub: "take_retirement u b t = (ur, ub)" by fastforce
  obtain vr vb where vb: "take_retirement v b2 t = (vr, vb)" by fastforce
  have mono: "v \<le> u" "uc \<le> vc" "ua \<le> va"
    using take_accessible_mono [OF A B assms(3,4,6-8)] by auto
  have u: "u \<le> q" "0 \<le> v"
    using take_accessible_spec(1) [OF A] take_accessible_spec(1) [OF B] assms(3,4,7,8) by auto
  have ret: "vr \<le> ur \<and> ub \<le> vb" if "0 < v"
    using take_retirement_mono [OF ub vb that mono(1)] u assms(5,9-11) by simp
  have spec: "0 \<le> ur \<and> ub \<le> b" if "0 < u"
    using take_retirement_spec [OF ub that] u assms(5,9,11) by simp
  show ?thesis
    using assms(1,2) mono ret spec u assms(10)
    by (auto simp: withdraw_def A B ub vb split: if_splits)
qed

lemma withdraw_facts:
  assumes "withdraw requested cash accessible retirement cash_floor age t = (remaining, cash', accessible', retirement')"
    and "0 \<le> requested" "requested < 10 ^ 18" "0 \<le> accessible" "0 \<le> retirement" "stored_rate t"
  shows "0 \<le> remaining \<and> remaining \<le> requested
    \<and> min cash cash_floor \<le> cash' \<and> cash' \<le> cash
    \<and> 0 \<le> accessible' \<and> accessible' \<le> accessible \<and> 0 \<le> retirement' \<and> retirement' \<le> retirement
    \<and> (age < retirement_access_age_months \<longrightarrow> retirement' = retirement
         \<and> requested = remaining + (cash - cash') + (accessible - accessible'))
    \<and> (retirement' < retirement \<or> 0 < remaining \<longrightarrow> cash' \<le> cash_floor \<and> accessible' = 0)
    \<and> (0 < remaining \<and> retirement_access_age_months \<le> age \<longrightarrow> retirement' = 0)
    \<and> requested - remaining \<le> (cash - cash') + (accessible - accessible') + (retirement - retirement')"
proof -
  obtain u uc ua where A: "take_accessible requested cash accessible cash_floor = (u, uc, ua)"
    by (cases "take_accessible requested cash accessible cash_floor") auto
  obtain ur ub where ub: "take_retirement u retirement t = (ur, ub)" by fastforce
  note acc = take_accessible_spec [OF A assms(2,4)]
  have u: "0 \<le> u" "u \<le> requested" "u = requested - (cash - uc) - (accessible - ua)"
      "min cash cash_floor \<le> uc" "uc \<le> cash" "0 \<le> ua" "ua \<le> accessible"
      "0 < u \<Longrightarrow> uc \<le> cash_floor \<and> ua = 0"
    using assms(2,4) unfolding acc by (auto simp: min_def max_def split: if_splits)
  have ret: "0 \<le> ur \<and> ur \<le> u \<and> 0 \<le> ub \<and> ub \<le> retirement \<and> (0 < ur \<longrightarrow> ub = 0) \<and> u - ur \<le> retirement - ub" if "0 < u"
    using take_retirement_spec [OF ub that _ assms(5,6)] u(2) assms(3) by simp
  show ?thesis
  proof (cases "0 < u \<and> retirement_access_age_months \<le> age")
    case True
    with assms(1) have "remaining = ur" "cash' = uc" "accessible' = ua" "retirement' = ub"
      by (auto simp: withdraw_def A ub)
    with True u ret show ?thesis by auto
  next
    case False
    with assms(1) have "remaining = u" "cash' = uc" "accessible' = ua" "retirement' = retirement"
      by (auto simp: withdraw_def A split: if_splits)
    with False u assms(5) show ?thesis by auto
  qed
qed

text \<open>
  A withdrawal pays from cash above the floor, then from accessible investments, and from
  retirement accounts only after 59 and a half and only for what the others leave. It never takes
  more than a balance holds and leaves no more unpaid than was asked for; before that age every cent
  of the request is either unpaid or taken from the two accessible balances, and something stays
  unpaid only when every balance it may use is spent.
\<close>

theorem withdraw_exact:
  assumes "withdraw requested cash accessible retirement cash_floor age t = (remaining, cash', accessible', retirement')"
    and "0 \<le> requested" "requested < 10 ^ 18" "0 \<le> accessible" "0 \<le> retirement" "stored_rate t"
  shows "0 \<le> remaining \<and> remaining \<le> requested
    \<and> min cash cash_floor \<le> cash' \<and> cash' \<le> cash
    \<and> 0 \<le> accessible' \<and> accessible' \<le> accessible \<and> 0 \<le> retirement' \<and> retirement' \<le> retirement
    \<and> (age < retirement_access_age_months \<longrightarrow> retirement' = retirement
         \<and> requested = remaining + (cash - cash') + (accessible - accessible'))
    \<and> (retirement' < retirement \<or> 0 < remaining \<longrightarrow> cash' \<le> cash_floor \<and> accessible' = 0)
    \<and> (0 < remaining \<and> retirement_access_age_months \<le> age \<longrightarrow> retirement' = 0)"
  using withdraw_facts [OF assms] by blast

text \<open>
  One thousand dollars are asked for at 60: 300 come from cash above a floor of 200, 200 from
  accessible investments, and 500 net of 20 percent tax from the retirement account.
\<close>

theorem withdraw_exact_witness:
  "withdraw 100000 50000 20000 100000 20000 720 20 = (0, 20000, 0, 37500)
   \<and> (37500 :: int) < 100000 \<and> (20000 :: int) \<le> 20000"
proof -
  have run: "withdraw 100000 50000 20000 100000 20000 720 20 = (0, 20000, 0, 37500)" by code_simp
  have "stored_rate 20" unfolding stored_rate_def by (rule exI [of _ 200000]) simp
  from withdraw_exact [OF run _ _ _ _ this] run show ?thesis by simp
qed

end
