(* ===== verification/Life_Simulation.thy ===== *)
theory Life_Simulation
  imports Life_Facts
begin

text \<open>
  Facts about whole months and whole projections: balances stay non-negative, no money appears
  or disappears before the retirement age, the loop records one period per month, and what a
  projection's status says about every period.
\<close>

section \<open>What the facts assume of a plan\<close>

text \<open>
  Stored tax rate, non-negative amounts below \<open>10 ^ 18\<close> cents, and a \<open>rate\<close> that maps the three
  annual percentages to non-negative monthly rates.
\<close>

definition annual_costs :: "projection_goal list \<Rightarrow> cents" where
  "annual_costs gs = sum_list (map lg_annual_cost gs)"

definition goal_ok :: "projection_goal \<Rightarrow> bool" where
  "goal_ok g \<longleftrightarrow> 0 \<le> lg_target_amount g \<and> lg_target_amount g < 10 ^ 18 \<and> 0 \<le> lg_annual_cost g"

definition pay_ok :: "monthly_pay \<Rightarrow> bool" where
  "pay_ok m \<longleftrightarrow> 0 \<le> mp_net m \<and> 0 \<le> mp_employee_retirement m \<and> 0 \<le> mp_employer_retirement m
     \<and> 0 \<le> mp_employee_hsa m \<and> 0 \<le> mp_employer_hsa m \<and> 0 \<le> mp_stock_plan m"

definition levers_ok :: "sim_options \<Rightarrow> bool" where
  "levers_ok opts \<longleftrightarrow>
     0 \<le> so_extra_monthly_saving opts \<and> 0 \<le> so_additional_monthly_income opts \<and> 0 \<le> so_liquidity_event opts"

definition rate_ok :: "(rat \<Rightarrow> rat) \<Rightarrow> bool" where
  "rate_ok rate \<longleftrightarrow> 0 \<le> rate 2 \<and> 0 \<le> rate 3 \<and> 0 \<le> rate 4"

definition plan_ok :: "sim_plan \<Rightarrow> bool" where
  "plan_ok pl \<longleftrightarrow>
     stored_rate (lp_retirement_tax_rate_pct (pl_profile pl))
     \<and> 0 \<le> lp_cash_floor (pl_profile pl) \<and> 0 \<le> lp_essential_monthly_spend (pl_profile pl)
     \<and> 0 \<le> wanted_flexible (pl_options pl) (pl_profile pl)
     \<and> lp_current_monthly_outflow (pl_profile pl) < 10 ^ 18
     \<and> lp_essential_monthly_spend (pl_profile pl) + wanted_flexible (pl_options pl) (pl_profile pl)
         + annual_costs (pl_enabled pl) < 10 ^ 18
     \<and> list_all goal_ok (pl_enabled pl) \<and> pay_ok (pl_pay pl) \<and> levers_ok (pl_options pl) \<and> rate_ok (pl_rate pl)"

lemma annual_costs_filter: "list_all goal_ok gs \<Longrightarrow> annual_costs (filter P gs) \<le> annual_costs gs"
  by (induction gs) (auto simp: annual_costs_def goal_ok_def)

lemma annual_costs_nonneg: "list_all goal_ok gs \<Longrightarrow> 0 \<le> annual_costs gs"
  by (induction gs) (auto simp: annual_costs_def goal_ok_def)

lemma twelfth_le:
  assumes "0 \<le> a" "a < 10 ^ 18"
  shows "ddiv (dec a) 12 \<le> dec a" and "0 \<le> ddiv (dec a) 12"
proof -
  have "ddiv (dec a) 12 \<le> ctx (dec a)" using assms by (simp add: ddiv_def ctx_mono dec_def)
  then show "ddiv (dec a) 12 \<le> dec a" using assms by (simp add: ctx_dec)
  show "0 \<le> ddiv (dec a) 12" using assms by (simp add: ddiv_def ctx_nonneg)
qed

lemma sum_of_twelfths:
  assumes "list_all goal_ok gs" "0 \<le> acc" "acc \<le> dec c" "0 \<le> c" "c + annual_costs gs < 10 ^ 18"
  shows "0 \<le> foldl (\<lambda>acc g. dadd acc (ddiv (dec (lg_annual_cost g)) 12)) acc gs
    \<and> foldl (\<lambda>acc g. dadd acc (ddiv (dec (lg_annual_cost g)) 12)) acc gs \<le> dec (c + annual_costs gs)"
  using assms
proof (induction gs arbitrary: acc c)
  case Nil
  then show ?case by (simp add: annual_costs_def)
next
  case (Cons g gs)
  then have g: "0 \<le> lg_annual_cost g" and gs: "list_all goal_ok gs" by (auto simp: goal_ok_def [of g])
  then have nn: "0 \<le> annual_costs gs" by (simp add: annual_costs_nonneg)
  have sum: "annual_costs (g # gs) = lg_annual_cost g + annual_costs gs" by (simp add: annual_costs_def)
  have b: "lg_annual_cost g < 10 ^ 18" "c + lg_annual_cost g < 10 ^ 18" "0 \<le> c + lg_annual_cost g"
    using Cons.prems(4,5) g nn sum by auto
  let ?a = "dadd acc (ddiv (dec (lg_annual_cost g)) 12)"
  have "acc + ddiv (dec (lg_annual_cost g)) 12 \<le> dec (c + lg_annual_cost g)"
    using twelfth_le(1) [OF g b(1)] Cons.prems(3) by (simp add: dec_simps)
  then have "?a \<le> ctx (dec (c + lg_annual_cost g))" by (simp add: dadd_def ctx_mono)
  then have "?a \<le> dec (c + lg_annual_cost g)" using b by (simp add: ctx_dec)
  moreover have "0 \<le> ?a" using twelfth_le(2) [OF g b(1)] Cons.prems(2) by (simp add: dadd_def ctx_nonneg)
  ultimately show ?case
    using Cons.IH [OF gs, of ?a "c + lg_annual_cost g"] b(3) Cons.prems(5) sum by (simp add: add.assoc)
qed

lemma continuing_cost_bounds:
  assumes "list_all goal_ok gs" "annual_costs gs < 10 ^ 18"
  shows "0 \<le> continuing_cost prio month gs" and "continuing_cost prio month gs \<le> annual_costs gs"
proof -
  let ?due = "filter (\<lambda>g. lg_priority g = prio \<and> month_start (lg_target_date g) \<le> month) gs"
  have due: "list_all goal_ok ?due" "annual_costs ?due \<le> annual_costs gs"
    using assms(1) annual_costs_filter by (auto simp: list_all_iff)
  have "0 \<le> foldl (\<lambda>acc g. dadd acc (ddiv (dec (lg_annual_cost g)) 12)) 0 ?due
    \<and> foldl (\<lambda>acc g. dadd acc (ddiv (dec (lg_annual_cost g)) 12)) 0 ?due \<le> dec (0 + annual_costs ?due)"
    using due assms by (intro sum_of_twelfths) (auto simp: dec_def)
  then have "0 \<le> continuing_cost prio month gs \<and> continuing_cost prio month gs \<le> annual_costs ?due"
    unfolding continuing_cost_def by (auto intro: money_nonneg money_le)
  with due show "0 \<le> continuing_cost prio month gs" "continuing_cost prio month gs \<le> annual_costs gs"
    by auto
qed

section \<open>Balances and books\<close>

definition solvent :: "sim_state \<Rightarrow> bool" where
  "solvent st \<longleftrightarrow> 0 \<le> ss_cash st \<and> 0 \<le> ss_accessible st \<and> 0 \<le> ss_retirement st \<and> 0 \<le> ss_hsa st \<and> 0 \<le> ss_restricted st"

definition wealth :: "sim_state \<Rightarrow> cents" where
  "wealth st = ss_cash st + ss_accessible st + ss_retirement st + ss_hsa st + ss_restricted st"

definition spent :: "sim_state \<Rightarrow> cents" where
  "spent st = ss_essential_spend st + ss_flexible_spend st + ss_goal_spend st"

definition books :: "sim_state \<Rightarrow> cents" where
  "books st = wealth st + spent st - ss_investment_result st"

text \<open>What every spending step keeps: balances, and the books up to tax, exactly before 59 and a half.\<close>

definition pays_from :: "int \<Rightarrow> sim_state \<Rightarrow> sim_state \<Rightarrow> bool" where
  "pays_from age st st' \<longleftrightarrow>
     (solvent st \<longrightarrow> solvent st') \<and> ss_investment_result st' = ss_investment_result st
     \<and> ss_months_after_stop st' = ss_months_after_stop st
     \<and> (solvent st \<longrightarrow> books st' \<le> books st \<and> (age < retirement_access_age_months \<longrightarrow> books st' = books st))"

lemma pays_from_refl: "pays_from age st st"
  by (simp add: pays_from_def)

lemma pays_from_trans: "pays_from age a b \<Longrightarrow> pays_from age b c \<Longrightarrow> pays_from age a c"
  by (auto simp: pays_from_def)

lemma withdraw_from_facts:
  assumes "withdraw_from p age q st = (rem, st')" "solvent st" "0 \<le> q" "q < 10 ^ 18"
    and "stored_rate (lp_retirement_tax_rate_pct p)" "0 \<le> lp_cash_floor p"
  shows "\<exists>c a b. st' = st\<lparr>ss_cash := c, ss_accessible := a, ss_retirement := b\<rparr>
    \<and> 0 \<le> rem \<and> rem \<le> q \<and> 0 \<le> c \<and> 0 \<le> a \<and> 0 \<le> b
    \<and> q - rem \<le> (ss_cash st - c) + (ss_accessible st - a) + (ss_retirement st - b)
    \<and> (age < retirement_access_age_months \<longrightarrow>
         q - rem = (ss_cash st - c) + (ss_accessible st - a) + (ss_retirement st - b))"
proof -
  obtain r c a b where w: "withdraw q (ss_cash st) (ss_accessible st) (ss_retirement st) (lp_cash_floor p) age
      (lp_retirement_tax_rate_pct p) = (r, c, a, b)"
    by (cases "withdraw q (ss_cash st) (ss_accessible st) (ss_retirement st) (lp_cash_floor p) age
      (lp_retirement_tax_rate_pct p)") auto
  have e: "rem = r" "st' = st\<lparr>ss_cash := c, ss_accessible := a, ss_retirement := b\<rparr>"
    using assms(1) by (auto simp: withdraw_from_def w)
  from withdraw_facts [OF w] assms(2-6)
  have "0 \<le> r \<and> r \<le> q" "0 \<le> c \<and> 0 \<le> a \<and> 0 \<le> b"
    "q - r \<le> (ss_cash st - c) + (ss_accessible st - a) + (ss_retirement st - b)"
    "age < retirement_access_age_months \<Longrightarrow>
      q - r = (ss_cash st - c) + (ss_accessible st - a) + (ss_retirement st - b)"
    unfolding solvent_def by (auto simp: min_def split: if_splits)
  with e show ?thesis by blast
qed

lemma fund_goal_pays:
  assumes "goal_ok g" "stored_rate (lp_retirement_tax_rate_pct p)" "0 \<le> lp_cash_floor p"
  shows "pays_from age st (fund_goal opts p month age g st)"
proof -
  obtain rem st1 where w: "withdraw_from p age (lg_target_amount g) st = (rem, st1)" by fastforce
  have same: "ss_investment_result st1 = ss_investment_result st" "ss_months_after_stop st1 = ss_months_after_stop st"
    using w by (auto simp: withdraw_from_def split: prod.splits)
  show ?thesis
  proof (cases "solvent st")
    case True
    have q: "0 \<le> lg_target_amount g" "lg_target_amount g < 10 ^ 18" using assms(1) by (auto simp: goal_ok_def)
    from withdraw_from_facts [OF w True q assms(2,3)] show ?thesis using True
      by (elim exE) (auto simp: pays_from_def fund_goal_def w Let_def solvent_def books_def wealth_def spent_def)
  next
    case False
    then show ?thesis using same by (simp add: pays_from_def fund_goal_def w Let_def)
  qed
qed

lemma fund_due_goals_pays:
  assumes "list_all goal_ok gs" "stored_rate (lp_retirement_tax_rate_pct p)" "0 \<le> lp_cash_floor p"
  shows "pays_from age st (fund_due_goals opts p month age prio gs st)"
  unfolding fund_due_goals_def
proof (rule fold_preserves [where P = "pays_from age st"])
  show "pays_from age st st" by (rule pays_from_refl)
next
  fix g s
  assume "g \<in> set (filter (\<lambda>g. lg_priority g = prio) gs)" and "pays_from age st s"
  with assms show "pays_from age st (fund_goal opts p month age g s)"
    by (intro pays_from_trans [OF _ fund_goal_pays]) (auto simp: list_all_iff)
qed

lemma fold_fund_goal_fields:
  "ss_flexible_spend (fold (fund_goal opts p month age) gs st) = ss_flexible_spend st"
  "ss_essential_spend (fold (fund_goal opts p month age) gs st) = ss_essential_spend st"
  "ss_crash_applied (fold (fund_goal opts p month age) gs st) = ss_crash_applied st"
  "ss_periods (fold (fund_goal opts p month age) gs st) = ss_periods st"
  "ss_months_after_stop (fold (fund_goal opts p month age) gs st) = ss_months_after_stop st"
  by (induction gs arbitrary: st) (auto simp: fund_goal_def withdraw_from_def Let_def split: prod.splits)

lemma fund_due_goals_fields [simp]:
  "ss_flexible_spend (fund_due_goals opts p month age prio gs st) = ss_flexible_spend st"
  "ss_essential_spend (fund_due_goals opts p month age prio gs st) = ss_essential_spend st"
  "ss_crash_applied (fund_due_goals opts p month age prio gs st) = ss_crash_applied st"
  "ss_periods (fund_due_goals opts p month age prio gs st) = ss_periods st"
  "ss_months_after_stop (fund_due_goals opts p month age prio gs st) = ss_months_after_stop st"
  unfolding fund_due_goals_def by (simp_all add: fold_fund_goal_fields)

lemma sweep_cash_pays: "0 \<le> lp_cash_floor p \<Longrightarrow> pays_from age st (sweep_cash p st)"
  by (auto simp: pays_from_def sweep_cash_def solvent_def books_def wealth_def spent_def)

lemma withdraw_from_fields:
  assumes "withdraw_from p age q st = (rem, st1)"
  shows "ss_investment_result st1 = ss_investment_result st" "ss_months_after_stop st1 = ss_months_after_stop st"
    "ss_flexible_spend st1 = ss_flexible_spend st" "ss_essential_spend st1 = ss_essential_spend st"
    "ss_goal_spend st1 = ss_goal_spend st" "ss_periods st1 = ss_periods st" "ss_crash_applied st1 = ss_crash_applied st"
    "ss_required_failed st1 = ss_required_failed st" "ss_flexible_failed st1 = ss_flexible_failed st"
    "ss_bridge_failed st1 = ss_bridge_failed st" "ss_first_shortfall st1 = ss_first_shortfall st"
  using assms by (auto simp: withdraw_from_def split: prod.splits)

text \<open>Paying one request out of the balances and booking it under essential or flexible spending.\<close>

lemma request_pays:
  assumes "withdraw_from p age q st = (rem, st1)" "0 \<le> q" "q < 10 ^ 18"
    and "stored_rate (lp_retirement_tax_rate_pct p)" "0 \<le> lp_cash_floor p"
    and "ss_cash st' = ss_cash st1" "ss_accessible st' = ss_accessible st1" "ss_retirement st' = ss_retirement st1"
    and "ss_hsa st' = ss_hsa st1" "ss_restricted st' = ss_restricted st1"
    and "ss_investment_result st' = ss_investment_result st1" "ss_months_after_stop st' = ss_months_after_stop st1"
    and "spent st' = spent st1 + (q - rem)"
  shows "pays_from age st st'"
proof (cases "solvent st")
  case True
  from withdraw_from_facts [OF assms(1) True assms(2-5)] show ?thesis
    using True assms(6-13) withdraw_from_fields [OF assms(1)]
    by (elim exE) (auto simp: pays_from_def solvent_def books_def wealth_def spent_def)
next
  case False
  then show ?thesis using assms(11,12) withdraw_from_fields [OF assms(1)] by (simp add: pays_from_def)
qed

lemma essential_spending_pays:
  assumes "stored_rate (lp_retirement_tax_rate_pct p)" "0 \<le> lp_cash_floor p" "ss_essential_spend st = 0"
    and "0 \<le> lp_essential_monthly_spend p" "list_all goal_ok enabled"
    and "lp_essential_monthly_spend p + annual_costs enabled < 10 ^ 18"
  shows "pays_from age st (essential_spending p enabled month age st)"
proof -
  let ?q = "lp_essential_monthly_spend p + continuing_cost Required month enabled"
  obtain rem st1 where w: "withdraw_from p age ?q st = (rem, st1)" by fastforce
  have q: "0 \<le> ?q" "?q < 10 ^ 18"
    using continuing_cost_bounds [OF assms(5), of Required month] assms(4,6) by auto
  show ?thesis
    by (rule request_pays [OF w q assms(1,2)])
      (use assms(3) withdraw_from_fields [OF w] in \<open>simp_all add: essential_spending_def w Let_def spent_def\<close>)
qed

lemma flexible_spending_pays:
  assumes "stored_rate (lp_retirement_tax_rate_pct p)" "0 \<le> lp_cash_floor p" "ss_flexible_spend st = 0"
    and "0 \<le> wanted_flexible opts p" "list_all goal_ok enabled"
    and "wanted_flexible opts p + annual_costs enabled < 10 ^ 18"
  shows "pays_from age st (flexible_spending opts p enabled month age st)"
proof -
  let ?q = "wanted_flexible opts p + continuing_cost Flexible month enabled"
  obtain rem st1 where w: "withdraw_from p age ?q st = (rem, st1)" by fastforce
  have q: "0 \<le> ?q" "?q < 10 ^ 18"
    using continuing_cost_bounds [OF assms(5), of Flexible month] assms(4,6) by auto
  show ?thesis
    by (rule request_pays [OF w q assms(1,2)])
      (use assms(3) withdraw_from_fields [OF w] in \<open>simp_all add: flexible_spending_def w Let_def spent_def\<close>)
qed

text \<open>Work spending pays out of the balances after pay has come in.\<close>

definition paid_in :: "sim_options \<Rightarrow> monthly_pay \<Rightarrow> sim_state \<Rightarrow> sim_state" where
  "paid_in opts pay st = st\<lparr>ss_cash := ss_cash st + mp_net pay + so_additional_monthly_income opts\<rparr>"

lemma work_spending_pays:
  assumes "stored_rate (lp_retirement_tax_rate_pct p)" "0 \<le> lp_cash_floor p" "ss_essential_spend st = 0"
    and "lp_current_monthly_outflow p < 10 ^ 18" "0 \<le> so_extra_monthly_saving opts"
  shows "pays_from age (paid_in opts pay st) (work_spending opts p pay month age st)"
proof -
  let ?q = "max 0 (lp_current_monthly_outflow p - so_extra_monthly_saving opts)"
  obtain rem st1 where w: "withdraw_from p age ?q (paid_in opts pay st) = (rem, st1)" by fastforce
  have q: "0 \<le> ?q" "?q < 10 ^ 18" using assms(4,5) by auto
  have e: "ss_essential_spend (paid_in opts pay st) = 0" using assms(3) by (simp add: paid_in_def)
  show ?thesis
    by (rule request_pays [OF w q assms(1,2)])
      (use e withdraw_from_fields [OF w] in
        \<open>simp_all add: work_spending_def w paid_in_def [symmetric] Let_def spent_def\<close>)
qed

section \<open>A whole month\<close>

lemma essential_spending_fields [simp]:
  "ss_flexible_spend (essential_spending p enabled month age st) = ss_flexible_spend st"
  "ss_goal_spend (essential_spending p enabled month age st) = ss_goal_spend st"
  "ss_periods (essential_spending p enabled month age st) = ss_periods st"
  by (auto simp: essential_spending_def withdraw_from_def Let_def split: prod.splits)

lemma work_month_pays:
  assumes "plan_ok pl" "ss_essential_spend st = 0" "list_all goal_ok due"
  shows "pays_from age (paid_in (pl_options pl) (pl_pay pl) st)
           (work_month (pl_options pl) (pl_profile pl) (pl_pay pl) due month age st)"
proof -
  let ?p = "pl_profile pl" and ?o = "pl_options pl"
  have ok: "stored_rate (lp_retirement_tax_rate_pct ?p)" "0 \<le> lp_cash_floor ?p"
    "lp_current_monthly_outflow ?p < 10 ^ 18" "0 \<le> so_extra_monthly_saving ?o"
    using assms(1) by (simp_all add: plan_ok_def levers_ok_def)
  note work = work_spending_pays [OF ok(1,2) assms(2) ok(3,4)]
  note fund = fund_due_goals_pays [OF assms(3) ok(1,2)]
  show ?thesis
    unfolding work_month_def
    by (rule pays_from_trans [OF work pays_from_trans [OF sweep_cash_pays [OF ok(2)] pays_from_trans [OF fund fund]]])
qed

lemma retired_month_pays:
  assumes "plan_ok pl" "ss_essential_spend st = 0" "list_all goal_ok due" "ss_flexible_spend st = 0"
  shows "pays_from age st (retired_month (pl_options pl) (pl_profile pl) (pl_enabled pl) due month age st)"
proof -
  let ?p = "pl_profile pl" and ?o = "pl_options pl" and ?e = "pl_enabled pl"
  have ok: "stored_rate (lp_retirement_tax_rate_pct ?p)" "0 \<le> lp_cash_floor ?p"
    "0 \<le> lp_essential_monthly_spend ?p" "list_all goal_ok ?e" "0 \<le> wanted_flexible ?o ?p"
    "lp_essential_monthly_spend ?p + wanted_flexible ?o ?p + annual_costs ?e < 10 ^ 18"
    using assms(1) by (simp_all add: plan_ok_def)
  have b: "lp_essential_monthly_spend ?p + annual_costs ?e < 10 ^ 18" "wanted_flexible ?o ?p + annual_costs ?e < 10 ^ 18"
    using ok(3,5,6) by linarith+
  note fund = fund_due_goals_pays [OF assms(3) ok(1,2)]
  note essential = essential_spending_pays [OF ok(1,2) assms(2) ok(3,4) b(1)]
  have flex: "ss_flexible_spend s = 0 \<Longrightarrow> pays_from age s (flexible_spending ?o ?p ?e month age s)" for s
    by (rule flexible_spending_pays [OF ok(1,2) _ ok(5,4) b(2)])
  show ?thesis
    unfolding retired_month_def
    by (rule pays_from_trans [OF essential pays_from_trans [OF fund pays_from_trans [OF flex fund]]])
      (simp add: assms(4))
qed

text \<open>A return keeps balances non-negative, the crash of 35 percent included.\<close>

lemma return_keeps_nonneg:
  assumes "- 1 / 2 \<le> r" "0 \<le> v"
  shows "0 \<le> v + money (dmul (dec v) r)"
proof -
  have dv: "0 \<le> dec v" using assms(2) by simp
  have "- dec v \<le> dmul (dec v) r"
  proof (cases "0 \<le> r")
    case True
    then have "0 \<le> dmul (dec v) r" using dv by (simp add: dmul_def ctx_nonneg)
    with dv show ?thesis by linarith
  next
    case False
    have "- (dec v / 2) \<le> dec v * r"
      using mult_left_mono [OF assms(1) dv] by simp
    then have a: "\<bar>dec v * r\<bar> \<le> dec v / 2"
      using False dv by (simp add: abs_le_iff mult_nonneg_nonpos)
    have "\<bar>dmul (dec v) r - dec v * r\<bar> \<le> \<bar>dec v * r\<bar> / 10 ^ 27"
      unfolding dmul_def by (rule ctx_near)
    also have "\<dots> \<le> \<bar>dec v * r\<bar>" by (simp add: divide_le_eq)
    finally have "\<bar>dmul (dec v) r - dec v * r\<bar> \<le> dec v / 2" using a by linarith
    with a show ?thesis unfolding abs_le_iff by linarith
  qed
  then have "- v \<le> money (dmul (dec v) r)" by (intro money_ge) (simp add: dec_simps)
  then show ?thesis by simp
qed

lemma crash_rate_value: "crash_rate = - 35 / 100"
  unfolding crash_rate_def ddiv_def using ctx_exact [of "-35" 2] by simp

lemma apply_return_solvent: "- 1 / 2 \<le> r \<Longrightarrow> solvent st \<Longrightarrow> solvent (apply_return r st)"
  unfolding solvent_def by (simp add: apply_return_def Let_def return_keeps_nonneg)

lemma apply_return_books [simp]: "books (apply_return r st) = books st"
  by (simp add: apply_return_def books_def wealth_def spent_def Let_def)

lemma path_rate_nonneg: "rate_ok rate \<Longrightarrow> 0 \<le> path_monthly_rate rate path working n"
  by (cases path) (auto simp: path_monthly_rate_def rate_ok_def)

lemma grow_facts:
  assumes "0 \<le> r"
  shows "solvent st \<Longrightarrow> solvent (grow r st)" and "books (grow r st) = books st"
    and "spent (grow r st) = spent st"
    and "ss_essential_spend (grow r st) = ss_essential_spend st" "ss_flexible_spend (grow r st) = ss_flexible_spend st"
    "ss_goal_spend (grow r st) = ss_goal_spend st" "ss_periods (grow r st) = ss_periods st"
  using assms apply_return_solvent [of r st]
  by (auto simp: grow_def apply_return_def Let_def spent_def books_def wealth_def)

text \<open>What comes in during a month.\<close>

definition pay_in :: "sim_plan \<Rightarrow> date \<Rightarrow> cents" where
  "pay_in pl month =
     (if month < pl_stop_month pl
      then mp_net (pl_pay pl) + so_additional_monthly_income (pl_options pl)
        + mp_employee_retirement (pl_pay pl) + mp_employer_retirement (pl_pay pl)
        + mp_employee_hsa (pl_pay pl) + mp_employer_hsa (pl_pay pl) + mp_stock_plan (pl_pay pl)
      else 0)
     + (if month = (case so_liquidity_event_month (pl_options pl) of None \<Rightarrow> pl_stop_month pl | Some m \<Rightarrow> m)
        then so_liquidity_event (pl_options pl) else 0)"

lemma receive_event_solvent: "levers_ok opts \<Longrightarrow> solvent st \<Longrightarrow> solvent (receive_event opts stop month st)"
  by (auto simp: receive_event_def solvent_def levers_ok_def)

lemma note_stop_wealth [simp]: "wealth (note_stop w st) = wealth st" "solvent (note_stop w st) = solvent st"
  by (simp_all add: note_stop_def wealth_def solvent_def)

lemma clear_month_books [simp]: "books (clear_month st) = wealth st" "solvent (clear_month st) = solvent st"
  by (simp_all add: clear_month_def books_def wealth_def spent_def solvent_def)

lemma apply_crash_facts:
  "solvent st \<Longrightarrow> solvent (apply_crash path w st)" "books (apply_crash path w st) = books st"
  "spent (apply_crash path w st) = spent st"
proof -
  assume "solvent st"
  then have "solvent (apply_return crash_rate st)"
    by (intro apply_return_solvent) (simp add: crash_rate_value)
  with \<open>solvent st\<close> show "solvent (apply_crash path w st)" by (simp add: apply_crash_def solvent_def)
next
  have "books (apply_return crash_rate st\<lparr>ss_crash_applied := True\<rparr>) = books (apply_return crash_rate st)"
    by (simp add: books_def wealth_def spent_def)
  then show "books (apply_crash path w st) = books st" by (simp add: apply_crash_def)
  show "spent (apply_crash path w st) = spent st"
    by (simp add: apply_crash_def apply_return_def spent_def Let_def)
qed

lemma open_month_fields [simp]:
  "ss_essential_spend (open_month pl month st) = 0" "ss_flexible_spend (open_month pl month st) = 0"
  "ss_goal_spend (open_month pl month st) = 0" "ss_periods (open_month pl month st) = ss_periods st"
  "ss_required_failed (open_month pl month st) = ss_required_failed st"
  "ss_flexible_failed (open_month pl month st) = ss_flexible_failed st"
  "ss_bridge_failed (open_month pl month st) = ss_bridge_failed st"
  "ss_first_shortfall (open_month pl month st) = ss_first_shortfall st"
  by (simp_all add: open_month_def contribute_def apply_crash_def apply_return_def clear_month_def
      note_stop_def receive_event_def Let_def)

lemma contribute_facts:
  "pay_ok pay \<Longrightarrow> solvent st \<Longrightarrow> solvent (contribute pay w st)"
  "books (contribute pay w st) = books st
     + (if w then mp_employee_retirement pay + mp_employer_retirement pay
          + mp_employee_hsa pay + mp_employer_hsa pay + mp_stock_plan pay else 0)"
  by (auto simp: contribute_def solvent_def pay_ok_def books_def wealth_def spent_def)

lemma open_month_facts:
  assumes "plan_ok pl" "solvent st"
  shows "solvent (open_month pl month st)"
    and "books (open_month pl month st) + (if month < pl_stop_month pl
           then mp_net (pl_pay pl) + so_additional_monthly_income (pl_options pl) else 0)
         = wealth st + pay_in pl month"
proof -
  have ok: "levers_ok (pl_options pl)" "pay_ok (pl_pay pl)" using assms(1) by (auto simp: plan_ok_def)
  then show "solvent (open_month pl month st)"
    using assms(2) by (simp add: open_month_def Let_def contribute_facts(1) apply_crash_facts(1) receive_event_solvent)
  have "wealth (receive_event (pl_options pl) (pl_stop_month pl) month st) = wealth st
      + (if month = (case so_liquidity_event_month (pl_options pl) of None \<Rightarrow> pl_stop_month pl | Some m \<Rightarrow> m)
         then so_liquidity_event (pl_options pl) else 0)"
    by (simp add: receive_event_def wealth_def)
  then show "books (open_month pl month st) + (if month < pl_stop_month pl
       then mp_net (pl_pay pl) + so_additional_monthly_income (pl_options pl) else 0)
     = wealth st + pay_in pl month"
    by (simp add: open_month_def Let_def contribute_facts(2) apply_crash_facts(2) pay_in_def)
qed

lemma spend_month_facts:
  assumes "plan_ok pl" "solvent st" "ss_essential_spend st = 0" "ss_flexible_spend st = 0"
    and "age = age_months (lp_birth_date (pl_profile pl)) month"
    and "inflow = (if month < pl_stop_month pl
           then mp_net (pl_pay pl) + so_additional_monthly_income (pl_options pl) else 0)"
  shows "solvent (spend_month pl month st) \<and> books (spend_month pl month st) \<le> books st + inflow
    \<and> (age < retirement_access_age_months \<longrightarrow> books (spend_month pl month st) = books st + inflow)"
proof -
  let ?due = "filter (\<lambda>g. month_start (lg_target_date g) = month) (pl_enabled pl)"
  have due: "list_all goal_ok ?due" using assms(1) by (auto simp: plan_ok_def list_all_iff)
  show ?thesis
  proof (cases "month < pl_stop_month pl")
    case True
    have "solvent (paid_in (pl_options pl) (pl_pay pl) st)"
      using assms(1,2) by (auto simp: paid_in_def solvent_def plan_ok_def levers_ok_def pay_ok_def)
    moreover have "books (paid_in (pl_options pl) (pl_pay pl) st) = books st + inflow"
      using True assms(6) by (simp add: paid_in_def books_def wealth_def spent_def)
    ultimately show ?thesis
      using work_month_pays [OF assms(1,3) due, of age month] True
      by (simp add: spend_month_def Let_def assms(5) [symmetric] pays_from_def)
  next
    case False
    then show ?thesis
      using retired_month_pays [OF assms(1,3) due assms(4), of age month] assms(2,6)
      by (simp add: spend_month_def Let_def assms(5) [symmetric] pays_from_def)
  qed
qed

lemma record_period_fields [simp]:
  "wealth (record_period opts p pay debt month age w st) = wealth st"
  "books (record_period opts p pay debt month age w st) = books st"
  "spent (record_period opts p pay debt month age w st) = spent st"
  "solvent (record_period opts p pay debt month age w st) = solvent st"
  "ss_investment_result (record_period opts p pay debt month age w st) = ss_investment_result st"
  by (simp_all add: record_period_def Let_def wealth_def books_def spent_def solvent_def)

lemma simulate_month_facts:
  assumes "plan_ok pl" "solvent st" "st' = simulate_month pl month st"
  shows "solvent st' \<and> books st' \<le> wealth st + pay_in pl month
    \<and> (age_months (lp_birth_date (pl_profile pl)) month < retirement_access_age_months
        \<longrightarrow> books st' = wealth st + pay_in pl month)"
proof -
  note op = open_month_facts [OF assms(1,2), of month]
  note sp = spend_month_facts [OF assms(1) op(1) open_month_fields(1,2) refl refl, of month]
  have r: "0 \<le> path_monthly_rate (pl_rate pl) (so_path (pl_options pl)) w n" for w n
    using assms(1) by (intro path_rate_nonneg) (simp add: plan_ok_def)
  show ?thesis
    using sp op(2) grow_facts(1,2) [OF r] unfolding assms(3) simulate_month_def
    by (simp add: close_month_def Let_def)
qed

section \<open>The loop over the months\<close>

definition month_at :: "int \<Rightarrow> date" where
  "month_at i = Date (i div 12) (i mod 12 + 1) 1"

lemma month_at_index: "valid_date d \<Longrightarrow> d_day d = 1 \<Longrightarrow> month_at (month_index d) = d"
  using month_index_split [of d] by (cases d) (auto simp: month_at_def)

lemma month_index_at [simp]: "month_index (month_at i) = i"
  by (simp add: month_index_def month_at_def)

lemma simulate_months_fold:
  assumes "valid_date month" "d_day month = 1" "valid_date end_month" "d_day end_month = 1"
  shows "simulate_months pl end_month month st =
    fold (simulate_month pl) (map month_at [month_index month..month_index end_month]) st"
  using assms
proof (induction pl end_month month st rule: simulate_months.induct)
  case (1 pl end_month month st)
  note unfold = simulate_months.simps [of pl end_month month st]
  show ?case
  proof (cases "month \<le> end_month")
    case True
    then have le: "month_index month \<le> month_index end_month"
      using month_start_le_iff [of month end_month] "1.prems" by simp
    have "simulate_months pl end_month month st = fold (simulate_month pl)
        (map month_at [month_index month + 1..month_index end_month]) (simulate_month pl month st)"
      using "1.IH" True "1.prems" by (simp add: unfold)
    then show ?thesis
      using upto_rec1 [OF le] month_at_index [of month] "1.prems" by simp
  next
    case False
    then have "\<not> month_index month \<le> month_index end_month"
      using month_start_le_iff [of month end_month] "1.prems" by simp
    with False show ?thesis by (simp add: unfold)
  qed
qed

lemma withdraw_month_fields:
  "ss_periods (work_spending opts p pay month age st) = ss_periods st"
  "ss_periods (sweep_cash p st) = ss_periods st"
  "ss_periods (flexible_spending opts p enabled month age st) = ss_periods st"
  by (auto simp: work_spending_def sweep_cash_def flexible_spending_def withdraw_from_def Let_def split: prod.splits)

lemma spend_month_periods [simp]: "ss_periods (spend_month pl month st) = ss_periods st"
  by (simp add: spend_month_def work_month_def retired_month_def Let_def withdraw_month_fields)

text \<open>The row a month records, read off the state it leaves.\<close>

definition row_matches :: "sim_plan \<Rightarrow> date \<Rightarrow> sim_state \<Rightarrow> period \<Rightarrow> bool" where
  "row_matches pl month st row \<longleftrightarrow>
     pr_month row = month \<and> pr_working row = (month < pl_stop_month pl)
     \<and> pr_cash row = ss_cash st \<and> pr_accessible row = ss_accessible st \<and> pr_retirement row = ss_retirement st
     \<and> pr_hsa row = ss_hsa st \<and> pr_restricted row = ss_restricted st
     \<and> pr_essential_spend row = ss_essential_spend st \<and> pr_flexible_spend row = ss_flexible_spend st
     \<and> pr_goal_spend row = ss_goal_spend st"

lemma grow_periods [simp]: "ss_periods (grow r st) = ss_periods st"
  by (simp add: grow_def apply_return_def Let_def)

lemma simulate_month_records:
  "\<exists>row. row_matches pl month (simulate_month pl month st) row
     \<and> ss_last_period (simulate_month pl month st) = Some row
     \<and> ss_periods (simulate_month pl month st) =
         (if so_include_periods (pl_options pl) then ss_periods st @ [row] else ss_periods st)"
  by (simp add: simulate_month_def close_month_def record_period_def row_matches_def Let_def)

definition row_solvent :: "period \<Rightarrow> bool" where
  "row_solvent row \<longleftrightarrow> 0 \<le> pr_cash row \<and> 0 \<le> pr_accessible row \<and> 0 \<le> pr_retirement row \<and> 0 \<le> pr_hsa row \<and> 0 \<le> pr_restricted row"

lemma fold_months_rows:
  assumes "plan_ok pl" "solvent st"
  shows "solvent (fold (simulate_month pl) ms st)
    \<and> (ms \<noteq> [] \<longrightarrow> ss_last_period (fold (simulate_month pl) ms st) \<noteq> None)
    \<and> (so_include_periods (pl_options pl) \<longrightarrow>
        (\<exists>rows. ss_periods (fold (simulate_month pl) ms st) = ss_periods st @ rows
           \<and> map pr_month rows = ms \<and> list_all row_solvent rows))"
  using assms(2)
proof (induction ms rule: rev_induct)
  case Nil
  then show ?case by simp
next
  case (snoc m ms)
  let ?s = "fold (simulate_month pl) ms st"
  have s: "solvent ?s" using snoc by simp
  have s': "solvent (simulate_month pl m ?s)" using simulate_month_facts [OF assms(1) s refl] by blast
  obtain row where row: "row_matches pl m (simulate_month pl m ?s) row"
      "ss_last_period (simulate_month pl m ?s) = Some row"
      "ss_periods (simulate_month pl m ?s) =
        (if so_include_periods (pl_options pl) then ss_periods ?s @ [row] else ss_periods ?s)"
    using simulate_month_records by blast
  have "pr_month row = m \<and> row_solvent row"
    using row(1) s' by (simp add: row_matches_def row_solvent_def solvent_def)
  with snoc row s' show ?case by auto
qed

lemma simulate_runs:
  assumes "plan_ok (plan_of rate p goals start opts)" "solvent (initial_state start (filter lg_enabled goals))"
    and "valid_date (so_as_of opts)" "valid_date (lp_birth_date p)"
    and "month_index (so_as_of opts) \<le> month_index (lp_birth_date p) + 12 * lp_end_age p"
  obtains r st where "simulate rate p goals start opts = Inr r"
    and "st = fold (simulate_month (plan_of rate p goals start opts))
        (map month_at [month_index (so_as_of opts)..month_index (lp_birth_date p) + 12 * lp_end_age p])
        (initial_state start (filter lg_enabled goals))"
    and "st = final_state rate p goals start opts"
    and "sr_status r = plan_status_of st" "sr_periods r = ss_periods st"
    and "sr_first_shortfall_month r = ss_first_shortfall st" "sr_goal_results r = ss_goal_results st"
proof -
  let ?pl = "plan_of rate p goals start opts" and ?i = "initial_state start (filter lg_enabled goals)"
  let ?ms = "map month_at [month_index (so_as_of opts)..month_index (lp_birth_date p) + 12 * lp_end_age p]"
  have e: "month_index (month_for_age (lp_birth_date p) (lp_end_age p)) = month_index (lp_birth_date p) + 12 * lp_end_age p"
    by (simp add: month_index_def month_for_age_def)
  have birth: "valid_date (month_for_age (lp_birth_date p) (lp_end_age p))"
    using assms(4) days_in_month_bounds(1) [of "d_year (lp_birth_date p) + lp_end_age p" "d_month (lp_birth_date p)"]
    by (simp add: month_for_age_def valid_date_def)
  have day1: "d_day (month_for_age (lp_birth_date p) (lp_end_age p)) = 1" by (simp add: month_for_age_def)
  have f: "final_state rate p goals start opts = fold (simulate_month ?pl) ?ms ?i"
    unfolding final_state_def using assms(3) birth day1
    by (subst simulate_months_fold) (simp_all add: e)
  have "ss_last_period (fold (simulate_month ?pl) ?ms ?i) \<noteq> None"
    using fold_months_rows [OF assms(1,2), of ?ms] assms(5) by auto
  then obtain row where "ss_last_period (final_state rate p goals start opts) = Some row" by (auto simp: f)
  then show ?thesis using f by (intro that) (auto simp: simulate_def Let_def)
qed

section \<open>A plan that works pays everything\<close>

definition failed :: "sim_state \<Rightarrow> bool" where
  "failed st \<longleftrightarrow> ss_required_failed st \<or> ss_flexible_failed st"

lemma works_iff_not_failed: "plan_status_of st = Works \<longleftrightarrow> \<not> failed st"
  by (simp add: plan_status_of_def failed_def)

lemma withdraw_unpaid_nonneg:
  assumes "withdraw_from p age q st = (rem, st1)" "solvent st" "0 \<le> q" "q < 10 ^ 18"
    and "stored_rate (lp_retirement_tax_rate_pct p)" "0 \<le> lp_cash_floor p"
  shows "0 \<le> rem"
  using withdraw_from_facts [OF assms] by auto

lemma fund_goal_full:
  assumes "\<not> failed (fund_goal opts p month age g st)" "so_assessment_start_month opts = None" "solvent st"
    and "goal_ok g" "stored_rate (lp_retirement_tax_rate_pct p)" "0 \<le> lp_cash_floor p"
  shows "\<not> failed st \<and> ss_goal_spend (fund_goal opts p month age g st) = ss_goal_spend st + lg_target_amount g"
proof -
  obtain rem st1 where w: "withdraw_from p age (lg_target_amount g) st = (rem, st1)" by fastforce
  have "0 \<le> rem" by (rule withdraw_unpaid_nonneg [OF w assms(3)]) (use assms(4-6) in \<open>auto simp: goal_ok_def\<close>)
  then show ?thesis
    using assms(1,2) withdraw_from_fields [OF w]
    by (auto simp: fund_goal_def w Let_def failed_def counts_toward_result_def)
qed

lemma fold_fund_goals_full:
  assumes "\<not> failed (fold (fund_goal opts p month age) gs st)" "so_assessment_start_month opts = None" "solvent st"
    and "list_all goal_ok gs" "stored_rate (lp_retirement_tax_rate_pct p)" "0 \<le> lp_cash_floor p"
  shows "\<not> failed st
    \<and> ss_goal_spend (fold (fund_goal opts p month age) gs st) = ss_goal_spend st + sum_list (map lg_target_amount gs)"
  using assms(1,3,4)
proof (induction gs arbitrary: st)
  case Nil
  then show ?case by simp
next
  case (Cons g gs)
  let ?s = "fund_goal opts p month age g st"
  have "solvent ?s"
    using fund_goal_pays [of g p age st opts month] Cons.prems assms(5,6) by (simp add: pays_from_def)
  then have "\<not> failed ?s \<and> ss_goal_spend (fold (fund_goal opts p month age) (g # gs) st)
      = ss_goal_spend ?s + sum_list (map lg_target_amount gs)"
    using Cons.IH [of ?s] Cons.prems by simp
  moreover from this have "\<not> failed st \<and> ss_goal_spend ?s = ss_goal_spend st + lg_target_amount g"
    using Cons.prems assms(2,5,6) by (intro fund_goal_full) auto
  ultimately show ?case by simp
qed

definition targets :: "priority \<Rightarrow> projection_goal list \<Rightarrow> cents" where
  "targets prio gs = sum_list (map lg_target_amount (filter (\<lambda>g. lg_priority g = prio) gs))"

lemma targets_split: "targets Flexible gs + targets Required gs = sum_list (map lg_target_amount gs)"
proof (induction gs)
  case (Cons g gs)
  then show ?case by (cases "lg_priority g") (auto simp: targets_def)
qed (simp add: targets_def)

lemma fund_due_goals_full:
  assumes "\<not> failed (fund_due_goals opts p month age prio gs st)" "so_assessment_start_month opts = None" "solvent st"
    and "list_all goal_ok gs" "stored_rate (lp_retirement_tax_rate_pct p)" "0 \<le> lp_cash_floor p"
  shows "\<not> failed st \<and> ss_goal_spend (fund_due_goals opts p month age prio gs st) = ss_goal_spend st + targets prio gs"
  unfolding targets_def fund_due_goals_def
  by (rule fold_fund_goals_full [OF _ assms(2,3)])
    (use assms in \<open>auto simp: fund_due_goals_def list_all_iff\<close>)

lemma sweep_cash_fields [simp]:
  "failed (sweep_cash p st) = failed st" "ss_goal_spend (sweep_cash p st) = ss_goal_spend st"
  "ss_essential_spend (sweep_cash p st) = ss_essential_spend st"
  "ss_flexible_spend (sweep_cash p st) = ss_flexible_spend st"
  by (simp_all add: sweep_cash_def failed_def)

lemma work_spending_full:
  assumes "\<not> failed (work_spending opts p pay month age st)" "so_assessment_start_month opts = None"
    and "solvent (paid_in opts pay st)" "stored_rate (lp_retirement_tax_rate_pct p)" "0 \<le> lp_cash_floor p"
    and "lp_current_monthly_outflow p < 10 ^ 18" "0 \<le> so_extra_monthly_saving opts"
  shows "\<not> failed st
    \<and> ss_essential_spend (work_spending opts p pay month age st)
        = max 0 (lp_current_monthly_outflow p - so_extra_monthly_saving opts)
    \<and> ss_flexible_spend (work_spending opts p pay month age st) = ss_flexible_spend st
    \<and> ss_goal_spend (work_spending opts p pay month age st) = ss_goal_spend st"
proof -
  let ?q = "max 0 (lp_current_monthly_outflow p - so_extra_monthly_saving opts)"
  obtain rem st1 where w: "withdraw_from p age ?q (paid_in opts pay st) = (rem, st1)" by fastforce
  have "0 \<le> rem" by (rule withdraw_unpaid_nonneg [OF w assms(3)]) (use assms(4-7) in auto)
  then show ?thesis
    using assms(1,2) withdraw_from_fields [OF w]
    by (auto simp: work_spending_def w paid_in_def [symmetric] Let_def failed_def counts_toward_result_def)
      (simp_all add: paid_in_def)
qed

lemma essential_spending_full:
  assumes "\<not> failed (essential_spending p enabled month age st)" "solvent st"
    and "stored_rate (lp_retirement_tax_rate_pct p)" "0 \<le> lp_cash_floor p"
    and "0 \<le> lp_essential_monthly_spend p" "list_all goal_ok enabled"
    and "lp_essential_monthly_spend p + annual_costs enabled < 10 ^ 18"
  shows "\<not> failed st \<and> ss_essential_spend (essential_spending p enabled month age st)
    = lp_essential_monthly_spend p + continuing_cost Required month enabled"
proof -
  let ?q = "lp_essential_monthly_spend p + continuing_cost Required month enabled"
  obtain rem st1 where w: "withdraw_from p age ?q st = (rem, st1)" by fastforce
  have "0 \<le> rem"
    using continuing_cost_bounds [OF assms(6), of Required month] assms(2-5,7)
    by (intro withdraw_unpaid_nonneg [OF w]) auto
  then show ?thesis
    using assms(1) withdraw_from_fields [OF w]
    by (auto simp: essential_spending_def w Let_def failed_def)
qed

lemma flexible_spending_full:
  assumes "\<not> failed (flexible_spending opts p enabled month age st)" "solvent st"
    and "stored_rate (lp_retirement_tax_rate_pct p)" "0 \<le> lp_cash_floor p"
    and "0 \<le> wanted_flexible opts p" "list_all goal_ok enabled"
    and "wanted_flexible opts p + annual_costs enabled < 10 ^ 18"
  shows "\<not> failed st
    \<and> ss_flexible_spend (flexible_spending opts p enabled month age st)
        = wanted_flexible opts p + continuing_cost Flexible month enabled
    \<and> ss_essential_spend (flexible_spending opts p enabled month age st) = ss_essential_spend st
    \<and> ss_goal_spend (flexible_spending opts p enabled month age st) = ss_goal_spend st"
proof -
  let ?q = "wanted_flexible opts p + continuing_cost Flexible month enabled"
  obtain rem st1 where w: "withdraw_from p age ?q st = (rem, st1)" by fastforce
  have "0 \<le> rem"
    using continuing_cost_bounds [OF assms(6), of Flexible month] assms(2-5,7)
    by (intro withdraw_unpaid_nonneg [OF w]) auto
  then show ?thesis
    using assms(1) withdraw_from_fields [OF w]
    by (auto simp: flexible_spending_def w Let_def failed_def)
qed

text \<open>What a month owes: spending by phase of life, and the targets of the goals due.\<close>

definition paid_in_full :: "sim_plan \<Rightarrow> period \<Rightarrow> bool" where
  "paid_in_full pl row \<longleftrightarrow>
     (if pr_working row
      then pr_essential_spend row
             = max 0 (lp_current_monthly_outflow (pl_profile pl) - so_extra_monthly_saving (pl_options pl))
           \<and> pr_flexible_spend row = 0
      else pr_essential_spend row = lp_essential_monthly_spend (pl_profile pl)
             + continuing_cost Required (pr_month row) (pl_enabled pl)
           \<and> pr_flexible_spend row = wanted_flexible (pl_options pl) (pl_profile pl)
             + continuing_cost Flexible (pr_month row) (pl_enabled pl))
     \<and> pr_goal_spend row = sum_list (map lg_target_amount
         (filter (\<lambda>g. month_start (lg_target_date g) = pr_month row) (pl_enabled pl)))"

lemma work_month_full:
  assumes "plan_ok pl" "solvent st" "list_all goal_ok due" "so_assessment_start_month (pl_options pl) = None"
    and "st' = work_month (pl_options pl) (pl_profile pl) (pl_pay pl) due month age st" "\<not> failed st'"
    and "ss_essential_spend st = 0"
  shows "\<not> failed st
    \<and> ss_essential_spend st' = max 0 (lp_current_monthly_outflow (pl_profile pl) - so_extra_monthly_saving (pl_options pl))
    \<and> ss_flexible_spend st' = ss_flexible_spend st
    \<and> ss_goal_spend st' = ss_goal_spend st + sum_list (map lg_target_amount due)"
proof -
  let ?p = "pl_profile pl" and ?o = "pl_options pl"
  have ok: "stored_rate (lp_retirement_tax_rate_pct ?p)" "0 \<le> lp_cash_floor ?p"
    "lp_current_monthly_outflow ?p < 10 ^ 18" "0 \<le> so_extra_monthly_saving ?o"
    "0 \<le> mp_net (pl_pay pl)" "0 \<le> so_additional_monthly_income ?o"
    using assms(1) by (simp_all add: plan_ok_def levers_ok_def pay_ok_def)
  have in_ok: "solvent (paid_in ?o (pl_pay pl) st)" using assms(2) ok(5,6) by (simp add: paid_in_def solvent_def)
  define a where "a = work_spending ?o ?p (pl_pay pl) month age st"
  define b where "b = fund_due_goals ?o ?p month age Required due (sweep_cash ?p a)"
  have st': "st' = fund_due_goals ?o ?p month age Flexible due b"
    by (simp add: assms(5) work_month_def a_def b_def)
  have sa: "solvent (sweep_cash ?p a)"
    using work_spending_pays [OF ok(1,2) assms(7) ok(3,4), of age "pl_pay pl" month] in_ok sweep_cash_pays [OF ok(2), of age a]
    by (simp add: pays_from_def a_def)
  have sb: "solvent b" using sa fund_due_goals_pays [OF assms(3) ok(1,2)] by (simp add: pays_from_def b_def)
  note flexible = fund_due_goals_full [OF assms(6) [unfolded st'] assms(4) sb assms(3) ok(1,2)]
  then have "\<not> failed b" ..
  note required = fund_due_goals_full [OF this [unfolded b_def] assms(4) sa assms(3) ok(1,2)]
  then have "\<not> failed a" by simp
  note work = work_spending_full [OF this [unfolded a_def] assms(4) in_ok ok(1-4)]
  from flexible required work targets_split [of due] show ?thesis
    by (simp add: st' b_def [symmetric] a_def [symmetric]) (simp add: b_def)
qed

lemma retired_month_full:
  assumes "plan_ok pl" "solvent st" "list_all goal_ok due" "so_assessment_start_month (pl_options pl) = None"
    and "st' = retired_month (pl_options pl) (pl_profile pl) (pl_enabled pl) due month age st" "\<not> failed st'"
    and "ss_essential_spend st = 0" "ss_flexible_spend st = 0"
  shows "\<not> failed st
    \<and> ss_essential_spend st' = lp_essential_monthly_spend (pl_profile pl) + continuing_cost Required month (pl_enabled pl)
    \<and> ss_flexible_spend st' = wanted_flexible (pl_options pl) (pl_profile pl) + continuing_cost Flexible month (pl_enabled pl)
    \<and> ss_goal_spend st' = ss_goal_spend st + sum_list (map lg_target_amount due)"
proof -
  let ?p = "pl_profile pl" and ?o = "pl_options pl" and ?e = "pl_enabled pl"
  have ok: "stored_rate (lp_retirement_tax_rate_pct ?p)" "0 \<le> lp_cash_floor ?p"
    "0 \<le> lp_essential_monthly_spend ?p" "list_all goal_ok ?e" "0 \<le> wanted_flexible ?o ?p"
    "lp_essential_monthly_spend ?p + wanted_flexible ?o ?p + annual_costs ?e < 10 ^ 18"
    using assms(1) by (simp_all add: plan_ok_def)
  have bd: "lp_essential_monthly_spend ?p + annual_costs ?e < 10 ^ 18" "wanted_flexible ?o ?p + annual_costs ?e < 10 ^ 18"
    using ok(3,5,6) by linarith+
  define a where "a = essential_spending ?p ?e month age st"
  define b where "b = fund_due_goals ?o ?p month age Required due a"
  define c where "c = flexible_spending ?o ?p ?e month age b"
  have st': "st' = fund_due_goals ?o ?p month age Flexible due c"
    by (simp add: assms(5) retired_month_def a_def b_def c_def)
  have sa: "solvent a"
    using essential_spending_pays [OF ok(1,2) assms(7) ok(3,4) bd(1)] assms(2) by (simp add: pays_from_def a_def)
  have sb: "solvent b" using sa fund_due_goals_pays [OF assms(3) ok(1,2)] by (simp add: pays_from_def b_def)
  have fb: "ss_flexible_spend b = 0" using assms(8) by (simp add: b_def a_def)
  have sc: "solvent c"
    using flexible_spending_pays [OF ok(1,2) fb ok(5,4) bd(2)] sb by (simp add: pays_from_def c_def)
  note flexible = fund_due_goals_full [OF assms(6) [unfolded st'] assms(4) sc assms(3) ok(1,2)]
  then have "\<not> failed c" ..
  note opt = flexible_spending_full [OF this [unfolded c_def] sb ok(1,2,5,4) bd(2)]
  then have "\<not> failed b" ..
  note required = fund_due_goals_full [OF this [unfolded b_def] assms(4) sa assms(3) ok(1,2)]
  then have "\<not> failed a" ..
  note essential = essential_spending_full [OF this [unfolded a_def] assms(2) ok(1-4) bd(1)]
  have ga: "ss_goal_spend a = ss_goal_spend st" "ss_essential_spend b = ss_essential_spend a"
    by (simp_all add: a_def b_def)
  from flexible opt required essential ga targets_split [of due] show ?thesis
    by (simp add: st' c_def [symmetric] b_def [symmetric] a_def [symmetric])
qed

lemma grow_failed [simp]: "failed (grow r st) = failed st"
  by (simp add: grow_def apply_return_def failed_def Let_def)

lemma open_month_failed [simp]: "failed (open_month pl month st) = failed st"
  by (simp add: failed_def)

lemma simulate_month_full:
  assumes "plan_ok pl" "solvent st" "so_assessment_start_month (pl_options pl) = None"
    and "\<not> failed (simulate_month pl month st)" "row_matches pl month (simulate_month pl month st) row"
  shows "\<not> failed st \<and> paid_in_full pl row"
proof -
  let ?o = "open_month pl month st" and ?age = "age_months (lp_birth_date (pl_profile pl)) month"
  let ?due = "filter (\<lambda>g. month_start (lg_target_date g) = month) (pl_enabled pl)"
  let ?s = "spend_month pl month ?o"
  have so: "solvent ?o" by (rule open_month_facts(1) [OF assms(1,2)])
  have due: "list_all goal_ok ?due" using assms(1) by (auto simp: plan_ok_def list_all_iff)
  have r: "0 \<le> path_monthly_rate (pl_rate pl) (so_path (pl_options pl)) w n" for w n
    using assms(1) by (intro path_rate_nonneg) (simp add: plan_ok_def)
  have close: "failed (simulate_month pl month st) = failed ?s"
    "ss_essential_spend (simulate_month pl month st) = ss_essential_spend ?s"
    "ss_flexible_spend (simulate_month pl month st) = ss_flexible_spend ?s"
    "ss_goal_spend (simulate_month pl month st) = ss_goal_spend ?s"
    using grow_facts(4-6) [OF r] grow_failed
    by (simp_all add: simulate_month_def close_month_def record_period_def Let_def failed_def)
  note row = assms(5) [unfolded row_matches_def close]
  show ?thesis
  proof (cases "month < pl_stop_month pl")
    case True
    have "?s = work_month (pl_options pl) (pl_profile pl) (pl_pay pl) ?due month ?age ?o"
      using True by (simp add: spend_month_def Let_def)
    from work_month_full [OF assms(1) so due assms(3) this] assms(4) row True show ?thesis
      by (simp add: close paid_in_full_def)
  next
    case False
    have "?s = retired_month (pl_options pl) (pl_profile pl) (pl_enabled pl) ?due month ?age ?o"
      using False by (simp add: spend_month_def Let_def)
    from retired_month_full [OF assms(1) so due assms(3) this] assms(4) row False show ?thesis
      by (simp add: close paid_in_full_def)
  qed
qed

lemma fold_months_full:
  assumes "plan_ok pl" "solvent st" "so_assessment_start_month (pl_options pl) = None"
    and "\<not> failed (fold (simulate_month pl) ms st)" "list_all (paid_in_full pl) (ss_periods st)"
  shows "\<not> failed st \<and> list_all (paid_in_full pl) (ss_periods (fold (simulate_month pl) ms st))"
  using assms(4)
proof (induction ms rule: rev_induct)
  case Nil
  then show ?case using assms(5) by simp
next
  case (snoc m ms)
  let ?s = "fold (simulate_month pl) ms st"
  have s: "solvent ?s" using fold_months_rows [OF assms(1,2)] by blast
  obtain row where row: "row_matches pl m (simulate_month pl m ?s) row"
      "ss_periods (simulate_month pl m ?s) =
        (if so_include_periods (pl_options pl) then ss_periods ?s @ [row] else ss_periods ?s)"
    using simulate_month_records by blast
  have "\<not> failed ?s \<and> paid_in_full pl row"
    using simulate_month_full [OF assms(1) s assms(3) _ row(1)] snoc.prems by simp
  with snoc.IH row(2) show ?case by simp
qed

section \<open>Properties\<close>

text \<open>A household of 61 that has just stopped working, with a required and a flexible goal.\<close>

definition example_profile :: projection_profile where
  "example_profile =
     \<lparr>lp_birth_date = Date 1960 1 5, lp_state = ''TX'', lp_end_age = 62, lp_current_monthly_outflow = 300000,
      lp_essential_monthly_spend = 200000, lp_flexible_monthly_spend = 50000, lp_cash_floor = 100000,
      lp_retirement_tax_rate_pct = 20, lp_target_ages = [61]\<rparr>"

definition example_goals :: "projection_goal list" where
  "example_goals =
     [\<lparr>lg_id = 1, lg_name = ''Roof'', lg_target_date = Date 2021 11 15, lg_target_amount = 500000,
       lg_reserved_amount = 0, lg_annual_cost = 12000, lg_priority = Required, lg_enabled = True\<rparr>,
      \<lparr>lg_id = 2, lg_name = ''Trip'', lg_target_date = Date 2021 12 1, lg_target_amount = 80000,
       lg_reserved_amount = 0, lg_annual_cost = 0, lg_priority = Flexible, lg_enabled = True\<rparr>]"

definition example_start :: projection_start where
  "example_start =
     \<lparr>sp_as_of = Date 2021 10 15, sp_cash = 250000, sp_accessible = 1000000, sp_retirement = 6000000,
      sp_hsa = 20000, sp_restricted = 0, sp_debt = 0,
      sp_payroll = Some \<lparr>pp_annual_salary = 7800000, pp_net_per_paycheck = 200000, pp_employee_retirement = 30000,
        pp_employer_retirement = 15000, pp_employee_hsa = 1000, pp_employer_hsa = 500, pp_stock_plan = 0\<rparr>\<rparr>"

definition example_rate :: "rat \<Rightarrow> rat" where
  "example_rate annual = annual / 1200"

abbreviation example_options :: sim_options where
  "example_options \<equiv> default_options 61 Rough (Date 2021 10 15)"

lemma example_tax: "stored_rate 20"
  unfolding stored_rate_def by (rule exI [of _ 200000]) simp

lemma example_plan_ok: "plan_ok (plan_of example_rate example_profile example_goals example_start example_options)"
proof -
  have tax: "lp_retirement_tax_rate_pct example_profile = 20" by (simp add: example_profile_def)
  have "pay_ok (monthly_pay_of (sp_payroll example_start))" by code_simp
  moreover have "list_all goal_ok (filter lg_enabled example_goals)" by code_simp
  moreover have "rate_ok example_rate" by code_simp
  moreover have "levers_ok example_options" by code_simp
  moreover have "0 \<le> lp_cash_floor example_profile \<and> 0 \<le> lp_essential_monthly_spend example_profile
      \<and> 0 \<le> wanted_flexible example_options example_profile
      \<and> lp_current_monthly_outflow example_profile < 10 ^ 18
      \<and> lp_essential_monthly_spend example_profile + wanted_flexible example_options example_profile
          + annual_costs (filter lg_enabled example_goals) < 10 ^ 18" by code_simp
  ultimately show ?thesis
    unfolding plan_ok_def plan_of_def using example_tax by (simp add: tax)
qed

lemma example_solvent: "solvent (initial_state example_start (filter lg_enabled example_goals))"
  by code_simp

text \<open>
  C10: One month conserves money. Starting from non-negative balances every balance stays
  non-negative, and what the household owns after the month plus what it spent is what it owned
  before plus pay, contributions and events plus the investment result: exactly before 59 and a
  half, and at most that (the difference is tax) once retirement accounts may be drawn.
\<close>

theorem simulate_month_conserves:
  assumes "plan_ok pl" "solvent st" "st' = simulate_month pl month st"
  shows "solvent st'
    \<and> wealth st' + spent st' \<le> wealth st + pay_in pl month + ss_investment_result st'
    \<and> (age_months (lp_birth_date (pl_profile pl)) month < retirement_access_age_months
        \<longrightarrow> wealth st' + spent st' = wealth st + pay_in pl month + ss_investment_result st')"
  using simulate_month_facts [OF assms] by (auto simp: books_def)

theorem simulate_month_conserves_witness:
  "let pl = plan_of example_rate example_profile example_goals example_start example_options;
       st = initial_state example_start (filter lg_enabled example_goals)
   in solvent (simulate_month pl (Date 2021 10 1) st)"
  unfolding Let_def
  using simulate_month_conserves [OF example_plan_ok example_solvent refl] by blast

text \<open>
  C34: A projection always ends and has exactly one period for every month from the first month to
  the month of the end age, in order, with non-negative balances in every one.
\<close>

theorem simulate_covers_every_month:
  assumes "plan_ok (plan_of rate p goals start opts)" "solvent (initial_state start (filter lg_enabled goals))"
    and "valid_date (so_as_of opts)" "valid_date (lp_birth_date p)"
    and "month_index (so_as_of opts) \<le> month_index (lp_birth_date p) + 12 * lp_end_age p"
    and "so_include_periods opts"
  shows "\<exists>r. simulate rate p goals start opts = Inr r
    \<and> map pr_month (sr_periods r) =
        map month_at [month_index (so_as_of opts)..month_index (lp_birth_date p) + 12 * lp_end_age p]
    \<and> list_all row_solvent (sr_periods r)"
proof -
  let ?ms = "map month_at [month_index (so_as_of opts)..month_index (lp_birth_date p) + 12 * lp_end_age p]"
  obtain r st where r: "simulate rate p goals start opts = Inr r" "sr_periods r = ss_periods st"
      "st = fold (simulate_month (plan_of rate p goals start opts)) ?ms (initial_state start (filter lg_enabled goals))"
    by (rule simulate_runs [OF assms(1-5)])
  have "so_include_periods (pl_options (plan_of rate p goals start opts))" using assms(6) by (simp add: plan_of_def)
  then obtain rows where "ss_periods st = ss_periods (initial_state start (filter lg_enabled goals)) @ rows"
      "map pr_month rows = ?ms" "list_all row_solvent rows"
    using fold_months_rows [OF assms(1,2), of ?ms] r(3) by blast
  then show ?thesis using r(1,2) by (simp add: initial_state_def)
qed

theorem simulate_covers_every_month_witness:
  "\<exists>r. simulate example_rate example_profile example_goals example_start example_options = Inr r
    \<and> map pr_month (sr_periods r) = map month_at [24261..24264] \<and> list_all row_solvent (sr_periods r)"
proof -
  have "month_index (so_as_of example_options) = 24261
      \<and> month_index (lp_birth_date example_profile) + 12 * lp_end_age example_profile = 24264
      \<and> valid_date (so_as_of example_options) \<and> valid_date (lp_birth_date example_profile)
      \<and> so_include_periods example_options" by code_simp
  then show ?thesis
    using simulate_covers_every_month [OF example_plan_ok example_solvent] by simp
qed

text \<open>
  C32: The status \<open>works\<close> means what it says: every period of the projection pays its full spending
  - the outflow less the extra saving at work, the essential and flexible budgets with the running
  costs of the goals after it - and the full target of every goal due that month.
\<close>

theorem works_pays_in_full:
  assumes "simulate rate p goals start opts = Inr r" "works r"
    and "plan_ok (plan_of rate p goals start opts)" "solvent (initial_state start (filter lg_enabled goals))"
    and "valid_date (so_as_of opts)" "valid_date (lp_birth_date p)"
    and "month_index (so_as_of opts) \<le> month_index (lp_birth_date p) + 12 * lp_end_age p"
    and "so_assessment_start_month opts = None"
  shows "list_all (paid_in_full (plan_of rate p goals start opts)) (sr_periods r)"
proof -
  let ?pl = "plan_of rate p goals start opts" and ?i = "initial_state start (filter lg_enabled goals)"
  let ?ms = "map month_at [month_index (so_as_of opts)..month_index (lp_birth_date p) + 12 * lp_end_age p]"
  obtain r' st where r': "simulate rate p goals start opts = Inr r'" "sr_periods r' = ss_periods st"
      "sr_status r' = plan_status_of st" "st = fold (simulate_month ?pl) ?ms ?i"
    by (rule simulate_runs [OF assms(3-7)])
  with assms(1,2) have r: "r' = r" "\<not> failed st" by (auto simp: works_def works_iff_not_failed [symmetric])
  have "so_assessment_start_month (pl_options ?pl) = None" using assms(8) by (simp add: plan_of_def)
  with fold_months_full [OF assms(3,4) this, of ?ms] r r'(2,4) show ?thesis
    by (simp add: initial_state_def)
qed

lemma example_works:
  "works_with example_rate example_profile example_goals example_start example_options = Inr True"
  by code_simp

theorem works_pays_in_full_witness:
  "\<exists>r. simulate example_rate example_profile example_goals example_start example_options = Inr r \<and> works r
    \<and> list_all (paid_in_full (plan_of example_rate example_profile example_goals example_start example_options)) (sr_periods r)"
proof -
  obtain r where r: "simulate example_rate example_profile example_goals example_start example_options = Inr r" "works r"
    using example_works by (auto simp: works_with_def bind_res_Inr_iff)
  have c: "valid_date (so_as_of example_options)" "valid_date (lp_birth_date example_profile)"
    "month_index (so_as_of example_options)
       \<le> month_index (lp_birth_date example_profile) + 12 * lp_end_age example_profile"
    "so_assessment_start_month example_options = None" by code_simp+
  from works_pays_in_full [OF r example_plan_ok example_solvent c] r show ?thesis by (intro exI conjI)
qed

end
