(* ===== verification/Life_Solver.thy ===== *)
theory Life_Solver
  imports Life_Simulation
begin

text \<open>
  The reverse solver. A larger lever never makes a projection worse, so the doubling and halving
  search finds the least amount that works, to the cent; the earliest viable age is least too.
\<close>

section \<open>Searching for the least lever\<close>

lemma midpoint_div:
  assumes "0 \<le> low" "low \<le> high" "high < 10 ^ 26"
  shows "midpoint low high = (low + high + 1) div 2"
proof -
  have "dec (low + high) / 2 = of_int (5 * (low + high)) / 10 ^ 3" by (simp add: dec_def)
  moreover have "\<bar>5 * (low + high)\<bar> < 10 ^ 28" using assms by simp
  ultimately have d: "ddiv (dec (low + high)) 2 = of_int (low + high) / 200"
    unfolding ddiv_def by (simp only: ctx_exact) simp
  have "\<lfloor>of_int (low + high) / 2 + 1 / 2 :: rat\<rfloor> = (low + high + 1) div 2"
  proof -
    have "of_int (low + high) / 2 + 1 / 2 = (of_int (low + high + 1) / of_int 2 :: rat)" by simp
    then show ?thesis by (simp only: floor_divide_of_int_eq)
  qed
  then have f: "half_up (of_int (low + high) / 2) = (low + high + 1) div 2"
    using assms(1,2) by (simp only: half_up_def) (simp add: not_less)
  have "of_int (low + high) / 200 * 100 = (of_int (low + high) / 2 :: rat)" by simp
  then show ?thesis unfolding midpoint_def d money_def by (simp only: f)
qed

lemma find_high_spec:
  assumes "\<And>v. 0 \<le> v \<Longrightarrow> ev v = Inr (w v)" "0 \<le> low" "low < high" "\<not> w low"
    and "high - low \<le> max low c" "high * 2 ^ n \<le> b"
  shows "(find_high ev n low high = Inr None \<and> (0 < n \<longrightarrow> \<not> w (high * 2 ^ (n - 1))))
    \<or> (\<exists>l h. find_high ev n low high = Inr (Some (l, h)) \<and> 0 \<le> l \<and> l < h \<and> \<not> w l \<and> w h \<and> h - l \<le> max l c \<and> h \<le> b)"
  using assms(2-6)
proof (induction n arbitrary: low high)
  case 0
  then show ?case by simp
next
  case (Suc n)
  have e: "ev high = Inr (w high)" using assms(1) Suc.prems by simp
  show ?case
  proof (cases "w high")
    case True
    have "high * 1 \<le> high * 2 ^ Suc n" using Suc.prems by (intro mult_left_mono one_le_power) auto
    then have "high \<le> b" using Suc.prems(5) by linarith
    with True Suc.prems e show ?thesis by simp
  next
    case False
    have "high * 2 - high \<le> max high c" "high * 2 * 2 ^ n \<le> b" using Suc.prems by (simp_all add: mult.assoc)
    from Suc.IH [OF _ _ False this] Suc.prems
    have "(find_high ev n high (high * 2) = Inr None \<and> (0 < n \<longrightarrow> \<not> w (high * 2 * 2 ^ (n - 1))))
      \<or> (\<exists>l h. find_high ev n high (high * 2) = Inr (Some (l, h)) \<and> 0 \<le> l \<and> l < h \<and> \<not> w l \<and> w h \<and> h - l \<le> max l c \<and> h \<le> b)"
      by simp
    moreover have "\<not> w (high * 2 ^ n)" if "0 < n \<longrightarrow> \<not> w (high * 2 * 2 ^ (n - 1))"
      using that False by (cases n) (auto simp: mult.assoc)
    ultimately show ?thesis using e False by auto
  qed
qed

lemma bisect_spec:
  assumes "\<And>v. 0 \<le> v \<Longrightarrow> ev v = Inr (w v)" "0 \<le> low" "low < high" "\<not> w low" "w high" "high < 10 ^ 26"
  shows "\<exists>m. bisect ev n low high = Inr m \<and> low < m \<and> m \<le> high \<and> w m \<and> (high - low \<le> 2 ^ n \<longrightarrow> \<not> w (m - 1))"
  using assms(2-6)
proof (induction n arbitrary: low high)
  case 0
  have "\<not> w (high - 1)" if "high - low \<le> 1"
  proof -
    have "high - 1 = low" using that 0(2) by simp
    with 0(3) show ?thesis by simp
  qed
  with 0 show ?case by auto
next
  case (Suc n)
  let ?m = "midpoint low high"
  have m: "?m = (low + high + 1) div 2" using Suc.prems by (intro midpoint_div) auto
  then have mb: "low < ?m" "?m \<le> high" using Suc.prems by auto
  have e: "ev ?m = Inr (w ?m)" using assms(1) mb Suc.prems by simp
  define l where "l = (if w ?m then low else ?m)"
  define h where "h = (if w ?m then ?m else high)"
  have lh: "0 \<le> l" "l < h" "\<not> w l" "w h" "h < 10 ^ 26" "low \<le> l" "h \<le> high"
  proof -
    have "?m \<noteq> high" if "\<not> w ?m" using that Suc.prems(4) by auto
    then show "l < h" using mb by (auto simp: l_def h_def)
  qed (use Suc.prems mb in \<open>auto simp: l_def h_def\<close>)
  have gap: "h - l \<le> 2 ^ n" if "high - low \<le> 2 ^ Suc n"
    using that m mb by (auto simp: l_def h_def)
  have run: "bisect ev (Suc n) low high = (if h - l \<le> 1 then Inr h else bisect ev n l h)"
    by (simp add: e Let_def l_def h_def)
  show ?case
  proof (cases "h - l \<le> 1")
    case True
    then have "l = h - 1" using lh by simp
    with True lh run show ?thesis by auto
  next
    case False
    obtain m' where "bisect ev n l h = Inr m'" "l < m'" "m' \<le> h" "w m'" "h - l \<le> 2 ^ n \<longrightarrow> \<not> w (m' - 1)"
      using Suc.IH [OF lh(1-5)] by blast
    with False gap lh(6,7) run show ?thesis by auto
  qed
qed

lemma minimum_change_spec:
  assumes ev: "\<And>v. 0 \<le> v \<Longrightarrow> ev v = Inr (w v)"
    and mono: "\<And>u v. 0 \<le> u \<Longrightarrow> u \<le> v \<Longrightarrow> w u \<Longrightarrow> w v"
    and "0 < c" "c \<le> 10 ^ 6"
  shows "\<exists>res. minimum_change ev c 64 = Inr res
    \<and> (case res of
         None \<Rightarrow> \<forall>v. 0 \<le> v \<and> v \<le> c * 2 ^ 63 \<longrightarrow> \<not> w v
       | Some m \<Rightarrow> 0 \<le> m \<and> w m \<and> (m \<le> 2 ^ 40 \<and> c \<le> 2 ^ 40 \<longrightarrow> (\<forall>v. 0 \<le> v \<and> v < m \<longrightarrow> \<not> w v)))"
proof (cases "w 0")
  case True
  then show ?thesis by (intro exI [of _ "Some 0"]) (auto simp: minimum_change_def ev)
next
  case False
  have "c * 2 ^ 64 \<le> (10 ^ 26 - 1 :: int)" using assms(4) by simp
  from find_high_spec [where ev = ev and w = w and low = 0 and high = c and c = c, OF ev _ assms(3) False _ this]
  consider (none) "find_high ev 64 0 c = Inr None" "\<not> w (c * 2 ^ 63)"
    | (some) l h where "find_high ev 64 0 c = Inr (Some (l, h))" "0 \<le> l" "l < h" "\<not> w l" "w h"
        "h - l \<le> max l c" "h \<le> 10 ^ 26 - 1"
    using assms(3) by auto
  then show ?thesis
  proof cases
    case none
    have "\<not> w v" if "0 \<le> v" "v \<le> c * 2 ^ 63" for v using mono that none(2) by blast
    with none False show ?thesis by (intro exI [of _ None]) (simp add: minimum_change_def ev)
  next
    case some
    obtain m where m: "bisect ev 40 l h = Inr m" "l < m" "m \<le> h" "w m" "h - l \<le> 2 ^ 40 \<longrightarrow> \<not> w (m - 1)"
      using bisect_spec [where ev = ev and w = w and n = 40, OF ev some(2-5)] some(7) by auto
    have "\<not> w v" if "m \<le> 2 ^ 40" "c \<le> 2 ^ 40" "0 \<le> v" "v < m" for v
    proof -
      have "h - l \<le> 2 ^ 40" using that(1,2) some(6) m(2) by simp
      with m(5) have "\<not> w (m - 1)" by simp
      with mono [of v "m - 1"] that show ?thesis by auto
    qed
    with some m False show ?thesis
      by (intro exI [of _ "Some m"]) (simp add: minimum_change_def ev)
  qed
qed

section \<open>A larger lever is never worse\<close>

text \<open>\<open>B\<close> is at least as well off as \<open>A\<close>.\<close>

definition no_worse :: "sim_state \<Rightarrow> sim_state \<Rightarrow> bool" where
  "no_worse A B \<longleftrightarrow>
     ss_cash A \<le> ss_cash B \<and> 0 \<le> ss_accessible A \<and> ss_accessible A \<le> ss_accessible B
     \<and> 0 \<le> ss_retirement A \<and> ss_retirement A \<le> ss_retirement B
     \<and> (ss_required_failed B \<longrightarrow> ss_required_failed A) \<and> (ss_flexible_failed B \<longrightarrow> ss_flexible_failed A)
     \<and> ss_months_after_stop A = ss_months_after_stop B"

definition larger_lever :: "sim_options \<Rightarrow> sim_options \<Rightarrow> bool" where
  "larger_lever a b \<longleftrightarrow>
     so_path a = so_path b \<and> so_path b \<noteq> Early_crash
     \<and> so_extra_monthly_saving a \<le> so_extra_monthly_saving b
     \<and> so_additional_monthly_income a \<le> so_additional_monthly_income b
     \<and> so_liquidity_event a \<le> so_liquidity_event b
     \<and> so_liquidity_event_month a = so_liquidity_event_month b
     \<and> so_flexible_spend_override a = so_flexible_spend_override b
     \<and> so_assessment_start_month a = so_assessment_start_month b"

lemma withdraw_from_mono:
  assumes "withdraw_from p age q A = (rem, A1)" "withdraw_from p age q2 B = (rem2, B1)"
    and "no_worse A B" "0 \<le> q2" "q2 \<le> q" "q < 10 ^ 18" "stored_rate (lp_retirement_tax_rate_pct p)"
  shows "rem2 \<le> rem \<and> no_worse A1 B1"
proof -
  let ?w = "\<lambda>q s. withdraw q (ss_cash s) (ss_accessible s) (ss_retirement s) (lp_cash_floor p) age (lp_retirement_tax_rate_pct p)"
  obtain c a b where w: "?w q A = (rem, c, a, b)" "A1 = A\<lparr>ss_cash := c, ss_accessible := a, ss_retirement := b\<rparr>"
    using assms(1) by (auto simp: withdraw_from_def split: prod.splits)
  obtain c2 a2 b2 where w2: "?w q2 B = (rem2, c2, a2, b2)" "B1 = B\<lparr>ss_cash := c2, ss_accessible := a2, ss_retirement := b2\<rparr>"
    using assms(2) by (auto simp: withdraw_from_def split: prod.splits)
  have "rem2 \<le> rem \<and> c \<le> c2 \<and> a \<le> a2 \<and> b \<le> b2"
    by (rule withdraw_mono [OF w(1) w2(1) assms(4-6) _ _ _ _ _ assms(7)])
      (use assms(3) in \<open>simp_all add: no_worse_def\<close>)
  moreover have "0 \<le> a \<and> 0 \<le> b"
    using withdraw_facts [OF w(1) _ assms(6) _ _ assms(7)] assms(3-5) by (simp add: no_worse_def)
  ultimately show ?thesis using assms(3) w(2) w2(2) by (simp add: no_worse_def)
qed

lemma fund_goal_mono:
  assumes "no_worse A B" "goal_ok g" "stored_rate (lp_retirement_tax_rate_pct p)" "larger_lever oa ob"
  shows "no_worse (fund_goal oa p month age g A) (fund_goal ob p month age g B)"
proof -
  obtain rem A1 where a: "withdraw_from p age (lg_target_amount g) A = (rem, A1)" by fastforce
  obtain rem2 B1 where b: "withdraw_from p age (lg_target_amount g) B = (rem2, B1)" by fastforce
  have "rem2 \<le> rem \<and> no_worse A1 B1"
    using assms(2) by (intro withdraw_from_mono [OF a b assms(1) _ _ _ assms(3)]) (auto simp: goal_ok_def)
  with assms(4) show ?thesis
    by (auto simp: fund_goal_def a b Let_def no_worse_def larger_lever_def counts_toward_result_def)
qed

lemma fund_due_goals_mono:
  assumes "no_worse A B" "list_all goal_ok gs" "stored_rate (lp_retirement_tax_rate_pct p)" "larger_lever oa ob"
  shows "no_worse (fund_due_goals oa p month age prio gs A) (fund_due_goals ob p month age prio gs B)"
proof -
  have "no_worse (fold (fund_goal oa p month age) rows A) (fold (fund_goal ob p month age) rows B)"
    if "no_worse A B" "list_all goal_ok rows" for rows A B
    using that
  proof (induction rows arbitrary: A B)
    case (Cons g rows)
    then show ?case using fund_goal_mono [OF Cons.prems(1) _ assms(3,4)] by simp
  qed simp
  then show ?thesis using assms(1,2) by (simp add: fund_due_goals_def list_all_iff)
qed

lemma sweep_cash_mono: "no_worse A B \<Longrightarrow> no_worse (sweep_cash p A) (sweep_cash p B)"
  by (auto simp: no_worse_def sweep_cash_def)

lemma work_spending_mono:
  assumes "no_worse A B" "stored_rate (lp_retirement_tax_rate_pct p)" "larger_lever oa ob"
    and "lp_current_monthly_outflow p < 10 ^ 18" "0 \<le> so_extra_monthly_saving oa"
  shows "no_worse (work_spending oa p pay month age A) (work_spending ob p pay month age B)"
proof -
  let ?q = "\<lambda>o'. max 0 (lp_current_monthly_outflow p - so_extra_monthly_saving o')"
  obtain rem A1 where a: "withdraw_from p age (?q oa) (paid_in oa pay A) = (rem, A1)" by fastforce
  obtain rem2 B1 where b: "withdraw_from p age (?q ob) (paid_in ob pay B) = (rem2, B1)" by fastforce
  have "no_worse (paid_in oa pay A) (paid_in ob pay B)"
    using assms(1,3) by (simp add: no_worse_def paid_in_def larger_lever_def)
  then have "rem2 \<le> rem \<and> no_worse A1 B1"
    by (rule withdraw_from_mono [OF a b _ _ _ _ assms(2)])
      (use assms(3-5) in \<open>auto simp: larger_lever_def le_max_iff_disj\<close>)
  with assms(3) show ?thesis
    using a b
    by (auto simp: work_spending_def paid_in_def Let_def no_worse_def larger_lever_def counts_toward_result_def)
qed

lemma essential_spending_mono:
  assumes "no_worse A B" "stored_rate (lp_retirement_tax_rate_pct p)"
    and "0 \<le> lp_essential_monthly_spend p" "list_all goal_ok enabled"
    and "lp_essential_monthly_spend p + annual_costs enabled < 10 ^ 18"
  shows "no_worse (essential_spending p enabled month age A) (essential_spending p enabled month age B)"
proof -
  let ?q = "lp_essential_monthly_spend p + continuing_cost Required month enabled"
  obtain rem A1 where a: "withdraw_from p age ?q A = (rem, A1)" by fastforce
  obtain rem2 B1 where b: "withdraw_from p age ?q B = (rem2, B1)" by fastforce
  have "rem2 \<le> rem \<and> no_worse A1 B1"
    using continuing_cost_bounds [OF assms(4), of Required month] assms(3,5) annual_costs_nonneg [OF assms(4)]
    by (intro withdraw_from_mono [OF a b assms(1) _ _ _ assms(2)]) auto
  then show ?thesis by (auto simp: essential_spending_def a b Let_def no_worse_def)
qed

lemma wanted_same: "larger_lever oa ob \<Longrightarrow> wanted_flexible ob p = wanted_flexible oa p"
  by (simp add: larger_lever_def wanted_flexible_def)

lemma flexible_spending_mono:
  assumes "no_worse A B" "stored_rate (lp_retirement_tax_rate_pct p)" "larger_lever oa ob"
    and "0 \<le> wanted_flexible oa p" "list_all goal_ok enabled"
    and "wanted_flexible oa p + annual_costs enabled < 10 ^ 18"
  shows "no_worse (flexible_spending oa p enabled month age A) (flexible_spending ob p enabled month age B)"
proof -
  let ?q = "wanted_flexible oa p + continuing_cost Flexible month enabled"
  obtain rem A1 where a: "withdraw_from p age ?q A = (rem, A1)" by fastforce
  obtain rem2 B1 where b: "withdraw_from p age ?q B = (rem2, B1)" by fastforce
  have "rem2 \<le> rem \<and> no_worse A1 B1"
    using continuing_cost_bounds [OF assms(5), of Flexible month] assms(4,6) annual_costs_nonneg [OF assms(5)]
    by (intro withdraw_from_mono [OF a b assms(1) _ _ _ assms(2)]) auto
  then show ?thesis by (auto simp: flexible_spending_def wanted_same [OF assms(3)] a b Let_def no_worse_def)
qed

text \<open>The whole month, for two plans that differ only in their levers.\<close>

definition same_but_levers :: "sim_plan \<Rightarrow> sim_plan \<Rightarrow> bool" where
  "same_but_levers a b \<longleftrightarrow> b = a\<lparr>pl_options := pl_options b\<rparr> \<and> larger_lever (pl_options a) (pl_options b)"

lemma return_mono:
  assumes "0 \<le> r" "v \<le> v2"
  shows "v + money (dmul (dec v) r) \<le> v2 + money (dmul (dec v2) r)"
proof -
  have "dec v * r \<le> dec v2 * r" using assms by (intro mult_right_mono) auto
  then have "money (dmul (dec v) r) \<le> money (dmul (dec v2) r)"
    by (simp add: dmul_def money_mono ctx_mono)
  with assms(2) show ?thesis by simp
qed

lemma grow_mono:
  assumes "0 \<le> r" "no_worse A B"
  shows "no_worse (grow r A) (grow r B)"
  using assms return_mono [OF assms(1)]
    return_keeps_nonneg [of r "ss_accessible A"] return_keeps_nonneg [of r "ss_retirement A"]
  by (auto simp: grow_def apply_return_def no_worse_def Let_def)

lemma open_month_mono:
  assumes "no_worse A B" "same_but_levers a b" "plan_ok a"
  shows "no_worse (open_month a month A) (open_month b month B)"
proof -
  obtain ob where b: "b = a\<lparr>pl_options := ob\<rparr>" and lev: "larger_lever (pl_options a) ob"
    using assms(2) unfolding same_but_levers_def by (metis sim_plan.select_convs(2) sim_plan.surjective sim_plan.update_convs(2))
  have ok: "pay_ok (pl_pay a)" "levers_ok (pl_options a)" using assms(3) by (auto simp: plan_ok_def)
  then show ?thesis
    using assms(1) lev unfolding b
    by (auto simp: open_month_def contribute_def apply_crash_def clear_month_def note_stop_def receive_event_def
        no_worse_def larger_lever_def pay_ok_def levers_ok_def Let_def)
qed

lemma spend_month_mono:
  assumes "no_worse A B" "same_but_levers a b" "plan_ok a"
  shows "no_worse (spend_month a month A) (spend_month b month B)"
proof -
  let ?p = "pl_profile a" and ?e = "pl_enabled a" and ?oa = "pl_options a" and ?ob = "pl_options b"
  let ?due = "filter (\<lambda>g. month_start (lg_target_date g) = month) ?e" and ?age = "age_months (lp_birth_date ?p) month"
  have b: "pl_profile b = ?p" "pl_enabled b = ?e" "pl_pay b = pl_pay a" "pl_stop_month b = pl_stop_month a"
    and lev: "larger_lever ?oa ?ob"
    using assms(2) unfolding same_but_levers_def by (metis sim_plan.ext_inject sim_plan.surjective sim_plan.update_convs(2))+
  have ok: "stored_rate (lp_retirement_tax_rate_pct ?p)" "lp_current_monthly_outflow ?p < 10 ^ 18"
    "0 \<le> so_extra_monthly_saving ?oa" "0 \<le> lp_essential_monthly_spend ?p" "list_all goal_ok ?e"
    "0 \<le> wanted_flexible ?oa ?p"
    "lp_essential_monthly_spend ?p + wanted_flexible ?oa ?p + annual_costs ?e < 10 ^ 18"
    using assms(3) by (simp_all add: plan_ok_def levers_ok_def)
  have bd: "lp_essential_monthly_spend ?p + annual_costs ?e < 10 ^ 18" "wanted_flexible ?oa ?p + annual_costs ?e < 10 ^ 18"
    using ok(4,6,7) by linarith+
  have due: "list_all goal_ok ?due" using ok(5) by (auto simp: list_all_iff)
  note fund = fund_due_goals_mono [OF _ due ok(1) lev]
  show ?thesis
  proof (cases "month < pl_stop_month a")
    case True
    have "no_worse (work_month ?oa ?p (pl_pay a) ?due month ?age A) (work_month ?ob ?p (pl_pay a) ?due month ?age B)"
      unfolding work_month_def
      by (rule fund [OF fund [OF sweep_cash_mono [OF work_spending_mono [OF assms(1) ok(1) lev ok(2,3)]]]])
    then show ?thesis by (simp add: spend_month_def Let_def b True)
  next
    case False
    have "no_worse (retired_month ?oa ?p ?e ?due month ?age A) (retired_month ?ob ?p ?e ?due month ?age B)"
      unfolding retired_month_def
      by (rule fund [OF flexible_spending_mono [OF fund [OF essential_spending_mono [OF assms(1) ok(1,4,5) bd(1)]]
            ok(1) lev ok(6,5) bd(2)]])
    then show ?thesis by (simp add: spend_month_def Let_def b False)
  qed
qed

lemma no_worse_record:
  "no_worse (record_period oa pa paya da m1 g1 w1 A) (record_period ob pb payb db m2 g2 w2 B) = no_worse A B"
  by (simp add: record_period_def no_worse_def Let_def)

lemma simulate_month_mono:
  assumes "no_worse A B" "same_but_levers a b" "plan_ok a"
  shows "no_worse (simulate_month a month A) (simulate_month b month B)"
proof -
  let ?A = "spend_month a month (open_month a month A)" and ?B = "spend_month b month (open_month b month B)"
  have AB: "no_worse ?A ?B"
    by (rule spend_month_mono [OF open_month_mono [OF assms] assms(2,3)])
  have b: "pl_stop_month b = pl_stop_month a" "pl_rate b = pl_rate a" and lev: "larger_lever (pl_options a) (pl_options b)"
    using assms(2) unfolding same_but_levers_def by (metis sim_plan.ext_inject sim_plan.surjective sim_plan.update_convs(2))+
  have m: "ss_months_after_stop ?B = ss_months_after_stop ?A" and path: "so_path (pl_options b) = so_path (pl_options a)"
    using AB lev by (simp_all add: no_worse_def larger_lever_def)
  have "0 \<le> path_monthly_rate (pl_rate a) (so_path (pl_options a)) w n" for w n
    using assms(3) by (intro path_rate_nonneg) (simp add: plan_ok_def)
  from grow_mono [OF this AB] show ?thesis
    by (simp add: simulate_month_def close_month_def no_worse_record Let_def b m path)
qed

lemma fold_months_mono:
  "no_worse A B \<Longrightarrow> same_but_levers a b \<Longrightarrow> plan_ok a
    \<Longrightarrow> no_worse (fold (simulate_month a) ms A) (fold (simulate_month b) ms B)"
  by (induction ms arbitrary: A B) (auto simp: simulate_month_mono)

section \<open>Properties\<close>

text \<open>What the solver needs of a household to run at all: valid dates, and months to project.\<close>

definition horizon_ok :: "projection_profile \<Rightarrow> date \<Rightarrow> bool" where
  "horizon_ok p as_of \<longleftrightarrow> valid_date as_of \<and> valid_date (lp_birth_date p)
     \<and> month_index as_of \<le> month_index (lp_birth_date p) + 12 * lp_end_age p"

lemma works_with_total:
  assumes "plan_ok (plan_of rate p goals start opts)" "solvent (initial_state start (filter lg_enabled goals))"
    and "horizon_ok p (so_as_of opts)"
  shows "works_with rate p goals start opts = Inr (\<not> failed (fold (simulate_month (plan_of rate p goals start opts))
    (map month_at [month_index (so_as_of opts)..month_index (lp_birth_date p) + 12 * lp_end_age p])
    (initial_state start (filter lg_enabled goals))))"
proof -
  have h: "valid_date (so_as_of opts)" "valid_date (lp_birth_date p)"
    "month_index (so_as_of opts) \<le> month_index (lp_birth_date p) + 12 * lp_end_age p"
    using assms(3) by (auto simp: horizon_ok_def)
  show ?thesis
    by (rule simulate_runs [OF assms(1,2) h]) (simp add: works_with_def works_def works_iff_not_failed)
qed

lemma works_with_mono:
  assumes "plan_ok (plan_of rate p goals start a)" "plan_ok (plan_of rate p goals start b)"
    and "solvent (initial_state start (filter lg_enabled goals))" "horizon_ok p (so_as_of a)"
    and "larger_lever a b" "so_as_of b = so_as_of a" "so_target_age b = so_target_age a"
    and "works_with rate p goals start a = Inr True"
  shows "works_with rate p goals start b = Inr True"
proof -
  let ?i = "initial_state start (filter lg_enabled goals)"
  let ?ms = "map month_at [month_index (so_as_of a)..month_index (lp_birth_date p) + 12 * lp_end_age p]"
  have "no_worse ?i ?i" using assms(3) by (simp add: no_worse_def solvent_def)
  moreover have "same_but_levers (plan_of rate p goals start a) (plan_of rate p goals start b)"
    using assms(5,7) by (simp add: same_but_levers_def plan_of_def)
  ultimately have "no_worse (fold (simulate_month (plan_of rate p goals start a)) ?ms ?i)
      (fold (simulate_month (plan_of rate p goals start b)) ?ms ?i)"
    by (rule fold_months_mono [OF _ _ assms(1)])
  then show ?thesis
    using works_with_total [OF assms(1,3,4)] works_with_total [OF assms(2,3)] assms(4,6,8)
    by (auto simp: no_worse_def failed_def)
qed

text \<open>The two levers the solver turns.\<close>

lemma income_plan_ok:
  "plan_ok (plan_of rate p goals start (income_options age path as_of 0)) \<Longrightarrow> 0 \<le> v
    \<Longrightarrow> plan_ok (plan_of rate p goals start (income_options age path as_of v))"
  by (simp add: plan_ok_def plan_of_def income_options_def default_options_def wanted_flexible_def levers_ok_def)

lemma capital_plan_ok:
  "plan_ok (plan_of rate p goals start (capital_options stop age path as_of 0)) \<Longrightarrow> 0 \<le> v
    \<Longrightarrow> plan_ok (plan_of rate p goals start (capital_options stop age path as_of v))"
  by (simp add: plan_ok_def plan_of_def capital_options_def default_options_def wanted_flexible_def levers_ok_def)

lemma lever_fields:
  "so_as_of (income_options age path as_of v) = as_of" "so_as_of (capital_options stop age path as_of v) = as_of"
  "so_target_age (income_options age path as_of v) = age" "so_target_age (capital_options stop age path as_of v) = age"
  by (simp_all add: income_options_def capital_options_def default_options_def)

lemma lever_larger:
  assumes "path \<noteq> Early_crash" "u \<le> v"
  shows "larger_lever (income_options age path as_of u) (income_options age path as_of v)"
    and "larger_lever (capital_options stop age path as_of u) (capital_options stop age path as_of v)"
  using assms by (simp_all add: larger_lever_def income_options_def capital_options_def default_options_def)

lemma solver_spec:
  assumes "0 < c" "c \<le> 10 ^ 6" "\<And>v. so_as_of (opts v) = as_of" "\<And>v. so_target_age (opts v) = age"
    and "\<And>u v. u \<le> v \<Longrightarrow> larger_lever (opts u) (opts v)"
    and "\<And>v. 0 \<le> v \<Longrightarrow> plan_ok (plan_of rate p goals start (opts v))"
    and "solvent (initial_state start (filter lg_enabled goals))" "horizon_ok p as_of"
  shows "\<exists>res. minimum_change (\<lambda>v. works_with rate p goals start (opts v)) c 64 = Inr res
    \<and> (case res of
         None \<Rightarrow> \<forall>v. 0 \<le> v \<and> v \<le> c * 2 ^ 63 \<longrightarrow> works_with rate p goals start (opts v) = Inr False
       | Some m \<Rightarrow> 0 \<le> m \<and> works_with rate p goals start (opts m) = Inr True
           \<and> (m \<le> 2 ^ 40 \<longrightarrow> (\<forall>v. 0 \<le> v \<and> v < m \<longrightarrow> works_with rate p goals start (opts v) = Inr False)))"
proof -
  let ?ev = "\<lambda>v. works_with rate p goals start (opts v)"
  let ?w = "\<lambda>v. ?ev v = Inr True"
  have ev: "?ev v = Inr (?w v)" if "0 \<le> v" for v
    using works_with_total [OF assms(6) [OF that] assms(7)] assms(3,8) by auto
  have mono: "?w v" if "0 \<le> u" "u \<le> v" "?w u" for u v
    by (rule works_with_mono [OF assms(6) assms(6) assms(7) _ assms(5) _ _ that(3)])
      (use that assms(3,4,8) in auto)
  have no: "?ev v = Inr False" if "\<not> ?w v" "0 \<le> v" for v
    using ev [OF that(2)] that(1) by (metis (full_types))
  have c: "c \<le> 2 ^ 40" using assms(2) by simp
  have "\<exists>res. minimum_change ?ev c 64 = Inr res
    \<and> (case res of
         None \<Rightarrow> \<forall>v. 0 \<le> v \<and> v \<le> c * 2 ^ 63 \<longrightarrow> \<not> ?w v
       | Some m \<Rightarrow> 0 \<le> m \<and> ?w m \<and> (m \<le> 2 ^ 40 \<and> c \<le> 2 ^ 40 \<longrightarrow> (\<forall>v. 0 \<le> v \<and> v < m \<longrightarrow> \<not> ?w v)))"
    by (rule minimum_change_spec [where w = ?w]) (fact ev mono assms(1,2))+
  then obtain res where run: "minimum_change ?ev c 64 = Inr res"
    and spec: "case res of
         None \<Rightarrow> \<forall>v. 0 \<le> v \<and> v \<le> c * 2 ^ 63 \<longrightarrow> \<not> ?w v
       | Some m \<Rightarrow> 0 \<le> m \<and> ?w m \<and> (m \<le> 2 ^ 40 \<and> c \<le> 2 ^ 40 \<longrightarrow> (\<forall>v. 0 \<le> v \<and> v < m \<longrightarrow> \<not> ?w v))"
    by blast
  show ?thesis
    by (rule exI [of _ res], cases res) (use run spec no c in simp_all)
qed

text \<open>
  C5: On the middle and rough paths the additional monthly income the projection reports is the
  least that makes the plan work, to the cent (up to ten billion dollars a month): the plan works
  with it and with no smaller amount. When it reports none, no amount the doubling can reach works.
\<close>

theorem additional_income_least:
  assumes "path \<noteq> Early_crash" "plan_ok (plan_of rate p goals start (income_options age path as_of 0))"
    and "solvent (initial_state start (filter lg_enabled goals))" "horizon_ok p as_of"
  shows "\<exists>res. additional_income_needed rate p goals start age path as_of = Inr res
    \<and> (case res of
         None \<Rightarrow> \<forall>v. 0 \<le> v \<and> v \<le> 100000 * 2 ^ 63
                   \<longrightarrow> works_with rate p goals start (income_options age path as_of v) = Inr False
       | Some m \<Rightarrow> 0 \<le> m \<and> works_with rate p goals start (income_options age path as_of m) = Inr True
           \<and> (m \<le> 2 ^ 40 \<longrightarrow> (\<forall>v. 0 \<le> v \<and> v < m
                \<longrightarrow> works_with rate p goals start (income_options age path as_of v) = Inr False)))"
  unfolding additional_income_needed_def
  by (rule solver_spec [OF _ _ lever_fields(1,3) lever_larger(1) [OF assms(1)] income_plan_ok [OF assms(2)] assms(3,4)])
    simp_all

lemma example_levers_ok:
  "plan_ok (plan_of example_rate example_profile example_goals example_start
     (income_options 61 Rough (Date 2021 10 15) 0))"
  "plan_ok (plan_of example_rate example_profile example_goals example_start
     (capital_options stop 61 Rough (Date 2021 10 15) 0))"
  using example_plan_ok
  by (simp_all add: plan_ok_def plan_of_def income_options_def capital_options_def default_options_def
      wanted_flexible_def levers_ok_def)

lemma example_horizon: "horizon_ok example_profile (Date 2021 10 15)"
  by code_simp

theorem additional_income_least_witness:
  "\<exists>res. additional_income_needed example_rate example_profile example_goals example_start 61 Rough (Date 2021 10 15)
     = Inr res"
  using additional_income_least [OF _ example_levers_ok(1) example_solvent example_horizon] by blast

text \<open>
  C33: The same for the capital needed on the day work stops: the reported amount is the least
  that makes every month from then on work.
\<close>

theorem retirement_capital_least:
  assumes "path \<noteq> Early_crash" "stop = month_for_age (lp_birth_date p) age"
    and "plan_ok (plan_of rate p goals start (capital_options stop age path as_of 0))"
    and "solvent (initial_state start (filter lg_enabled goals))" "horizon_ok p as_of"
  shows "\<exists>res. retirement_capital_needed rate p goals start age path as_of = Inr res
    \<and> (case res of
         None \<Rightarrow> \<forall>v. 0 \<le> v \<and> v \<le> 1000000 * 2 ^ 63
                   \<longrightarrow> works_with rate p goals start (capital_options stop age path as_of v) = Inr False
       | Some m \<Rightarrow> 0 \<le> m \<and> works_with rate p goals start (capital_options stop age path as_of m) = Inr True
           \<and> (m \<le> 2 ^ 40 \<longrightarrow> (\<forall>v. 0 \<le> v \<and> v < m
                \<longrightarrow> works_with rate p goals start (capital_options stop age path as_of v) = Inr False)))"
  unfolding retirement_capital_needed_def Let_def assms(2) [symmetric]
  by (rule solver_spec [OF _ _ lever_fields(2,4) lever_larger(2) [OF assms(1)] capital_plan_ok [OF assms(3)] assms(4,5)])
    simp_all

theorem retirement_capital_least_witness:
  "\<exists>res. retirement_capital_needed example_rate example_profile example_goals example_start 61 Rough (Date 2021 10 15)
     = Inr res"
  using retirement_capital_least [OF _ refl example_levers_ok(2) example_solvent example_horizon] by blast

lemma first_working_age_spec:
  "first_working_age ev ages = Inr res \<Longrightarrow>
    (case res of
       None \<Rightarrow> \<forall>a \<in> set ages. ev a = Inr False
     | Some a \<Rightarrow> ev a = Inr True \<and> (\<exists>us vs. ages = us @ a # vs \<and> (\<forall>b \<in> set us. ev b = Inr False)))"
proof (induction ages)
  case Nil
  then show ?case by auto
next
  case (Cons x ages)
  then obtain ok where ok: "ev x = Inr ok" and rest: "(if ok then Inr (Some x) else first_working_age ev ages) = Inr res"
    by (auto elim: bind_res_InrE)
  show ?case
  proof (cases ok)
    case True
    with rest have r: "res = Some x" by simp
    show ?thesis unfolding r by (simp add: ok True) (rule exI [of _ "[]"], simp)
  next
    case False
    with rest have "first_working_age ev ages = Inr res" by simp
    note IH = Cons.IH [OF this]
    show ?thesis
    proof (cases res)
      case None
      with IH ok False show ?thesis by simp
    next
      case (Some a)
      with IH obtain us vs where "ev a = Inr True" "ages = us @ a # vs" "\<forall>b \<in> set us. ev b = Inr False" by auto
      with Some ok False show ?thesis by simp (rule exI [of _ "x # us"], simp)
    qed
  qed
qed

text \<open>
  The earliest viable age is the least age from the target on, before the end age, at which the
  plan works on the middle path; none is reported only when the plan works at none of them.
\<close>

lemma earliest_viable_age_least:
  assumes "earliest_viable_age rate p goals start target_age as_of = Inr res"
  shows "case res of
      None \<Rightarrow> \<forall>a. target_age \<le> a \<and> a < lp_end_age p \<longrightarrow> works_with rate p goals start (age_options as_of a) = Inr False
    | Some m \<Rightarrow> target_age \<le> m \<and> m < lp_end_age p \<and> works_with rate p goals start (age_options as_of m) = Inr True
        \<and> (\<forall>a. target_age \<le> a \<and> a < m \<longrightarrow> works_with rate p goals start (age_options as_of a) = Inr False)"
proof (cases res)
  case None
  then show ?thesis
    using first_working_age_spec [OF assms [unfolded earliest_viable_age_def]] by auto
next
  case (Some m)
  then obtain us vs where w: "works_with rate p goals start (age_options as_of m) = Inr True"
      and split: "[target_age..lp_end_age p - 1] = us @ m # vs"
      and us: "\<forall>b \<in> set us. works_with rate p goals start (age_options as_of b) = Inr False"
    using first_working_age_spec [OF assms [unfolded earliest_viable_age_def]] by auto
  have "m \<in> set [target_age..lp_end_age p - 1]" by (simp only: split) simp
  then have m: "target_age \<le> m" "m < lp_end_age p" by auto
  have srt: "sorted (us @ m # vs)" and "set (us @ m # vs) = {target_age..lp_end_age p - 1}"
    using sorted_upto [of target_age "lp_end_age p - 1"] set_upto [of target_age "lp_end_age p - 1"]
    by (simp_all only: split)
  have "a \<in> set us" if "target_age \<le> a" "a < m" for a
  proof -
    have "a \<in> set (us @ m # vs)" using that m \<open>set (us @ m # vs) = _\<close> by auto
    with srt that show ?thesis by (auto simp: sorted_append)
  qed
  with us w m Some show ?thesis by simp
qed

lemma example_age_works:
  "earliest_viable_age example_rate example_profile example_goals example_start 61 (Date 2021 10 15) = Inr (Some 61)"
proof -
  have run: "works_with example_rate example_profile example_goals example_start (age_options (Date 2021 10 15) 61) = Inr True"
    by code_simp
  have "[61..lp_end_age example_profile - 1] = [61]" by code_simp
  then show ?thesis by (simp only: earliest_viable_age_def first_working_age.simps run bind_res_simps if_True)
qed

lemma earliest_viable_age_least_witness:
  "works_with example_rate example_profile example_goals example_start (age_options (Date 2021 10 15) 61) = Inr True"
  using earliest_viable_age_least [OF example_age_works] by simp

end
