(* ===== verification/Cash_Months.thy ===== *)
theory Cash_Months
  imports Models
begin

text \<open>
  \<open>cash_months.py\<close>: the months for which every cash account has an observed balance at both
  boundaries. A month is the pair of its year and month number.
\<close>

record cash_db =
  cd_institutions :: "institution list"
  cd_accounts :: "account list"
  cd_snapshots :: "balance_snapshot list"
  cd_points :: "account_balance_point list"
  cd_transactions :: "account_transaction list"

text \<open>The inner join of accounts with their institutions.\<close>

definition institution_of :: "institution list \<Rightarrow> account \<Rightarrow> institution option" where
  "institution_of insts a = find (\<lambda>i. in_id i = ac_institution_id a) insts"

definition is_cash_account :: "institution list \<Rightarrow> account \<Rightarrow> bool" where
  "is_cash_account insts a =
     (case institution_of insts a of
        None \<Rightarrow> False
      | Some i \<Rightarrow> in_kind i = ''bank'' \<and> (ac_account_type a = ''checking'' \<or> ac_account_type a = ''savings''))"

definition cash_accounts :: "cash_db \<Rightarrow> account list" where
  "cash_accounts db = sort_key ac_id (filter (is_cash_account (cd_institutions db)) (cd_accounts db))"

definition month_key :: "date \<Rightarrow> int \<times> int" where
  "month_key d = (d_year d, d_month d)"

definition is_month_end :: "date \<Rightarrow> bool" where
  "is_month_end d \<longleftrightarrow> d_day d = days_in_month (d_year d) (d_month d)"

definition snapshots_of :: "cash_db \<Rightarrow> account \<Rightarrow> balance_snapshot list" where
  "snapshots_of db a = sort_key bs_id (filter (\<lambda>r. bs_account_id r = ac_id a) (cd_snapshots db))"

definition points_of :: "cash_db \<Rightarrow> account \<Rightarrow> account_balance_point list" where
  "points_of db a = sort_key bp_id (filter (\<lambda>r. bp_account_id r = ac_id a) (cd_points db))"

definition snapshot_opens :: "balance_snapshot \<Rightarrow> bool" where
  "snapshot_opens r \<longleftrightarrow> bs_kind r = ''opening'' \<and> d_day (bs_snapshot_date r) = 1"

definition snapshot_closes :: "balance_snapshot \<Rightarrow> bool" where
  "snapshot_closes r \<longleftrightarrow> (bs_kind r = ''closing'' \<or> bs_kind r = ''current'') \<and> is_month_end (bs_snapshot_date r)"

definition point_opens :: "account_balance_point \<Rightarrow> bool" where
  "point_opens r \<longleftrightarrow> bp_kind r = ''month_open''"

definition point_closes :: "account_balance_point \<Rightarrow> bool" where
  "point_closes r \<longleftrightarrow>
     bp_kind r = ''month_close'' \<or> (bp_source_kind r = ''observed'' \<and> is_month_end (bp_balance_date r))"

definition account_months :: "cash_db \<Rightarrow> account \<Rightarrow> (int \<times> int) set" where
  "account_months db a =
     (let snaps = snapshots_of db a; points = points_of db a;
          opened = set (map (month_key \<circ> bs_snapshot_date) (filter snapshot_opens snaps));
          closed = set (map (month_key \<circ> bs_snapshot_date) (filter snapshot_closes snaps));
          point_opened = set (map (month_key \<circ> bp_balance_date) (filter point_opens points));
          point_closed = set (map (month_key \<circ> bp_balance_date) (filter point_closes points))
      in (opened \<inter> closed) \<union> (point_opened \<inter> point_closed))"

text \<open>\<open>set.intersection(*sets) if sets else set()\<close>\<close>

fun intersect_all :: "'a set list \<Rightarrow> 'a set" where
  "intersect_all [] = {}"
| "intersect_all (s # ss) = fold (\<inter>) ss s"

datatype coverage_ref = Balance_snapshot_ref nat | Balance_point_ref nat string

definition account_refs :: "cash_db \<Rightarrow> account \<Rightarrow> coverage_ref list" where
  "account_refs db a =
     map (\<lambda>r. Balance_snapshot_ref (bs_id r)) (snapshots_of db a)
     @ map (\<lambda>r. Balance_point_ref (bp_id r) (bp_fingerprint r)) (points_of db a)"

record complete_cash_month_evidence =
  ce_accounts :: "account list"
  ce_months :: "(int \<times> int) set"
  ce_coverage_refs :: "coverage_ref list"

definition complete_observed_cash_months :: "cash_db \<Rightarrow> complete_cash_month_evidence" where
  "complete_observed_cash_months db =
     (let accounts = cash_accounts db in
      \<lparr>ce_accounts = accounts, ce_months = intersect_all (map (account_months db) accounts),
       ce_coverage_refs = concat (map (account_refs db) accounts)\<rparr>)"

section \<open>Facts\<close>

lemma fold_inter: "fold (\<inter>) ss s = s \<inter> \<Inter> (set ss)"
  by (induction ss arbitrary: s) auto

lemma intersect_all_mem: "m \<in> intersect_all ss \<longleftrightarrow> ss \<noteq> [] \<and> (\<forall>s \<in> set ss. m \<in> s)"
  by (cases ss) (auto simp: fold_inter)

lemma mem_map_filter: "m \<in> set (map f (filter P xs)) \<longleftrightarrow> (\<exists>r \<in> set xs. P r \<and> f r = m)"
  by auto

lemma account_months_mem:
  "m \<in> account_months db a \<longleftrightarrow>
     (\<exists>r \<in> set (cd_snapshots db). bs_account_id r = ac_id a \<and> snapshot_opens r \<and> month_key (bs_snapshot_date r) = m)
       \<and> (\<exists>r \<in> set (cd_snapshots db). bs_account_id r = ac_id a \<and> snapshot_closes r \<and> month_key (bs_snapshot_date r) = m)
     \<or> (\<exists>r \<in> set (cd_points db). bp_account_id r = ac_id a \<and> point_opens r \<and> month_key (bp_balance_date r) = m)
       \<and> (\<exists>r \<in> set (cd_points db). bp_account_id r = ac_id a \<and> point_closes r \<and> month_key (bp_balance_date r) = m)"
  by (simp only: account_months_def snapshots_of_def points_of_def Let_def Un_iff Int_iff mem_map_filter
      set_sort set_filter mem_Collect_eq comp_apply bex_simps conj_assoc Bex_def)

lemma cash_accounts_mem:
  "a \<in> set (cash_accounts db) \<longleftrightarrow> a \<in> set (cd_accounts db) \<and> is_cash_account (cd_institutions db) a"
  by (auto simp: cash_accounts_def)

text \<open>
  A month is complete exactly when there is a cash account and every one of them has, within one kind of
  evidence, an observation opening that month and one closing it: a snapshot of its first day and one of its
  last, or a balance point opening the month and one closing it or observed on its last day.
\<close>

theorem complete_months_exact:
  "m \<in> ce_months (complete_observed_cash_months db) \<longleftrightarrow>
     (\<exists>a \<in> set (cd_accounts db). is_cash_account (cd_institutions db) a)
     \<and> (\<forall>a \<in> set (cd_accounts db). is_cash_account (cd_institutions db) a \<longrightarrow>
          (\<exists>r \<in> set (cd_snapshots db). bs_account_id r = ac_id a
              \<and> (bs_kind r = ''opening'' \<and> d_day (bs_snapshot_date r) = 1) \<and> month_key (bs_snapshot_date r) = m)
            \<and> (\<exists>r \<in> set (cd_snapshots db). bs_account_id r = ac_id a
              \<and> ((bs_kind r = ''closing'' \<or> bs_kind r = ''current'') \<and> is_month_end (bs_snapshot_date r)) \<and> month_key (bs_snapshot_date r) = m)
          \<or> (\<exists>r \<in> set (cd_points db). bp_account_id r = ac_id a \<and> bp_kind r = ''month_open'' \<and> month_key (bp_balance_date r) = m)
            \<and> (\<exists>r \<in> set (cd_points db). bp_account_id r = ac_id a
              \<and> (bp_kind r = ''month_close'' \<or> bp_source_kind r = ''observed'' \<and> is_month_end (bp_balance_date r))
              \<and> month_key (bp_balance_date r) = m))"
  unfolding snapshot_opens_def [symmetric] snapshot_closes_def [symmetric] point_opens_def [symmetric] point_closes_def [symmetric]
proof -
  have "m \<in> ce_months (complete_observed_cash_months db)
      \<longleftrightarrow> cash_accounts db \<noteq> [] \<and> (\<forall>a \<in> set (cash_accounts db). m \<in> account_months db a)"
    by (simp add: complete_observed_cash_months_def intersect_all_mem Let_def)
  moreover have "cash_accounts db \<noteq> [] \<longleftrightarrow> (\<exists>a \<in> set (cd_accounts db). is_cash_account (cd_institutions db) a)"
    using cash_accounts_mem [of _ db] by (metis ex_in_conv set_empty)
  moreover have "(\<forall>a \<in> set (cash_accounts db). P a)
      \<longleftrightarrow> (\<forall>a \<in> set (cd_accounts db). is_cash_account (cd_institutions db) a \<longrightarrow> P a)" for P
    by (auto simp: cash_accounts_mem)
  ultimately show "m \<in> ce_months (complete_observed_cash_months db) \<longleftrightarrow>
     (\<exists>a \<in> set (cd_accounts db). is_cash_account (cd_institutions db) a)
     \<and> (\<forall>a \<in> set (cd_accounts db). is_cash_account (cd_institutions db) a \<longrightarrow>
          (\<exists>r \<in> set (cd_snapshots db). bs_account_id r = ac_id a \<and> snapshot_opens r \<and> month_key (bs_snapshot_date r) = m)
            \<and> (\<exists>r \<in> set (cd_snapshots db). bs_account_id r = ac_id a \<and> snapshot_closes r \<and> month_key (bs_snapshot_date r) = m)
          \<or> (\<exists>r \<in> set (cd_points db). bp_account_id r = ac_id a \<and> point_opens r \<and> month_key (bp_balance_date r) = m)
            \<and> (\<exists>r \<in> set (cd_points db). bp_account_id r = ac_id a \<and> point_closes r \<and> month_key (bp_balance_date r) = m))"
    by (simp only: account_months_mem)
qed

text \<open>
  A database with a checking and a savings account; both have snapshots at the two ends of March,
  only the first also has balance points for April.
\<close>

definition example_cash_db :: cash_db where
  "example_cash_db =
     \<lparr>cd_institutions = [\<lparr>in_id = 1, in_canonical_name = ''SoFi'', in_kind = ''bank''\<rparr>],
      cd_accounts =
        [\<lparr>ac_id = 1, ac_institution_id = 1, ac_display_name = ''Checking 1234'', ac_account_type = ''checking''\<rparr>,
         \<lparr>ac_id = 2, ac_institution_id = 1, ac_display_name = ''Savings'', ac_account_type = ''savings''\<rparr>],
      cd_snapshots =
        [\<lparr>bs_id = 1, bs_account_id = 1, bs_artifact_id = 1, bs_snapshot_date = Date 2026 3 1, bs_kind = ''opening'', bs_amount = 100000\<rparr>,
         \<lparr>bs_id = 2, bs_account_id = 1, bs_artifact_id = 1, bs_snapshot_date = Date 2026 3 31, bs_kind = ''closing'', bs_amount = 90000\<rparr>,
         \<lparr>bs_id = 3, bs_account_id = 2, bs_artifact_id = 1, bs_snapshot_date = Date 2026 3 1, bs_kind = ''opening'', bs_amount = 50000\<rparr>,
         \<lparr>bs_id = 4, bs_account_id = 2, bs_artifact_id = 1, bs_snapshot_date = Date 2026 3 31, bs_kind = ''current'', bs_amount = 60000\<rparr>],
      cd_points =
        [\<lparr>bp_id = 1, bp_account_id = 1, bp_anchor_snapshot_id = 2, bp_balance_date = Date 2026 4 1, bp_kind = ''month_open'', bp_amount = 90000,
          bp_source_kind = ''observed'', bp_coverage_start = Date 2026 4 1, bp_coverage_end = Date 2026 4 30,
          bp_calculation_version = '''', bp_fingerprint = ''''\<rparr>,
         \<lparr>bp_id = 2, bp_account_id = 1, bp_anchor_snapshot_id = 2, bp_balance_date = Date 2026 4 30, bp_kind = ''daily'', bp_amount = 80000,
          bp_source_kind = ''observed'', bp_coverage_start = Date 2026 4 1, bp_coverage_end = Date 2026 4 30,
          bp_calculation_version = '''', bp_fingerprint = ''''\<rparr>],
      cd_transactions = []\<rparr>"

lemma example_cash_months: "ce_months (complete_observed_cash_months example_cash_db) = {(2026, 3)}"
  by code_simp

end
