(* ===== verification/Forecasting.thy ===== *)
theory Forecasting
  imports Cash_Months Payroll_Schedule
begin

text \<open>
  \<open>forecasting.py\<close>: the twelve-month forecast from the latest payroll statement, and the baseline
  scenario that is rebuilt when its fingerprint goes stale.

  Scenario inputs are decimals as entered, so balances and rates are decimals until \<open>money()\<close>
  rounds them; what a period stores is whole cents. The configured contribution limits and the
  digest of the fingerprint payload are arguments of the operations that use them.
\<close>

datatype forecast_error = Forecast_unavailable

record scenario_input =
  si_name :: string
  si_additional_401k_pct :: rat
  si_stock_plan_pct :: rat
  si_hsa_per_paycheck :: "rat option"
  si_checking_split_pct :: "rat option"
  si_monthly_outflow :: "rat option"
  si_cash_floor :: rat
  si_redirect_cash_above_floor :: bool
  si_annual_return_pct :: rat
  si_opening_checking :: "rat option"
  si_opening_savings :: "rat option"
  si_employer_match_pct :: rat
  si_bonus_amount :: rat
  si_bonus_month :: "date option"

record forecast_period =
  fp_month :: date
  fp_gross_pay :: cents
  fp_taxes :: cents
  fp_benefits_and_other :: cents
  fp_employee_retirement :: cents
  fp_employee_hsa :: cents
  fp_stock_plan :: cents
  fp_employer_retirement :: cents
  fp_employer_hsa :: cents
  fp_sofi_checking :: cents
  fp_sofi_savings :: cents
  fp_external_outflow :: cents
  fp_ending_checking :: cents
  fp_ending_savings :: cents
  fp_ending_cash :: cents
  fp_cash_redirect :: cents
  fp_assumed_investment_result :: cents

datatype limit_warning = No_limit_stored int | Employee_limit_exceeded int | Total_limit_exceeded int

datatype assumption_warning =
    Baseline_from_payslip | Payroll_detail_missing | Tax_ratio_assumed | Returns_are_scenarios
  | No_opening_cash | No_outflow | Outflow_averaged rat "(int \<times> int) list"
  | Split_inferred rat string | Cash_below_zero | Cash_below_selected_floor | Employer_stays_at_baseline

text \<open>A stored scenario: the entries of its \<open>inputs\<close> dictionary that the code reads again, and its periods.\<close>

record forecast_scenario =
  fs_id :: nat
  fs_name :: string
  fs_is_baseline :: bool
  fs_forecast_version :: string
  fs_baseline_fingerprint :: "string option"
  fs_annual_salary :: cents
  fs_limit_warnings :: "limit_warning list"
  fs_assumption_warnings :: "assumption_warning list option"
  fs_periods :: "forecast_period list"

record forecast_db =
  fd_cash :: cash_db
  fd_statements :: "payroll_statement list"
  fd_lines :: "payroll_line_item list"
  fd_scenarios :: "forecast_scenario list"

definition forecast_version :: string where
  "forecast_version = ''money-map-v1.0.5''"

record forecast_summary =
  fy_scenario_id :: nat
  fy_name :: string
  fy_start_month :: date
  fy_end_month :: date
  fy_annual_salary :: cents
  fy_additional_fidelity_funding :: cents
  fy_lowest_projected_cash :: cents
  fy_limit_warnings :: "limit_warning list"
  fy_assumption_warnings :: "assumption_warning list"

section \<open>Reading the baseline from the database\<close>

fun month_sequence :: "date \<Rightarrow> nat \<Rightarrow> date list" where
  "month_sequence start 0 = []"
| "month_sequence start (Suc n) = start # month_sequence (next_month start) n"

text \<open>
  \<open>order_by(... desc()).limit(1)\<close>: the first row with the greatest key, in the order of the rows.
\<close>

fun latest_by :: "('a \<Rightarrow> 'k::linorder) \<Rightarrow> 'a list \<Rightarrow> 'a option" where
  "latest_by key [] = None"
| "latest_by key (x # xs) =
     (case latest_by key xs of None \<Rightarrow> Some x | Some y \<Rightarrow> if key x < key y then Some y else Some x)"

definition account_institution :: "cash_db \<Rightarrow> nat \<Rightarrow> (account \<times> institution) option" where
  "account_institution db i =
     Option.bind (find (\<lambda>a. ac_id a = i) (cd_accounts db))
       (\<lambda>a. map_option (Pair a) (institution_of (cd_institutions db) a))"

definition sofi_cash_snapshot :: "cash_db \<Rightarrow> string \<Rightarrow> balance_snapshot \<Rightarrow> bool" where
  "sofi_cash_snapshot db account_type r =
     (case account_institution db (bs_account_id r) of
        None \<Rightarrow> False
      | Some (a, i) \<Rightarrow> in_canonical_name i = ''SoFi'' \<and> ac_account_type a = account_type
          \<and> (bs_kind r = ''closing'' \<or> bs_kind r = ''current''))"

definition latest_cash_balance :: "cash_db \<Rightarrow> string \<Rightarrow> cents" where
  "latest_cash_balance db account_type =
     (case latest_by bs_snapshot_date (filter (sofi_cash_snapshot db account_type) (cd_snapshots db)) of
        None \<Rightarrow> 0 | Some r \<Rightarrow> bs_amount r)"

text \<open>The latest snapshot of an account, by date and then by id.\<close>

definition latest_snapshot :: "cash_db \<Rightarrow> nat \<Rightarrow> balance_snapshot option" where
  "latest_snapshot db i =
     latest_by bs_snapshot_date (rev (sort_key bs_id (filter (\<lambda>r. bs_account_id r = i) (cd_snapshots db))))"

definition is_investment_account :: "cash_db \<Rightarrow> account \<Rightarrow> bool" where
  "is_investment_account db a =
     (case institution_of (cd_institutions db) a of None \<Rightarrow> False | Some i \<Rightarrow> in_kind i = ''investment'')"

definition latest_investment_balance :: "cash_db \<Rightarrow> cents" where
  "latest_investment_balance db =
     sum_list (map (\<lambda>a. case latest_snapshot db (ac_id a) of None \<Rightarrow> 0 | Some r \<Rightarrow> bs_amount r)
       (filter (is_investment_account db) (cd_accounts db)))"

definition is_external_outflow :: "nat list \<Rightarrow> account_transaction \<Rightarrow> bool" where
  "is_external_outflow ids t \<longleftrightarrow>
     tx_account_id t \<in> set ids \<and> tx_amount t < 0 \<and> (tx_role t = ''external_outflow'' \<or> tx_role t = ''fee'')"

text \<open>\<open>by_month[key] += abs(amount)\<close> for the months that count.\<close>

definition add_outflow :: "(int \<times> int) set \<Rightarrow> account_transaction
    \<Rightarrow> (int \<times> int, cents) dict \<Rightarrow> (int \<times> int, cents) dict" where
  "add_outflow months t by_month =
     (let key = month_key (tx_posted_date t) in
      if key \<in> months then dict_set key (dict_get by_month key 0 + \<bar>tx_amount t\<bar>) by_month else by_month)"

definition outflow_by_month :: "cash_db \<Rightarrow> date \<Rightarrow> (int \<times> int, cents) dict" where
  "outflow_by_month db as_of =
     (let accounts = cash_accounts db;
          complete = intersect_all (map (account_months db) accounts) - {month_key as_of};
          rows = filter (is_external_outflow (map ac_id accounts)) (cd_transactions db)
      in fold (add_outflow complete) rows [])"

definition month_number :: "int \<times> int \<Rightarrow> int" where
  "month_number m = fst m * 12 + snd m"

definition observed_monthly_outflow :: "cash_db \<Rightarrow> date \<Rightarrow> cents \<times> (int \<times> int) list" where
  "observed_monthly_outflow db as_of =
     (let by_month = outflow_by_month db as_of in
      if by_month = [] then (0, [])
      else (money (ddiv (dec (sum_list (map snd by_month))) (of_int (int (length by_month)))),
            sort_key month_number (map fst by_month)))"

definition digits_of :: "string \<Rightarrow> string" where
  "digits_of s = filter is_digit s"

definition last_four :: "string \<Rightarrow> string" where
  "last_four s = drop (length s - 4) s"

definition is_checking_account :: "cash_db \<Rightarrow> account \<Rightarrow> bool" where
  "is_checking_account db a =
     (case institution_of (cd_institutions db) a of
        None \<Rightarrow> False | Some i \<Rightarrow> in_kind i = ''bank'' \<and> ac_account_type a = ''checking'')"

definition checking_markers :: "cash_db \<Rightarrow> string list" where
  "checking_markers db =
     filter (\<lambda>m. m \<noteq> []) (map (\<lambda>a. last_four (digits_of (ac_display_name a)))
       (filter (is_checking_account db) (cd_accounts db)))"

definition is_checking_line :: "string list \<Rightarrow> payroll_line_item \<Rightarrow> bool" where
  "is_checking_line markers l \<longleftrightarrow>
     contains (lower (li_original_label l)) ''checking''
     \<or> list_ex (contains (li_original_label l)) markers"

definition observed_checking_split :: "forecast_db \<Rightarrow> payroll_statement \<Rightarrow> rat \<times> string" where
  "observed_checking_split db latest =
     (let lines = filter (\<lambda>l. li_statement_id l = st_id latest \<and> like_net_distribution (li_category l)) (fd_lines db);
          whole = sum_list (map li_amount lines)
      in if whole \<le> 0 then (100, ''fallback because payroll has no net distribution detail'')
         else
           let checking = sum_list (map li_amount (filter (is_checking_line (checking_markers (fd_cash db))) lines))
           in if checking \<le> 0 then (100, ''fallback because the checking destination could not be matched'')
              else (dec (money (dmul (ddiv (dec checking) (dec whole)) 100)),
                    ''latest detailed payroll distribution''))"

definition line_total :: "forecast_db \<Rightarrow> payroll_statement \<Rightarrow> string \<Rightarrow> cents" where
  "line_total db latest category =
     sum_list (map li_amount
       (filter (\<lambda>l. li_statement_id l = st_id latest \<and> li_category l = category) (fd_lines db)))"

definition line_ytd :: "forecast_db \<Rightarrow> payroll_statement \<Rightarrow> string \<Rightarrow> cents" where
  "line_ytd db latest category =
     sum_list (List.map_filter li_ytd_amount
       (filter (\<lambda>l. li_statement_id l = st_id latest \<and> li_category l = category) (fd_lines db)))"

definition latest_statement :: "forecast_db \<Rightarrow> payroll_statement option" where
  "latest_statement db = latest_by st_payment_date (fd_statements db)"

section \<open>The fingerprint of the baseline\<close>

definition money_opt :: "cents option \<Rightarrow> json" where
  "money_opt v = (case v of None \<Rightarrow> JStr ''None'' | Some c \<Rightarrow> JStr (show_money c))"

text \<open>
  The payload: the latest statement and its lines, and the accounts, snapshots and activity of the
  cash accounts. The string order of \<open>order_by(category, id)\<close> is the argument \<open>by_category\<close>.
\<close>

definition baseline_payload ::
  "(payroll_line_item list \<Rightarrow> payroll_line_item list) \<Rightarrow> forecast_db \<Rightarrow> date \<Rightarrow> json"
where
  "baseline_payload by_category db as_of =
     (let cash = fd_cash db; accounts = cash_accounts cash; latest = latest_statement db;
          lines = (case latest of None \<Rightarrow> []
            | Some st \<Rightarrow> by_category (filter (\<lambda>l. li_statement_id l = st_id st) (fd_lines db)));
          snaps = concat (map (\<lambda>a. sort_key bs_snapshot_date (snapshots_of cash a)) accounts);
          activity = concat (map (\<lambda>a. sort_key tx_posted_date
            (sort_key tx_id (filter (\<lambda>t. tx_account_id t = ac_id a) (cd_transactions cash)))) accounts)
      in JObj
        [(''forecast_month'', JStr (isoformat (next_month (month_start as_of)))),
         (''payroll'', case latest of None \<Rightarrow> JNull
            | Some st \<Rightarrow> JList
                [JInt (int (st_id st)), JStr (isoformat (st_payment_date st)), JStr (show_money (st_base_salary st)),
                 JStr (show_money (st_amounts st Gross_earnings)), JStr (show_money (st_amounts st Net_payment)),
                 JStr (case st_observed_deposit_date st of None \<Rightarrow> ''None'' | Some d \<Rightarrow> isoformat d)]),
         (''payroll_lines'', JList (map (\<lambda>l. JList [JStr (li_category l), JStr (li_original_label l),
            JStr (show_money (li_amount l)), money_opt (li_ytd_amount l)]) lines)),
         (''cash_accounts'', JList (map (\<lambda>a. JList [JInt (int (ac_id a)), JStr (ac_account_type a)]) accounts)),
         (''cash_snapshots'', JList (map (\<lambda>r. JList [JInt (int (bs_account_id r)), JStr (isoformat (bs_snapshot_date r)),
            JStr (bs_kind r), JStr (show_money (bs_amount r))]) snaps)),
         (''cash_activity'', JList (map (\<lambda>t. JList [JInt (int (tx_account_id t)), JStr (isoformat (tx_posted_date t)),
            JStr (tx_role t), JStr (show_money (tx_amount t))]) activity))])"

definition baseline_fingerprint ::
  "(json \<Rightarrow> string) \<Rightarrow> (payroll_line_item list \<Rightarrow> payroll_line_item list) \<Rightarrow> forecast_db \<Rightarrow> date \<Rightarrow> string"
where
  "baseline_fingerprint digest by_category db as_of = digest (baseline_payload by_category db as_of)"

section \<open>The pay schedule ahead\<close>

text \<open>
  \<open>while next_pay <= last_day\<close>; the test of validity only makes the recursion total on the model's
  triples.
\<close>

function pay_dates_up :: "date \<Rightarrow> date \<Rightarrow> date \<Rightarrow> date list" where
  "pay_dates_up first last_day next_pay =
     (if valid_date next_pay \<and> valid_date last_day \<and> next_pay \<le> last_day
      then (if first \<le> next_pay then [next_pay] else []) @ pay_dates_up first last_day (add_days next_pay 14)
      else [])"
  by pat_completeness auto
termination
  by (relation "measure (\<lambda>(first, last_day, next_pay). nat (ordinal last_day - ordinal next_pay + 1))")
    (auto simp: ordinal_le_iff [symmetric])

declare pay_dates_up.simps [simp del]

definition forecast_pay_dates :: "date \<Rightarrow> date \<Rightarrow> date \<Rightarrow> date list" where
  "forecast_pay_dates anchor first last_day = pay_dates_up first last_day (add_days anchor 14)"

definition pays_in_month :: "date list \<Rightarrow> date \<Rightarrow> int" where
  "pays_in_month dates month = int (length (filter (\<lambda>d. month_start d = month) dates))"

section \<open>One month of the forecast\<close>

text \<open>The rates and amounts taken from the latest statement before the loop.\<close>

record forecast_basis =
  fb_gross_per_paycheck :: cents
  fb_tax_rate :: rat
  fb_retirement_rate :: rat
  fb_stock_plan_rate :: rat
  fb_employer_gross_rate :: rat
  fb_other_per_paycheck :: cents
  fb_employer_hsa_per_paycheck :: cents
  fb_monthly_outflow :: rat
  fb_checking_split_pct :: rat
  fb_hsa_per_paycheck :: rat
  fb_monthly_return :: rat
  fb_incremental_employer_rate :: rat

definition rate_of :: "cents \<Rightarrow> cents \<Rightarrow> rat" where
  "rate_of part whole = (if whole \<noteq> 0 then ddiv (dec part) (dec whole) else 0)"

definition given_or :: "'a option \<Rightarrow> 'a \<Rightarrow> 'a" where
  "given_or v d = (case v of None \<Rightarrow> d | Some x \<Rightarrow> x)"

definition forecast_basis_of :: "forecast_db \<Rightarrow> scenario_input \<Rightarrow> date \<Rightarrow> payroll_statement \<Rightarrow> forecast_basis" where
  "forecast_basis_of db si today latest =
     (let gross = st_amounts latest Gross_earnings;
          retirement = line_total db latest ''pretax.employee_retirement'';
          hsa = line_total db latest ''pretax.employee_hsa'';
          stock = line_total db latest ''after_tax.employee_stock_purchase'';
          employer = line_total db latest ''employer_benefit.employer_retirement''
      in \<lparr>fb_gross_per_paycheck = money (ddiv (dec (st_base_salary latest)) 26),
          fb_tax_rate = rate_of (st_amounts latest Tax_withholdings) gross,
          fb_retirement_rate = rate_of retirement gross,
          fb_stock_plan_rate = rate_of stock gross,
          fb_employer_gross_rate = rate_of employer gross,
          fb_other_per_paycheck = st_amounts latest Pretax_deductions + st_amounts latest After_tax_deductions
            + st_amounts latest Imputed_earnings - retirement - hsa - stock,
          fb_employer_hsa_per_paycheck = line_total db latest ''employer_benefit.employer_hsa'',
          fb_monthly_outflow = given_or (si_monthly_outflow si) (dec (fst (observed_monthly_outflow (fd_cash db) today))),
          fb_checking_split_pct = given_or (si_checking_split_pct si) (fst (observed_checking_split db latest)),
          fb_hsa_per_paycheck = given_or (si_hsa_per_paycheck si) (dec hsa),
          fb_monthly_return = ddiv (ddiv (si_annual_return_pct si) 100) 12,
          fb_incremental_employer_rate = ddiv (si_employer_match_pct si) 100\<rparr>)"

record forecast_state =
  ft_checking :: rat
  ft_savings :: rat
  ft_lowest_cash :: rat
  ft_investment_value :: cents
  ft_contributions :: "(int, cents) dict"
  ft_total_additions :: "(int, cents) dict"
  ft_additional_fidelity :: cents
  ft_periods :: "forecast_period list"

text \<open>The paycheck side of a month: what is earned, withheld and contributed.\<close>

record month_pay =
  my_gross :: cents
  my_taxes :: cents
  my_benefits :: cents
  my_retirement :: cents
  my_additional_retirement :: cents
  my_stock :: cents
  my_additional_stock :: cents
  my_employer :: cents
  my_additional_employer :: cents
  my_employee_hsa :: cents
  my_employer_hsa :: cents
  my_net :: cents

definition month_gross :: "scenario_input \<Rightarrow> forecast_basis \<Rightarrow> date \<Rightarrow> int \<Rightarrow> cents" where
  "month_gross si fb month pays =
     (let gross = money (dmul (dec (fb_gross_per_paycheck fb)) (of_int pays)) in
      case si_bonus_month si of
        None \<Rightarrow> gross
      | Some b \<Rightarrow> if month_start b = month then money (dadd (dec gross) (si_bonus_amount si)) else gross)"

definition month_pay_of :: "scenario_input \<Rightarrow> forecast_basis \<Rightarrow> date \<Rightarrow> int \<Rightarrow> month_pay" where
  "month_pay_of si fb month pays =
     (let gross = month_gross si fb month pays;
          additional_retirement = money (ddiv (dmul (dec gross) (si_additional_401k_pct si)) 100);
          retirement = money (dmul (dec gross) (fb_retirement_rate fb)) + additional_retirement;
          additional_stock = money (ddiv (dmul (dec gross) (si_stock_plan_pct si)) 100);
          stock = money (dmul (dec gross) (fb_stock_plan_rate fb)) + additional_stock;
          additional_employer = money (dmul (dec additional_retirement) (fb_incremental_employer_rate fb));
          employer = money (dmul (dec gross) (fb_employer_gross_rate fb)) + additional_employer;
          employee_hsa = money (dmul (fb_hsa_per_paycheck fb) (of_int pays));
          employer_hsa = money (dmul (dec (fb_employer_hsa_per_paycheck fb)) (of_int pays));
          benefits = money (dmul (dec (fb_other_per_paycheck fb)) (of_int pays));
          taxes = max 0 (money (dmul (dec gross) (fb_tax_rate fb))
                    - money (dmul (dec additional_retirement) (fb_tax_rate fb)))
      in \<lparr>my_gross = gross, my_taxes = taxes, my_benefits = benefits, my_retirement = retirement,
          my_additional_retirement = additional_retirement, my_stock = stock, my_additional_stock = additional_stock,
          my_employer = employer, my_additional_employer = additional_employer,
          my_employee_hsa = employee_hsa, my_employer_hsa = employer_hsa,
          my_net = max 0 (gross - benefits - taxes - retirement - employee_hsa - stock)\<rparr>)"

text \<open>
  The cash side: the deposits, and what leaves for investments when the ending cash is above a
  positive floor, taken from savings first.
\<close>

record month_cash =
  mc_checking_deposit :: cents
  mc_savings_deposit :: cents
  mc_checking :: cents
  mc_savings :: cents
  mc_ending_cash :: cents
  mc_redirect :: cents

definition redirects :: "scenario_input \<Rightarrow> cents \<Rightarrow> bool" where
  "redirects si ending \<longleftrightarrow> si_redirect_cash_above_floor si \<and> 0 < si_cash_floor si \<and> si_cash_floor si < dec ending"

definition month_cash_of :: "scenario_input \<Rightarrow> forecast_basis \<Rightarrow> cents \<Rightarrow> rat \<Rightarrow> rat \<Rightarrow> month_cash" where
  "month_cash_of si fb net checking savings =
     (let checking_deposit = money (ddiv (dmul (dec net) (fb_checking_split_pct fb)) 100);
          savings_deposit = net - checking_deposit;
          checking1 = money (dsub (dadd checking (dec checking_deposit)) (fb_monthly_outflow fb));
          savings1 = money (dadd savings (dec savings_deposit));
          ending = checking1 + savings1
      in if redirects si ending then
           let redirect = money (dsub (dec ending) (si_cash_floor si));
               from_savings = min savings1 redirect;
               savings2 = savings1 - from_savings;
               checking2 = checking1 - (redirect - from_savings)
           in \<lparr>mc_checking_deposit = checking_deposit, mc_savings_deposit = savings_deposit,
               mc_checking = checking2, mc_savings = savings2, mc_ending_cash = checking2 + savings2,
               mc_redirect = redirect\<rparr>
         else \<lparr>mc_checking_deposit = checking_deposit, mc_savings_deposit = savings_deposit,
               mc_checking = checking1, mc_savings = savings1, mc_ending_cash = ending, mc_redirect = 0\<rparr>)"

definition period_of :: "forecast_basis \<Rightarrow> date \<Rightarrow> month_pay \<Rightarrow> month_cash \<Rightarrow> cents \<Rightarrow> forecast_period" where
  "period_of fb month my mc result =
     \<lparr>fp_month = month, fp_gross_pay = my_gross my, fp_taxes = my_taxes my, fp_benefits_and_other = my_benefits my,
      fp_employee_retirement = my_retirement my, fp_employee_hsa = my_employee_hsa my, fp_stock_plan = my_stock my,
      fp_employer_retirement = my_employer my, fp_employer_hsa = my_employer_hsa my,
      fp_sofi_checking = mc_checking_deposit mc, fp_sofi_savings = mc_savings_deposit mc,
      fp_external_outflow = money (fb_monthly_outflow fb), fp_ending_checking = mc_checking mc,
      fp_ending_savings = mc_savings mc, fp_ending_cash = mc_ending_cash mc, fp_cash_redirect = mc_redirect mc,
      fp_assumed_investment_result = result\<rparr>"

definition add_year :: "int \<Rightarrow> cents \<Rightarrow> (int, cents) dict \<Rightarrow> (int, cents) dict" where
  "add_year y v d = dict_set y (dict_get d y 0 + v) d"

definition forecast_month ::
  "scenario_input \<Rightarrow> forecast_basis \<Rightarrow> date list \<Rightarrow> date \<Rightarrow> forecast_state \<Rightarrow> forecast_state"
where
  "forecast_month si fb pay_dates month st =
     (let my = month_pay_of si fb month (pays_in_month pay_dates month);
          mc = month_cash_of si fb (my_net my) (ft_checking st) (ft_savings st);
          funding = my_retirement my + my_stock my + my_employer my + mc_redirect mc;
          result = money (dmul (dadd (dec (ft_investment_value st)) (ddiv (dec funding) 2)) (fb_monthly_return fb))
      in \<lparr>ft_checking = dec (mc_checking mc), ft_savings = dec (mc_savings mc),
          ft_lowest_cash = min (ft_lowest_cash st) (dec (mc_ending_cash mc)),
          ft_investment_value = ft_investment_value st + funding + result,
          ft_contributions = add_year (d_year month) (my_retirement my) (ft_contributions st),
          ft_total_additions = add_year (d_year month) (my_retirement my + my_employer my) (ft_total_additions st),
          ft_additional_fidelity = ft_additional_fidelity st
            + (my_additional_retirement my + my_additional_stock my + my_additional_employer my + mc_redirect mc),
          ft_periods = ft_periods st @ [period_of fb month my mc result]\<rparr>)"

definition opening_cash :: "forecast_db \<Rightarrow> scenario_input \<Rightarrow> rat \<times> rat" where
  "opening_cash db si =
     (given_or (si_opening_checking si) (dec (latest_cash_balance (fd_cash db) ''checking'')),
      given_or (si_opening_savings si) (dec (latest_cash_balance (fd_cash db) ''savings'')))"

definition initial_forecast :: "forecast_db \<Rightarrow> scenario_input \<Rightarrow> date \<Rightarrow> payroll_statement \<Rightarrow> forecast_state" where
  "initial_forecast db si first latest =
     (let checking = fst (opening_cash db si); savings = snd (opening_cash db si);
          same_year = (d_year first = d_year (st_payment_date latest));
          retirement = line_ytd db latest ''pretax.employee_retirement'';
          employer = line_ytd db latest ''employer_benefit.employer_retirement''
      in \<lparr>ft_checking = checking, ft_savings = savings, ft_lowest_cash = dadd checking savings,
          ft_investment_value = latest_investment_balance (fd_cash db),
          ft_contributions = (if same_year then [(d_year first, retirement)] else []),
          ft_total_additions = (if same_year then [(d_year first, retirement + employer)] else []),
          ft_additional_fidelity = 0, ft_periods = []\<rparr>)"

definition pay_anchor :: "payroll_statement \<Rightarrow> date" where
  "pay_anchor latest = (case st_observed_deposit_date latest of None \<Rightarrow> st_payment_date latest | Some d \<Rightarrow> d)"

definition forecast_months :: "date \<Rightarrow> date list" where
  "forecast_months today = month_sequence (next_month (month_start today)) 12"

definition run_forecast :: "forecast_db \<Rightarrow> scenario_input \<Rightarrow> date \<Rightarrow> payroll_statement \<Rightarrow> forecast_state" where
  "run_forecast db si today latest =
     (let months = forecast_months today;
          dates = forecast_pay_dates (pay_anchor latest) (hd months) (month_end (last months))
      in fold (forecast_month si (forecast_basis_of db si today latest) dates) months
           (initial_forecast db si (hd months) latest))"

section \<open>Warnings and the stored scenario\<close>

definition year_warnings ::
  "(int \<Rightarrow> (rat \<times> rat) option) \<Rightarrow> (int, cents) dict \<Rightarrow> int \<times> cents \<Rightarrow> limit_warning list"
where
  "year_warnings limits additions yc =
     (case limits (fst yc) of
        None \<Rightarrow> [No_limit_stored (fst yc)]
      | Some (employee, whole) \<Rightarrow>
          (if employee < dec (snd yc) then [Employee_limit_exceeded (fst yc)] else [])
          @ (if whole < dec (dict_get additions (fst yc) 0) then [Total_limit_exceeded (fst yc)] else []))"

definition limit_warnings :: "(int \<Rightarrow> (rat \<times> rat) option) \<Rightarrow> forecast_state \<Rightarrow> limit_warning list" where
  "limit_warnings limits st = concat (map (year_warnings limits (ft_total_additions st)) (ft_contributions st))"

definition assumption_warnings ::
  "forecast_db \<Rightarrow> scenario_input \<Rightarrow> date \<Rightarrow> payroll_statement \<Rightarrow> rat \<Rightarrow> assumption_warning list"
where
  "assumption_warnings db si today latest lowest =
     (let fb = forecast_basis_of db si today latest; opening = opening_cash db si;
          outflow = fb_monthly_outflow fb; split = observed_checking_split db latest
      in [if st_detail_complete latest then Baseline_from_payslip else Payroll_detail_missing,
          Tax_ratio_assumed, Returns_are_scenarios]
         @ (if si_opening_checking si = None \<and> si_opening_savings si = None \<and> dadd (fst opening) (snd opening) = 0
            then [No_opening_cash] else [])
         @ (if outflow = 0 then [No_outflow]
            else if si_monthly_outflow si = None
            then [Outflow_averaged outflow (snd (observed_monthly_outflow (fd_cash db) today))] else [])
         @ (if si_checking_split_pct si = None then [Split_inferred (fst split) (snd split)] else [])
         @ (if lowest < 0 then [Cash_below_zero] else [])
         @ (if si_cash_floor si \<noteq> 0 \<and> lowest < si_cash_floor si then [Cash_below_selected_floor] else [])
         @ (if si_additional_401k_pct si \<noteq> 0 \<and> si_employer_match_pct si = 0 then [Employer_stays_at_baseline] else []))"

text \<open>
  The scenario row is stored with its periods; the scenarios of the same name are deleted first.
\<close>

definition build_forecast ::
  "(json \<Rightarrow> string) \<Rightarrow> (payroll_line_item list \<Rightarrow> payroll_line_item list) \<Rightarrow> (int \<Rightarrow> (rat \<times> rat) option)
     \<Rightarrow> bool \<Rightarrow> scenario_input \<Rightarrow> date \<Rightarrow> forecast_db \<Rightarrow> (forecast_error, forecast_db \<times> forecast_summary) result"
where
  "build_forecast digest by_category limits is_baseline si today db =
     (case latest_statement db of
        None \<Rightarrow> Inl Forecast_unavailable
      | Some latest \<Rightarrow>
          let st = run_forecast db si today latest; months = forecast_months today;
              lw = limit_warnings limits st; aw = assumption_warnings db si today latest (ft_lowest_cash st);
              others = filter (\<lambda>s. fs_name s \<noteq> si_name si) (fd_scenarios db);
              row = \<lparr>fs_id = next_id (map fs_id others), fs_name = si_name si, fs_is_baseline = is_baseline,
                fs_forecast_version = forecast_version,
                fs_baseline_fingerprint = (if is_baseline then Some (baseline_fingerprint digest by_category db today) else None),
                fs_annual_salary = st_base_salary latest, fs_limit_warnings = lw,
                fs_assumption_warnings = Some aw, fs_periods = ft_periods st\<rparr>
          in Inr (db\<lparr>fd_scenarios := others @ [row]\<rparr>,
              \<lparr>fy_scenario_id = fs_id row, fy_name = si_name si, fy_start_month = hd months,
               fy_end_month = last months, fy_annual_salary = st_base_salary latest,
               fy_additional_fidelity_funding = ft_additional_fidelity st,
               fy_lowest_projected_cash = money (ft_lowest_cash st),
               fy_limit_warnings = lw, fy_assumption_warnings = aw\<rparr>))"

section \<open>\<open>ensure_baseline\<close>\<close>

text \<open>\<open>ScenarioInput(name="No-change baseline")\<close>\<close>

definition no_change_baseline :: scenario_input where
  "no_change_baseline =
     \<lparr>si_name = ''No-change baseline'', si_additional_401k_pct = 0, si_stock_plan_pct = 0,
      si_hsa_per_paycheck = None, si_checking_split_pct = None, si_monthly_outflow = None, si_cash_floor = 0,
      si_redirect_cash_above_floor = False, si_annual_return_pct = 0, si_opening_checking = None,
      si_opening_savings = None, si_employer_match_pct = 0, si_bonus_amount = 0, si_bonus_month = None\<rparr>"

definition baseline_fresh ::
  "(json \<Rightarrow> string) \<Rightarrow> (payroll_line_item list \<Rightarrow> payroll_line_item list) \<Rightarrow> date \<Rightarrow> forecast_db \<Rightarrow> forecast_scenario \<Rightarrow> bool"
where
  "baseline_fresh digest by_category today db s \<longleftrightarrow>
     fs_forecast_version s = forecast_version
     \<and> fs_baseline_fingerprint s = Some (baseline_fingerprint digest by_category db today)
     \<and> fs_assumption_warnings s \<noteq> None \<and> fs_periods s \<noteq> []"

definition stored_summary :: "forecast_scenario \<Rightarrow> forecast_summary" where
  "stored_summary s =
     (let periods = sort_key fp_month (fs_periods s) in
      \<lparr>fy_scenario_id = fs_id s, fy_name = fs_name s, fy_start_month = fp_month (hd periods),
       fy_end_month = fp_month (last periods), fy_annual_salary = fs_annual_salary s,
       fy_additional_fidelity_funding =
         sum_list (map (\<lambda>p. fp_employee_retirement p + fp_employer_retirement p + fp_stock_plan p) periods),
       fy_lowest_projected_cash = foldl min (fp_ending_cash (hd periods)) (map fp_ending_cash (tl periods)),
       fy_limit_warnings = fs_limit_warnings s, fy_assumption_warnings = given_or (fs_assumption_warnings s) []\<rparr>)"

definition ensure_baseline ::
  "(json \<Rightarrow> string) \<Rightarrow> (payroll_line_item list \<Rightarrow> payroll_line_item list) \<Rightarrow> (int \<Rightarrow> (rat \<times> rat) option)
     \<Rightarrow> date \<Rightarrow> forecast_db \<Rightarrow> (forecast_error, forecast_db \<times> forecast_summary) result"
where
  "ensure_baseline digest by_category limits today db =
     (case find fs_is_baseline (fd_scenarios db) of
        Some s \<Rightarrow>
          if baseline_fresh digest by_category today db s then Inr (db, stored_summary s)
          else build_forecast digest by_category limits True no_change_baseline today (db\<lparr>fd_scenarios := []\<rparr>)
      | None \<Rightarrow> build_forecast digest by_category limits True no_change_baseline today (db\<lparr>fd_scenarios := []\<rparr>))"

end
