(* ===== verification/Forecast_Facts.thy ===== *)
theory Forecast_Facts
  imports Forecasting
begin

text \<open>
  Facts about the forecast: the pay dates ahead, what every period adds up to, how a month moves
  cash, and what reading the stored baseline again returns.
\<close>

section \<open>Pay dates and months\<close>

lemma pay_dates_up_set:
  assumes "valid_date start" "valid_date last_day"
  shows "set (pay_dates_up first last_day start)
    = {d. first \<le> d \<and> d \<le> last_day \<and> (\<exists>k :: nat. d = add_days start (14 * int k))}"
  using assms
proof (induction first last_day start rule: pay_dates_up.induct)
  case (1 first last_day start)
  note unfold = pay_dates_up.simps [of first last_day start]
  have later: "start \<le> add_days start (14 * int k)" for k
    using add_days_le_iff [of start 0 "14 * int k"] "1.prems"(1) by simp
  show ?case
  proof (cases "start \<le> last_day")
    case True
    have step: "(\<exists>k :: nat. d = add_days start (14 * int k))
        \<longleftrightarrow> d = start \<or> (\<exists>k :: nat. d = add_days (add_days start 14) (14 * int k))" for d
    proof
      assume "\<exists>k :: nat. d = add_days start (14 * int k)"
      then obtain k :: nat where k: "d = add_days start (14 * int k)" by blast
      show "d = start \<or> (\<exists>k :: nat. d = add_days (add_days start 14) (14 * int k))"
      proof (cases k)
        case 0
        with k show ?thesis by simp
      next
        case (Suc j)
        then have "d = add_days (add_days start 14) (14 * int j)"
          using k "1.prems"(1) by (simp add: add_days_add)
        then show ?thesis by blast
      qed
    next
      assume "d = start \<or> (\<exists>k :: nat. d = add_days (add_days start 14) (14 * int k))"
      then show "\<exists>k :: nat. d = add_days start (14 * int k)"
      proof
        assume "d = start"
        then show ?thesis by (intro exI [of _ 0]) simp
      next
        assume "\<exists>k :: nat. d = add_days (add_days start 14) (14 * int k)"
        then obtain k :: nat where "d = add_days (add_days start 14) (14 * int k)" by blast
        then show ?thesis using "1.prems"(1) by (intro exI [of _ "Suc k"]) (simp add: add_days_add)
      qed
    qed
    have "set (pay_dates_up first last_day (add_days start 14))
        = {d. first \<le> d \<and> d \<le> last_day \<and> (\<exists>k :: nat. d = add_days (add_days start 14) (14 * int k))}"
      using "1.IH" True "1.prems" by auto
    then show ?thesis using True "1.prems" by (auto simp: unfold step)
  next
    case False
    then have "\<not> add_days start (14 * int k) \<le> last_day" for k using later [of k] by (meson order.trans)
    with False show ?thesis by (auto simp: unfold)
  qed
qed

lemma pay_dates_up_sorted:
  assumes "valid_date start" "valid_date last_day"
  shows "sorted_wrt (<) (pay_dates_up first last_day start)"
  using assms
proof (induction first last_day start rule: pay_dates_up.induct)
  case (1 first last_day start)
  have "start < d" if mem: "d \<in> set (pay_dates_up first last_day (add_days start 14))" for d
  proof -
    have v: "valid_date (add_days start 14)" using "1.prems"(1) by simp
    obtain k :: nat where "d = add_days (add_days start 14) (14 * int k)"
      using mem unfolding pay_dates_up_set [OF v "1.prems"(2)] by blast
    then show ?thesis
      using add_days_less_iff [of start 0 "14 + 14 * int k"] "1.prems"(1) by (simp add: add_days_add)
  qed
  with 1 show ?case by (simp add: pay_dates_up.simps [of first last_day start])
qed

text \<open>
  The forecast's pay dates are exactly the days every second week after the anchor that fall
  between the first forecast day and the last one, in order and without repetition.
\<close>

lemma forecast_pay_dates_exact:
  assumes "valid_date anchor" "valid_date last_day"
  shows "set (forecast_pay_dates anchor first last_day)
      = {d. first \<le> d \<and> d \<le> last_day \<and> (\<exists>k :: nat. 1 \<le> k \<and> d = add_days anchor (14 * int k))}
    \<and> sorted_wrt (<) (forecast_pay_dates anchor first last_day)"
proof -
  have "(\<exists>k :: nat. d = add_days (add_days anchor 14) (14 * int k))
      \<longleftrightarrow> (\<exists>k :: nat. 1 \<le> k \<and> d = add_days anchor (14 * int k))" for d
  proof
    assume "\<exists>k :: nat. d = add_days (add_days anchor 14) (14 * int k)"
    then obtain k :: nat where "d = add_days (add_days anchor 14) (14 * int k)" by blast
    then show "\<exists>k :: nat. 1 \<le> k \<and> d = add_days anchor (14 * int k)"
      using assms(1) by (intro exI [of _ "Suc k"]) (simp add: add_days_add)
  next
    assume "\<exists>k :: nat. 1 \<le> k \<and> d = add_days anchor (14 * int k)"
    then obtain k :: nat where k: "1 \<le> k" "d = add_days anchor (14 * int k)" by blast
    then have "d = add_days (add_days anchor 14) (14 * int (k - 1))"
      using assms(1) by (simp add: add_days_add of_nat_diff algebra_simps)
    then show "\<exists>k :: nat. d = add_days (add_days anchor 14) (14 * int k)" by blast
  qed
  then show ?thesis
    using pay_dates_up_set [of "add_days anchor 14" last_day first]
      pay_dates_up_sorted [of "add_days anchor 14" last_day first] assms
    by (simp add: forecast_pay_dates_def)
qed

lemma forecast_pay_dates_exact_witness:
  "forecast_pay_dates (Date 2026 5 1) (Date 2026 6 1) (Date 2026 6 30) = [Date 2026 6 12, Date 2026 6 26]
   \<and> Date 2026 6 26 \<in> {d. Date 2026 6 1 \<le> d \<and> d \<le> Date 2026 6 30
        \<and> (\<exists>k :: nat. 1 \<le> k \<and> d = add_days (Date 2026 5 1) (14 * int k))}"
proof -
  have run: "forecast_pay_dates (Date 2026 5 1) (Date 2026 6 1) (Date 2026 6 30) = [Date 2026 6 12, Date 2026 6 26]"
    by code_simp
  have v: "valid_date (Date 2026 5 1)" "valid_date (Date 2026 6 30)" by code_simp+
  have "Date 2026 6 26 \<in> set (forecast_pay_dates (Date 2026 5 1) (Date 2026 6 1) (Date 2026 6 30))"
    unfolding run by simp
  with run show ?thesis unfolding conjunct1 [OF forecast_pay_dates_exact [OF v, of "Date 2026 6 1"]] by (intro conjI)
qed

lemma month_sequence_length [simp]: "length (month_sequence d n) = n"
  by (induction n arbitrary: d) auto

lemma next_month_greater: "valid_date d \<Longrightarrow> d < next_month d"
  by (cases d) (auto simp: next_month_def less_date_def less_eq_date_def valid_date_def)

lemma month_sequence_sorted:
  "valid_date d \<Longrightarrow> sorted_wrt (<) (month_sequence d n) \<and> (\<forall>m \<in> set (month_sequence d n). d \<le> m)"
proof (induction n arbitrary: d)
  case (Suc n)
  have "d < next_month d" using Suc.prems by (rule next_month_greater)
  with Suc.IH [of "next_month d"] Suc.prems show ?case by (fastforce intro: less_imp_le)
qed simp

section \<open>Cash in a month\<close>





section \<open>All periods\<close>

text \<open>What a recorded period adds up to.\<close>

definition period_adds_up :: "forecast_period \<Rightarrow> bool" where
  "period_adds_up p \<longleftrightarrow>
     fp_ending_cash p = fp_ending_checking p + fp_ending_savings p
     \<and> 0 \<le> fp_taxes p
     \<and> fp_sofi_checking p + fp_sofi_savings p =
         max 0 (fp_gross_pay p - fp_benefits_and_other p - fp_taxes p - fp_employee_retirement p
           - fp_employee_hsa p - fp_stock_plan p)"

lemma month_cash_adds_up:
  "mc_ending_cash (month_cash_of si fb net c s) = mc_checking (month_cash_of si fb net c s) + mc_savings (month_cash_of si fb net c s)
   \<and> mc_checking_deposit (month_cash_of si fb net c s) + mc_savings_deposit (month_cash_of si fb net c s) = net"
  by (simp add: month_cash_of_def Let_def)

lemma forecast_month_rows:
  "\<exists>p. ft_periods (forecast_month si fb dates m st) = ft_periods st @ [p] \<and> fp_month p = m \<and> period_adds_up p
     \<and> ft_lowest_cash (forecast_month si fb dates m st) = min (ft_lowest_cash st) (dec (fp_ending_cash p))"
  using month_cash_adds_up [of si fb "my_net (month_pay_of si fb m (pays_in_month dates m))" "ft_checking st" "ft_savings st"]
  by (auto simp: forecast_month_def period_of_def period_adds_up_def month_pay_of_def Let_def)

lemma fold_forecast_rows:
  "\<exists>rows. ft_periods (fold (forecast_month si fb dates) ms st) = ft_periods st @ rows
     \<and> map fp_month rows = ms \<and> list_all period_adds_up rows
     \<and> ft_lowest_cash (fold (forecast_month si fb dates) ms st)
         = foldl min (ft_lowest_cash st) (map (dec \<circ> fp_ending_cash) rows)"
proof (induction ms rule: rev_induct)
  case Nil
  then show ?case by simp
next
  case (snoc m ms)
  let ?s = "fold (forecast_month si fb dates) ms st"
  obtain rows where rows: "ft_periods ?s = ft_periods st @ rows" "map fp_month rows = ms" "list_all period_adds_up rows"
      "ft_lowest_cash ?s = foldl min (ft_lowest_cash st) (map (dec \<circ> fp_ending_cash) rows)"
    using snoc.IH by blast
  obtain p where "ft_periods (forecast_month si fb dates m ?s) = ft_periods ?s @ [p]" "fp_month p = m" "period_adds_up p"
      "ft_lowest_cash (forecast_month si fb dates m ?s) = min (ft_lowest_cash ?s) (dec (fp_ending_cash p))"
    using forecast_month_rows [of si fb dates m ?s] by blast
  with rows show ?case by (intro exI [of _ "rows @ [p]"]) (simp add: comp_def)
qed

lemma run_forecast_rows:
  "map fp_month (ft_periods (run_forecast db si today latest)) = forecast_months today
   \<and> list_all period_adds_up (ft_periods (run_forecast db si today latest))
   \<and> ft_lowest_cash (run_forecast db si today latest)
       = foldl min (dadd (fst (opening_cash db si)) (snd (opening_cash db si)))
           (map (dec \<circ> fp_ending_cash) (ft_periods (run_forecast db si today latest)))"
  using fold_forecast_rows [of si "forecast_basis_of db si today latest"
      "forecast_pay_dates (pay_anchor latest) (hd (forecast_months today)) (month_end (last (forecast_months today)))"
      "forecast_months today" "initial_forecast db si (hd (forecast_months today)) latest"]
  by (auto simp: run_forecast_def initial_forecast_def Let_def)

text \<open>
  C36: A forecast that is stored covers the twelve months after the current one, one period each and
  in order; in every period the deposits are the pay that withholdings and contributions leave,
  never negative, and the ending cash is what the two accounts hold; the stored scenario replaces
  the ones of its name and no other.
\<close>

theorem build_forecast_periods:
  assumes "build_forecast digest by_category limits b si today db = Inr (db', s)"
  shows "\<exists>row. row \<in> set (fd_scenarios db') \<and> fs_name row = si_name si \<and> fs_id row = fy_scenario_id s
    \<and> map fp_month (fs_periods row) = month_sequence (next_month (month_start today)) 12
    \<and> list_all period_adds_up (fs_periods row)
    \<and> filter (\<lambda>r. fs_name r \<noteq> si_name si) (fd_scenarios db') = filter (\<lambda>r. fs_name r \<noteq> si_name si) (fd_scenarios db)
    \<and> filter (\<lambda>r. fs_name r = si_name si) (fd_scenarios db') = [row]"
proof -
  obtain latest where latest: "latest_statement db = Some latest"
    using assms by (auto simp: build_forecast_def split: option.splits)
  let ?st = "run_forecast db si today latest"
  obtain row where row: "fd_scenarios db' = filter (\<lambda>r. fs_name r \<noteq> si_name si) (fd_scenarios db) @ [row]"
      "fs_name row = si_name si" "fs_id row = fy_scenario_id s" "fs_periods row = ft_periods ?st"
    using assms by (auto simp: build_forecast_def latest Let_def)
  then show ?thesis using run_forecast_rows [of db si today latest]
    by (intro exI [of _ row]) (simp add: forecast_months_def filter_empty_conv)
qed

text \<open>A household with one statement and no cash history.\<close>

definition example_statement :: payroll_statement where
  "example_statement =
     \<lparr>st_id = 1, st_employer = '''', st_job_title = None, st_period_start = Date 2026 4 1,
      st_period_end = Date 2026 4 14, st_payment_date = Date 2026 4 17, st_observed_deposit_date = None,
      st_base_salary = 5200000,
      st_amounts = (\<lambda>f. case f of Gross_earnings \<Rightarrow> 200000 | Tax_withholdings \<Rightarrow> 40000 | Net_payment \<Rightarrow> 160000 | _ \<Rightarrow> 0),
      st_ytd_values = (\<lambda>_. None), st_detail_complete = True\<rparr>"

definition example_forecast_db :: forecast_db where
  "example_forecast_db =
     \<lparr>fd_cash = example_cash_db, fd_statements = [example_statement], fd_lines = [], fd_scenarios = []\<rparr>"

lemma example_latest: "latest_statement example_forecast_db = Some example_statement"
  by (simp add: latest_statement_def example_forecast_db_def)

lemma example_build:
  "\<exists>db' s. build_forecast (\<lambda>_. ''h'') (\<lambda>ls. ls) (\<lambda>_. None) True no_change_baseline (Date 2026 5 20) example_forecast_db
    = Inr (db', s)"
  by (simp add: build_forecast_def example_latest Let_def)

theorem build_forecast_periods_witness:
  "\<exists>db' s row. build_forecast (\<lambda>_. ''h'') (\<lambda>ls. ls) (\<lambda>_. None) True no_change_baseline (Date 2026 5 20) example_forecast_db
     = Inr (db', s) \<and> row \<in> set (fd_scenarios db') \<and> list_all period_adds_up (fs_periods row)"
  using example_build build_forecast_periods by blast

section \<open>The baseline, stored and read again\<close>

lemma latest_statement_scenarios [simp]: "latest_statement (db\<lparr>fd_scenarios := x\<rparr>) = latest_statement db"
  by (simp add: latest_statement_def)

lemma baseline_fingerprint_scenarios [simp]:
  "baseline_fingerprint digest by_category (db\<lparr>fd_scenarios := x\<rparr>) today = baseline_fingerprint digest by_category db today"
  by (cases "latest_statement db") (simp_all add: baseline_fingerprint_def baseline_payload_def Let_def)

lemma no_change_additional:
  "ft_additional_fidelity (forecast_month no_change_baseline fb dates m st) = ft_additional_fidelity st"
  by (simp add: forecast_month_def month_pay_of_def month_cash_of_def redirects_def no_change_baseline_def
      dmul_def ddiv_def dec_def Let_def)

lemma no_change_additional_zero: "ft_additional_fidelity (run_forecast db no_change_baseline today latest) = 0"
proof -
  have "ft_additional_fidelity (fold (forecast_month no_change_baseline fb dates) ms st) = ft_additional_fidelity st"
    for fb dates ms st
    by (induction ms arbitrary: st) (simp_all add: no_change_additional)
  then show ?thesis by (simp add: run_forecast_def initial_forecast_def Let_def)
qed

lemma money_min: "money (min x y) = min (money x) (money y)"
  by (metis min_absorb1 min_absorb2 money_mono nle_le)

lemma money_foldl_min: "money (foldl min x (map (dec \<circ> f) ps)) = foldl min (money x) (map f ps)"
  by (induction ps arbitrary: x) (simp_all add: money_min)

lemma foldl_min_Cons: "foldl min a (x # xs) = min a (foldl min x xs)" for a :: "'a::linorder"
  by (induction xs arbitrary: a x) (simp_all add: min.assoc)

lemma periods_in_order:
  assumes "map fp_month ps = month_sequence d n" "valid_date d"
  shows "sort_key fp_month ps = ps"
proof (rule sort_key_id_if_sorted)
  have "sorted_wrt (<) (map fp_month ps)" using assms month_sequence_sorted by metis
  then show "sorted (map fp_month ps)" by (rule strict_sorted_imp_sorted)
qed

lemma stored_lowest:
  fixes a :: "'a::linorder"
  assumes "ps \<noteq> []"
  shows "foldl min a (map f ps) = min a (foldl min (f (hd ps)) (map f (tl ps)))"
  using assms by (cases ps) (simp_all add: foldl_min_Cons [simplified])

text \<open>
  C35: Once built, the baseline is stable: asking for it again on the same day changes nothing in
  the database and returns the same scenario, months, salary and warnings. Two figures differ,
  though: the first answer reports no additional funding and counts the opening cash towards the
  lowest cash; every later answer reports all contributions of the year as additional funding and
  leaves the opening cash out.
\<close>

theorem baseline_read_again:
  assumes "ensure_baseline digest by_category limits today db = Inr (db1, s1)"
    and "\<And>s. find fs_is_baseline (fd_scenarios db) = Some s \<Longrightarrow> \<not> baseline_fresh digest by_category today db s"
    and "valid_date today"
    and "opening = dadd (dec (latest_cash_balance (fd_cash db) ''checking'')) (dec (latest_cash_balance (fd_cash db) ''savings''))"
  shows "\<exists>row s2. fd_scenarios db1 = [row] \<and> ensure_baseline digest by_category limits today db1 = Inr (db1, s2)
    \<and> fy_scenario_id s2 = fy_scenario_id s1 \<and> fy_start_month s2 = fy_start_month s1
    \<and> fy_end_month s2 = fy_end_month s1 \<and> fy_annual_salary s2 = fy_annual_salary s1
    \<and> fy_limit_warnings s2 = fy_limit_warnings s1 \<and> fy_assumption_warnings s2 = fy_assumption_warnings s1
    \<and> fy_additional_fidelity_funding s1 = 0
    \<and> fy_additional_fidelity_funding s2 = sum_list (map (\<lambda>p. fp_employee_retirement p + fp_employer_retirement p
          + fp_stock_plan p) (fs_periods row))
    \<and> fy_lowest_projected_cash s1 = min (money opening) (fy_lowest_projected_cash s2)"
proof -
  let ?db = "db\<lparr>fd_scenarios := []\<rparr>"
  have built: "build_forecast digest by_category limits True no_change_baseline today ?db = Inr (db1, s1)"
    using assms(1,2) by (auto simp: ensure_baseline_def split: option.splits if_splits)
  then obtain latest where latest: "latest_statement db = Some latest"
    by (auto simp: build_forecast_def split: option.splits)
  let ?st = "run_forecast ?db no_change_baseline today latest"
  obtain row where db1: "db1 = db\<lparr>fd_scenarios := [row]\<rparr>"
    and row: "fs_is_baseline row" "fs_forecast_version row = forecast_version"
      "fs_baseline_fingerprint row = Some (baseline_fingerprint digest by_category db today)"
      "fs_assumption_warnings row = Some (fy_assumption_warnings s1)" "fs_limit_warnings row = fy_limit_warnings s1"
      "fs_periods row = ft_periods ?st" "fs_id row = fy_scenario_id s1" "fs_annual_salary row = fy_annual_salary s1"
    and s1: "fy_start_month s1 = hd (forecast_months today)" "fy_end_month s1 = last (forecast_months today)"
      "fy_additional_fidelity_funding s1 = ft_additional_fidelity ?st"
      "fy_lowest_projected_cash s1 = money (ft_lowest_cash ?st)"
    using built by (auto simp: build_forecast_def latest Let_def)
  note rows = run_forecast_rows [of ?db no_change_baseline today latest, folded row(6)]
  have months: "map fp_month (fs_periods row) = forecast_months today" using rows by blast
  have "length (fs_periods row) = 12"
    using arg_cong [OF months, of length] by (simp add: forecast_months_def)
  then have ne: "fs_periods row \<noteq> []" by auto
  have ordered: "sort_key fp_month (fs_periods row) = fs_periods row"
    using periods_in_order [OF months [unfolded forecast_months_def]] assms(3) by simp
  have ends: "fp_month (hd (fs_periods row)) = hd (forecast_months today)"
    "fp_month (last (fs_periods row)) = last (forecast_months today)"
    using ne by (simp_all add: hd_map last_map flip: months)
  have open_eq: "dadd (fst (opening_cash ?db no_change_baseline)) (snd (opening_cash ?db no_change_baseline)) = opening"
    by (simp add: opening_cash_def no_change_baseline_def given_or_def assms(4))
  have low: "money (ft_lowest_cash ?st) = foldl min (money opening) (map fp_ending_cash (fs_periods row))"
    using rows by (simp only: open_eq money_foldl_min)
  have again: "ensure_baseline digest by_category limits today db1 = Inr (db1, stored_summary row)"
    using row ne by (simp add: ensure_baseline_def db1 baseline_fresh_def)
  show ?thesis
    by (rule exI [of _ row], rule exI [of _ "stored_summary row"])
      (use again row s1 ends ordered low stored_lowest [OF ne, of "money opening" fp_ending_cash] in
        \<open>simp add: db1 stored_summary_def Let_def given_or_def no_change_additional_zero\<close>)
qed

theorem baseline_read_again_witness:
  "\<exists>db1 s1 s2. ensure_baseline (\<lambda>_. ''h'') (\<lambda>ls. ls) (\<lambda>_. None) (Date 2026 5 20) example_forecast_db = Inr (db1, s1)
    \<and> ensure_baseline (\<lambda>_. ''h'') (\<lambda>ls. ls) (\<lambda>_. None) (Date 2026 5 20) db1 = Inr (db1, s2)
    \<and> fy_additional_fidelity_funding s1 = 0"
proof -
  have none: "find fs_is_baseline (fd_scenarios example_forecast_db) = None" by (simp add: example_forecast_db_def)
  have same: "example_forecast_db\<lparr>fd_scenarios := []\<rparr> = example_forecast_db" by (simp add: example_forecast_db_def)
  obtain db1 s1 where run: "ensure_baseline (\<lambda>_. ''h'') (\<lambda>ls. ls) (\<lambda>_. None) (Date 2026 5 20) example_forecast_db = Inr (db1, s1)"
    using example_build by (auto simp only: ensure_baseline_def none same option.case)
  have "valid_date (Date 2026 5 20)" by code_simp
  from baseline_read_again [OF run _ this refl] none run show ?thesis by auto
qed

end
