(* ===== verification/Balances.thy ===== *)
theory Balances
  imports Cash_Months Keyed_Table Decimal_Money
begin

text \<open>
  \<open>balances.py\<close>: the balance at every month boundary, counted back from the latest observed balance
  of a bank account through its transactions, and the observations a user enters by hand. The
  digests are arguments: \<open>digest\<close> of a JSON payload, \<open>sha\<close> of a text.
\<close>

definition balance_version :: string where
  "balance_version = ''account-balance-history-v1''"

text \<open>The columns of a desired point, the \<open>BalancePointValues\<close> dictionary.\<close>

record balance_point_values =
  pv_account_id :: nat
  pv_anchor_snapshot_id :: nat
  pv_balance_date :: date
  pv_kind :: string
  pv_amount :: cents
  pv_source_kind :: string
  pv_coverage_start :: date
  pv_coverage_end :: date
  pv_calculation_version :: string
  pv_fingerprint :: string

definition point_fingerprint ::
  "(json \<Rightarrow> string) \<Rightarrow> nat \<Rightarrow> balance_snapshot \<Rightarrow> date \<Rightarrow> string \<Rightarrow> cents \<Rightarrow> date \<Rightarrow> string"
where
  "point_fingerprint digest account_id anchor balance_date kind v coverage_start =
     digest (JObj
       [(''version'', JStr balance_version), (''account_id'', JInt (int account_id)),
        (''anchor_snapshot_id'', JInt (int (bs_id anchor))),
        (''anchor_date'', JStr (isoformat (bs_snapshot_date anchor))),
        (''anchor_amount'', JStr (show_money (bs_amount anchor))),
        (''balance_date'', JStr (isoformat balance_date)), (''kind'', JStr kind),
        (''amount'', JStr (show_money v)), (''coverage_start'', JStr (isoformat coverage_start))])"

section \<open>Month boundaries of one account\<close>

definition is_bank_account :: "institution list \<Rightarrow> account \<Rightarrow> bool" where
  "is_bank_account insts a =
     (case institution_of insts a of None \<Rightarrow> False | Some i \<Rightarrow> in_kind i = ''bank'')"

text \<open>\<open>order_by(snapshot_date.desc(), id.desc()).limit(1)\<close>\<close>

definition later_snapshot :: "balance_snapshot \<Rightarrow> balance_snapshot \<Rightarrow> bool" where
  "later_snapshot r s \<longleftrightarrow> bs_snapshot_date s < bs_snapshot_date r
     \<or> (bs_snapshot_date s = bs_snapshot_date r \<and> bs_id s < bs_id r)"

definition keep_later :: "balance_snapshot \<Rightarrow> balance_snapshot option \<Rightarrow> balance_snapshot option" where
  "keep_later r best = (case best of None \<Rightarrow> Some r | Some s \<Rightarrow> if later_snapshot r s then Some r else Some s)"

definition anchor_of :: "cash_db \<Rightarrow> account \<Rightarrow> balance_snapshot option" where
  "anchor_of db a = fold keep_later (filter (\<lambda>r. bs_account_id r = ac_id a) (cd_snapshots db)) None"

definition transactions_to :: "cash_db \<Rightarrow> account \<Rightarrow> date \<Rightarrow> account_transaction list" where
  "transactions_to db a upto_date =
     sort_key tx_posted_date (sort_key tx_id
       (filter (\<lambda>t. tx_account_id t = ac_id a \<and> tx_posted_date t \<le> upto_date) (cd_transactions db)))"

definition activity_after :: "account_transaction list \<Rightarrow> date \<Rightarrow> date \<Rightarrow> cents" where
  "activity_after txs close_date anchor_date =
     sum_list (map tx_amount (filter (\<lambda>t. close_date < tx_posted_date t \<and> tx_posted_date t \<le> anchor_date) txs))"

definition month_activity :: "account_transaction list \<Rightarrow> date \<Rightarrow> date \<Rightarrow> cents" where
  "month_activity txs month close_date =
     sum_list (map tx_amount (filter (\<lambda>t. month \<le> tx_posted_date t \<and> tx_posted_date t \<le> close_date) txs))"

type_synonym boundary = "date \<times> string \<times> cents"

text \<open>The two points of one month.\<close>

definition month_boundaries ::
  "balance_snapshot \<Rightarrow> account_transaction list \<Rightarrow> date \<Rightarrow> date \<Rightarrow> boundary list"
where
  "month_boundaries anchor txs coverage_start month =
     (let anchor_date = bs_snapshot_date anchor;
          close_date = min (month_end month) anchor_date;
          closing = bs_amount anchor - activity_after txs close_date anchor_date;
          opening = closing - month_activity txs month close_date;
          open_date = max month coverage_start
      in [(open_date, if open_date = month then ''month_open'' else ''coverage_open'', opening),
          (close_date, if close_date = anchor_date then ''observed'' else ''month_close'', closing)])"

text \<open>
  \<open>while month <= anchor.snapshot_date\<close>; the test of validity only makes the recursion total on the
  model's triples.
\<close>

function boundaries_from ::
  "balance_snapshot \<Rightarrow> account_transaction list \<Rightarrow> date \<Rightarrow> date \<Rightarrow> boundary list"
where
  "boundaries_from anchor txs coverage_start month =
     (if valid_date month \<and> valid_date (bs_snapshot_date anchor) \<and> month \<le> bs_snapshot_date anchor
      then month_boundaries anchor txs coverage_start month
             @ boundaries_from anchor txs coverage_start (next_month month)
      else [])"
  by pat_completeness auto

lemma month_index_le: "a \<le> b \<Longrightarrow> valid_date a \<Longrightarrow> valid_date b \<Longrightarrow> month_index a \<le> month_index b"
  by (cases a; cases b) (auto simp: month_index_def valid_date_def)

termination boundaries_from
  by (relation "measure (\<lambda>(anchor, txs, c, month). nat (month_index (bs_snapshot_date anchor) - month_index month + 1))")
    (auto dest: month_index_le)

declare boundaries_from.simps [simp del]

definition coverage_start_of :: "balance_snapshot \<Rightarrow> account_transaction list \<Rightarrow> date" where
  "coverage_start_of anchor txs = (case txs of [] \<Rightarrow> bs_snapshot_date anchor | t # ts \<Rightarrow> tx_posted_date t)"

definition account_boundaries :: "balance_snapshot \<Rightarrow> account_transaction list \<Rightarrow> boundary list" where
  "account_boundaries anchor txs =
     (if txs = [] then [(bs_snapshot_date anchor, ''observed'', bs_amount anchor)]
      else boundaries_from anchor txs (coverage_start_of anchor txs) (month_start (coverage_start_of anchor txs)))"

section \<open>\<open>generate_account_balance_points\<close>\<close>

type_synonym point_key = "nat \<times> date \<times> string"

definition point_values ::
  "(json \<Rightarrow> string) \<Rightarrow> nat \<Rightarrow> balance_snapshot \<Rightarrow> date \<Rightarrow> boundary \<Rightarrow> balance_point_values"
where
  "point_values digest account_id anchor coverage_start b =
     (case b of (balance_date, kind, v) \<Rightarrow>
        \<lparr>pv_account_id = account_id, pv_anchor_snapshot_id = bs_id anchor, pv_balance_date = balance_date,
         pv_kind = kind, pv_amount = v,
         pv_source_kind = (if kind = ''observed'' then ''observed'' else ''calculated''),
         pv_coverage_start = coverage_start, pv_coverage_end = bs_snapshot_date anchor,
         pv_calculation_version = balance_version,
         pv_fingerprint = point_fingerprint digest account_id anchor balance_date kind v coverage_start\<rparr>)"

definition values_key :: "balance_point_values \<Rightarrow> point_key" where
  "values_key v = (pv_account_id v, pv_balance_date v, pv_kind v)"

definition point_key_of :: "account_balance_point \<Rightarrow> point_key" where
  "point_key_of p = (bp_account_id p, bp_balance_date p, bp_kind p)"

definition account_values :: "(json \<Rightarrow> string) \<Rightarrow> cash_db \<Rightarrow> account \<Rightarrow> balance_point_values list" where
  "account_values digest db a =
     (case anchor_of db a of
        None \<Rightarrow> []
      | Some anchor \<Rightarrow>
          let txs = transactions_to db a (bs_snapshot_date anchor) in
          map (point_values digest (ac_id a) anchor (coverage_start_of anchor txs)) (account_boundaries anchor txs))"

definition desired_points :: "(json \<Rightarrow> string) \<Rightarrow> cash_db \<Rightarrow> (point_key, balance_point_values) dict" where
  "desired_points digest db =
     fold (\<lambda>v d. dict_set (values_key v) v d)
       (concat (map (account_values digest db) (filter (is_bank_account (cd_institutions db)) (cd_accounts db)))) []"

text \<open>Setting every column of a row, and a new row.\<close>

definition write_point :: "balance_point_values \<Rightarrow> account_balance_point \<Rightarrow> account_balance_point" where
  "write_point v p =
     p\<lparr>bp_account_id := pv_account_id v, bp_anchor_snapshot_id := pv_anchor_snapshot_id v,
       bp_balance_date := pv_balance_date v, bp_kind := pv_kind v, bp_amount := pv_amount v,
       bp_source_kind := pv_source_kind v, bp_coverage_start := pv_coverage_start v,
       bp_coverage_end := pv_coverage_end v, bp_calculation_version := pv_calculation_version v,
       bp_fingerprint := pv_fingerprint v\<rparr>"

definition new_point :: "nat \<Rightarrow> balance_point_values \<Rightarrow> account_balance_point" where
  "new_point n v =
     \<lparr>bp_id = n, bp_account_id = pv_account_id v, bp_anchor_snapshot_id = pv_anchor_snapshot_id v,
      bp_balance_date = pv_balance_date v, bp_kind = pv_kind v, bp_amount = pv_amount v,
      bp_source_kind = pv_source_kind v, bp_coverage_start = pv_coverage_start v,
      bp_coverage_end = pv_coverage_end v, bp_calculation_version = pv_calculation_version v,
      bp_fingerprint = pv_fingerprint v\<rparr>"

record point_counts =
  pc_points :: int
  pc_observed :: int
  pc_calculated :: int

definition count_points :: "balance_point_values list \<Rightarrow> point_counts" where
  "count_points vs =
     \<lparr>pc_points = int (length vs),
      pc_observed = int (length (filter (\<lambda>v. pv_source_kind v = ''observed'') vs)),
      pc_calculated = int (length (filter (\<lambda>v. pv_source_kind v = ''calculated'') vs))\<rparr>"

definition generate_account_balance_points :: "(json \<Rightarrow> string) \<Rightarrow> cash_db \<Rightarrow> cash_db \<times> point_counts" where
  "generate_account_balance_points digest db =
     (let desired = map snd (desired_points digest db) in
      (db\<lparr>cd_points := sync_rows point_key_of bp_id values_key write_point new_point desired (cd_points db)\<rparr>,
       count_points desired))"

section \<open>\<open>add_manual_value_observation\<close>\<close>

datatype balance_error = Account_not_found

record import_db =
  im_cash :: cash_db
  im_batches :: "import_batch list"
  im_artifacts :: "import_artifact list"

definition manual_text :: "nat \<Rightarrow> date \<Rightarrow> cents \<Rightarrow> string \<Rightarrow> string" where
  "manual_text account_id d v note =
     ''manual-value:'' @ show_nat account_id @ '':'' @ isoformat d @ '':'' @ show_money v @ '':'' @ note"

text \<open>The artifact with the digest, or a new batch with a new artifact.\<close>

definition manual_artifact :: "string \<Rightarrow> date \<Rightarrow> import_db \<Rightarrow> import_db \<times> nat" where
  "manual_artifact digest d db =
     (case find (\<lambda>a. ia_sha256 a = digest) (im_artifacts db) of
        Some a \<Rightarrow> (db, ia_id a)
      | None \<Rightarrow>
          let batch_id = next_id (map ib_id (im_batches db)); artifact_id = next_id (map ia_id (im_artifacts db)) in
          (db\<lparr>im_batches := im_batches db @ [\<lparr>ib_id = batch_id, ib_status = ''complete'',
                 ib_requested_source = ''manual_value'', ib_artifact_count = 1, ib_imported_count = 1\<rparr>],
              im_artifacts := im_artifacts db @ [\<lparr>ia_id = artifact_id, ia_batch_id = batch_id, ia_sha256 = digest,
                 ia_original_filename = ''manual-account-value-'' @ isoformat d @ ''.json'',
                 ia_source_kind = ''manual_value'', ia_adapter = ''manual_account_value'',
                 ia_parser_version = balance_version\<rparr>]\<rparr>, artifact_id))"

definition is_manual :: "nat \<Rightarrow> date \<Rightarrow> balance_snapshot \<Rightarrow> bool" where
  "is_manual account_id d r \<longleftrightarrow> bs_account_id r = account_id \<and> bs_snapshot_date r = d \<and> bs_kind r = ''manual''"

text \<open>The snapshots hold at most one row per account, date and kind.\<close>

definition put_manual :: "nat \<Rightarrow> date \<Rightarrow> nat \<Rightarrow> cents \<Rightarrow> balance_snapshot list \<Rightarrow> balance_snapshot list" where
  "put_manual account_id d artifact_id v rows =
     (if list_ex (is_manual account_id d) rows
      then map (\<lambda>r. if is_manual account_id d r then r\<lparr>bs_artifact_id := artifact_id, bs_amount := v\<rparr> else r) rows
      else rows @ [\<lparr>bs_id = next_id (map bs_id rows), bs_account_id = account_id, bs_artifact_id = artifact_id,
                    bs_snapshot_date = d, bs_kind = ''manual'', bs_amount = v\<rparr>])"

definition add_manual_value_observation ::
  "(string \<Rightarrow> string) \<Rightarrow> nat \<Rightarrow> date \<Rightarrow> rat \<Rightarrow> string \<Rightarrow> import_db \<Rightarrow> (balance_error, import_db) result"
where
  "add_manual_value_observation sha account_id d v note db =
     (if \<not> list_ex (\<lambda>a. ac_id a = account_id) (cd_accounts (im_cash db)) then Inl Account_not_found
      else case manual_artifact (sha (manual_text account_id d (money v) note)) d db of
        (db', artifact_id) \<Rightarrow>
          Inr (db'\<lparr>im_cash := (im_cash db')\<lparr>cd_snapshots :=
                 put_manual account_id d artifact_id (money v) (cd_snapshots (im_cash db'))\<rparr>\<rparr>))"

section \<open>The table is rebuilt from the desired rows\<close>

interpretation balance_points: derived_table point_key_of bp_id values_key write_point new_point
  by unfold_locales (auto simp: point_key_of_def values_key_def write_point_def new_point_def)

end
