(* ===== verification/Reconciliation.thy ===== *)
theory Reconciliation
  imports Balances Payroll_Schedule
begin

text \<open>
  \<open>reconciliation.py\<close>, first part: the rows it derives, the arithmetic of a paycheck, the matching of
  transfers between accounts and the closing balances of the bank accounts. An amount within one
  cent of another agrees with it. Rows that a query orders by date alone come, for one date, in the
  order of the table.
\<close>

section \<open>The derived rows\<close>

record reconciliation_db =
  rd_cash :: cash_db
  rd_payroll :: payroll_db
  rd_transfers :: "transfer_match list"
  rd_flows :: "external_flow list"
  rd_bridges :: "investment_value_bridge list"
  rd_results :: "reconciliation_result list"

definition tolerance :: cents where "tolerance = 1"

section \<open>Residuals\<close>

definition payroll_residual :: "payroll_statement \<Rightarrow> cents" where
  "payroll_residual s = arithmetic_residual (st_amounts s)"

definition sofi_balance_residual :: "cents \<Rightarrow> cents list \<Rightarrow> cents \<Rightarrow> cents" where
  "sofi_balance_residual opening_balance transactions closing_balance =
     opening_balance + sum_list transactions - closing_balance"

definition fidelity_investment_result ::
  "cents \<Rightarrow> cents \<Rightarrow> cents \<Rightarrow> cents \<Rightarrow> cents \<Rightarrow> cents \<Rightarrow> cents \<Rightarrow> cents"
where
  "fidelity_investment_result opening_value closing_value employee employer stock_plan other withdrawals =
     closing_value - opening_value - employee - employer - stock_plan - other + withdrawals"

definition agrees :: "cents \<Rightarrow> bool" where
  "agrees residual \<longleftrightarrow> \<bar>residual\<bar> \<le> tolerance"

text \<open>\<open>f"${value:,.2f}"\<close> with a comma between the thousands.\<close>

function group_thousands :: "string \<Rightarrow> string" where
  "group_thousands s =
     (if length s \<le> 3 then s
      else group_thousands (take (length s - 3) s) @ '','' @ drop (length s - 3) s)"
  by pat_completeness auto
termination by (relation "measure length") auto

declare group_thousands.simps [simp del]

definition currency :: "cents \<Rightarrow> string" where
  "currency v =
     (let s = show_money \<bar>v\<bar>; n = length s - 3 in
      ''$'' @ (if v < 0 then ''-'' else '''') @ group_thousands (take n s) @ drop n s)"

definition result_row ::
  "string \<Rightarrow> string \<Rightarrow> string \<Rightarrow> string \<Rightarrow> cents option \<Rightarrow> json \<Rightarrow> reconciliation_result"
where
  "result_row entity_type entity_id rule status residual details =
     \<lparr>rr_entity_type = entity_type, rr_entity_id = entity_id, rr_rule = rule, rr_status = status,
      rr_residual = residual, rr_details = details\<rparr>"

section \<open>\<open>_reconcile_payroll\<close>\<close>

definition payroll_section_total :: "payroll_line_item list \<Rightarrow> string \<Rightarrow> cents" where
  "payroll_section_total lines sec =
     sum_list (map li_amount (filter (\<lambda>l. starts_with (li_category l) (sec @ ''.'')) lines))"

definition detail_lines :: "payroll_line_item list \<Rightarrow> payroll_statement \<Rightarrow> payroll_line_item list" where
  "detail_lines lines s =
     filter (\<lambda>l. li_statement_id l = st_id s \<and> contains (li_category l) ''.'') lines"

definition detail_results :: "payroll_line_item list \<Rightarrow> payroll_statement \<Rightarrow> (string \<times> cents) list" where
  "detail_results lines s =
     [(''earnings_detail'', payroll_section_total lines ''earnings'' + payroll_section_total lines ''imputed''
          - st_amounts s Gross_earnings),
      (''pretax_detail'', payroll_section_total lines ''pretax'' - st_amounts s Pretax_deductions),
      (''tax_detail'', payroll_section_total lines ''taxes'' - st_amounts s Tax_withholdings),
      (''after_tax_detail'', payroll_section_total lines ''after_tax'' - st_amounts s After_tax_deductions),
      (''net_distribution_detail'', payroll_section_total lines ''net_distribution'' - st_amounts s Net_payment)]"

definition payroll_row :: "payroll_statement \<Rightarrow> string \<Rightarrow> bool \<Rightarrow> cents option \<Rightarrow> json \<Rightarrow> reconciliation_result" where
  "payroll_row s rule ok residual details =
     result_row ''payroll_statement'' (show_nat (st_id s)) rule (status_of ok) residual details"

definition detail_rows :: "payroll_line_item list \<Rightarrow> payroll_statement \<Rightarrow> reconciliation_result list" where
  "detail_rows lines s =
     (let details = detail_results (detail_lines lines s) s; ok = list_all (\<lambda>(r, v). agrees v) details in
      map (\<lambda>(rule, v). payroll_row s rule (agrees v) (Some v) (JObj [])) details
      @ [payroll_row s ''destination_detail'' ok None
           (JObj [(''message'',
              JStr (if ok then ''Detailed earnings, deductions, employer benefits, and deposits reconcile.''
                    else ''One or more detailed payroll sections do not match the summary.''))])])"

definition statement_rows ::
  "payroll_statement list \<Rightarrow> payroll_line_item list \<Rightarrow> payroll_statement \<Rightarrow> reconciliation_result list"
where
  "statement_rows statements lines s =
     payroll_row s ''payroll_arithmetic'' (agrees (payroll_residual s)) (Some (payroll_residual s))
       (JObj [(''formula'', JStr ''gross - imputed non-cash - pretax - taxes - after-tax - net payment'')])
     # (if st_detail_complete s then detail_rows lines s else [])
     @ [payroll_row s ''duplicate_pay_date''
          (\<not> list_ex (\<lambda>i. st_id i \<noteq> st_id s \<and> st_payment_date i = st_payment_date s) statements) None (JObj [])]"

definition reconcile_payroll :: "payroll_db \<Rightarrow> reconciliation_result list" where
  "reconcile_payroll db =
     (let statements = sort_key st_payment_date (db_statements db) in
      concat (map (statement_rows statements (db_lines db)) statements))"

section \<open>\<open>_match_transfers\<close>\<close>

definition by_posted_date :: "account_transaction list \<Rightarrow> account_transaction list" where
  "by_posted_date txs = sort_key tx_posted_date txs"

definition may_counter :: "account_transaction \<Rightarrow> bool" where
  "may_counter t \<longleftrightarrow> tx_role t \<in> {''internal_transfer'', ''external_deposit'', ''external_withdrawal''}"

text \<open>The three tests of the inner loop, on a pair that is not yet matched.\<close>

definition opposite_sides :: "account_transaction \<Rightarrow> account_transaction \<Rightarrow> bool" where
  "opposite_sides l r \<longleftrightarrow>
     tx_id l \<noteq> tx_id r \<and> tx_account_id l \<noteq> tx_account_id r \<and> tx_amount l = - tx_amount r
     \<and> \<bar>days_between (tx_posted_date l) (tx_posted_date r)\<bar> \<le> 3"

definition transfer_of :: "account_transaction \<Rightarrow> account_transaction \<Rightarrow> transfer_match" where
  "transfer_of l r =
     \<lparr>tm_left_transaction_id = min (tx_id l) (tx_id r), tm_right_transaction_id = max (tx_id l) (tx_id r),
      tm_amount = \<bar>tx_amount l\<bar>,
      tm_confidence = (if tx_posted_date l = tx_posted_date r then ''high'' else ''medium'')\<rparr>"

record transfer_state =
  ts_pairs :: "(account_transaction \<times> account_transaction) list"
  ts_matched :: "nat list"

definition match_left ::
  "account_transaction list \<Rightarrow> account_transaction \<Rightarrow> transfer_state \<Rightarrow> transfer_state"
where
  "match_left counterparts l st =
     (if tx_id l \<in> set (ts_matched st) then st
      else case find (\<lambda>r. tx_id r \<notin> set (ts_matched st) \<and> opposite_sides l r) counterparts of
             None \<Rightarrow> st
           | Some r \<Rightarrow> st\<lparr>ts_pairs := ts_pairs st @ [(l, r)], ts_matched := tx_id l # tx_id r # ts_matched st\<rparr>)"

definition matched_pairs :: "account_transaction list \<Rightarrow> transfer_state" where
  "matched_pairs txs =
     fold (match_left (by_posted_date (filter may_counter txs)))
       (by_posted_date (filter (\<lambda>t. tx_role t = ''internal_transfer'') txs))
       \<lparr>ts_pairs = [], ts_matched = []\<rparr>"

definition match_transfers :: "account_transaction list \<Rightarrow> transfer_match list \<times> nat list" where
  "match_transfers txs =
     (let st = matched_pairs txs in (map (\<lambda>(l, r). transfer_of l r) (ts_pairs st), ts_matched st))"

end
