(* ===== verification/Bank_Reconciliation.thy ===== *)
theory Bank_Reconciliation
  imports Reconciliation
begin

text \<open>
  \<open>_reconcile_bank_accounts\<close>: the opening balance of a bank account and its posted activity against
  its closing balance, with the two explanations the code accepts for a difference, and the rows for
  money that crosses the household's border.
\<close>

definition strip_space :: "string \<Rightarrow> string" where
  "strip_space s =
     (let space = (\<lambda>c. let n = of_char c :: nat in n = 32 \<or> (9 \<le> n \<and> n \<le> 13) \<or> (28 \<le> n \<and> n \<le> 31))
      in rev (dropWhile space (rev (dropWhile space s))))"

definition debt_account_types :: "string list" where
  "debt_account_types =
     [''auto'', ''consumer'', ''credit card'', ''credit'', ''home equity'', ''loan'', ''mortgage'',
      ''overdraft'', ''student'']"

definition is_debt :: "account \<Rightarrow> bool" where
  "is_debt a \<longleftrightarrow>
     replace_all ''_'' '' '' (lower (strip_space (ac_account_type a))) \<in> set debt_account_types
     \<or> list_ex (contains (lower (ac_display_name a))) [''loan'', ''mortgage'', ''credit card'']"

text \<open>The two observations that bound the interval.\<close>

definition snapshots_by_date :: "balance_snapshot list \<Rightarrow> account \<Rightarrow> balance_snapshot list" where
  "snapshots_by_date snapshots a =
     sort_key bs_snapshot_date (filter (\<lambda>r. bs_account_id r = ac_id a) snapshots)"

definition of_kind :: "string \<Rightarrow> balance_snapshot list \<Rightarrow> balance_snapshot list" where
  "of_kind k rows = filter (\<lambda>r. bs_kind r = k) rows"

definition interval_bounds :: "balance_snapshot list \<Rightarrow> (balance_snapshot \<times> balance_snapshot) option" where
  "interval_bounds balances =
     (let current = of_kind ''current'' balances;
          openings = (if of_kind ''opening'' balances = [] \<and> 2 \<le> length current then [hd current]
                      else of_kind ''opening'' balances);
          closings = (if of_kind ''closing'' balances = [] \<and> current \<noteq> [] then [last current]
                      else of_kind ''closing'' balances)
      in if openings \<noteq> [] \<and> closings \<noteq> [] \<and> bs_snapshot_date (hd openings) < bs_snapshot_date (last closings)
         then Some (hd openings, last closings) else None)"

definition account_activity :: "account_transaction list \<Rightarrow> account \<Rightarrow> account_transaction list" where
  "account_activity txs a =
     sort_key tx_posted_date (sort_key tx_id (filter (\<lambda>t. tx_account_id t = ac_id a) txs))"

text \<open>The amounts the comparison of one interval computes.\<close>

record bank_check =
  bc_interval_total :: cents
  bc_strict_residual :: cents
  bc_opening_outflows :: cents
  bc_opening_inflows :: cents
  bc_explanation :: "string option"

definition opening_day :: "nat list \<Rightarrow> balance_snapshot \<Rightarrow> account_transaction list \<Rightarrow> account_transaction list" where
  "opening_day matched opening txs =
     filter (\<lambda>t. tx_posted_date t = bs_snapshot_date opening \<and> tx_id t \<notin> set matched
                 \<and> tx_role t \<noteq> ''internal_transfer'') txs"

definition check_interval ::
  "nat list \<Rightarrow> balance_snapshot \<Rightarrow> balance_snapshot \<Rightarrow> account_transaction list \<Rightarrow> bank_check"
where
  "check_interval matched opening closing txs =
     (let interval = map tx_amount (filter (\<lambda>t. bs_snapshot_date opening < tx_posted_date t
                        \<and> tx_posted_date t \<le> bs_snapshot_date closing) txs);
          strict = sofi_balance_residual (bs_amount opening) interval (bs_amount closing);
          day = map tx_amount (opening_day matched opening txs);
          outflows = sum_list (filter (\<lambda>v. v < 0) day);
          inflows = sum_list (filter (\<lambda>v. 0 < v) day)
      in \<lparr>bc_interval_total = sum_list interval, bc_strict_residual = strict,
          bc_opening_outflows = outflows, bc_opening_inflows = inflows,
          bc_explanation =
            (if agrees (strict + outflows) then Some ''opening-date outflows''
             else if agrees (strict + inflows) then Some ''opening-date inflows'' else None)\<rparr>)"

definition bank_reconciled :: "bank_check \<Rightarrow> bool" where
  "bank_reconciled c \<longleftrightarrow> agrees (bc_strict_residual c) \<or> bc_explanation c \<noteq> None"

text \<open>\<open>f"{d:%b %-d}"\<close>\<close>

definition month_abbreviations :: "string list" where
  "month_abbreviations =
     [''Jan'', ''Feb'', ''Mar'', ''Apr'', ''May'', ''Jun'', ''Jul'', ''Aug'', ''Sep'', ''Oct'', ''Nov'', ''Dec'']"

definition short_day :: "date \<Rightarrow> string" where
  "short_day d = month_abbreviations ! nat (d_month d - 1) @ '' '' @ show_nat (nat (d_day d))"

text \<open>The message, likely cause and next steps.\<close>

definition bank_advice :: "account \<Rightarrow> balance_snapshot \<Rightarrow> bank_check \<Rightarrow> string \<times> string \<times> string list" where
  "bank_advice a opening c =
     (let strict = bc_strict_residual c; name = ac_display_name a in
      case bc_explanation c of
        Some e \<Rightarrow>
          (name @ '' reconciles when '' @ e @ '' dated '' @ short_day (bs_snapshot_date opening)
             @ '' are placed after the opening balance. ''
             @ ''Plaid supplies a posting date but not a within-day posting time.'',
           ''same_day_posting_boundary'',
           [''No adjustment is needed; the dated activity exactly explains the difference.'',
            ''Keep the next observed balance so the timing boundary remains independently checkable.''])
      | None \<Rightarrow>
          if is_debt a \<and> \<not> bank_reconciled c
          then (name @ '' closed '' @ currency \<bar>strict\<bar> @ '' '' @ (if strict < 0 then ''higher'' else ''lower'')
                  @ '' than its posted activity explains. Loan balances can change from accrued interest ''
                  @ ''or provider adjustments that are not returned as transactions.'',
                ''interest_or_balance_adjustment'',
                [''Update the connection and check whether the provider supplies the missing loan activity.'',
                 ''If it persists, compare the opening and closing balances with the loan statement.'',
                 ''Leave the item open unless statement evidence identifies the interest or adjustment.''])
          else if bank_reconciled c
          then (name @ '' balances reconcile to posted activity.'', ''none'', [])
          else (name @ '' closed '' @ currency \<bar>strict\<bar> @ '' '' @ (if 0 < strict then ''below'' else ''above'')
                  @ '' the balance implied by posted activity.'',
                ''missing_or_mistimed_activity'',
                [''Update the connection to retrieve newly posted or corrected activity.'',
                 ''Compare the listed opening and closing evidence with the source account statement.'',
                 ''Do not add a balancing adjustment without source evidence.'']))"

definition bank_details ::
  "institution list \<Rightarrow> account \<Rightarrow> balance_snapshot \<Rightarrow> balance_snapshot \<Rightarrow> bank_check \<Rightarrow> json"
where
  "bank_details insts a opening closing c =
     (case bank_advice a opening c of (message, cause, steps) \<Rightarrow>
        JObj [(''account_name'', JStr (ac_display_name a)),
              (''institution'', JStr (case institution_of insts a of None \<Rightarrow> '''' | Some i \<Rightarrow> in_canonical_name i)),
              (''opening_date'', JStr (isoformat (bs_snapshot_date opening))),
              (''opening_balance'', JStr (show_money (bs_amount opening))),
              (''closing_date'', JStr (isoformat (bs_snapshot_date closing))),
              (''closing_balance'', JStr (show_money (bs_amount closing))),
              (''accounted_activity'', JStr (show_money (bc_interval_total c))),
              (''expected_closing_balance'', JStr (show_money (bs_amount opening + bc_interval_total c))),
              (''strict_residual'', JStr (show_money (bc_strict_residual c))),
              (''opening_date_outflows'', JStr (show_money \<bar>bc_opening_outflows c\<bar>)),
              (''opening_date_inflows'', JStr (show_money (bc_opening_inflows c))),
              (''likely_cause'', JStr cause), (''message'', JStr message),
              (''next_steps'', JList (map JStr steps))])"

definition account_row ::
  "institution list \<Rightarrow> nat list \<Rightarrow> account \<Rightarrow> balance_snapshot list \<Rightarrow> account_transaction list
     \<Rightarrow> reconciliation_result list"
where
  "account_row insts matched a balances txs =
     (case interval_bounds balances of
        None \<Rightarrow> []
      | Some (opening, closing) \<Rightarrow>
          let c = check_interval matched opening closing txs in
          [result_row ''account'' (show_nat (ac_id a)) ''account_balance'' (status_of (bank_reconciled c))
             (Some (if bank_reconciled c then 0 else bc_strict_residual c))
             (bank_details insts a opening closing c)])"

text \<open>The rows for the transactions of the account.\<close>

definition flow_roles :: "string list" where
  "flow_roles =
     [''external_inflow'', ''external_outflow'', ''interest'', ''fee'', ''adjustment'', ''payroll_deposit'']"

record bank_state =
  bk_results :: "reconciliation_result list"
  bk_flows :: "external_flow list"

definition unresolved_row :: "account_transaction \<Rightarrow> reconciliation_result" where
  "unresolved_row t =
     result_row ''account_transaction'' (show_nat (tx_id t)) ''transaction_role'' ''unresolved'' None (JObj [])"

definition book_transaction :: "nat list \<Rightarrow> account_transaction \<Rightarrow> bank_state \<Rightarrow> bank_state" where
  "book_transaction matched t st =
     (if tx_role t \<in> set flow_roles
      then st\<lparr>bk_flows := bk_flows st @ [\<lparr>ef_id = next_id (map ef_id (bk_flows st)), ef_transaction_id = tx_id t,
                ef_payroll_statement_id = None, ef_role = tx_role t, ef_amount = tx_amount t\<rparr>]\<rparr>
      else if tx_role t = ''internal_transfer'' \<and> tx_id t \<notin> set matched then st
      else if tx_role t = ''unresolved'' then st\<lparr>bk_results := bk_results st @ [unresolved_row t]\<rparr>
      else st)"

definition reconcile_bank_account :: "cash_db \<Rightarrow> nat list \<Rightarrow> account \<Rightarrow> bank_state \<Rightarrow> bank_state" where
  "reconcile_bank_account db matched a st =
     (let txs = account_activity (cd_transactions db) a in
      fold (book_transaction matched) txs
        (st\<lparr>bk_results := bk_results st
              @ account_row (cd_institutions db) matched a (snapshots_by_date (cd_snapshots db) a) txs\<rparr>))"

definition reconcile_bank_accounts :: "cash_db \<Rightarrow> nat list \<Rightarrow> bank_state \<Rightarrow> bank_state" where
  "reconcile_bank_accounts db matched st =
     fold (reconcile_bank_account db matched) (filter (is_bank_account (cd_institutions db)) (cd_accounts db)) st"

end
