(* ===== verification/Deposit_Matching.thy ===== *)
theory Deposit_Matching
  imports Bank_Reconciliation "HOL-Library.Product_Lexorder" "HOL-Library.List_Lexorder" "HOL-Library.Sublist"
begin

text \<open>
  Matching paychecks to deposits: \<open>_match_payroll_deposits\<close> pairs an imported statement with one
  flow of the same amount; \<open>_match_completed_payroll_deposits\<close> finds for every scheduled paycheck
  the best group of at most six deposits that add up to it.
\<close>

section \<open>\<open>_match_payroll_deposits\<close>\<close>

text \<open>The flows of positive amount with their transactions, and the gap in days.\<close>

definition positive_flows :: "account_transaction list \<Rightarrow> external_flow list \<Rightarrow> external_flow list" where
  "positive_flows txs flows =
     filter (\<lambda>f. 0 < ef_amount f \<and> list_ex (\<lambda>t. tx_id t = ef_transaction_id f) txs) flows"

definition flow_gap :: "account_transaction list \<Rightarrow> payroll_statement \<Rightarrow> external_flow \<Rightarrow> int option" where
  "flow_gap txs s f =
     map_option (\<lambda>t. \<bar>days_between (tx_posted_date t) (st_payment_date s)\<bar>)
       (find (\<lambda>t. tx_id t = ef_transaction_id f) txs)"

text \<open>\<open>min(candidates, key=...)\<close>: the first of the smallest gap.\<close>

fun first_nearest :: "(int \<times> 'a) list \<Rightarrow> (int \<times> 'a) option" where
  "first_nearest [] = None"
| "first_nearest ((g, x) # rest) =
     (case first_nearest rest of None \<Rightarrow> Some (g, x) | Some (h, y) \<Rightarrow> if h < g then Some (h, y) else Some (g, x))"

definition deposit_candidates ::
  "account_transaction list \<Rightarrow> external_flow list \<Rightarrow> nat list \<Rightarrow> payroll_statement \<Rightarrow> (int \<times> external_flow) list"
where
  "deposit_candidates txs flows used s =
     concat (map (\<lambda>f. if ef_id f \<in> set used \<or> ef_amount f \<noteq> st_amounts s Net_payment then []
                      else case flow_gap txs s f of None \<Rightarrow> [] | Some g \<Rightarrow> if g \<le> 5 then [(g, f)] else [])
       flows)"

definition mark_payroll :: "nat \<Rightarrow> nat option \<Rightarrow> external_flow list \<Rightarrow> external_flow list" where
  "mark_payroll i statement_id flows =
     map (\<lambda>f. if ef_id f = i then f\<lparr>ef_payroll_statement_id := statement_id, ef_role := ''payroll_deposit''\<rparr> else f) flows"

record deposit_state =
  ds_flows :: "external_flow list"
  ds_used :: "nat list"
  ds_results :: "reconciliation_result list"

definition match_statement ::
  "account_transaction list \<Rightarrow> external_flow list \<Rightarrow> payroll_statement \<Rightarrow> deposit_state \<Rightarrow> deposit_state"
where
  "match_statement txs flows s st =
     (case first_nearest (deposit_candidates txs flows (ds_used st) s) of
        None \<Rightarrow> st
      | Some (g, f) \<Rightarrow>
          st\<lparr>ds_flows := mark_payroll (ef_id f) (Some (st_id s)) (ds_flows st), ds_used := ef_id f # ds_used st,
             ds_results := ds_results st @ [payroll_row s ''payroll_to_sofi'' True None (JObj [])]\<rparr>)"

definition match_payroll_deposits ::
  "payroll_statement list \<Rightarrow> account_transaction list \<Rightarrow> external_flow list
     \<Rightarrow> external_flow list \<times> reconciliation_result list"
where
  "match_payroll_deposits statements txs flows =
     (let st = fold (match_statement txs (positive_flows txs flows)) statements
                 \<lparr>ds_flows = flows, ds_used = [], ds_results = []\<rparr>
      in (ds_flows st, ds_results st))"

section \<open>\<open>_match_completed_payroll_deposits\<close>\<close>

definition bank_deposits :: "cash_db \<Rightarrow> account_transaction list" where
  "bank_deposits db =
     sort_key tx_posted_date (sort_key tx_id
       (filter (\<lambda>t. 0 < tx_amount t
          \<and> list_ex (\<lambda>a. ac_id a = tx_account_id t \<and> is_bank_account (cd_institutions db) a) (cd_accounts db))
         (cd_transactions db)))"

definition deposit_gap :: "payroll_schedule_entry \<Rightarrow> account_transaction \<Rightarrow> int" where
  "deposit_gap e t = \<bar>days_between (tx_posted_date t) (se_observed_deposit_date e)\<bar>"

definition is_candidate :: "payroll_schedule_entry \<Rightarrow> account_transaction \<Rightarrow> bool" where
  "is_candidate e t \<longleftrightarrow> deposit_gap e t \<le> 3
     \<and> (contains (lower (tx_original_description t)) ''optum''
        \<or> contains (lower (tx_original_description t)) ''payroll'')"

text \<open>\<open>itertools.combinations\<close>, in its order.\<close>

fun combinations :: "nat \<Rightarrow> 'a list \<Rightarrow> 'a list list" where
  "combinations 0 xs = [[]]"
| "combinations (Suc n) [] = []"
| "combinations (Suc n) (x # xs) = map ((#) x) (combinations n xs) @ combinations (Suc n) xs"

type_synonym group_key = "int \<times> nat \<times> nat list"

definition key_of_group :: "payroll_schedule_entry \<Rightarrow> account_transaction list \<Rightarrow> group_key" where
  "key_of_group e g = (Max (set (map (deposit_gap e) g)), length g, map tx_id g)"

definition keep_best ::
  "payroll_schedule_entry \<Rightarrow> account_transaction list \<Rightarrow> account_transaction list option
     \<Rightarrow> account_transaction list option"
where
  "keep_best e g best =
     (if sum_list (map tx_amount g) \<noteq> se_amounts e Net_payment then best
      else case best of
             None \<Rightarrow> Some g
           | Some b \<Rightarrow> if key_of_group e g < key_of_group e b then Some g else best)"

definition best_group ::
  "payroll_schedule_entry \<Rightarrow> account_transaction list \<Rightarrow> account_transaction list option"
where
  "best_group e candidates =
     fold (\<lambda>size. fold (keep_best e) (combinations size candidates))
       [1..<Suc (min 6 (length candidates))] None"

record completed_state =
  cm_used :: "nat list"
  cm_matches :: "payroll_transaction_match list"
  cm_flows :: "external_flow list"

text \<open>\<open>",".join(ids)\<close> and the first flow of a transaction.\<close>

fun join_ids :: "nat list \<Rightarrow> string" where
  "join_ids [] = ''''"
| "join_ids [i] = show_nat i"
| "join_ids (i # j # is) = show_nat i @ '','' @ join_ids (j # is)"

definition group_name :: "(string \<Rightarrow> string) \<Rightarrow> payroll_schedule_entry \<Rightarrow> account_transaction list \<Rightarrow> string" where
  "group_name sha e g = take 32 (sha (show_nat (se_id e) @ '':'' @ join_ids (map tx_id g)))"

definition mark_deposit :: "nat option \<Rightarrow> account_transaction \<Rightarrow> external_flow list \<Rightarrow> external_flow list" where
  "mark_deposit statement_id t flows =
     (case find (\<lambda>f. ef_transaction_id f = tx_id t) flows of
        None \<Rightarrow> flows
      | Some f \<Rightarrow> mark_payroll (ef_id f) statement_id flows)"

definition book_deposit ::
  "payroll_schedule_entry \<Rightarrow> string \<Rightarrow> account_transaction \<Rightarrow> completed_state \<Rightarrow> completed_state"
where
  "book_deposit e name t st =
     st\<lparr>cm_used := tx_id t # cm_used st,
        cm_matches := cm_matches st @ [\<lparr>pm_schedule_entry_id = se_id e, pm_transaction_id = tx_id t,
                         pm_amount = tx_amount t, pm_match_group = name\<rparr>],
        cm_flows := mark_deposit (se_payroll_statement_id e) t (cm_flows st)\<rparr>"

definition entry_candidates ::
  "account_transaction list \<Rightarrow> nat list \<Rightarrow> payroll_schedule_entry \<Rightarrow> account_transaction list"
where
  "entry_candidates txs used e = filter (\<lambda>t. tx_id t \<notin> set used \<and> is_candidate e t) txs"

definition match_entry ::
  "(string \<Rightarrow> string) \<Rightarrow> account_transaction list \<Rightarrow> payroll_schedule_entry \<Rightarrow> completed_state \<Rightarrow> completed_state"
where
  "match_entry sha txs e st =
     (case best_group e (entry_candidates txs (cm_used st) e) of
        None \<Rightarrow> st
      | Some g \<Rightarrow> fold (book_deposit e (group_name sha e g)) g st)"

definition match_completed_payroll_deposits ::
  "(string \<Rightarrow> string) \<Rightarrow> payroll_schedule_entry list \<Rightarrow> cash_db \<Rightarrow> external_flow list
     \<Rightarrow> payroll_transaction_match list \<times> external_flow list"
where
  "match_completed_payroll_deposits sha entries db flows =
     (let st = fold (match_entry sha (bank_deposits db)) (sort_key se_observed_deposit_date entries)
                 \<lparr>cm_used = [], cm_matches = [], cm_flows = flows\<rparr>
      in (cm_matches st, cm_flows st))"

end
