(* ===== verification/Investment_Bridges.thy ===== *)
theory Investment_Bridges
  imports Deposit_Matching
begin

text \<open>
  \<open>_reconcile_investment_accounts\<close>: between two consecutive observations of an investment account,
  the change of value that contributions and withdrawals do not explain, and the return it amounts
  to when the interval is long and unambiguous enough; and \<open>reconcile_all\<close>, which derives every row.
\<close>

definition investment_account_types :: "string list" where
  "investment_account_types =
     [''401k'', ''403b'', ''529'', ''brokerage'', ''ira'', ''investment'', ''pension'', ''retirement'',
      ''roth'', ''stock plan'']"

definition retirement_account_types :: "string list" where
  "retirement_account_types = [''401k'', ''403b'', ''pension'', ''retirement'']"

definition cash_flow_roles :: "string list" where
  "cash_flow_roles =
     [''employee_contribution'', ''employer_contribution'', ''stock_plan_contribution'', ''external_deposit'',
      ''external_withdrawal'', ''internal_transfer'']"

definition min_performance_days :: int where "min_performance_days = 7"

definition is_investment_holder :: "institution list \<Rightarrow> account \<Rightarrow> bool" where
  "is_investment_holder insts a =
     (case institution_of insts a of
        None \<Rightarrow> False
      | Some i \<Rightarrow> in_kind i = ''investment'' \<or> lower (ac_account_type a) \<in> set investment_account_types)"

text \<open>One observation per date, the last row of a date winning.\<close>

definition observations :: "balance_snapshot list \<Rightarrow> account \<Rightarrow> balance_snapshot list" where
  "observations snapshots a =
     sort_key bs_snapshot_date (map snd
       (fold (\<lambda>r. dict_set (bs_snapshot_date r) r)
         (filter (\<lambda>r. bs_kind r \<in> {''opening'', ''closing'', ''current'', ''manual''}) (snapshots_by_date snapshots a))
         []))"

section \<open>One interval\<close>

definition positive_total :: "account_transaction list \<Rightarrow> string \<Rightarrow> cents" where
  "positive_total txs role = sum_list (map (\<lambda>t. max 0 (tx_amount t)) (filter (\<lambda>t. tx_role t = role) txs))"

text \<open>\<open>func.sum\<close> over the allocations of the paychecks received in the interval.\<close>

definition payroll_total :: "payroll_db \<Rightarrow> date \<Rightarrow> date \<Rightarrow> string \<Rightarrow> cents" where
  "payroll_total db from_date to_date category =
     sum_list (map (\<lambda>a. av_amount (pa_values a))
       (filter (\<lambda>a. av_category (pa_values a) = category
            \<and> list_ex (\<lambda>e. se_id e = av_schedule_entry_id (pa_values a)
                 \<and> from_date < se_observed_deposit_date e \<and> se_observed_deposit_date e \<le> to_date) (db_entries db))
         (db_allocations db)))"

record contributions =
  co_employee :: cents
  co_employer :: cents
  co_stock :: cents
  co_other :: cents
  co_withdrawals :: cents

definition transaction_contributions :: "account_transaction list \<Rightarrow> contributions" where
  "transaction_contributions txs =
     \<lparr>co_employee = positive_total txs ''employee_contribution'',
      co_employer = positive_total txs ''employer_contribution'',
      co_stock = positive_total txs ''stock_plan_contribution'',
      co_other = positive_total txs ''external_deposit'',
      co_withdrawals = sum_list (map (\<lambda>t. \<bar>tx_amount t\<bar>)
        (filter (\<lambda>t. tx_role t = ''external_withdrawal'' \<and> tx_amount t < 0) txs))\<rparr>"

text \<open>For a retirement account the payroll records take the place of the provider's deposits.\<close>

definition interval_contributions ::
  "payroll_db \<Rightarrow> account \<Rightarrow> date \<Rightarrow> date \<Rightarrow> account_transaction list \<Rightarrow> contributions"
where
  "interval_contributions db a from_date to_date txs =
     (let c = transaction_contributions txs;
          employee = payroll_total db from_date to_date ''pretax.employee_retirement'';
          employer = payroll_total db from_date to_date ''employer_benefit.employer_retirement''
      in if lower (ac_account_type a) \<in> set retirement_account_types \<and> 0 < employee + employer
         then c\<lparr>co_employee := employee, co_employer := employer, co_other := max 0 (co_other c - employee - employer)\<rparr>
         else c)"

definition interval_result :: "balance_snapshot \<Rightarrow> balance_snapshot \<Rightarrow> contributions \<Rightarrow> cents" where
  "interval_result opening closing c =
     fidelity_investment_result (bs_amount opening) (bs_amount closing) (co_employee c) (co_employer c)
       (co_stock c) (co_other c) (co_withdrawals c)"

text \<open>The money-weighted return, in hundredths of a percent, with the decimal arithmetic of the code.\<close>

definition weigh_flow :: "int \<Rightarrow> date \<Rightarrow> date \<times> cents \<Rightarrow> rat \<Rightarrow> rat" where
  "weigh_flow days period_start flow weighted =
     dadd weighted (dmul (dec (snd flow)) (ddiv (of_int (days - days_between (fst flow) period_start)) (of_int days)))"

definition modified_dietz ::
  "cents \<Rightarrow> cents \<Rightarrow> date \<Rightarrow> date \<Rightarrow> (date \<times> cents) list \<Rightarrow> cents option"
where
  "modified_dietz opening result period_start period_end flows =
     (let days = days_between period_end period_start in
      if days \<le> 0 then None
      else let denominator = dadd (dec opening) (fold (weigh_flow days period_start) flows 0) in
           if denominator = 0 then None
           else Some (money (dmul (ddiv (dec result) denominator) 100)))"

definition tracking_reason ::
  "balance_snapshot \<Rightarrow> balance_snapshot \<Rightarrow> account_transaction list \<Rightarrow> string option"
where
  "tracking_reason opening closing boundary_txs =
     (if days_between (bs_snapshot_date closing) (bs_snapshot_date opening) < min_performance_days
      then Some ''tracking_short_window''
      else if list_ex (\<lambda>t. (tx_posted_date t = bs_snapshot_date opening \<or> tx_posted_date t = bs_snapshot_date closing)
                \<and> tx_role t \<in> set cash_flow_roles) boundary_txs
      then Some ''tracking_boundary_activity''
      else if list_ex (\<lambda>t. tx_role t = ''unresolved'') boundary_txs then Some ''tracking_unresolved_activity''
      else None)"

definition boundary_flow_count :: "balance_snapshot \<Rightarrow> balance_snapshot \<Rightarrow> account_transaction list \<Rightarrow> nat" where
  "boundary_flow_count opening closing boundary_txs =
     length (filter (\<lambda>t. (tx_posted_date t = bs_snapshot_date opening \<or> tx_posted_date t = bs_snapshot_date closing)
        \<and> tx_role t \<in> set cash_flow_roles) boundary_txs)"

definition is_signed_flow :: "account_transaction \<Rightarrow> bool" where
  "is_signed_flow t \<longleftrightarrow>
     (0 < tx_amount t \<and> tx_role t \<in> {''employee_contribution'', ''employer_contribution'',
        ''stock_plan_contribution'', ''external_deposit''})
     \<or> (tx_amount t < 0 \<and> tx_role t = ''external_withdrawal'')"

definition activity_between :: "account_transaction list \<Rightarrow> account \<Rightarrow> date \<Rightarrow> date \<Rightarrow> account_transaction list" where
  "activity_between txs a from_date to_date =
     filter (\<lambda>t. tx_account_id t = ac_id a \<and> from_date < tx_posted_date t \<and> tx_posted_date t \<le> to_date) txs"

definition activity_within :: "account_transaction list \<Rightarrow> account \<Rightarrow> date \<Rightarrow> date \<Rightarrow> account_transaction list" where
  "activity_within txs a from_date to_date =
     filter (\<lambda>t. tx_account_id t = ac_id a \<and> from_date \<le> tx_posted_date t \<and> tx_posted_date t \<le> to_date) txs"

definition bridge_of ::
  "payroll_db \<Rightarrow> account_transaction list \<Rightarrow> account \<Rightarrow> balance_snapshot \<Rightarrow> balance_snapshot
     \<Rightarrow> investment_value_bridge"
where
  "bridge_of db txs a opening closing =
     (let from_date = bs_snapshot_date opening; to_date = bs_snapshot_date closing;
          interval = activity_between txs a from_date to_date;
          c = interval_contributions db a from_date to_date interval;
          result = interval_result opening closing c;
          reason = tracking_reason opening closing (activity_within txs a from_date to_date);
          calculated = (if reason = None
                        then modified_dietz (bs_amount opening) result from_date to_date
                               (map (\<lambda>t. (tx_posted_date t, tx_amount t)) (filter is_signed_flow interval))
                        else None)
      in \<lparr>iv_account_id = ac_id a, iv_period_start = from_date, iv_period_end = to_date,
          iv_opening_value = bs_amount opening, iv_employee_contributions = co_employee c,
          iv_employer_contributions = co_employer c, iv_stock_plan_contributions = co_stock c,
          iv_other_deposits = co_other c, iv_withdrawals = co_withdrawals c, iv_investment_result = result,
          iv_closing_value = bs_amount closing, iv_calculated_return_pct = calculated,
          iv_return_method = (case reason of Some r \<Rightarrow> r
            | None \<Rightarrow> if calculated \<noteq> None then ''modified_dietz'' else ''dollar_residual'')\<rparr>)"

definition investment_performance_available :: "investment_value_bridge \<Rightarrow> bool" where
  "investment_performance_available b \<longleftrightarrow> iv_return_method b \<in> {''modified_dietz'', ''dollar_residual''}"

definition bridge_row ::
  "account_transaction list \<Rightarrow> account \<Rightarrow> balance_snapshot \<Rightarrow> balance_snapshot \<Rightarrow> investment_value_bridge
     \<Rightarrow> reconciliation_result"
where
  "bridge_row txs a opening closing b =
     (let from_date = bs_snapshot_date opening; to_date = bs_snapshot_date closing;
          inside = activity_within txs a from_date to_date;
          free = (tracking_reason opening closing inside = None)
      in result_row ''investment_bridge'' (show_nat (ac_id a) @ '':'' @ isoformat from_date @ '':'' @ isoformat to_date)
           ''investment_value_bridge'' (if free then ''reconciled'' else ''tracking'') (Some 0)
           (JObj [(''return_method'', JStr (iv_return_method b)),
                  (''observation_days'', JInt (days_between to_date from_date)),
                  (''boundary_cash_flow_count'', JInt (int (boundary_flow_count opening closing inside))),
                  (''message'', JStr (if free then ''Performance is available for this observation interval.''
                     else ''Performance stays hidden until a longer, unambiguous observation interval is available.''))]))"

record investment_state =
  is_bridges :: "investment_value_bridge list"
  is_results :: "reconciliation_result list"

definition reconcile_interval ::
  "payroll_db \<Rightarrow> account_transaction list \<Rightarrow> account \<Rightarrow> balance_snapshot \<times> balance_snapshot
     \<Rightarrow> investment_state \<Rightarrow> investment_state"
where
  "reconcile_interval db txs a interval st =
     (case interval of (opening, closing) \<Rightarrow>
        let b = bridge_of db txs a opening closing in
        st\<lparr>is_bridges := is_bridges st @ [b],
           is_results := is_results st @ [bridge_row txs a opening closing b]
             @ map unresolved_row (filter (\<lambda>t. tx_role t = ''unresolved'')
                 (activity_between txs a (bs_snapshot_date opening) (bs_snapshot_date closing)))\<rparr>)"

definition pairwise :: "'a list \<Rightarrow> ('a \<times> 'a) list" where
  "pairwise xs = zip xs (tl xs)"

definition reconcile_investment_account ::
  "payroll_db \<Rightarrow> cash_db \<Rightarrow> account \<Rightarrow> investment_state \<Rightarrow> investment_state"
where
  "reconcile_investment_account pdb db a st =
     fold (reconcile_interval pdb (cd_transactions db) a) (pairwise (observations (cd_snapshots db) a)) st"

definition reconcile_investment_accounts :: "payroll_db \<Rightarrow> cash_db \<Rightarrow> investment_state" where
  "reconcile_investment_accounts pdb db =
     fold (reconcile_investment_account pdb db)
       (filter (is_investment_holder (cd_institutions db)) (cd_accounts db)) \<lparr>is_bridges = [], is_results = []\<rparr>"

section \<open>\<open>reconcile_all\<close>\<close>

text \<open>
  The details of a validation check are stored as JSON, in the shape the check has given them.
\<close>

definition count_json :: "string \<Rightarrow> json" where
  "count_json s = (case read_digits 0 s of None \<Rightarrow> JStr s | Some n \<Rightarrow> JInt (int n))"

definition check_details :: "validation_check \<Rightarrow> json" where
  "check_details c =
     (if vc_rule c = ''checkpoint_ytd'' then JObj (map (\<lambda>(k, v). (k, JStr v)) (vc_failures c))
      else if starts_with (vc_rule c) ''payroll_year_'' then JObj (map (\<lambda>(k, v). (k, count_json v)) (vc_failures c))
      else JObj [(''failures'', JList (map (\<lambda>(k, v). JList [JStr k, JStr v]) (vc_failures c)))])"

definition check_row :: "nat \<Rightarrow> validation_check \<Rightarrow> reconciliation_result" where
  "check_row index c =
     result_row ''payroll_schedule'' (case vc_entity_id c of None \<Rightarrow> show_nat index | Some i \<Rightarrow> i)
       (vc_rule c) (vc_status c) (Some (vc_residual c)) (check_details c)"

definition reconcile_completed_schedule :: "payroll_db \<Rightarrow> (payroll_error, reconciliation_result list) result" where
  "reconcile_completed_schedule db =
     bind_res (schedule_validation db) (\<lambda>checks.
       Inr (map (\<lambda>(i, c). check_row i c) (zip [1..<Suc (length checks)] checks)))"

datatype reconcile_error = Schedule_error payroll_error | Integrity_error

text \<open>\<open>uq_reconciliation_rule\<close>\<close>

definition result_key :: "reconciliation_result \<Rightarrow> string \<times> string \<times> string" where
  "result_key r = (rr_entity_type r, rr_entity_id r, rr_rule r)"

text \<open>The deposits, and the rows that the two ways of matching them write.\<close>

definition match_deposits ::
  "(string \<Rightarrow> string) \<Rightarrow> payroll_db \<Rightarrow> cash_db \<Rightarrow> external_flow list
     \<Rightarrow> (reconcile_error, payroll_transaction_match list \<times> external_flow list \<times> reconciliation_result list) result"
where
  "match_deposits sha pdb db flows =
     (if db_entries pdb \<noteq> [] then
        case match_completed_payroll_deposits sha (db_entries pdb) db flows of (paired, flows') \<Rightarrow>
          (case reconcile_completed_schedule pdb of
             Inl e \<Rightarrow> Inl (Schedule_error e)
           | Inr rows \<Rightarrow> Inr (paired, flows', rows))
      else case match_payroll_deposits (db_statements pdb) (cd_transactions db) flows of (flows', rows) \<Rightarrow>
             Inr (db_matches pdb, flows', rows))"

definition reconcile_all ::
  "(json \<Rightarrow> string) \<Rightarrow> (string \<Rightarrow> string) \<Rightarrow> reconciliation_db \<Rightarrow> (reconcile_error, reconciliation_db) result"
where
  "reconcile_all digest sha db =
     (let cash = rd_cash db; pdb = rd_payroll db;
          payroll_results = reconcile_payroll pdb;
          (transfers, matched) = match_transfers (cd_transactions cash);
          bank = reconcile_bank_accounts cash matched \<lparr>bk_results = payroll_results, bk_flows = []\<rparr>;
          cash' = fst (generate_account_balance_points digest cash)
      in bind_res (match_deposits sha pdb cash' (bk_flows bank)) (\<lambda>(paired, flows, rows).
           let investments = reconcile_investment_accounts pdb cash';
               results = bk_results bank @ rows @ is_results investments
           in if distinct (map result_key results)
              then Inr (db\<lparr>rd_cash := cash', rd_payroll := pdb\<lparr>db_matches := paired\<rparr>, rd_transfers := transfers,
                          rd_flows := flows, rd_bridges := is_bridges investments, rd_results := results\<rparr>)
              else Inl Integrity_error))"

end
