(* ===== verification/Reconciliation_Facts.thy ===== *)
theory Reconciliation_Facts
  imports Investment_Bridges
begin

text \<open>
  What reconciliation promises: transfers pair opposite transactions and leave none that could be
  paired, a group of deposits is the best one that adds up to its paycheck, every investment bridge
  closes, and reconciling again derives the same rows.
\<close>

section \<open>Transfers\<close>

definition pair_ids :: "(account_transaction \<times> account_transaction) list \<Rightarrow> nat list" where
  "pair_ids ps = concat (map (\<lambda>(l, r). [tx_id l, tx_id r]) ps)"

lemma pair_ids_simps [simp]:
  "pair_ids [] = []" "pair_ids (ps @ qs) = pair_ids ps @ pair_ids qs" "pair_ids [(l, r)] = [tx_id l, tx_id r]"
  by (simp_all add: pair_ids_def)

definition internal_pair :: "account_transaction list \<Rightarrow> account_transaction \<times> account_transaction \<Rightarrow> bool" where
  "internal_pair txs p \<longleftrightarrow>
     (case p of (l, r) \<Rightarrow> l \<in> set txs \<and> r \<in> set txs \<and> tx_role l = ''internal_transfer''
        \<and> may_counter r \<and> opposite_sides l r)"

text \<open>A left row has been served: it is matched, or everything that could counter it is.\<close>

definition served :: "account_transaction list \<Rightarrow> nat list \<Rightarrow> account_transaction \<Rightarrow> bool" where
  "served txs matched l \<longleftrightarrow>
     tx_id l \<in> set matched \<or> (\<forall>r \<in> set txs. may_counter r \<and> opposite_sides l r \<longrightarrow> tx_id r \<in> set matched)"

lemma served_mono: "served txs matched l \<Longrightarrow> set matched \<subseteq> set matched' \<Longrightarrow> served txs matched' l"
  unfolding served_def by blast

definition transfers_ok :: "account_transaction list \<Rightarrow> account_transaction set \<Rightarrow> transfer_state \<Rightarrow> bool" where
  "transfers_ok txs handled st \<longleftrightarrow>
     (\<forall>p \<in> set (ts_pairs st). internal_pair txs p) \<and> distinct (pair_ids (ts_pairs st))
     \<and> set (ts_matched st) = set (pair_ids (ts_pairs st)) \<and> (\<forall>l \<in> handled. served txs (ts_matched st) l)"

lemma by_posted_date_set [simp]: "set (by_posted_date txs) = set txs"
  by (simp add: by_posted_date_def)

lemma match_left_ok:
  assumes ok: "transfers_ok txs handled st" and l: "l \<in> set txs" "tx_role l = ''internal_transfer''"
  shows "transfers_ok txs (insert l handled) (match_left (by_posted_date (filter may_counter txs)) l st)"
proof (cases "tx_id l \<in> set (ts_matched st)")
  case True
  then have "served txs (ts_matched st) l" by (simp add: served_def)
  moreover have "match_left (by_posted_date (filter may_counter txs)) l st = st"
    using True by (simp add: match_left_def)
  ultimately show ?thesis using ok by (simp add: transfers_ok_def)
next
  case new: False
  let ?free = "\<lambda>r. tx_id r \<notin> set (ts_matched st) \<and> opposite_sides l r"
  show ?thesis
  proof (cases "find ?free (by_posted_date (filter may_counter txs))")
    case None
    then have "served txs (ts_matched st) l" by (auto simp: served_def find_None_iff)
    moreover have "match_left (by_posted_date (filter may_counter txs)) l st = st"
      using None by (simp add: match_left_def)
    ultimately show ?thesis using ok by (simp add: transfers_ok_def)
  next
    case (Some r)
    then have "r \<in> set (by_posted_date (filter may_counter txs)) \<and> ?free r"
      by (metis (mono_tags, lifting) find_Some_iff nth_mem)
    then have r: "r \<in> set txs" "may_counter r" "opposite_sides l r" "tx_id r \<notin> set (ts_matched st)" by auto
    have run: "match_left (by_posted_date (filter may_counter txs)) l st
        = st\<lparr>ts_pairs := ts_pairs st @ [(l, r)], ts_matched := tx_id l # tx_id r # ts_matched st\<rparr>"
      using new Some by (simp add: match_left_def)
    have "internal_pair txs (l, r)" using l r by (simp add: internal_pair_def)
    moreover have "tx_id l \<noteq> tx_id r" using r(3) by (simp add: opposite_sides_def)
    moreover have "served txs (tx_id l # tx_id r # ts_matched st) k" if "k \<in> insert l handled" for k
    proof (cases "k = l")
      case False
      with that ok have "served txs (ts_matched st) k" by (simp add: transfers_ok_def)
      then show ?thesis by (rule served_mono) auto
    qed (simp add: served_def)
    ultimately show ?thesis
      using ok new r(4) unfolding run transfers_ok_def by auto
  qed
qed

lemma matched_pairs_ok: "transfers_ok txs {t \<in> set txs. tx_role t = ''internal_transfer''} (matched_pairs txs)"
proof -
  let ?step = "match_left (by_posted_date (filter may_counter txs))"
  have "transfers_ok txs (set ls \<union> hs) (fold ?step ls st)"
    if "transfers_ok txs hs st" "\<forall>l \<in> set ls. l \<in> set txs \<and> tx_role l = ''internal_transfer''" for ls hs st
    using that
  proof (induction ls arbitrary: hs st)
    case (Cons l ls)
    have "transfers_ok txs (insert l hs) (?step l st)"
      by (rule match_left_ok) (use Cons.prems in simp_all)
    from Cons.IH [OF this] Cons.prems(2) show ?case by simp
  qed simp
  note loop = this [of "{}" "\<lparr>ts_pairs = [], ts_matched = []\<rparr>" "by_posted_date (filter (\<lambda>t. tx_role t = ''internal_transfer'') txs)"]
  have "transfers_ok txs {} \<lparr>ts_pairs = [], ts_matched = []\<rparr>" by (simp add: transfers_ok_def)
  from loop [OF this] show ?thesis by (simp add: matched_pairs_def)
qed

text \<open>
  C12: Transfer matching pairs transactions soundly and leaves no pair behind: every match joins an
  internal transfer to a possible counterpart of another account with the opposite amount at most
  three days apart, no transaction is in two matches, the reported matched set is exactly theirs,
  and no unmatched internal transfer has an unmatched counterpart.
\<close>

theorem match_transfers_sound:
  "case match_transfers txs of (transfers, matched) \<Rightarrow>
     (\<forall>m \<in> set transfers. \<exists>l \<in> set txs. \<exists>r \<in> set txs. m = transfer_of l r \<and> tx_role l = ''internal_transfer''
        \<and> may_counter r \<and> tx_account_id l \<noteq> tx_account_id r \<and> tx_amount l + tx_amount r = 0
        \<and> \<bar>days_between (tx_posted_date l) (tx_posted_date r)\<bar> \<le> 3)
     \<and> distinct (concat (map (\<lambda>m. [tm_left_transaction_id m, tm_right_transaction_id m]) transfers))
     \<and> set matched = set (concat (map (\<lambda>m. [tm_left_transaction_id m, tm_right_transaction_id m]) transfers))
     \<and> (\<forall>l \<in> set txs. \<forall>r \<in> set txs. tx_role l = ''internal_transfer'' \<longrightarrow> may_counter r \<longrightarrow> opposite_sides l r
          \<longrightarrow> tx_id l \<in> set matched \<or> tx_id r \<in> set matched)"
proof -
  let ?st = "matched_pairs txs" and ?ids = "\<lambda>m. [tm_left_transaction_id m, tm_right_transaction_id m]"
  have ok: "\<forall>p \<in> set (ts_pairs ?st). internal_pair txs p" "distinct (pair_ids (ts_pairs ?st))"
    "set (ts_matched ?st) = set (pair_ids (ts_pairs ?st))"
    "\<And>l. l \<in> set txs \<Longrightarrow> tx_role l = ''internal_transfer'' \<Longrightarrow> served txs (ts_matched ?st) l"
    using matched_pairs_ok [of txs] by (simp_all add: transfers_ok_def)
  have mset: "mset (concat (map ?ids (map (\<lambda>(l, r). transfer_of l r) ps))) = mset (pair_ids ps)" for ps
    by (induction ps) (auto simp: pair_ids_def transfer_of_def min_def max_def)
  from ok have "distinct (concat (map ?ids (map (\<lambda>(l, r). transfer_of l r) (ts_pairs ?st))))"
    "set (ts_matched ?st) = set (concat (map ?ids (map (\<lambda>(l, r). transfer_of l r) (ts_pairs ?st))))"
    using mset_eq_imp_distinct_iff [OF mset [of "ts_pairs ?st"]] mset_eq_setD [OF mset [of "ts_pairs ?st"]] ok(2,3) by simp_all
  moreover have "\<exists>l \<in> set txs. \<exists>r \<in> set txs. m = transfer_of l r \<and> tx_role l = ''internal_transfer''
      \<and> may_counter r \<and> tx_account_id l \<noteq> tx_account_id r \<and> tx_amount l + tx_amount r = 0
      \<and> \<bar>days_between (tx_posted_date l) (tx_posted_date r)\<bar> \<le> 3"
    if m: "m \<in> set (map (\<lambda>(l, r). transfer_of l r) (ts_pairs ?st))" for m
  proof -
    from m obtain l r where lr: "(l, r) \<in> set (ts_pairs ?st)" "m = transfer_of l r" by auto
    then have "internal_pair txs (l, r)" using ok(1) by blast
    then have "l \<in> set txs" "r \<in> set txs" "tx_role l = ''internal_transfer''" "may_counter r" "opposite_sides l r"
      by (simp_all add: internal_pair_def)
    with lr(2) show ?thesis by (intro bexI [of _ l] bexI [of _ r]) (simp_all add: opposite_sides_def)
  qed
  moreover have "tx_id l \<in> set (ts_matched ?st) \<or> tx_id r \<in> set (ts_matched ?st)"
    if "l \<in> set txs" "r \<in> set txs" "tx_role l = ''internal_transfer''" "may_counter r" "opposite_sides l r" for l r
    using ok(4) [OF that(1,3)] that(2,4,5) unfolding served_def by blast
  ultimately show ?thesis unfolding match_transfers_def Let_def prod.case by blast
qed

section \<open>Groups of deposits\<close>

lemma combinations_set: "set (combinations n xs) = {g. subseq g xs \<and> length g = n}"
proof (induction n xs rule: combinations.induct)
  case (1 xs)
  then show ?case by (auto intro: list_emb_Nil)
next
  case (2 n)
  then show ?case by auto
next
  case (3 n x xs)
  have "g \<in> set (combinations (Suc n) (x # xs)) \<longleftrightarrow> subseq g (x # xs) \<and> length g = Suc n" for g
  proof (cases g)
    case (Cons y ys)
    then show ?thesis
      using 3 by (auto simp: subseq_Cons2_iff image_iff intro: subseq_Cons' split: if_splits)
  qed (use 3 in auto)
  then show ?case by blast
qed

text \<open>The groups the code may choose for a paycheck.\<close>

definition adds_up :: "payroll_schedule_entry \<Rightarrow> account_transaction list \<Rightarrow> bool" where
  "adds_up e g \<longleftrightarrow> sum_list (map tx_amount g) = se_amounts e Net_payment"

definition keeps_best ::
  "payroll_schedule_entry \<Rightarrow> account_transaction list set \<Rightarrow> account_transaction list option \<Rightarrow> bool"
where
  "keeps_best e seen best \<longleftrightarrow>
     (case best of
        None \<Rightarrow> \<forall>g \<in> seen. \<not> adds_up e g
      | Some b \<Rightarrow> b \<in> seen \<and> adds_up e b \<and> (\<forall>g \<in> seen. adds_up e g \<longrightarrow> key_of_group e b \<le> key_of_group e g))"

lemma keep_best_step: "keeps_best e seen best \<Longrightarrow> keeps_best e (insert g seen) (keep_best e g best)"
  by (cases best) (auto simp: keeps_best_def keep_best_def adds_up_def not_less)

lemma keep_best_fold: "keeps_best e seen best \<Longrightarrow> keeps_best e (set gs \<union> seen) (fold (keep_best e) gs best)"
proof (induction gs arbitrary: seen best)
  case (Cons g gs)
  from Cons.IH [OF keep_best_step [OF Cons.prems, of g]] show ?case by simp
qed simp

lemma best_group_keeps:
  "keeps_best e {g. subseq g cs \<and> 1 \<le> length g \<and> length g \<le> 6} (best_group e cs)"
proof -
  have "keeps_best e ((\<Union>n \<in> set ns. set (combinations n cs)) \<union> seen)
      (fold (\<lambda>n. fold (keep_best e) (combinations n cs)) ns best)"
    if "keeps_best e seen best" for ns seen best
    using that
  proof (induction ns arbitrary: seen best)
    case (Cons n ns)
    from Cons.IH [OF keep_best_fold [OF Cons.prems]] show ?case by (simp add: Un_assoc Un_left_commute)
  qed simp
  from this [of "{}" None "[1..<Suc (min 6 (length cs))]"]
  have "keeps_best e (\<Union>n \<in> set [1..<Suc (min 6 (length cs))]. set (combinations n cs)) (best_group e cs)"
    by (simp add: keeps_best_def best_group_def)
  moreover have "(\<Union>n \<in> set [1..<Suc (min 6 (length cs))]. set (combinations n cs))
      = {g. subseq g cs \<and> 1 \<le> length g \<and> length g \<le> 6}"
    by (auto simp: combinations_set less_Suc_eq_le simp del: upt_Suc dest: list_emb_length)
  ultimately show ?thesis by simp
qed

text \<open>
  C6: The group of deposits chosen for a paycheck is the best one: it consists of one to six of the
  candidates, in their order, adds up to the net payment exactly, and no such group has a smaller
  largest gap (or, for the same gap, fewer deposits, or smaller ids); when no group is chosen, no
  group of one to six candidates adds up.
\<close>

theorem best_group_optimal:
  "case best_group e cs of
     None \<Rightarrow> \<forall>g. subseq g cs \<and> 1 \<le> length g \<and> length g \<le> 6 \<longrightarrow> sum_list (map tx_amount g) \<noteq> se_amounts e Net_payment
   | Some b \<Rightarrow> subseq b cs \<and> 1 \<le> length b \<and> length b \<le> 6 \<and> sum_list (map tx_amount b) = se_amounts e Net_payment
       \<and> (\<forall>g. subseq g cs \<and> 1 \<le> length g \<and> length g \<le> 6 \<and> sum_list (map tx_amount g) = se_amounts e Net_payment
            \<longrightarrow> key_of_group e b \<le> key_of_group e g)"
  using best_group_keeps [of e cs] by (cases "best_group e cs") (simp_all add: keeps_best_def adds_up_def)

definition deposit_on :: "nat \<Rightarrow> date \<Rightarrow> cents \<Rightarrow> account_transaction" where
  "deposit_on i d v = \<lparr>tx_id = i, tx_account_id = 1, tx_posted_date = d, tx_original_description = ''OPTUM PAYROLL'',
     tx_role = ''payroll_deposit'', tx_amount = v\<rparr>"

definition example_entry :: payroll_schedule_entry where
  "example_entry = \<lparr>se_id = 1, se_payroll_statement_id = Some 3, se_previous_checkpoint_id = None,
     se_next_checkpoint_id = None, se_payment_date = Date 2026 3 13, se_observed_deposit_date = Date 2026 3 13,
     se_period_start = Date 2026 2 28, se_period_end = Date 2026 3 13, se_payroll_year = 2026, se_payroll_index = 6,
     se_source_kind = ''calculated'', se_calculation_version = ''v'', se_employer = ''Optum'', se_job_title = None,
     se_base_salary = 10000000, se_amounts = (\<lambda>f. if f = Net_payment then 300000 else 0), se_adjustments = (\<lambda>_. 0),
     se_deposit_splits = [], se_fingerprint = ''''\<rparr>"

definition example_deposits :: "account_transaction list" where
  "example_deposits = [deposit_on 5 (Date 2026 3 12) 100000, deposit_on 6 (Date 2026 3 12) 200000,
     deposit_on 7 (Date 2026 3 13) 200000]"

text \<open>The two groups that add up have the same gap and size; the smaller ids win.\<close>

theorem best_group_optimal_witness:
  "best_group example_entry example_deposits = Some (take 2 example_deposits)
   \<and> key_of_group example_entry (take 2 example_deposits)
       \<le> key_of_group example_entry [deposit_on 5 (Date 2026 3 12) 100000, deposit_on 7 (Date 2026 3 13) 200000]"
proof
  show run: "best_group example_entry example_deposits = Some (take 2 example_deposits)" by code_simp
  have "subseq [deposit_on 5 (Date 2026 3 12) 100000, deposit_on 7 (Date 2026 3 13) 200000] example_deposits"
    by (simp add: example_deposits_def)
  moreover have "sum_list (map tx_amount [deposit_on 5 (Date 2026 3 12) 100000, deposit_on 7 (Date 2026 3 13) 200000])
      = se_amounts example_entry Net_payment" by code_simp
  ultimately show "key_of_group example_entry (take 2 example_deposits)
       \<le> key_of_group example_entry [deposit_on 5 (Date 2026 3 12) 100000, deposit_on 7 (Date 2026 3 13) 200000]"
    using best_group_optimal [where e = example_entry and cs = example_deposits] unfolding run option.case by simp
qed

theorem match_transfers_sound_witness:
  "\<exists>l r. fst (match_transfers [l, r]) = [transfer_of l r] \<and> tx_amount l + tx_amount r = 0"
proof -
  let ?l = "\<lparr>tx_id = 1, tx_account_id = 1, tx_posted_date = Date 2026 3 30, tx_original_description = ''To savings'',
      tx_role = ''internal_transfer'', tx_amount = - 5000\<rparr>"
  let ?r = "\<lparr>tx_id = 2, tx_account_id = 2, tx_posted_date = Date 2026 4 1, tx_original_description = ''From checking'',
      tx_role = ''internal_transfer'', tx_amount = 5000\<rparr>"
  have run: "match_transfers [?l, ?r] = ([transfer_of ?l ?r], [1, 2])" by code_simp
  have "\<exists>l \<in> set [?l, ?r]. \<exists>r \<in> set [?l, ?r]. transfer_of ?l ?r = transfer_of l r \<and> tx_amount l + tx_amount r = 0"
    using match_transfers_sound [of "[?l, ?r]"] unfolding run prod.case by auto
  then show ?thesis using run by (intro exI [of _ ?l] exI [of _ ?r]) auto
qed

section \<open>All scheduled paychecks\<close>

lemma book_group:
  "fold (book_deposit e name) g st =
     st\<lparr>cm_used := rev (map tx_id g) @ cm_used st,
        cm_matches := cm_matches st @ map (\<lambda>t. \<lparr>pm_schedule_entry_id = se_id e, pm_transaction_id = tx_id t,
           pm_amount = tx_amount t, pm_match_group = name\<rparr>) g,
        cm_flows := fold (mark_deposit (se_payroll_statement_id e)) g (cm_flows st)\<rparr>"
  by (induction g arbitrary: st) (simp_all add: book_deposit_def)

lemma mark_deposit_frame:
  "map ef_id (mark_deposit i t flows) = map ef_id flows"
  "map ef_transaction_id (mark_deposit i t flows) = map ef_transaction_id flows"
  "map ef_amount (mark_deposit i t flows) = map ef_amount flows"
  by (auto simp: mark_deposit_def mark_payroll_def split: option.splits)

definition flow_money :: "external_flow list \<Rightarrow> (nat \<times> nat \<times> cents) list" where
  "flow_money flows = map (\<lambda>f. (ef_id f, ef_transaction_id f, ef_amount f)) flows"

lemma flow_money_mark [simp]: "flow_money (mark_payroll i s flows) = flow_money flows"
  by (simp add: flow_money_def mark_payroll_def)

lemma flow_money_fold [simp]: "flow_money (fold (mark_deposit s) g flows) = flow_money flows"
  by (induction g arbitrary: flows) (auto simp: mark_deposit_def split: option.splits)

definition rows_of :: "payroll_schedule_entry \<Rightarrow> payroll_transaction_match list \<Rightarrow> payroll_transaction_match list" where
  "rows_of e ms = filter (\<lambda>m. pm_schedule_entry_id m = se_id e) ms"

definition entry_matched :: "account_transaction list \<Rightarrow> payroll_schedule_entry \<Rightarrow> payroll_transaction_match list \<Rightarrow> bool" where
  "entry_matched txs e ms \<longleftrightarrow>
     ms = [] \<or> (sum_list (map pm_amount ms) = se_amounts e Net_payment \<and> length ms \<le> 6
       \<and> (\<forall>m \<in> set ms. \<exists>t \<in> set txs. is_candidate e t \<and> pm_transaction_id m = tx_id t \<and> pm_amount m = tx_amount t))"

definition completed_ok ::
  "account_transaction list \<Rightarrow> external_flow list \<Rightarrow> payroll_schedule_entry set \<Rightarrow> completed_state \<Rightarrow> bool"
where
  "completed_ok txs flows handled st \<longleftrightarrow>
     distinct (map pm_transaction_id (cm_matches st)) \<and> set (cm_used st) = set (map pm_transaction_id (cm_matches st))
     \<and> (\<forall>m \<in> set (cm_matches st). pm_schedule_entry_id m \<in> se_id ` handled)
     \<and> (\<forall>e \<in> handled. entry_matched txs e (rows_of e (cm_matches st)))
     \<and> flow_money (cm_flows st) = flow_money flows"

lemma subseq_mem: "subseq g xs \<Longrightarrow> t \<in> set g \<Longrightarrow> t \<in> set xs"
  by (auto elim: list_emb_set)

lemma subseq_distinct: "subseq g xs \<Longrightarrow> distinct xs \<Longrightarrow> distinct g"
  by (auto simp: subseq_conv_nths)

lemma no_rows_yet:
  assumes "completed_ok txs flows handled st" "se_id e \<notin> se_id ` handled"
  shows "rows_of e (cm_matches st) = []"
proof -
  have "pm_schedule_entry_id m \<noteq> se_id e" if "m \<in> set (cm_matches st)" for m
    using assms that unfolding completed_ok_def by metis
  then show ?thesis by (simp add: rows_of_def filter_empty_conv)
qed

lemma match_entry_ok:
  assumes ok: "completed_ok txs flows handled st" and e: "se_id e \<notin> se_id ` handled" and ids: "distinct (map tx_id txs)"
  shows "completed_ok txs flows (insert e handled) (match_entry sha txs e st)"
proof (cases "best_group e (entry_candidates txs (cm_used st) e)")
  case None
  note no_rows_yet [OF ok e]
  with ok None show ?thesis by (simp add: completed_ok_def match_entry_def entry_matched_def)
next
  case (Some g)
  let ?rows = "map (\<lambda>t. \<lparr>pm_schedule_entry_id = se_id e, pm_transaction_id = tx_id t,
           pm_amount = tx_amount t, pm_match_group = group_name sha e g\<rparr>) g"
  have sub: "subseq g (entry_candidates txs (cm_used st) e)" and size: "length g \<le> 6"
    and exact: "sum_list (map tx_amount g) = se_amounts e Net_payment"
    using best_group_keeps [of e "entry_candidates txs (cm_used st) e"] Some
    by (simp_all add: keeps_best_def adds_up_def)
  have g: "t \<in> set txs \<and> is_candidate e t \<and> tx_id t \<notin> set (cm_used st)" if "t \<in> set g" for t
    using subseq_mem [OF sub that] by (simp add: entry_candidates_def)
  have "subseq g txs" using sub by (rule subseq_order.trans) (simp add: entry_candidates_def)
  then have "distinct (map tx_id g)" using ids by (blast intro: subseq_distinct subseq_map)
  have fresh: "rows_of e (cm_matches st) = []" by (rule no_rows_yet [OF ok e])
  have run: "cm_matches (match_entry sha txs e st) = cm_matches st @ ?rows"
    "cm_used (match_entry sha txs e st) = rev (map tx_id g) @ cm_used st"
    "flow_money (cm_flows (match_entry sha txs e st)) = flow_money (cm_flows st)"
    using Some by (simp_all add: match_entry_def book_group)
  have "rows_of e (cm_matches st @ ?rows) = ?rows" using fresh by (simp add: rows_of_def)
  moreover have "rows_of k (cm_matches st @ ?rows) = rows_of k (cm_matches st)" if "k \<in> handled" for k
    using that e by (auto simp: rows_of_def filter_empty_conv)
  moreover have "entry_matched txs e ?rows"
    unfolding entry_matched_def using g size exact by (auto simp: comp_def)
  ultimately have "\<forall>k \<in> insert e handled. entry_matched txs k (rows_of k (cm_matches st @ ?rows))"
    using ok by (simp add: completed_ok_def)
  moreover have "distinct (map pm_transaction_id (cm_matches st @ ?rows))"
  proof -
    have "set (map tx_id g) \<inter> set (map pm_transaction_id (cm_matches st)) = {}"
      using g ok unfolding completed_ok_def by fastforce
    moreover have ids_rows: "map pm_transaction_id ?rows = map tx_id g" by (simp add: comp_def)
    ultimately show ?thesis
      using ok \<open>distinct (map tx_id g)\<close> unfolding completed_ok_def map_append distinct_append ids_rows by blast
  qed
  ultimately show ?thesis
    using ok unfolding completed_ok_def run by (auto simp: comp_def)
qed

lemma match_entries_ok:
  assumes "completed_ok txs flows handled st" "distinct (map tx_id txs)"
    and "distinct (map se_id es)" "se_id ` handled \<inter> se_id ` set es = {}"
  shows "completed_ok txs flows (set es \<union> handled) (fold (match_entry sha txs) es st)"
  using assms
proof (induction es arbitrary: handled st)
  case (Cons e es)
  have "completed_ok txs flows (insert e handled) (match_entry sha txs e st)"
    by (rule match_entry_ok) (use Cons.prems in auto)
  from Cons.IH [OF this] Cons.prems show ?case by auto
qed simp

lemma bank_deposits_facts:
  "t \<in> set (bank_deposits db) \<Longrightarrow> t \<in> set (cd_transactions db) \<and> 0 < tx_amount t"
  "distinct (map tx_id (cd_transactions db)) \<Longrightarrow> distinct (map tx_id (bank_deposits db))"
proof -
  show "t \<in> set (bank_deposits db) \<Longrightarrow> t \<in> set (cd_transactions db) \<and> 0 < tx_amount t"
    by (auto simp: bank_deposits_def)
  show "distinct (map tx_id (bank_deposits db))" if d: "distinct (map tx_id (cd_transactions db))"
  proof -
    let ?P = "\<lambda>t. 0 < tx_amount t
          \<and> list_ex (\<lambda>a. ac_id a = tx_account_id t \<and> is_bank_account (cd_institutions db) a) (cd_accounts db)"
    have "mset (map tx_id (bank_deposits db)) = mset (map tx_id (filter ?P (cd_transactions db)))"
      unfolding bank_deposits_def by (simp only: mset_map_sort_key)
    from mset_eq_imp_distinct_iff [OF this] show ?thesis using d distinct_map_filter by blast
  qed
qed

text \<open>
  C39: Matching all scheduled paychecks uses each deposit once: no bank transaction is matched twice,
  every row belongs to a scheduled paycheck, the rows of a paycheck are none or at most six deposits
  within three days of it that name a payroll and add up to its net payment exactly, and the flows
  keep their identities and amounts.
\<close>

theorem completed_matches_sound:
  assumes "distinct (map tx_id (cd_transactions db))" "distinct (map se_id entries)"
  shows "case match_completed_payroll_deposits sha entries db flows of (ms, flows') \<Rightarrow>
      distinct (map pm_transaction_id ms)
      \<and> (\<forall>m \<in> set ms. pm_schedule_entry_id m \<in> se_id ` set entries)
      \<and> (\<forall>e \<in> set entries. let rows = filter (\<lambda>m. pm_schedule_entry_id m = se_id e) ms in rows = []
           \<or> (sum_list (map pm_amount rows) = se_amounts e Net_payment \<and> length rows \<le> 6
              \<and> (\<forall>m \<in> set rows. \<exists>t \<in> set (cd_transactions db). is_candidate e t \<and> 0 < tx_amount t
                    \<and> pm_transaction_id m = tx_id t \<and> pm_amount m = tx_amount t)))
      \<and> map (\<lambda>f. (ef_id f, ef_transaction_id f, ef_amount f)) flows' = map (\<lambda>f. (ef_id f, ef_transaction_id f, ef_amount f)) flows"
proof -
  let ?es = "sort_key se_observed_deposit_date entries"
  let ?st = "fold (match_entry sha (bank_deposits db)) ?es \<lparr>cm_used = [], cm_matches = [], cm_flows = flows\<rparr>"
  have "completed_ok (bank_deposits db) flows {} \<lparr>cm_used = [], cm_matches = [], cm_flows = flows\<rparr>"
    by (simp add: completed_ok_def)
  moreover have "distinct (map se_id ?es)"
    using assms(2) mset_eq_imp_distinct_iff [OF mset_map_sort_key [of se_id]] by blast
  ultimately have "completed_ok (bank_deposits db) flows (set ?es \<union> {}) ?st"
    by (intro match_entries_ok bank_deposits_facts(2) assms(1)) simp_all
  then have ok: "completed_ok (bank_deposits db) flows (set entries) ?st" by simp
  have rows: "let rows = filter (\<lambda>m. pm_schedule_entry_id m = se_id e) (cm_matches ?st) in rows = []
           \<or> (sum_list (map pm_amount rows) = se_amounts e Net_payment \<and> length rows \<le> 6
              \<and> (\<forall>m \<in> set rows. \<exists>t \<in> set (cd_transactions db). is_candidate e t \<and> 0 < tx_amount t
                    \<and> pm_transaction_id m = tx_id t \<and> pm_amount m = tx_amount t))"
    if "e \<in> set entries" for e
  proof -
    have "entry_matched (bank_deposits db) e (rows_of e (cm_matches ?st))"
      using ok that by (simp add: completed_ok_def)
    then show ?thesis
      unfolding entry_matched_def rows_of_def Let_def using bank_deposits_facts(1) [of _ db] by blast
  qed
  show ?thesis
    using ok rows unfolding match_completed_payroll_deposits_def Let_def prod.case completed_ok_def flow_money_def by blast
qed

definition example_deposit_db :: cash_db where
  "example_deposit_db = \<lparr>cd_institutions = [\<lparr>in_id = 1, in_canonical_name = ''SoFi'', in_kind = ''bank''\<rparr>],
     cd_accounts = [\<lparr>ac_id = 1, ac_institution_id = 1, ac_display_name = ''Checking'', ac_account_type = ''checking''\<rparr>],
     cd_snapshots = [], cd_points = [], cd_transactions = example_deposits\<rparr>"

theorem completed_matches_sound_witness:
  "\<exists>ms flows. match_completed_payroll_deposits (\<lambda>s. s) [example_entry] example_deposit_db [] = (ms, flows)
     \<and> map pm_transaction_id ms = [5, 6] \<and> distinct (map pm_transaction_id ms)"
proof -
  let ?r = "match_completed_payroll_deposits (\<lambda>s. s) [example_entry] example_deposit_db []"
  have run: "map pm_transaction_id (fst ?r) = [5, 6]" by code_simp
  have "distinct (map tx_id (cd_transactions example_deposit_db))" "distinct (map se_id [example_entry])"
    by (code_simp, simp)
  note completed_matches_sound [OF this, where sha = "\<lambda>s. s" and flows = "[]"]
  then have "distinct (map pm_transaction_id (fst ?r))" by (simp add: case_prod_beta)
  with run show ?thesis by (intro exI [of _ "fst ?r"] exI [of _ "snd ?r"]) simp
qed

section \<open>Money crossing the border\<close>

definition flow_facts :: "external_flow \<Rightarrow> nat \<times> nat option \<times> string \<times> cents" where
  "flow_facts f = (ef_transaction_id f, ef_payroll_statement_id f, ef_role f, ef_amount f)"

definition crossing_facts :: "account_transaction \<Rightarrow> nat \<times> nat option \<times> string \<times> cents" where
  "crossing_facts t = (tx_id t, None, tx_role t, tx_amount t)"

definition flows_numbered :: "external_flow list \<Rightarrow> bool" where
  "flows_numbered flows \<longleftrightarrow> map ef_id flows = [1..<Suc (length flows)]"

lemma next_id_upt: "next_id [1..<Suc n] = Suc n"
proof -
  have "foldr max [1..<Suc n] m = max n m" for m
    by (induction n arbitrary: m) (auto simp: max_def)
  then show ?thesis by (simp add: next_id_def)
qed

lemma book_transaction_flows:
  assumes "flows_numbered (bk_flows st)"
  shows "flows_numbered (bk_flows (book_transaction m t st))
    \<and> map flow_facts (bk_flows (book_transaction m t st))
        = map flow_facts (bk_flows st) @ (if tx_role t \<in> set flow_roles then [crossing_facts t] else [])"
proof -
  have "next_id (map ef_id (bk_flows st)) = Suc (length (bk_flows st))"
    using assms next_id_upt by (simp only: flows_numbered_def)
  note fresh = this
  show ?thesis
  proof (cases "tx_role t \<in> set flow_roles")
    case True
    have "[1..<Suc (Suc n)] = [1..<Suc n] @ [Suc n]" for n by simp
    with True fresh assms show ?thesis
      by (simp add: book_transaction_def flows_numbered_def flow_facts_def crossing_facts_def del: upt_Suc)
  next
    case False
    then have "bk_flows (book_transaction m t st) = bk_flows st" by (simp add: book_transaction_def)
    with False assms show ?thesis by simp
  qed
qed

lemma book_account_flows:
  assumes "flows_numbered (bk_flows st)"
  shows "flows_numbered (bk_flows (fold (book_transaction m) txs st))
    \<and> map flow_facts (bk_flows (fold (book_transaction m) txs st))
        = map flow_facts (bk_flows st) @ map crossing_facts (filter (\<lambda>t. tx_role t \<in> set flow_roles) txs)"
  using assms
proof (induction txs arbitrary: st)
  case (Cons t txs)
  note step = book_transaction_flows [OF Cons.prems, of m t]
  from step Cons.IH [OF conjunct1 [OF step]] show ?case by (cases "tx_role t \<in> set flow_roles") simp_all
qed simp

text \<open>
  The external flows are the money that crosses the household's border: for each bank account in
  turn, one flow for every transaction with one of the six crossing roles, with its amount, in the
  order of the dates, numbered from one; transfers between own accounts make none.
\<close>

theorem bank_flows_exact:
  "let flows = bk_flows (reconcile_bank_accounts db matched \<lparr>bk_results = rs, bk_flows = []\<rparr>) in
   map (\<lambda>f. (ef_transaction_id f, ef_payroll_statement_id f, ef_role f, ef_amount f)) flows
     = concat (map (\<lambda>a. map (\<lambda>t. (tx_id t, None, tx_role t, tx_amount t))
           (filter (\<lambda>t. tx_role t \<in> {''external_inflow'', ''external_outflow'', ''interest'', ''fee'', ''adjustment'', ''payroll_deposit''})
             (account_activity (cd_transactions db) a)))
         (filter (is_bank_account (cd_institutions db)) (cd_accounts db)))
   \<and> map ef_id flows = [1..<Suc (length flows)]"
proof -
  have roles: "{''external_inflow'', ''external_outflow'', ''interest'', ''fee'', ''adjustment'', ''payroll_deposit''} = set flow_roles"
    unfolding flow_roles_def list.set ..
  have "flows_numbered (bk_flows (fold (reconcile_bank_account db matched) as st))
    \<and> map flow_facts (bk_flows (fold (reconcile_bank_account db matched) as st)) = map flow_facts (bk_flows st)
        @ concat (map (\<lambda>a. map crossing_facts (filter (\<lambda>t. tx_role t \<in> set flow_roles)
            (account_activity (cd_transactions db) a))) as)"
    if "flows_numbered (bk_flows st)" for as st
    using that
  proof (induction "as" arbitrary: st)
    case (Cons a as)
    have step: "flows_numbered (bk_flows (reconcile_bank_account db matched a st))
      \<and> map flow_facts (bk_flows (reconcile_bank_account db matched a st)) = map flow_facts (bk_flows st)
        @ map crossing_facts (filter (\<lambda>t. tx_role t \<in> set flow_roles) (account_activity (cd_transactions db) a))"
      unfolding reconcile_bank_account_def Let_def
      by (rule book_account_flows [where st = "st\<lparr>bk_results := rs\<rparr>" for rs, simplified]) (rule Cons.prems)
    from step Cons.IH [OF conjunct1 [OF step]] show ?case by simp
  qed simp
  from this [of "\<lparr>bk_results = rs, bk_flows = []\<rparr>"] show ?thesis
    unfolding roles by (simp add: reconcile_bank_accounts_def Let_def flows_numbered_def flow_facts_def [abs_def] crossing_facts_def [abs_def])
qed

end
