(* ===== verification/Balance_Facts.thy ===== *)
theory Balance_Facts
  imports Balances
begin

text \<open>
  What the reconstructed balance points say: the amount of every point is the balance at the start
  or the end of its day, the points of an account run from the first transaction to the anchor, and
  generating them again changes nothing. Also the observations entered by hand.
\<close>

section \<open>Month boundaries\<close>

text \<open>Closing a month and opening the next meet.\<close>

lemma filter_split_sum:
  fixes f :: "'a \<Rightarrow> int"
  assumes "\<And>t. t \<in> set xs \<Longrightarrow> P t \<longleftrightarrow> Q t \<or> R t" "\<And>t. t \<in> set xs \<Longrightarrow> \<not> (Q t \<and> R t)"
  shows "sum_list (map f (filter P xs)) = sum_list (map f (filter Q xs)) + sum_list (map f (filter R xs))"
  using assms by (induction xs) auto

lemma month_end_before_next: "valid_date m \<Longrightarrow> month_end m < next_month m"
  by (cases m) (auto simp: month_end_def next_month_def less_date_def less_eq_date_def valid_date_def)

lemma after_month_end:
  assumes "valid_date m" "valid_date d"
  shows "month_end m < d \<longleftrightarrow> next_month m \<le> d"
  using assms
  by (cases m; cases d) (auto simp: month_end_def next_month_def less_date_def less_eq_date_def valid_date_def)

lemma month_begins: "valid_date m \<Longrightarrow> d_day m = 1 \<Longrightarrow> m \<le> month_end m"
  by (cases m) (auto simp: month_end_def less_eq_date_def valid_date_def)

text \<open>
  What a point says, from the anchor alone: the balance when its day begins (an opening) or ends.
\<close>

definition opens_period :: "string \<Rightarrow> bool" where
  "opens_period kind \<longleftrightarrow> kind = ''month_open'' \<or> kind = ''coverage_open''"

definition balance_when ::
  "balance_snapshot \<Rightarrow> account_transaction list \<Rightarrow> bool \<Rightarrow> date \<Rightarrow> cents"
where
  "balance_when anchor txs before d =
     bs_amount anchor - sum_list (map tx_amount (filter (\<lambda>t. if before then d \<le> tx_posted_date t else d < tx_posted_date t) txs))"

definition covered_history :: "balance_snapshot \<Rightarrow> account_transaction list \<Rightarrow> bool" where
  "covered_history anchor txs \<longleftrightarrow>
     valid_date (bs_snapshot_date anchor) \<and> txs \<noteq> [] \<and> sorted (map tx_posted_date txs)
     \<and> (\<forall>t \<in> set txs. valid_date (tx_posted_date t) \<and> tx_posted_date t \<le> bs_snapshot_date anchor)"

lemma covered_historyD:
  assumes "covered_history anchor txs"
  shows anchor_valid: "valid_date (bs_snapshot_date anchor)" and covered: "txs \<noteq> []"
    and dates_sorted: "sorted (map tx_posted_date txs)"
    and dates_valid: "t \<in> set txs \<Longrightarrow> valid_date (tx_posted_date t)"
    and dates_upto: "t \<in> set txs \<Longrightarrow> tx_posted_date t \<le> bs_snapshot_date anchor"
  using assms by (auto simp: covered_history_def)

text \<open>The loop as it is called.\<close>

abbreviation covered_boundaries :: "balance_snapshot \<Rightarrow> account_transaction list \<Rightarrow> date \<Rightarrow> boundary list" where
  "covered_boundaries anchor txs \<equiv> boundaries_from anchor txs (coverage_start_of anchor txs)"

lemma start_least:
  assumes h: "covered_history anchor txs" and "t \<in> set txs"
  shows "coverage_start_of anchor txs \<le> tx_posted_date t"
  using assms dates_sorted [OF h] covered [OF h] by (cases txs) (auto simp: coverage_start_of_def)

lemma start_mem:
  assumes h: "covered_history anchor txs"
  shows "coverage_start_of anchor txs \<in> tx_posted_date ` set txs"
  using covered [OF h] by (cases txs) (auto simp: coverage_start_of_def)

lemma start_bounds:
  assumes h: "covered_history anchor txs"
  shows start_valid: "valid_date (coverage_start_of anchor txs)"
    and start_upto: "coverage_start_of anchor txs \<le> bs_snapshot_date anchor"
  using start_mem [OF h] dates_valid [OF h] dates_upto [OF h] by auto

lemma closing_amount:
  assumes h: "covered_history anchor txs"
  shows "bs_amount anchor - activity_after txs d (bs_snapshot_date anchor) = balance_when anchor txs False d"
  using dates_upto [OF h] unfolding activity_after_def balance_when_def
  by (simp cong: filter_cong)

lemma opening_amount:
  assumes h: "covered_history anchor txs"
    and "month \<le> close" "close \<le> bs_snapshot_date anchor"
  shows "balance_when anchor txs False close - month_activity txs month close = balance_when anchor txs True month"
proof -
  have "sum_list (map tx_amount (filter (\<lambda>t. month \<le> tx_posted_date t) txs))
      = sum_list (map tx_amount (filter (\<lambda>t. close < tx_posted_date t) txs))
        + sum_list (map tx_amount (filter (\<lambda>t. month \<le> tx_posted_date t \<and> tx_posted_date t \<le> close) txs))"
    by (rule filter_split_sum) (use assms in auto)
  then show ?thesis by (simp add: balance_when_def month_activity_def)
qed

lemma before_start:
  assumes h: "covered_history anchor txs"
  shows "balance_when anchor txs True (max month (coverage_start_of anchor txs)) = balance_when anchor txs True month"
proof -
  have "max month (coverage_start_of anchor txs) \<le> tx_posted_date t \<longleftrightarrow> month \<le> tx_posted_date t" if "t \<in> set txs" for t
    using start_least [OF h that] by simp
  then show ?thesis by (simp add: balance_when_def cong: filter_cong)
qed

lemma month_boundaries_eq:
  assumes h: "covered_history anchor txs"
    and "valid_date month" "d_day month = 1" "month \<le> bs_snapshot_date anchor"
  shows "month_boundaries anchor txs (coverage_start_of anchor txs) month =
    (let close = min (month_end month) (bs_snapshot_date anchor); d = max month (coverage_start_of anchor txs) in
     [(d, if d = month then ''month_open'' else ''coverage_open'', balance_when anchor txs True d),
      (close, if close = bs_snapshot_date anchor then ''observed'' else ''month_close'', balance_when anchor txs False close)])"
  using opening_amount [OF h, of month "min (month_end month) (bs_snapshot_date anchor)"] assms month_begins [OF assms(2,3)]
  by (simp add: month_boundaries_def Let_def closing_amount [OF h] before_start [OF h])

lemma observed_opens [simp]:
  "\<not> opens_period ''observed''" "\<not> opens_period ''month_close''" "opens_period ''month_open''" "opens_period ''coverage_open''"
  by (simp_all add: opens_period_def)

lemma month_kinds [simp]:
  "opens_period (if b then ''month_open'' else ''coverage_open'')"
  "\<not> opens_period (if b then ''observed'' else ''month_close'')"
  by (cases b; simp)+

lemma month_induct [consumes 1, case_names month]:
  assumes h: "covered_history anchor txs"
    and "\<And>m. (valid_date m \<Longrightarrow> m \<le> bs_snapshot_date anchor \<Longrightarrow> P (next_month m)) \<Longrightarrow> P m"
  shows "P month"
proof -
  have "a = anchor \<longrightarrow> P m" for a m
    by (induction a txs "coverage_start_of anchor txs" m rule: boundaries_from.induct) (use assms anchor_valid [OF h] in blast)
  then show ?thesis by blast
qed

lemma boundaries_from_next:
  assumes h: "covered_history anchor txs"
    and "valid_date m" "m \<le> bs_snapshot_date anchor"
  shows "covered_boundaries anchor txs m = month_boundaries anchor txs (coverage_start_of anchor txs) m @ covered_boundaries anchor txs (next_month m)"
  using assms anchor_valid [OF h] by (subst boundaries_from.simps) simp

lemma boundaries_from_end: "\<not> m \<le> bs_snapshot_date anchor \<Longrightarrow> covered_boundaries anchor txs m = []"
  by (subst boundaries_from.simps) simp

lemma boundaries_from_exact:
  assumes h: "covered_history anchor txs"
    and "valid_date month" "d_day month = 1" "coverage_start_of anchor txs \<le> month_end month"
    and "(d, kind, v) \<in> set (covered_boundaries anchor txs month)"
  shows "v = balance_when anchor txs (opens_period kind) d \<and> coverage_start_of anchor txs \<le> d \<and> month \<le> d \<and> d \<le> bs_snapshot_date anchor"
  using assms
proof (induction month rule: month_induct)
  case (month m)
  show ?case
  proof (cases "m \<le> bs_snapshot_date anchor")
    case True
    note next_m = month_end_before_next [OF month.prems(1)]
    have "m \<le> month_end m" using month.prems month_begins by simp
    from month.prems(4) consider "(d, kind, v) \<in> set (month_boundaries anchor txs (coverage_start_of anchor txs) m)"
      | "(d, kind, v) \<in> set (covered_boundaries anchor txs (next_month m))"
      by (auto simp: boundaries_from_next [OF h month.prems(1) True])
    then show ?thesis
    proof cases
      case 1
      with True month.prems(1-3) \<open>m \<le> month_end m\<close> start_upto [OF h] show ?thesis
        by (auto simp: month_boundaries_eq [OF h month.prems(1,2) True] Let_def max_def min_def)
    next
      case 2
      have "coverage_start_of anchor txs \<le> month_end (next_month m)"
        using next_m month.prems(1,3) month_begins [of "next_month m"] by simp
      with 2 month.IH [OF month.prems(1) True] month.prems(1) next_m \<open>m \<le> month_end m\<close> show ?thesis by auto
    qed
  next
    case False
    with month.prems(4) show ?thesis by (simp add: boundaries_from_end)
  qed
qed

lemma pair_sorted:
  fixes bs :: "boundary list"
  assumes "d1 \<le> d2" "k1 \<noteq> k2" and later: "\<And>d k v. (d, k, v) \<in> set bs \<Longrightarrow> d2 < d"
    and "sorted (map fst bs) \<and> distinct (map (\<lambda>(d, k, v). (d, k)) bs)"
  shows "sorted (map fst ((d1, k1, v1) # (d2, k2, v2) # bs))
    \<and> distinct (map (\<lambda>(d, k, v). (d, k)) ((d1, k1, v1) # (d2, k2, v2) # bs))"
proof -
  have "(d, k) \<notin> (\<lambda>(d, k, v). (d, k)) ` set bs" if "d \<le> d2" for d k
    using that later by (auto dest: leD)
  moreover have "d2 \<le> fst b" if "b \<in> set bs" for b
    using that later [of "fst b" "fst (snd b)" "snd (snd b)"] by simp
  ultimately show ?thesis using assms(1,2,4) by (auto intro: order_trans)
qed

lemma kinds_differ: "(if b then ''month_open'' else ''coverage_open'') \<noteq> (if c then ''observed'' else ''month_close'')"
  by (cases b; cases c; simp)

lemma boundaries_from_sorted:
  assumes h: "covered_history anchor txs"
    and "valid_date month" "d_day month = 1" "coverage_start_of anchor txs \<le> month_end month"
  shows "sorted (map fst (covered_boundaries anchor txs month))
    \<and> distinct (map (\<lambda>(d, k, v). (d, k)) (covered_boundaries anchor txs month))"
  using assms
proof (induction month rule: month_induct)
  case (month m)
  show ?case
  proof (cases "m \<le> bs_snapshot_date anchor")
    case True
    let ?rest = "covered_boundaries anchor txs (next_month m)"
    let ?close = "min (month_end m) (bs_snapshot_date anchor)"
    have next_m: "month_end m < next_month m" and begins: "m \<le> month_end m"
      using month.prems month_end_before_next month_begins by simp_all
    have later: "coverage_start_of anchor txs \<le> month_end (next_month m)"
      using next_m month.prems(1,3) month_begins [of "next_month m"] by simp
    have rest: "?close < d" if "(d, k, v) \<in> set ?rest" for d k v
      using boundaries_from_exact [OF h _ _ later that] month.prems(1) next_m
      by (simp add: min_less_iff_disj less_le_trans [of "month_end m"])
    have close: "max m (coverage_start_of anchor txs) \<le> ?close" using begins True month.prems(3) start_upto [OF h] by simp
    have tail: "sorted (map fst ?rest) \<and> distinct (map (\<lambda>(d, k, v). (d, k)) ?rest)"
      by (rule month.IH [OF month.prems(1) True]) (use month.prems(1) later in simp_all)
    show ?thesis
      unfolding boundaries_from_next [OF h month.prems(1) True] month_boundaries_eq [OF h month.prems(1,2) True] Let_def append.simps
      by (rule pair_sorted [OF close kinds_differ rest tail])
  next
    case False
    then show ?thesis by (simp add: boundaries_from_end)
  qed
qed

lemma boundaries_from_anchor:
  assumes h: "covered_history anchor txs"
    and "valid_date month" "d_day month = 1" "month \<le> bs_snapshot_date anchor"
  shows "(bs_snapshot_date anchor, ''observed'', bs_amount anchor) \<in> set (covered_boundaries anchor txs month)"
  using assms
proof (induction month rule: month_induct)
  case (month m)
  show ?case
  proof (cases "bs_snapshot_date anchor \<le> month_end m")
    case True
    have "balance_when anchor txs False (bs_snapshot_date anchor) = bs_amount anchor"
      using dates_upto [OF h] by (auto simp: balance_when_def filter_empty_conv not_less)
    with True show ?thesis
      by (simp add: boundaries_from_next [OF h month.prems(1,3)] month_boundaries_eq [OF h month.prems] Let_def min_absorb2)
  next
    case False
    then have "next_month m \<le> bs_snapshot_date anchor"
      using after_month_end [OF month.prems(1) anchor_valid [OF h]] by (simp only: not_le)
    with month show ?thesis by (simp add: boundaries_from_next [OF h month.prems(1,3)])
  qed
qed

lemma boundaries_first:
  assumes h: "covered_history anchor txs"
  shows "\<exists>kind rest. covered_boundaries anchor txs (month_start (coverage_start_of anchor txs))
    = (coverage_start_of anchor txs, kind, bs_amount anchor - sum_list (map tx_amount txs)) # rest \<and> opens_period kind"
proof -
  have le: "month_start (coverage_start_of anchor txs) \<le> coverage_start_of anchor txs" using start_valid [OF h]
    by (cases "coverage_start_of anchor txs") (auto simp: month_start_def less_eq_date_def valid_date_def)
  have valid: "valid_date (month_start (coverage_start_of anchor txs))" using start_valid [OF h] by simp
  have "balance_when anchor txs True (coverage_start_of anchor txs) = bs_amount anchor - sum_list (map tx_amount txs)"
    using start_least [OF h] by (simp add: balance_when_def cong: filter_cong)
  then show ?thesis
    using le start_upto [OF h]
    by (simp add: boundaries_from_next [OF h valid] month_boundaries_eq [OF h valid] Let_def max_absorb2)
qed

lemma start_month:
  assumes h: "covered_history anchor txs"
  shows "valid_date (month_start (coverage_start_of anchor txs))"
    and "month_start (coverage_start_of anchor txs) \<le> bs_snapshot_date anchor"
    and "coverage_start_of anchor txs \<le> month_end (month_start (coverage_start_of anchor txs))"
    and "account_boundaries anchor txs = covered_boundaries anchor txs (month_start (coverage_start_of anchor txs))"
proof -
  have "month_start d \<le> d \<and> d \<le> month_end (month_start d)" if "valid_date d" for d
    using that by (cases d) (auto simp: month_start_def month_end_def less_eq_date_def valid_date_def)
  from this [OF start_valid [OF h]] start_upto [OF h]
  show "month_start (coverage_start_of anchor txs) \<le> bs_snapshot_date anchor"
    and "coverage_start_of anchor txs \<le> month_end (month_start (coverage_start_of anchor txs))" by auto
  show "valid_date (month_start (coverage_start_of anchor txs))" using start_valid [OF h] by simp
  show "account_boundaries anchor txs = covered_boundaries anchor txs (month_start (coverage_start_of anchor txs))"
    using covered [OF h] by (simp add: account_boundaries_def)
qed

lemma boundary_amount:
  assumes h: "covered_history anchor txs" and "(d, kind, v) \<in> set (account_boundaries anchor txs)"
  shows "v = balance_when anchor txs (opens_period kind) d \<and> coverage_start_of anchor txs \<le> d \<and> d \<le> bs_snapshot_date anchor"
  using boundaries_from_exact [OF h start_month(1) [OF h] month_start_day(1) start_month(3) [OF h]] assms(2)
  by (simp add: start_month(4) [OF h])

text \<open>
  C7: The points of an account with transactions tell its history: they begin at the first
  transaction with the anchor's amount less all activity, end at the anchor with the observed
  amount, come in the order of their dates with no date and kind twice, and the amount of each is
  the anchor's amount less the activity from its date on (after its date, for a closing point).
\<close>

theorem account_boundaries_exact:
  assumes "covered_history anchor txs"
  shows "(\<exists>kind rest. account_boundaries anchor txs
      = (coverage_start_of anchor txs, kind, bs_amount anchor - sum_list (map tx_amount txs)) # rest \<and> opens_period kind)
    \<and> (bs_snapshot_date anchor, ''observed'', bs_amount anchor) \<in> set (account_boundaries anchor txs)
    \<and> sorted (map fst (account_boundaries anchor txs))
    \<and> distinct (map (\<lambda>(d, k, v). (d, k)) (account_boundaries anchor txs))
    \<and> (\<forall>(d, kind, v) \<in> set (account_boundaries anchor txs). v = balance_when anchor txs (opens_period kind) d
        \<and> coverage_start_of anchor txs \<le> d \<and> d \<le> bs_snapshot_date anchor)"
proof (intro conjI)
  note m = start_month [OF assms]
  show "\<exists>kind rest. account_boundaries anchor txs
      = (coverage_start_of anchor txs, kind, bs_amount anchor - sum_list (map tx_amount txs)) # rest \<and> opens_period kind"
    unfolding m(4) by (rule boundaries_first [OF assms])
  show "(bs_snapshot_date anchor, ''observed'', bs_amount anchor) \<in> set (account_boundaries anchor txs)"
    unfolding m(4) by (rule boundaries_from_anchor [OF assms m(1) month_start_day(1) m(2)])
  show "sorted (map fst (account_boundaries anchor txs))"
    and "distinct (map (\<lambda>(d, k, v). (d, k)) (account_boundaries anchor txs))"
    using boundaries_from_sorted [OF assms m(1) month_start_day(1) m(3)] by (simp_all only: m(4))
  show "\<forall>(d, kind, v) \<in> set (account_boundaries anchor txs). v = balance_when anchor txs (opens_period kind) d
        \<and> coverage_start_of anchor txs \<le> d \<and> d \<le> bs_snapshot_date anchor"
    using boundary_amount [OF assms] by blast
qed

definition example_anchor :: balance_snapshot where
  "example_anchor = \<lparr>bs_id = 4, bs_account_id = 1, bs_artifact_id = 1, bs_snapshot_date = Date 2026 3 10,
     bs_kind = ''current'', bs_amount = 120000\<rparr>"

definition example_activity :: "account_transaction list" where
  "example_activity =
     [\<lparr>tx_id = 1, tx_account_id = 1, tx_posted_date = Date 2026 1 20, tx_original_description = ''PAYROLL'',
       tx_role = ''payroll_deposit'', tx_amount = 50000\<rparr>,
      \<lparr>tx_id = 2, tx_account_id = 1, tx_posted_date = Date 2026 2 28, tx_original_description = ''RENT'',
       tx_role = ''external_outflow'', tx_amount = - 30000\<rparr>,
      \<lparr>tx_id = 3, tx_account_id = 1, tx_posted_date = Date 2026 3 1, tx_original_description = ''GIFT'',
       tx_role = ''external_inflow'', tx_amount = 10000\<rparr>]"

lemma example_history: "covered_history example_anchor example_activity"
  by code_simp

theorem account_boundaries_exact_witness:
  "distinct (map (\<lambda>(d, k, v). (d, k)) (account_boundaries example_anchor example_activity))
   \<and> account_boundaries example_anchor example_activity =
      [(Date 2026 1 20, ''coverage_open'', 90000), (Date 2026 1 31, ''month_close'', 140000),
       (Date 2026 2 1, ''month_open'', 140000), (Date 2026 2 28, ''month_close'', 110000),
       (Date 2026 3 1, ''month_open'', 110000), (Date 2026 3 10, ''observed'', 120000)]"
proof
  show "distinct (map (\<lambda>(d, k, v). (d, k)) (account_boundaries example_anchor example_activity))"
    using account_boundaries_exact [OF example_history] by (rule conjunct1 [OF conjunct2 [OF conjunct2 [OF conjunct2]]])
  show "account_boundaries example_anchor example_activity =
      [(Date 2026 1 20, ''coverage_open'', 90000), (Date 2026 1 31, ''month_close'', 140000),
       (Date 2026 2 1, ''month_open'', 140000), (Date 2026 2 28, ''month_close'', 110000),
       (Date 2026 3 1, ''month_open'', 110000), (Date 2026 3 10, ''observed'', 120000)]"
    by code_simp
qed

section \<open>The stored points\<close>

lemma desired_points_keys:
  "distinct (map values_key (map snd (desired_points digest db)))"
proof -
  have "map values_key (map snd (desired_points digest db)) = map fst (desired_points digest db)"
    using index_dict [of values_key] unfolding desired_points_def by fastforce
  moreover have "dict_wf (desired_points digest db)"
    using index_dict [of values_key] unfolding desired_points_def by blast
  ultimately show ?thesis by (simp only: dict_wf_def)
qed

lemma desired_pointsD:
  assumes "v \<in> set (map snd (desired_points digest db))"
  obtains a where "a \<in> set (cd_accounts db)" "is_bank_account (cd_institutions db) a" "v \<in> set (account_values digest db a)"
proof -
  from assms have "v \<in> set (concat (map (account_values digest db) (filter (is_bank_account (cd_institutions db)) (cd_accounts db))))"
    using index_dict [of values_key] unfolding desired_points_def by fastforce
  then show thesis using that by auto
qed

lemma desired_points_frame [simp]:
  "desired_points digest (db\<lparr>cd_points := ps\<rparr>) = desired_points digest db"
proof -
  have "anchor_of (db\<lparr>cd_points := ps\<rparr>) a = anchor_of db a"
    "transactions_to (db\<lparr>cd_points := ps\<rparr>) a d = transactions_to db a d" for a d
    by (simp_all add: anchor_of_def transactions_to_def)
  then have "account_values digest (db\<lparr>cd_points := ps\<rparr>) = account_values digest db"
    by (intro ext) (simp only: account_values_def)
  then show ?thesis by (simp add: desired_points_def)
qed

text \<open>The anchor belongs to the account and is its latest snapshot.\<close>

lemma keep_later_fold:
  "\<exists>s. fold keep_later rs (Some b) = Some s \<and> s \<in> insert b (set rs) \<and> (\<forall>r \<in> insert b (set rs). \<not> later_snapshot r s)"
proof (induction rs arbitrary: b)
  case Nil
  then show ?case by (auto simp: later_snapshot_def)
next
  case (Cons r rs)
  let ?c = "if later_snapshot r b then r else b"
  have step: "fold keep_later (r # rs) (Some b) = fold keep_later rs (Some ?c)"
    by (simp add: keep_later_def)
  from Cons.IH [of ?c] obtain s where s: "fold keep_later rs (Some ?c) = Some s" "s \<in> insert ?c (set rs)"
    "\<forall>q \<in> insert ?c (set rs). \<not> later_snapshot q s" by blast
  have "\<not> later_snapshot r s \<and> \<not> later_snapshot b s"
    using s(3) by (auto simp: later_snapshot_def split: if_splits)
  then show ?case
    unfolding step using s by (intro exI [of _ s]) (auto split: if_splits)
qed

lemma anchor_of_Some:
  assumes "anchor_of db a = Some s"
  shows "s \<in> set (cd_snapshots db)" "bs_account_id s = ac_id a"
    and "r \<in> set (cd_snapshots db) \<Longrightarrow> bs_account_id r = ac_id a \<Longrightarrow> \<not> later_snapshot r s"
proof -
  let ?rs = "filter (\<lambda>r. bs_account_id r = ac_id a) (cd_snapshots db)"
  obtain b rs where rs: "?rs = b # rs"
    using assms by (cases ?rs) (auto simp: anchor_of_def)
  have "s \<in> set ?rs \<and> (\<forall>r \<in> set ?rs. \<not> later_snapshot r s)"
    using keep_later_fold [of rs b] assms unfolding anchor_of_def rs by (auto simp: keep_later_def)
  then show "s \<in> set (cd_snapshots db)" "bs_account_id s = ac_id a"
    and "r \<in> set (cd_snapshots db) \<Longrightarrow> bs_account_id r = ac_id a \<Longrightarrow> \<not> later_snapshot r s" by auto
qed

text \<open>The stored dates are dates.\<close>

definition cash_dates_valid :: "cash_db \<Rightarrow> bool" where
  "cash_dates_valid db \<longleftrightarrow> (\<forall>r \<in> set (cd_snapshots db). valid_date (bs_snapshot_date r))
     \<and> (\<forall>t \<in> set (cd_transactions db). valid_date (tx_posted_date t))"

lemma transactions_to_history:
  assumes "cash_dates_valid db" "anchor_of db a = Some s" "transactions_to db a (bs_snapshot_date s) \<noteq> []"
  shows "covered_history s (transactions_to db a (bs_snapshot_date s))"
  using assms anchor_of_Some(1) [OF assms(2)]
  by (auto simp: covered_history_def cash_dates_valid_def transactions_to_def)

lemma account_value_balance:
  assumes "cash_dates_valid db" "anchor_of db a = Some s" "v \<in> set (account_values digest db a)"
  shows "pv_account_id v = ac_id a
    \<and> pv_amount v = balance_when s (transactions_to db a (bs_snapshot_date s)) (opens_period (pv_kind v)) (pv_balance_date v)
    \<and> pv_balance_date v \<le> bs_snapshot_date s"
proof (cases "transactions_to db a (bs_snapshot_date s) = []")
  case True
  with assms show ?thesis
    by (auto simp: account_values_def account_boundaries_def point_values_def balance_when_def)
next
  case False
  note h = transactions_to_history [OF assms(1,2) False]
  from assms(2,3) obtain d k x where "(d, k, x) \<in> set (account_boundaries s (transactions_to db a (bs_snapshot_date s)))"
    "v = point_values digest (ac_id a) s (coverage_start_of s (transactions_to db a (bs_snapshot_date s))) (d, k, x)"
    by (auto simp: account_values_def Let_def)
  with boundary_amount [OF h] show ?thesis by (simp add: point_values_def)
qed

lemma balance_when_sort: "balance_when s (sort_key f txs) b d = balance_when s txs b d"
proof -
  have "sum_list (map tx_amount (filter P (sort_key f txs))) = sum_list (map tx_amount (filter P txs))" for P
    by (metis mset_filter mset_map mset_sort sum_mset_sum_list)
  then show ?thesis by (simp add: balance_when_def)
qed

lemma generated_points:
  "cd_points (fst (generate_account_balance_points digest db)) =
     sync_rows point_key_of bp_id values_key write_point new_point (map snd (desired_points digest db)) (cd_points db)"
  by (simp add: generate_account_balance_points_def Let_def)

lemma generated_row:
  assumes "p \<in> set (cd_points (fst (generate_account_balance_points digest db)))"
  obtains a v p0 where "a \<in> set (cd_accounts db)" "is_bank_account (cd_institutions db) a"
    "v \<in> set (account_values digest db a)" "p = write_point v p0"
  using balance_points.sync_row_written [OF assms [unfolded generated_points] desired_points_keys] desired_pointsD
  by metis

text \<open>
  C37: Every stored point is a balance: after generation each row belongs to a bank account with an
  observed balance, and its amount is that account's latest observation less what was posted from
  the row's date on (for an opening) or after it (for a closing or observed point).
\<close>

theorem stored_points_are_balances:
  assumes "cash_dates_valid db" "p \<in> set (cd_points (fst (generate_account_balance_points digest db)))"
  shows "\<exists>a \<in> set (cd_accounts db). \<exists>s \<in> set (cd_snapshots db).
    is_bank_account (cd_institutions db) a \<and> bp_account_id p = ac_id a \<and> bs_account_id s = ac_id a
    \<and> (\<forall>r \<in> set (cd_snapshots db). bs_account_id r = ac_id a \<longrightarrow> bs_snapshot_date r \<le> bs_snapshot_date s)
    \<and> bp_balance_date p \<le> bs_snapshot_date s
    \<and> bp_amount p = balance_when s
        (filter (\<lambda>t. tx_account_id t = ac_id a \<and> tx_posted_date t \<le> bs_snapshot_date s) (cd_transactions db))
        (opens_period (bp_kind p)) (bp_balance_date p)"
proof -
  obtain a v p0 where a: "a \<in> set (cd_accounts db)" "is_bank_account (cd_institutions db) a"
      "v \<in> set (account_values digest db a)" "p = write_point v p0"
    using generated_row [OF assms(2)] .
  from a(3) obtain s where s: "anchor_of db a = Some s"
    by (cases "anchor_of db a") (simp_all add: account_values_def)
  have "bp_account_id p = pv_account_id v" "bp_kind p = pv_kind v" "bp_balance_date p = pv_balance_date v"
    "bp_amount p = pv_amount v" by (simp_all add: a(4) write_point_def)
  moreover note account_value_balance [OF assms(1) s a(3)]
  moreover have "balance_when s (transactions_to db a (bs_snapshot_date s)) b d
      = balance_when s (filter (\<lambda>t. tx_account_id t = ac_id a \<and> tx_posted_date t \<le> bs_snapshot_date s) (cd_transactions db)) b d" for b d
    by (simp add: transactions_to_def balance_when_sort)
  moreover have "\<forall>r \<in> set (cd_snapshots db). bs_account_id r = ac_id a \<longrightarrow> bs_snapshot_date r \<le> bs_snapshot_date s"
    using anchor_of_Some(3) [OF s] by (auto simp: later_snapshot_def not_less)
  ultimately show ?thesis
    using a(1,2) anchor_of_Some(1,2) [OF s] by (intro bexI [of _ a] bexI [of _ s] conjI) simp_all
qed

text \<open>
  Generation is idempotent and keeps the table keyed: running it again changes no row and
  reports the same counts, and it never leaves two rows for one account, date and kind.
\<close>

lemma generate_points_again:
  assumes "distinct (map point_key_of (cd_points db))"
  shows "generate_account_balance_points digest (fst (generate_account_balance_points digest db))
      = generate_account_balance_points digest db
    \<and> distinct (map point_key_of (cd_points (fst (generate_account_balance_points digest db))))"
proof
  show "generate_account_balance_points digest (fst (generate_account_balance_points digest db))
      = generate_account_balance_points digest db"
    using balance_points.sync_again [OF desired_points_keys]
    by (simp add: generate_account_balance_points_def Let_def)
  show "distinct (map point_key_of (cd_points (fst (generate_account_balance_points digest db))))"
    unfolding generated_points by (rule balance_points.distinct_keys_sync [OF assms])
qed

definition example_cash_db :: cash_db where
  "example_cash_db =
     \<lparr>cd_institutions = [\<lparr>in_id = 1, in_canonical_name = ''SoFi'', in_kind = ''bank''\<rparr>],
      cd_accounts = [\<lparr>ac_id = 1, ac_institution_id = 1, ac_display_name = ''Checking'', ac_account_type = ''checking''\<rparr>],
      cd_snapshots = [example_anchor], cd_points = [], cd_transactions = example_activity\<rparr>"

theorem stored_points_are_balances_witness:
  "\<exists>p \<in> set (cd_points (fst (generate_account_balance_points (\<lambda>_. ''d'') example_cash_db))).
     \<exists>a \<in> set (cd_accounts example_cash_db). bp_account_id p = ac_id a"
proof -
  let ?p = "hd (cd_points (fst (generate_account_balance_points (\<lambda>_. ''d'') example_cash_db)))"
  have "cd_points (fst (generate_account_balance_points (\<lambda>_. ''d'') example_cash_db)) \<noteq> []" by code_simp
  then have mem: "?p \<in> set (cd_points (fst (generate_account_balance_points (\<lambda>_. ''d'') example_cash_db)))" by simp
  have "cash_dates_valid example_cash_db" by code_simp
  from stored_points_are_balances [OF this mem] mem show ?thesis by blast
qed

lemma generate_points_again_witness:
  "length (cd_points (fst (generate_account_balance_points (\<lambda>_. ''d'') example_cash_db))) = 6
   \<and> distinct (map point_key_of (cd_points (fst (generate_account_balance_points (\<lambda>_. ''d'') example_cash_db))))"
proof
  show "length (cd_points (fst (generate_account_balance_points (\<lambda>_. ''d'') example_cash_db))) = 6" by code_simp
  have "distinct (map point_key_of (cd_points example_cash_db))" by (simp add: example_cash_db_def)
  from generate_points_again [OF this]
  show "distinct (map point_key_of (cd_points (fst (generate_account_balance_points (\<lambda>_. ''d'') example_cash_db))))"
    by (rule conjunct2)
qed

section \<open>Observations entered by hand\<close>

lemma find_append_new: "find P xs = None \<Longrightarrow> P x \<Longrightarrow> find P (xs @ [x]) = Some x"
  by (induction xs) (auto split: if_splits)

text \<open>The artifact found or made for a digest is found again under the same digest.\<close>

lemma manual_artifact_found:
  assumes "manual_artifact sha d db = (db', i)"
  shows "im_cash db' = im_cash db"
    and "\<exists>a \<in> set (im_artifacts db'). ia_sha256 a = sha \<and> ia_id a = i"
    and "manual_artifact sha d' (im_cash_update f db') = (im_cash_update f db', i)"
proof (atomize (full), cases "find (\<lambda>a. ia_sha256 a = sha) (im_artifacts db)")
  case (Some a)
  then have a: "a \<in> set (im_artifacts db)" "ia_sha256 a = sha" by (auto simp: find_Some_iff)
  have "db' = db \<and> i = ia_id a" using assms Some by (simp add: manual_artifact_def)
  with Some a show "im_cash db' = im_cash db \<and> (\<exists>a \<in> set (im_artifacts db'). ia_sha256 a = sha \<and> ia_id a = i)
    \<and> manual_artifact sha d' (im_cash_update f db') = (im_cash_update f db', i)"
    by (auto simp: manual_artifact_def)
next
  case None
  then show "im_cash db' = im_cash db \<and> (\<exists>a \<in> set (im_artifacts db'). ia_sha256 a = sha \<and> ia_id a = i)
    \<and> manual_artifact sha d' (im_cash_update f db') = (im_cash_update f db', i)"
    using assms by (auto simp: manual_artifact_def Let_def find_append_new)
qed

lemma put_manual_once:
  assumes "length (filter (is_manual acct d) rows) \<le> 1"
  shows "\<exists>r. filter (is_manual acct d) (put_manual acct d i v rows) = [r] \<and> bs_amount r = v \<and> bs_artifact_id r = i"
proof (cases "list_ex (is_manual acct d) rows")
  case True
  let ?put = "\<lambda>r. if is_manual acct d r then r\<lparr>bs_artifact_id := i, bs_amount := v\<rparr> else r"
  have keep: "is_manual acct d (?put r) = is_manual acct d r" for r by (simp add: is_manual_def)
  have "filter (is_manual acct d) rows \<noteq> []" using True by (auto simp: list_ex_iff filter_empty_conv)
  then obtain r where r: "filter (is_manual acct d) rows = [r]"
    using assms by (cases "filter (is_manual acct d) rows") auto
  then have "is_manual acct d r" by (auto dest: filter_eq_ConsD)
  moreover have "filter (is_manual acct d) (map ?put rows) = map ?put (filter (is_manual acct d) rows)"
    by (simp add: filter_map comp_def keep)
  ultimately show ?thesis using True by (simp add: put_manual_def r)
next
  case False
  then have "filter (is_manual acct d) rows = []" by (auto simp: list_ex_iff filter_empty_conv)
  with False show ?thesis by (simp add: put_manual_def is_manual_def)
qed

lemma put_manual_others: "filter (Not \<circ> is_manual acct d) (put_manual acct d i v rows) = filter (Not \<circ> is_manual acct d) rows"
proof -
  have "filter (Not \<circ> is_manual acct d)
      (map (\<lambda>r. if is_manual acct d r then r\<lparr>bs_artifact_id := i, bs_amount := v\<rparr> else r) rows)
    = filter (Not \<circ> is_manual acct d) rows"
    by (induction rows) (auto simp: is_manual_def)
  then show ?thesis by (simp add: put_manual_def is_manual_def)
qed

lemma put_manual_again: "put_manual acct d i v (put_manual acct d i v rows) = put_manual acct d i v rows"
proof -
  let ?put = "\<lambda>r. if is_manual acct d r then r\<lparr>bs_artifact_id := i, bs_amount := v\<rparr> else r"
  have put: "is_manual acct d (?put r) = is_manual acct d r" "?put (?put r) = ?put r" for r
    by (simp_all add: is_manual_def)
  show ?thesis
  proof (cases "list_ex (is_manual acct d) rows")
    case True
    have "list_ex (is_manual acct d) (map ?put rows) = list_ex (is_manual acct d) rows"
      by (induction rows) (simp_all add: put(1) del: if_split)
    moreover have "map ?put (map ?put rows) = map ?put rows"
      by (simp only: map_map comp_def put(2))
    ultimately show ?thesis using True unfolding put_manual_def by (simp only: if_True)
  next
    case False
    let ?new = "\<lparr>bs_id = next_id (map bs_id rows), bs_account_id = acct, bs_artifact_id = i,
      bs_snapshot_date = d, bs_kind = ''manual'', bs_amount = v\<rparr>"
    have new: "is_manual acct d ?new" "?put ?new = ?new" by (simp_all add: is_manual_def)
    have "map ?put rows = rows" using False by (intro map_idI) (auto simp: list_ex_iff)
    moreover have "list_ex (is_manual acct d) (rows @ [?new])" using new(1) by (simp add: list_ex_iff)
    ultimately show ?thesis
      using False new(2) unfolding put_manual_def by (simp only: if_True if_False map_append list.map)
  qed
qed

text \<open>
  C38: Entering a value for an account and date leaves exactly one manual row for them, holding the
  value rounded to cents and pointing to an artifact with the entry's digest; the other balance rows
  keep their contents, and entering the same value with the same note again changes nothing. An
  unknown account is refused.
\<close>

theorem manual_observation_once:
  assumes "length (filter (is_manual acct d) (cd_snapshots (im_cash db))) \<le> 1"
  shows "case add_manual_value_observation sha acct d v why db of
      Inl e \<Rightarrow> e = Account_not_found \<and> acct \<notin> ac_id ` set (cd_accounts (im_cash db))
    | Inr db' \<Rightarrow> acct \<in> ac_id ` set (cd_accounts (im_cash db))
        \<and> (\<exists>r. filter (is_manual acct d) (cd_snapshots (im_cash db')) = [r] \<and> bs_amount r = money v
            \<and> (\<exists>a \<in> set (im_artifacts db'). ia_id a = bs_artifact_id r \<and> ia_sha256 a = sha (manual_text acct d (money v) why)))
        \<and> filter (Not \<circ> is_manual acct d) (cd_snapshots (im_cash db')) = filter (Not \<circ> is_manual acct d) (cd_snapshots (im_cash db))
        \<and> add_manual_value_observation sha acct d v why db' = Inr db'"
proof (cases "list_ex (\<lambda>a. ac_id a = acct) (cd_accounts (im_cash db))")
  case False
  then show ?thesis by (auto simp: add_manual_value_observation_def list_ex_iff)
next
  case True
  obtain db1 i where m: "manual_artifact (sha (manual_text acct d (money v) why)) d db = (db1, i)" by fastforce
  let ?put = "cd_snapshots_update (\<lambda>_. put_manual acct d i (money v) (cd_snapshots (im_cash db)))"
  note found = manual_artifact_found [OF m]
  have run: "add_manual_value_observation sha acct d v why db = Inr (db1\<lparr>im_cash := ?put (im_cash db)\<rparr>)"
    using True m found(1) by (simp add: add_manual_value_observation_def)
  have again: "add_manual_value_observation sha acct d v why (db1\<lparr>im_cash := ?put (im_cash db)\<rparr>)
      = Inr (db1\<lparr>im_cash := ?put (im_cash db)\<rparr>)"
    using True found(3) [of d "\<lambda>_. ?put (im_cash db)"]
    by (simp add: add_manual_value_observation_def put_manual_again)
  obtain r where "filter (is_manual acct d) (put_manual acct d i (money v) (cd_snapshots (im_cash db))) = [r]"
    "bs_amount r = money v" "bs_artifact_id r = i" using put_manual_once [OF assms] by blast
  with found(2) True again show ?thesis
    unfolding run sum.case by (auto simp: list_ex_iff put_manual_others)
qed

theorem manual_observation_once_witness:
  "\<exists>db' r. add_manual_value_observation (\<lambda>s. s) 1 (Date 2026 3 12) 1250 ''statement''
       \<lparr>im_cash = example_cash_db, im_batches = [], im_artifacts = []\<rparr> = Inr db'
     \<and> filter (is_manual 1 (Date 2026 3 12)) (cd_snapshots (im_cash db')) = [r] \<and> bs_amount r = money 1250"
proof -
  let ?run = "add_manual_value_observation (\<lambda>s. s) 1 (Date 2026 3 12) 1250 ''statement''
       \<lparr>im_cash = example_cash_db, im_batches = [], im_artifacts = []\<rparr>"
  have "length (filter (is_manual 1 (Date 2026 3 12))
      (cd_snapshots (im_cash \<lparr>im_cash = example_cash_db, im_batches = [], im_artifacts = []\<rparr>))) \<le> 1"
    by (simp add: example_cash_db_def)
  note holds = manual_observation_once [OF this, where sha = "\<lambda>s. s" and v = 1250 and why = "''statement''"]
  show ?thesis
  proof (cases ?run)
    case (Inl e)
    with holds show ?thesis by (simp add: example_cash_db_def)
  next
    case (Inr db')
    with holds show ?thesis by auto
  qed
qed

end
