(* ===== verification/Reconcile_All_Facts.thy ===== *)
theory Reconcile_All_Facts
  imports Reconciliation_Facts Balance_Facts
begin

text \<open>
  What \<open>reconcile_all\<close> promises: the bridges of an investment account close and join, reconciling
  again derives the same rows, and the one way the uniqueness of the results can fail.
\<close>

section \<open>Investment bridges\<close>

definition bridge_closes :: "investment_value_bridge \<Rightarrow> bool" where
  "bridge_closes b \<longleftrightarrow>
     iv_opening_value b + iv_employee_contributions b + iv_employer_contributions b + iv_stock_plan_contributions b
       + iv_other_deposits b - iv_withdrawals b + iv_investment_result b = iv_closing_value b"

lemma bridge_of_closes: "bridge_closes (bridge_of pdb txs a p q)"
  by (simp add: bridge_closes_def bridge_of_def Let_def interval_result_def fidelity_investment_result_def)

lemma bridge_of_bounds:
  "let b = bridge_of pdb txs a p q in
     0 \<le> iv_stock_plan_contributions b \<and> 0 \<le> iv_other_deposits b \<and> 0 \<le> iv_withdrawals b"
proof -
  have "0 \<le> positive_total ts role" for ts role
    by (auto simp: positive_total_def intro!: sum_list_nonneg)
  then show ?thesis
    by (auto simp: bridge_of_def Let_def interval_contributions_def transaction_contributions_def intro!: sum_list_nonneg)
qed

lemma tracking_reason_names:
  "tracking_reason p q ts \<noteq> Some ''modified_dietz''"
  "tracking_reason p q ts \<noteq> Some ''dollar_residual''"
  by (simp_all add: tracking_reason_def)

lemma bridge_of_return:
  "iv_calculated_return_pct (bridge_of pdb txs a p q) \<noteq> None
     \<longleftrightarrow> iv_return_method (bridge_of pdb txs a p q) = ''modified_dietz''"
  "investment_performance_available (bridge_of pdb txs a p q) \<Longrightarrow>
     min_performance_days \<le> days_between (bs_snapshot_date q) (bs_snapshot_date p)"
proof -
  let ?reason = "tracking_reason p q (activity_within txs a (bs_snapshot_date p) (bs_snapshot_date q))"
  note names = tracking_reason_names [of p q]
  show "iv_calculated_return_pct (bridge_of pdb txs a p q) \<noteq> None
     \<longleftrightarrow> iv_return_method (bridge_of pdb txs a p q) = ''modified_dietz''"
  proof (cases ?reason)
    case None
    then show ?thesis by (simp add: bridge_of_def Let_def)
  next
    case (Some r)
    with names have "r \<noteq> ''modified_dietz''" by blast
    with Some show ?thesis by (simp add: bridge_of_def Let_def)
  qed
  show "min_performance_days \<le> days_between (bs_snapshot_date q) (bs_snapshot_date p)"
    if available: "investment_performance_available (bridge_of pdb txs a p q)"
  proof (cases ?reason)
    case None
    then show ?thesis by (simp add: tracking_reason_def split: if_splits)
  next
    case (Some r)
    then have "iv_return_method (bridge_of pdb txs a p q) = r" by (simp add: bridge_of_def Let_def)
    with available names Some show ?thesis by (auto simp: investment_performance_available_def)
  qed
qed

lemma fold_intervals:
  "is_bridges (fold (reconcile_interval pdb txs a) is st)
     = is_bridges st @ map (\<lambda>(p, q). bridge_of pdb txs a p q) is"
  by (induction "is" arbitrary: st) (simp_all add: reconcile_interval_def Let_def split: prod.split)

lemma investment_bridges:
  "is_bridges (reconcile_investment_accounts pdb db)
     = concat (map (\<lambda>a. map (\<lambda>(p, q). bridge_of pdb (cd_transactions db) a p q)
                         (pairwise (observations (cd_snapshots db) a)))
         (filter (is_investment_holder (cd_institutions db)) (cd_accounts db)))"
proof -
  have "is_bridges (fold (reconcile_investment_account pdb db) as st) = is_bridges st
      @ concat (map (\<lambda>a. map (\<lambda>(p, q). bridge_of pdb (cd_transactions db) a p q)
                         (pairwise (observations (cd_snapshots db) a))) as)" for as st
    by (induction "as" arbitrary: st) (simp_all add: reconcile_investment_account_def fold_intervals)
  then show ?thesis by (simp add: reconcile_investment_accounts_def)
qed

text \<open>The observations of an account have increasing dates.\<close>

lemma observations_dates:
  "sorted (map bs_snapshot_date (observations snapshots a)) \<and> distinct (map bs_snapshot_date (observations snapshots a))"
proof -
  let ?vs = "filter (\<lambda>r. bs_kind r \<in> {''opening'', ''closing'', ''current'', ''manual''}) (snapshots_by_date snapshots a)"
  let ?d = "fold (\<lambda>r. dict_set (bs_snapshot_date r) r) ?vs []"
  have "map bs_snapshot_date (map snd ?d) = map fst ?d" and "dict_wf ?d"
    using index_dict [of bs_snapshot_date ?vs] by fastforce+
  then have "distinct (map bs_snapshot_date (map snd ?d))" by (simp only: dict_wf_def)
  then have "distinct (map bs_snapshot_date (observations snapshots a))"
    unfolding observations_def using mset_eq_imp_distinct_iff [OF mset_map_sort_key [of bs_snapshot_date]] by blast
  then show ?thesis by (simp add: observations_def)
qed

lemma pairwise_map: "pairwise (map f xs) = map (\<lambda>(x, y). (f x, f y)) (pairwise xs)"
  unfolding pairwise_def map_tl [symmetric] zip_map_map ..

lemma sum_pairwise:
  "sum_list (map (\<lambda>(x, y). f y - f x) (pairwise xs)) = (if xs = [] then 0 else f (last xs) - f (hd xs))"
  for f :: "'a \<Rightarrow> int"
proof (induction xs)
  case (Cons x xs)
  then show ?case by (cases xs) (simp_all add: pairwise_def)
qed (simp add: pairwise_def)

lemma filter_concat_key:
  assumes "distinct (map k as)" "a \<in> set as" "\<And>x b. x \<in> set as \<Longrightarrow> b \<in> set (f x) \<Longrightarrow> key b = k x"
  shows "filter (\<lambda>b. key b = k a) (concat (map f as)) = f a"
  using assms
proof (induction "as")
  case (Cons x xs)
  have own: "filter (\<lambda>b. key b = k x) (f x) = f x"
    using Cons.prems(3) by (simp add: filter_id_conv)
  show ?case
  proof (cases "a = x")
    case True
    have "key b \<noteq> k x" if "b \<in> set (concat (map f xs))" for b
    proof -
      from that obtain y where "y \<in> set xs" "b \<in> set (f y)" by auto
      then have "key b = k y" "k y \<in> k ` set xs" using Cons.prems(3) [of y b] by simp_all
      moreover have "k x \<notin> k ` set xs" using Cons.prems(1) by simp
      ultimately show ?thesis by metis
    qed
    then have "filter (\<lambda>b. key b = k a) (concat (map f xs)) = []" using True by (simp add: filter_empty_conv)
    with True own show ?thesis by simp
  next
    case False
    then have mem: "a \<in> set xs" using Cons.prems(2) by simp
    then have "k a \<in> k ` set xs" by simp
    with Cons.prems(1) have "k a \<noteq> k x" by (metis distinct.simps(2) list.simps(9) set_map)
    then have "filter (\<lambda>b. key b = k a) (f x) = []"
      using Cons.prems(3) by (fastforce simp: filter_empty_conv)
    then show ?thesis using Cons mem by simp
  qed
qed simp

lemma bridge_of_fields:
  "iv_account_id (bridge_of pdb txs a p q) = ac_id a"
  "iv_period_start (bridge_of pdb txs a p q) = bs_snapshot_date p"
  "iv_period_end (bridge_of pdb txs a p q) = bs_snapshot_date q"
  "iv_opening_value (bridge_of pdb txs a p q) = bs_amount p"
  "iv_closing_value (bridge_of pdb txs a p q) = bs_amount q"
  by (simp_all add: bridge_of_def Let_def)

lemma account_bridges:
  assumes "distinct (map ac_id (cd_accounts db))" "a \<in> set (cd_accounts db)" "is_investment_holder (cd_institutions db) a"
  shows "filter (\<lambda>b. iv_account_id b = ac_id a) (is_bridges (reconcile_investment_accounts pdb db))
    = map (\<lambda>(p, q). bridge_of pdb (cd_transactions db) a p q)
        (pairwise (observations (cd_snapshots db) a))"
  unfolding investment_bridges
  by (rule filter_concat_key) (use assms in \<open>auto simp: distinct_map_filter bridge_of_fields\<close>)

definition net_contributions :: "investment_value_bridge \<Rightarrow> cents" where
  "net_contributions b =
     iv_employee_contributions b + iv_employer_contributions b + iv_stock_plan_contributions b
       + iv_other_deposits b - iv_withdrawals b"

lemma bridge_of_result:
  "iv_investment_result (bridge_of pdb txs a p q)
     = bs_amount q - bs_amount p - net_contributions (bridge_of pdb txs a p q)"
  using bridge_of_closes [of pdb txs a p q]
  by (simp add: bridge_closes_def net_contributions_def bridge_of_fields)

text \<open>
  C8: The bridges of an investment account account for all of its change of value: they run from
  each observation to the next without a gap, so that together their results are the last observed
  value less the first and less the net contributions; each closes on its own; and a percentage is
  given only by the weighted method, never for a window shorter than seven days.
\<close>

theorem investment_bridges_telescope:
  assumes "distinct (map ac_id (cd_accounts db))" "a \<in> set (cd_accounts db)" "is_investment_holder (cd_institutions db) a"
  shows "let obs = observations (cd_snapshots db) a;
      bridges = filter (\<lambda>b. iv_account_id b = ac_id a) (is_bridges (reconcile_investment_accounts pdb db)) in
    sorted (map bs_snapshot_date obs) \<and> distinct (map bs_snapshot_date obs)
    \<and> map (\<lambda>b. (iv_period_start b, iv_period_end b)) bridges = pairwise (map bs_snapshot_date obs)
    \<and> sum_list (map iv_investment_result bridges)
        = (if obs = [] then 0 else bs_amount (last obs) - bs_amount (hd obs)) - sum_list (map net_contributions bridges)
    \<and> (\<forall>b \<in> set bridges. iv_opening_value b + net_contributions b + iv_investment_result b = iv_closing_value b
         \<and> (iv_calculated_return_pct b \<noteq> None \<longleftrightarrow> iv_return_method b = ''modified_dietz'')
         \<and> (investment_performance_available b \<longrightarrow> 7 \<le> days_between (iv_period_end b) (iv_period_start b)))"
proof -
  let ?obs = "observations (cd_snapshots db) a" and ?txs = "cd_transactions db"
  let ?b = "\<lambda>(p, q). bridge_of pdb ?txs a p q"
  have "map (\<lambda>b. (iv_period_start b, iv_period_end b)) (map ?b (pairwise ?obs)) = pairwise (map bs_snapshot_date ?obs)"
    by (auto simp: pairwise_map bridge_of_fields)
  moreover have "sum_list (map iv_investment_result (map ?b (pairwise ?obs)))
      = (if ?obs = [] then 0 else bs_amount (last ?obs) - bs_amount (hd ?obs)) - sum_list (map net_contributions (map ?b (pairwise ?obs)))"
  proof -
    have "sum_list (map iv_investment_result (map ?b ps))
        = sum_list (map (\<lambda>(x, y). bs_amount y - bs_amount x) ps) - sum_list (map net_contributions (map ?b ps))" for ps
      by (induction ps) (auto simp: bridge_of_result)
    then show ?thesis by (simp only: sum_pairwise)
  qed
  moreover have "iv_opening_value b + net_contributions b + iv_investment_result b = iv_closing_value b
         \<and> (iv_calculated_return_pct b \<noteq> None \<longleftrightarrow> iv_return_method b = ''modified_dietz'')
         \<and> (investment_performance_available b \<longrightarrow> 7 \<le> days_between (iv_period_end b) (iv_period_start b))"
    if "b \<in> set (map ?b (pairwise ?obs))" for b
  proof -
    from that obtain p q where b: "b = bridge_of pdb ?txs a p q" by auto
    show ?thesis
      unfolding b using bridge_of_return [of pdb ?txs a p q]
      by (simp add: bridge_of_result bridge_of_fields min_performance_days_def)
  qed
  ultimately show ?thesis
    using observations_dates [of "cd_snapshots db" a] unfolding account_bridges [OF assms] Let_def by blast
qed

section \<open>Reconciling again\<close>

lemma points_frame:
  "match_completed_payroll_deposits sha es (db\<lparr>cd_points := ps\<rparr>) flows = match_completed_payroll_deposits sha es db flows"
  "reconcile_bank_accounts (db\<lparr>cd_points := ps\<rparr>) matched st = reconcile_bank_accounts db matched st"
  "reconcile_investment_accounts pdb (db\<lparr>cd_points := ps\<rparr>) = reconcile_investment_accounts pdb db"
proof -
  show "match_completed_payroll_deposits sha es (db\<lparr>cd_points := ps\<rparr>) flows = match_completed_payroll_deposits sha es db flows"
    by (simp add: match_completed_payroll_deposits_def bank_deposits_def)
  have "reconcile_bank_account (db\<lparr>cd_points := ps\<rparr>) = reconcile_bank_account db"
    by (intro ext) (simp add: reconcile_bank_account_def)
  then show "reconcile_bank_accounts (db\<lparr>cd_points := ps\<rparr>) matched st = reconcile_bank_accounts db matched st"
    by (simp add: reconcile_bank_accounts_def)
  have "reconcile_investment_account pdb (db\<lparr>cd_points := ps\<rparr>) = reconcile_investment_account pdb db"
    by (intro ext) (simp add: reconcile_investment_account_def)
  then show "reconcile_investment_accounts pdb (db\<lparr>cd_points := ps\<rparr>) = reconcile_investment_accounts pdb db"
    by (simp add: reconcile_investment_accounts_def)
qed

lemma matches_frame:
  "reconcile_payroll (pdb\<lparr>db_matches := ms\<rparr>) = reconcile_payroll pdb"
  "reconcile_completed_schedule (pdb\<lparr>db_matches := ms\<rparr>) = reconcile_completed_schedule pdb"
  "reconcile_investment_accounts (pdb\<lparr>db_matches := ms\<rparr>) db = reconcile_investment_accounts pdb db"
proof -
  let ?p = "pdb\<lparr>db_matches := ms\<rparr>"
  have fields: "db_statements ?p = db_statements pdb" "db_lines ?p = db_lines pdb" "db_entries ?p = db_entries pdb"
    "db_allocations ?p = db_allocations pdb" by simp_all
  show "reconcile_payroll ?p = reconcile_payroll pdb" by (simp only: reconcile_payroll_def fields)
  have "allocation_failures ?p = allocation_failures pdb" by (intro ext) (simp only: allocation_failures_def fields)
  then show "reconcile_completed_schedule ?p = reconcile_completed_schedule pdb"
    by (simp only: reconcile_completed_schedule_def schedule_validation_def allocation_validation_def fields)
  have "payroll_total ?p = payroll_total pdb" by (intro ext) (simp only: payroll_total_def fields)
  then have "bridge_of ?p = bridge_of pdb" by (intro ext) (simp only: bridge_of_def interval_contributions_def)
  then have "reconcile_interval ?p = reconcile_interval pdb" by (intro ext) (simp only: reconcile_interval_def)
  then have "reconcile_investment_account ?p = reconcile_investment_account pdb"
    by (intro ext) (simp only: reconcile_investment_account_def)
  then show "reconcile_investment_accounts ?p db = reconcile_investment_accounts pdb db"
    by (simp only: reconcile_investment_accounts_def)
qed

lemma generated_frame:
  "\<exists>ps. fst (generate_account_balance_points digest db) = db\<lparr>cd_points := ps\<rparr>"
  "fst (generate_account_balance_points digest (fst (generate_account_balance_points digest db)))
     = fst (generate_account_balance_points digest db)"
  using balance_points.sync_again [OF desired_points_keys]
  by (auto simp: generate_account_balance_points_def Let_def)

text \<open>The deposits do not depend on what an earlier run stored.\<close>

lemma match_deposits_again:
  assumes "match_deposits sha pdb db flows = Inr (ms, flows', rows)"
  shows "match_deposits sha (pdb\<lparr>db_matches := ms\<rparr>) db flows = Inr (ms, flows', rows)"
  using assms
  by (auto simp: match_deposits_def matches_frame split: if_splits prod.splits sum.splits)

lemma match_deposits_points:
  "match_deposits sha pdb (db\<lparr>cd_points := ps\<rparr>) flows = match_deposits sha pdb db flows"
  by (simp add: match_deposits_def points_frame)

text \<open>
  C22: Reconciliation is idempotent: after a successful run, running it again over the database it
  left succeeds and changes nothing, neither in the derived rows nor in the balance points.
\<close>

theorem reconcile_all_again:
  assumes "reconcile_all digest sha db = Inr db'"
  shows "reconcile_all digest sha db' = Inr db'"
proof -
  let ?cash = "rd_cash db" and ?pdb = "rd_payroll db"
  let ?cash' = "fst (generate_account_balance_points digest ?cash)"
  obtain transfers matched where tm: "match_transfers (cd_transactions ?cash) = (transfers, matched)" by fastforce
  let ?bank = "reconcile_bank_accounts ?cash matched \<lparr>bk_results = reconcile_payroll ?pdb, bk_flows = []\<rparr>"
  let ?inv = "reconcile_investment_accounts ?pdb ?cash'"
  from assms tm obtain ms flows rows where
    md: "match_deposits sha ?pdb ?cash' (bk_flows ?bank) = Inr (ms, flows, rows)" and
    keys: "distinct (map result_key (bk_results ?bank @ rows @ is_results ?inv))" and
    db': "db' = db\<lparr>rd_cash := ?cash', rd_payroll := ?pdb\<lparr>db_matches := ms\<rparr>, rd_transfers := transfers,
            rd_flows := flows, rd_bridges := is_bridges ?inv, rd_results := bk_results ?bank @ rows @ is_results ?inv\<rparr>"
    by (auto simp: reconcile_all_def Let_def bind_res_Inr_iff split: if_splits)
  obtain ps where ps: "?cash' = ?cash\<lparr>cd_points := ps\<rparr>" using generated_frame(1) by blast
  have fields: "rd_cash db' = ?cash'" "rd_payroll db' = ?pdb\<lparr>db_matches := ms\<rparr>" by (simp_all add: db')
  have tm': "match_transfers (cd_transactions ?cash') = (transfers, matched)" using tm by (simp add: ps)
  have bank': "reconcile_bank_accounts ?cash' matched \<lparr>bk_results = reconcile_payroll ?pdb, bk_flows = []\<rparr> = ?bank"
    by (simp add: ps points_frame)
  show ?thesis
    using keys match_deposits_again [OF md]
    by (simp add: reconcile_all_def Let_def fields tm' bank' matches_frame generated_frame(2) db')
qed

section \<open>The uniqueness of the results\<close>

text \<open>A loop that only adds rows has, at its end, the rows any of its elements adds.\<close>

lemma fold_adds:
  assumes grow: "\<And>x s. S s \<subseteq> S (f x s)" and own: "\<And>s. y \<in> S (f x s)" and "x \<in> set xs"
  shows "y \<in> S (fold f xs s)"
proof -
  have mono: "S s \<subseteq> S (fold f zs s)" for zs s
    by (induction zs arbitrary: s) (simp, metis fold_simps(2) grow order_trans)
  show ?thesis
    using assms(3)
  proof (induction xs arbitrary: s)
    case (Cons z zs)
    show ?case
    proof (cases "x = z")
      case True
      with own [of s] mono [of "f z s" zs] show ?thesis by auto
    next
      case False
      with Cons show ?thesis by simp
    qed
  qed simp
qed

lemma fold_grows: "(\<And>x s. S s \<subseteq> S (f x s)) \<Longrightarrow> S s \<subseteq> S (fold f xs s)"
  by (induction xs arbitrary: s) (simp, metis fold_simps(2) order_trans)

lemma book_transaction_grows: "set (bk_results st) \<subseteq> set (bk_results (book_transaction m t st))"
  by (auto simp: book_transaction_def)

lemma reconcile_bank_account_grows: "set (bk_results st) \<subseteq> set (bk_results (reconcile_bank_account db m a st))"
proof -
  have "set (bk_results s) \<subseteq> set (bk_results (fold (book_transaction m) txs s))" for txs s
    by (rule fold_grows [of "\<lambda>s. set (bk_results s)"]) (rule book_transaction_grows)
  from this [of "st\<lparr>bk_results := bk_results st @ account_row (cd_institutions db) m a
      (snapshots_by_date (cd_snapshots db) a) (account_activity (cd_transactions db) a)\<rparr>"]
  show ?thesis by (auto simp: reconcile_bank_account_def Let_def)
qed

lemma bank_unresolved:
  assumes "a \<in> set (cd_accounts db)" "is_bank_account (cd_institutions db) a"
    and "t \<in> set (cd_transactions db)" "tx_account_id t = ac_id a" "tx_role t = ''unresolved''"
  shows "unresolved_row t \<in> set (bk_results (reconcile_bank_accounts db m st))"
proof -
  have book: "unresolved_row t \<in> set (bk_results (book_transaction m t s))" for s
    using assms(5) by (simp add: book_transaction_def flow_roles_def)
  have "t \<in> set (account_activity (cd_transactions db) a)" using assms(3,4) by (simp add: account_activity_def)
  then have "unresolved_row t \<in> set (bk_results (fold (book_transaction m) (account_activity (cd_transactions db) a) s))" for s
    using fold_adds [of "\<lambda>s. set (bk_results s)" "book_transaction m", OF book_transaction_grows book] by blast
  then have "unresolved_row t \<in> set (bk_results (reconcile_bank_account db m a s))" for s
    by (simp add: reconcile_bank_account_def Let_def)
  moreover have "a \<in> set (filter (is_bank_account (cd_institutions db)) (cd_accounts db))" using assms(1,2) by simp
  ultimately show ?thesis
    unfolding reconcile_bank_accounts_def
    by (intro fold_adds [of "\<lambda>s. set (bk_results s)"] reconcile_bank_account_grows)
qed

lemma interval_unresolved:
  assumes "a \<in> set (cd_accounts db)" "is_investment_holder (cd_institutions db) a"
    and "(p, q) \<in> set (pairwise (observations (cd_snapshots db) a))"
    and "t \<in> set (activity_between (cd_transactions db) a (bs_snapshot_date p) (bs_snapshot_date q))"
    and "tx_role t = ''unresolved''"
  shows "unresolved_row t \<in> set (is_results (reconcile_investment_accounts pdb db))"
proof -
  have interval_grows: "set (is_results s) \<subseteq> set (is_results (reconcile_interval pdb txs b i s))" for s txs b i
    by (auto simp: reconcile_interval_def Let_def split: prod.splits)
  have own: "unresolved_row t \<in> set (is_results (reconcile_interval pdb (cd_transactions db) a (p, q) s))" for s
    using assms(4,5) by (simp add: reconcile_interval_def Let_def)
  have "unresolved_row t \<in> set (is_results (reconcile_investment_account pdb db a s))" for s
    unfolding reconcile_investment_account_def
    using fold_adds [of "\<lambda>s. set (is_results s)" "reconcile_interval pdb (cd_transactions db) a", OF interval_grows own assms(3)]
    by blast
  moreover have "set (is_results s) \<subseteq> set (is_results (reconcile_investment_account pdb db b s))" for s b
    unfolding reconcile_investment_account_def
    by (rule fold_grows [of "\<lambda>s. set (is_results s)"]) (rule interval_grows)
  moreover have "a \<in> set (filter (is_investment_holder (cd_institutions db)) (cd_accounts db))" using assms(1,2) by simp
  ultimately show ?thesis
    unfolding reconcile_investment_accounts_def
    by (intro fold_adds [of "\<lambda>s. set (is_results s)"])
qed

text \<open>
  C40: An unresolved transaction of an account that counts both as a bank account (by its
  institution) and as an investment account (by its type), dated between two observations of it, is
  reported by both passes under the same entity and rule, so reconciliation cannot succeed: the
  uniqueness constraint of the results rejects the second row.
\<close>

theorem unresolved_in_both_fails:
  assumes "a \<in> set (cd_accounts (rd_cash db))"
    and "is_bank_account (cd_institutions (rd_cash db)) a" "is_investment_holder (cd_institutions (rd_cash db)) a"
    and "(p, q) \<in> set (pairwise (observations (cd_snapshots (rd_cash db)) a))"
    and "t \<in> set (cd_transactions (rd_cash db))" "tx_account_id t = ac_id a" "tx_role t = ''unresolved''"
    and "bs_snapshot_date p < tx_posted_date t" "tx_posted_date t \<le> bs_snapshot_date q"
  shows "reconcile_all digest sha db \<noteq> Inr db'"
proof
  let ?cash = "rd_cash db"
  let ?cash' = "fst (generate_account_balance_points digest ?cash)"
  obtain transfers matched where tm: "match_transfers (cd_transactions ?cash) = (transfers, matched)" by fastforce
  let ?bank = "reconcile_bank_accounts ?cash matched \<lparr>bk_results = reconcile_payroll (rd_payroll db), bk_flows = []\<rparr>"
  assume "reconcile_all digest sha db = Inr db'"
  then obtain rows where
    "distinct (map result_key (bk_results ?bank @ rows @ is_results (reconcile_investment_accounts (rd_payroll db) ?cash')))"
    by (auto simp: reconcile_all_def Let_def bind_res_Inr_iff tm split: if_splits)
  then have "result_key ` set (bk_results ?bank) \<inter> result_key ` set (is_results (reconcile_investment_accounts (rd_payroll db) ?cash')) = {}"
    by auto
  moreover have "unresolved_row t \<in> set (bk_results ?bank)"
    by (rule bank_unresolved [OF assms(1,2,5,6,7)])
  moreover have "unresolved_row t \<in> set (is_results (reconcile_investment_accounts (rd_payroll db) ?cash'))"
  proof -
    obtain ps where ps: "?cash' = ?cash\<lparr>cd_points := ps\<rparr>" using generated_frame(1) by blast
    have "t \<in> set (activity_between (cd_transactions ?cash) a (bs_snapshot_date p) (bs_snapshot_date q))"
      using assms(5,6,8,9) by (simp add: activity_between_def)
    from interval_unresolved [OF assms(1,3,4) this assms(7)] show ?thesis by (simp add: ps points_frame)
  qed
  ultimately show False by blast
qed

section \<open>An example\<close>

text \<open>A checking account with a deposit, and an investment account observed twice.\<close>

definition example_snapshot :: "nat \<Rightarrow> nat \<Rightarrow> date \<Rightarrow> cents \<Rightarrow> balance_snapshot" where
  "example_snapshot i a d v = \<lparr>bs_id = i, bs_account_id = a, bs_artifact_id = 1, bs_snapshot_date = d,
     bs_kind = ''current'', bs_amount = v\<rparr>"

definition example_transaction :: "nat \<Rightarrow> nat \<Rightarrow> date \<Rightarrow> string \<Rightarrow> cents \<Rightarrow> account_transaction" where
  "example_transaction i a d role v = \<lparr>tx_id = i, tx_account_id = a, tx_posted_date = d,
     tx_original_description = ''Entry'', tx_role = role, tx_amount = v\<rparr>"

definition example_books :: "string \<Rightarrow> cash_db" where
  "example_books role = \<lparr>cd_institutions = [\<lparr>in_id = 1, in_canonical_name = ''SoFi'', in_kind = ''bank''\<rparr>,
       \<lparr>in_id = 2, in_canonical_name = ''Fidelity'', in_kind = ''investment''\<rparr>],
     cd_accounts = [\<lparr>ac_id = 1, ac_institution_id = 1, ac_display_name = ''Invest'', ac_account_type = ''brokerage''\<rparr>,
       \<lparr>ac_id = 2, ac_institution_id = 2, ac_display_name = ''Plan'', ac_account_type = ''401k''\<rparr>],
     cd_snapshots = [example_snapshot 1 1 (Date 2026 3 1) 500000, example_snapshot 2 1 (Date 2026 3 20) 520000,
       example_snapshot 3 2 (Date 2026 3 1) 900000, example_snapshot 4 2 (Date 2026 3 20) 960000],
     cd_points = [],
     cd_transactions = [example_transaction 1 1 (Date 2026 3 10) role 20000,
       example_transaction 2 2 (Date 2026 3 11) ''external_deposit'' 30000]\<rparr>"

definition example_reconciliation :: "string \<Rightarrow> reconciliation_db" where
  "example_reconciliation role =
     \<lparr>rd_cash = example_books role,
      rd_payroll = \<lparr>db_statements = [], db_lines = [], db_entries = [], db_allocations = [], db_matches = []\<rparr>,
      rd_transfers = [], rd_flows = [], rd_bridges = [], rd_results = []\<rparr>"

definition example_deposit_reconciliation :: reconciliation_db where
  "example_deposit_reconciliation = (example_reconciliation [])\<lparr>rd_cash := example_deposit_db\<rparr>"

lemma example_reconciled:
  "case reconcile_all (\<lambda>_. ''d'') (\<lambda>s. s) example_deposit_reconciliation of
     Inl e \<Rightarrow> False | Inr db' \<Rightarrow> length (rd_flows db') = 3"
  by code_simp

theorem reconcile_all_again_witness:
  "\<exists>db'. reconcile_all (\<lambda>_. ''d'') (\<lambda>s. s) example_deposit_reconciliation = Inr db'
     \<and> reconcile_all (\<lambda>_. ''d'') (\<lambda>s. s) db' = Inr db'"
proof (cases "reconcile_all (\<lambda>_. ''d'') (\<lambda>s. s) example_deposit_reconciliation")
  case (Inl e)
  with example_reconciled show ?thesis by simp
next
  case (Inr db')
  with reconcile_all_again [OF Inr] show ?thesis by simp
qed

theorem unresolved_in_both_fails_witness:
  "\<forall>db'. reconcile_all (\<lambda>_. ''d'') (\<lambda>s. s) (example_reconciliation ''unresolved'') \<noteq> Inr db'"
proof
  fix db'
  let ?db = "example_reconciliation ''unresolved''"
  let ?a = "\<lparr>ac_id = 1, ac_institution_id = 1, ac_display_name = ''Invest'', ac_account_type = ''brokerage''\<rparr>"
  let ?p = "example_snapshot 1 1 (Date 2026 3 1) 500000" and ?q = "example_snapshot 2 1 (Date 2026 3 20) 520000"
  let ?t = "example_transaction 1 1 (Date 2026 3 10) ''unresolved'' 20000"
  show "reconcile_all (\<lambda>_. ''d'') (\<lambda>s. s) ?db \<noteq> Inr db'"
  proof (rule unresolved_in_both_fails)
    show "?a \<in> set (cd_accounts (rd_cash ?db))" "?t \<in> set (cd_transactions (rd_cash ?db))"
      by (simp_all add: example_reconciliation_def example_books_def)
    show "is_bank_account (cd_institutions (rd_cash ?db)) ?a" by code_simp
    show "is_investment_holder (cd_institutions (rd_cash ?db)) ?a" by code_simp
    show "(?p, ?q) \<in> set (pairwise (observations (cd_snapshots (rd_cash ?db)) ?a))" by code_simp
    show "tx_account_id ?t = ac_id ?a" "tx_role ?t = ''unresolved''" by (simp_all add: example_transaction_def)
    show "bs_snapshot_date ?p < tx_posted_date ?t" "tx_posted_date ?t \<le> bs_snapshot_date ?q" by code_simp+
  qed
qed

theorem investment_bridges_telescope_witness:
  "let bs = filter (\<lambda>b. iv_account_id b = 2)
       (is_bridges (reconcile_investment_accounts (rd_payroll (example_reconciliation ''fee'')) (example_books ''fee''))) in
   sum_list (map iv_investment_result bs) + sum_list (map net_contributions bs) = 60000"
proof -
  let ?pdb = "rd_payroll (example_reconciliation ''fee'')" and ?db = "example_books ''fee''"
  let ?a = "\<lparr>ac_id = 2, ac_institution_id = 2, ac_display_name = ''Plan'', ac_account_type = ''401k''\<rparr>"
  let ?bs = "filter (\<lambda>b. iv_account_id b = ac_id ?a) (is_bridges (reconcile_investment_accounts ?pdb ?db))"
  have "distinct (map ac_id (cd_accounts ?db))" "?a \<in> set (cd_accounts ?db)" by (simp_all add: example_books_def)
  moreover have "is_investment_holder (cd_institutions ?db) ?a" by code_simp
  ultimately have "sum_list (map iv_investment_result ?bs)
      = (if observations (cd_snapshots ?db) ?a = [] then 0
         else bs_amount (last (observations (cd_snapshots ?db) ?a)) - bs_amount (hd (observations (cd_snapshots ?db) ?a)))
        - sum_list (map net_contributions ?bs)"
    using investment_bridges_telescope [of ?db ?a ?pdb] unfolding Let_def by blast
  moreover have "(if observations (cd_snapshots ?db) ?a = [] then 0
         else bs_amount (last (observations (cd_snapshots ?db) ?a)) - bs_amount (hd (observations (cd_snapshots ?db) ?a))) = 60000"
    by code_simp
  ultimately show ?thesis by simp
qed

end
