(* ===== verification/Cash_Flow_Contracts.thy ===== *)
theory Cash_Flow_Contracts
  imports Models "HOL-Library.Product_Lexorder" "HOL-Library.List_Lexorder" "HOL-Library.Char_ord"
begin

text \<open>
  \<open>v21_contracts.py\<close>: the values cash flow and recurring outflows are reported in. A pydantic model
  is a record with its validator; building one that the validator rejects raises. Amounts are
  already whole cents, so \<open>parse_exact_money\<close> accepts each.
\<close>

datatype cash_flow_error = Validation_error | Unavailable_error | Date_error | Lookup_error | Contract_error

definition contract :: "('a \<Rightarrow> bool) \<Rightarrow> 'a \<Rightarrow> (cash_flow_error, 'a) result" where
  "contract valid x = (if valid x then Inr x else Inl Contract_error)"

section \<open>Money with its evidence\<close>

datatype evidence_class = Observed | Derived | User_entered | Assumed | Unavailable

datatype money_derivation =
    Effective_recurring_take_home | Money_in | Money_out | Net_cash_flow | Current_monthly_margin
  | Stabilization_gap | Remaining_target | Required_goal_pace | Combined_monthly_improvement
  | Preview_total_reservation | Preview_remaining_target | Preview_required_goal_pace
  | Adjusted_recurring_take_home | Adjusted_recurring_outflow | Adjusted_monthly_margin
  | Adjusted_stabilization_gap | Remaining_combined_monthly_improvement
  | Estimated_monthly_gross_income | Estimated_annual_gross_income
  | Recurring_outflow_median | Recurring_outflow_typical_monthly

record evidenced_money =
  em_amount :: "cents option"
  em_evidence :: evidence_class
  em_source_refs :: "string list"
  em_derivation :: "money_derivation option"
  em_unavailable_reason :: "string option"

definition valid_refs :: "string list \<Rightarrow> bool" where
  "valid_refs refs \<longleftrightarrow> list_all (\<lambda>r. r \<noteq> []) refs \<and> distinct refs"

definition valid_evidence :: "evidenced_money \<Rightarrow> bool" where
  "valid_evidence m \<longleftrightarrow>
     (if em_evidence m = Unavailable
      then em_amount m = None \<and> em_derivation m = None \<and> em_source_refs m = [] \<and> em_unavailable_reason m \<noteq> None
      else em_amount m \<noteq> None \<and> em_unavailable_reason m = None \<and> em_source_refs m \<noteq> []
        \<and> (em_evidence m = Derived \<longleftrightarrow> em_derivation m \<noteq> None))"

definition valid_reason :: "string option \<Rightarrow> bool" where
  "valid_reason r \<longleftrightarrow> (case r of None \<Rightarrow> True | Some s \<Rightarrow> 1 \<le> length s \<and> length s \<le> 240)"

definition make_money :: "evidenced_money \<Rightarrow> (cash_flow_error, evidenced_money) result" where
  "make_money m =
     contract (\<lambda>m. valid_refs (em_source_refs m) \<and> valid_reason (em_unavailable_reason m) \<and> valid_evidence m)
       (m\<lparr>em_source_refs := sort (em_source_refs m)\<rparr>)"

text \<open>\<open>_amount\<close>, \<open>_require_evidence\<close> and \<open>_require_derivation\<close>.\<close>

definition amount_is :: "(cents \<Rightarrow> bool) \<Rightarrow> evidenced_money \<Rightarrow> bool" where
  "amount_is P m \<longleftrightarrow> (case em_amount m of None \<Rightarrow> False | Some a \<Rightarrow> P a)"

definition observed_nonneg :: "evidenced_money \<Rightarrow> bool" where
  "observed_nonneg m \<longleftrightarrow> em_evidence m = Observed \<and> amount_is (\<lambda>a. 0 \<le> a) m"

definition derived_by :: "money_derivation \<Rightarrow> evidenced_money \<Rightarrow> bool" where
  "derived_by d m \<longleftrightarrow> em_evidence m = Derived \<and> em_derivation m = Some d"

section \<open>Periods\<close>

datatype period_kind = All_imported_history | Trailing_12_months | Year_to_date | Custom_range
datatype partial_period_state = Full_month | Partial_month
datatype coverage_completeness = Complete_coverage | Incomplete_coverage
datatype freshness_state = Fresh_current | Fresh_stale | Fresh_incomplete

record selected_period =
  pe_kind :: period_kind
  pe_start_date :: date
  pe_end_date :: date
  pe_as_of_date :: date

text \<open>\<open>date\<close> has no year below 1.\<close>

definition month_start_offset :: "date \<Rightarrow> int \<Rightarrow> (cash_flow_error, date) result" where
  "month_start_offset v offset =
     (let absolute = d_year v * 12 + (d_month v - 1) + offset
      in if absolute div 12 < 1 then Inl Date_error else Inr (Date (absolute div 12) (absolute mod 12 + 1) 1))"

definition valid_period :: "selected_period \<Rightarrow> bool" where
  "valid_period p \<longleftrightarrow> pe_start_date p \<le> pe_end_date p \<and> pe_end_date p \<le> pe_as_of_date p
     \<and> (case pe_kind p of
          Trailing_12_months \<Rightarrow>
            month_start_offset (pe_as_of_date p) (-11) = Inr (pe_start_date p) \<and> pe_end_date p = pe_as_of_date p
        | Year_to_date \<Rightarrow> pe_start_date p = Date (d_year (pe_as_of_date p)) 1 1 \<and> pe_end_date p = pe_as_of_date p
        | _ \<Rightarrow> True)"

record coverage_state =
  cv_coverage_start :: date
  cv_coverage_end :: date
  cv_transaction_count :: nat
  cv_opening_month :: partial_period_state
  cv_closing_month :: partial_period_state
  cv_completeness :: coverage_completeness
  cv_incomplete_reasons :: "string list"

definition valid_coverage :: "coverage_state \<Rightarrow> bool" where
  "valid_coverage c \<longleftrightarrow> cv_coverage_start c \<le> cv_coverage_end c
     \<and> (cv_completeness c = Complete_coverage \<longleftrightarrow> cv_incomplete_reasons c = [])"

text \<open>A time with or without its zone.\<close>

record moment =
  mo_aware :: bool
  mo_instant :: int

record freshness =
  fr_state :: freshness_state
  fr_observed_at :: moment
  fr_stale_sources :: "string list"
  fr_warnings :: "string list"

definition valid_freshness :: "freshness \<Rightarrow> bool" where
  "valid_freshness f \<longleftrightarrow> mo_aware (fr_observed_at f)
     \<and> (fr_state f = Fresh_current \<longrightarrow> fr_stale_sources f = [])
     \<and> (fr_state f = Fresh_stale \<longrightarrow> fr_stale_sources f \<noteq> [])"

section \<open>Cash flow\<close>

record excluded_transfer_totals =
  xt_matched_owned_account_amount :: evidenced_money
  xt_matched_owned_account_count :: nat
  xt_internal_transfer_amount :: evidenced_money
  xt_internal_transfer_count :: nat

definition valid_exclusions :: "excluded_transfer_totals \<Rightarrow> bool" where
  "valid_exclusions x \<longleftrightarrow>
     observed_nonneg (xt_matched_owned_account_amount x) \<and> observed_nonneg (xt_internal_transfer_amount x)"

record cash_flow_amounts =
  fa_external_cash_inflows :: evidenced_money
  fa_interest_received :: evidenced_money
  fa_money_in :: evidenced_money
  fa_external_cash_outflows :: evidenced_money
  fa_fees_paid :: evidenced_money
  fa_money_out :: evidenced_money
  fa_net_cash_flow :: evidenced_money

text \<open>The amount of a value that has one.\<close>

definition amount_of :: "evidenced_money \<Rightarrow> cents" where
  "amount_of m = (case em_amount m of None \<Rightarrow> 0 | Some a \<Rightarrow> a)"

definition valid_cash_flow :: "cash_flow_amounts \<Rightarrow> bool" where
  "valid_cash_flow a \<longleftrightarrow>
     list_all observed_nonneg
       [fa_external_cash_inflows a, fa_interest_received a, fa_external_cash_outflows a, fa_fees_paid a]
     \<and> derived_by Money_in (fa_money_in a) \<and> derived_by Money_out (fa_money_out a)
     \<and> derived_by Net_cash_flow (fa_net_cash_flow a)
     \<and> (let expected_in = amount_of (fa_external_cash_inflows a) + amount_of (fa_interest_received a);
            expected_out = amount_of (fa_external_cash_outflows a) + amount_of (fa_fees_paid a)
        in amount_is (\<lambda>x. x = expected_in) (fa_money_in a) \<and> amount_is (\<lambda>x. x = expected_out) (fa_money_out a)
         \<and> 0 \<le> min expected_in expected_out
         \<and> amount_is (\<lambda>x. x = expected_in - expected_out) (fa_net_cash_flow a))"

record monthly_cash_flow_point =
  mp_month :: string
  mp_start_date :: date
  mp_end_date :: date
  mp_partial :: bool
  mp_transaction_count :: nat
  mp_amounts :: cash_flow_amounts
  mp_transfers_excluded :: excluded_transfer_totals

text \<open>\<open>strftime("%Y-%m")\<close>, and the month pattern with a year of four digits.\<close>

definition month_text :: "date \<Rightarrow> string" where
  "month_text d = show_nat (nat (d_year d)) @ ''-'' @ two_digits (d_month d)"

definition month_pattern :: "string \<Rightarrow> bool" where
  "month_pattern s \<longleftrightarrow> length s = 7 \<and> list_all is_digit (take 4 s) \<and> s ! 4 = CHR ''-''
     \<and> drop 5 s \<in> two_digits ` {1..12}"

definition valid_point :: "monthly_cash_flow_point \<Rightarrow> bool" where
  "valid_point p \<longleftrightarrow> month_pattern (mp_month p) \<and> mp_start_date p \<le> mp_end_date p
     \<and> d_year (mp_start_date p) = d_year (mp_end_date p) \<and> d_month (mp_start_date p) = d_month (mp_end_date p)
     \<and> mp_month p = month_text (mp_start_date p)
     \<and> (mp_partial p \<longleftrightarrow> \<not> (d_day (mp_start_date p) = 1
          \<and> d_day (mp_end_date p) = days_in_month (d_year (mp_end_date p)) (d_month (mp_end_date p))))
     \<and> xt_matched_owned_account_count (mp_transfers_excluded p) + xt_internal_transfer_count (mp_transfers_excluded p)
        \<le> mp_transaction_count p"

record cash_flow_period_result =
  pr_period :: selected_period
  pr_coverage :: coverage_state
  pr_totals :: cash_flow_amounts
  pr_monthly_points :: "monthly_cash_flow_point list"
  pr_transfers_excluded :: excluded_transfer_totals
  pr_freshness :: freshness
  pr_warnings :: "string list"

text \<open>The points are inside the period and each starts after the one before it ended.\<close>

fun points_ordered :: "date option \<Rightarrow> monthly_cash_flow_point list \<Rightarrow> bool" where
  "points_ordered previous [] = True"
| "points_ordered previous (p # ps) =
     ((case previous of None \<Rightarrow> True | Some e \<Rightarrow> e < mp_start_date p) \<and> points_ordered (Some (mp_end_date p)) ps)"

definition amount_fields :: "(cash_flow_amounts \<Rightarrow> evidenced_money) list" where
  "amount_fields =
     [fa_external_cash_inflows, fa_interest_received, fa_money_in, fa_external_cash_outflows, fa_fees_paid,
      fa_money_out, fa_net_cash_flow]"

definition months_reconcile :: "cash_flow_period_result \<Rightarrow> bool" where
  "months_reconcile r \<longleftrightarrow>
     (let ps = pr_monthly_points r; xs = map mp_transfers_excluded ps; t = pr_transfers_excluded r in
      list_all (\<lambda>f. sum_list (map (\<lambda>p. amount_of (f (mp_amounts p))) ps) = amount_of (f (pr_totals r))) amount_fields
      \<and> sum_list (map (\<lambda>x. amount_of (xt_matched_owned_account_amount x)) xs) = amount_of (xt_matched_owned_account_amount t)
      \<and> sum_list (map (\<lambda>x. amount_of (xt_internal_transfer_amount x)) xs) = amount_of (xt_internal_transfer_amount t)
      \<and> sum_list (map xt_matched_owned_account_count xs) = xt_matched_owned_account_count t
      \<and> sum_list (map xt_internal_transfer_count xs) = xt_internal_transfer_count t
      \<and> sum_list (map mp_transaction_count ps) = cv_transaction_count (pr_coverage r))"

definition opening_state :: "date \<Rightarrow> partial_period_state" where
  "opening_state d = (if d_day d = 1 then Full_month else Partial_month)"

definition closing_state :: "date \<Rightarrow> partial_period_state" where
  "closing_state d = (if d_day d = days_in_month (d_year d) (d_month d) then Full_month else Partial_month)"

definition valid_period_result :: "cash_flow_period_result \<Rightarrow> bool" where
  "valid_period_result r \<longleftrightarrow>
     (let p = pr_period r; c = pr_coverage r; ps = pr_monthly_points r in
      ps \<noteq> []
      \<and> pe_start_date p \<le> cv_coverage_start c \<and> cv_coverage_start c \<le> cv_coverage_end c \<and> cv_coverage_end c \<le> pe_end_date p
      \<and> (pe_kind p = All_imported_history \<longrightarrow>
           cv_coverage_start c = pe_start_date p \<and> cv_coverage_end c = pe_end_date p)
      \<and> list_all (\<lambda>m. pe_start_date p \<le> mp_start_date m \<and> mp_start_date m \<le> mp_end_date m \<and> mp_end_date m \<le> pe_end_date p) ps
      \<and> points_ordered None ps
      \<and> cv_opening_month c = opening_state (pe_start_date p) \<and> cv_closing_month c = closing_state (pe_end_date p)
      \<and> months_reconcile r)"

section \<open>Recurring outflows\<close>

datatype recurring_outflow_cadence = Cadence_monthly | Cadence_biweekly | Cadence_weekly

record recurring_outflow_amount_range =
  ar_minimum :: evidenced_money
  ar_maximum :: evidenced_money

definition valid_range :: "recurring_outflow_amount_range \<Rightarrow> bool" where
  "valid_range r \<longleftrightarrow> em_evidence (ar_minimum r) = Observed \<and> em_evidence (ar_maximum r) = Observed
     \<and> amount_is (\<lambda>a. 0 < a) (ar_minimum r) \<and> amount_is (\<lambda>b. amount_of (ar_minimum r) \<le> b) (ar_maximum r)"

record recurring_outflow_candidate =
  ro_candidate_id :: string
  ro_observed_description :: string
  ro_safe_account_label :: string
  ro_cadence :: recurring_outflow_cadence
  ro_occurrence_count :: nat
  ro_first_observed_date :: date
  ro_last_observed_date :: date
  ro_median_observed_amount :: evidenced_money
  ro_typical_monthly_amount :: evidenced_money
  ro_amount_range :: recurring_outflow_amount_range
  ro_source_refs :: "string list"
  ro_coverage_months :: "string list"

text \<open>\<open>money(median * multiplier)\<close> with the decimal quotients 26/12 and 52/12.\<close>

definition cadence_multiplier :: "recurring_outflow_cadence \<Rightarrow> rat" where
  "cadence_multiplier c =
     (case c of Cadence_monthly \<Rightarrow> 1 | Cadence_biweekly \<Rightarrow> ddiv 26 12 | Cadence_weekly \<Rightarrow> ddiv 52 12)"

definition typical_monthly :: "cents \<Rightarrow> recurring_outflow_cadence \<Rightarrow> cents" where
  "typical_monthly median c = money (dmul (dec median) (cadence_multiplier c))"

definition is_hex_digit :: "char \<Rightarrow> bool" where
  "is_hex_digit c \<longleftrightarrow> is_digit c \<or> (let n = of_char c :: nat in 97 \<le> n \<and> n \<le> 102)"

definition valid_candidate_id :: "string \<Rightarrow> bool" where
  "valid_candidate_id s \<longleftrightarrow> take 10 s = ''candidate_'' \<and> length s = 34 \<and> list_all is_hex_digit (drop 10 s)"

definition valid_candidate :: "recurring_outflow_candidate \<Rightarrow> bool" where
  "valid_candidate c \<longleftrightarrow> valid_candidate_id (ro_candidate_id c)
     \<and> 1 \<le> length (ro_observed_description c) \<and> length (ro_observed_description c) \<le> 500
     \<and> 1 \<le> length (ro_safe_account_label c) \<and> length (ro_safe_account_label c) \<le> 80
     \<and> 1 \<le> ro_occurrence_count c \<and> ro_source_refs c \<noteq> [] \<and> 3 \<le> length (ro_coverage_months c)
     \<and> valid_refs (ro_source_refs c) \<and> valid_refs (ro_coverage_months c)
     \<and> ro_first_observed_date c \<le> ro_last_observed_date c
     \<and> ro_occurrence_count c = length (ro_source_refs c)
     \<and> list_all month_pattern (ro_coverage_months c)
     \<and> derived_by Recurring_outflow_median (ro_median_observed_amount c)
     \<and> derived_by Recurring_outflow_typical_monthly (ro_typical_monthly_amount c)
     \<and> amount_is (\<lambda>m. amount_of (ar_minimum (ro_amount_range c)) \<le> m \<and> m \<le> amount_of (ar_maximum (ro_amount_range c)))
         (ro_median_observed_amount c)
     \<and> amount_is (\<lambda>t. t = typical_monthly (amount_of (ro_median_observed_amount c)) (ro_cadence c))
         (ro_typical_monthly_amount c)"

record recurring_outflow_candidate_list =
  rl_state :: string
  rl_observed_on :: date
  rl_candidates :: "recurring_outflow_candidate list"
  rl_reason :: "string option"

definition valid_candidate_list :: "recurring_outflow_candidate_list \<Rightarrow> bool" where
  "valid_candidate_list l \<longleftrightarrow> valid_reason (rl_reason l)
     \<and> rl_state l \<in> {''available'', ''empty'', ''unavailable''}
     \<and> (rl_state l = ''available'' \<longrightarrow> rl_candidates l \<noteq> [] \<and> rl_reason l = None)
     \<and> (rl_state l = ''empty'' \<longrightarrow> rl_candidates l = [] \<and> rl_reason l = None)
     \<and> (rl_state l = ''unavailable'' \<longrightarrow> rl_candidates l = [] \<and> rl_reason l \<noteq> None)
     \<and> distinct (map ro_candidate_id (rl_candidates l))"

end
