(* ===== verification/Cash_Flow.thy ===== *)
theory Cash_Flow
  imports Cash_Flow_Contracts
begin

text \<open>
  \<open>cash_flow_service.py\<close>: what came in and what went out over a period, from the transactions of the
  bank accounts, month by month and in total, with owned transfers left out.
\<close>

record linked_account = account +
  la_plaid_connection_id :: "nat option"

text \<open>The date the last synchronisation fell on in the business time zone stands for its time.\<close>

record plaid_connection =
  pc_id :: nat
  pc_institution_name :: string
  pc_status :: string
  pc_last_synced_on :: "date option"

record cash_flow_db =
  fd_institutions :: "institution list"
  fd_accounts :: "linked_account list"
  fd_transactions :: "account_transaction list"
  fd_transfer_matches :: "transfer_match list"
  fd_connections :: "plaid_connection list"

section \<open>Classification\<close>

datatype classification =
    Matched_owned_transfer | Internal_transfer | Interest_received | Fee_paid
  | External_inflow | External_outflow | Zero_activity

record classified_transaction =
  ct_transaction_id :: nat
  ct_posted_date :: date
  ct_amount :: cents
  ct_classification :: classification
  ct_incomplete_reason :: "string option"
  ct_warning :: "string option"

definition positive_roles :: "string list" where
  "positive_roles = [''external_inflow'', ''external_deposit'', ''payroll_deposit'']"

definition negative_roles :: "string list" where
  "negative_roles = [''external_outflow'', ''external_withdrawal'']"

definition classification_of :: "bool \<Rightarrow> string \<Rightarrow> cents \<Rightarrow> classification" where
  "classification_of matched role a =
     (if matched then Matched_owned_transfer
      else if role = ''internal_transfer'' then Internal_transfer
      else if role = ''interest'' \<and> 0 < a then Interest_received
      else if role = ''fee'' \<and> a < 0 then Fee_paid
      else if 0 < a then External_inflow
      else if a < 0 then External_outflow
      else Zero_activity)"

definition sign_doubt :: "string \<Rightarrow> cents \<Rightarrow> (string \<times> string) option" where
  "sign_doubt role a =
     (if role = ''interest'' \<and> a \<le> 0
      then Some (''unexpected_interest_sign'', ''Interest activity with a non-positive amount was classified by sign.'')
      else if role = ''fee'' \<and> 0 \<le> a
      then Some (''unexpected_fee_sign'', ''Fee activity with a non-negative amount was classified by sign.'')
      else if role \<in> set positive_roles \<and> a < 0
      then Some (''unexpected_inflow_role_sign'', ''Inflow-labeled activity with a negative amount was classified by sign.'')
      else if role \<in> set negative_roles \<and> 0 < a
      then Some (''unexpected_outflow_role_sign'', ''Outflow-labeled activity with a positive amount was classified by sign.'')
      else None)"

definition classify_bank_transaction :: "nat set \<Rightarrow> 'a account_transaction_scheme \<Rightarrow> classified_transaction" where
  "classify_bank_transaction matched t =
     (let role = tx_role t; a = tx_amount t;
          doubt = (if tx_id t \<notin> matched \<and> role \<noteq> ''internal_transfer'' then sign_doubt role a else None)
      in \<lparr>ct_transaction_id = tx_id t, ct_posted_date = tx_posted_date t, ct_amount = a,
          ct_classification = classification_of (tx_id t \<in> matched) role a,
          ct_incomplete_reason = map_option fst doubt, ct_warning = map_option snd doubt\<rparr>)"

section \<open>Buckets\<close>

record cash_flow_bucket =
  bu_external_cash_inflows :: cents
  bu_interest_received :: cents
  bu_external_cash_outflows :: cents
  bu_fees_paid :: cents
  bu_matched_owned_account_amount :: cents
  bu_matched_owned_account_count :: nat
  bu_internal_transfer_amount :: cents
  bu_internal_transfer_count :: nat
  bu_transaction_count :: nat
  bu_matched_transfer_in :: cents
  bu_matched_transfer_out :: cents

definition empty_bucket :: cash_flow_bucket where
  "empty_bucket =
     \<lparr>bu_external_cash_inflows = 0, bu_interest_received = 0, bu_external_cash_outflows = 0, bu_fees_paid = 0,
      bu_matched_owned_account_amount = 0, bu_matched_owned_account_count = 0, bu_internal_transfer_amount = 0,
      bu_internal_transfer_count = 0, bu_transaction_count = 0, bu_matched_transfer_in = 0, bu_matched_transfer_out = 0\<rparr>"

definition bucket_money_in :: "cash_flow_bucket \<Rightarrow> cents" where
  "bucket_money_in b = bu_external_cash_inflows b + bu_interest_received b"

definition bucket_money_out :: "cash_flow_bucket \<Rightarrow> cents" where
  "bucket_money_out b = bu_external_cash_outflows b + bu_fees_paid b"

definition bucket_net_cash_flow :: "cash_flow_bucket \<Rightarrow> cents" where
  "bucket_net_cash_flow b = bucket_money_in b - bucket_money_out b"

definition add_classified :: "classified_transaction \<Rightarrow> cash_flow_bucket \<Rightarrow> cash_flow_bucket" where
  "add_classified c b0 =
     (let b = b0\<lparr>bu_transaction_count := bu_transaction_count b0 + 1\<rparr>; a = ct_amount c in
      case ct_classification c of
        Matched_owned_transfer \<Rightarrow>
          (let b = b\<lparr>bu_matched_owned_account_amount := bu_matched_owned_account_amount b + \<bar>a\<bar>,
                     bu_matched_owned_account_count := bu_matched_owned_account_count b + 1\<rparr>
           in if 0 < a then b\<lparr>bu_matched_transfer_in := bu_matched_transfer_in b + a\<rparr>
              else if a < 0 then b\<lparr>bu_matched_transfer_out := bu_matched_transfer_out b + \<bar>a\<bar>\<rparr> else b)
      | Internal_transfer \<Rightarrow>
          b\<lparr>bu_internal_transfer_amount := bu_internal_transfer_amount b + \<bar>a\<bar>,
            bu_internal_transfer_count := bu_internal_transfer_count b + 1\<rparr>
      | Interest_received \<Rightarrow> b\<lparr>bu_interest_received := bu_interest_received b + a\<rparr>
      | Fee_paid \<Rightarrow> b\<lparr>bu_fees_paid := bu_fees_paid b + \<bar>a\<bar>\<rparr>
      | External_inflow \<Rightarrow> b\<lparr>bu_external_cash_inflows := bu_external_cash_inflows b + a\<rparr>
      | External_outflow \<Rightarrow> b\<lparr>bu_external_cash_outflows := bu_external_cash_outflows b + \<bar>a\<bar>\<rparr>
      | Zero_activity \<Rightarrow> b)"

section \<open>The selected period\<close>

type_synonym bank_coverage = "date \<times> date"

text \<open>The kinds fix both ends; a custom range takes them from the request.\<close>

definition resolved_ends ::
  "period_kind \<Rightarrow> date \<Rightarrow> bank_coverage option \<Rightarrow> date option \<Rightarrow> date option \<Rightarrow> (cash_flow_error, date \<times> date) result"
where
  "resolved_ends kind as_of imported start_date end_date =
     (case kind of
        All_imported_history \<Rightarrow> (case imported of None \<Rightarrow> Inl Unavailable_error | Some c \<Rightarrow> Inr c)
      | Trailing_12_months \<Rightarrow> bind_res (month_start_offset as_of (-11)) (\<lambda>s. Inr (s, as_of))
      | Year_to_date \<Rightarrow> Inr (Date (d_year as_of) 1 1, as_of)
      | Custom_range \<Rightarrow>
          (case (start_date, end_date) of (Some s, Some e) \<Rightarrow> Inr (s, e) | _ \<Rightarrow> Inl Validation_error))"

definition resolve_period ::
  "period_kind \<Rightarrow> date \<Rightarrow> bank_coverage option \<Rightarrow> date option \<Rightarrow> date option \<Rightarrow> (cash_flow_error, selected_period) result"
where
  "resolve_period kind as_of imported start_date end_date =
     (if (case imported of None \<Rightarrow> False | Some (_, last_day) \<Rightarrow> as_of < last_day) then Inl Validation_error
      else bind_res (resolved_ends kind as_of imported start_date end_date) (\<lambda>(s, e).
        if e < s \<or> as_of < e then Inl Validation_error
        else if kind \<noteq> Custom_range \<and> (start_date \<notin> {None, Some s} \<or> end_date \<notin> {None, Some e})
        then Inl Validation_error
        else contract valid_period
          \<lparr>pe_kind = kind, pe_start_date = s, pe_end_date = e, pe_as_of_date = as_of\<rparr>))"

section \<open>Bank transactions\<close>

definition is_bank_row :: "cash_flow_db \<Rightarrow> account_transaction \<Rightarrow> bool" where
  "is_bank_row db t =
     list_ex (\<lambda>a. ac_id a = tx_account_id t
         \<and> list_ex (\<lambda>n. in_id n = ac_institution_id a \<and> in_kind n = ''bank'') (fd_institutions db))
       (fd_accounts db)"

definition imported_bank_coverage :: "cash_flow_db \<Rightarrow> bank_coverage option" where
  "imported_bank_coverage db =
     (case map tx_posted_date (filter (is_bank_row db) (fd_transactions db)) of
        [] \<Rightarrow> None
      | d # ds \<Rightarrow> Some (fold min ds d, fold max ds d))"

definition matched_ids :: "cash_flow_db \<Rightarrow> nat set" where
  "matched_ids db =
     set (concat (map (\<lambda>m. [tm_left_transaction_id m, tm_right_transaction_id m]) (fd_transfer_matches db)))"

definition bank_rows :: "cash_flow_db \<Rightarrow> date \<Rightarrow> date \<Rightarrow> account_transaction list" where
  "bank_rows db s e =
     sort_key (\<lambda>t. (tx_posted_date t, tx_id t))
       (filter (\<lambda>t. is_bank_row db t \<and> s \<le> tx_posted_date t \<and> tx_posted_date t \<le> e) (fd_transactions db))"

text \<open>\<open>dict.fromkeys\<close>\<close>

definition stable_unique :: "'a list \<Rightarrow> 'a list" where
  "stable_unique xs = rev (remdups (rev xs))"

record cash_flow_aggregation =
  ag_total :: cash_flow_bucket
  ag_monthly :: "(string, cash_flow_bucket) dict"
  ag_incomplete_reasons :: "string list"
  ag_warnings :: "string list"

definition optional_strings :: "string option list \<Rightarrow> string list" where
  "optional_strings xs = concat (map (\<lambda>x. case x of None \<Rightarrow> [] | Some s \<Rightarrow> [s]) xs)"

definition aggregate_row ::
  "nat set \<Rightarrow> account_transaction \<Rightarrow> cash_flow_bucket \<times> (string, cash_flow_bucket) dict
     \<Rightarrow> cash_flow_bucket \<times> (string, cash_flow_bucket) dict"
where
  "aggregate_row matched t =
     (\<lambda>(whole, monthly).
       let c = classify_bank_transaction matched t; month = month_text (tx_posted_date t)
       in (add_classified c whole, dict_set month (add_classified c (dict_get monthly month empty_bucket)) monthly))"

definition aggregate_cash_flow :: "cash_flow_db \<Rightarrow> date \<Rightarrow> date \<Rightarrow> (cash_flow_error, cash_flow_aggregation) result" where
  "aggregate_cash_flow db s e =
     (if e < s then Inl Validation_error
      else let matched = matched_ids db; rows = bank_rows db s e;
               classified = map (classify_bank_transaction matched) rows;
               (whole, monthly) = fold (aggregate_row matched) rows (empty_bucket, [])
           in Inr \<lparr>ag_total = whole, ag_monthly = monthly,
                   ag_incomplete_reasons = stable_unique (optional_strings (map ct_incomplete_reason classified)),
                   ag_warnings = stable_unique (optional_strings (map ct_warning classified))\<rparr>)"

section \<open>Coverage and freshness\<close>

definition coverage_ends :: "selected_period \<Rightarrow> bank_coverage option \<Rightarrow> date \<times> date" where
  "coverage_ends p imported =
     (case imported of
        None \<Rightarrow> (pe_start_date p, pe_end_date p)
      | Some (s, e) \<Rightarrow>
          let cs = max (pe_start_date p) s; ce = min (pe_end_date p) e in
          if ce < cs then let anchor = (if e < pe_start_date p then pe_start_date p else pe_end_date p) in (anchor, anchor)
          else (cs, ce))"

definition coverage_doubts :: "selected_period \<Rightarrow> bank_coverage option \<Rightarrow> (string \<times> string) list" where
  "coverage_doubts p imported =
     (case imported of
        None \<Rightarrow> [(''bank_transaction_coverage_unavailable'', ''Imported bank transaction coverage is unavailable.'')]
      | Some (s, e) \<Rightarrow>
          (if pe_start_date p < s
           then [(''selected_start_not_covered'', ''Imported cash evidence does not establish the selected start date.'')]
           else [])
          @ (if e < pe_end_date p
             then [(''selected_end_not_covered'', ''Imported cash evidence does not establish the selected end date.'')]
             else []))"

definition coverage_value :: "selected_period \<Rightarrow> bank_coverage option \<Rightarrow> cash_flow_aggregation \<Rightarrow> coverage_state" where
  "coverage_value p imported ag =
     (let reasons = map fst (coverage_doubts p imported) @ ag_incomplete_reasons ag; (s, e) = coverage_ends p imported in
      \<lparr>cv_coverage_start = s, cv_coverage_end = e, cv_transaction_count = bu_transaction_count (ag_total ag),
       cv_opening_month = opening_state (pe_start_date p), cv_closing_month = closing_state (pe_end_date p),
       cv_completeness = (if reasons = [] then Complete_coverage else Incomplete_coverage),
       cv_incomplete_reasons = stable_unique reasons\<rparr>)"

definition coverage_of ::
  "selected_period \<Rightarrow> bank_coverage option \<Rightarrow> cash_flow_aggregation \<Rightarrow> (cash_flow_error, coverage_state \<times> string list) result"
where
  "coverage_of p imported ag =
     bind_res (contract valid_coverage (coverage_value p imported ag))
       (\<lambda>c. Inr (c, stable_unique (map snd (coverage_doubts p imported))))"

text \<open>\<open>str.split()\<close> on white space.\<close>

definition is_space :: "char \<Rightarrow> bool" where
  "is_space c = (let n = of_char c :: nat in (9 \<le> n \<and> n \<le> 13) \<or> (28 \<le> n \<and> n \<le> 32))"

function split_words :: "string \<Rightarrow> string list" where
  "split_words s =
     (let t = dropWhile is_space s in
      if t = [] then [] else takeWhile (\<lambda>c. \<not> is_space c) t # split_words (dropWhile (\<lambda>c. \<not> is_space c) t))"
  by pat_completeness auto
termination
proof (relation "measure length")
  fix s :: string and t assume t: "t = dropWhile is_space s" "t \<noteq> []"
  then have "\<not> is_space (hd t)" by (metis dropWhile_eq_Nil_conv hd_dropWhile)
  then have "dropWhile (\<lambda>c. \<not> is_space c) t = dropWhile (\<lambda>c. \<not> is_space c) (tl t)"
    using t(2) by (cases t) simp_all
  then have "length (dropWhile (\<lambda>c. \<not> is_space c) t) \<le> length (tl t)" by (simp only: length_dropWhile_le)
  also have "\<dots> < length t" using t(2) by (cases t) simp_all
  also have "\<dots> \<le> length s" using t(1) by (simp add: length_dropWhile_le)
  finally show "(dropWhile (\<lambda>c. \<not> is_space c) t, s) \<in> measure length" by simp
qed simp

declare split_words.simps [simp del]

fun join_words :: "string list \<Rightarrow> string" where
  "join_words [] = []"
| "join_words [w] = w"
| "join_words (w # ws) = w @ '' '' @ join_words ws"

definition squeeze :: "string \<Rightarrow> string" where
  "squeeze s = join_words (split_words s)"

definition safe_connection_label :: "plaid_connection \<Rightarrow> string" where
  "safe_connection_label c =
     (let v = squeeze (pc_institution_name c) in take 80 (if v = [] then ''Bank'' else v) @ '' connection'')"

text \<open>The active connections of bank accounts, each once, by identifier.\<close>

definition bank_connections :: "cash_flow_db \<Rightarrow> plaid_connection list" where
  "bank_connections db =
     sort_key pc_id (filter (\<lambda>c. pc_status c = ''active''
       \<and> list_ex (\<lambda>a. la_plaid_connection_id a = Some (pc_id c)
           \<and> list_ex (\<lambda>n. in_id n = ac_institution_id a \<and> in_kind n = ''bank'') (fd_institutions db)) (fd_accounts db))
       (fd_connections db))"

definition stale_sources :: "cash_flow_db \<Rightarrow> date \<Rightarrow> string list" where
  "stale_sources db as_of =
     stable_unique (map safe_connection_label (filter (\<lambda>c. pc_last_synced_on c \<noteq> Some as_of) (bank_connections db)))"

definition freshness_value :: "string list \<Rightarrow> coverage_state \<Rightarrow> moment \<Rightarrow> freshness" where
  "freshness_value stale coverage now =
     (let incomplete = cv_completeness coverage = Incomplete_coverage in
      \<lparr>fr_state = (if incomplete then Fresh_incomplete else if stale \<noteq> [] then Fresh_stale else Fresh_current),
       fr_observed_at = now, fr_stale_sources = stale,
       fr_warnings = stable_unique
         ((if incomplete then [''Cash-flow evidence coverage is incomplete.''] else [])
          @ (if stale \<noteq> [] then [''One or more applicable bank connections are not current.''] else []))\<rparr>)"

definition freshness_of :: "cash_flow_db \<Rightarrow> coverage_state \<Rightarrow> date \<Rightarrow> moment \<Rightarrow> (cash_flow_error, freshness) result" where
  "freshness_of db coverage as_of now =
     contract valid_freshness (freshness_value (stale_sources db as_of) coverage now)"

section \<open>Points and the result\<close>

definition observed_money :: "cents \<Rightarrow> string \<Rightarrow> (cash_flow_error, evidenced_money) result" where
  "observed_money a ref =
     make_money \<lparr>em_amount = Some a, em_evidence = Observed, em_source_refs = [ref], em_derivation = None,
                 em_unavailable_reason = None\<rparr>"

definition derived_money :: "cents \<Rightarrow> string \<Rightarrow> money_derivation \<Rightarrow> (cash_flow_error, evidenced_money) result" where
  "derived_money a ref d =
     make_money \<lparr>em_amount = Some a, em_evidence = Derived, em_source_refs = [ref], em_derivation = Some d,
                 em_unavailable_reason = None\<rparr>"

definition amounts_of :: "cash_flow_bucket \<Rightarrow> string \<Rightarrow> (cash_flow_error, cash_flow_amounts) result" where
  "amounts_of b prefix =
     bind_res (observed_money (bu_external_cash_inflows b) (prefix @ '':external-inflows'')) (\<lambda>inflows.
     bind_res (observed_money (bu_interest_received b) (prefix @ '':interest'')) (\<lambda>interest.
     bind_res (derived_money (bucket_money_in b) (prefix @ '':money-in'') Money_in) (\<lambda>money_in.
     bind_res (observed_money (bu_external_cash_outflows b) (prefix @ '':external-outflows'')) (\<lambda>outflows.
     bind_res (observed_money (bu_fees_paid b) (prefix @ '':fees'')) (\<lambda>fees.
     bind_res (derived_money (bucket_money_out b) (prefix @ '':money-out'') Money_out) (\<lambda>money_out.
     bind_res (derived_money (bucket_net_cash_flow b) (prefix @ '':net'') Net_cash_flow) (\<lambda>net.
       contract valid_cash_flow
         \<lparr>fa_external_cash_inflows = inflows, fa_interest_received = interest, fa_money_in = money_in,
          fa_external_cash_outflows = outflows, fa_fees_paid = fees, fa_money_out = money_out,
          fa_net_cash_flow = net\<rparr>)))))))"

definition transfers_of :: "cash_flow_bucket \<Rightarrow> string \<Rightarrow> (cash_flow_error, excluded_transfer_totals) result" where
  "transfers_of b prefix =
     bind_res (observed_money (bu_matched_owned_account_amount b) (prefix @ '':matched-transfers'')) (\<lambda>matched.
     bind_res (observed_money (bu_internal_transfer_amount b) (prefix @ '':internal-transfers'')) (\<lambda>internal.
       contract valid_exclusions
         \<lparr>xt_matched_owned_account_amount = matched, xt_matched_owned_account_count = bu_matched_owned_account_count b,
          xt_internal_transfer_amount = internal, xt_internal_transfer_count = bu_internal_transfer_count b\<rparr>))"

definition monthly_point ::
  "selected_period \<Rightarrow> (string, cash_flow_bucket) dict \<Rightarrow> date \<Rightarrow> (cash_flow_error, monthly_cash_flow_point) result"
where
  "monthly_point p buckets m =
     (let s = max (pe_start_date p) m; e = min (pe_end_date p) (month_end m); month = month_text m;
          b = dict_get buckets month empty_bucket;
          prefix = ''cash-flow:bank:'' @ month @ '':'' @ isoformat s @ '':'' @ isoformat e
      in bind_res (amounts_of b prefix) (\<lambda>amounts. bind_res (transfers_of b prefix) (\<lambda>transfers.
        contract valid_point
          \<lparr>mp_month = month, mp_start_date = s, mp_end_date = e, mp_partial = (s \<noteq> m \<or> e \<noteq> month_end m),
           mp_transaction_count = bu_transaction_count b, mp_amounts = amounts, mp_transfers_excluded = transfers\<rparr>)))"

text \<open>The first days of the months from \<open>current\<close> to \<open>end_date\<close>; no date follows December of year 9999.\<close>

function months_from :: "date \<Rightarrow> date \<Rightarrow> (cash_flow_error, date list) result" where
  "months_from current end_date =
     (if valid_date current \<and> valid_date end_date \<and> current \<le> end_date
      then if d_year current = 9999 \<and> d_month current = 12 then Inl Date_error
           else bind_res (months_from (next_month current) end_date) (\<lambda>ms. Inr (current # ms))
      else Inr [])"
  by pat_completeness auto
termination
proof (relation "measure (\<lambda>(c, e). nat (month_index e + 1 - month_index c))")
  fix c e :: date assume "valid_date c \<and> valid_date e \<and> c \<le> e"
  then have "month_index c \<le> month_index e" by (auto simp: less_eq_date_def month_index_def valid_date_def)
  then show "((next_month c, e), (c, e)) \<in> measure (\<lambda>(c, e). nat (month_index e + 1 - month_index c))" by simp
qed simp

declare months_from.simps [simp del]

definition cash_flow_months :: "date \<Rightarrow> date \<Rightarrow> (cash_flow_error, date list) result" where
  "cash_flow_months s e = months_from (month_start s) e"

definition build_cash_flow_period_result ::
  "cash_flow_db \<Rightarrow> period_kind \<Rightarrow> date \<Rightarrow> moment \<Rightarrow> date option \<Rightarrow> date option
     \<Rightarrow> (cash_flow_error, cash_flow_period_result) result"
where
  "build_cash_flow_period_result db kind as_of now start_date end_date =
     (if \<not> mo_aware now then Inl Validation_error
      else let imported = imported_bank_coverage db in
        bind_res (resolve_period kind as_of imported start_date end_date) (\<lambda>p.
        bind_res (aggregate_cash_flow db (pe_start_date p) (pe_end_date p)) (\<lambda>ag.
        bind_res (coverage_of p imported ag) (\<lambda>(coverage, doubts).
        bind_res (freshness_of db coverage as_of now) (\<lambda>fresh.
        bind_res (cash_flow_months (pe_start_date p) (pe_end_date p)) (\<lambda>months.
        bind_res (map_res (monthly_point p (ag_monthly ag)) months) (\<lambda>points.
        let prefix = ''cash-flow:bank:'' @ isoformat (pe_start_date p) @ '':'' @ isoformat (pe_end_date p) in
        bind_res (amounts_of (ag_total ag) prefix) (\<lambda>totals.
        bind_res (transfers_of (ag_total ag) prefix) (\<lambda>transfers.
          contract valid_period_result
            \<lparr>pr_period = p, pr_coverage = coverage, pr_totals = totals, pr_monthly_points = points,
             pr_transfers_excluded = transfers, pr_freshness = fresh,
             pr_warnings = stable_unique (doubts @ ag_warnings ag @ fr_warnings fresh)\<rparr>)))))))))"

end
