(* ===== verification/Recurring_Outflows.thy ===== *)
theory Recurring_Outflows
  imports Cash_Flow Cash_Months
begin

text \<open>
  \<open>recurring_outflow_service.py\<close>: payments that repeat. Outflows of the cash accounts in complete
  months are grouped by account and description; a group with a regular rhythm, three months and
  stable amounts becomes a candidate. Texts are ASCII.
\<close>

record imported_transaction = account_transaction +
  it_artifact_id :: nat

text \<open>\<open>od_artifact_hashes\<close> holds the identifier and \<open>sha256\<close> of each import artifact.\<close>

record outflow_db =
  od_cash :: cash_db
  od_transactions :: "imported_transaction list"
  od_transfer_matches :: "transfer_match list"
  od_artifact_hashes :: "(nat, string) dict"

section \<open>Texts\<close>

text \<open>\<open>str.casefold()\<close> is \<open>lower\<close> on ASCII.\<close>

definition casefold :: "string \<Rightarrow> string" where
  "casefold s = lower s"

definition normalize_description :: "string \<Rightarrow> string" where
  "normalize_description v = casefold (squeeze v)"

definition display_description :: "string \<Rightarrow> string" where
  "display_description v = squeeze v"

definition account_label :: "string \<Rightarrow> nat \<Rightarrow> string" where
  "account_label account_type n =
     title (map (\<lambda>c. if c = CHR ''_'' then CHR '' '' else c) account_type) @ '' account '' @ show_nat n"

definition label_account ::
  "account \<Rightarrow> (string, nat) dict \<times> (nat, string) dict \<Rightarrow> (string, nat) dict \<times> (nat, string) dict"
where
  "label_account a = (\<lambda>(counts, labels).
     let t = casefold (ac_account_type a); n = dict_get counts t 0 + 1
     in (dict_set t n counts, dict_set (ac_id a) (account_label t n) labels))"

definition safe_account_labels :: "account list \<Rightarrow> (nat, string) dict" where
  "safe_account_labels accounts = snd (fold label_account accounts ([], []))"

section \<open>Rhythm and amounts\<close>

definition intervals :: "date list \<Rightarrow> int list" where
  "intervals ds = map2 (\<lambda>l r. days_between r l) ds (tl ds)"

definition cadence_rules :: "(recurring_outflow_cadence \<times> nat \<times> int \<times> int) list" where
  "cadence_rules = [(Cadence_monthly, 3, 25, 35), (Cadence_biweekly, 5, 12, 16), (Cadence_weekly, 8, 6, 8)]"

definition supported_cadence :: "date list \<Rightarrow> recurring_outflow_cadence option" where
  "supported_cadence ds =
     map_option fst (find (\<lambda>(c, least, low, high). least \<le> length ds \<and> intervals ds \<noteq> []
         \<and> list_all (\<lambda>v. low \<le> v \<and> v \<le> high) (intervals ds)) cadence_rules)"

definition median_money :: "cents list \<Rightarrow> cents" where
  "median_money vs =
     (let ordered = sort vs; midpoint = length ordered div 2
      in if odd (length ordered) then ordered ! midpoint
         else money (ddiv (dadd (dec (ordered ! (midpoint - 1))) (dec (ordered ! midpoint))) 2))"

definition amount_tolerance :: "cents \<Rightarrow> rat" where
  "amount_tolerance median = max 2 (dmul (dec median) (1 / 10))"

definition stable_amounts :: "cents \<Rightarrow> cents list \<Rightarrow> bool" where
  "stable_amounts median vs \<longleftrightarrow> list_all (\<lambda>v. \<bar>dsub (dec v) (dec median)\<bar> \<le> amount_tolerance median) vs"

section \<open>The identifier of a candidate\<close>

text \<open>\<open>json.dumps\<close> of a text with \<open>ensure_ascii\<close>.\<close>

definition hex_char :: "nat \<Rightarrow> char" where
  "hex_char n = char_of (if n < 10 then 48 + n else 87 + n)"

definition escape_letters :: "(nat \<times> char) list" where
  "escape_letters = [(8, CHR ''b''), (9, CHR ''t''), (10, CHR ''n''), (12, CHR ''f''), (13, CHR ''r'')]"

definition json_char :: "char \<Rightarrow> string" where
  "json_char c =
     (let n = of_char c :: nat in
      if n = 34 \<or> n = 92 then [CHR 0x5C, c]
      else if 32 \<le> n \<and> n \<le> 126 then [c]
      else case map_of escape_letters n of
        Some l \<Rightarrow> [CHR 0x5C, l]
      | None \<Rightarrow> [CHR 0x5C] @ ''u00'' @ [hex_char (n div 16), hex_char (n mod 16)])"

definition json_text :: "string \<Rightarrow> string" where
  "json_text s = [CHR 0x22] @ concat (map json_char s) @ [CHR 0x22]"

fun join_with :: "char \<Rightarrow> string list \<Rightarrow> string" where
  "join_with sep [] = []"
| "join_with sep [w] = w"
| "join_with sep (w # ws) = w @ [sep] @ join_with sep ws"

definition json_list :: "string list \<Rightarrow> string" where
  "json_list xs = ''['' @ join_with CHR '','' xs @ '']''"

definition json_object :: "(string \<times> string) list \<Rightarrow> string" where
  "json_object fs = ''{'' @ join_with CHR '','' (map (\<lambda>(k, v). json_text k @ '':'' @ v) fs) @ ''}''"

definition cadence_value :: "recurring_outflow_cadence \<Rightarrow> string" where
  "cadence_value c = (case c of Cadence_monthly \<Rightarrow> ''monthly'' | Cadence_biweekly \<Rightarrow> ''biweekly'' | Cadence_weekly \<Rightarrow> ''weekly'')"

text \<open>The keys are sorted. \<open>digest\<close> is the first 24 hexadecimal digits of the SHA-256 of a text.\<close>

definition candidate_payload :: "string \<Rightarrow> string \<Rightarrow> recurring_outflow_cadence \<Rightarrow> (date \<times> cents) list \<Rightarrow> string" where
  "candidate_payload label normalized cadence occurrences =
     json_object
       [(''cadence'', json_text (cadence_value cadence)),
        (''normalized_description'', json_text normalized),
        (''occurrences'', json_list (map (\<lambda>(d, a). json_object
            [(''amount'', json_text (show_money a)), (''date'', json_text (isoformat d))]) occurrences)),
        (''safe_account_label'', json_text label)]"

definition candidate_id :: "(string \<Rightarrow> string) \<Rightarrow> string \<Rightarrow> string \<Rightarrow> recurring_outflow_cadence \<Rightarrow> (date \<times> cents) list \<Rightarrow> string" where
  "candidate_id digest label normalized cadence occurrences =
     ''candidate_'' @ digest (candidate_payload label normalized cadence occurrences)"

section \<open>Candidates\<close>

definition derived_candidate_money ::
  "cents \<Rightarrow> money_derivation \<Rightarrow> string list \<Rightarrow> (cash_flow_error, evidenced_money) result"
where
  "derived_candidate_money a d refs =
     make_money \<lparr>em_amount = Some a, em_evidence = Derived, em_source_refs = refs, em_derivation = Some d,
                 em_unavailable_reason = None\<rparr>"

definition observed_candidate_money :: "cents \<Rightarrow> string list \<Rightarrow> (cash_flow_error, evidenced_money) result" where
  "observed_candidate_money a refs =
     make_money \<lparr>em_amount = Some a, em_evidence = Observed, em_source_refs = refs, em_derivation = None,
                 em_unavailable_reason = None\<rparr>"

text \<open>A missing key raises.\<close>

definition lookup :: "('k, 'v) dict \<Rightarrow> 'k \<Rightarrow> (cash_flow_error, 'v) result" where
  "lookup d k = (case map_of d k of None \<Rightarrow> Inl Lookup_error | Some v \<Rightarrow> Inr v)"

definition transaction_ref :: "outflow_db \<Rightarrow> imported_transaction \<Rightarrow> (cash_flow_error, string) result" where
  "transaction_ref db t =
     bind_res (lookup (od_artifact_hashes db) (it_artifact_id t)) (\<lambda>h.
       Inr (''account_transaction:'' @ show_nat (tx_id t) @ '':artifact:'' @ h))"

definition sorted_texts :: "string list \<Rightarrow> string list" where
  "sorted_texts xs = sort (remdups xs)"

text \<open>The rows of one account and description, in the order they were posted.\<close>

definition build_candidate ::
  "(string \<Rightarrow> string) \<Rightarrow> outflow_db \<Rightarrow> (nat, string) dict \<Rightarrow> nat \<Rightarrow> string \<Rightarrow> imported_transaction list
     \<Rightarrow> (cash_flow_error, recurring_outflow_candidate option) result"
where
  "build_candidate digest db labels account_id normalized rows =
     (let dates = map tx_posted_date rows; amounts = map (\<lambda>t. \<bar>tx_amount t\<bar>) rows;
          months = sorted_texts (map month_text dates); median = median_money amounts
      in case supported_cadence dates of
           None \<Rightarrow> Inr None
         | Some cadence \<Rightarrow>
             if length months < 3 \<or> \<not> stable_amounts median amounts then Inr None
             else
               bind_res (map_res (transaction_ref db) rows) (\<lambda>unsorted_refs.
               bind_res (lookup labels account_id) (\<lambda>label.
               let refs = sort unsorted_refs in
               bind_res (derived_candidate_money median Recurring_outflow_median refs) (\<lambda>median_value.
               bind_res (derived_candidate_money (typical_monthly median cadence) Recurring_outflow_typical_monthly refs) (\<lambda>typical_value.
               bind_res (observed_candidate_money (Min (set amounts)) refs) (\<lambda>minimum.
               bind_res (observed_candidate_money (Max (set amounts)) refs) (\<lambda>maximum.
               bind_res (contract valid_range \<lparr>ar_minimum = minimum, ar_maximum = maximum\<rparr>) (\<lambda>range.
               bind_res (contract valid_candidate
                 \<lparr>ro_candidate_id = candidate_id digest label normalized cadence (zip dates amounts),
                  ro_observed_description = display_description (tx_original_description (hd rows)),
                  ro_safe_account_label = label, ro_cadence = cadence, ro_occurrence_count = length rows,
                  ro_first_observed_date = hd dates, ro_last_observed_date = last dates,
                  ro_median_observed_amount = median_value, ro_typical_monthly_amount = typical_value,
                  ro_amount_range = range, ro_source_refs = refs, ro_coverage_months = months\<rparr>)
               (\<lambda>c. Inr (Some c))))))))))"

definition outflow_matched_ids :: "outflow_db \<Rightarrow> nat set" where
  "outflow_matched_ids db =
     set (concat (map (\<lambda>m. [tm_left_transaction_id m, tm_right_transaction_id m]) (od_transfer_matches db)))"

definition outflow_rows :: "outflow_db \<Rightarrow> account list \<Rightarrow> imported_transaction list" where
  "outflow_rows db accounts =
     sort_key (\<lambda>t. (tx_posted_date t, tx_id t))
       (filter (\<lambda>t. tx_account_id t \<in> set (map ac_id accounts) \<and> tx_amount t < 0) (od_transactions db))"

definition groups_with ::
  "nat set \<Rightarrow> (int \<times> int) set \<Rightarrow> imported_transaction
     \<Rightarrow> (nat \<times> string, imported_transaction list) dict \<Rightarrow> (nat \<times> string, imported_transaction list) dict"
where
  "groups_with matched months t grouped =
     (if month_key (tx_posted_date t) \<notin> months then grouped
      else if ct_classification (classify_bank_transaction matched t) \<noteq> External_outflow then grouped
      else let normalized = normalize_description (tx_original_description t); k = (tx_account_id t, normalized) in
        if normalized = [] then grouped else dict_set k (dict_get grouped k [] @ [t]) grouped)"

definition candidate_order :: "recurring_outflow_candidate \<Rightarrow> string \<times> string \<times> string" where
  "candidate_order c = (ro_safe_account_label c, casefold (ro_observed_description c), ro_candidate_id c)"

definition candidate_list ::
  "date \<Rightarrow> string \<Rightarrow> recurring_outflow_candidate list \<Rightarrow> string option \<Rightarrow> (cash_flow_error, recurring_outflow_candidate_list) result"
where
  "candidate_list observed_on state candidates reason =
     contract valid_candidate_list
       \<lparr>rl_state = state, rl_observed_on = observed_on, rl_candidates = candidates, rl_reason = reason\<rparr>"

definition recurring_outflow_candidates ::
  "(string \<Rightarrow> string) \<Rightarrow> outflow_db \<Rightarrow> date \<Rightarrow> (cash_flow_error, recurring_outflow_candidate_list) result"
where
  "recurring_outflow_candidates digest db observed_on =
     (let coverage = complete_observed_cash_months (od_cash db) in
      if ce_accounts coverage = [] then
        candidate_list observed_on ''unavailable'' [] (Some ''No supported checking or savings accounts establish coverage'')
      else if ce_months coverage = {} then
        candidate_list observed_on ''unavailable'' [] (Some ''No complete observed cash months establish candidate evidence'')
      else if card (ce_months coverage) < 3 then candidate_list observed_on ''empty'' [] None
      else
        let rows = outflow_rows db (ce_accounts coverage); labels = safe_account_labels (ce_accounts coverage);
            grouped = fold (groups_with (outflow_matched_ids db) (ce_months coverage)) rows []
        in bind_res (map_res (\<lambda>((a, n), ts). build_candidate digest db labels a n ts) (sort_key fst grouped)) (\<lambda>found.
             let candidates = concat (map (\<lambda>x. case x of None \<Rightarrow> [] | Some c \<Rightarrow> [c]) found)
             in candidate_list observed_on (if candidates = [] then ''empty'' else ''available'')
                  (sort_key candidate_order candidates) None))"

end
