(* ===== verification/Cash_Flow_Facts.thy ===== *)
theory Cash_Flow_Facts
  imports Cash_Flow
begin

text \<open>
  What a cash flow report promises: buckets add up, the months of the period partition its
  transactions, and every contract of the report is satisfied.
\<close>

section \<open>Buckets add up\<close>

abbreviation bucket_of_rows :: "nat set \<Rightarrow> account_transaction list \<Rightarrow> cash_flow_bucket" where
  "bucket_of_rows M rows \<equiv> fold add_classified (map (classify_bank_transaction M) rows) empty_bucket"

definition additive :: "(cash_flow_bucket \<Rightarrow> 'a :: comm_monoid_add) \<Rightarrow> bool" where
  "additive f \<longleftrightarrow> f empty_bucket = 0 \<and> (\<forall>c b. f (add_classified c b) = f b + f (add_classified c empty_bucket))"

named_theorems additive_fields \<open>the fields of a bucket that add up\<close>

lemma add_classified_fields:
  "bu_transaction_count (add_classified c b) = bu_transaction_count b + 1"
  "bu_external_cash_inflows (add_classified c b)
     = bu_external_cash_inflows b + (if ct_classification c = External_inflow then ct_amount c else 0)"
  "bu_interest_received (add_classified c b)
     = bu_interest_received b + (if ct_classification c = Interest_received then ct_amount c else 0)"
  "bu_external_cash_outflows (add_classified c b)
     = bu_external_cash_outflows b + (if ct_classification c = External_outflow then \<bar>ct_amount c\<bar> else 0)"
  "bu_fees_paid (add_classified c b) = bu_fees_paid b + (if ct_classification c = Fee_paid then \<bar>ct_amount c\<bar> else 0)"
  "bu_matched_owned_account_amount (add_classified c b)
     = bu_matched_owned_account_amount b + (if ct_classification c = Matched_owned_transfer then \<bar>ct_amount c\<bar> else 0)"
  "bu_internal_transfer_amount (add_classified c b)
     = bu_internal_transfer_amount b + (if ct_classification c = Internal_transfer then \<bar>ct_amount c\<bar> else 0)"
  "bu_matched_owned_account_count (add_classified c b)
     = bu_matched_owned_account_count b + (if ct_classification c = Matched_owned_transfer then 1 else 0)"
  "bu_internal_transfer_count (add_classified c b)
     = bu_internal_transfer_count b + (if ct_classification c = Internal_transfer then 1 else 0)"
  by (cases "ct_classification c"; simp add: add_classified_def Let_def)+

lemma empty_bucket_fields [simp]:
  "bu_transaction_count empty_bucket = 0" "bu_external_cash_inflows empty_bucket = 0"
  "bu_interest_received empty_bucket = 0" "bu_external_cash_outflows empty_bucket = 0" "bu_fees_paid empty_bucket = 0"
  "bu_matched_owned_account_amount empty_bucket = 0" "bu_internal_transfer_amount empty_bucket = 0"
  "bu_matched_owned_account_count empty_bucket = 0" "bu_internal_transfer_count empty_bucket = 0"
  by (simp_all add: empty_bucket_def)

lemmas bucket_sums = bucket_money_in_def bucket_money_out_def bucket_net_cash_flow_def

lemma additive_amounts [additive_fields]:
  "additive bu_external_cash_inflows" "additive bu_interest_received" "additive bu_external_cash_outflows"
  "additive bu_fees_paid" "additive bu_matched_owned_account_amount" "additive bu_internal_transfer_amount"
  "additive bucket_money_in" "additive bucket_money_out" "additive bucket_net_cash_flow"
  by (simp_all add: additive_def add_classified_fields bucket_sums)

lemma additive_counts [additive_fields]:
  "additive bu_matched_owned_account_count" "additive bu_internal_transfer_count" "additive bu_transaction_count"
  by (simp_all add: additive_def add_classified_fields)

lemma additive_empty: "additive f \<Longrightarrow> f empty_bucket = 0"
  unfolding additive_def by (rule conjunct1)

lemma additive_step: "additive f \<Longrightarrow> f (add_classified c b) = f b + f (add_classified c empty_bucket)"
  unfolding additive_def by blast

lemma additive_fold:
  assumes "additive f"
  shows "f (fold add_classified cs b) = f b + sum_list (map (\<lambda>c. f (add_classified c empty_bucket)) cs)"
proof (induction cs arbitrary: b)
  case (Cons c cs)
  have "f (fold add_classified (c # cs) b)
      = f (add_classified c b) + sum_list (map (\<lambda>c. f (add_classified c empty_bucket)) cs)"
    using Cons [of "add_classified c b"] by simp
  then show ?case unfolding additive_step [OF assms, of c b] by (simp add: add.assoc)
qed simp

lemma additive_rows:
  assumes "additive f"
  shows "f (bucket_of_rows M rows)
    = sum_list (map (\<lambda>t. f (add_classified (classify_bank_transaction M t) empty_bucket)) rows)"
  unfolding additive_fold [OF assms] additive_empty [OF assms] by (simp add: comp_def)

text \<open>What one row contributes.\<close>

definition nonneg_fields :: "(cash_flow_bucket \<Rightarrow> cents) set" where
  "nonneg_fields =
     {bu_external_cash_inflows, bu_interest_received, bu_external_cash_outflows, bu_fees_paid,
      bu_matched_owned_account_amount, bu_internal_transfer_amount}"

lemma row_class_sign:
  "ct_classification (classify_bank_transaction M t) = External_inflow \<Longrightarrow> 0 < tx_amount t"
  "ct_classification (classify_bank_transaction M t) = Interest_received \<Longrightarrow> 0 < tx_amount t"
  "ct_classification (classify_bank_transaction M t) = External_outflow \<Longrightarrow> tx_amount t < 0"
  "ct_classification (classify_bank_transaction M t) = Fee_paid \<Longrightarrow> tx_amount t < 0"
  "ct_classification (classify_bank_transaction M t) = Zero_activity \<Longrightarrow> tx_amount t = 0"
  by (simp_all add: classify_bank_transaction_def classification_of_def Let_def split: if_splits)

lemma classified_amount [simp]: "ct_amount (classify_bank_transaction M t) = tx_amount t"
  by (simp add: classify_bank_transaction_def Let_def)

lemma row_nonneg:
  "f \<in> nonneg_fields \<Longrightarrow> 0 \<le> f (add_classified (classify_bank_transaction M t) empty_bucket)"
  using row_class_sign [of M t] by (auto simp: nonneg_fields_def add_classified_fields)

lemma rows_nonneg:
  assumes "f \<in> nonneg_fields"
  shows "0 \<le> f (bucket_of_rows M rows)"
proof -
  have "additive f" using assms additive_amounts by (auto simp: nonneg_fields_def)
  then show ?thesis using row_nonneg [OF assms] by (auto simp: additive_rows intro!: sum_list_nonneg)
qed

lemma excluded_count_bound:
  "bu_matched_owned_account_count (bucket_of_rows M rows) + bu_internal_transfer_count (bucket_of_rows M rows)
     \<le> bu_transaction_count (bucket_of_rows M rows)"
  by (simp add: additive_rows additive_counts flip: sum_list_addf)
    (rule sum_list_mono, simp add: add_classified_fields)

section \<open>The aggregation\<close>

lemma aggregate_row_pair:
  "aggregate_row M t (w, d) =
     (add_classified (classify_bank_transaction M t) w,
      dict_set (month_text (tx_posted_date t))
        (add_classified (classify_bank_transaction M t) (dict_get d (month_text (tx_posted_date t)) empty_bucket)) d)"
  by (simp add: aggregate_row_def Let_def)

lemma aggregate_month:
  "dict_get (snd (fold (aggregate_row M) rows (w, d))) m empty_bucket
     = fold add_classified (map (classify_bank_transaction M) (filter (\<lambda>t. month_text (tx_posted_date t) = m) rows))
         (dict_get d m empty_bucket)"
  by (induction rows arbitrary: w d) (simp_all add: aggregate_row_pair)

lemma aggregate_whole:
  "fst (fold (aggregate_row M) rows (w, d)) = fold add_classified (map (classify_bank_transaction M) rows) w"
  by (induction rows arbitrary: w d) (simp_all add: aggregate_row_pair)

lemma aggregate_returns:
  assumes "s \<le> e"
  obtains ag where "aggregate_cash_flow db s e = Inr ag"
    and "ag_total ag = bucket_of_rows (matched_ids db) (bank_rows db s e)"
    and "\<And>m. dict_get (ag_monthly ag) m empty_bucket
      = bucket_of_rows (matched_ids db) (filter (\<lambda>t. month_text (tx_posted_date t) = m) (bank_rows db s e))"
proof -
  let ?M = "matched_ids db" and ?rows = "bank_rows db s e"
  obtain w d where f: "fold (aggregate_row ?M) ?rows (empty_bucket, []) = (w, d)" by fastforce
  have w: "w = bucket_of_rows ?M ?rows" using aggregate_whole [of ?M ?rows empty_bucket "[]"] by (simp add: f)
  have d: "dict_get d m empty_bucket = bucket_of_rows ?M (filter (\<lambda>t. month_text (tx_posted_date t) = m) ?rows)" for m
    using aggregate_month [of ?M ?rows empty_bucket "[]" m] by (simp add: f)
  from assms have "\<exists>ag. aggregate_cash_flow db s e = Inr ag \<and> ag_total ag = w \<and> ag_monthly ag = d"
    by (simp add: aggregate_cash_flow_def f Let_def not_less)
  with w d that show thesis by blast
qed

text \<open>A list grouped by distinct keys that cover it sums to the whole.\<close>

lemma sum_by_key:
  fixes h :: "'a \<Rightarrow> 'b :: comm_monoid_add"
  assumes "distinct ks" and "\<And>x. x \<in> set xs \<Longrightarrow> k x \<in> set ks"
  shows "sum_list (map (\<lambda>m. sum_list (map h (filter (\<lambda>x. k x = m) xs))) ks) = sum_list (map h xs)"
  using assms(2)
proof (induction xs)
  case (Cons x xs)
  have "sum_list (map (\<lambda>m. sum_list (map h (filter (\<lambda>y. k y = m) (x # xs)))) ks)
      = sum_list (map (\<lambda>m. (if k x = m then h x else 0) + sum_list (map h (filter (\<lambda>y. k y = m) xs))) ks)"
    by (rule arg_cong [where f = sum_list], rule map_cong [OF refl]) simp
  also have "\<dots> = sum_list (map (\<lambda>m. if k x = m then h x else 0) ks) + sum_list (map h xs)"
    using Cons by (simp add: sum_list_addf)
  also have "sum_list (map (\<lambda>m. if k x = m then h x else 0) ks) = h x"
    using Cons.prems [of x] assms(1)
    by (simp add: sum_list_distinct_conv_sum_set sum.delta)
  finally show ?case by simp
qed simp

section \<open>Months and their texts\<close>

lemma show_nat_inj: "show_nat a = show_nat b \<Longrightarrow> a = b"
  by (metis read_show_nat option.inject)

lemma two_digits_read: "0 \<le> n \<Longrightarrow> n < 100 \<Longrightarrow> read_digits 0 (two_digits n) = Some (nat n)"
proof -
  assume "0 \<le> n" "n < 100"
  then have k: "nat n div 10 mod 10 = nat n div 10" by simp
  have "10 * (nat n div 10) + nat n mod 10 = nat n" by (rule mult_div_mod_eq)
  moreover have "nat n mod 10 < 10" "nat n div 10 < 10" using \<open>n < 100\<close> by simp_all
  ultimately show ?thesis unfolding two_digits_def k by simp
qed

lemma two_digits_inj: "two_digits a = two_digits b \<Longrightarrow> 0 \<le> a \<Longrightarrow> a < 100 \<Longrightarrow> 0 \<le> b \<Longrightarrow> b < 100 \<Longrightarrow> a = b"
  using two_digits_read [of a] two_digits_read [of b] by simp

lemma two_digits_length [simp]: "length (two_digits n) = 2"
  by (simp add: two_digits_def)

lemma valid_date_month: "valid_date d \<Longrightarrow> 1 \<le> d_month d \<and> d_month d \<le> 12"
  by (simp add: valid_date_def)

lemma month_text_eq_iff:
  assumes "valid_date a" "valid_date b" "0 \<le> d_year a" "0 \<le> d_year b"
  shows "month_text a = month_text b \<longleftrightarrow> month_index a = month_index b"
proof
  assume "month_text a = month_text b"
  then have e: "show_nat (nat (d_year a)) @ ''-'' @ two_digits (d_month a)
      = show_nat (nat (d_year b)) @ ''-'' @ two_digits (d_month b)"
    by (simp add: month_text_def)
  have "length (''-'' @ two_digits (d_month a)) = length (''-'' @ two_digits (d_month b))" by simp
  with e have y: "show_nat (nat (d_year a)) = show_nat (nat (d_year b))"
    and m: "two_digits (d_month a) = two_digits (d_month b)"
    by (simp_all del: append.simps only: append_eq_append_conv simp_thms append_Cons append_Nil list.inject)
  from show_nat_inj [OF y] assms(3,4) have "d_year a = d_year b" by simp
  moreover have "d_month a = d_month b"
    using two_digits_inj [OF m] valid_date_month [OF assms(1)] valid_date_month [OF assms(2)] by linarith
  ultimately show "month_index a = month_index b" by (simp add: month_index_def)
next
  assume "month_index a = month_index b"
  with month_index_split [OF assms(1)] month_index_split [OF assms(2)]
  show "month_text a = month_text b" by (simp add: month_text_def)
qed

lemma month_text_start [simp]: "month_text (month_start d) = month_text d"
  by (simp add: month_text_def month_start_def)

lemma digit_char_is_digit: "d < 10 \<Longrightarrow> is_digit (digit_char d)"
  by (simp add: is_digit_def digit_char_def of_char_of)

lemma show_four_digits:
  assumes "1000 \<le> n" "n < 10000"
  shows "length (show_nat n) = 4 \<and> list_all is_digit (show_nat n)"
proof -
  have "n div 10 div 10 div 10 < 10" "\<not> n div 10 div 10 < 10" "\<not> n div 10 < 10" "\<not> n < 10"
    using assms by linarith+
  then have "show_nat n = [digit_char (n div 10 div 10 div 10), digit_char (n div 10 div 10 mod 10),
      digit_char (n div 10 mod 10), digit_char (n mod 10)]"
    by (simp add: show_nat.simps [of n] show_nat.simps [of "n div 10"] show_nat.simps [of "n div 10 div 10"]
        show_nat.simps [of "n div 10 div 10 div 10"])
  with \<open>n div 10 div 10 div 10 < 10\<close> show ?thesis by (simp add: digit_char_is_digit)
qed

lemma month_pattern_text:
  assumes "valid_date d" "1000 \<le> d_year d" "d_year d \<le> 9999"
  shows "month_pattern (month_text d)"
proof -
  have four: "length (show_nat (nat (d_year d))) = 4" "list_all is_digit (show_nat (nat (d_year d)))"
    using show_four_digits [of "nat (d_year d)"] assms by simp_all
  have "d_month d \<in> {1..12}" using valid_date_month [OF assms(1)] by simp
  then have "two_digits (d_month d) \<in> two_digits ` {1..12}" by (rule imageI)
  with four show ?thesis by (simp add: month_pattern_def month_text_def nth_append)
qed

lemma date_le_month_index: "valid_date a \<Longrightarrow> valid_date b \<Longrightarrow> a \<le> b \<Longrightarrow> month_index a \<le> month_index b"
  by (auto simp: less_eq_date_def month_index_def valid_date_def)

lemma date_le_year: "a \<le> b \<Longrightarrow> d_year a \<le> d_year b"
  by (auto simp: less_eq_date_def)

lemma months_from_returns:
  assumes "valid_date c" "valid_date e" "d_day c = 1" "d_year e < 9999"
  shows "\<exists>ms. months_from c e = Inr ms \<and> map month_index ms = [month_index c..month_index e]
    \<and> (\<forall>m \<in> set ms. valid_date m \<and> d_day m = 1)"
  using assms
proof (induction c e rule: months_from.induct)
  case (1 c e)
  show ?case
  proof (cases "c \<le> e")
    case True
    then have y: "d_year c < 9999" using date_le_year [OF True] 1(5) by simp
    with 1 True obtain ms where ms: "months_from (next_month c) e = Inr ms"
        "map month_index ms = [month_index c + 1..month_index e]" "\<forall>m \<in> set ms. valid_date m \<and> d_day m = 1"
      by auto
    have "month_index c \<le> month_index e" using 1 True by (intro date_le_month_index)
    then have "[month_index c..month_index e] = month_index c # [month_index c + 1..month_index e]"
      by (rule upto_rec1)
    with ms 1 True y show ?thesis by (simp add: months_from.simps [of c e])
  next
    case False
    have "month_index e < month_index c"
      using False 1(2,3,4) by (auto simp: less_eq_date_def month_index_def valid_date_def)
    with False show ?thesis by (simp add: months_from.simps [of c e])
  qed
qed

section \<open>Values and points that satisfy their contracts\<close>

lemma observed_money_returns [simp]:
  "ref \<noteq> [] \<Longrightarrow> observed_money a ref =
     Inr \<lparr>em_amount = Some a, em_evidence = Observed, em_source_refs = [ref], em_derivation = None,
          em_unavailable_reason = None\<rparr>"
  by (simp add: observed_money_def make_money_def contract_def valid_refs_def valid_reason_def valid_evidence_def)

lemma derived_money_returns [simp]:
  "ref \<noteq> [] \<Longrightarrow> derived_money a ref d =
     Inr \<lparr>em_amount = Some a, em_evidence = Derived, em_source_refs = [ref], em_derivation = Some d,
          em_unavailable_reason = None\<rparr>"
  by (simp add: derived_money_def make_money_def contract_def valid_refs_def valid_reason_def valid_evidence_def)

definition bucket_fields :: "((cash_flow_amounts \<Rightarrow> evidenced_money) \<times> (cash_flow_bucket \<Rightarrow> cents)) list" where
  "bucket_fields =
     [(fa_external_cash_inflows, bu_external_cash_inflows), (fa_interest_received, bu_interest_received),
      (fa_money_in, bucket_money_in), (fa_external_cash_outflows, bu_external_cash_outflows),
      (fa_fees_paid, bu_fees_paid), (fa_money_out, bucket_money_out), (fa_net_cash_flow, bucket_net_cash_flow)]"

definition reports :: "cash_flow_bucket \<Rightarrow> cash_flow_amounts \<Rightarrow> bool" where
  "reports b a \<longleftrightarrow> valid_cash_flow a \<and> (\<forall>(f, g) \<in> set bucket_fields. amount_of (f a) = g b)"

definition excludes :: "cash_flow_bucket \<Rightarrow> excluded_transfer_totals \<Rightarrow> bool" where
  "excludes b x \<longleftrightarrow> valid_exclusions x
     \<and> amount_of (xt_matched_owned_account_amount x) = bu_matched_owned_account_amount b
     \<and> amount_of (xt_internal_transfer_amount x) = bu_internal_transfer_amount b
     \<and> xt_matched_owned_account_count x = bu_matched_owned_account_count b
     \<and> xt_internal_transfer_count x = bu_internal_transfer_count b"

lemma amounts_of_returns:
  assumes "\<And>f. f \<in> nonneg_fields \<Longrightarrow> 0 \<le> f b"
  shows "\<exists>a. amounts_of b prefix = Inr a \<and> reports b a"
proof -
  have "0 \<le> bu_external_cash_inflows b" "0 \<le> bu_interest_received b" "0 \<le> bu_external_cash_outflows b" "0 \<le> bu_fees_paid b"
    using assms by (simp_all add: nonneg_fields_def)
  then show ?thesis
    by (simp add: amounts_of_def contract_def reports_def bucket_fields_def valid_cash_flow_def observed_nonneg_def
        amount_is_def amount_of_def derived_by_def bucket_sums Let_def)
qed

lemma transfers_of_returns:
  assumes "\<And>f. f \<in> nonneg_fields \<Longrightarrow> 0 \<le> f b"
  shows "\<exists>x. transfers_of b prefix = Inr x \<and> excludes b x"
proof -
  have "0 \<le> bu_matched_owned_account_amount b" "0 \<le> bu_internal_transfer_amount b"
    using assms by (simp_all add: nonneg_fields_def)
  then show ?thesis
    by (simp add: transfers_of_def contract_def excludes_def valid_exclusions_def observed_nonneg_def amount_is_def
        amount_of_def)
qed

definition point_of :: "selected_period \<Rightarrow> (string, cash_flow_bucket) dict \<Rightarrow> date \<Rightarrow> monthly_cash_flow_point \<Rightarrow> bool" where
  "point_of p d m pt \<longleftrightarrow> valid_point pt \<and> mp_start_date pt = max (pe_start_date p) m
     \<and> mp_end_date pt = min (pe_end_date p) (month_end m)
     \<and> mp_transaction_count pt = bu_transaction_count (dict_get d (month_text m) empty_bucket)
     \<and> reports (dict_get d (month_text m) empty_bucket) (mp_amounts pt)
     \<and> excludes (dict_get d (month_text m) empty_bucket) (mp_transfers_excluded pt)"

lemma day_in_month:
  assumes "valid_date d" "valid_date m" "d_day m = 1" "month_index d = month_index m"
  shows "m \<le> d" "d \<le> month_end m" "d_year d = d_year m" "d_month d = d_month m"
proof -
  show y: "d_year d = d_year m" "d_month d = d_month m"
    using month_index_split [OF assms(1)] month_index_split [OF assms(2)] assms(4) by simp_all
  show "m \<le> d" "d \<le> month_end m"
    using assms(1,3) y by (simp_all add: less_eq_date_def month_end_def valid_date_def)
qed

lemma month_end_fields [simp]:
  "d_year (month_end m) = d_year m" "d_month (month_end m) = d_month m" "month_index (month_end m) = month_index m"
  by (simp_all add: month_end_def month_index_def)

lemma earlier_month: "valid_date a \<Longrightarrow> valid_date b \<Longrightarrow> month_index a < month_index b \<Longrightarrow> a < b"
  using date_le_month_index [of b a] by fastforce

text \<open>The part of a month inside the period.\<close>

lemma clipped_month:
  assumes "valid_date s" "valid_date e" "s \<le> e" "valid_date m" "d_day m = 1"
    and "month_index s \<le> month_index m" "month_index m \<le> month_index e"
  defines "a \<equiv> max s m" and "b \<equiv> min e (month_end m)"
  shows "valid_date a" "valid_date b" "month_index a = month_index m" "month_index b = month_index m" "a \<le> b"
    "s \<le> a" "b \<le> e"
proof -
  show "valid_date a" "valid_date b" "s \<le> a" "b \<le> e"
    using assms(1,2,4) by (simp_all add: a_def b_def) (simp_all add: max_def min_def)
  show a: "month_index a = month_index m"
  proof (cases "s \<le> m")
    case True then show ?thesis by (simp add: a_def max_def)
  next
    case False
    then have "month_index m \<le> month_index s" using date_le_month_index [OF assms(4,1)] by simp
    with False assms(6) show ?thesis by (simp add: a_def max_def)
  qed
  show b: "month_index b = month_index m"
  proof (cases "e \<le> month_end m")
    case True
    then have "month_index e \<le> month_index m"
      using date_le_month_index [OF assms(2) month_end_valid [OF assms(4)]] by simp
    with True assms(7) show ?thesis by (simp add: b_def min_def)
  next
    case False then show ?thesis by (simp add: b_def min_def)
  qed
  have "a \<le> month_end m" using a assms(1,4,5) \<open>valid_date a\<close> by (intro day_in_month(2))
  moreover have "m \<le> b" using b assms(4,5) \<open>valid_date b\<close> by (intro day_in_month(1))
  moreover have "b \<le> e" by (simp add: b_def)
  ultimately show "a \<le> b" using assms(3) by (simp add: a_def b_def)
qed

lemma date_eq_iff: "a = b \<longleftrightarrow> d_year a = d_year b \<and> d_month a = d_month b \<and> d_day a = d_day b"
  by (cases a; cases b) simp

lemma monthly_point_returns:
  assumes p: "valid_date (pe_start_date p)" "valid_date (pe_end_date p)" "pe_start_date p \<le> pe_end_date p"
    and m: "valid_date m" "d_day m = 1" "month_index (pe_start_date p) \<le> month_index m"
      "month_index m \<le> month_index (pe_end_date p)" "1000 \<le> d_year m" "d_year m \<le> 9999"
    and b: "dict_get d (month_text m) empty_bucket = bucket_of_rows M rows"
  shows "\<exists>pt. monthly_point p d m = Inr pt \<and> point_of p d m pt"
proof -
  let ?s = "max (pe_start_date p) m" and ?e = "min (pe_end_date p) (month_end m)" and ?b = "bucket_of_rows M rows"
  let ?prefix = "''cash-flow:bank:'' @ month_text m @ '':'' @ isoformat ?s @ '':'' @ isoformat ?e"
  note c = clipped_month [OF p m(1-4)]
  obtain a where a: "amounts_of ?b ?prefix = Inr a" "reports ?b a"
    using amounts_of_returns [of ?b ?prefix] rows_nonneg by blast
  obtain x where x: "transfers_of ?b ?prefix = Inr x" "excludes ?b x"
    using transfers_of_returns [of ?b ?prefix] rows_nonneg by blast
  have sy: "d_year ?s = d_year m" "d_month ?s = d_month m" and ey: "d_year ?e = d_year m" "d_month ?e = d_month m"
    using month_index_split [OF c(1)] month_index_split [OF c(2)] month_index_split [OF m(1)] c(3,4) by simp_all
  have whole: "(?s = m) = (d_day ?s = 1)" "(?e = month_end m) = (d_day ?e = days_in_month (d_year ?e) (d_month ?e))"
    using sy ey m(2) unfolding date_eq_iff [of ?s m] date_eq_iff [of ?e "month_end m"] by (simp_all add: month_end_def)
  have label: "month_text ?s = month_text m" using sy by (simp add: month_text_def)
  have count: "xt_matched_owned_account_count x + xt_internal_transfer_count x \<le> bu_transaction_count ?b"
    using x(2) excluded_count_bound by (simp add: excludes_def)
  let ?pt = "\<lparr>mp_month = month_text m, mp_start_date = ?s, mp_end_date = ?e, mp_partial = (?s \<noteq> m \<or> ?e \<noteq> month_end m),
           mp_transaction_count = bu_transaction_count ?b, mp_amounts = a, mp_transfers_excluded = x\<rparr>"
  have valid: "valid_point ?pt"
    unfolding valid_point_def
    using month_pattern_text [OF m(1,5,6)] c(5) sy ey whole label count by simp
  then have "monthly_point p d m = Inr ?pt"
    unfolding monthly_point_def Let_def b a(1) x(1) bind_res_simps contract_def by (simp only: if_True)
  moreover have "point_of p d m ?pt" using valid a(2) x(2) by (simp add: point_of_def b)
  ultimately show ?thesis by blast
qed

text \<open>A body that returns on every element returns all of its results.\<close>

lemma map_res_returns:
  assumes "\<And>x. x \<in> set xs \<Longrightarrow> \<exists>y. f x = Inr y \<and> P x y"
  shows "\<exists>ys. map_res f xs = Inr ys \<and> list_all2 P xs ys"
  using assms
proof (induction xs)
  case (Cons x xs)
  then obtain y ys where "f x = Inr y" "P x y" "map_res f xs = Inr ys" "list_all2 P xs ys" by fastforce
  then show ?case by simp
qed simp

lemma sum_list_all2: "list_all2 P xs ys \<Longrightarrow> (\<And>x y. P x y \<Longrightarrow> f x = g y) \<Longrightarrow> sum_list (map f xs) = sum_list (map g ys)"
  by (induction rule: list_all2_induct) simp_all

text \<open>The points of consecutive months follow each other.\<close>

lemma points_of_ordered:
  assumes "list_all2 (point_of p d) ms pts" and "map month_index ms = [i..j]"
    and "\<And>m. m \<in> set ms \<Longrightarrow> valid_date m"
    and "\<And>e. previous = Some e \<Longrightarrow> (\<forall>m \<in> set ms. e < m)"
  shows "points_ordered previous pts"
  using assms
proof (induction ms pts arbitrary: previous i rule: list_all2_induct)
  case (Cons m ms pt pts)
  from Cons.prems(1) have i: "i \<le> j" "month_index m = i" "map month_index ms = [i + 1..j]"
    by (cases "i \<le> j"; simp add: upto_rec1)+
  have later: "month_end m < n" if "n \<in> set ms" for n
  proof (rule earlier_month)
    have "month_index n \<in> set (map month_index ms)" using that by simp
    then show "month_index (month_end m) < month_index n" using i(2) unfolding i(3) by simp
  qed (use Cons.prems(2) that in simp_all)
  have "points_ordered (Some (mp_end_date pt)) pts"
  proof (rule Cons.IH [OF i(3)])
    show "valid_date n" if "n \<in> set ms" for n using Cons.prems(2) that by simp
    show "\<forall>n \<in> set ms. e < n" if "Some (mp_end_date pt) = Some e" for e
    proof
      fix n assume "n \<in> set ms"
      have "e \<le> month_end m" using that Cons.hyps(1) by (simp add: point_of_def)
      also have "\<dots> < n" by (rule later [OF \<open>n \<in> set ms\<close>])
      finally show "e < n" .
    qed
  qed
  moreover have "e < mp_start_date pt" if "previous = Some e" for e
    using Cons.prems(3) [OF that] Cons.hyps(1) by (auto simp: point_of_def max_def)
  ultimately show ?case by (cases previous) simp_all
qed simp

section \<open>The whole report\<close>

lemma fold_min_max: "fold min xs x \<le> (x :: 'a :: linorder)" "x \<le> fold max xs x"
proof (induction xs arbitrary: x)
  case (Cons y ys)
  case 1 from Cons(1) [of "min y x"] show ?case by simp
  case 2 from Cons(2) [of "max y x"] show ?case by simp
qed simp_all

lemma imported_ordered: "imported_bank_coverage db = Some (a, b) \<Longrightarrow> a \<le> b"
  unfolding imported_bank_coverage_def by (auto split: list.splits intro: order_trans [OF fold_min_max])

lemma stable_unique_Nil [simp]: "stable_unique xs = [] \<longleftrightarrow> xs = []"
  by (simp add: stable_unique_def)

lemma resolved_period:
  assumes "resolve_period kind as_of imported sd ed = Inr p"
  shows "valid_period p" "pe_start_date p \<le> pe_end_date p"
    "pe_kind p = All_imported_history \<Longrightarrow> imported = Some (pe_start_date p, pe_end_date p)"
  using assms
  by (auto simp: resolve_period_def resolved_ends_def contract_def valid_period_def bind_res_Inr_iff
      split: if_splits period_kind.splits option.splits)

lemma coverage_value_fields [simp]:
  "cv_coverage_start (coverage_value p imported ag) = fst (coverage_ends p imported)"
  "cv_coverage_end (coverage_value p imported ag) = snd (coverage_ends p imported)"
  "cv_transaction_count (coverage_value p imported ag) = bu_transaction_count (ag_total ag)"
  "cv_opening_month (coverage_value p imported ag) = opening_state (pe_start_date p)"
  "cv_closing_month (coverage_value p imported ag) = closing_state (pe_end_date p)"
  by (simp_all add: coverage_value_def case_prod_unfold Let_def)

lemma coverage_ends_inside:
  assumes "pe_start_date p \<le> pe_end_date p"
    and "imported = None \<or> (\<exists>a b. imported = Some (a, b) \<and> a \<le> b)"
  shows "fst (coverage_ends p imported) \<le> snd (coverage_ends p imported)"
    "pe_start_date p \<le> fst (coverage_ends p imported)" "snd (coverage_ends p imported) \<le> pe_end_date p"
  using assms by (auto simp: coverage_ends_def Let_def not_less)

lemma coverage_value_valid:
  assumes "pe_start_date p \<le> pe_end_date p"
    and "imported = None \<or> (\<exists>a b. imported = Some (a, b) \<and> a \<le> b)"
  shows "valid_coverage (coverage_value p imported ag)"
proof -
  have "cv_completeness (coverage_value p imported ag) = Complete_coverage
      \<longleftrightarrow> cv_incomplete_reasons (coverage_value p imported ag) = []"
    by (simp add: coverage_value_def case_prod_unfold Let_def)
  then show ?thesis using coverage_ends_inside(1) [OF assms] by (simp add: valid_coverage_def)
qed

lemma coverage_whole:
  "pe_start_date p \<le> pe_end_date p \<Longrightarrow> coverage_ends p (Some (pe_start_date p, pe_end_date p)) = (pe_start_date p, pe_end_date p)"
  by (simp add: coverage_ends_def Let_def flip: not_le)

lemma freshness_value_valid: "mo_aware now \<Longrightarrow> valid_freshness (freshness_value stale c now)"
  by (cases "cv_completeness c"; cases "stale = []") (simp_all add: freshness_value_def valid_freshness_def Let_def)

lemma months_sum:
  assumes "additive g" "distinct (map month_text ms)"
    and "\<And>t. t \<in> set rows \<Longrightarrow> month_text (tx_posted_date t) \<in> month_text ` set ms"
  shows "sum_list (map (\<lambda>m. g (bucket_of_rows M (filter (\<lambda>t. month_text (tx_posted_date t) = month_text m) rows))) ms)
    = g (bucket_of_rows M rows)"
proof -
  let ?h = "\<lambda>t. g (add_classified (classify_bank_transaction M t) empty_bucket)"
  have "sum_list (map (\<lambda>x. sum_list (map ?h (filter (\<lambda>t. month_text (tx_posted_date t) = x) rows))) (map month_text ms))
      = sum_list (map ?h rows)"
    using assms(2,3) by (intro sum_by_key) simp_all
  then show ?thesis unfolding additive_rows [OF assms(1)] by (simp add: comp_def)
qed

lemma valid_row_month:
  assumes "valid_date s" "valid_date e" "0 \<le> d_year s" "valid_date d" "s \<le> d" "d \<le> e"
    and "map month_index ms = [month_index s..month_index e]" "\<forall>m \<in> set ms. valid_date m \<and> d_day m = 1"
  shows "month_text d \<in> month_text ` set ms"
proof -
  have "month_index d \<in> {month_index s..month_index e}"
    using date_le_month_index [OF assms(1,4,5)] date_le_month_index [OF assms(4,2,6)] by simp
  then have "month_index d \<in> month_index ` set ms" using assms(7) by (metis list.set_map set_upto)
  then obtain m where m: "m \<in> set ms" "month_index d = month_index m" by blast
  then have "d_year d = d_year m" "d_month d = d_month m"
    using assms(8) month_index_split [OF assms(4)] month_index_split [of m] by simp_all
  then have "month_text d = month_text m" by (simp add: month_text_def)
  with m(1) show ?thesis by (rule image_eqI [rotated])
qed

lemma bank_rows_mem:
  "t \<in> set (bank_rows db s e) \<longleftrightarrow> t \<in> set (fd_transactions db) \<and> is_bank_row db t \<and> s \<le> tx_posted_date t \<and> tx_posted_date t \<le> e"
  by (simp add: bank_rows_def)

lemma month_texts_distinct:
  assumes "map month_index ms = [i..j]" "\<forall>m \<in> set ms. valid_date m \<and> 0 \<le> d_year m"
  shows "distinct (map month_text ms)"
proof -
  have d: "distinct (map month_index ms)" unfolding assms(1) by (rule distinct_upto)
  have "inj_on month_text (set ms)"
  proof (rule inj_onI)
    fix a b assume ab: "a \<in> set ms" "b \<in> set ms" "month_text a = month_text b"
    then have "month_index a = month_index b" using month_text_eq_iff assms(2) by blast
    with d ab(1,2) show "a = b" by (simp add: distinct_map inj_on_def)
  qed
  with d show ?thesis by (simp add: distinct_map)
qed

lemma months_of_period:
  assumes "valid_date (pe_start_date p)" "valid_date (pe_end_date p)" "pe_start_date p \<le> pe_end_date p"
    and "1000 \<le> d_year (pe_start_date p)" "d_year (pe_end_date p) < 9999"
  obtains ms where "cash_flow_months (pe_start_date p) (pe_end_date p) = Inr ms"
    and "map month_index ms = [month_index (pe_start_date p)..month_index (pe_end_date p)]"
    and "ms \<noteq> []" "\<forall>m \<in> set ms. valid_date m \<and> d_day m = 1 \<and> 1000 \<le> d_year m \<and> d_year m \<le> 9999
      \<and> month_index (pe_start_date p) \<le> month_index m \<and> month_index m \<le> month_index (pe_end_date p)"
proof -
  let ?i = "month_index (pe_start_date p)" and ?j = "month_index (pe_end_date p)"
  obtain ms where ms: "months_from (month_start (pe_start_date p)) (pe_end_date p) = Inr ms"
      "map month_index ms = [?i..?j]" "\<forall>m \<in> set ms. valid_date m \<and> d_day m = 1"
    using months_from_returns [of "month_start (pe_start_date p)" "pe_end_date p"] assms by auto
  have "?i \<le> ?j" by (rule date_le_month_index [OF assms(1-3)])
  then have "ms \<noteq> []" using ms(2) by auto
  moreover have "1000 \<le> d_year m \<and> d_year m \<le> 9999 \<and> ?i \<le> month_index m \<and> month_index m \<le> ?j" if "m \<in> set ms" for m
  proof -
    have "month_index m \<in> set (map month_index ms)" using that by simp
    then have b: "?i \<le> month_index m" "month_index m \<le> ?j" unfolding ms(2) by simp_all
    have "d_year m = month_index m div 12" "d_year (pe_start_date p) = ?i div 12" "d_year (pe_end_date p) = ?j div 12"
      using month_index_split assms(1,2) ms(3) that by blast+
    then have "d_year (pe_start_date p) \<le> d_year m" "d_year m \<le> d_year (pe_end_date p)"
      using b by (simp_all add: zdiv_mono1)
    with assms(4,5) b show ?thesis by simp
  qed
  ultimately show thesis using that [of ms] ms by (simp add: cash_flow_months_def)
qed

lemma bucket_fields_additive: "(f, g) \<in> set bucket_fields \<Longrightarrow> additive g"
  using additive_amounts by (auto simp: bucket_fields_def)

lemma point_field: "point_of p d m pt \<Longrightarrow> (f, g) \<in> set bucket_fields
    \<Longrightarrow> g (dict_get d (month_text m) empty_bucket) = amount_of (f (mp_amounts pt))"
  using bspec [of "set bucket_fields" "\<lambda>(f, g). amount_of (f (mp_amounts pt)) = g (dict_get d (month_text m) empty_bucket)" "(f, g)"]
  by (simp add: point_of_def reports_def)

lemma months_reconcile_points:
  assumes pts: "list_all2 (point_of p d) ms pts"
    and month: "\<And>g :: cash_flow_bucket \<Rightarrow> cents. additive g \<Longrightarrow> sum_list (map (\<lambda>m. g (dict_get d (month_text m) empty_bucket)) ms) = g b"
      "\<And>g :: cash_flow_bucket \<Rightarrow> nat. additive g \<Longrightarrow> sum_list (map (\<lambda>m. g (dict_get d (month_text m) empty_bucket)) ms) = g b"
    and whole: "reports b (pr_totals r)" "excludes b (pr_transfers_excluded r)"
      "cv_transaction_count (pr_coverage r) = bu_transaction_count b" "pr_monthly_points r = pts"
  shows "months_reconcile r"
proof -
  have fields: "sum_list (map (\<lambda>p. amount_of (f (mp_amounts p))) pts) = amount_of (f (pr_totals r))"
    if "(f, g) \<in> set bucket_fields" for f g
  proof -
    have "sum_list (map (\<lambda>p. amount_of (f (mp_amounts p))) pts)
        = sum_list (map (\<lambda>m. g (dict_get d (month_text m) empty_bucket)) ms)"
      by (rule sum_list_all2 [OF pts, symmetric]) (rule point_field [OF _ that])
    also have "\<dots> = g b" by (rule month(1) [OF bucket_fields_additive [OF that]])
    also have "\<dots> = amount_of (f (pr_totals r))" using whole(1) that by (auto simp: reports_def)
    finally show ?thesis .
  qed
  have all: "amount_fields = map fst bucket_fields" by (simp add: amount_fields_def bucket_fields_def)
  have amounts: "list_all (\<lambda>f. sum_list (map (\<lambda>p. amount_of (f (mp_amounts p))) pts) = amount_of (f (pr_totals r))) amount_fields"
    unfolding all list_all_iff set_map using fields by auto
  have sum_of: "sum_list (map h pts) = g b"
    if "additive g" "\<And>m pt. point_of p d m pt \<Longrightarrow> g (dict_get d (month_text m) empty_bucket) = h pt"
    for g :: "cash_flow_bucket \<Rightarrow> cents" and h
    using sum_list_all2 [OF pts, of "\<lambda>m. g (dict_get d (month_text m) empty_bucket)" h] that month(1) by simp
  have count_of: "sum_list (map h pts) = g b"
    if "additive g" "\<And>m pt. point_of p d m pt \<Longrightarrow> g (dict_get d (month_text m) empty_bucket) = h pt"
    for g :: "cash_flow_bucket \<Rightarrow> nat" and h
    using sum_list_all2 [OF pts, of "\<lambda>m. g (dict_get d (month_text m) empty_bucket)" h] that month(2) by simp
  have "sum_list (map (\<lambda>pt. amount_of (xt_matched_owned_account_amount (mp_transfers_excluded pt))) pts)
      = bu_matched_owned_account_amount b"
    "sum_list (map (\<lambda>pt. amount_of (xt_internal_transfer_amount (mp_transfers_excluded pt))) pts)
      = bu_internal_transfer_amount b"
    by (rule sum_of, rule additive_amounts, simp add: point_of_def excludes_def)+
  moreover have "sum_list (map (\<lambda>pt. xt_matched_owned_account_count (mp_transfers_excluded pt)) pts)
      = bu_matched_owned_account_count b"
    "sum_list (map (\<lambda>pt. xt_internal_transfer_count (mp_transfers_excluded pt)) pts) = bu_internal_transfer_count b"
    "sum_list (map mp_transaction_count pts) = bu_transaction_count b"
    by (rule count_of, rule additive_counts, simp add: point_of_def excludes_def)+
  ultimately show ?thesis
    using amounts whole(2,3) by (simp add: months_reconcile_def Let_def whole(4) comp_def excludes_def)
qed

text \<open>
  What a built report is made of.
\<close>

definition report_of :: "cash_flow_db \<Rightarrow> selected_period \<Rightarrow> cash_flow_period_result \<Rightarrow> bool" where
  "report_of db p r \<longleftrightarrow>
     (let b = bucket_of_rows (matched_ids db) (bank_rows db (pe_start_date p) (pe_end_date p)) in
      pr_period r = p \<and> reports b (pr_totals r) \<and> excludes b (pr_transfers_excluded r)
      \<and> cv_transaction_count (pr_coverage r) = bu_transaction_count b)"

lemma contract_returns: "valid x \<Longrightarrow> contract valid x = Inr x"
  by (simp add: contract_def)

lemma report_built:
  assumes now: "mo_aware now"
    and period: "resolve_period kind as_of (imported_bank_coverage db) sd ed = Inr p"
    and dates: "valid_date (pe_start_date p)" "valid_date (pe_end_date p)" "1000 \<le> d_year (pe_start_date p)"
      "d_year (pe_end_date p) < 9999"
    and posted: "\<forall>t \<in> set (fd_transactions db). valid_date (tx_posted_date t)"
  obtains r where "build_cash_flow_period_result db kind as_of now sd ed = Inr r" "report_of db p r"
    "valid_period_result r" "list_all valid_point (pr_monthly_points r)" "valid_coverage (pr_coverage r)"
    "valid_freshness (pr_freshness r)"
proof -
  let ?imported = "imported_bank_coverage db" and ?M = "matched_ids db"
  let ?rows = "bank_rows db (pe_start_date p) (pe_end_date p)"
  let ?prefix = "''cash-flow:bank:'' @ isoformat (pe_start_date p) @ '':'' @ isoformat (pe_end_date p)"
  note res = resolved_period [OF period]
  obtain ag where ag: "aggregate_cash_flow db (pe_start_date p) (pe_end_date p) = Inr ag"
      "ag_total ag = bucket_of_rows ?M ?rows"
      "\<And>m. dict_get (ag_monthly ag) m empty_bucket
        = bucket_of_rows ?M (filter (\<lambda>t. month_text (tx_posted_date t) = m) ?rows)"
    using aggregate_returns [OF res(2)] by blast
  have imp: "?imported = None \<or> (\<exists>a b. ?imported = Some (a, b) \<and> a \<le> b)"
    using imported_ordered by (cases ?imported) auto
  let ?c = "coverage_value p ?imported ag" and ?f = "freshness_value (stale_sources db as_of) (coverage_value p ?imported ag) now"
  have c: "valid_coverage ?c" by (rule coverage_value_valid [OF res(2) imp])
  have f: "valid_freshness ?f" by (rule freshness_value_valid [OF now])
  obtain ms where ms: "cash_flow_months (pe_start_date p) (pe_end_date p) = Inr ms"
      "map month_index ms = [month_index (pe_start_date p)..month_index (pe_end_date p)]" "ms \<noteq> []"
      "\<forall>m \<in> set ms. valid_date m \<and> d_day m = 1 \<and> 1000 \<le> d_year m \<and> d_year m \<le> 9999
        \<and> month_index (pe_start_date p) \<le> month_index m \<and> month_index m \<le> month_index (pe_end_date p)"
    using months_of_period [OF dates(1,2) res(2) dates(3,4)] by blast
  have each: "\<exists>pt. monthly_point p (ag_monthly ag) m = Inr pt \<and> point_of p (ag_monthly ag) m pt" if "m \<in> set ms" for m
    using ms(4) that by (intro monthly_point_returns [OF dates(1,2) res(2) _ _ _ _ _ _ ag(3)]) blast+
  have "\<exists>pts. map_res (monthly_point p (ag_monthly ag)) ms = Inr pts \<and> list_all2 (point_of p (ag_monthly ag)) ms pts"
    by (rule map_res_returns) (rule each)
  then obtain pts where pts: "map_res (monthly_point p (ag_monthly ag)) ms = Inr pts"
      "list_all2 (point_of p (ag_monthly ag)) ms pts"
    by blast
  obtain a where a: "amounts_of (ag_total ag) ?prefix = Inr a" "reports (ag_total ag) a"
    using amounts_of_returns [of "ag_total ag" ?prefix] rows_nonneg unfolding ag(2) by blast
  obtain x where x: "transfers_of (ag_total ag) ?prefix = Inr x" "excludes (ag_total ag) x"
    using transfers_of_returns [of "ag_total ag" ?prefix] rows_nonneg unfolding ag(2) by blast
  let ?w = "stable_unique (stable_unique (map snd (coverage_doubts p ?imported)) @ ag_warnings ag @ fr_warnings ?f)"
  let ?r = "\<lparr>pr_period = p, pr_coverage = ?c, pr_totals = a, pr_monthly_points = pts, pr_transfers_excluded = x,
      pr_freshness = ?f, pr_warnings = ?w\<rparr>"
  have in_months: "month_text (tx_posted_date t) \<in> month_text ` set ms" if "t \<in> set ?rows" for t
    using that posted ms(4) dates(3) unfolding bank_rows_mem
    by (intro valid_row_month [OF dates(1,2) _ _ _ _ ms(2)]) auto
  have texts: "distinct (map month_text ms)" using ms(4) by (intro month_texts_distinct [OF ms(2)]) auto
  have reconcile: "months_reconcile ?r"
  proof (rule months_reconcile_points [OF pts(2)])
    show "sum_list (map (\<lambda>m. g (dict_get (ag_monthly ag) (month_text m) empty_bucket)) ms) = g (ag_total ag)"
      if "additive g" for g :: "cash_flow_bucket \<Rightarrow> cents"
      unfolding ag(2,3) by (rule months_sum [OF that texts in_months])
    show "sum_list (map (\<lambda>m. g (dict_get (ag_monthly ag) (month_text m) empty_bucket)) ms) = g (ag_total ag)"
      if "additive g" for g :: "cash_flow_bucket \<Rightarrow> nat"
      unfolding ag(2,3) by (rule months_sum [OF that texts in_months])
  qed (use a(2) x(2) in simp_all)
  have ordered: "points_ordered None pts" using ms(4) by (intro points_of_ordered [OF pts(2) ms(2)]) simp_all
  have inside: "list_all (\<lambda>m. pe_start_date p \<le> mp_start_date m \<and> mp_start_date m \<le> mp_end_date m
      \<and> mp_end_date m \<le> pe_end_date p) pts"
    and points: "list_all valid_point pts"
    using pts(2) by (auto simp: list_all_length list_all2_conv_all_nth point_of_def valid_point_def)
  have "pts \<noteq> []" using pts(2) ms(3) by auto
  moreover have "pe_kind p = All_imported_history \<Longrightarrow> coverage_ends p ?imported = (pe_start_date p, pe_end_date p)"
    using coverage_whole [OF res(2)] res(3) by simp
  ultimately have valid: "valid_period_result ?r"
    unfolding valid_period_result_def
    using coverage_ends_inside [OF res(2) imp] reconcile ordered inside by (simp add: Let_def)
  have built: "build_cash_flow_period_result db kind as_of now sd ed = Inr ?r"
    by (simp only: build_cash_flow_period_result_def Let_def period bind_res_simps ag(1) coverage_of_def freshness_of_def
        ms(1) pts(1) a(1) x(1) contract_returns [of valid_coverage, OF c] contract_returns [of valid_freshness, OF f] contract_returns [of valid_period_result, OF valid] prod.case now
        simp_thms if_False)
  show thesis
    by (rule that [OF built]) (use valid points c f a(2) x(2) ag(2) in \<open>simp_all add: report_of_def Let_def\<close>)
qed

text \<open>
  C14: Whenever the period can be resolved, the report is built: each of the contracts of
  \<open>v21_contracts.py\<close> it is made of is satisfied. In particular the months do not overlap, stay
  inside the period and reconcile to the totals, field by field, counts included. The years are
  those \<open>strftime\<close> writes with four digits and a following month exists for.
\<close>

theorem cash_flow_report_valid:
  assumes "mo_aware now"
    and "resolve_period kind as_of (imported_bank_coverage db) start_date end_date = Inr p"
    and "valid_date (pe_start_date p)" "valid_date (pe_end_date p)"
    and "1000 \<le> d_year (pe_start_date p)" "d_year (pe_end_date p) < 9999"
    and "\<forall>t \<in> set (fd_transactions db). valid_date (tx_posted_date t)"
  shows "\<exists>r. build_cash_flow_period_result db kind as_of now start_date end_date = Inr r
    \<and> pr_period r = p \<and> valid_period p \<and> valid_period_result r \<and> valid_coverage (pr_coverage r)
    \<and> valid_freshness (pr_freshness r) \<and> valid_cash_flow (pr_totals r) \<and> valid_exclusions (pr_transfers_excluded r)
    \<and> list_all valid_point (pr_monthly_points r)"
proof -
  obtain r where "build_cash_flow_period_result db kind as_of now start_date end_date = Inr r" "report_of db p r"
    "valid_period_result r" "list_all valid_point (pr_monthly_points r)" "valid_coverage (pr_coverage r)"
    "valid_freshness (pr_freshness r)"
    by (rule report_built [OF assms])
  then show ?thesis using resolved_period(1) [OF assms(2)]
    by (intro exI [of _ r]) (simp add: report_of_def reports_def excludes_def Let_def)
qed

text \<open>The rows of the period, and those that are neither matched nor internal transfers.\<close>

definition in_period :: "cash_flow_db \<Rightarrow> selected_period \<Rightarrow> account_transaction \<Rightarrow> bool" where
  "in_period db p t \<longleftrightarrow> is_bank_row db t \<and> pe_start_date p \<le> tx_posted_date t \<and> tx_posted_date t \<le> pe_end_date p"

definition counts_as_flow :: "cash_flow_db \<Rightarrow> selected_period \<Rightarrow> account_transaction \<Rightarrow> bool" where
  "counts_as_flow db p t \<longleftrightarrow> in_period db p t \<and> tx_id t \<notin> matched_ids db \<and> tx_role t \<noteq> ''internal_transfer''"

lemma row_flow:
  "bucket_money_in (add_classified (classify_bank_transaction M t) empty_bucket)
     = (if tx_id t \<notin> M \<and> tx_role t \<noteq> ''internal_transfer'' then max 0 (tx_amount t) else 0)"
  "bucket_money_out (add_classified (classify_bank_transaction M t) empty_bucket)
     = (if tx_id t \<notin> M \<and> tx_role t \<noteq> ''internal_transfer'' then max 0 (- tx_amount t) else 0)"
  by (simp_all add: bucket_sums add_classified_fields)
    (simp_all add: classify_bank_transaction_def classification_of_def Let_def)

lemma sum_list_if: "sum_list (map (\<lambda>t. if P t then h t else 0) xs) = sum_list (map h (filter P xs))"
  for h :: "'a \<Rightarrow> 'b :: comm_monoid_add"
  by (induction xs) simp_all

lemma sum_list_sort_key: "sum_list (map h (sort_key k xs)) = sum_list (map h xs)"
  for h :: "'a \<Rightarrow> 'b :: comm_monoid_add"
  by (metis mset_map_sort_key sum_mset_sum_list)

lemma amounts_of_reports:
  assumes "amounts_of (bucket_of_rows M rows) prefix = Inr a"
  shows "reports (bucket_of_rows M rows) a"
proof -
  have "\<exists>a. amounts_of (bucket_of_rows M rows) prefix = Inr a \<and> reports (bucket_of_rows M rows) a"
    by (rule amounts_of_returns) (rule rows_nonneg)
  with assms show ?thesis by simp
qed

lemma transfers_of_excludes:
  assumes "transfers_of (bucket_of_rows M rows) prefix = Inr x"
  shows "excludes (bucket_of_rows M rows) x"
proof -
  have "\<exists>x. transfers_of (bucket_of_rows M rows) prefix = Inr x \<and> excludes (bucket_of_rows M rows) x"
    by (rule transfers_of_returns) (rule rows_nonneg)
  with assms show ?thesis by simp
qed

lemma built_report:
  assumes "build_cash_flow_period_result db kind as_of now sd ed = Inr r"
  shows "report_of db (pr_period r) r"
proof -
  have now: "mo_aware now" using assms by (simp add: build_cash_flow_period_result_def split: if_splits)
  then have aware: "(\<not> mo_aware now) = False" by simp
  from assms [unfolded build_cash_flow_period_result_def Let_def case_prod_unfold aware if_False] show ?thesis
  proof (elim bind_res_InrE, goal_cases)
    case (1 p ag c f ms pts a x)
    have ordered: "pe_start_date p \<le> pe_end_date p" by (rule resolved_period(2) [OF 1(1)])
    let ?b = "bucket_of_rows (matched_ids db) (bank_rows db (pe_start_date p) (pe_end_date p))"
    have total: "ag_total ag = ?b"
      by (rule aggregate_returns [OF ordered, of db]) (simp add: 1(2))
    have "fst c = coverage_value p (imported_bank_coverage db) ag"
      using 1(3) by (auto simp: coverage_of_def contract_def split: if_splits)
    moreover have "reports ?b a" by (rule amounts_of_reports [OF 1(7) [unfolded total]])
    moreover have "excludes ?b x" by (rule transfers_of_excludes [OF 1(8) [unfolded total]])
    ultimately show ?case using 1(9) total
      by (auto simp: contract_def report_of_def Let_def split: if_splits)
  qed
qed

lemma report_totals:
  assumes "report_of db p r"
  shows "amount_of (fa_money_in (pr_totals r)) = sum_list (map (\<lambda>t. max 0 (tx_amount t)) (filter (counts_as_flow db p) (fd_transactions db)))"
    "amount_of (fa_money_out (pr_totals r)) = sum_list (map (\<lambda>t. max 0 (- tx_amount t)) (filter (counts_as_flow db p) (fd_transactions db)))"
    "amount_of (fa_net_cash_flow (pr_totals r)) = sum_list (map tx_amount (filter (counts_as_flow db p) (fd_transactions db)))"
    "cv_transaction_count (pr_coverage r) = length (filter (in_period db p) (fd_transactions db))"
proof -
  let ?M = "matched_ids db" and ?rows = "bank_rows db (pe_start_date p) (pe_end_date p)"
  have rep: "reports (bucket_of_rows ?M ?rows) (pr_totals r)"
      "cv_transaction_count (pr_coverage r) = bu_transaction_count (bucket_of_rows ?M ?rows)"
    using assms by (simp_all add: report_of_def Let_def)
  have rows: "?rows = sort_key (\<lambda>t. (tx_posted_date t, tx_id t)) (filter (in_period db p) (fd_transactions db))"
    by (simp add: bank_rows_def in_period_def [abs_def])
  have sum_of: "g (bucket_of_rows ?M ?rows) = sum_list (map h (filter (counts_as_flow db p) (fd_transactions db)))"
    if g: "additive g" and h: "\<And>t. g (add_classified (classify_bank_transaction ?M t) empty_bucket)
      = (if tx_id t \<notin> ?M \<and> tx_role t \<noteq> ''internal_transfer'' then h t else 0)"
    for g :: "cash_flow_bucket \<Rightarrow> cents" and h
    unfolding additive_rows [OF g] h rows sum_list_if filter_sort sum_list_sort_key filter_filter
    by (rule arg_cong [where f = "\<lambda>P. sum_list (map h (filter P (fd_transactions db)))"])
      (simp add: fun_eq_iff counts_as_flow_def conj_commute)
  show "amount_of (fa_money_in (pr_totals r)) = sum_list (map (\<lambda>t. max 0 (tx_amount t)) (filter (counts_as_flow db p) (fd_transactions db)))"
    "amount_of (fa_money_out (pr_totals r)) = sum_list (map (\<lambda>t. max 0 (- tx_amount t)) (filter (counts_as_flow db p) (fd_transactions db)))"
    using rep(1) sum_of [OF additive_amounts(7) row_flow(1)] sum_of [OF additive_amounts(8) row_flow(2)]
    by (simp_all add: reports_def bucket_fields_def)
  have "bucket_net_cash_flow (add_classified (classify_bank_transaction ?M t) empty_bucket)
      = (if tx_id t \<notin> ?M \<and> tx_role t \<noteq> ''internal_transfer'' then tx_amount t else 0)" for t
    unfolding bucket_net_cash_flow_def row_flow by (simp add: max_def)
  with rep(1) sum_of [OF additive_amounts(9) this]
  show "amount_of (fa_net_cash_flow (pr_totals r)) = sum_list (map tx_amount (filter (counts_as_flow db p) (fd_transactions db)))"
    by (simp add: reports_def bucket_fields_def)
  have "bu_transaction_count (bucket_of_rows ?M ?rows) = sum_list (map (\<lambda>t. 1) ?rows)"
    unfolding additive_rows [OF additive_counts(3)] by (simp add: add_classified_fields)
  then show "cv_transaction_count (pr_coverage r) = length (filter (in_period db p) (fd_transactions db))"
    unfolding rep(2) rows by (simp add: sum_list_triv)
qed

text \<open>
  C15: A report accounts for every bank transaction of its period once, whatever its role says:
  money in is the sum of the positive amounts, money out that of the negative ones and the net cash
  flow that of all amounts, over the transactions that are neither matched nor internal transfers;
  the transaction count covers those too.
\<close>

theorem cash_flow_accounts_for_all:
  assumes "build_cash_flow_period_result db kind as_of now start_date end_date = Inr r"
  shows "let flows = filter (counts_as_flow db (pr_period r)) (fd_transactions db) in
    amount_of (fa_money_in (pr_totals r)) = sum_list (map (\<lambda>t. max 0 (tx_amount t)) flows)
    \<and> amount_of (fa_money_out (pr_totals r)) = sum_list (map (\<lambda>t. max 0 (- tx_amount t)) flows)
    \<and> amount_of (fa_net_cash_flow (pr_totals r)) = sum_list (map tx_amount flows)
    \<and> cv_transaction_count (pr_coverage r) = length (filter (in_period db (pr_period r)) (fd_transactions db))"
  using report_totals [OF built_report [OF assms]] by (simp add: Let_def)

section \<open>A report\<close>

definition cash_flow_example :: cash_flow_db where
  "cash_flow_example =
     \<lparr>fd_institutions = [\<lparr>in_id = 1, in_canonical_name = ''SoFi'', in_kind = ''bank''\<rparr>],
      fd_accounts = [\<lparr>ac_id = 1, ac_institution_id = 1, ac_display_name = ''Checking'', ac_account_type = ''checking'',
        la_plaid_connection_id = None\<rparr>],
      fd_transactions =
        [\<lparr>tx_id = 1, tx_account_id = 1, tx_posted_date = Date 2026 3 20, tx_original_description = ''Pay'',
          tx_role = ''payroll_deposit'', tx_amount = 100000\<rparr>,
         \<lparr>tx_id = 2, tx_account_id = 1, tx_posted_date = Date 2026 4 2, tx_original_description = ''Rent'',
          tx_role = ''external_outflow'', tx_amount = -60000\<rparr>,
         \<lparr>tx_id = 3, tx_account_id = 1, tx_posted_date = Date 2026 4 3, tx_original_description = ''To savings'',
          tx_role = ''internal_transfer'', tx_amount = -20000\<rparr>],
      fd_transfer_matches = [], fd_connections = []\<rparr>"

abbreviation example_now :: moment where
  "example_now \<equiv> \<lparr>mo_aware = True, mo_instant = 0\<rparr>"

abbreviation example_period :: selected_period where
  "example_period \<equiv> \<lparr>pe_kind = All_imported_history, pe_start_date = Date 2026 3 20, pe_end_date = Date 2026 4 3,
     pe_as_of_date = Date 2026 4 10\<rparr>"

lemma example_resolved:
  "resolve_period All_imported_history (Date 2026 4 10) (imported_bank_coverage cash_flow_example) None None = Inr example_period"
  by code_simp

lemma example_dates: "\<forall>t \<in> set (fd_transactions cash_flow_example). valid_date (tx_posted_date t)"
  by code_simp

theorem cash_flow_report_valid_witness:
  "\<exists>r. build_cash_flow_period_result cash_flow_example All_imported_history (Date 2026 4 10) example_now None None = Inr r
     \<and> valid_period_result r"
proof -
  have "valid_date (pe_start_date example_period)" "valid_date (pe_end_date example_period)" by code_simp+
  from cash_flow_report_valid [OF _ example_resolved this _ _ example_dates, of example_now]
  show ?thesis by auto
qed

theorem cash_flow_accounts_for_all_witness:
  "\<exists>r. build_cash_flow_period_result cash_flow_example All_imported_history (Date 2026 4 10) example_now None None = Inr r
     \<and> amount_of (fa_net_cash_flow (pr_totals r)) = 40000"
proof -
  have d: "valid_date (pe_start_date example_period)" "valid_date (pe_end_date example_period)" by code_simp+
  obtain r where r: "build_cash_flow_period_result cash_flow_example All_imported_history (Date 2026 4 10) example_now None None = Inr r"
      "report_of cash_flow_example example_period r"
    by (rule report_built [OF _ example_resolved d _ _ example_dates, of example_now]) simp_all
  then have "pr_period r = example_period" by (simp add: report_of_def Let_def)
  moreover have "sum_list (map tx_amount (filter (counts_as_flow cash_flow_example example_period) (fd_transactions cash_flow_example))) = 40000"
    by code_simp
  ultimately show ?thesis
    using r(1) cash_flow_accounts_for_all [OF r(1)] by (simp add: Let_def)
qed

end
