(* ===== verification/Recurring_Facts.thy ===== *)
theory Recurring_Facts
  imports Recurring_Outflows Cash_Flow_Facts
begin

text \<open>
  Recurring outflows: which groups of transactions become candidates, that every candidate and the
  list of them satisfies its contract, and that identifiers tell candidates apart.
\<close>

section \<open>JSON texts\<close>

lemma hex_char_inj: "hex_char a = hex_char b \<Longrightarrow> a < 16 \<Longrightarrow> b < 16 \<Longrightarrow> a = b"
  by (auto simp: hex_char_def of_char_of dest!: arg_cong [where f = "of_char :: char \<Rightarrow> nat"] split: if_splits)

lemma escape_letter_inj:
  "map_of escape_letters a = Some l \<Longrightarrow> map_of escape_letters b = Some l \<Longrightarrow> a = b"
  by (auto simp: escape_letters_def split: if_splits)

lemma escape_letter_cases:
  "map_of escape_letters a = Some l \<Longrightarrow> l \<noteq> CHR 0x22 \<and> l \<noteq> CHR 0x5C \<and> l \<noteq> CHR ''u''"
  by (auto simp: escape_letters_def split: if_splits)

lemma code_char: "of_char c = n \<Longrightarrow> c = char_of (n :: nat)"
  by auto

lemma quote_codes: "char_of (34 :: nat) = CHR 0x22" "char_of (92 :: nat) = CHR 0x5C"
  by code_simp+

lemma json_char_cases:
  obtains (quoted) "json_char c = [CHR 0x5C, c]" "c = CHR 0x22 \<or> c = CHR 0x5C"
  | (plain) "json_char c = [c]" "c \<noteq> CHR 0x22" "c \<noteq> CHR 0x5C"
  | (letter) l where "json_char c = [CHR 0x5C, l]" "map_of escape_letters (of_char c) = Some l"
  | (code) "json_char c = [CHR 0x5C, CHR ''u'', CHR ''0'', CHR ''0'', hex_char (of_char c div 16), hex_char (of_char c mod 16)]"
proof -
  let ?n = "of_char c :: nat"
  show thesis
  proof (cases "?n = 34 \<or> ?n = 92")
    case True
    then have "c = CHR 0x22 \<or> c = CHR 0x5C" using code_char [of c 34] code_char [of c 92] by (auto simp: quote_codes)
    with True show thesis by (intro quoted) (simp_all add: json_char_def)
  next
    case False
    then have other: "c \<noteq> CHR 0x22" "c \<noteq> CHR 0x5C" by auto
    show thesis
    proof (cases "32 \<le> ?n \<and> ?n \<le> 126")
      case True
      with False other show thesis by (intro plain) (simp_all add: json_char_def)
    next
      case out: False
      then have e: "json_char c = (case map_of escape_letters ?n of Some l \<Rightarrow> [CHR 0x5C, l]
          | None \<Rightarrow> [CHR 0x5C] @ ''u00'' @ [hex_char (?n div 16), hex_char (?n mod 16)])"
        using False by (simp only: json_char_def Let_def if_False simp_thms)
      show thesis
      proof (cases "map_of escape_letters ?n")
        case None
        then show thesis by (intro code) (simp add: e)
      next
        case (Some l)
        then show thesis by (intro letter) (simp_all add: e)
      qed
    qed
  qed
qed

lemma hex_pair_inj:
  assumes "hex_char (of_char c div 16) = hex_char (of_char c' div 16)"
    and "hex_char (of_char c mod 16) = hex_char (of_char c' mod 16)"
  shows "c = (c' :: char)"
proof -
  have less_256: "(of_char c :: nat) < 256" for c by simp
  have bound: "(of_char c :: nat) div 16 < 16" "(of_char c' :: nat) div 16 < 16"
    using less_256 by (simp_all add: less_mult_imp_div_less)
  have "(of_char c :: nat) div 16 = of_char c' div 16" by (rule hex_char_inj [OF assms(1) bound])
  moreover have "(of_char c :: nat) mod 16 = of_char c' mod 16" by (rule hex_char_inj [OF assms(2)]) simp_all
  ultimately have "(of_char c :: nat) = of_char c'" by (metis div_mult_mod_eq)
  then show ?thesis by simp
qed

lemma json_char_prefix:
  assumes "json_char c @ X = json_char c' @ X'"
  shows "c = c' \<and> X = X'"
proof (cases c rule: json_char_cases)
  case quoted
  then show ?thesis using assms
    by (cases c' rule: json_char_cases) (auto dest: escape_letter_cases)
next
  case plain
  then show ?thesis using assms by (cases c' rule: json_char_cases) auto
next
  case (letter l)
  note l = letter escape_letter_cases [OF letter(2)]
  show ?thesis
  proof (cases c' rule: json_char_cases)
    case (letter l')
    then have "l = l'" "X = X'" using l(1) assms by simp_all
    with l(2) letter(2) escape_letter_inj [of "of_char c" l "of_char c'"] show ?thesis by simp
  qed (use l assms in auto)
next
  case code
  then show ?thesis using assms
    by (cases c' rule: json_char_cases) (auto dest: escape_letter_cases hex_pair_inj)
qed

lemma json_char_hd: "json_char c @ X \<noteq> CHR 0x22 # Y"
  by (cases c rule: json_char_cases) auto

lemma json_body_prefix:
  "concat (map json_char s) @ CHR 0x22 # X = concat (map json_char s') @ CHR 0x22 # X' \<Longrightarrow> s = s' \<and> X = X'"
proof (induction s arbitrary: s')
  case Nil
  then show ?case using json_char_hd by (cases s') (auto simp del: json_char_hd, metis json_char_hd)
next
  case (Cons c s)
  then obtain c' t where s': "s' = c' # t" using json_char_hd by (cases s') auto
  with Cons.prems have "json_char c @ (concat (map json_char s) @ CHR 0x22 # X)
      = json_char c' @ (concat (map json_char t) @ CHR 0x22 # X')" by simp
  from json_char_prefix [OF this] Cons.IH [of t] s' show ?case by simp
qed

lemma json_text_prefix: "json_text s @ X = json_text s' @ X' \<longleftrightarrow> s = s' \<and> X = X'"
  using json_body_prefix [of s X s' X'] by (auto simp: json_text_def)

lemma join_with_Cons: "join_with sep (w # ws) = w @ (if ws = [] then [] else sep # join_with sep ws)"
  by (cases ws) simp_all

text \<open>A list of prefix-free values that start with a brace ends where it ends.\<close>

lemma json_list_prefix:
  assumes "\<And>x y X Y. f x @ X = f y @ Y \<Longrightarrow> X = Y" and "\<And>x. \<exists>r. f x = CHR ''{'' # r"
    and "join_with CHR '','' (map f xs) @ CHR '']'' # X = join_with CHR '','' (map f ys) @ CHR '']'' # Y"
  shows "X = Y"
  using assms(3)
proof (induction xs arbitrary: ys)
  case Nil
  show ?case
  proof (cases ys)
    case (Cons y zs)
    with Nil assms(2) [of y] show ?thesis by (auto simp: join_with_Cons)
  qed (use Nil in simp)
next
  case (Cons x xs)
  show ?case
  proof (cases ys)
    case Nil
    with Cons.prems assms(2) [of x] show ?thesis by (auto simp: join_with_Cons)
  next
    case (Cons y zs)
    let ?rest = "\<lambda>as. if as = [] then [] else CHR '','' # join_with CHR '','' (map f as)"
    have "f x @ (?rest xs @ CHR '']'' # X) = f y @ (?rest zs @ CHR '']'' # Y)"
      using Cons.prems Cons by (simp add: join_with_Cons)
    from assms(1) [OF this] have "?rest xs @ CHR '']'' # X = ?rest zs @ CHR '']'' # Y" .
    then show ?thesis using Cons.IH [of zs] by (auto split: if_splits)
  qed
qed

lemma json_object_text:
  "json_object fs @ X = CHR ''{'' # join_with CHR '','' (map (\<lambda>(k, v). json_text k @ '':'' @ v) fs) @ CHR ''}'' # X"
  by (simp add: json_object_def)

definition occurrence_text :: "date \<times> cents \<Rightarrow> string" where
  "occurrence_text = (\<lambda>(d, a). json_object [(''amount'', json_text (show_money a)), (''date'', json_text (isoformat d))])"

lemma occurrence_text_prefix: "occurrence_text x @ X = occurrence_text y @ Y \<Longrightarrow> X = Y"
  by (cases x; cases y) (simp only: occurrence_text_def prod.case json_object_text list.map join_with.simps append_assoc
      append_Cons append_Nil list.inject json_text_prefix; simp)

lemma candidate_payload_inj:
  assumes "candidate_payload l n c os = candidate_payload l' n' c' os'"
  shows "l = l' \<and> n = n'"
proof -
  have "candidate_payload l n c os @ [] = candidate_payload l' n' c' os' @ []" using assms by simp
  then have e: "json_text n @ CHR '','' # json_text ''occurrences'' @ CHR '':'' # json_list (map occurrence_text os)
        @ CHR '','' # json_text ''safe_account_label'' @ CHR '':'' # json_text l @ ''}''
      = json_text n' @ CHR '','' # json_text ''occurrences'' @ CHR '':'' # json_list (map occurrence_text os')
        @ CHR '','' # json_text ''safe_account_label'' @ CHR '':'' # json_text l' @ ''}''"
    by (simp only: candidate_payload_def json_object_text list.map join_with.simps prod.case append_assoc append_Cons
        append_Nil list.inject json_text_prefix occurrence_text_def simp_thms)
  then have n: "n = n'" by (simp only: json_text_prefix)
  from e have "json_list (map occurrence_text os) @ CHR '','' # json_text ''safe_account_label'' @ CHR '':'' # json_text l @ ''}''
      = json_list (map occurrence_text os') @ CHR '','' # json_text ''safe_account_label'' @ CHR '':'' # json_text l' @ ''}''"
    by (simp only: json_text_prefix list.inject simp_thms)
  then have "join_with CHR '','' (map occurrence_text os) @ CHR '']'' # CHR '','' # json_text ''safe_account_label'' @ CHR '':'' # json_text l @ ''}''
      = join_with CHR '','' (map occurrence_text os') @ CHR '']'' # CHR '','' # json_text ''safe_account_label'' @ CHR '':'' # json_text l' @ ''}''"
    by (simp only: json_list_def append_assoc append_Cons append_Nil list.inject simp_thms)
  then have "CHR '','' # json_text ''safe_account_label'' @ CHR '':'' # json_text l @ ''}''
      = CHR '','' # json_text ''safe_account_label'' @ CHR '':'' # json_text l' @ ''}''"
  proof (rule json_list_prefix [rotated 2])
    show "\<exists>r. occurrence_text x = CHR ''{'' # r" for x
      by (cases x) (simp add: occurrence_text_def json_object_def)
  qed (rule occurrence_text_prefix)
  then have "l = l'" by (simp only: json_text_prefix list.inject simp_thms)
  with n show ?thesis by simp
qed

section \<open>Labels\<close>

lemma label_texts:
  "title (map (\<lambda>c. if c = CHR ''_'' then CHR '' '' else c) ''checking'') = ''Checking''"
  "title (map (\<lambda>c. if c = CHR ''_'' then CHR '' '' else c) ''savings'') = ''Savings''"
  "casefold ''checking'' = ''checking''" "casefold ''savings'' = ''savings''"
  "title ''checking'' = ''Checking''" "title ''savings'' = ''Savings''"
  by code_simp+

lemma account_label_inj:
  assumes "account_label t n = account_label t' n'" "t \<in> {''checking'', ''savings''}" "t' \<in> {''checking'', ''savings''}"
  shows "t = t' \<and> n = n'"
  using assms show_nat_inj [of n n'] by (elim insertE emptyE; simp add: account_label_def label_texts)

lemma show_nat_length: "0 < k \<Longrightarrow> n < 10 ^ k \<Longrightarrow> length (show_nat n) \<le> k"
proof (induction n arbitrary: k rule: show_nat.induct)
  case (1 n)
  show ?case
  proof (cases "n < 10")
    case False
    then obtain j where "k = Suc j" "0 < j" using 1(3) by (cases k; cases "k - 1"; simp)
    with False 1 show ?thesis by (simp add: show_nat.simps [of n] less_mult_imp_div_less mult.commute)
  qed (use 1 in \<open>simp add: show_nat.simps [of n]\<close>)
qed

lemma account_label_length:
  assumes "t \<in> {''checking'', ''savings''}" "n < 10 ^ 60"
  shows "1 \<le> length (account_label t n) \<and> length (account_label t n) \<le> 80"
  using assms(1) show_nat_length [of 60 n] assms(2) by (elim insertE emptyE; simp add: account_label_def label_texts)

definition labels_fit :: "account list \<Rightarrow> (string, nat) dict \<Rightarrow> (nat, string) dict \<Rightarrow> bool" where
  "labels_fit as counts labels \<longleftrightarrow>
     (\<forall>a \<in> set as. map_of labels (ac_id a) \<noteq> None)
     \<and> (\<forall>t. dict_get counts t 0 \<le> length as)
     \<and> (\<forall>i l. map_of labels i = Some l \<longrightarrow>
          (\<exists>t n. t \<in> {''checking'', ''savings''} \<and> l = account_label t n \<and> n \<le> dict_get counts t 0))
     \<and> (\<forall>i j l. map_of labels i = Some l \<longrightarrow> map_of labels j = Some l \<longrightarrow> i = j)"

lemma labels_fit_step:
  assumes fit: "labels_fit as counts labels" and a: "ac_account_type a \<in> {''checking'', ''savings''}"
  shows "case label_account a (counts, labels) of (c, l) \<Rightarrow> labels_fit (as @ [a]) c l"
proof -
  let ?t = "ac_account_type a"
  let ?n = "dict_get counts ?t 0 + 1"
  let ?c = "dict_set ?t ?n counts" and ?l = "dict_set (ac_id a) (account_label ?t ?n) labels"
  have "casefold ?t = ?t" using a label_texts(3,4) by auto
  then have step: "label_account a (counts, labels) = (?c, ?l)" by (simp add: label_account_def Let_def)
  have grows: "dict_get counts t 0 \<le> dict_get ?c t 0" for t by simp
  have new: "account_label ?t ?n \<noteq> l" if "map_of labels i = Some l" for i l
  proof
    assume e: "account_label ?t ?n = l"
    from fit that obtain t n where "t \<in> {''checking'', ''savings''}" "l = account_label t n" "n \<le> dict_get counts t 0"
      unfolding labels_fit_def by blast
    with e account_label_inj [of ?t ?n t n] a show False by auto
  qed
  have "labels_fit (as @ [a]) ?c ?l"
    unfolding labels_fit_def
  proof (intro conjI allI impI ballI)
    show "map_of ?l (ac_id b) \<noteq> None" if "b \<in> set (as @ [a])" for b
      using that fit by (auto simp: labels_fit_def)
    show "dict_get ?c t 0 \<le> length (as @ [a])" for t
      using fit by (simp add: labels_fit_def le_SucI)
    show "\<exists>t n. t \<in> {''checking'', ''savings''} \<and> l = account_label t n \<and> n \<le> dict_get ?c t 0"
      if "map_of ?l i = Some l" for i l
    proof (cases "i = ac_id a")
      case True
      with that have "l = account_label ?t ?n" by simp
      with a show ?thesis by (intro exI [of _ ?t] exI [of _ ?n]) simp
    next
      case False
      with that have "map_of labels i = Some l" by simp
      with fit obtain t n where "t \<in> {''checking'', ''savings''}" "l = account_label t n" "n \<le> dict_get counts t 0"
        unfolding labels_fit_def by blast
      with grows [of t] show ?thesis by (intro exI [of _ t] exI [of _ n]) (simp del: dict_get_set)
    qed
    show "i = j" if "map_of ?l i = Some l" "map_of ?l j = Some l" for i j l
      using that fit new by (auto simp: labels_fit_def split: if_splits)
  qed
  then show ?thesis by (simp add: step)
qed

lemma labels_fit_all:
  "(\<And>a. a \<in> set as \<Longrightarrow> ac_account_type a \<in> {''checking'', ''savings''})
   \<Longrightarrow> case fold label_account as ([], []) of (c, l) \<Rightarrow> labels_fit as c l"
proof (induction as rule: rev_induct)
  case (snoc a as)
  obtain c l where "fold label_account as ([], []) = (c, l)" by fastforce
  with snoc labels_fit_step [of as c l a] show ?case by simp
qed (simp add: labels_fit_def)

lemma labels_of_accounts:
  assumes "\<And>a. a \<in> set as \<Longrightarrow> ac_account_type a \<in> {''checking'', ''savings''}" "length as < 10 ^ 60"
  shows "\<And>a. a \<in> set as \<Longrightarrow> \<exists>l. map_of (safe_account_labels as) (ac_id a) = Some l"
    and "\<And>i l. map_of (safe_account_labels as) i = Some l \<Longrightarrow> 1 \<le> length l \<and> length l \<le> 80"
    and "\<And>i j l. map_of (safe_account_labels as) i = Some l \<Longrightarrow> map_of (safe_account_labels as) j = Some l \<Longrightarrow> i = j"
proof -
  obtain c l where "fold label_account as ([], []) = (c, l)" by fastforce
  then have fit: "labels_fit as c (safe_account_labels as)"
    using labels_fit_all [of as] assms(1) by (simp add: safe_account_labels_def)
  show "\<exists>l. map_of (safe_account_labels as) (ac_id a) = Some l" if "a \<in> set as" for a
    using fit that unfolding labels_fit_def by blast
  show "1 \<le> length l \<and> length l \<le> 80" if "map_of (safe_account_labels as) i = Some l" for i l
  proof -
    from fit that obtain t n where t: "t \<in> {''checking'', ''savings''}" "l = account_label t n" "n \<le> dict_get c t 0"
      unfolding labels_fit_def by blast
    moreover have "dict_get c t 0 \<le> length as" using fit unfolding labels_fit_def by blast
    ultimately show ?thesis using account_label_length [of t n] assms(2) by simp
  qed
  show "i = j" if "map_of (safe_account_labels as) i = Some l" "map_of (safe_account_labels as) j = Some l" for i j l
    using fit that unfolding labels_fit_def by blast
qed

section \<open>Groups\<close>

text \<open>The outflows that may repeat, and those of one account and description.\<close>

definition outflow_key :: "imported_transaction \<Rightarrow> nat \<times> string" where
  "outflow_key t = (tx_account_id t, normalize_description (tx_original_description t))"

definition may_repeat :: "nat set \<Rightarrow> (int \<times> int) set \<Rightarrow> imported_transaction \<Rightarrow> bool" where
  "may_repeat matched months t \<longleftrightarrow> month_key (tx_posted_date t) \<in> months
     \<and> ct_classification (classify_bank_transaction matched t) = External_outflow
     \<and> normalize_description (tx_original_description t) \<noteq> []"

lemma group_fold:
  fixes key :: "'a \<Rightarrow> 'k" and P :: "'a \<Rightarrow> bool"
  defines "step \<equiv> \<lambda>t g. if P t then dict_set (key t) (dict_get g (key t) [] @ [t]) g else g"
  shows "dict_wf (fold step ts []) \<and> (\<forall>k. dict_get (fold step ts []) k [] = filter (\<lambda>t. P t \<and> key t = k) ts)
    \<and> (\<forall>p \<in> set (fold step ts []). snd p \<noteq> [])"
proof (induction ts rule: rev_induct)
  case (snoc t ts)
  let ?g = "fold step ts []" and ?vs = "dict_get (fold step ts []) (key t) [] @ [t]"
  have e: "fold step (ts @ [t]) [] = (if P t then dict_set (key t) ?vs ?g else ?g)"
    by (simp only: fold_append fold.simps comp_apply id_apply step_def)
  show ?case
  proof (cases "P t")
    case True
    have "\<forall>p \<in> set (dict_set (key t) ?vs ?g). snd p \<noteq> []" using snoc by (auto dest!: dict_set_mem)
    with snoc True show ?thesis unfolding e by auto
  next
    case False
    with snoc show ?thesis unfolding e by auto
  qed
qed simp

lemma groups_with_eq:
  "groups_with M months = (\<lambda>t g. if may_repeat M months t then dict_set (outflow_key t) (dict_get g (outflow_key t) [] @ [t]) g else g)"
  by (simp add: fun_eq_iff groups_with_def may_repeat_def outflow_key_def Let_def)

lemma dict_wf_get: "dict_wf d \<Longrightarrow> (k, v) \<in> set d \<Longrightarrow> dict_get d k w = v"
  by (simp add: dict_get_def dict_wf_def)

lemma groups_wf: "dict_wf (fold (groups_with M months) ts [])"
  unfolding groups_with_eq using group_fold by blast

lemma group_members:
  assumes "(k, vs) \<in> set (fold (groups_with M months) ts [])"
  shows "vs = filter (\<lambda>t. may_repeat M months t \<and> outflow_key t = k) ts" "vs \<noteq> []"
proof -
  note g = group_fold [of "may_repeat M months" outflow_key ts, folded groups_with_eq]
  have "vs = dict_get (fold (groups_with M months) ts []) k []" by (rule dict_wf_get [OF groups_wf assms, symmetric])
  also have "\<dots> = filter (\<lambda>t. may_repeat M months t \<and> outflow_key t = k) ts" using g by blast
  finally show "vs = filter (\<lambda>t. may_repeat M months t \<and> outflow_key t = k) ts" .
  show "vs \<noteq> []" using g assms by fastforce
qed

section \<open>One candidate\<close>

lemma candidate_money_returns:
  assumes "refs \<noteq> []" "distinct refs" "\<And>r. r \<in> set refs \<Longrightarrow> r \<noteq> []" "sorted refs"
  shows "derived_candidate_money a d refs =
      Inr \<lparr>em_amount = Some a, em_evidence = Derived, em_source_refs = refs, em_derivation = Some d, em_unavailable_reason = None\<rparr>"
    and "observed_candidate_money a refs =
      Inr \<lparr>em_amount = Some a, em_evidence = Observed, em_source_refs = refs, em_derivation = None, em_unavailable_reason = None\<rparr>"
  using assms
  by (simp_all add: derived_candidate_money_def observed_candidate_money_def make_money_def contract_def valid_refs_def
      valid_reason_def valid_evidence_def list_all_iff sorted_sort_id)

lemma sum_half_between:
  assumes "(a :: cents) \<le> b" "\<bar>a\<bar> < 10 ^ 27" "\<bar>b\<bar> < 10 ^ 27"
  shows "a \<le> money (ddiv (dadd (dec a) (dec b)) 2)" "money (ddiv (dadd (dec a) (dec b)) 2) \<le> b"
proof -
  have small: "\<bar>a\<bar> < 10 ^ 28" "\<bar>b\<bar> < 10 ^ 28" "\<bar>a + b\<bar> < 10 ^ 28" using assms by simp_all
  have e: "ddiv (dadd (dec a) (dec b)) 2 = ctx (dec (a + b) / 2)"
    using ctx_dec [OF small(3)] by (simp add: ddiv_def dadd_def dec_simps)
  have "dec a \<le> dec (a + b) / 2" "dec (a + b) / 2 \<le> dec b" using assms(1) by (simp_all add: dec_def)
  from ctx_mono [OF this(1)] ctx_mono [OF this(2)]
  have c: "dec a \<le> ctx (dec (a + b) / 2)" "ctx (dec (a + b) / 2) \<le> dec b"
    using ctx_dec [OF small(1)] ctx_dec [OF small(2)] by simp_all
  show "a \<le> money (ddiv (dadd (dec a) (dec b)) 2)" unfolding e by (rule money_ge [OF c(1)])
  show "money (ddiv (dadd (dec a) (dec b)) 2) \<le> b" unfolding e by (rule money_le [OF c(2)])
qed

text \<open>The median lies between the least and the greatest amount.\<close>

lemma median_money_bounds:
  assumes "vs \<noteq> []" "\<And>v. v \<in> set vs \<Longrightarrow> \<bar>v\<bar> < 10 ^ 27"
  shows "Min (set vs) \<le> median_money vs \<and> median_money vs \<le> Max (set vs)"
proof -
  let ?o = "sort vs" and ?m = "length vs div 2"
  have mem: "?o ! i \<in> set vs" if "i < length vs" for i using nth_mem [of i ?o] that by simp
  have m: "?m < length vs" using assms(1) by simp
  have lo: "Min (set vs) \<le> ?o ! i" and hi: "?o ! i \<le> Max (set vs)" if "i < length vs" for i
    using mem [OF that] by simp_all
  show ?thesis
  proof (cases "odd (length vs)")
    case True
    then have "median_money vs = ?o ! ?m" by (simp add: median_money_def Let_def)
    with lo [OF m] hi [OF m] show ?thesis by simp
  next
    case False
    have p: "?m - 1 < length vs" using m by simp
    have med: "median_money vs = money (ddiv (dadd (dec (?o ! (?m - 1))) (dec (?o ! ?m))) 2)"
      using False by (simp add: median_money_def Let_def)
    have "?o ! (?m - 1) \<le> ?o ! ?m" by (rule sorted_nth_mono) (use m in simp_all)
    from sum_half_between [OF this assms(2) [OF mem [OF p]] assms(2) [OF mem [OF m]]] lo [OF p] hi [OF m]
    show ?thesis unfolding med by linarith
  qed
qed

lemma sorted_texts_facts: "distinct (sorted_texts xs)" "set (sorted_texts xs) = set xs" "length (sorted_texts xs) = card (set xs)"
  by (simp_all add: sorted_texts_def length_remdups_card_conv)

lemma show_nat_digits: "list_all is_digit (show_nat n)"
proof (induction n rule: show_nat.induct)
  case (1 n)
  then show ?case by (cases "n < 10") (simp_all add: show_nat.simps [of n] digit_char_is_digit)
qed

lemma show_nat_colon:
  assumes "show_nat a @ CHR '':'' # X = show_nat b @ CHR '':'' # Y"
  shows "a = b"
proof -
  have t: "takeWhile is_digit (show_nat n @ CHR '':'' # Z) = show_nat n" for n Z
  proof -
    have "\<not> is_digit (CHR '':'')" by code_simp
    moreover have "\<forall>c \<in> set (show_nat n). is_digit c" using show_nat_digits [of n] by (simp add: list_all_iff)
    ultimately show ?thesis by (simp add: takeWhile_append2)
  qed
  show ?thesis using t [of a X] t [of b Y] assms by (metis show_nat_inj)
qed

definition ref_text :: "nat \<Rightarrow> string \<Rightarrow> string" where
  "ref_text i h = ''account_transaction:'' @ show_nat i @ '':artifact:'' @ h"

lemma ref_text_inj: "ref_text i h = ref_text j k \<Longrightarrow> i = j"
  using show_nat_colon [of i "''artifact:'' @ h" j "''artifact:'' @ k"] by (simp add: ref_text_def)

lemma refs_return:
  assumes "\<And>t. t \<in> set rows \<Longrightarrow> map_of (od_artifact_hashes db) (it_artifact_id t) \<noteq> None"
    and "distinct (map tx_id rows)"
  obtains refs where "map_res (transaction_ref db) rows = Inr refs" "distinct refs" "length refs = length rows"
    "\<And>r. r \<in> set refs \<Longrightarrow> r \<noteq> []"
proof -
  have "\<exists>r. transaction_ref db t = Inr r \<and> (\<exists>h. r = ref_text (tx_id t) h)" if "t \<in> set rows" for t
    using assms(1) [OF that] by (auto simp: transaction_ref_def lookup_def ref_text_def)
  from map_res_returns [of rows "transaction_ref db" "\<lambda>t r. \<exists>h. r = ref_text (tx_id t) h", OF this]
  obtain refs where refs: "map_res (transaction_ref db) rows = Inr refs" "list_all2 (\<lambda>t r. \<exists>h. r = ref_text (tx_id t) h) rows refs"
    by blast
  have "distinct refs"
    unfolding distinct_conv_nth
  proof (intro allI impI)
    fix i j assume ij: "i < length refs" "j < length refs" "i \<noteq> j"
    then have "tx_id (rows ! i) \<noteq> tx_id (rows ! j)"
      using assms(2) list_all2_lengthD [OF refs(2)] nth_eq_iff_index_eq [of "map tx_id rows" i j] by simp
    moreover obtain h k where "refs ! i = ref_text (tx_id (rows ! i)) h" "refs ! j = ref_text (tx_id (rows ! j)) k"
      using ij list_all2_nthD2 [OF refs(2)] by blast
    ultimately show "refs ! i \<noteq> refs ! j" using ref_text_inj by metis
  qed
  moreover have "r \<noteq> []" if "r \<in> set refs" for r
    using refs(2) that by (auto simp: list_all2_conv_all_nth in_set_conv_nth ref_text_def)
  ultimately show thesis using that refs(1) list_all2_lengthD [OF refs(2)] by simp
qed

text \<open>What a candidate says of its rows.\<close>

definition describes ::
  "(string \<Rightarrow> string) \<Rightarrow> string \<Rightarrow> string \<Rightarrow> imported_transaction list \<Rightarrow> recurring_outflow_candidate \<Rightarrow> bool"
where
  "describes digest label normalized rows c \<longleftrightarrow>
     (let dates = map tx_posted_date rows; amounts = map (\<lambda>t. \<bar>tx_amount t\<bar>) rows in
      supported_cadence dates = Some (ro_cadence c) \<and> 3 \<le> card (set (map month_text dates))
      \<and> stable_amounts (median_money amounts) amounts
      \<and> ro_candidate_id c = candidate_id digest label normalized (ro_cadence c) (zip dates amounts)
      \<and> ro_safe_account_label c = label
      \<and> ro_observed_description c = display_description (tx_original_description (hd rows))
      \<and> ro_occurrence_count c = length rows
      \<and> ro_first_observed_date c = hd dates \<and> ro_last_observed_date c = last dates
      \<and> set (ro_coverage_months c) = set (map month_text dates)
      \<and> amount_of (ro_median_observed_amount c) = median_money amounts
      \<and> amount_of (ro_typical_monthly_amount c) = typical_monthly (median_money amounts) (ro_cadence c)
      \<and> amount_of (ar_minimum (ro_amount_range c)) = Min (set amounts)
      \<and> amount_of (ar_maximum (ro_amount_range c)) = Max (set amounts))"

text \<open>Rows as the database holds them, and rows a candidate can be built of.\<close>

definition stored_row :: "outflow_db \<Rightarrow> imported_transaction \<Rightarrow> bool" where
  "stored_row db t \<longleftrightarrow> - (10 ^ 27) < tx_amount t \<and> valid_date (tx_posted_date t)
     \<and> 1000 \<le> d_year (tx_posted_date t) \<and> d_year (tx_posted_date t) \<le> 9999
     \<and> map_of (od_artifact_hashes db) (it_artifact_id t) \<noteq> None
     \<and> length (display_description (tx_original_description t)) \<le> 500"

definition sound_row :: "outflow_db \<Rightarrow> imported_transaction \<Rightarrow> bool" where
  "sound_row db t \<longleftrightarrow> stored_row db t \<and> tx_amount t < 0 \<and> display_description (tx_original_description t) \<noteq> []"

lemmas row_defs = sound_row_def stored_row_def

definition digest_text :: "string \<Rightarrow> bool" where
  "digest_text s \<longleftrightarrow> length s = 24 \<and> list_all is_hex_digit s"

lemma candidate_id_valid: "digest_text (digest (candidate_payload l n c os)) \<Longrightarrow> valid_candidate_id (candidate_id digest l n c os)"
  by (simp add: candidate_id_def valid_candidate_id_def digest_text_def)

lemma hd_le_last: "sorted xs \<Longrightarrow> xs \<noteq> [] \<Longrightarrow> hd xs \<le> last xs"
  by (cases xs) (auto dest: sorted_le_last)

definition repeats :: "imported_transaction list \<Rightarrow> bool" where
  "repeats rows \<longleftrightarrow>
     (let dates = map tx_posted_date rows; amounts = map (\<lambda>t. \<bar>tx_amount t\<bar>) rows in
      supported_cadence dates \<noteq> None \<and> 3 \<le> card (set (map month_text dates)) \<and> stable_amounts (median_money amounts) amounts)"

lemma month_text_nonempty [simp]: "month_text d \<noteq> []"
  by (simp add: month_text_def)

lemma not_repeating:
  "\<not> repeats rows \<Longrightarrow> build_candidate digest db labels a n rows = Inr None"
  by (cases "supported_cadence (map tx_posted_date rows)")
    (auto simp: build_candidate_def repeats_def Let_def sorted_texts_facts image_image)

lemma amount_facts:
  assumes "rows \<noteq> []" "\<And>t. t \<in> set rows \<Longrightarrow> sound_row db t"
  defines "amounts \<equiv> map (\<lambda>t. \<bar>tx_amount t\<bar>) rows"
  shows "amounts \<noteq> []" "\<And>v. v \<in> set amounts \<Longrightarrow> \<bar>v\<bar> < 10 ^ 27" "0 < Min (set amounts)" "Min (set amounts) \<le> Max (set amounts)"
proof -
  show ne: "amounts \<noteq> []" using assms(1) by (simp add: amounts_def)
  show "\<bar>v\<bar> < 10 ^ 27" if "v \<in> set amounts" for v
    using that assms(2) by (fastforce simp: amounts_def row_defs)
  have "\<forall>v \<in> set amounts. 0 < v" using assms(2) by (fastforce simp: amounts_def row_defs)
  then show "0 < Min (set amounts)" using ne by simp
  have "hd amounts \<in> set amounts" using ne by simp
  then show "Min (set amounts) \<le> Max (set amounts)"
    by (meson List.finite_set Max_ge Min_le order_trans)
qed

lemma repeating_built:
  assumes rows: "repeats rows" "rows \<noteq> []" "sorted (map tx_posted_date rows)" "distinct (map tx_id rows)"
      "\<And>t. t \<in> set rows \<Longrightarrow> sound_row db t"
    and label: "map_of labels a = Some l" "1 \<le> length l" "length l \<le> 80"
    and digest: "\<And>s. digest_text (digest s)"
  shows "\<exists>c. build_candidate digest db labels a n rows = Inr (Some c) \<and> valid_candidate c
    \<and> valid_range (ro_amount_range c) \<and> describes digest l n rows c"
proof -
  let ?dates = "map tx_posted_date rows" and ?amounts = "map (\<lambda>t. \<bar>tx_amount t\<bar>) rows"
  let ?median = "median_money ?amounts" and ?months = "sorted_texts (map month_text ?dates)"
  obtain k where k: "supported_cadence ?dates = Some k" using rows(1) by (auto simp: repeats_def Let_def)
  have enough: "3 \<le> card (set (map month_text ?dates))" and stable: "stable_amounts ?median ?amounts"
    using rows(1) unfolding repeats_def Let_def by blast+
  obtain unsorted_refs where refs: "map_res (transaction_ref db) rows = Inr unsorted_refs" "distinct unsorted_refs"
      "length unsorted_refs = length rows" "\<And>r. r \<in> set unsorted_refs \<Longrightarrow> r \<noteq> []"
    by (rule refs_return [of rows db, OF _ rows(4)]) (use rows(5) in \<open>auto simp: row_defs\<close>)
  let ?refs = "sort unsorted_refs"
  have ne: "?refs \<noteq> []" using refs(3) rows(2) by (metis length_0_conv length_sort)
  have nonempty: "\<And>r. r \<in> set ?refs \<Longrightarrow> r \<noteq> []" using refs(4) by simp
  have dist: "distinct ?refs" using refs(2) by simp
  have money: "derived_candidate_money x d ?refs = Inr \<lparr>em_amount = Some x, em_evidence = Derived, em_source_refs = ?refs,
        em_derivation = Some d, em_unavailable_reason = None\<rparr>"
      "observed_candidate_money x ?refs = Inr \<lparr>em_amount = Some x, em_evidence = Observed, em_source_refs = ?refs,
        em_derivation = None, em_unavailable_reason = None\<rparr>" for x d
    by (rule candidate_money_returns [OF ne dist _ sorted_sort], erule nonempty)+
  note am = amount_facts [OF rows(2,5)]
  have median: "Min (set ?amounts) \<le> ?median" "?median \<le> Max (set ?amounts)"
    using median_money_bounds [OF am(1,2)] by blast+
  let ?evidence_of = "\<lambda>x e d. \<lparr>em_amount = Some x, em_evidence = e, em_source_refs = ?refs, em_derivation = d, em_unavailable_reason = None\<rparr>"
  let ?range = "\<lparr>ar_minimum = ?evidence_of (Min (set ?amounts)) Observed None, ar_maximum = ?evidence_of (Max (set ?amounts)) Observed None\<rparr>"
  have range: "valid_range ?range" using am(3,4) by (simp add: valid_range_def amount_is_def amount_of_def)
  let ?c = "\<lparr>ro_candidate_id = candidate_id digest l n k (zip ?dates ?amounts),
      ro_observed_description = display_description (tx_original_description (hd rows)),
      ro_safe_account_label = l, ro_cadence = k, ro_occurrence_count = length rows,
      ro_first_observed_date = hd ?dates, ro_last_observed_date = last ?dates,
      ro_median_observed_amount = ?evidence_of ?median Derived (Some Recurring_outflow_median),
      ro_typical_monthly_amount = ?evidence_of (typical_monthly ?median k) Derived (Some Recurring_outflow_typical_monthly),
      ro_amount_range = ?range, ro_source_refs = ?refs, ro_coverage_months = ?months\<rparr>"
  have first: "sound_row db (hd rows)" using rows(2,5) by simp
  then have shown: "display_description (tx_original_description (hd rows)) \<noteq> []"
      "length (display_description (tx_original_description (hd rows))) \<le> 500" by (simp_all add: row_defs)
  have months: "valid_refs ?months" "list_all month_pattern ?months"
    using rows(5) month_pattern_text
    by (auto simp: valid_refs_def list_all_iff sorted_texts_facts row_defs)
  have "valid_candidate ?c"
    unfolding valid_candidate_def
    using candidate_id_valid [OF digest] shown label(2,3) rows(2) ne enough months refs(3) dist nonempty median
      hd_le_last [OF rows(3)]
    by (simp add: valid_refs_def list_all_iff sorted_texts_facts derived_by_def amount_is_def amount_of_def Suc_le_eq)
  moreover have "describes digest l n rows ?c"
    unfolding describes_def Let_def using k enough stable by (simp add: sorted_texts_facts amount_of_def)
  moreover have "build_candidate digest db labels a n rows = Inr (Some ?c)"
    unfolding build_candidate_def Let_def k option.case refs(1) bind_res_simps lookup_def label(1) money
      contract_returns [of valid_range, OF range] contract_returns [of valid_candidate, OF \<open>valid_candidate ?c\<close>]
    using enough stable by (simp add: sorted_texts_facts)
  ultimately show ?thesis using range by (intro exI [of _ ?c]) simp
qed

section \<open>The list\<close>

abbreviation outflow_coverage :: "outflow_db \<Rightarrow> complete_cash_month_evidence" where
  "outflow_coverage db \<equiv> complete_observed_cash_months (od_cash db)"

definition outflow_groups :: "outflow_db \<Rightarrow> (nat \<times> string, imported_transaction list) dict" where
  "outflow_groups db =
     fold (groups_with (outflow_matched_ids db) (ce_months (outflow_coverage db)))
       (outflow_rows db (ce_accounts (outflow_coverage db))) []"

definition outflow_labels :: "outflow_db \<Rightarrow> (nat, string) dict" where
  "outflow_labels db = safe_account_labels (ce_accounts (outflow_coverage db))"

text \<open>The texts the identifiers of a database are digests of.\<close>

definition group_payloads :: "outflow_db \<Rightarrow> (nat \<times> string) \<times> imported_transaction list \<Rightarrow> string list" where
  "group_payloads db g =
     (let dates = map tx_posted_date (snd g); amounts = map (\<lambda>t. \<bar>tx_amount t\<bar>) (snd g) in
      case supported_cadence dates of
        None \<Rightarrow> []
      | Some k \<Rightarrow>
          (case map_of (outflow_labels db) (fst (fst g)) of
             None \<Rightarrow> []
           | Some l \<Rightarrow> [candidate_payload l (snd (fst g)) k (zip dates amounts)]))"

definition candidate_payloads :: "outflow_db \<Rightarrow> string list" where
  "candidate_payloads db = concat (map (group_payloads db) (outflow_groups db))"

text \<open>The outflows of an account and description that may repeat, oldest first.\<close>

definition repeating_rows :: "outflow_db \<Rightarrow> nat \<times> string \<Rightarrow> imported_transaction list" where
  "repeating_rows db k =
     filter (\<lambda>t. may_repeat (outflow_matched_ids db) (ce_months (outflow_coverage db)) t \<and> outflow_key t = k)
       (outflow_rows db (ce_accounts (outflow_coverage db)))"

lemma groups_are_rows:
  "(k, ts) \<in> set (outflow_groups db) \<longleftrightarrow> ts = repeating_rows db k \<and> ts \<noteq> []"
proof
  show "ts = repeating_rows db k \<and> ts \<noteq> []" if "(k, ts) \<in> set (outflow_groups db)"
    using group_members [OF that [unfolded outflow_groups_def]] by (simp add: repeating_rows_def)
next
  assume ts: "ts = repeating_rows db k \<and> ts \<noteq> []"
  have "dict_get (outflow_groups db) k [] = repeating_rows db k"
    using group_fold [of "may_repeat (outflow_matched_ids db) (ce_months (outflow_coverage db))" outflow_key
        "outflow_rows db (ce_accounts (outflow_coverage db))", folded groups_with_eq]
    unfolding outflow_groups_def repeating_rows_def by blast
  with ts have "dict_get (outflow_groups db) k [] \<noteq> []" by metis
  then obtain vs where vs: "(k, vs) \<in> set (outflow_groups db)"
    by (auto simp: dict_get_def dest: map_of_SomeD split: option.splits)
  then have "vs = repeating_rows db k"
    using group_members(1) [OF vs [unfolded outflow_groups_def]] by (simp add: repeating_rows_def)
  with vs ts show "(k, ts) \<in> set (outflow_groups db)" by simp
qed

lemma groups_distinct: "distinct (map fst (outflow_groups db))"
  using groups_wf unfolding outflow_groups_def dict_wf_def by blast

lemma cash_accounts_types: "a \<in> set (ce_accounts (complete_observed_cash_months db)) \<Longrightarrow> ac_account_type a \<in> {''checking'', ''savings''}"
  by (auto simp: complete_observed_cash_months_def Let_def cash_accounts_def is_cash_account_def split: option.splits)

lemma repeating_row_facts:
  assumes stored: "\<And>t. t \<in> set (od_transactions db) \<Longrightarrow> stored_row db t" "distinct (map tx_id (od_transactions db))"
  shows "\<And>t. t \<in> set (repeating_rows db k) \<Longrightarrow> sound_row db t"
    and "sorted (map tx_posted_date (repeating_rows db k))" "distinct (map tx_id (repeating_rows db k))"
    and "\<And>t. t \<in> set (repeating_rows db k) \<Longrightarrow> \<exists>a \<in> set (ce_accounts (outflow_coverage db)). ac_id a = fst k"
proof -
  let ?rows = "outflow_rows db (ce_accounts (outflow_coverage db))"
  show "sound_row db t" if "t \<in> set (repeating_rows db k)" for t
    using that stored(1) [of t]
    by (auto simp: repeating_rows_def outflow_rows_def sound_row_def may_repeat_def normalize_description_def casefold_def lower_def lower_def
        display_description_def)
  have "sorted (map (\<lambda>t. (tx_posted_date t, tx_id t)) ?rows)" unfolding outflow_rows_def by (rule sorted_sort_key)
  then have "sorted (map tx_posted_date ?rows)"
    unfolding sorted_map by (rule sorted_wrt_mono_rel [rotated]) (auto simp: less_eq_prod_def)
  then show "sorted (map tx_posted_date (repeating_rows db k))"
    unfolding repeating_rows_def by (rule sorted_filter)
  have "distinct (map tx_id ?rows)"
    unfolding outflow_rows_def using distinct_map_filter [OF stored(2)] by (simp add: distinct_map)
  then show "distinct (map tx_id (repeating_rows db k))" unfolding repeating_rows_def by (rule distinct_map_filter)
  show "\<exists>a \<in> set (ce_accounts (outflow_coverage db)). ac_id a = fst k" if "t \<in> set (repeating_rows db k)" for t
    using that by (auto simp: repeating_rows_def outflow_rows_def outflow_key_def)
qed

lemma somes_mem: "c \<in> set (concat (map (\<lambda>x. case x of None \<Rightarrow> [] | Some c \<Rightarrow> [c]) ys)) \<longleftrightarrow> Some c \<in> set ys"
  by (induction ys) (auto split: option.splits)

lemma somes_distinct:
  assumes "list_all2 R xs ys" "distinct xs"
    and "\<And>x x' c c'. x \<in> set xs \<Longrightarrow> x' \<in> set xs \<Longrightarrow> R x (Some c) \<Longrightarrow> R x' (Some c') \<Longrightarrow> f c = f c' \<Longrightarrow> x = x'"
  shows "distinct (map f (concat (map (\<lambda>x. case x of None \<Rightarrow> [] | Some c \<Rightarrow> [c]) ys)))"
  using assms
proof (induction rule: list_all2_induct)
  case (Cons x xs y ys)
  have rest: "distinct (map f (concat (map (\<lambda>x. case x of None \<Rightarrow> [] | Some c \<Rightarrow> [c]) ys)))"
    using Cons.prems by (intro Cons.IH) auto
  show ?case
  proof (cases y)
    case (Some c)
    have "f c \<noteq> f c'" if mem: "Some c' \<in> set ys" for c'
    proof
      assume eq: "f c = f c'"
      from mem Cons.hyps(2) obtain x' where "x' \<in> set xs" "R x' (Some c')"
        by (auto simp: list_all2_conv_all_nth in_set_conv_nth) (metis nth_mem)
      with Cons.prems(2) [of x x' c c'] Cons.hyps(1) Some eq have "x = x'" by simp
      with \<open>x' \<in> set xs\<close> Cons.prems(1) show False by simp
    qed
    then have "f c \<notin> f ` set (concat (map (\<lambda>x. case x of None \<Rightarrow> [] | Some c \<Rightarrow> [c]) ys))"
      unfolding image_iff Bex_def somes_mem by blast
    with rest Some show ?thesis by simp
  qed (use rest in simp)
qed simp

text \<open>What a group yields.\<close>

definition group_yields ::
  "(string \<Rightarrow> string) \<Rightarrow> outflow_db \<Rightarrow> (nat \<times> string) \<times> imported_transaction list \<Rightarrow> recurring_outflow_candidate option \<Rightarrow> bool"
where
  "group_yields digest db g x \<longleftrightarrow>
     (case x of
        None \<Rightarrow> \<not> repeats (snd g)
      | Some c \<Rightarrow> repeats (snd g) \<and> valid_candidate c \<and> valid_range (ro_amount_range c)
          \<and> (\<exists>l. map_of (outflow_labels db) (fst (fst g)) = Some l \<and> describes digest l (snd (fst g)) (snd g) c))"

text \<open>
  What the report of recurring outflows relies on: the rows are as the database stores them, and
  the digests of the texts it makes identifiers of do not collide.
\<close>

definition outflow_evidence :: "(string \<Rightarrow> string) \<Rightarrow> outflow_db \<Rightarrow> bool" where
  "outflow_evidence digest db \<longleftrightarrow>
     list_all (stored_row db) (od_transactions db) \<and> distinct (map tx_id (od_transactions db))
     \<and> length (cd_accounts (od_cash db)) < 10 ^ 60 \<and> (\<forall>s. digest_text (digest s))
     \<and> inj_on digest (set (candidate_payloads db))"

lemma outflow_labels_facts:
  assumes "outflow_evidence digest db"
  shows "\<And>a. a \<in> set (ce_accounts (outflow_coverage db)) \<Longrightarrow> \<exists>l. map_of (outflow_labels db) (ac_id a) = Some l"
    and "\<And>i l. map_of (outflow_labels db) i = Some l \<Longrightarrow> 1 \<le> length l \<and> length l \<le> 80"
    and "\<And>i j l. map_of (outflow_labels db) i = Some l \<Longrightarrow> map_of (outflow_labels db) j = Some l \<Longrightarrow> i = j"
proof -
  have "length (ce_accounts (outflow_coverage db)) \<le> length (cd_accounts (od_cash db))"
    by (simp add: complete_observed_cash_months_def Let_def cash_accounts_def)
  also have "\<dots> < 10 ^ 60" using assms unfolding outflow_evidence_def by blast
  finally have bound: "length (ce_accounts (outflow_coverage db)) < 10 ^ 60" .
  note l = labels_of_accounts [OF cash_accounts_types bound, folded outflow_labels_def]
  show "\<And>a. a \<in> set (ce_accounts (outflow_coverage db)) \<Longrightarrow> \<exists>l. map_of (outflow_labels db) (ac_id a) = Some l"
    "\<And>i l. map_of (outflow_labels db) i = Some l \<Longrightarrow> 1 \<le> length l \<and> length l \<le> 80"
    "\<And>i j l. map_of (outflow_labels db) i = Some l \<Longrightarrow> map_of (outflow_labels db) j = Some l \<Longrightarrow> i = j"
    by (rule l; assumption)+
qed

lemma group_returns:
  assumes ev: "outflow_evidence digest db" and g: "(k, ts) \<in> set (outflow_groups db)"
  shows "\<exists>x. build_candidate digest db (outflow_labels db) (fst k) (snd k) ts = Inr x \<and> group_yields digest db (k, ts) x"
proof (cases "repeats ts")
  case False
  then show ?thesis by (simp add: not_repeating group_yields_def)
next
  case True
  have ts: "ts = repeating_rows db k" "ts \<noteq> []" using g unfolding groups_are_rows by blast+
  have stored: "\<And>t. t \<in> set (od_transactions db) \<Longrightarrow> stored_row db t" "distinct (map tx_id (od_transactions db))"
      "\<And>s. digest_text (digest s)"
    using ev by (simp_all add: outflow_evidence_def list_all_iff)
  note rows = repeating_row_facts [where db = db and k = k, OF stored(1,2), folded ts(1)]
  obtain a where "a \<in> set (ce_accounts (outflow_coverage db))" "ac_id a = fst k"
    using rows(4) [of "hd ts"] ts(2) by auto
  then obtain l where l: "map_of (outflow_labels db) (fst k) = Some l" using outflow_labels_facts(1) [OF ev] by fastforce
  have "1 \<le> length l" "length l \<le> 80" using outflow_labels_facts(2) [OF ev l] by simp_all
  then have "\<exists>c. build_candidate digest db (outflow_labels db) (fst k) (snd k) ts = Inr (Some c) \<and> valid_candidate c
      \<and> valid_range (ro_amount_range c) \<and> describes digest l (snd k) ts c"
    by (intro repeating_built [OF True ts(2) rows(2,3) _ l]) (simp_all add: rows(1) stored(3))
  then show ?thesis using l True by (auto simp: group_yields_def)
qed

lemma same_identifier_same_group:
  assumes ev: "outflow_evidence digest db"
    and g: "(k, ts) \<in> set (outflow_groups db)" "(k', ts') \<in> set (outflow_groups db)"
    and y: "group_yields digest db (k, ts) (Some c)" "group_yields digest db (k', ts') (Some c')"
    and eq: "ro_candidate_id c = ro_candidate_id c'"
  shows "k = k'"
proof -
  let ?os = "\<lambda>ts. zip (map tx_posted_date ts) (map (\<lambda>t. \<bar>tx_amount t\<bar>) ts)"
  have payload: "\<exists>l. map_of (outflow_labels db) (fst k) = Some l
      \<and> ro_candidate_id c = ''candidate_'' @ digest (candidate_payload l (snd k) (ro_cadence c) (?os ts))
      \<and> candidate_payload l (snd k) (ro_cadence c) (?os ts) \<in> set (candidate_payloads db)"
    if g: "(k, ts) \<in> set (outflow_groups db)" and y: "group_yields digest db (k, ts) (Some c)" for k ts c
  proof -
    from y obtain l where l: "map_of (outflow_labels db) (fst k) = Some l" "describes digest l (snd k) ts c"
      by (auto simp: group_yields_def)
    then have "supported_cadence (map tx_posted_date ts) = Some (ro_cadence c)"
      by (simp add: describes_def Let_def)
    with l(1) have "group_payloads db (k, ts) = [candidate_payload l (snd k) (ro_cadence c) (?os ts)]"
      by (simp add: group_payloads_def Let_def)
    with g have "candidate_payload l (snd k) (ro_cadence c) (?os ts) \<in> set (candidate_payloads db)"
      unfolding candidate_payloads_def by force
    with l show ?thesis by (simp add: describes_def Let_def candidate_id_def)
  qed
  obtain l l' where l: "map_of (outflow_labels db) (fst k) = Some l" "map_of (outflow_labels db) (fst k') = Some l'"
    and d: "digest (candidate_payload l (snd k) (ro_cadence c) (?os ts)) = digest (candidate_payload l' (snd k') (ro_cadence c') (?os ts'))"
      "candidate_payload l (snd k) (ro_cadence c) (?os ts) \<in> set (candidate_payloads db)"
      "candidate_payload l' (snd k') (ro_cadence c') (?os ts') \<in> set (candidate_payloads db)"
    using payload [OF g(1) y(1)] payload [OF g(2) y(2)] eq by auto
  have "inj_on digest (set (candidate_payloads db))" using ev by (simp add: outflow_evidence_def)
  from inj_onD [OF this d] have "l = l'" "snd k = snd k'" using candidate_payload_inj by blast+
  with l outflow_labels_facts(3) [OF ev] have "fst k = fst k'" by blast
  with \<open>snd k = snd k'\<close> show ?thesis by (simp add: prod_eq_iff)
qed

lemma candidates_collected:
  assumes ev: "outflow_evidence digest db"
  obtains found where
    "map_res (\<lambda>((a, n), ts). build_candidate digest db (outflow_labels db) a n ts) (sort_key fst (outflow_groups db)) = Inr found"
    "list_all2 (group_yields digest db) (sort_key fst (outflow_groups db)) found"
    "distinct (map ro_candidate_id (concat (map (\<lambda>x. case x of None \<Rightarrow> [] | Some c \<Rightarrow> [c]) found)))"
proof -
  let ?gs = "sort_key fst (outflow_groups db)" and ?build = "\<lambda>((a, n), ts). build_candidate digest db (outflow_labels db) a n ts"
  have "\<exists>x. ?build g = Inr x \<and> group_yields digest db g x" if "g \<in> set ?gs" for g
    using group_returns [OF ev, of "fst g" "snd g"] that by (simp add: case_prod_unfold)
  then have "\<exists>found. map_res ?build ?gs = Inr found \<and> list_all2 (group_yields digest db) ?gs found"
    by (rule map_res_returns)
  then obtain found where found: "map_res ?build ?gs = Inr found" "list_all2 (group_yields digest db) ?gs found" by blast
  have "distinct (map ro_candidate_id (concat (map (\<lambda>x. case x of None \<Rightarrow> [] | Some c \<Rightarrow> [c]) found)))"
  proof (rule somes_distinct [OF found(2)])
    show "distinct ?gs" using groups_distinct [of db] by (simp add: distinct_map)
    fix g g' c c'
    assume g: "g \<in> set ?gs" "g' \<in> set ?gs" "group_yields digest db g (Some c)" "group_yields digest db g' (Some c')"
      "ro_candidate_id c = ro_candidate_id c'"
    then have "(fst g, snd g) \<in> set (outflow_groups db)" "(fst g', snd g') \<in> set (outflow_groups db)" by simp_all
    with g same_identifier_same_group [OF ev this, of c c'] have "fst g = fst g'" by simp
    moreover from \<open>(fst g, snd g) \<in> _\<close> \<open>(fst g', snd g') \<in> _\<close>
    have "snd g = repeating_rows db (fst g)" "snd g' = repeating_rows db (fst g')" unfolding groups_are_rows by blast+
    ultimately show "g = g'" by (metis prod.expand)
  qed
  with found that show thesis by blast
qed

lemma candidate_reasons:
  "valid_reason (Some ''No supported checking or savings accounts establish coverage'')"
  "valid_reason (Some ''No complete observed cash months establish candidate evidence'')"
  by code_simp+

lemma candidate_states:
  "''unavailable'' \<noteq> ''available''" "''unavailable'' \<noteq> ''empty''" "''empty'' \<noteq> ''available''"
  by simp_all

lemma no_reason: "valid_reason None"
  by (simp add: valid_reason_def)

lemma unavailable_list:
  "valid_reason (Some r) \<Longrightarrow> candidate_list d ''unavailable'' [] (Some r) =
     Inr \<lparr>rl_state = ''unavailable'', rl_observed_on = d, rl_candidates = [], rl_reason = Some r\<rparr>"
  by (simp add: candidate_list_def contract_def valid_candidate_list_def)

lemma empty_list:
  "candidate_list d ''empty'' [] None =
     Inr \<lparr>rl_state = ''empty'', rl_observed_on = d, rl_candidates = [], rl_reason = None\<rparr>"
  using no_reason by (simp add: candidate_list_def contract_def valid_candidate_list_def)

lemma available_list:
  "cs \<noteq> [] \<Longrightarrow> distinct (map ro_candidate_id cs) \<Longrightarrow> candidate_list d ''available'' cs None =
     Inr \<lparr>rl_state = ''available'', rl_observed_on = d, rl_candidates = cs, rl_reason = None\<rparr>"
  using no_reason by (simp add: candidate_list_def contract_def valid_candidate_list_def)

lemma contract_Inr: "contract valid x = Inr y \<Longrightarrow> y = x \<and> valid x"
  by (simp add: contract_def split: if_splits)

lemma candidate_list_fields:
  "candidate_list d st cs r = Inr l \<Longrightarrow> valid_candidate_list l \<and> rl_candidates l = cs"
  unfolding candidate_list_def by (drule contract_Inr) simp

lemma few_months_list:
  assumes "ce_accounts (outflow_coverage db) = [] \<or> card (ce_months (outflow_coverage db)) < 3"
  shows "\<exists>l. recurring_outflow_candidates digest db d = Inr l \<and> rl_candidates l = []"
proof (cases "ce_accounts (outflow_coverage db) = []")
  case True
  show ?thesis
    unfolding recurring_outflow_candidates_def Let_def if_P [OF True] unavailable_list [OF candidate_reasons(1)] by simp
next
  case accounts: False
  show ?thesis
  proof (cases "ce_months (outflow_coverage db) = {}")
    case True
    show ?thesis
      unfolding recurring_outflow_candidates_def Let_def if_not_P [OF accounts] if_P [OF True]
        unavailable_list [OF candidate_reasons(2)]
      by simp
  next
    case False
    have few: "card (ce_months (outflow_coverage db)) < 3" using assms accounts by simp
    show ?thesis
      unfolding recurring_outflow_candidates_def Let_def if_not_P [OF accounts] if_not_P [OF False] if_P [OF few] empty_list
      by simp
  qed
qed

lemma enough_months_list:
  assumes ev: "outflow_evidence digest db"
    and "ce_accounts (outflow_coverage db) \<noteq> []" "3 \<le> card (ce_months (outflow_coverage db))"
  obtains l found where "recurring_outflow_candidates digest db d = Inr l"
    "list_all2 (group_yields digest db) (sort_key fst (outflow_groups db)) found"
    "\<And>c. c \<in> set (rl_candidates l) \<longleftrightarrow> Some c \<in> set found"
proof -
  obtain found where found:
    "map_res (\<lambda>((a, n), ts). build_candidate digest db (outflow_labels db) a n ts) (sort_key fst (outflow_groups db)) = Inr found"
    "list_all2 (group_yields digest db) (sort_key fst (outflow_groups db)) found"
    "distinct (map ro_candidate_id (concat (map (\<lambda>x. case x of None \<Rightarrow> [] | Some c \<Rightarrow> [c]) found)))"
    by (rule candidates_collected [OF ev])
  let ?cs = "concat (map (\<lambda>x. case x of None \<Rightarrow> [] | Some c \<Rightarrow> [c]) found)"
  have ne: "ce_months (outflow_coverage db) \<noteq> {}" using assms(3) by auto
  have many: "\<not> card (ce_months (outflow_coverage db)) < 3" using assms(3) by simp
  have run: "recurring_outflow_candidates digest db d
      = candidate_list d (if ?cs = [] then ''empty'' else ''available'') (sort_key candidate_order ?cs) None"
    unfolding recurring_outflow_candidates_def Let_def if_not_P [OF assms(2)] if_not_P [OF ne] if_not_P [OF many]
      outflow_labels_def [symmetric] outflow_groups_def [symmetric] found(1) bind_res_simps
    by (rule refl)
  have ids: "distinct (map ro_candidate_id (sort_key candidate_order ?cs))"
    using found(3) by (simp add: distinct_map)
  have "\<exists>l. recurring_outflow_candidates digest db d = Inr l \<and> rl_candidates l = sort_key candidate_order ?cs"
  proof (cases "?cs = []")
    case True
    have "sort_key candidate_order ?cs = []" unfolding True by simp
    then show ?thesis unfolding run if_P [OF True] by (simp only: empty_list) simp
  next
    case False
    then have "sort_key candidate_order ?cs \<noteq> []" by (metis length_0_conv length_sort)
    from available_list [OF this ids] show ?thesis unfolding run if_not_P [OF False] by simp
  qed
  then obtain l where l: "recurring_outflow_candidates digest db d = Inr l" "rl_candidates l = sort_key candidate_order ?cs"
    by blast
  have "c \<in> set (rl_candidates l) \<longleftrightarrow> Some c \<in> set found" for c
    unfolding l(2) set_sort by (rule somes_mem)
  with that [OF l(1) found(2)] show thesis by blast
qed

lemma all2_right: "list_all2 R xs ys \<Longrightarrow> y \<in> set ys \<Longrightarrow> \<exists>x \<in> set xs. R x y"
  by (induction rule: list_all2_induct) auto

lemma all2_left: "list_all2 R xs ys \<Longrightarrow> x \<in> set xs \<Longrightarrow> \<exists>y \<in> set ys. R x y"
  by (induction rule: list_all2_induct) auto

text \<open>
  C17: The report of recurring outflows is always produced when the rows are as the database stores
  them and descriptions have at most 500 characters: the list, every candidate and every amount
  range satisfies its contract, and no two candidates share an identifier.
\<close>

theorem recurring_outflows_valid:
  assumes "outflow_evidence digest db"
  shows "\<exists>l. recurring_outflow_candidates digest db observed_on = Inr l \<and> valid_candidate_list l
    \<and> list_all valid_candidate (rl_candidates l) \<and> list_all (\<lambda>c. valid_range (ro_amount_range c)) (rl_candidates l)"
proof -
  have valid: "valid_candidate_list l" if "recurring_outflow_candidates digest db observed_on = Inr l" for l
    using that unfolding recurring_outflow_candidates_def Let_def
    by (auto split: if_splits elim!: bind_res_InrE dest: candidate_list_fields)
  show ?thesis
  proof (cases "ce_accounts (outflow_coverage db) = [] \<or> card (ce_months (outflow_coverage db)) < 3")
    case True
    from few_months_list [OF this] valid show ?thesis by fastforce
  next
    case False
    then obtain l found where l: "recurring_outflow_candidates digest db observed_on = Inr l"
        "list_all2 (group_yields digest db) (sort_key fst (outflow_groups db)) found"
        "\<And>c. c \<in> set (rl_candidates l) \<longleftrightarrow> Some c \<in> set found"
      using enough_months_list [OF assms, of observed_on] by (auto simp: not_less)
    have "valid_candidate c \<and> valid_range (ro_amount_range c)" if "c \<in> set (rl_candidates l)" for c
    proof -
      from that have "Some c \<in> set found" unfolding l(3) .
      then obtain g where "group_yields digest db g (Some c)"
        using all2_right [OF l(2)] by blast
      then show ?thesis by (simp add: group_yields_def)
    qed
    with l(1) valid show ?thesis by (auto simp: list_all_iff)
  qed
qed

text \<open>
  C16: With three complete months, the candidates are exactly the payments that repeat: each
  describes all the eligible outflows of one account and description, which have a supported
  rhythm, fall in three months and stay within the tolerance of their median, and every such
  account and description has a candidate.
\<close>

theorem recurring_candidates_exact:
  assumes "outflow_evidence digest db" and "recurring_outflow_candidates digest db observed_on = Inr l"
    and "ce_accounts (complete_observed_cash_months (od_cash db)) \<noteq> []"
    and "3 \<le> card (ce_months (complete_observed_cash_months (od_cash db)))"
  shows "(\<forall>c \<in> set (rl_candidates l). \<exists>k label. repeats (repeating_rows db k)
      \<and> map_of (outflow_labels db) (fst k) = Some label \<and> describes digest label (snd k) (repeating_rows db k) c)
    \<and> (\<forall>k. repeats (repeating_rows db k) \<longrightarrow>
        (\<exists>c \<in> set (rl_candidates l). \<exists>label. map_of (outflow_labels db) (fst k) = Some label
          \<and> describes digest label (snd k) (repeating_rows db k) c))"
proof -
  obtain found where found: "list_all2 (group_yields digest db) (sort_key fst (outflow_groups db)) found"
      "\<And>c. c \<in> set (rl_candidates l) \<longleftrightarrow> Some c \<in> set found"
    by (rule enough_months_list [OF assms(1,3,4), of observed_on]) (use assms(2) in simp)
  show ?thesis
  proof (intro conjI ballI allI impI)
    fix c assume "c \<in> set (rl_candidates l)"
    then obtain g where g: "g \<in> set (outflow_groups db)" "group_yields digest db g (Some c)"
      using all2_right [OF found(1), of "Some c"] unfolding found(2) set_sort by blast
    then have "snd g = repeating_rows db (fst g)" using groups_are_rows [of "fst g" "snd g" db] by simp
    with g(2) show "\<exists>k label. repeats (repeating_rows db k)
      \<and> map_of (outflow_labels db) (fst k) = Some label \<and> describes digest label (snd k) (repeating_rows db k) c"
      by (intro exI [of _ "fst g"]) (auto simp: group_yields_def)
  next
    fix k assume r: "repeats (repeating_rows db k)"
    have "\<not> repeats []" by (simp add: repeats_def supported_cadence_def cadence_rules_def)
    with r have "(k, repeating_rows db k) \<in> set (outflow_groups db)" unfolding groups_are_rows by auto
    then obtain x where x: "x \<in> set found" "group_yields digest db (k, repeating_rows db k) x"
      using all2_left [OF found(1), of "(k, repeating_rows db k)"] unfolding set_sort by blast
    with r obtain c where "x = Some c" by (cases x) (auto simp: group_yields_def)
    with x found(2) show "\<exists>c \<in> set (rl_candidates l). \<exists>label. map_of (outflow_labels db) (fst k) = Some label
          \<and> describes digest label (snd k) (repeating_rows db k) c"
      by (auto simp: group_yields_def)
  qed
qed

section \<open>A rent\<close>

definition rent_snapshots :: "balance_snapshot list" where
  "rent_snapshots =
     concat (map (\<lambda>(m, e, i).
         [\<lparr>bs_id = i, bs_account_id = 1, bs_artifact_id = 1, bs_snapshot_date = Date 2026 m 1, bs_kind = ''opening'', bs_amount = 0\<rparr>,
          \<lparr>bs_id = i + 1, bs_account_id = 1, bs_artifact_id = 1, bs_snapshot_date = Date 2026 m e, bs_kind = ''closing'', bs_amount = 0\<rparr>])
       [(1, 31, 1), (2, 28, 3), (3, 31, 5)])"

definition rent_example :: outflow_db where
  "rent_example =
     \<lparr>od_cash =
        \<lparr>cd_institutions = [\<lparr>in_id = 1, in_canonical_name = ''SoFi'', in_kind = ''bank''\<rparr>],
         cd_accounts = [\<lparr>ac_id = 1, ac_institution_id = 1, ac_display_name = ''Checking'', ac_account_type = ''checking''\<rparr>],
         cd_snapshots = rent_snapshots, cd_points = [], cd_transactions = []\<rparr>,
      od_transactions = map (\<lambda>m.
        \<lparr>tx_id = nat m, tx_account_id = 1, tx_posted_date = Date 2026 m 5, tx_original_description = '' RENT  LLC'',
         tx_role = ''external_outflow'', tx_amount = -150000 - m, it_artifact_id = 7\<rparr>) [1, 2, 3],
      od_transfer_matches = [], od_artifact_hashes = [(7, ''ab'')]\<rparr>"

abbreviation zero_digest :: "string \<Rightarrow> string" where
  "zero_digest \<equiv> \<lambda>s. replicate 24 CHR ''0''"

lemma rent_rows:
  "list_all (stored_row rent_example) (od_transactions rent_example)" "distinct (map tx_id (od_transactions rent_example))"
  "length (cd_accounts (od_cash rent_example)) = 1"
  by code_simp+

lemma rent_payloads: "length (candidate_payloads rent_example) = 1"
  by code_simp

lemma rent_repeats: "repeats (repeating_rows rent_example (1, ''rent llc''))"
  by code_simp

lemma rent_coverage:
  "ce_accounts (complete_observed_cash_months (od_cash rent_example)) \<noteq> []"
  "card (ce_months (complete_observed_cash_months (od_cash rent_example))) = 3"
  by code_simp+

lemma rent_evidence: "outflow_evidence zero_digest rent_example"
proof -
  obtain p where "candidate_payloads rent_example = [p]"
    using rent_payloads by (auto simp: length_Suc_conv)
  moreover have "digest_text (replicate 24 CHR ''0'')" by code_simp
  ultimately show ?thesis using rent_rows by (simp add: outflow_evidence_def)
qed

theorem recurring_outflows_valid_witness:
  "\<exists>l. recurring_outflow_candidates zero_digest rent_example (Date 2026 4 1) = Inr l \<and> valid_candidate_list l"
  using recurring_outflows_valid [OF rent_evidence] by blast

theorem recurring_candidates_exact_witness:
  "\<exists>l. recurring_outflow_candidates zero_digest rent_example (Date 2026 4 1) = Inr l
     \<and> (\<exists>c \<in> set (rl_candidates l). \<exists>label. describes zero_digest label ''rent llc'' (repeating_rows rent_example (1, ''rent llc'')) c)"
proof -
  have months: "3 \<le> card (ce_months (complete_observed_cash_months (od_cash rent_example)))" using rent_coverage(2) by simp
  obtain l found where l: "recurring_outflow_candidates zero_digest rent_example (Date 2026 4 1) = Inr l"
    by (rule enough_months_list [OF rent_evidence rent_coverage(1) months])
  with recurring_candidates_exact [OF rent_evidence l rent_coverage(1) months] rent_repeats show ?thesis by fastforce
qed

end
