(* ===== verification/Plaid_Records.thy ===== *)
theory Plaid_Records
  imports Cash_Flow
begin

text \<open>
  \<open>plaid_records.py\<close>: reading and classifying the records of a Plaid response. A response arrives
  as parsed JSON; its collections are lists of typed records whose fields are scalars or missing, or
  malformed. A number is kept as the text \<open>str\<close> makes of it, which is all the code reads of it. Texts are
  ASCII.
\<close>

datatype plaid_error = Value_error | Plaid_api_error string string | Constraint_error | Reconcile_failed

datatype scalar = Text string | Number string | Truth bool

definition scalar_text :: "scalar \<Rightarrow> string" where
  "scalar_text v = (case v of Text s \<Rightarrow> s | Number s \<Rightarrow> s | Truth b \<Rightarrow> if b then ''True'' else ''False'')"

text \<open>\<open>None\<close> is a missing field or a JSON null.\<close>

definition optional_text :: "scalar option \<Rightarrow> string option" where
  "optional_text v = (case v of None \<Rightarrow> None | Some x \<Rightarrow> (let t = scalar_text x in if t = [] then None else Some t))"

definition required_text :: "scalar option \<Rightarrow> (plaid_error, string) result" where
  "required_text v = (case optional_text v of None \<Rightarrow> Inl Value_error | Some t \<Rightarrow> Inr t)"

definition first_text :: "string option \<Rightarrow> string option \<Rightarrow> string option" where
  "first_text a b = (case a of None \<Rightarrow> b | Some x \<Rightarrow> Some x)"

definition text_or :: "string \<Rightarrow> string option \<Rightarrow> string" where
  "text_or d v = (case v of None \<Rightarrow> d | Some x \<Rightarrow> x)"

text \<open>A collection: a list of objects, a list of so many elements of which some are no objects, or no list.\<close>

datatype 'a records = Records "'a list" | Mixed_records nat | No_records

definition object_records :: "'a records \<Rightarrow> (plaid_error, 'a list) result" where
  "object_records rs = (case rs of Records xs \<Rightarrow> Inr xs | Mixed_records _ \<Rightarrow> Inl Value_error | No_records \<Rightarrow> Inl Value_error)"

section \<open>Amounts and dates\<close>

text \<open>
  \<open>Decimal(text)\<close> of a finite number: white space around and underscores are dropped, then an optional sign,
  digits with at most one point, and an optional exponent. Anything else raises, as not a number and
  infinities do a line later.
\<close>

definition read_fraction :: "string \<Rightarrow> (nat \<times> nat) option" where
  "read_fraction s =
     (let whole = takeWhile is_digit s; rest = dropWhile is_digit s in
      case rest of
        [] \<Rightarrow> (if whole = [] then None else map_option (\<lambda>n. (n, 0)) (read_digits 0 whole))
      | c # part \<Rightarrow>
          if c = CHR ''.'' \<and> list_all is_digit part \<and> whole @ part \<noteq> []
          then map_option (\<lambda>n. (n, length part)) (read_digits 0 (whole @ part))
          else None)"

definition read_sign :: "string \<Rightarrow> rat \<times> string" where
  "read_sign s = (case s of [] \<Rightarrow> (1, s) | c # cs \<Rightarrow> if c = CHR ''-'' then (-1, cs) else if c = CHR ''+'' then (1, cs) else (1, s))"

definition is_exponent :: "char \<Rightarrow> bool" where
  "is_exponent c \<longleftrightarrow> c = CHR ''e'' \<or> c = CHR ''E''"

definition read_exponent :: "string \<Rightarrow> rat option" where
  "read_exponent s =
     (case s of
        [] \<Rightarrow> Some 1
      | _ # cs \<Rightarrow>
          (case read_sign cs of (sign, digits) \<Rightarrow>
             if digits = [] then None
             else map_option (\<lambda>n. if sign = 1 then 10 ^ n else 1 / 10 ^ n) (read_digits 0 digits)))"

definition trim :: "string \<Rightarrow> string" where
  "trim s = rev (dropWhile is_space (rev (dropWhile is_space s)))"

definition read_decimal :: "string \<Rightarrow> rat option" where
  "read_decimal text =
     (case read_sign (filter (\<lambda>c. c \<noteq> CHR ''_'') (trim text)) of (sign, s) \<Rightarrow>
        (case (read_fraction (takeWhile (\<lambda>c. \<not> is_exponent c) s), read_exponent (dropWhile (\<lambda>c. \<not> is_exponent c) s)) of
           (Some (n, k), Some e) \<Rightarrow> Some (sign * of_nat n / 10 ^ k * e)
         | _ \<Rightarrow> None))"

definition decimal_amount :: "scalar option \<Rightarrow> (plaid_error, rat) result" where
  "decimal_amount v =
     (case v of None \<Rightarrow> Inl Value_error
      | Some x \<Rightarrow> (case read_decimal (scalar_text x) of None \<Rightarrow> Inl Value_error | Some r \<Rightarrow> Inr r))"

definition truthy :: "scalar option \<Rightarrow> bool" where
  "truthy v =
     (case v of
        None \<Rightarrow> False
      | Some (Text s) \<Rightarrow> s \<noteq> []
      | Some (Number s) \<Rightarrow> read_decimal s \<noteq> Some 0
      | Some (Truth b) \<Rightarrow> b)"

definition money_amount :: "scalar option \<Rightarrow> (plaid_error, cents) result" where
  "money_amount v = bind_res (decimal_amount v) (\<lambda>r. Inr (money r))"

definition optional_money :: "scalar option \<Rightarrow> (plaid_error, cents option) result" where
  "optional_money v = (case v of None \<Rightarrow> Inr None | Some x \<Rightarrow> bind_res (money_amount v) (\<lambda>c. Inr (Some c)))"

text \<open>\<open>date.fromisoformat\<close> in the calendar forms \<open>YYYY-MM-DD\<close> and \<open>YYYYMMDD\<close>.\<close>

definition date_of_digits :: "string \<Rightarrow> date option" where
  "date_of_digits s =
     (if length s = 8 \<and> list_all is_digit s then
        (case (read_digits 0 (take 4 s), read_digits 0 (take 2 (drop 4 s)), read_digits 0 (drop 6 s)) of
           (Some y, Some m, Some d) \<Rightarrow>
             (let x = Date (int y) (int m) (int d) in if 1 \<le> y \<and> valid_date x then Some x else None)
         | _ \<Rightarrow> None)
      else None)"

definition parse_date :: "string \<Rightarrow> (plaid_error, date) result" where
  "parse_date s =
     (let digits = (if length s = 10 \<and> s ! 4 = CHR ''-'' \<and> s ! 7 = CHR ''-''
                    then take 4 s @ take 2 (drop 5 s) @ drop 8 s else s)
      in case date_of_digits digits of None \<Rightarrow> Inl Value_error | Some d \<Rightarrow> Inr d)"

section \<open>Records\<close>

record plaid_account_row =
  ra_account_id :: "scalar option"
  ra_name :: "scalar option"
  ra_official_name :: "scalar option"
  ra_mask :: "scalar option"
  ra_type :: "scalar option"
  ra_subtype :: "scalar option"
  ra_balance_current :: "scalar option"
  ra_balance_available :: "scalar option"

record plaid_transaction_row =
  rt_account_id :: "scalar option"
  rt_transaction_id :: "scalar option"
  rt_date :: "scalar option"
  rt_amount :: "scalar option"
  rt_pending :: "scalar option"
  rt_name :: "scalar option"
  rt_merchant_name :: "scalar option"
  rt_original_description :: "scalar option"
  rt_category_primary :: "scalar option"
  rt_category_detailed :: "scalar option"

record plaid_investment_row =
  ri_account_id :: "scalar option"
  ri_investment_transaction_id :: "scalar option"
  ri_date :: "scalar option"
  ri_amount :: "scalar option"
  ri_name :: "scalar option"
  ri_type :: "scalar option"
  ri_subtype :: "scalar option"

record plaid_security_row =
  rs_security_id :: "scalar option"
  rs_name :: "scalar option"
  rs_ticker_symbol :: "scalar option"
  rs_type :: "scalar option"
  rs_close_price_as_of :: "scalar option"

record plaid_holding_row =
  rh_account_id :: "scalar option"
  rh_security_id :: "scalar option"
  rh_quantity :: "scalar option"
  rh_institution_price :: "scalar option"
  rh_institution_value :: "scalar option"
  rh_cost_basis :: "scalar option"

section \<open>Roles\<close>

definition upper :: "string \<Rightarrow> string" where
  "upper s = map upper_char s"

definition present_texts :: "string option list \<Rightarrow> string list" where
  "present_texts xs = concat (map (\<lambda>x. case x of None \<Rightarrow> [] | Some s \<Rightarrow> [s]) xs)"

definition sofi_role :: "plaid_transaction_row \<Rightarrow> cents \<Rightarrow> string" where
  "sofi_role row a =
     (let description = upper (join_words (present_texts
            [optional_text (rt_name row), optional_text (rt_merchant_name row), optional_text (rt_original_description row)]));
          primary = upper (text_or '''' (optional_text (rt_category_primary row)));
          detailed = upper (text_or '''' (optional_text (rt_category_detailed row)));
          markers = [''FROM SAVINGS'', ''TO SAVINGS'', ''FROM CHECKING'', ''TO CHECKING'']
      in if contains description ''PAYROLL'' \<or> detailed = ''INCOME_WAGES'' then ''payroll_deposit''
         else if contains description ''INTEREST'' \<or> detailed = ''INCOME_INTEREST_EARNED'' then ''interest''
         else if primary = ''BANK_FEES'' \<or> contains detailed ''FEE'' then ''fee''
         else if list_ex (contains description) markers
            \<or> contains description ''FIDELITY'' \<and> (primary = ''TRANSFER_IN'' \<or> primary = ''TRANSFER_OUT'')
         then ''internal_transfer''
         else if 0 \<le> a then ''external_inflow'' else ''external_outflow'')"

definition fidelity_role :: "plaid_investment_row \<Rightarrow> string \<Rightarrow> string \<times> string" where
  "fidelity_role row description =
     (let transaction_type = lower (text_or '''' (optional_text (ri_type row)));
          subtype = lower (text_or '''' (optional_text (ri_subtype row)));
          label = upper description
      in if contains (filter (\<lambda>c. c \<noteq> CHR '' '') label) ''REALIZEDGAINLOSS'' then (''adjustment'', ''high'')
         else if contains label ''EMPLOYER'' \<and> (contains label ''MATCH'' \<or> contains label ''CONTRIB'')
         then (''employer_contribution'', ''medium'')
         else if contains label ''EMPLOYEE'' \<and> contains label ''CONTRIB'' then (''employee_contribution'', ''medium'')
         else if transaction_type = ''buy'' then (''purchase'', ''high'')
         else if transaction_type = ''sell'' then (''sale'', ''high'')
         else if subtype \<in> {''dividend'', ''qualified dividend'', ''non-qualified dividend''} then (''dividend'', ''high'')
         else if subtype = ''interest'' then (''interest'', ''high'')
         else if transaction_type = ''fee'' \<or> contains subtype ''fee'' then (''fee'', ''high'')
         else if transaction_type = ''transfer''
            \<or> list_ex (contains label) [''TRANSFERRED TO'', ''TRANSFERRED FROM'', ''TRANSFER TO FIDELITY'', ''FIDELITY CRYPTO'']
         then (''internal_transfer'', ''medium'')
         else if list_ex (contains label) [''ESPP'', ''STOCK PLAN'', ''SPP PURCHASE CREDIT'', ''JOURNALED SPP'']
            \<and> (subtype = ''contribution'' \<or> subtype = ''deposit'')
         then (''stock_plan_contribution'', ''medium'')
         else if subtype = ''contribution'' \<or> subtype = ''deposit'' then (''external_deposit'', ''high'')
         else if subtype = ''withdrawal'' then (''external_withdrawal'', ''high'')
         else if subtype = ''reinvestment'' then (''reinvestment'', ''high'')
         else (''unresolved'', ''low''))"

text \<open>The two bullets between name and mask are not ASCII; \<open>bullets\<close> stands for them.\<close>

definition bullets :: string where "bullets = [char_of (149 :: nat), char_of (149 :: nat)]"

definition account_display_name :: "plaid_account_row \<Rightarrow> string" where
  "account_display_name row =
     (let name = text_or ''Connected account'' (first_text (optional_text (ra_official_name row)) (optional_text (ra_name row))) in
      case optional_text (ra_mask row) of None \<Rightarrow> name | Some m \<Rightarrow> name @ '' '' @ bullets @ m)"

end
