(* ===== verification/Plaid_Store.thy ===== *)
theory Plaid_Store
  imports Plaid_Records Recurring_Outflows Investment_Bridges
begin

text \<open>
  The store of \<open>plaid_service.py\<close>: how a Plaid response becomes rows. Operations read and write one
  record of tables; raising leaves the caller to roll back. \<open>sha\<close> is the hexadecimal SHA-256 of a text.
\<close>

record provider_account = linked_account +
  ka_external_key :: string

record provider_transaction = imported_transaction +
  kt_source_row :: nat
  kt_provider_transaction_id :: "string option"

record source_evidence =
  ev_artifact_id :: nat
  ev_entity_type :: string
  ev_entity_id :: string
  ev_original_label :: string
  ev_confidence :: string

record investment_holding =
  ih_account_id :: nat
  ih_artifact_id :: nat
  ih_security_id :: string
  ih_security_name :: string
  ih_ticker_symbol :: "string option"
  ih_security_type :: string
  ih_quantity :: rat
  ih_institution_price :: "cents option"
  ih_institution_value :: cents
  ih_cost_basis :: "cents option"
  ih_as_of :: date

record sync_connection = plaid_connection +
  cn_environment :: string
  cn_target :: string
  cn_item_id :: string
  cn_transactions_cursor :: "string option"
  cn_last_error :: "string option"

record sync_batch = import_batch +
  sb_duplicate_count :: nat
  sb_error_count :: nat

record plaid_sync_run =
  sr_id :: nat
  sr_connection_id :: nat
  sr_batch_id :: nat
  sr_status :: string
  sr_account_count :: nat
  sr_transaction_count :: nat
  sr_holding_count :: nat
  sr_error_code :: "string option"
  sr_error_message :: "string option"

record endpoint_evidence =
  ee_sync_run_id :: nat
  ee_artifact_id :: nat
  ee_endpoint :: string
  ee_request_id :: "string option"
  ee_response_sha256 :: string
  ee_record_count :: nat

text \<open>
  \<open>pd_book\<close> holds the payroll tables and what reconciliation derives; the tables it reads that Plaid also
  writes are those of this record. \<open>pd_scenarios\<close> are the identifiers of the stored forecasts.
\<close>

record plaid_db =
  pd_institutions :: "institution list"
  pd_connections :: "sync_connection list"
  pd_accounts :: "provider_account list"
  pd_batches :: "sync_batch list"
  pd_runs :: "plaid_sync_run list"
  pd_artifacts :: "import_artifact list"
  pd_endpoints :: "endpoint_evidence list"
  pd_transactions :: "provider_transaction list"
  pd_evidence :: "source_evidence list"
  pd_snapshots :: "balance_snapshot list"
  pd_holdings :: "investment_holding list"
  pd_scenarios :: "nat list"
  pd_book :: reconciliation_db

section \<open>Responses\<close>

text \<open>
  \<open>rp_sha256\<close> is the SHA-256 of the serialised response. In a page of the history, missing lists count as
  empty ones.
\<close>

record response =
  rp_sha256 :: string
  rp_request_id :: "scalar option"
  rp_accounts :: "plaid_account_row records"

record transaction_page = response +
  tp_added :: "plaid_transaction_row records"
  tp_modified :: "plaid_transaction_row records"
  tp_removed :: "plaid_transaction_row records"
  tp_next_cursor :: "scalar option"

record history_page = response +
  hp_transactions :: "plaid_transaction_row records"

record holdings_response = response +
  hr_securities :: "plaid_security_row records"
  hr_holdings :: "plaid_holding_row records"

record investment_page = response +
  ip_transactions :: "plaid_investment_row records"

section \<open>Accounts and balances\<close>

definition provider_key :: "(string \<Rightarrow> string) \<Rightarrow> string \<Rightarrow> string \<Rightarrow> string \<Rightarrow> string" where
  "provider_key sha item_id record_kind provider_id =
     ''plaid:'' @ sha (item_id @ '':'' @ record_kind @ '':'' @ provider_id)"

definition valid_target :: "string \<Rightarrow> bool" where
  "valid_target t \<longleftrightarrow> t = ''sofi'' \<or> t = ''fidelity''"

definition ensure_institution :: "sync_connection \<Rightarrow> plaid_db \<Rightarrow> (plaid_error, plaid_db \<times> nat) result" where
  "ensure_institution conn db =
     (if \<not> valid_target (cn_target conn) then Inl Value_error
      else let trimmed = trim (pc_institution_name conn);
               name = (if trimmed = [] then ''Connected institution'' else trimmed)
        in case find (\<lambda>i. in_canonical_name i = name) (pd_institutions db) of
             Some i \<Rightarrow> Inr (db, in_id i)
           | None \<Rightarrow>
               let i = next_id (map in_id (pd_institutions db)) in
               Inr (db\<lparr>pd_institutions := pd_institutions db @
                      [\<lparr>in_id = i, in_canonical_name = name,
                        in_kind = (if cn_target conn = ''sofi'' then ''bank'' else ''investment'')\<rparr>]\<rparr>, i))"

definition is_account_of :: "sync_connection \<Rightarrow> string \<Rightarrow> provider_account \<Rightarrow> bool" where
  "is_account_of conn key a \<longleftrightarrow> la_plaid_connection_id a = Some (pc_id conn) \<and> ka_external_key a = key"

definition row_account_type :: "string \<Rightarrow> plaid_account_row \<Rightarrow> string" where
  "row_account_type d row = text_or d (first_text (optional_text (ra_subtype row)) (optional_text (ra_type row)))"

text \<open>\<open>uq_account_external_key\<close>: an institution has one account of a key.\<close>

definition add_account ::
  "sync_connection \<Rightarrow> nat \<Rightarrow> string \<Rightarrow> plaid_account_row \<Rightarrow> plaid_db \<Rightarrow> (plaid_error, plaid_db \<times> nat) result"
where
  "add_account conn inst key row db =
     (if list_ex (\<lambda>a. ac_institution_id a = inst \<and> ka_external_key a = key) (pd_accounts db) then Inl Constraint_error
      else let i = next_id (map ac_id (pd_accounts db)) in
        Inr (db\<lparr>pd_accounts := pd_accounts db @
               [\<lparr>ac_id = i, ac_institution_id = inst, ac_display_name = account_display_name row,
                 ac_account_type = row_account_type ''other'' row, la_plaid_connection_id = Some (pc_id conn),
                 ka_external_key = key\<rparr>]\<rparr>, i))"

definition refresh_account :: "plaid_account_row \<Rightarrow> provider_account \<Rightarrow> provider_account" where
  "refresh_account row a =
     a\<lparr>ac_display_name := account_display_name row, ac_account_type := row_account_type (ac_account_type a) row\<rparr>"

definition update_account :: "nat \<Rightarrow> plaid_account_row \<Rightarrow> plaid_db \<Rightarrow> plaid_db" where
  "update_account i row db =
     db\<lparr>pd_accounts := map (\<lambda>a. if ac_id a = i then refresh_account row a else a) (pd_accounts db)\<rparr>"

type_synonym account_ids = "(string, nat) dict"

definition store_account ::
  "(string \<Rightarrow> string) \<Rightarrow> sync_connection \<Rightarrow> nat \<Rightarrow> plaid_account_row \<Rightarrow> plaid_db \<times> account_ids
     \<Rightarrow> (plaid_error, plaid_db \<times> account_ids) result"
where
  "store_account sha conn inst row = (\<lambda>(db, ids).
     bind_res (required_text (ra_account_id row)) (\<lambda>provider_id.
     let key = provider_key sha (cn_item_id conn) ''account'' provider_id in
     case find (is_account_of conn key) (pd_accounts db) of
       None \<Rightarrow> bind_res (add_account conn inst key row db) (\<lambda>(db', i). Inr (db', dict_set provider_id i ids))
     | Some a \<Rightarrow> Inr (update_account (ac_id a) row db, dict_set provider_id (ac_id a) ids)))"

definition store_accounts ::
  "(string \<Rightarrow> string) \<Rightarrow> sync_connection \<Rightarrow> plaid_account_row list \<Rightarrow> plaid_db \<Rightarrow> (plaid_error, plaid_db \<times> account_ids) result"
where
  "store_accounts sha conn rows db =
     bind_res (ensure_institution conn db) (\<lambda>(db', inst). for_each (store_account sha conn inst) rows (db', []))"

definition is_current :: "nat \<Rightarrow> date \<Rightarrow> balance_snapshot \<Rightarrow> bool" where
  "is_current account_id d r \<longleftrightarrow> bs_account_id r = account_id \<and> bs_snapshot_date r = d \<and> bs_kind r = ''current''"

definition put_current :: "nat \<Rightarrow> date \<Rightarrow> nat \<Rightarrow> cents \<Rightarrow> plaid_db \<Rightarrow> plaid_db" where
  "put_current account_id d artifact_id v db =
     (let rows = pd_snapshots db in
      db\<lparr>pd_snapshots :=
        (if list_ex (is_current account_id d) rows
         then map (\<lambda>r. if is_current account_id d r then r\<lparr>bs_artifact_id := artifact_id, bs_amount := v\<rparr> else r) rows
         else rows @ [\<lparr>bs_id = next_id (map bs_id rows), bs_account_id = account_id, bs_artifact_id = artifact_id,
                       bs_snapshot_date = d, bs_kind = ''current'', bs_amount = v\<rparr>])\<rparr>)"

text \<open>A missing account identifier is a missing key of the dictionary, which cannot happen after \<open>store_accounts\<close>.\<close>

definition account_of :: "account_ids \<Rightarrow> scalar option \<Rightarrow> (plaid_error, nat) result" where
  "account_of ids v =
     bind_res (required_text v) (\<lambda>k. case map_of ids k of None \<Rightarrow> Inl Value_error | Some i \<Rightarrow> Inr i)"

definition store_balance ::
  "account_ids \<Rightarrow> nat \<Rightarrow> date \<Rightarrow> plaid_account_row \<Rightarrow> plaid_db \<Rightarrow> (plaid_error, plaid_db) result"
where
  "store_balance ids artifact_id d row db =
     bind_res (account_of ids (ra_account_id row)) (\<lambda>i.
     case (case ra_balance_current row of None \<Rightarrow> ra_balance_available row | Some v \<Rightarrow> Some v) of
       None \<Rightarrow> Inl Value_error
     | Some v \<Rightarrow> bind_res (money_amount (Some v)) (\<lambda>c. Inr (put_current i d artifact_id c db)))"

definition store_current_balances ::
  "(string \<Rightarrow> string) \<Rightarrow> sync_connection \<Rightarrow> nat \<Rightarrow> plaid_account_row records \<Rightarrow> date \<Rightarrow> plaid_db
     \<Rightarrow> (plaid_error, plaid_db \<times> nat set) result"
where
  "store_current_balances sha conn artifact_id accounts d db =
     bind_res (object_records accounts) (\<lambda>rows.
     bind_res (store_accounts sha conn rows db) (\<lambda>(db', ids).
     bind_res (for_each (store_balance ids artifact_id d) rows db') (\<lambda>db''. Inr (db'', set (map snd ids)))))"

section \<open>Transactions\<close>

text \<open>What a record makes of a transaction.\<close>

record transaction_values =
  tv_account_id :: nat
  tv_artifact_id :: nat
  tv_posted_date :: date
  tv_description :: string
  tv_role :: string
  tv_amount :: cents
  tv_source_row :: nat
  tv_confidence :: string

definition write_values :: "transaction_values \<Rightarrow> provider_transaction \<Rightarrow> provider_transaction" where
  "write_values v t =
     t\<lparr>tx_account_id := tv_account_id v, tx_posted_date := tv_posted_date v, tx_original_description := tv_description v,
       tx_role := tv_role v, tx_amount := tv_amount v, it_artifact_id := tv_artifact_id v, kt_source_row := tv_source_row v\<rparr>"

definition new_transaction :: "nat \<Rightarrow> string \<Rightarrow> transaction_values \<Rightarrow> provider_transaction" where
  "new_transaction i provider_id v =
     \<lparr>tx_id = i, tx_account_id = tv_account_id v, tx_posted_date = tv_posted_date v,
      tx_original_description = tv_description v, tx_role = tv_role v, tx_amount = tv_amount v,
      it_artifact_id = tv_artifact_id v, kt_source_row = tv_source_row v, kt_provider_transaction_id = Some provider_id\<rparr>"

definition has_provider_id :: "string \<Rightarrow> provider_transaction \<Rightarrow> bool" where
  "has_provider_id provider_id t \<longleftrightarrow> kt_provider_transaction_id t = Some provider_id"

definition is_evidence_of :: "nat \<Rightarrow> source_evidence \<Rightarrow> bool" where
  "is_evidence_of i e \<longleftrightarrow> ev_entity_type e = ''account_transaction'' \<and> ev_entity_id e = show_nat i"

definition amount_evidence :: "nat \<Rightarrow> transaction_values \<Rightarrow> source_evidence" where
  "amount_evidence i v =
     \<lparr>ev_artifact_id = tv_artifact_id v, ev_entity_type = ''account_transaction'', ev_entity_id = show_nat i,
      ev_original_label = tv_role v, ev_confidence = tv_confidence v\<rparr>"

text \<open>\<open>uq_transaction_source_row\<close>: another transaction came from the same row for the same account.\<close>

definition source_row_taken :: "nat option \<Rightarrow> transaction_values \<Rightarrow> provider_transaction \<Rightarrow> bool" where
  "source_row_taken own v t \<longleftrightarrow> Some (tx_id t) \<noteq> own \<and> it_artifact_id t = tv_artifact_id v
     \<and> kt_source_row t = tv_source_row v \<and> tx_account_id t = tv_account_id v"

definition upsert_transaction ::
  "string \<Rightarrow> transaction_values \<Rightarrow> plaid_db \<Rightarrow> (plaid_error, plaid_db) result"
where
  "upsert_transaction provider_id v db =
     (case find (has_provider_id provider_id) (pd_transactions db) of
        None \<Rightarrow>
          if list_ex (source_row_taken None v) (pd_transactions db) then Inl Constraint_error
          else let i = next_id (map tx_id (pd_transactions db)) in
            Inr (db\<lparr>pd_transactions := pd_transactions db @ [new_transaction i provider_id v],
                    pd_evidence := pd_evidence db @ [amount_evidence i v]\<rparr>)
      | Some t \<Rightarrow>
          if list_ex (source_row_taken (Some (tx_id t)) v) (pd_transactions db) then Inl Constraint_error
          else Inr (db\<lparr>pd_transactions :=
                         map (\<lambda>s. if tx_id s = tx_id t then write_values v s else s) (pd_transactions db),
                       pd_evidence := filter (\<lambda>e. \<not> is_evidence_of (tx_id t) e) (pd_evidence db) @ [amount_evidence (tx_id t) v]\<rparr>))"

definition delete_provider_transaction :: "string \<Rightarrow> plaid_db \<Rightarrow> plaid_db" where
  "delete_provider_transaction provider_id db =
     (case find (has_provider_id provider_id) (pd_transactions db) of
        None \<Rightarrow> db
      | Some t \<Rightarrow>
          db\<lparr>pd_transactions := filter (\<lambda>s. tx_id s \<noteq> tx_id t) (pd_transactions db),
             pd_evidence := filter (\<lambda>e. \<not> is_evidence_of (tx_id t) e) (pd_evidence db)\<rparr>)"

text \<open>The sign is turned around: unary minus rounds to the precision of the context.\<close>

definition normalized_amount :: "scalar option \<Rightarrow> (plaid_error, cents) result" where
  "normalized_amount v = bind_res (decimal_amount v) (\<lambda>r. Inr (money (ctx (- r))))"

definition sofi_description :: "plaid_transaction_row \<Rightarrow> string" where
  "sofi_description row =
     text_or '''' (first_text (optional_text (rt_merchant_name row))
       (first_text (optional_text (rt_name row)) (optional_text (rt_original_description row))))"

definition sofi_values ::
  "account_ids \<Rightarrow> nat \<Rightarrow> nat \<Rightarrow> plaid_transaction_row \<Rightarrow> (plaid_error, string \<times> transaction_values) result"
where
  "sofi_values ids artifact_id source_row row =
     bind_res (account_of ids (rt_account_id row)) (\<lambda>account_id.
     bind_res (required_text (rt_transaction_id row)) (\<lambda>transaction_id.
     bind_res (normalized_amount (rt_amount row)) (\<lambda>a.
     let role = sofi_role row a in
     bind_res (required_text (rt_date row)) (\<lambda>text.
     bind_res (parse_date text) (\<lambda>posted.
       Inr (transaction_id,
         \<lparr>tv_account_id = account_id, tv_artifact_id = artifact_id, tv_posted_date = posted,
          tv_description = sofi_description row, tv_role = role, tv_amount = a, tv_source_row = source_row,
          tv_confidence = (if role \<noteq> ''internal_transfer'' then ''high'' else ''medium'')\<rparr>))))))"

definition store_sofi_row ::
  "(string \<Rightarrow> string) \<Rightarrow> sync_connection \<Rightarrow> account_ids \<Rightarrow> nat \<Rightarrow> nat \<times> plaid_transaction_row \<Rightarrow> plaid_db \<times> nat
     \<Rightarrow> (plaid_error, plaid_db \<times> nat) result"
where
  "store_sofi_row sha conn ids artifact_id = (\<lambda>(source_row, row) (db, changed).
     if truthy (rt_pending row) then Inr (db, changed)
     else bind_res (sofi_values ids artifact_id source_row row) (\<lambda>(transaction_id, v).
       bind_res (upsert_transaction (provider_key sha (cn_item_id conn) ''transaction'' transaction_id) v db) (\<lambda>db'.
         Inr (db', changed + 1))))"

definition remove_row :: "(string \<Rightarrow> string) \<Rightarrow> sync_connection \<Rightarrow> plaid_transaction_row \<Rightarrow> plaid_db \<Rightarrow> plaid_db" where
  "remove_row sha conn row db =
     (case optional_text (rt_transaction_id row) of
        None \<Rightarrow> db
      | Some i \<Rightarrow> delete_provider_transaction (provider_key sha (cn_item_id conn) ''transaction'' i) db)"

text \<open>Rows are numbered from 1.\<close>

definition numbered :: "'a list \<Rightarrow> (nat \<times> 'a) list" where
  "numbered xs = zip [1..<length xs + 1] xs"

definition store_sofi_transactions ::
  "(string \<Rightarrow> string) \<Rightarrow> sync_connection \<Rightarrow> nat \<Rightarrow> transaction_page \<Rightarrow> plaid_db \<Rightarrow> (plaid_error, plaid_db \<times> nat \<times> nat set) result"
where
  "store_sofi_transactions sha conn artifact_id page db =
     bind_res (object_records (rp_accounts page)) (\<lambda>account_rows.
     bind_res (store_accounts sha conn account_rows db) (\<lambda>(db1, ids).
     bind_res (object_records (tp_removed page)) (\<lambda>removed.
     bind_res (object_records (tp_added page)) (\<lambda>added.
     bind_res (object_records (tp_modified page)) (\<lambda>modified.
     bind_res (for_each (store_sofi_row sha conn ids artifact_id) (numbered (added @ modified))
         (fold (remove_row sha conn) removed db1, 0)) (\<lambda>(db2, changed).
       Inr (db2, changed, set (map snd ids))))))))"

end
