(* ===== verification/Plaid_Sync.thy ===== *)
theory Plaid_Sync
  imports Plaid_Store
begin

text \<open>
  The rest of the store of \<open>plaid_service.py\<close>: investments, the evidence of an endpoint, a synchronisation
  that commits everything or only its failure, and the revocation of a connection. The Plaid API is a
  record of functions.
\<close>

section \<open>Investments\<close>

definition store_holding ::
  "account_ids \<Rightarrow> (string, plaid_security_row) dict \<Rightarrow> nat \<Rightarrow> date \<Rightarrow> plaid_holding_row \<Rightarrow> plaid_db \<times> nat
     \<Rightarrow> (plaid_error, plaid_db \<times> nat) result"
where
  "store_holding ids securities artifact_id snapshot_date row = (\<lambda>(db, stored).
     bind_res (account_of ids (rh_account_id row)) (\<lambda>account_id.
     bind_res (required_text (rh_security_id row)) (\<lambda>security_id.
     let security = dict_get securities security_id
           \<lparr>rs_security_id = None, rs_name = None, rs_ticker_symbol = None, rs_type = None, rs_close_price_as_of = None\<rparr>;
         ticker = optional_text (rs_ticker_symbol security) in
     bind_res (decimal_amount (rh_quantity row)) (\<lambda>quantity.
     bind_res (optional_money (rh_institution_price row)) (\<lambda>price.
     bind_res (money_amount (rh_institution_value row)) (\<lambda>worth.
     bind_res (optional_money (rh_cost_basis row)) (\<lambda>cost_basis.
     bind_res (if truthy (rs_close_price_as_of security)
               then parse_date (scalar_text (the (rs_close_price_as_of security))) else Inr snapshot_date) (\<lambda>as_of.
       Inr (db\<lparr>pd_holdings := pd_holdings db @
              [\<lparr>ih_account_id = account_id, ih_artifact_id = artifact_id, ih_security_id = security_id,
                ih_security_name = text_or ''Unidentified security'' (first_text (optional_text (rs_name security)) ticker),
                ih_ticker_symbol = ticker, ih_security_type = text_or ''other'' (optional_text (rs_type security)),
                ih_quantity = quantity, ih_institution_price = price, ih_institution_value = worth,
                ih_cost_basis = cost_basis, ih_as_of = as_of\<rparr>]\<rparr>, stored + 1)))))))))"

definition index_security ::
  "plaid_security_row \<Rightarrow> (string, plaid_security_row) dict \<Rightarrow> (plaid_error, (string, plaid_security_row) dict) result"
where
  "index_security row securities = bind_res (required_text (rs_security_id row)) (\<lambda>k. Inr (dict_set k row securities))"

definition clear_holdings :: "nat set \<Rightarrow> plaid_db \<Rightarrow> plaid_db" where
  "clear_holdings account_ids db = db\<lparr>pd_holdings := filter (\<lambda>h. ih_account_id h \<notin> account_ids) (pd_holdings db)\<rparr>"

text \<open>\<open>uq_holding_account_security\<close>, which the flush at the end of the loop checks.\<close>

definition holding_key :: "investment_holding \<Rightarrow> nat \<times> string" where
  "holding_key h = (ih_account_id h, ih_security_id h)"

definition store_fidelity_holdings ::
  "(string \<Rightarrow> string) \<Rightarrow> sync_connection \<Rightarrow> nat \<Rightarrow> holdings_response \<Rightarrow> date \<Rightarrow> plaid_db
     \<Rightarrow> (plaid_error, plaid_db \<times> nat set \<times> nat) result"
where
  "store_fidelity_holdings sha conn artifact_id r snapshot_date db =
     bind_res (object_records (rp_accounts r)) (\<lambda>account_rows.
     bind_res (store_accounts sha conn account_rows db) (\<lambda>(db1, ids).
     bind_res (store_current_balances sha conn artifact_id (rp_accounts r) snapshot_date db1) (\<lambda>(db2, _).
     let account_ids = set (map snd ids) in
     bind_res (object_records (hr_securities r)) (\<lambda>security_rows.
     bind_res (for_each index_security security_rows []) (\<lambda>securities.
     bind_res (object_records (hr_holdings r)) (\<lambda>holding_rows.
     bind_res (for_each (store_holding ids securities artifact_id snapshot_date) holding_rows (clear_holdings account_ids db2, 0))
       (\<lambda>(db3, stored).
         if distinct (map holding_key (pd_holdings db3)) then Inr (db3, account_ids, stored) else Inl Constraint_error)))))))"

definition investment_values ::
  "account_ids \<Rightarrow> nat \<Rightarrow> nat \<Rightarrow> plaid_investment_row \<Rightarrow> (plaid_error, string \<times> transaction_values) result"
where
  "investment_values ids artifact_id source_row row =
     bind_res (account_of ids (ri_account_id row)) (\<lambda>account_id.
     bind_res (required_text (ri_investment_transaction_id row)) (\<lambda>transaction_id.
     bind_res (normalized_amount (ri_amount row)) (\<lambda>a.
     let description = text_or '''' (optional_text (ri_name row)); (role, confidence) = fidelity_role row description in
     bind_res (required_text (ri_date row)) (\<lambda>text.
     bind_res (parse_date text) (\<lambda>posted.
       Inr (transaction_id,
         \<lparr>tv_account_id = account_id, tv_artifact_id = artifact_id, tv_posted_date = posted, tv_description = description,
          tv_role = role, tv_amount = a, tv_source_row = source_row, tv_confidence = confidence\<rparr>))))))"

definition store_investment_row ::
  "(string \<Rightarrow> string) \<Rightarrow> sync_connection \<Rightarrow> account_ids \<Rightarrow> nat \<Rightarrow> nat \<times> plaid_investment_row \<Rightarrow> plaid_db \<times> nat
     \<Rightarrow> (plaid_error, plaid_db \<times> nat) result"
where
  "store_investment_row sha conn ids artifact_id = (\<lambda>(source_row, row) (db, changed).
     bind_res (investment_values ids artifact_id source_row row) (\<lambda>(transaction_id, v).
     bind_res (upsert_transaction (provider_key sha (cn_item_id conn) ''investment'' transaction_id) v db) (\<lambda>db'.
       Inr (db', changed + 1))))"

definition store_fidelity_transactions ::
  "(string \<Rightarrow> string) \<Rightarrow> sync_connection \<Rightarrow> nat \<Rightarrow> investment_page \<Rightarrow> plaid_db \<Rightarrow> (plaid_error, plaid_db \<times> nat \<times> nat set) result"
where
  "store_fidelity_transactions sha conn artifact_id page db =
     bind_res (object_records (rp_accounts page)) (\<lambda>account_rows.
     bind_res (store_accounts sha conn account_rows db) (\<lambda>(db1, ids).
     bind_res (object_records (ip_transactions page)) (\<lambda>rows.
     bind_res (for_each (store_investment_row sha conn ids artifact_id) (numbered rows) (db1, 0)) (\<lambda>(db2, changed).
       Inr (db2, changed, set (map snd ids))))))"

section \<open>Endpoints\<close>

definition parser_version :: string where "parser_version = ''1.0.2''"

definition strip_slashes :: "string \<Rightarrow> string" where
  "strip_slashes s = rev (dropWhile (\<lambda>c. c = CHR ''/'') (rev (dropWhile (\<lambda>c. c = CHR ''/'') s)))"

definition safe_endpoint :: "string \<Rightarrow> string" where
  "safe_endpoint endpoint =
     map (\<lambda>c. if c = CHR ''/'' then CHR ''-'' else c) (strip_slashes (takeWhile (\<lambda>c. c \<noteq> CHR ''?'') endpoint))"

definition add_endpoint :: "plaid_sync_run \<Rightarrow> nat \<Rightarrow> string \<Rightarrow> 'a response_scheme \<Rightarrow> nat \<Rightarrow> plaid_db \<Rightarrow> plaid_db" where
  "add_endpoint run artifact_id endpoint r record_count db =
     db\<lparr>pd_endpoints := pd_endpoints db @
          [\<lparr>ee_sync_run_id = sr_id run, ee_artifact_id = artifact_id, ee_endpoint = endpoint,
            ee_request_id = optional_text (rp_request_id r), ee_response_sha256 = rp_sha256 r,
            ee_record_count = record_count\<rparr>]\<rparr>"

definition record_endpoint ::
  "plaid_sync_run \<Rightarrow> sync_connection \<Rightarrow> string \<Rightarrow> 'a response_scheme \<Rightarrow> nat \<Rightarrow> plaid_db \<Rightarrow> plaid_db \<times> nat \<times> bool"
where
  "record_endpoint run conn endpoint r record_count db =
     (case find (\<lambda>a. ia_sha256 a = rp_sha256 r) (pd_artifacts db) of
        Some a \<Rightarrow> (add_endpoint run (ia_id a) endpoint r record_count db, ia_id a, False)
      | None \<Rightarrow>
          let i = next_id (map ia_id (pd_artifacts db));
              db' = db\<lparr>pd_artifacts := pd_artifacts db @
                [\<lparr>ia_id = i, ia_batch_id = sr_batch_id run, ia_sha256 = rp_sha256 r,
                  ia_original_filename = ''plaid-'' @ cn_target conn @ ''-'' @ safe_endpoint endpoint @ ''-'' @ take 12 (rp_sha256 r) @ ''.json'',
                  ia_source_kind = ''plaid_'' @ cn_environment conn, ia_adapter = ''plaid_'' @ cn_target conn,
                  ia_parser_version = parser_version\<rparr>]\<rparr>
          in (add_endpoint run i endpoint r record_count db', i, True))"

definition list_count :: "'a records \<Rightarrow> nat" where
  "list_count rs = (case rs of Records xs \<Rightarrow> length xs | Mixed_records n \<Rightarrow> n | No_records \<Rightarrow> 0)"

section \<open>Synchronisation\<close>

record plaid_api =
  api_transactions_sync :: "string option \<Rightarrow> (string \<times> string, transaction_page list) result"
  api_transactions_get :: "date \<Rightarrow> (string \<times> string, history_page list) result"
  api_accounts_balance_get :: "(string \<times> string, response) result"
  api_investments_holdings_get :: "(string \<times> string, holdings_response) result"
  api_investments_transactions_get :: "date \<Rightarrow> (string \<times> string, investment_page list) result"

definition api_call :: "(string \<times> string, 'a) result \<Rightarrow> (plaid_error, 'a) result" where
  "api_call r = (case r of Inl (code, message) \<Rightarrow> Inl (Plaid_api_error code message) | Inr x \<Rightarrow> Inr x)"

text \<open>When the data changes while it is paged, the pages are fetched again from the beginning.\<close>

definition transactions_pages :: "plaid_api \<Rightarrow> string option \<Rightarrow> (plaid_error, transaction_page list) result" where
  "transactions_pages api cursor =
     (case api_transactions_sync api cursor of
        Inl (code, message) \<Rightarrow>
          (if code = ''TRANSACTIONS_SYNC_MUTATION_DURING_PAGINATION'' then api_call (api_transactions_sync api None)
           else Inl (Plaid_api_error code message))
      | Inr pages \<Rightarrow> Inr pages)"

record sync_counts =
  sc_endpoints :: nat
  sc_new_artifacts :: nat
  sc_duplicate_artifacts :: nat
  sc_account_ids :: "nat set"
  sc_transactions :: nat
  sc_holdings :: nat
  sc_cursor :: "string option"

definition count_endpoint :: "bool \<Rightarrow> nat set \<Rightarrow> nat \<Rightarrow> sync_counts \<Rightarrow> sync_counts" where
  "count_endpoint created seen changed c =
     c\<lparr>sc_endpoints := sc_endpoints c + 1, sc_new_artifacts := sc_new_artifacts c + (if created then 1 else 0),
       sc_duplicate_artifacts := sc_duplicate_artifacts c + (if created then 0 else 1),
       sc_account_ids := sc_account_ids c \<union> seen, sc_transactions := sc_transactions c + changed\<rparr>"

definition page_endpoint :: "string \<Rightarrow> nat \<Rightarrow> string" where
  "page_endpoint path n = path @ ''?page='' @ show_nat n"

definition sync_page ::
  "(string \<Rightarrow> string) \<Rightarrow> plaid_sync_run \<Rightarrow> sync_connection \<Rightarrow> nat \<times> transaction_page \<Rightarrow> plaid_db \<times> sync_counts
     \<Rightarrow> (plaid_error, plaid_db \<times> sync_counts) result"
where
  "sync_page sha run conn = (\<lambda>(n, page) (db, c).
     let (db1, artifact_id, created) = record_endpoint run conn (page_endpoint ''/transactions/sync'' n) page
           (list_count (tp_added page) + list_count (tp_modified page) + list_count (tp_removed page)) db in
     bind_res (store_sofi_transactions sha conn artifact_id page db1) (\<lambda>(db2, changed, seen).
       let c' = count_endpoint created seen changed c in
       Inr (db2, c'\<lparr>sc_cursor := first_text (optional_text (tp_next_cursor page)) (sc_cursor c')\<rparr>)))"

text \<open>A page of the history is stored as a page that adds its transactions.\<close>

definition normalized_page :: "history_page \<Rightarrow> transaction_page" where
  "normalized_page h =
     \<lparr>rp_sha256 = rp_sha256 h, rp_request_id = rp_request_id h, rp_accounts = rp_accounts h,
      tp_added = hp_transactions h, tp_modified = Records [], tp_removed = Records [], tp_next_cursor = None\<rparr>"

definition sync_history_page ::
  "(string \<Rightarrow> string) \<Rightarrow> plaid_sync_run \<Rightarrow> sync_connection \<Rightarrow> nat \<times> history_page \<Rightarrow> plaid_db \<times> sync_counts
     \<Rightarrow> (plaid_error, plaid_db \<times> sync_counts) result"
where
  "sync_history_page sha run conn = (\<lambda>(n, page) (db, c).
     let (db1, artifact_id, created) = record_endpoint run conn (page_endpoint ''/transactions/get'' n) page
           (list_count (hp_transactions page)) db in
     bind_res (store_sofi_transactions sha conn artifact_id (normalized_page page) db1) (\<lambda>(db2, changed, seen).
       Inr (db2, count_endpoint created seen changed c)))"

definition sync_sofi ::
  "(string \<Rightarrow> string) \<Rightarrow> plaid_api \<Rightarrow> plaid_sync_run \<Rightarrow> sync_connection \<Rightarrow> date \<Rightarrow> plaid_db \<times> sync_counts
     \<Rightarrow> (plaid_error, plaid_db \<times> sync_counts) result"
where
  "sync_sofi sha api run conn snapshot_date state =
     bind_res (transactions_pages api (cn_transactions_cursor conn)) (\<lambda>pages.
     bind_res (for_each (sync_page sha run conn) (numbered pages) state) (\<lambda>state1.
     bind_res (api_call (api_transactions_get api snapshot_date)) (\<lambda>history.
     bind_res (for_each (sync_history_page sha run conn) (numbered history) state1) (\<lambda>(db, c).
     bind_res (api_call (api_accounts_balance_get api)) (\<lambda>balances.
     let (db1, artifact_id, created) = record_endpoint run conn ''/accounts/balance/get'' balances (list_count (rp_accounts balances)) db in
     bind_res (store_current_balances sha conn artifact_id (rp_accounts balances) snapshot_date db1) (\<lambda>(db2, seen).
       Inr (db2, count_endpoint created seen 0 c)))))))"

definition sync_investment_page ::
  "(string \<Rightarrow> string) \<Rightarrow> plaid_sync_run \<Rightarrow> sync_connection \<Rightarrow> nat \<times> investment_page \<Rightarrow> plaid_db \<times> sync_counts
     \<Rightarrow> (plaid_error, plaid_db \<times> sync_counts) result"
where
  "sync_investment_page sha run conn = (\<lambda>(n, page) (db, c).
     let (db1, artifact_id, created) = record_endpoint run conn (page_endpoint ''/investments/transactions/get'' n) page
           (list_count (ip_transactions page)) db in
     bind_res (store_fidelity_transactions sha conn artifact_id page db1) (\<lambda>(db2, changed, seen).
       Inr (db2, count_endpoint created seen changed c)))"

definition sync_fidelity ::
  "(string \<Rightarrow> string) \<Rightarrow> plaid_api \<Rightarrow> plaid_sync_run \<Rightarrow> sync_connection \<Rightarrow> date \<Rightarrow> plaid_db \<times> sync_counts
     \<Rightarrow> (plaid_error, plaid_db \<times> sync_counts) result"
where
  "sync_fidelity sha api run conn snapshot_date = (\<lambda>(db, c).
     bind_res (api_call (api_investments_holdings_get api)) (\<lambda>holdings.
     let (db1, artifact_id, created) = record_endpoint run conn ''/investments/holdings/get'' holdings (list_count (hr_holdings holdings)) db in
     bind_res (store_fidelity_holdings sha conn artifact_id holdings snapshot_date db1) (\<lambda>(db2, seen, stored).
     let c2 = (count_endpoint created seen 0 c)\<lparr>sc_holdings := stored\<rparr> in
     bind_res (api_call (api_investments_transactions_get api snapshot_date)) (\<lambda>pages.
       for_each (sync_investment_page sha run conn) (numbered pages) (db2, c2)))))"

text \<open>\<open>delete(ForecastScenario)\<close> and \<open>reconcile_all\<close> on the tables as they are now.\<close>

definition cash_tables :: "plaid_db \<Rightarrow> cash_db" where
  "cash_tables db =
     (rd_cash (pd_book db))\<lparr>cd_institutions := pd_institutions db, cd_accounts := map account.truncate (pd_accounts db),
        cd_snapshots := pd_snapshots db, cd_transactions := map account_transaction.truncate (pd_transactions db)\<rparr>"

definition reconcile_tables :: "(json \<Rightarrow> string) \<Rightarrow> (string \<Rightarrow> string) \<Rightarrow> plaid_db \<Rightarrow> (plaid_error, plaid_db) result" where
  "reconcile_tables digest sha db =
     (case reconcile_all digest sha ((pd_book db)\<lparr>rd_cash := cash_tables db\<rparr>) of
        Inl _ \<Rightarrow> Inl Reconcile_failed
      | Inr book \<Rightarrow> Inr (db\<lparr>pd_scenarios := [], pd_book := book\<rparr>))"

definition sync_data ::
  "(json \<Rightarrow> string) \<Rightarrow> (string \<Rightarrow> string) \<Rightarrow> plaid_api \<Rightarrow> plaid_sync_run \<Rightarrow> sync_connection \<Rightarrow> date \<Rightarrow> plaid_db
     \<Rightarrow> (plaid_error, plaid_db \<times> sync_counts) result"
where
  "sync_data digest sha api run conn snapshot_date db =
     (let state = (db, \<lparr>sc_endpoints = 0, sc_new_artifacts = 0, sc_duplicate_artifacts = 0, sc_account_ids = {},
            sc_transactions = 0, sc_holdings = 0, sc_cursor = cn_transactions_cursor conn\<rparr>) in
      bind_res (if cn_target conn = ''sofi'' then sync_sofi sha api run conn snapshot_date state
                else sync_fidelity sha api run conn snapshot_date state) (\<lambda>(db1, c).
      bind_res (reconcile_tables digest sha db1) (\<lambda>db2. Inr (db2, c))))"

definition open_run :: "sync_connection \<Rightarrow> plaid_db \<Rightarrow> plaid_db \<times> plaid_sync_run" where
  "open_run conn db =
     (let b = next_id (map ib_id (pd_batches db));
          run = \<lparr>sr_id = next_id (map sr_id (pd_runs db)), sr_connection_id = pc_id conn, sr_batch_id = b, sr_status = ''running'',
                 sr_account_count = 0, sr_transaction_count = 0, sr_holding_count = 0, sr_error_code = None, sr_error_message = None\<rparr>
      in (db\<lparr>pd_batches := pd_batches db @
               [\<lparr>ib_id = b, ib_status = ''running'', ib_requested_source = ''plaid_'' @ cn_environment conn, ib_artifact_count = 0,
                 ib_imported_count = 0, sb_duplicate_count = 0, sb_error_count = 0\<rparr>],
             pd_runs := pd_runs db @ [run]\<rparr>, run))"

definition update_run :: "nat \<Rightarrow> (plaid_sync_run \<Rightarrow> plaid_sync_run) \<Rightarrow> plaid_db \<Rightarrow> plaid_db" where
  "update_run i f db = db\<lparr>pd_runs := map (\<lambda>r. if sr_id r = i then f r else r) (pd_runs db)\<rparr>"

definition update_batch :: "nat \<Rightarrow> (sync_batch \<Rightarrow> sync_batch) \<Rightarrow> plaid_db \<Rightarrow> plaid_db" where
  "update_batch i f db = db\<lparr>pd_batches := map (\<lambda>b. if ib_id b = i then f b else b) (pd_batches db)\<rparr>"

definition update_connection :: "nat \<Rightarrow> (sync_connection \<Rightarrow> sync_connection) \<Rightarrow> plaid_db \<Rightarrow> plaid_db" where
  "update_connection i f db = db\<lparr>pd_connections := map (\<lambda>c. if pc_id c = i then f c else c) (pd_connections db)\<rparr>"

definition temporary_codes :: "string list" where
  "temporary_codes =
     [''INSTITUTION_DOWN'', ''INSTITUTION_NOT_RESPONDING'', ''INTERNAL_SERVER_ERROR'', ''NETWORK_ERROR'',
      ''PRODUCT_NOT_READY'', ''RATE_LIMIT_EXCEEDED'']"

text \<open>Code, message, new status and last error of a failure.\<close>

definition failure_facts :: "plaid_error \<Rightarrow> string \<times> string \<times> string \<times> string" where
  "failure_facts e =
     (case e of
        Plaid_api_error code message \<Rightarrow>
          (code, message, if code \<in> set temporary_codes then ''temporarily_unavailable'' else ''needs_attention'',
           take 500 (code @ '': '' @ message))
      | _ \<Rightarrow>
          let message = ''Local normalization failed; no partial sync was committed.'' in
          (''LOCAL_SYNC_ERROR'', message, ''needs_attention'', message))"

definition fail_run :: "plaid_sync_run \<Rightarrow> sync_connection \<Rightarrow> plaid_error \<Rightarrow> plaid_db \<Rightarrow> plaid_db" where
  "fail_run run conn e db =
     (case failure_facts e of (code, message, status, last_error) \<Rightarrow>
        update_connection (pc_id conn) (\<lambda>c. c\<lparr>pc_status := status, cn_last_error := Some last_error\<rparr>)
          (update_batch (sr_batch_id run) (\<lambda>b. b\<lparr>ib_status := ''complete_with_errors'', sb_error_count := 1\<rparr>)
            (update_run (sr_id run) (\<lambda>r. r\<lparr>sr_status := ''failed'', sr_error_code := Some code, sr_error_message := Some message\<rparr>) db)))"

definition complete_run :: "plaid_sync_run \<Rightarrow> sync_connection \<Rightarrow> sync_counts \<Rightarrow> date \<Rightarrow> plaid_db \<Rightarrow> plaid_db" where
  "complete_run run conn c today db =
     update_connection (pc_id conn)
       (\<lambda>x. x\<lparr>pc_status := ''active'', pc_last_synced_on := Some today, cn_transactions_cursor := sc_cursor c, cn_last_error := None\<rparr>)
       (update_batch (sr_batch_id run)
         (\<lambda>b. b\<lparr>ib_status := ''complete'', ib_artifact_count := int (sc_endpoints c), ib_imported_count := int (sc_new_artifacts c),
                sb_duplicate_count := sc_duplicate_artifacts c\<rparr>)
         (update_run (sr_id run)
           (\<lambda>r. r\<lparr>sr_status := ''complete'', sr_account_count := card (sc_account_ids c),
                  sr_transaction_count := sc_transactions c, sr_holding_count := sc_holdings c\<rparr>) db))"

text \<open>
  The committed tables, and whether the call returned. \<open>credentials\<close> says that the keychain has the
  client's credentials and the access token; \<open>today\<close> is the local date the run ends on.
\<close>

definition sync_plaid_connection ::
  "(json \<Rightarrow> string) \<Rightarrow> (string \<Rightarrow> string) \<Rightarrow> plaid_api \<Rightarrow> bool \<Rightarrow> date \<Rightarrow> date \<Rightarrow> nat \<Rightarrow> plaid_db
     \<Rightarrow> plaid_db \<times> (plaid_error, unit) result"
where
  "sync_plaid_connection digest sha api credentials snapshot_date today connection_id db =
     (case find (\<lambda>c. pc_id c = connection_id) (pd_connections db) of
        None \<Rightarrow> (db, Inl Value_error)
      | Some conn \<Rightarrow>
          if pc_status conn = ''revoked'' \<or> cn_environment conn \<notin> {''sandbox'', ''production''} \<or> \<not> valid_target (cn_target conn)
             \<or> \<not> credentials
          then (db, Inl Value_error)
          else let (db1, run) = open_run conn db in
            case sync_data digest sha api run conn snapshot_date db1 of
              Inl e \<Rightarrow> (fail_run run conn e db1, Inl e)
            | Inr (db2, c) \<Rightarrow> (complete_run run conn c today db2, Inr ()))"

section \<open>Revocation\<close>

text \<open>The connection with everything it owns: its runs, its accounts and what refers to them.\<close>

definition delete_connection :: "nat \<Rightarrow> plaid_db \<Rightarrow> plaid_db" where
  "delete_connection i db =
     (let gone = set (map ac_id (filter (\<lambda>a. la_plaid_connection_id a = Some i) (pd_accounts db)));
          transactions = set (map (show_nat \<circ> tx_id) (filter (\<lambda>t. tx_account_id t \<in> gone) (pd_transactions db)));
          balances = set (map (show_nat \<circ> bs_id) (filter (\<lambda>b. bs_account_id b \<in> gone) (pd_snapshots db)));
          runs = set (map sr_id (filter (\<lambda>r. sr_connection_id r = i) (pd_runs db)))
      in db\<lparr>pd_connections := filter (\<lambda>c. pc_id c \<noteq> i) (pd_connections db),
            pd_accounts := filter (\<lambda>a. ac_id a \<notin> gone) (pd_accounts db),
            pd_runs := filter (\<lambda>r. sr_id r \<notin> runs) (pd_runs db),
            pd_endpoints := filter (\<lambda>e. ee_sync_run_id e \<notin> runs) (pd_endpoints db),
            pd_transactions := filter (\<lambda>t. tx_account_id t \<notin> gone) (pd_transactions db),
            pd_evidence := filter (\<lambda>e. \<not> (ev_entity_type e = ''account_transaction'' \<and> ev_entity_id e \<in> transactions
              \<or> ev_entity_type e = ''balance_snapshot'' \<and> ev_entity_id e \<in> balances)) (pd_evidence db),
            pd_snapshots := filter (\<lambda>b. bs_account_id b \<notin> gone) (pd_snapshots db),
            pd_holdings := filter (\<lambda>h. ih_account_id h \<notin> gone) (pd_holdings db)\<rparr>)"

text \<open>\<open>removed\<close> is the answer of \<open>/item/remove\<close>, asked when there is a token and the connection is not revoked.\<close>

definition revoke_plaid_connection ::
  "(json \<Rightarrow> string) \<Rightarrow> (string \<Rightarrow> string) \<Rightarrow> (string \<times> string, unit) result \<Rightarrow> bool \<Rightarrow> bool \<Rightarrow> nat \<Rightarrow> plaid_db
     \<Rightarrow> (plaid_error, plaid_db) result"
where
  "revoke_plaid_connection digest sha removed token delete_local_data connection_id db =
     (case find (\<lambda>c. pc_id c = connection_id) (pd_connections db) of
        None \<Rightarrow> Inl Value_error
      | Some conn \<Rightarrow>
          if cn_environment conn \<notin> {''sandbox'', ''production''} then Inl Value_error
          else bind_res (if token \<and> pc_status conn \<noteq> ''revoked'' then api_call removed else Inr ()) (\<lambda>_.
            reconcile_tables digest sha
              (if delete_local_data then delete_connection connection_id db
               else update_connection connection_id (\<lambda>c. c\<lparr>pc_status := ''revoked'', cn_last_error := None\<rparr>) db)))"

end
