(* ===== verification/Plaid_Ledger.thy ===== *)
theory Plaid_Ledger
  imports Plaid_Sync Cash_Flow_Facts
begin

text \<open>
  What the store of transactions promises. Its abstract view is a map from the provider's identifier of a
  transaction to what the transaction says; a response is a list of changes of that map, and storing the
  response performs them in order. With it goes the invariant that each provider transaction has one row
  and one piece of evidence. The locale states this of any store, the interpretation gives it for the tables.
\<close>

section \<open>Changes of a map\<close>

type_synonym ('k, 'v) changes = "('k \<times> 'v option) list"

definition apply_changes :: "('k, 'v) changes \<Rightarrow> ('k \<rightharpoonup> 'v) \<Rightarrow> ('k \<rightharpoonup> 'v)" where
  "apply_changes cs m = fold (\<lambda>(k, v) m. m(k := v)) cs m"

lemma apply_changes_simps [simp]:
  "apply_changes [] m = m"
  "apply_changes ((k, v) # cs) m = apply_changes cs (m(k := v))"
  "apply_changes (cs @ ds) m = apply_changes ds (apply_changes cs m)"
  by (simp_all add: apply_changes_def)

lemma apply_changes_at: "apply_changes cs m k = (case map_of (rev cs) k of None \<Rightarrow> m k | Some v \<Rightarrow> v)"
proof (induction cs rule: rev_induct)
  case (snoc c cs)
  then show ?case by (cases c) (simp add: map_add_def)
qed simp

text \<open>Changes made again change nothing: each key already has the last value given to it.\<close>

lemma apply_changes_again: "apply_changes cs (apply_changes cs m) = apply_changes cs m"
  by (rule ext) (simp add: apply_changes_at split: option.splits)

section \<open>A store of rows under keys\<close>

text \<open>
  \<open>view\<close> reads the store as a map, \<open>put\<close> writes a value under a key or raises, \<open>drop_key\<close> forgets a key;
  \<open>ok\<close> is what the store keeps.
\<close>

locale keyed_store =
  fixes ok :: "'d \<Rightarrow> bool" and view :: "'d \<Rightarrow> 'k \<rightharpoonup> 'v" and entry :: "'w \<Rightarrow> 'v"
    and put :: "'k \<Rightarrow> 'w \<Rightarrow> 'd \<Rightarrow> ('e, 'd) result" and drop_key :: "'k \<Rightarrow> 'd \<Rightarrow> 'd"
  assumes put_ok: "ok d \<Longrightarrow> put k w d = Inr d' \<Longrightarrow> ok d'"
    and put_view: "ok d \<Longrightarrow> put k w d = Inr d' \<Longrightarrow> view d' = (view d)(k \<mapsto> entry w)"
    and drop_ok: "ok d \<Longrightarrow> ok (drop_key k d)"
    and drop_view: "ok d \<Longrightarrow> view (drop_key k d) = (view d)(k := None)"
begin

lemma drops_refine:
  assumes "ok d" and "\<And>r d. f r d = (case key r of None \<Rightarrow> d | Some k \<Rightarrow> drop_key k d)"
  shows "ok (fold f rs d) \<and> view (fold f rs d) = apply_changes (concat (map (\<lambda>r. case key r of None \<Rightarrow> [] | Some k \<Rightarrow> [(k, None)]) rs)) (view d)"
  using assms(1)
proof (induction rs arbitrary: d)
  case (Cons r rs)
  show ?case
  proof (cases "key r")
    case None
    with Cons show ?thesis by (simp add: assms(2))
  next
    case (Some k)
    with Cons.IH [OF drop_ok [OF Cons.prems, of k]] show ?thesis by (simp add: assms(2) drop_view [OF Cons.prems] fun_upd_def)
  qed
qed simp

text \<open>A loop over records, each of which is passed over or put, and counted.\<close>

lemma puts_refine:
  assumes "ok d" and "for_each f rs (d, n) = Inr (d', n')"
    and step: "\<And>r d n d' n'. r \<in> set rs \<Longrightarrow> f r (d, n) = Inr (d', n') \<Longrightarrow>
      d' = d \<and> n' = n \<and> changes r = [] \<or>
      (\<exists>k w. put k w d = Inr d' \<and> n' = n + 1 \<and> changes r = [(k, Some (entry w))])"
  shows "ok d' \<and> view d' = apply_changes (concat (map changes rs)) (view d)
    \<and> n' = n + length (concat (map changes rs))"
  using assms
proof (induction rs arbitrary: d n)
  case (Cons r rs)
  from Cons.prems(2) obtain d1 n1 where f: "f r (d, n) = Inr (d1, n1)" and rest: "for_each f rs (d1, n1) = Inr (d', n')"
    by (auto elim!: bind_res_InrE)
  from Cons.prems(3) [OF _ f] consider "d1 = d" "n1 = n" "changes r = []"
    | k w where "put k w d = Inr d1" "n1 = n + 1" "changes r = [(k, Some (entry w))]" by auto
  then show ?case
  proof cases
    case 1
    with Cons.IH [OF Cons.prems(1), of n] rest Cons.prems(3) show ?thesis by simp
  next
    case 2
    note after = put_ok [OF Cons.prems(1) 2(1)] put_view [OF Cons.prems(1) 2(1)]
    from Cons.IH [OF after(1) rest] Cons.prems(3) 2(2,3) after(2) show ?thesis by (simp add: fun_upd_def)
  qed
qed simp

end

section \<open>The tables as a store\<close>

type_synonym ledger_entry = "nat \<times> date \<times> string \<times> string \<times> cents"

definition entry_of :: "provider_transaction \<Rightarrow> ledger_entry" where
  "entry_of t = (tx_account_id t, tx_posted_date t, tx_original_description t, tx_role t, tx_amount t)"

definition entry_of_values :: "transaction_values \<Rightarrow> ledger_entry" where
  "entry_of_values v = (tv_account_id v, tv_posted_date v, tv_description v, tv_role v, tv_amount v)"

definition ledger :: "plaid_db \<Rightarrow> string \<rightharpoonup> ledger_entry" where
  "ledger db k = map_option entry_of (find (has_provider_id k) (pd_transactions db))"

text \<open>
  Keys are unique, each provider transaction has exactly one piece of evidence, and no evidence is of a
  transaction that is not there.
\<close>

definition transactions_ok :: "plaid_db \<Rightarrow> bool" where
  "transactions_ok db \<longleftrightarrow>
     distinct (map tx_id (pd_transactions db))
     \<and> (\<forall>s \<in> set (pd_transactions db). \<forall>t \<in> set (pd_transactions db).
          kt_provider_transaction_id s = kt_provider_transaction_id t \<longrightarrow> kt_provider_transaction_id s = None \<or> s = t)
     \<and> (\<forall>t \<in> set (pd_transactions db). kt_provider_transaction_id t = None
          \<or> length (filter (is_evidence_of (tx_id t)) (pd_evidence db)) = 1)
     \<and> (\<forall>e \<in> set (pd_evidence db). ev_entity_type e \<noteq> ''account_transaction''
          \<or> (\<exists>t \<in> set (pd_transactions db). is_evidence_of (tx_id t) e))"

lemma write_values_fields [simp]:
  "tx_id (write_values v t) = tx_id t"
  "kt_provider_transaction_id (write_values v t) = kt_provider_transaction_id t"
  "entry_of (write_values v t) = entry_of_values v"
  by (simp_all add: write_values_def entry_of_def entry_of_values_def)

lemma new_transaction_fields [simp]:
  "tx_id (new_transaction i k v) = i"
  "kt_provider_transaction_id (new_transaction i k v) = Some k"
  "entry_of (new_transaction i k v) = entry_of_values v"
  by (simp_all add: new_transaction_def entry_of_def entry_of_values_def)

lemma evidence_of_one: "is_evidence_of i e \<Longrightarrow> is_evidence_of j e \<Longrightarrow> i = j"
  by (metis is_evidence_of_def show_nat_inj)

lemma amount_evidence_of [simp]: "is_evidence_of j (amount_evidence i v) \<longleftrightarrow> j = i"
  by (auto simp: is_evidence_of_def amount_evidence_def dest: show_nat_inj)

lemma transactions_okD:
  assumes "transactions_ok db"
  shows "distinct (map tx_id (pd_transactions db))"
    and "s \<in> set (pd_transactions db) \<Longrightarrow> t \<in> set (pd_transactions db) \<Longrightarrow>
      kt_provider_transaction_id s = Some k \<Longrightarrow> kt_provider_transaction_id t = Some k \<Longrightarrow> s = t"
    and "t \<in> set (pd_transactions db) \<Longrightarrow> kt_provider_transaction_id t = Some k \<Longrightarrow>
      length (filter (is_evidence_of (tx_id t)) (pd_evidence db)) = 1"
    and "e \<in> set (pd_evidence db) \<Longrightarrow> is_evidence_of i e \<Longrightarrow> \<exists>t \<in> set (pd_transactions db). tx_id t = i"
    and "s \<in> set (pd_transactions db) \<Longrightarrow> t \<in> set (pd_transactions db) \<Longrightarrow> tx_id s = tx_id t \<Longrightarrow> s = t"
proof -
  show "distinct (map tx_id (pd_transactions db))" using assms by (simp add: transactions_ok_def)
  then show "s \<in> set (pd_transactions db) \<Longrightarrow> t \<in> set (pd_transactions db) \<Longrightarrow> tx_id s = tx_id t \<Longrightarrow> s = t"
    by (auto simp: distinct_map dest: inj_onD)
  have unique: "\<forall>s \<in> set (pd_transactions db). \<forall>t \<in> set (pd_transactions db).
        kt_provider_transaction_id s = kt_provider_transaction_id t \<longrightarrow> kt_provider_transaction_id s = None \<or> s = t"
    and one: "\<forall>t \<in> set (pd_transactions db). kt_provider_transaction_id t = None
        \<or> length (filter (is_evidence_of (tx_id t)) (pd_evidence db)) = 1"
    and known: "\<forall>e \<in> set (pd_evidence db). ev_entity_type e \<noteq> ''account_transaction''
        \<or> (\<exists>t \<in> set (pd_transactions db). is_evidence_of (tx_id t) e)"
    using assms unfolding transactions_ok_def by blast+
  show "s \<in> set (pd_transactions db) \<Longrightarrow> t \<in> set (pd_transactions db) \<Longrightarrow>
      kt_provider_transaction_id s = Some k \<Longrightarrow> kt_provider_transaction_id t = Some k \<Longrightarrow> s = t"
    using unique by force
  show "t \<in> set (pd_transactions db) \<Longrightarrow> kt_provider_transaction_id t = Some k \<Longrightarrow>
      length (filter (is_evidence_of (tx_id t)) (pd_evidence db)) = 1"
    using one by force
  show "\<exists>t \<in> set (pd_transactions db). tx_id t = i" if "e \<in> set (pd_evidence db)" "is_evidence_of i e"
    using that known evidence_of_one unfolding is_evidence_of_def by blast
qed

lemma transactions_okI:
  assumes "distinct (map tx_id (pd_transactions db))"
    and "\<And>s t k. s \<in> set (pd_transactions db) \<Longrightarrow> t \<in> set (pd_transactions db) \<Longrightarrow>
      kt_provider_transaction_id s = Some k \<Longrightarrow> kt_provider_transaction_id t = Some k \<Longrightarrow> tx_id s = tx_id t"
    and "\<And>t k. t \<in> set (pd_transactions db) \<Longrightarrow> kt_provider_transaction_id t = Some k \<Longrightarrow>
      length (filter (is_evidence_of (tx_id t)) (pd_evidence db)) = 1"
    and "\<And>e. e \<in> set (pd_evidence db) \<Longrightarrow> ev_entity_type e = ''account_transaction'' \<Longrightarrow>
      \<exists>t \<in> set (pd_transactions db). is_evidence_of (tx_id t) e"
  shows "transactions_ok db"
proof -
  have same: "s = t" if "s \<in> set (pd_transactions db)" "t \<in> set (pd_transactions db)" "tx_id s = tx_id t" for s t
    using assms(1) that by (auto simp: distinct_map dest: inj_onD)
  have "kt_provider_transaction_id s = None \<or> s = t" if "s \<in> set (pd_transactions db)" "t \<in> set (pd_transactions db)"
      "kt_provider_transaction_id s = kt_provider_transaction_id t" for s t
  proof (cases "kt_provider_transaction_id s")
    case (Some k)
    have "kt_provider_transaction_id t = Some k" by (rule trans [OF that(3) [symmetric] Some])
    from same [OF that(1,2) assms(2) [OF that(1,2) Some this]] show ?thesis by (rule disjI2)
  qed simp
  moreover have "kt_provider_transaction_id t = None \<or> length (filter (is_evidence_of (tx_id t)) (pd_evidence db)) = 1"
    if "t \<in> set (pd_transactions db)" for t
    using assms(3) that by (cases "kt_provider_transaction_id t") auto
  ultimately show ?thesis using assms(1,4) unfolding transactions_ok_def by blast
qed

lemma find_provider:
  assumes "find (has_provider_id k) ts = Some t"
  shows "t \<in> set ts" and "kt_provider_transaction_id t = Some k"
  using assms by (auto simp: find_Some_iff has_provider_id_def)

lemma find_append: "find P (xs @ ys) = (case find P xs of None \<Rightarrow> find P ys | Some x \<Rightarrow> Some x)"
  by (induction xs) auto

lemma find_map_same: "(\<And>x. x \<in> set xs \<Longrightarrow> P (f x) = P x) \<Longrightarrow> find P (map f xs) = map_option f (find P xs)"
  by (induction xs) auto

lemma evidence_after:
  "length (filter (is_evidence_of i) (filter (\<lambda>e. \<not> is_evidence_of j e) es @ [amount_evidence j v]))
     = (if i = j then 1 else length (filter (is_evidence_of i) es))"
proof -
  have "filter (is_evidence_of i) (filter (\<lambda>e. \<not> is_evidence_of j e) es) = (if i = j then [] else filter (is_evidence_of i) es)"
    by (auto simp: filter_empty_conv intro!: filter_cong dest: evidence_of_one)
  then show ?thesis by simp
qed

section \<open>Writing and removing a transaction\<close>

lemma delete_ok:
  assumes ok: "transactions_ok db"
  shows "transactions_ok (delete_provider_transaction k db)"
    and "ledger (delete_provider_transaction k db) = (ledger db)(k := None)"
proof -
  show "transactions_ok (delete_provider_transaction k db)"
  proof (cases "find (has_provider_id k) (pd_transactions db)")
    case None
    with ok show ?thesis by (simp add: delete_provider_transaction_def)
  next
    case (Some t)
    note t = find_provider [OF Some]
    show ?thesis
    proof (rule transactions_okI, goal_cases)
      case 1
      from transactions_okD(1) [OF ok] Some show ?case
        by (simp add: delete_provider_transaction_def distinct_map inj_on_def)
    next
      case (2 s u)
      with Some show ?case
        using transactions_okD(2) [OF ok, of s u] by (auto simp: delete_provider_transaction_def)
    next
      case (3 s j)
      then have s: "s \<in> set (pd_transactions db)" "tx_id s \<noteq> tx_id t" "kt_provider_transaction_id s = Some j"
        using Some by (simp_all add: delete_provider_transaction_def)
      have "filter (is_evidence_of (tx_id s)) (filter (\<lambda>e. \<not> is_evidence_of (tx_id t) e) (pd_evidence db))
          = filter (is_evidence_of (tx_id s)) (pd_evidence db)"
        using s(2) by (auto intro!: filter_cong dest: evidence_of_one)
      with transactions_okD(3) [OF ok s(1,3)] Some show ?case by (simp add: delete_provider_transaction_def)
    next
      case (4 e)
      then have e: "e \<in> set (pd_evidence db)" "\<not> is_evidence_of (tx_id t) e" "ev_entity_type e = ''account_transaction''"
        using Some by (simp_all add: delete_provider_transaction_def)
      then obtain u where "u \<in> set (pd_transactions db)" "is_evidence_of (tx_id u) e"
        using ok unfolding transactions_ok_def by blast
      with e(2) Some show ?case by (auto simp: delete_provider_transaction_def)
    qed
  qed
  show "ledger (delete_provider_transaction k db) = (ledger db)(k := None)"
  proof (cases "find (has_provider_id k) (pd_transactions db)")
    case None
    then show ?thesis by (simp add: delete_provider_transaction_def ledger_def fun_eq_iff)
  next
    case (Some t)
    note t = find_provider [OF Some]
    have eq: "find (has_provider_id j) (filter (\<lambda>s. tx_id s \<noteq> tx_id t) (pd_transactions db))
      = (if j = k then None else find (has_provider_id j) (pd_transactions db))" for j
    proof (cases "j = k")
      case True
      have "\<not> has_provider_id k s" if "s \<in> set (filter (\<lambda>s. tx_id s \<noteq> tx_id t) (pd_transactions db))" for s
        using transactions_okD(2) [OF ok _ t(1) _ t(2), of s] that unfolding has_provider_id_def by auto
      then have "find (has_provider_id k) (filter (\<lambda>s. tx_id s \<noteq> tx_id t) (pd_transactions db)) = None"
        by (simp only: find_None_iff) blast
      with True show ?thesis by simp
    next
      case False
      have "has_provider_id j s \<Longrightarrow> s \<in> set (pd_transactions db) \<Longrightarrow> tx_id s \<noteq> tx_id t" for s
        using transactions_okD(5) [OF ok _ t(1), of s] t(2) False unfolding has_provider_id_def by auto
      then have "find (has_provider_id j) (filter (\<lambda>s. tx_id s \<noteq> tx_id t) xs) = find (has_provider_id j) xs"
        if "set xs \<subseteq> set (pd_transactions db)" for xs
        using that by (induction xs) auto
      with False show ?thesis by simp
    qed
    show ?thesis by (rule ext) (simp add: delete_provider_transaction_def ledger_def Some eq)
  qed
qed

text \<open>A row that is written keeps its identifiers.\<close>

lemma rewrite_ok:
  assumes ok: "transactions_ok db" and t: "t \<in> set (pd_transactions db)" "kt_provider_transaction_id t = Some k"
    and db': "db' = db\<lparr>pd_transactions := map (\<lambda>s. if tx_id s = tx_id t then write_values v s else s) (pd_transactions db),
      pd_evidence := filter (\<lambda>e. \<not> is_evidence_of (tx_id t) e) (pd_evidence db) @ [amount_evidence (tx_id t) v]\<rparr>"
  shows "transactions_ok db'" and "ledger db' = (ledger db)(k \<mapsto> entry_of_values v)"
proof -
  define g where "g = (\<lambda>s. if tx_id s = tx_id t then write_values v s else s)"
  have g: "tx_id (g s) = tx_id s" "kt_provider_transaction_id (g s) = kt_provider_transaction_id s" for s
    by (simp_all add: g_def)
  have ts: "pd_transactions db' = map g (pd_transactions db)"
    and ev: "pd_evidence db' = filter (\<lambda>e. \<not> is_evidence_of (tx_id t) e) (pd_evidence db) @ [amount_evidence (tx_id t) v]"
    by (simp_all add: db' g_def)
  show "transactions_ok db'"
  proof (rule transactions_okI, goal_cases)
    case 1
    have "map tx_id (map g xs) = map tx_id xs" for xs by (simp add: g)
    with transactions_okD(1) [OF ok] show ?case by (simp only: ts)
  next
    case (2 s u j)
    then obtain s' u' where "s' \<in> set (pd_transactions db)" "u' \<in> set (pd_transactions db)" "s = g s'" "u = g u'"
      unfolding ts by auto
    with 2(3,4) transactions_okD(2) [OF ok, of s' u' j] show ?case by (simp add: g)
  next
    case (3 s j)
    then obtain s' where "s' \<in> set (pd_transactions db)" "s = g s'" unfolding ts by auto
    with 3(2) transactions_okD(3) [OF ok, of s' j] show ?case unfolding ev evidence_after by (simp add: g)
  next
    case (4 e)
    then have "e \<in> set (pd_evidence db) \<or> is_evidence_of (tx_id t) e" unfolding ev by auto
    then obtain u where "u \<in> set (pd_transactions db)" "is_evidence_of (tx_id u) e"
      using t(1) ok 4(2) unfolding transactions_ok_def by blast
    then show ?case unfolding ts by (intro bexI [of _ "g u"]) (simp_all add: g)
  qed
  have "find (has_provider_id j) (map g (pd_transactions db)) = map_option g (find (has_provider_id j) (pd_transactions db))" for j
    by (rule find_map_same) (simp add: has_provider_id_def g)
  moreover have "map_option (\<lambda>s. entry_of (g s)) (find (has_provider_id j) (pd_transactions db))
      = (if j = k then Some (entry_of_values v) else map_option entry_of (find (has_provider_id j) (pd_transactions db)))" for j
  proof (cases "find (has_provider_id j) (pd_transactions db)")
    case None
    moreover have "j \<noteq> k" using t None unfolding find_None_iff has_provider_id_def by blast
    ultimately show ?thesis by simp
  next
    case (Some s)
    note s = find_provider [OF Some]
    have "tx_id s = tx_id t \<longleftrightarrow> j = k"
    proof
      assume "tx_id s = tx_id t"
      from transactions_okD(5) [OF ok s(1) t(1) this] s(2) t(2) show "j = k" by simp
    next
      assume "j = k"
      with transactions_okD(2) [OF ok s(1) t(1) s(2)] t(2) show "tx_id s = tx_id t" by simp
    qed
    with Some show ?thesis by (simp add: g_def)
  qed
  ultimately show "ledger db' = (ledger db)(k \<mapsto> entry_of_values v)"
    by (intro ext) (simp add: ledger_def ts option.map_comp comp_def)
qed

lemma append_ok:
  assumes ok: "transactions_ok db" and new: "find (has_provider_id k) (pd_transactions db) = None"
    and db': "db' = db\<lparr>pd_transactions := pd_transactions db @ [new_transaction i k v], pd_evidence := pd_evidence db @ [amount_evidence i v]\<rparr>"
    and i: "i = next_id (map tx_id (pd_transactions db))"
  shows "transactions_ok db'" and "ledger db' = (ledger db)(k \<mapsto> entry_of_values v)"
proof -
  have ts: "pd_transactions db' = pd_transactions db @ [new_transaction i k v]"
    and ev: "pd_evidence db' = pd_evidence db @ [amount_evidence i v]" by (simp_all add: db')
  have fresh: "tx_id s \<noteq> i" if "s \<in> set (pd_transactions db)" for s
    using next_id_fresh [of "tx_id s" "map tx_id (pd_transactions db)"] that unfolding i by auto
  have free: "kt_provider_transaction_id s \<noteq> Some k" if "s \<in> set (pd_transactions db)" for s
    using new that unfolding find_None_iff has_provider_id_def by blast
  have no_evidence: "\<not> is_evidence_of i e" if "e \<in> set (pd_evidence db)" for e
    using transactions_okD(4) [OF ok that, of i] fresh by blast
  have old: "filter (is_evidence_of i) (pd_evidence db) = []" using no_evidence by (simp add: filter_empty_conv)
  show "transactions_ok db'"
  proof (rule transactions_okI, goal_cases)
    case 1
    from transactions_okD(1) [OF ok] fresh show ?case unfolding ts by auto
  next
    case (2 s u j)
    then consider "s \<in> set (pd_transactions db)" "u \<in> set (pd_transactions db)" | "j = k"
      unfolding ts by auto
    then show ?case
    proof cases
      case 1
      from transactions_okD(2) [OF ok this 2(3,4)] show ?thesis by simp
    next
      case 2
      with \<open>kt_provider_transaction_id s = Some j\<close> \<open>kt_provider_transaction_id u = Some j\<close>
        \<open>s \<in> set (pd_transactions db')\<close> \<open>u \<in> set (pd_transactions db')\<close>
      have "s = new_transaction i k v" "u = new_transaction i k v" using free unfolding ts by auto
      then show ?thesis by simp
    qed
  next
    case (3 s j)
    then consider "s \<in> set (pd_transactions db)" | "s = new_transaction i k v" unfolding ts by auto
    then show ?case
    proof cases
      case 1
      with transactions_okD(3) [OF ok 1 3(2)] fresh [OF 1] show ?thesis unfolding ev by simp
    next
      case 2
      with old show ?thesis unfolding ev by simp
    qed
  next
    case (4 e)
    then consider "e \<in> set (pd_evidence db)" | "e = amount_evidence i v" unfolding ev by auto
    then show ?case
    proof cases
      case 1
      with 4(2) ok show ?thesis unfolding ts transactions_ok_def by (metis UnCI set_append)
    next
      case 2
      then show ?thesis unfolding ts by (intro bexI [of _ "new_transaction i k v"]) simp_all
    qed
  qed
  have "find (has_provider_id j) (pd_transactions db @ [new_transaction i k v])
      = (if j = k then Some (new_transaction i k v) else find (has_provider_id j) (pd_transactions db))" for j
    using new by (auto simp: find_append has_provider_id_def split: option.splits)
  then show "ledger db' = (ledger db)(k \<mapsto> entry_of_values v)"
    by (intro ext) (simp add: ledger_def ts)
qed

lemma upsert_ok:
  assumes "transactions_ok db" and "upsert_transaction k v db = Inr db'"
  shows "transactions_ok db'" and "ledger db' = (ledger db)(k \<mapsto> entry_of_values v)"
proof -
  have "transactions_ok db' \<and> ledger db' = (ledger db)(k \<mapsto> entry_of_values v)"
  proof (cases "find (has_provider_id k) (pd_transactions db)")
    case None
    with assms(2) have db': "db' = db\<lparr>pd_transactions := pd_transactions db @ [new_transaction (next_id (map tx_id (pd_transactions db))) k v],
        pd_evidence := pd_evidence db @ [amount_evidence (next_id (map tx_id (pd_transactions db))) v]\<rparr>"
      by (simp add: upsert_transaction_def Let_def split: if_splits)
    from append_ok [OF assms(1) None db' refl] show ?thesis by blast
  next
    case (Some t)
    with assms(2) have db': "db' = db\<lparr>pd_transactions := map (\<lambda>s. if tx_id s = tx_id t then write_values v s else s) (pd_transactions db),
        pd_evidence := filter (\<lambda>e. \<not> is_evidence_of (tx_id t) e) (pd_evidence db) @ [amount_evidence (tx_id t) v]\<rparr>"
      by (simp add: upsert_transaction_def split: if_splits)
    from rewrite_ok [OF assms(1) find_provider [OF Some] db'] show ?thesis by blast
  qed
  then show "transactions_ok db'" and "ledger db' = (ledger db)(k \<mapsto> entry_of_values v)" by blast+
qed

interpretation transactions: keyed_store transactions_ok ledger entry_of_values upsert_transaction delete_provider_transaction
  by unfold_locales (auto intro: upsert_ok delete_ok simp: delete_ok upsert_ok)

end
