(* ===== verification/Plaid_Facts.thy ===== *)
theory Plaid_Facts
  imports Plaid_Ledger
begin

text \<open>
  What a synchronisation does. It performs on the ledger the changes its responses ask for, in order; it
  keeps the invariant of the ledger, as revocation does; it leaves nothing behind when it fails but the
  record of the failure; it replaces the holdings of the accounts it was told about.
\<close>

section \<open>The changes a response asks for\<close>

definition known_account :: "(string \<Rightarrow> string) \<Rightarrow> sync_connection \<Rightarrow> plaid_db \<Rightarrow> string \<rightharpoonup> nat" where
  "known_account sha conn db provider_id =
     map_option ac_id (find (is_account_of conn (provider_key sha (cn_item_id conn) ''account'' provider_id)) (pd_accounts db))"

definition records_of :: "'a records \<Rightarrow> 'a list" where
  "records_of rs = (case rs of Records xs \<Rightarrow> xs | _ \<Rightarrow> [])"

definition read_entry ::
  "(string \<rightharpoonup> nat) \<Rightarrow> scalar option \<Rightarrow> scalar option \<Rightarrow> scalar option \<Rightarrow> (cents \<Rightarrow> string \<times> string) \<Rightarrow> ledger_entry option"
where
  "read_entry acc account day amount_field describe =
     Option.bind (Option.bind (optional_text account) acc) (\<lambda>i.
       case (normalized_amount amount_field, parse_date (text_or '''' (optional_text day))) of
         (Inr a, Inr d) \<Rightarrow> (case describe a of (description, role) \<Rightarrow> Some (i, d, description, role, a))
       | _ \<Rightarrow> None)"

definition entry_changes :: "(string \<Rightarrow> string) \<Rightarrow> sync_connection \<Rightarrow> string \<Rightarrow> scalar option \<Rightarrow> ledger_entry option \<Rightarrow> (string, ledger_entry) changes" where
  "entry_changes sha conn record_kind i e =
     (case (optional_text i, e) of
        (Some k, Some x) \<Rightarrow> [(provider_key sha (cn_item_id conn) record_kind k, Some x)]
      | _ \<Rightarrow> [])"

definition sofi_changes ::
  "(string \<Rightarrow> string) \<Rightarrow> sync_connection \<Rightarrow> (string \<rightharpoonup> nat) \<Rightarrow> plaid_transaction_row \<Rightarrow> (string, ledger_entry) changes"
where
  "sofi_changes sha conn acc row =
     (if truthy (rt_pending row) then []
      else entry_changes sha conn ''transaction'' (rt_transaction_id row)
        (read_entry acc (rt_account_id row) (rt_date row) (rt_amount row) (\<lambda>a. (sofi_description row, sofi_role row a))))"

definition removal_changes :: "(string \<Rightarrow> string) \<Rightarrow> sync_connection \<Rightarrow> plaid_transaction_row \<Rightarrow> (string, ledger_entry) changes" where
  "removal_changes sha conn row =
     (case optional_text (rt_transaction_id row) of
        None \<Rightarrow> [] | Some k \<Rightarrow> [(provider_key sha (cn_item_id conn) ''transaction'' k, None)])"

definition page_changes ::
  "(string \<Rightarrow> string) \<Rightarrow> sync_connection \<Rightarrow> transaction_page \<Rightarrow> (string \<rightharpoonup> nat) \<Rightarrow> (string, ledger_entry) changes"
where
  "page_changes sha conn page acc =
     concat (map (removal_changes sha conn) (records_of (tp_removed page)))
     @ concat (map (sofi_changes sha conn acc) (records_of (tp_added page) @ records_of (tp_modified page)))"

definition investment_changes ::
  "(string \<Rightarrow> string) \<Rightarrow> sync_connection \<Rightarrow> (string \<rightharpoonup> nat) \<Rightarrow> plaid_investment_row \<Rightarrow> (string, ledger_entry) changes"
where
  "investment_changes sha conn acc row =
     entry_changes sha conn ''investment'' (ri_investment_transaction_id row)
       (read_entry acc (ri_account_id row) (ri_date row) (ri_amount row)
         (\<lambda>a. let description = text_or '''' (optional_text (ri_name row)) in (description, fst (fidelity_role row description))))"

definition investment_page_changes ::
  "(string \<Rightarrow> string) \<Rightarrow> sync_connection \<Rightarrow> investment_page \<Rightarrow> (string \<rightharpoonup> nat) \<Rightarrow> (string, ledger_entry) changes"
where
  "investment_page_changes sha conn page acc = concat (map (investment_changes sha conn acc) (records_of (ip_transactions page)))"

definition sync_changes ::
  "(string \<Rightarrow> string) \<Rightarrow> plaid_api \<Rightarrow> sync_connection \<Rightarrow> date \<Rightarrow> (string \<rightharpoonup> nat) \<Rightarrow> (string, ledger_entry) changes"
where
  "sync_changes sha api conn snapshot_date acc =
     (if cn_target conn = ''sofi'' then
        (case (transactions_pages api (cn_transactions_cursor conn), api_transactions_get api snapshot_date) of
           (Inr pages, Inr history) \<Rightarrow> concat (map (\<lambda>p. page_changes sha conn p acc) (pages @ map normalized_page history))
         | _ \<Rightarrow> [])
      else
        (case api_investments_transactions_get api snapshot_date of
           Inr pages \<Rightarrow> concat (map (\<lambda>p. investment_page_changes sha conn p acc) pages)
         | Inl _ \<Rightarrow> []))"

section \<open>Operations that perform changes\<close>

text \<open>
  Accounts are only ever added, so the changes of every page may be read with the accounts known in the end.
\<close>

definition performs ::
  "(string \<Rightarrow> string) \<Rightarrow> sync_connection \<Rightarrow> ((string \<rightharpoonup> nat) \<Rightarrow> (string, ledger_entry) changes) \<Rightarrow> plaid_db \<Rightarrow> plaid_db \<Rightarrow> bool"
where
  "performs sha conn F db db' \<longleftrightarrow>
     pd_connections db' = pd_connections db \<and> known_account sha conn db \<subseteq>\<^sub>m known_account sha conn db'
     \<and> (transactions_ok db \<longrightarrow> transactions_ok db'
         \<and> (\<forall>acc. known_account sha conn db' \<subseteq>\<^sub>m acc \<longrightarrow> ledger db' = apply_changes (F acc) (ledger db)))"

lemma transactions_ok_tables:
  "pd_transactions db' = pd_transactions db \<Longrightarrow> pd_evidence db' = pd_evidence db \<Longrightarrow> transactions_ok db' = transactions_ok db"
  unfolding transactions_ok_def by (simp only:)

lemma ledger_tables: "pd_transactions db' = pd_transactions db \<Longrightarrow> ledger db' = ledger db"
  by (simp add: ledger_def fun_eq_iff)

lemma known_tables: "pd_accounts db' = pd_accounts db \<Longrightarrow> known_account sha conn db' = known_account sha conn db"
  by (simp add: known_account_def fun_eq_iff)

lemma performs_nothing:
  assumes "pd_transactions db' = pd_transactions db" "pd_evidence db' = pd_evidence db" "pd_connections db' = pd_connections db"
    and "known_account sha conn db \<subseteq>\<^sub>m known_account sha conn db'"
  shows "performs sha conn (\<lambda>_. []) db db'"
  using assms(3,4) transactions_ok_tables [OF assms(1,2)] ledger_tables [OF assms(1)] unfolding performs_def by simp

lemma performs_same_tables:
  "pd_transactions db' = pd_transactions db \<Longrightarrow> pd_evidence db' = pd_evidence db \<Longrightarrow> pd_accounts db' = pd_accounts db \<Longrightarrow>
     pd_connections db' = pd_connections db \<Longrightarrow> performs sha conn (\<lambda>_. []) db db'"
  by (rule performs_nothing, assumption, assumption, assumption, subst known_tables [of db' db], assumption, rule map_le_refl)

lemma performs_then:
  assumes "performs sha conn F db db1" "performs sha conn G db1 db2"
  shows "performs sha conn (\<lambda>acc. F acc @ G acc) db db2"
proof -
  have le: "known_account sha conn db \<subseteq>\<^sub>m known_account sha conn db1" "known_account sha conn db1 \<subseteq>\<^sub>m known_account sha conn db2"
    using assms by (simp_all add: performs_def)
  show ?thesis unfolding performs_def
  proof (intro conjI impI allI)
    show "pd_connections db2 = pd_connections db" using assms by (simp add: performs_def)
  next
    show "known_account sha conn db \<subseteq>\<^sub>m known_account sha conn db2" using le by (rule map_le_trans)
  next
    assume "transactions_ok db"
    with assms show "transactions_ok db2" by (simp add: performs_def)
  next
    fix acc
    assume "transactions_ok db" and acc: "known_account sha conn db2 \<subseteq>\<^sub>m acc"
    with assms map_le_trans [OF le(2) acc] show "ledger db2 = apply_changes (F acc @ G acc) (ledger db)"
      by (simp add: performs_def)
  qed
qed

lemma performs_nothing_then:
  "performs sha conn (\<lambda>_. []) db db1 \<Longrightarrow> performs sha conn F db1 db2 \<Longrightarrow> performs sha conn F db db2"
  using performs_then [of sha conn "\<lambda>_. []" db db1 F db2] by simp

lemma performs_then_nothing:
  "performs sha conn F db db1 \<Longrightarrow> performs sha conn (\<lambda>_. []) db1 db2 \<Longrightarrow> performs sha conn F db db2"
  using performs_then [of sha conn F db db1 "\<lambda>_. []" db2] by simp

lemma performs_pages:
  assumes "for_each f (zip ns pages) (db, c) = Inr (db', c')" "length ns = length pages"
    and "\<And>n p db c db' c'. p \<in> set pages \<Longrightarrow> f (n, p) (db, c) = Inr (db', c') \<Longrightarrow> performs sha conn (F p) db db'"
  shows "performs sha conn (\<lambda>acc. concat (map (\<lambda>p. F p acc) pages)) db db'"
  using assms
proof (induction pages arbitrary: ns db c)
  case Nil
  then show ?case by (simp add: performs_nothing)
next
  case (Cons p pages)
  from Cons.prems(2) obtain n ns' where ns: "ns = n # ns'" by (cases ns) auto
  from Cons.prems(1) obtain db1 c1 where f: "f (n, p) (db, c) = Inr (db1, c1)" and rest: "for_each f (zip ns' pages) (db1, c1) = Inr (db', c')"
    unfolding ns by (auto elim!: bind_res_InrE)
  have "performs sha conn (F p) db db1" using Cons.prems(3) [OF _ f] by simp
  moreover have "performs sha conn (\<lambda>acc. concat (map (\<lambda>p. F p acc) pages)) db1 db'"
    using Cons.IH [OF rest] Cons.prems(2,3) ns by simp
  ultimately show ?case using performs_then by fastforce
qed

section \<open>Accounts and balances\<close>

lemma known_account_grows:
  assumes "pd_accounts db' = map f (pd_accounts db) @ new"
    and "\<And>k a. is_account_of conn k (f a) = is_account_of conn k a"
    and "\<And>a. ac_id (f a) = ac_id a"
  shows "known_account sha conn db \<subseteq>\<^sub>m known_account sha conn db'"
  unfolding map_le_def known_account_def assms(1) find_append
  using assms(2,3) by (auto simp: find_map_same option.map_comp comp_def split: option.splits)

lemma store_account_performs:
  assumes "store_account sha conn inst row (db, ids) = Inr (db', ids')"
    and "map_of ids \<subseteq>\<^sub>m known_account sha conn db"
  shows "performs sha conn (\<lambda>_. []) db db'" and "map_of ids' \<subseteq>\<^sub>m known_account sha conn db'"
proof -
  obtain pid where pid: "required_text (ra_account_id row) = Inr pid"
    using assms(1) by (auto simp: store_account_def elim: bind_res_InrE)
  let ?key = "provider_key sha (cn_item_id conn) ''account'' pid"
  have "performs sha conn (\<lambda>_. []) db db' \<and> (\<exists>i. ids' = dict_set pid i ids \<and> known_account sha conn db' pid = Some i)"
  proof (cases "find (is_account_of conn ?key) (pd_accounts db)")
    case None
    define a where "a = \<lparr>ac_id = next_id (map ac_id (pd_accounts db)), ac_institution_id = inst, ac_display_name = account_display_name row,
      ac_account_type = row_account_type ''other'' row, la_plaid_connection_id = Some (pc_id conn), ka_external_key = ?key\<rparr>"
    from assms(1) pid None have db': "db' = db\<lparr>pd_accounts := pd_accounts db @ [a]\<rparr>" "ids' = dict_set pid (ac_id a) ids"
      by (simp_all add: store_account_def add_account_def Let_def a_def split: if_splits)
    have "known_account sha conn db \<subseteq>\<^sub>m known_account sha conn db'"
      by (rule known_account_grows [where f = "\<lambda>a. a" and new = "[a]"]) (simp_all add: db')
    then have "performs sha conn (\<lambda>_. []) db db'" by (intro performs_nothing) (simp_all add: db')
    moreover have "is_account_of conn ?key a" by (simp add: is_account_of_def a_def)
    then have "known_account sha conn db' pid = Some (ac_id a)"
      unfolding known_account_def db' by (simp add: find_append None)
    ultimately show ?thesis using db' by blast
  next
    case (Some a)
    define f where "f = (\<lambda>b. if ac_id b = ac_id a then refresh_account row b else b)"
    from assms(1) pid Some have db': "db' = db\<lparr>pd_accounts := map f (pd_accounts db)\<rparr>" "ids' = dict_set pid (ac_id a) ids"
      by (simp_all add: store_account_def update_account_def f_def)
    have f: "is_account_of conn k (f b) = is_account_of conn k b" "ac_id (f b) = ac_id b" for k b
      by (simp_all add: f_def is_account_of_def refresh_account_def)
    have "known_account sha conn db \<subseteq>\<^sub>m known_account sha conn db'"
      by (rule known_account_grows [where f = f and new = "[]"]) (simp_all add: db' f)
    then have "performs sha conn (\<lambda>_. []) db db'" by (intro performs_nothing) (simp_all add: db')
    moreover have "known_account sha conn db' pid = Some (ac_id a)"
      unfolding known_account_def db' by (simp add: find_map_same f Some)
    ultimately show ?thesis using db' by blast
  qed
  then obtain i where i: "performs sha conn (\<lambda>_. []) db db'" "ids' = dict_set pid i ids" "known_account sha conn db' pid = Some i"
    by blast
  show "performs sha conn (\<lambda>_. []) db db'" by (rule i(1))
  have "map_of ids \<subseteq>\<^sub>m known_account sha conn db'"
    using map_le_trans [OF assms(2)] i(1) by (simp add: performs_def)
  with i(2,3) show "map_of ids' \<subseteq>\<^sub>m known_account sha conn db'"
    by (simp add: map_le_def)
qed

lemma ensure_institution_performs:
  assumes "ensure_institution conn db = Inr (db', i)"
  shows "performs sha conn (\<lambda>_. []) db db'"
proof -
  have "pd_transactions db' = pd_transactions db \<and> pd_evidence db' = pd_evidence db \<and> pd_accounts db' = pd_accounts db
      \<and> pd_connections db' = pd_connections db"
    using assms unfolding ensure_institution_def Let_def by (auto split: if_splits option.splits)
  then show ?thesis by (intro performs_same_tables) simp_all
qed

lemma store_accounts_performs:
  assumes "store_accounts sha conn rows db = Inr (db', ids)"
  shows "performs sha conn (\<lambda>_. []) db db' \<and> map_of ids \<subseteq>\<^sub>m known_account sha conn db'"
proof -
  from assms obtain db1 inst where first: "ensure_institution conn db = Inr (db1, inst)"
    and loop: "for_each (store_account sha conn inst) rows (db1, []) = Inr (db', ids)"
    unfolding store_accounts_def by (auto elim!: bind_res_InrE)
  define P where "P = (\<lambda>(d, i). performs sha conn (\<lambda>_. []) db d \<and> map_of i \<subseteq>\<^sub>m known_account sha conn d)"
  have "P (db', ids)"
  proof (rule for_each_preserves [OF loop])
    show "P (db1, [])" using ensure_institution_performs [OF first] by (simp add: P_def)
  next
    fix row s s'
    assume s: "P s" "store_account sha conn inst row s = Inr s'"
    obtain d i d' i' where "s = (d, i)" "s' = (d', i')" by fastforce
    with s show "P s'"
      using store_account_performs [of sha conn inst row d i d' i'] performs_nothing_then by (fastforce simp: P_def)
  qed
  then show ?thesis by (simp add: P_def)
qed

lemma put_current_tables [simp]:
  "pd_transactions (put_current i d a v db) = pd_transactions db"
  "pd_evidence (put_current i d a v db) = pd_evidence db"
  "pd_accounts (put_current i d a v db) = pd_accounts db"
  "pd_connections (put_current i d a v db) = pd_connections db"
  by (simp_all add: put_current_def Let_def)

lemma store_balances_tables:
  assumes "for_each (store_balance ids artifact_id d) rows db = Inr db'"
  shows "pd_transactions db' = pd_transactions db \<and> pd_evidence db' = pd_evidence db \<and> pd_accounts db' = pd_accounts db \<and> pd_connections db' = pd_connections db"
proof (rule for_each_preserves [OF assms, where P = "\<lambda>d. pd_transactions d = pd_transactions db \<and> pd_evidence d = pd_evidence db \<and> pd_accounts d = pd_accounts db \<and> pd_connections d = pd_connections db"])
  fix row s s'
  assume "store_balance ids artifact_id d row s = Inr s'"
  then obtain i v where "s' = put_current i d artifact_id v s"
    unfolding store_balance_def by (auto elim!: bind_res_InrE split: option.splits)
  moreover assume "pd_transactions s = pd_transactions db \<and> pd_evidence s = pd_evidence db \<and> pd_accounts s = pd_accounts db \<and> pd_connections s = pd_connections db"
  ultimately show "pd_transactions s' = pd_transactions db \<and> pd_evidence s' = pd_evidence db \<and> pd_accounts s' = pd_accounts db \<and> pd_connections s' = pd_connections db"
    by simp
qed simp

lemma store_current_balances_performs:
  assumes "store_current_balances sha conn artifact_id accounts d db = Inr (db', seen)"
  shows "performs sha conn (\<lambda>_. []) db db'"
proof -
  from assms obtain rows db1 ids where first: "store_accounts sha conn rows db = Inr (db1, ids)"
    and loop: "for_each (store_balance ids artifact_id d) rows db1 = Inr db'"
    unfolding store_current_balances_def by (auto elim!: bind_res_InrE)
  show ?thesis
    using performs_nothing_then [OF conjunct1 [OF store_accounts_performs [OF first]] performs_same_tables] store_balances_tables [OF loop]
    by blast
qed

lemma record_endpoint_performs:
  assumes "record_endpoint run conn endpoint r n db = (db', i, created)"
  shows "performs sha conn (\<lambda>_. []) db db'"
  using assms unfolding record_endpoint_def add_endpoint_def Let_def
  by (intro performs_same_tables) (auto split: option.splits)

section \<open>Transactions\<close>

lemma delete_accounts [simp]:
  "pd_accounts (delete_provider_transaction k db) = pd_accounts db"
  "pd_connections (delete_provider_transaction k db) = pd_connections db"
  by (simp_all add: delete_provider_transaction_def split: option.splits)

lemma upsert_accounts:
  "upsert_transaction k v db = Inr db' \<Longrightarrow> pd_accounts db' = pd_accounts db \<and> pd_connections db' = pd_connections db"
  by (auto simp: upsert_transaction_def Let_def split: option.splits if_splits)

lemma remove_row_is: "remove_row sha conn row db =
    (case map_option (provider_key sha (cn_item_id conn) ''transaction'') (optional_text (rt_transaction_id row)) of
       None \<Rightarrow> db | Some k \<Rightarrow> delete_provider_transaction k db)"
  by (simp add: remove_row_def split: option.splits)

lemma removals_perform: "performs sha conn (\<lambda>_. concat (map (removal_changes sha conn) rows)) db (fold (remove_row sha conn) rows db)"
proof -
  have "pd_accounts (fold (remove_row sha conn) rows db) = pd_accounts db \<and> pd_connections (fold (remove_row sha conn) rows db) = pd_connections db"
    by (rule fold_preserves [where P = "\<lambda>d. pd_accounts d = pd_accounts db \<and> pd_connections d = pd_connections db"])
      (simp_all add: remove_row_is split: option.splits)
  then have acc: "pd_accounts (fold (remove_row sha conn) rows db) = pd_accounts db"
    and con: "pd_connections (fold (remove_row sha conn) rows db) = pd_connections db" by blast+
  have changes: "removal_changes sha conn row =
      (case map_option (provider_key sha (cn_item_id conn) ''transaction'') (optional_text (rt_transaction_id row)) of
         None \<Rightarrow> [] | Some k \<Rightarrow> [(k, None)])" for row
    by (simp add: removal_changes_def split: option.splits)
  have "transactions_ok db \<Longrightarrow> transactions_ok (fold (remove_row sha conn) rows db)
      \<and> ledger (fold (remove_row sha conn) rows db) = apply_changes (concat (map (removal_changes sha conn) rows)) (ledger db)"
    unfolding changes by (rule transactions.drops_refine [OF _ remove_row_is])
  with con show ?thesis unfolding performs_def known_tables [OF acc] by simp
qed

lemma account_of_known:
  assumes "account_of ids v = Inr i" and "map_of ids \<subseteq>\<^sub>m acc"
  shows "Option.bind (optional_text v) acc = Some i"
proof -
  from assms(1) obtain k where k: "optional_text v = Some k" "map_of ids k = Some i"
    by (auto simp: account_of_def required_text_def elim!: bind_res_InrE split: option.splits)
  from assms(2) k(2) have "acc k = Some i" unfolding map_le_def by (metis domI)
  with k(1) show ?thesis by simp
qed

lemma required_optional: "required_text v = Inr t \<longleftrightarrow> optional_text v = Some t"
  by (simp add: required_text_def split: option.splits)

lemma sofi_values_change:
  assumes "sofi_values ids artifact_id n row = Inr (k, v)" and "map_of ids \<subseteq>\<^sub>m acc"
  shows "optional_text (rt_transaction_id row) = Some k
    \<and> read_entry acc (rt_account_id row) (rt_date row) (rt_amount row) (\<lambda>a. (sofi_description row, sofi_role row a)) = Some (entry_of_values v)"
  using assms(1) unfolding sofi_values_def Let_def
proof (elim bind_res_InrE, goal_cases)
  case (1 i j a day d)
  then show ?case
    by (clarsimp simp: account_of_known [OF 1(1) assms(2)] required_optional read_entry_def text_or_def entry_of_values_def)
qed

lemma investment_values_change:
  assumes "investment_values ids artifact_id n row = Inr (k, v)" and "map_of ids \<subseteq>\<^sub>m acc"
  shows "optional_text (ri_investment_transaction_id row) = Some k
    \<and> read_entry acc (ri_account_id row) (ri_date row) (ri_amount row)
        (\<lambda>a. let description = text_or '''' (optional_text (ri_name row)) in (description, fst (fidelity_role row description)))
      = Some (entry_of_values v)"
  using assms(1) unfolding investment_values_def Let_def case_prod_unfold
proof (elim bind_res_InrE, goal_cases)
  case (1 i j a day d)
  then have "text_or '''' (optional_text (ri_date row)) = day" by (simp add: required_optional text_or_def)
  with 1 show ?case
    by (clarsimp simp: account_of_known [OF 1(1) assms(2)] required_optional read_entry_def entry_of_values_def Let_def)
qed

text \<open>Both loops over rows of a response.\<close>

lemma rows_perform:
  assumes loop: "for_each f (numbered rows) (db, n :: nat) = Inr (db', n')" and ids: "map_of ids \<subseteq>\<^sub>m known_account sha conn db"
    and step: "\<And>m row d n d' n' acc. map_of ids \<subseteq>\<^sub>m acc \<Longrightarrow> f (m, row) (d, n) = Inr (d', n') \<Longrightarrow>
      d' = d \<and> n' = n \<and> changes acc row = [] \<or>
      (\<exists>k v. upsert_transaction k v d = Inr d' \<and> n' = n + 1 \<and> changes acc row = [(k, Some (entry_of_values v))])"
  shows "performs sha conn (\<lambda>acc. concat (map (changes acc) rows)) db db'"
proof -
  define P where "P = (\<lambda>(d :: plaid_db, n :: nat). pd_accounts d = pd_accounts db \<and> pd_connections d = pd_connections db)"
  have "P (db', n')"
  proof (rule for_each_preserves [OF loop])
    fix x s s'
    assume "P s" "f x s = Inr s'"
    then show "P s'"
      using step [OF map_le_refl, of "fst x" "snd x" "fst s" "snd s" "fst s'" "snd s'"] upsert_accounts
      by (auto simp: P_def split_beta)
  qed (simp add: P_def)
  then have same: "pd_accounts db' = pd_accounts db" and con: "pd_connections db' = pd_connections db" by (simp_all add: P_def)
  have rows: "concat (map (\<lambda>(m, row). changes acc row) (numbered rows)) = concat (map (changes acc) rows)" for acc
  proof -
    have "map (\<lambda>(m, row). changes acc row) (numbered rows) = map (changes acc) (map snd (numbered rows))"
      by (simp add: case_prod_unfold)
    also have "map snd (numbered rows) = rows" by (simp add: numbered_def del: upt_Suc)
    finally show ?thesis by simp
  qed
  have "transactions_ok db' \<and> ledger db' = apply_changes (concat (map (changes acc) rows)) (ledger db)"
    if "transactions_ok db" "known_account sha conn db' \<subseteq>\<^sub>m acc" for acc
  proof -
    have le: "map_of ids \<subseteq>\<^sub>m acc" using ids that(2) unfolding known_tables [OF same] by (rule map_le_trans)
    have "transactions_ok db' \<and> ledger db' = apply_changes (concat (map (\<lambda>(m, row). changes acc row) (numbered rows))) (ledger db)
        \<and> n' = n + length (concat (map (\<lambda>(m, row). changes acc row) (numbered rows)))"
    proof (rule transactions.puts_refine [OF that(1) loop])
      fix r d n d' n'
      assume "f r (d, n) = Inr (d', n')"
      moreover obtain m row where "r = (m, row)" by fastforce
      ultimately show "d' = d \<and> n' = n \<and> (case r of (m, row) \<Rightarrow> changes acc row) = []
          \<or> (\<exists>k v. upsert_transaction k v d = Inr d' \<and> n' = n + 1 \<and> (case r of (m, row) \<Rightarrow> changes acc row) = [(k, Some (entry_of_values v))])"
        using step [OF le] by simp
    qed
    then show ?thesis unfolding rows by blast
  qed
  then show ?thesis unfolding performs_def known_tables [OF same] using con map_le_refl by blast
qed

lemma object_records_of: "object_records rs = Inr xs \<Longrightarrow> records_of rs = xs"
  by (simp add: object_records_def records_of_def split: records.splits)

lemma sofi_row_step:
  assumes "map_of ids \<subseteq>\<^sub>m acc" and "store_sofi_row sha conn ids artifact_id (m, row) (d, n) = Inr (d', n')"
  shows "d' = d \<and> n' = n \<and> sofi_changes sha conn acc row = [] \<or>
    (\<exists>k v. upsert_transaction k v d = Inr d' \<and> n' = n + 1 \<and> sofi_changes sha conn acc row = [(k, Some (entry_of_values v))])"
proof (cases "truthy (rt_pending row)")
  case True
  with assms(2) show ?thesis by (simp add: store_sofi_row_def sofi_changes_def)
next
  case False
  with assms(2) obtain i v where v: "sofi_values ids artifact_id m row = Inr (i, v)"
      and up: "upsert_transaction (provider_key sha (cn_item_id conn) ''transaction'' i) v d = Inr d'" "n' = n + 1"
    by (auto simp: store_sofi_row_def elim!: bind_res_InrE)
  from sofi_values_change [OF v assms(1)] False
  have "sofi_changes sha conn acc row = [(provider_key sha (cn_item_id conn) ''transaction'' i, Some (entry_of_values v))]"
    by (simp add: sofi_changes_def entry_changes_def)
  with up show ?thesis by blast
qed

lemma investment_row_step:
  assumes "map_of ids \<subseteq>\<^sub>m acc" and "store_investment_row sha conn ids artifact_id (m, row) (d, n) = Inr (d', n')"
  shows "d' = d \<and> n' = n \<and> investment_changes sha conn acc row = [] \<or>
    (\<exists>k v. upsert_transaction k v d = Inr d' \<and> n' = n + 1 \<and> investment_changes sha conn acc row = [(k, Some (entry_of_values v))])"
proof -
  from assms(2) obtain i v where v: "investment_values ids artifact_id m row = Inr (i, v)"
      and up: "upsert_transaction (provider_key sha (cn_item_id conn) ''investment'' i) v d = Inr d'" "n' = n + 1"
    by (auto simp: store_investment_row_def elim!: bind_res_InrE)
  from investment_values_change [OF v assms(1)]
  have "investment_changes sha conn acc row = [(provider_key sha (cn_item_id conn) ''investment'' i, Some (entry_of_values v))]"
    by (simp only: investment_changes_def entry_changes_def) simp
  with up show ?thesis by blast
qed

lemma store_sofi_transactions_performs:
  assumes "store_sofi_transactions sha conn artifact_id page db = Inr (db', n, seen)"
  shows "performs sha conn (page_changes sha conn page) db db'"
  using assms unfolding store_sofi_transactions_def case_prod_unfold
proof (elim bind_res_InrE, goal_cases)
  case (1 account_rows p removed added modified q)
  obtain db1 ids where p: "p = (db1, ids)" by fastforce
  note accounts = store_accounts_performs [OF 1(2) [unfolded p]]
  let ?db2 = "fold (remove_row sha conn) removed db1"
  have db': "q = (db', n)" using 1(7) by (cases q) simp
  have known: "known_account sha conn db1 \<subseteq>\<^sub>m known_account sha conn ?db2"
    using removals_perform [of sha conn removed db1] by (simp add: performs_def)
  have rows: "performs sha conn (\<lambda>acc. concat (map (sofi_changes sha conn acc) (added @ modified))) ?db2 db'"
    by (rule rows_perform [OF _ map_le_trans [OF conjunct2 [OF accounts] known] sofi_row_step])
      (use 1(6) in \<open>simp_all add: p db'\<close>)
  from performs_nothing_then [OF conjunct1 [OF accounts] performs_then [OF removals_perform rows]]
  show ?case unfolding page_changes_def [abs_def] using object_records_of [OF 1(3)] object_records_of [OF 1(4)] object_records_of [OF 1(5)]
    by simp
qed

lemma store_fidelity_transactions_performs:
  assumes "store_fidelity_transactions sha conn artifact_id page db = Inr (db', n, seen)"
  shows "performs sha conn (investment_page_changes sha conn page) db db'"
  using assms unfolding store_fidelity_transactions_def case_prod_unfold
proof (elim bind_res_InrE, goal_cases)
  case (1 account_rows p rows q)
  obtain db1 ids where p: "p = (db1, ids)" by fastforce
  note accounts = store_accounts_performs [OF 1(2) [unfolded p]]
  have db': "q = (db', n)" using 1(5) by (cases q) simp
  have rows: "performs sha conn (\<lambda>acc. concat (map (investment_changes sha conn acc) rows)) db1 db'"
    by (rule rows_perform [OF _ conjunct2 [OF accounts] investment_row_step]) (use 1(4) in \<open>simp_all add: p db'\<close>)
  from performs_nothing_then [OF conjunct1 [OF accounts] rows]
  show ?case unfolding investment_page_changes_def [abs_def] using object_records_of [OF 1(3)] by simp
qed

section \<open>Holdings\<close>

text \<open>What a record of a holding says of the row it becomes.\<close>

definition holding_of :: "(string \<rightharpoonup> nat) \<Rightarrow> plaid_holding_row \<Rightarrow> investment_holding \<Rightarrow> bool" where
  "holding_of acc row h \<longleftrightarrow>
     Option.bind (optional_text (rh_account_id row)) acc = Some (ih_account_id h)
     \<and> optional_text (rh_security_id row) = Some (ih_security_id h)
     \<and> decimal_amount (rh_quantity row) = Inr (ih_quantity h)
     \<and> money_amount (rh_institution_value row) = Inr (ih_institution_value h)"

lemma store_holding_is:
  assumes "store_holding ids securities artifact_id d row (db, n) = Inr (db', n')"
  obtains h where "db' = db\<lparr>pd_holdings := pd_holdings db @ [h]\<rparr>" and "n' = n + 1"
    and "account_of ids (rh_account_id row) = Inr (ih_account_id h)" and "holding_of (map_of ids) row h"
proof -
  have "\<exists>h. db' = db\<lparr>pd_holdings := pd_holdings db @ [h]\<rparr> \<and> n' = n + 1
      \<and> account_of ids (rh_account_id row) = Inr (ih_account_id h) \<and> holding_of (map_of ids) row h"
    using assms unfolding store_holding_def Let_def split_beta
    by (elim bind_res_InrE, intro exI [of _ "last (pd_holdings db')"])
      (auto simp: required_optional holding_of_def dest: account_of_known [OF _ map_le_refl])
  then show thesis using that by blast
qed

lemma store_holdings_are:
  assumes "for_each (store_holding ids securities artifact_id d) rows (db, n) = Inr (db', n')"
  obtains hs where "db' = db\<lparr>pd_holdings := pd_holdings db @ hs\<rparr>" and "n' = n + length rows"
    and "list_all2 (holding_of (map_of ids)) rows hs" and "ih_account_id ` set hs \<subseteq> snd ` set ids"
proof -
  have "\<exists>hs. db' = db\<lparr>pd_holdings := pd_holdings db @ hs\<rparr> \<and> n' = n + length rows
      \<and> list_all2 (holding_of (map_of ids)) rows hs \<and> ih_account_id ` set hs \<subseteq> snd ` set ids"
    using assms
  proof (induction rows arbitrary: db n)
    case Nil
    then show ?case by simp
  next
    case (Cons row rows)
    from Cons.prems obtain db1 n1 where first: "store_holding ids securities artifact_id d row (db, n) = Inr (db1, n1)"
      and rest: "for_each (store_holding ids securities artifact_id d) rows (db1, n1) = Inr (db', n')"
      by (auto elim!: bind_res_InrE)
    from first obtain h where h: "db1 = db\<lparr>pd_holdings := pd_holdings db @ [h]\<rparr>" "n1 = n + 1"
      "account_of ids (rh_account_id row) = Inr (ih_account_id h)" "holding_of (map_of ids) row h"
      by (rule store_holding_is)
    from Cons.IH [OF rest] obtain hs where hs: "db' = db1\<lparr>pd_holdings := pd_holdings db1 @ hs\<rparr>" "n' = n1 + length rows"
      "list_all2 (holding_of (map_of ids)) rows hs" "ih_account_id ` set hs \<subseteq> snd ` set ids" by blast
    have "ih_account_id h \<in> snd ` set ids"
      using h(3) by (force simp: account_of_def elim!: bind_res_InrE dest: map_of_SomeD split: option.splits)
    with h hs show ?case by (intro exI [of _ "h # hs"]) simp
  qed
  then show thesis using that by blast
qed

lemma holding_of_mono: "acc \<subseteq>\<^sub>m acc' \<Longrightarrow> holding_of acc row h \<Longrightarrow> holding_of acc' row h"
  unfolding holding_of_def map_le_def by (cases "optional_text (rh_account_id row)") (auto simp: dom_def)

text \<open>
  The holdings of the accounts the response names are those it lists; the others stay.
\<close>

definition holdings_replaced ::
  "(string \<Rightarrow> string) \<Rightarrow> sync_connection \<Rightarrow> holdings_response \<Rightarrow> nat set \<Rightarrow> plaid_db \<Rightarrow> plaid_db \<Rightarrow> bool"
where
  "holdings_replaced sha conn r seen db db' \<longleftrightarrow>
     filter (\<lambda>h. ih_account_id h \<notin> seen) (pd_holdings db') = filter (\<lambda>h. ih_account_id h \<notin> seen) (pd_holdings db)
     \<and> list_all2 (holding_of (known_account sha conn db')) (records_of (hr_holdings r)) (filter (\<lambda>h. ih_account_id h \<in> seen) (pd_holdings db'))"

lemma store_accounts_holdings:
  assumes "store_accounts sha conn rows db = Inr (db', ids)"
  shows "pd_holdings db' = pd_holdings db"
proof -
  from assms obtain db1 inst where first: "ensure_institution conn db = Inr (db1, inst)"
    and loop: "for_each (store_account sha conn inst) rows (db1, []) = Inr (db', ids)"
    unfolding store_accounts_def by (auto elim!: bind_res_InrE)
  have "pd_holdings db1 = pd_holdings db"
    using first unfolding ensure_institution_def Let_def by (auto split: if_splits option.splits)
  have "pd_holdings (fst (db', ids)) = pd_holdings db"
  proof (rule for_each_preserves [OF loop])
    fix x s s'
    assume "pd_holdings (fst s) = pd_holdings db" "store_account sha conn inst x s = Inr s'"
    then show "pd_holdings (fst s') = pd_holdings db"
      by (auto simp: store_account_def add_account_def update_account_def Let_def split_beta elim!: bind_res_InrE split: option.splits if_splits)
  qed (simp add: \<open>pd_holdings db1 = pd_holdings db\<close>)
  then show ?thesis by simp
qed

lemma store_current_balances_holdings:
  assumes "store_current_balances sha conn artifact_id accounts d db = Inr (db', seen)"
  shows "pd_holdings db' = pd_holdings db"
proof -
  from assms obtain rows db1 ids where first: "store_accounts sha conn rows db = Inr (db1, ids)"
    and loop: "for_each (store_balance ids artifact_id d) rows db1 = Inr db'"
    unfolding store_current_balances_def by (auto elim!: bind_res_InrE)
  have "pd_holdings db' = pd_holdings db1"
    by (rule for_each_preserves [OF loop])
      (auto simp: store_balance_def put_current_def Let_def elim!: bind_res_InrE split: option.splits)
  with store_accounts_holdings [OF first] show ?thesis by simp
qed

lemma store_fidelity_holdings_performs:
  assumes "store_fidelity_holdings sha conn artifact_id r d db = Inr (db', seen, n)"
  shows "performs sha conn (\<lambda>_. []) db db' \<and> holdings_replaced sha conn r seen db db' \<and> n = length (records_of (hr_holdings r))"
  using assms unfolding store_fidelity_holdings_def Let_def case_prod_unfold
proof (elim bind_res_InrE, goal_cases)
  case (1 account_rows p q security_rows securities holding_rows s)
  obtain db1 ids where p: "p = (db1, ids)" by fastforce
  obtain db2 seen' where q: "q = (db2, seen')" by fastforce
  have s: "s = (db', n)" and seen: "seen = set (map snd ids)" using 1(8) by (cases s; simp add: p split: if_splits)+
  note accounts = store_accounts_performs [OF 1(2) [unfolded p]]
  have balances: "store_current_balances sha conn artifact_id (rp_accounts r) d db1 = Inr (db2, seen')"
    using 1(3) by (simp add: p q)
  have loop: "for_each (store_holding ids securities artifact_id d) holding_rows (clear_holdings seen db2, 0) = Inr (db', n)"
    using 1(7) by (simp add: p q s seen)
  from loop obtain hs where hs: "db' = (clear_holdings seen db2)\<lparr>pd_holdings := pd_holdings (clear_holdings seen db2) @ hs\<rparr>"
    "n = 0 + length holding_rows" "list_all2 (holding_of (map_of ids)) holding_rows hs" "ih_account_id ` set hs \<subseteq> snd ` set ids"
    by (rule store_holdings_are)
  have same: "performs sha conn (\<lambda>_. []) db2 db'" by (rule performs_same_tables) (simp_all add: hs(1) clear_holdings_def)
  note tail = performs_nothing_then [OF store_current_balances_performs [OF balances] same]
  have rows: "records_of (hr_holdings r) = holding_rows" using 1(6) by (rule object_records_of)
  have old: "pd_holdings db2 = pd_holdings db"
    using store_accounts_holdings [OF 1(2) [unfolded p]] store_current_balances_holdings [OF balances] by simp
  have "map_of ids \<subseteq>\<^sub>m known_account sha conn db'"
    using map_le_trans [OF conjunct2 [OF accounts]] tail by (simp add: performs_def)
  then have "list_all2 (holding_of (known_account sha conn db')) holding_rows hs"
    using hs(3) holding_of_mono by (fastforce intro: list.rel_mono_strong)
  moreover have "filter (\<lambda>h. ih_account_id h \<notin> seen) hs = []" "filter (\<lambda>h. ih_account_id h \<in> seen) hs = hs"
    using hs(4) unfolding seen by (auto simp: filter_empty_conv filter_id_conv)
  ultimately have "holdings_replaced sha conn r seen db db'"
    unfolding holdings_replaced_def rows by (simp add: hs(1) clear_holdings_def old)
  with performs_nothing_then [OF conjunct1 [OF accounts] tail] hs(2) rows show ?case by simp
qed

section \<open>A synchronisation\<close>

lemma sync_page_performs:
  assumes "sync_page sha run conn (n, page) (db, c) = Inr (db', c')"
  shows "performs sha conn (page_changes sha conn page) db db'"
proof -
  obtain db1 i created where e: "record_endpoint run conn (page_endpoint ''/transactions/sync'' n) page
      (list_count (tp_added page) + list_count (tp_modified page) + list_count (tp_removed page)) db = (db1, i, created)"
    by (metis prod_cases3)
  from assms obtain changed seen where "store_sofi_transactions sha conn i page db1 = Inr (db', changed, seen)"
    by (auto simp: sync_page_def e Let_def elim!: bind_res_InrE)
  from performs_nothing_then [OF record_endpoint_performs [OF e] store_sofi_transactions_performs [OF this]] show ?thesis .
qed

lemma sync_history_page_performs:
  assumes "sync_history_page sha run conn (n, page) (db, c) = Inr (db', c')"
  shows "performs sha conn (page_changes sha conn (normalized_page page)) db db'"
proof -
  obtain db1 i created where e: "record_endpoint run conn (page_endpoint ''/transactions/get'' n) page
      (list_count (hp_transactions page)) db = (db1, i, created)"
    by (metis prod_cases3)
  from assms obtain changed seen where "store_sofi_transactions sha conn i (normalized_page page) db1 = Inr (db', changed, seen)"
    by (auto simp: sync_history_page_def e elim!: bind_res_InrE)
  from performs_nothing_then [OF record_endpoint_performs [OF e] store_sofi_transactions_performs [OF this]] show ?thesis .
qed

lemma sync_investment_page_performs:
  assumes "sync_investment_page sha run conn (n, page) (db, c) = Inr (db', c')"
  shows "performs sha conn (investment_page_changes sha conn page) db db'"
proof -
  obtain db1 i created where e: "record_endpoint run conn (page_endpoint ''/investments/transactions/get'' n) page
      (list_count (ip_transactions page)) db = (db1, i, created)"
    by (metis prod_cases3)
  from assms obtain changed seen where "store_fidelity_transactions sha conn i page db1 = Inr (db', changed, seen)"
    by (auto simp: sync_investment_page_def e elim!: bind_res_InrE)
  from performs_nothing_then [OF record_endpoint_performs [OF e] store_fidelity_transactions_performs [OF this]] show ?thesis .
qed

lemma performs_numbered:
  assumes "for_each f (numbered pages) (db, c) = Inr (db', c')"
    and "\<And>n p db c db' c'. f (n, p) (db, c) = Inr (db', c') \<Longrightarrow> performs sha conn (F p) db db'"
  shows "performs sha conn (\<lambda>acc. concat (map (\<lambda>p. F p acc) pages)) db db'"
proof (rule performs_pages [where ns = "[1..<length pages + 1]" and f = f and c = c and c' = c'])
  show "for_each f (zip [1..<length pages + 1] pages) (db, c) = Inr (db', c')" using assms(1) by (simp only: numbered_def)
qed (simp_all add: assms(2) del: upt_Suc)

lemma api_call_Inr: "api_call r = Inr x \<longleftrightarrow> r = Inr x"
  by (simp add: api_call_def split: sum.splits prod.splits)

lemma sync_sofi_performs:
  assumes "sync_sofi sha api run conn d (db, c) = Inr (db', c')" and "cn_target conn = ''sofi''"
  shows "performs sha conn (sync_changes sha api conn d) db db'"
  using assms(1) unfolding sync_sofi_def Let_def case_prod_unfold
proof (elim bind_res_InrE, goal_cases)
  case (1 pages s1 history s2 balances q)
  obtain db1 c1 where s1: "s1 = (db1, c1)" by fastforce
  obtain db2 c2 where s2: "s2 = (db2, c2)" by fastforce
  have a: "performs sha conn (\<lambda>acc. concat (map (\<lambda>p. page_changes sha conn p acc) pages)) db db1"
    by (rule performs_numbered [OF 1(2) [unfolded s1] sync_page_performs])
  have b: "performs sha conn (\<lambda>acc. concat (map (\<lambda>p. page_changes sha conn (normalized_page p) acc) history)) db1 db2"
    by (rule performs_numbered [OF 1(4) [unfolded s1 s2] sync_history_page_performs])
  obtain db3 i created where e: "record_endpoint run conn ''/accounts/balance/get'' balances (list_count (rp_accounts balances)) db2 = (db3, i, created)"
    by (metis prod_cases3)
  obtain seen where "store_current_balances sha conn i (rp_accounts balances) d db3 = Inr (db', seen)"
    using 1(6,7) by (cases q) (simp add: s2 e)
  note c = performs_nothing_then [OF record_endpoint_performs [OF e] store_current_balances_performs [OF this]]
  have eq: "sync_changes sha api conn d = (\<lambda>acc. concat (map (\<lambda>p. page_changes sha conn p acc) pages)
      @ concat (map (\<lambda>p. page_changes sha conn (normalized_page p) acc) history))"
    unfolding sync_changes_def [abs_def] if_P [OF assms(2)] 1(1) 1(3) [unfolded api_call_Inr] by (simp add: comp_def)
  show ?case unfolding eq by (rule performs_then_nothing [OF performs_then [OF a b] c])
qed

lemma sync_fidelity_performs:
  assumes "sync_fidelity sha api run conn d (db, c) = Inr (db', c')" and "cn_target conn \<noteq> ''sofi''"
  shows "performs sha conn (sync_changes sha api conn d) db db'"
  using assms(1) unfolding sync_fidelity_def Let_def case_prod_unfold prod.sel
proof (elim bind_res_InrE, goal_cases)
  case (1 holdings q pages)
  obtain db1 i created where e: "record_endpoint run conn ''/investments/holdings/get'' holdings (list_count (hr_holdings holdings)) db = (db1, i, created)"
    by (metis prod_cases3)
  obtain db2 seen n where q: "q = (db2, seen, n)" by (metis prod_cases3)
  from 1(2) have "store_fidelity_holdings sha conn i holdings d db1 = Inr (db2, seen, n)" by (simp add: e q)
  note a = performs_nothing_then [OF record_endpoint_performs [OF e] conjunct1 [OF store_fidelity_holdings_performs [OF this]]]
  have b: "performs sha conn (\<lambda>acc. concat (map (\<lambda>p. investment_page_changes sha conn p acc) pages)) db2 db'"
    by (rule performs_numbered [OF _ sync_investment_page_performs]) (use 1(4) in \<open>simp add: q\<close>)
  have eq: "sync_changes sha api conn d = (\<lambda>acc. concat (map (\<lambda>p. investment_page_changes sha conn p acc) pages))"
    unfolding sync_changes_def [abs_def] if_not_P [OF assms(2)] 1(3) [unfolded api_call_Inr] by simp
  show ?case unfolding eq by (rule performs_nothing_then [OF a b])
qed

lemma reconcile_tables_performs: "reconcile_tables digest sha db = Inr db' \<Longrightarrow> performs sha' conn (\<lambda>_. []) db db'"
  by (rule performs_same_tables) (auto simp: reconcile_tables_def split: sum.splits)

lemma sync_data_performs:
  assumes "sync_data digest sha api run conn d db = Inr (db', c)"
  shows "performs sha conn (sync_changes sha api conn d) db db'"
  using assms unfolding sync_data_def Let_def case_prod_unfold
proof (elim bind_res_InrE, goal_cases)
  case (1 p db2)
  obtain db1 c1 where p: "p = (db1, c1)" by fastforce
  have "performs sha conn (sync_changes sha api conn d) db db1"
  proof (cases "cn_target conn = ''sofi''")
    case True
    with 1(1) show ?thesis unfolding if_P [OF True] p by (elim sync_sofi_performs) (rule True)
  next
    case False
    with 1(1) show ?thesis unfolding if_not_P [OF False] p by (elim sync_fidelity_performs) (rule False)
  qed
  moreover have "performs sha conn (\<lambda>_. []) db1 db'"
    using reconcile_tables_performs [of digest sha db1 db2 sha conn] 1(2,3) by (simp add: p)
  ultimately show ?case by (rule performs_then_nothing)
qed

lemma update_tables [simp]:
  "pd_transactions (update_run i f db) = pd_transactions db" "pd_evidence (update_run i f db) = pd_evidence db" "pd_accounts (update_run i f db) = pd_accounts db"
  "pd_transactions (update_batch i g db) = pd_transactions db" "pd_evidence (update_batch i g db) = pd_evidence db" "pd_accounts (update_batch i g db) = pd_accounts db"
  "pd_transactions (update_connection i h db) = pd_transactions db" "pd_evidence (update_connection i h db) = pd_evidence db" "pd_accounts (update_connection i h db) = pd_accounts db"
  by (simp_all add: update_run_def update_batch_def update_connection_def)

lemma open_run_tables:
  assumes "open_run conn db = (db', run)"
  shows "pd_transactions db' = pd_transactions db" "pd_evidence db' = pd_evidence db" "pd_accounts db' = pd_accounts db"
    "pd_connections db' = pd_connections db" "pd_runs db' = pd_runs db @ [run]" "sr_id run = next_id (map sr_id (pd_runs db))"
    "db'\<lparr>pd_batches := pd_batches db, pd_runs := pd_runs db\<rparr> = db"
  using assms by (auto simp: open_run_def Let_def)

text \<open>What a call of \<open>sync_plaid_connection\<close> does, with the connection it finds.\<close>

lemma sync_cases:
  assumes "sync_plaid_connection digest sha api credentials d today cid db = (db', r)"
  obtains (refused) "db' = db" and "r = Inl Value_error"
    | (failed) conn db1 run e where "find (\<lambda>c. pc_id c = cid) (pd_connections db) = Some conn" and "open_run conn db = (db1, run)"
        and "db' = fail_run run conn e db1" and "r = Inl e"
    | (synced) conn db1 run db2 c where "find (\<lambda>c. pc_id c = cid) (pd_connections db) = Some conn" and "open_run conn db = (db1, run)"
        and "sync_data digest sha api run conn d db1 = Inr (db2, c)" and "db' = complete_run run conn c today db2" and "r = Inr ()"
proof -
  show thesis
  proof (cases "find (\<lambda>c. pc_id c = cid) (pd_connections db)")
    case None
    with assms refused show thesis by (simp add: sync_plaid_connection_def)
  next
    case (Some conn)
    show thesis
    proof (cases "pc_status conn = ''revoked'' \<or> cn_environment conn \<notin> {''sandbox'', ''production''} \<or> \<not> valid_target (cn_target conn) \<or> \<not> credentials")
      case True
      from assms [unfolded sync_plaid_connection_def Some option.case if_P [OF True]] refused show thesis by blast
    next
      case False
      obtain db1 run where run: "open_run conn db = (db1, run)" by fastforce
      from assms [unfolded sync_plaid_connection_def Some option.case if_not_P [OF False] run Let_def prod.case]
      show thesis using failed [OF Some run] synced [OF Some run] by (cases "sync_data digest sha api run conn d db1") auto
    qed
  qed
qed

lemma completed_tables [simp]:
  "pd_transactions (complete_run run conn c today db) = pd_transactions db"
  "pd_evidence (complete_run run conn c today db) = pd_evidence db"
  "pd_accounts (complete_run run conn c today db) = pd_accounts db"
  by (simp_all add: complete_run_def)

lemma failed_tables [simp]:
  "pd_transactions (fail_run run conn e db) = pd_transactions db"
  "pd_evidence (fail_run run conn e db) = pd_evidence db"
  "pd_accounts (fail_run run conn e db) = pd_accounts db"
  by (simp_all add: fail_run_def split: prod.splits)

text \<open>The ledger after a synchronisation that returns, its changes read with the accounts known then or later.\<close>

lemma synced_ledger:
  assumes "transactions_ok db" and "sync_plaid_connection digest sha api credentials d today cid db = (db', Inr ())"
  obtains conn run c db2 where "find (\<lambda>c. pc_id c = cid) (pd_connections db) = Some conn"
    and "db' = complete_run run conn c today db2" and "pd_connections db2 = pd_connections db"
    and "transactions_ok db'" and "known_account sha conn db \<subseteq>\<^sub>m known_account sha conn db'"
    and "\<And>acc. known_account sha conn db' \<subseteq>\<^sub>m acc \<Longrightarrow> ledger db' = apply_changes (sync_changes sha api conn d acc) (ledger db)"
  using assms(2)
proof (cases rule: sync_cases)
  case (synced conn db1 run db2 c)
  note start = performs_same_tables [OF open_run_tables(1-4) [OF synced(2)], of sha conn]
  note all = performs_nothing_then [OF start sync_data_performs [OF synced(3)]]
  have last: "known_account sha conn db' = known_account sha conn db2" "transactions_ok db' = transactions_ok db2" "ledger db' = ledger db2"
    unfolding synced(4) by (rule known_tables transactions_ok_tables ledger_tables; simp)+
  show thesis
    by (rule that [OF synced(1,4)]) (use all assms(1) in \<open>simp_all add: performs_def last\<close>)
qed simp_all

section \<open>Revocation\<close>

lemma delete_connection_ok:
  assumes ok: "transactions_ok db"
  shows "transactions_ok (delete_connection i db)"
proof -
  define gone where "gone = set (map ac_id (filter (\<lambda>a. la_plaid_connection_id a = Some i) (pd_accounts db)))"
  define T where "T = set (map (show_nat \<circ> tx_id) (filter (\<lambda>t. tx_account_id t \<in> gone) (pd_transactions db)))"
  define B where "B = set (map (show_nat \<circ> bs_id) (filter (\<lambda>b. bs_account_id b \<in> gone) (pd_snapshots db)))"
  define stays where "stays = (\<lambda>e :: source_evidence. \<not> (ev_entity_type e = ''account_transaction'' \<and> ev_entity_id e \<in> T
      \<or> ev_entity_type e = ''balance_snapshot'' \<and> ev_entity_id e \<in> B))"
  have ts: "pd_transactions (delete_connection i db) = filter (\<lambda>t. tx_account_id t \<notin> gone) (pd_transactions db)"
    and ev: "pd_evidence (delete_connection i db) = filter stays (pd_evidence db)"
    unfolding delete_connection_def Let_def gone_def [symmetric] T_def [symmetric] B_def [symmetric] stays_def by simp_all
  have keeps: "stays e \<longleftrightarrow> tx_account_id t \<notin> gone" if "t \<in> set (pd_transactions db)" "is_evidence_of (tx_id t) e" for t e
  proof -
    have e: "ev_entity_type e = ''account_transaction''" "ev_entity_id e = show_nat (tx_id t)"
      using that(2) by (simp_all only: is_evidence_of_def)
    have "ev_entity_type e \<noteq> ''balance_snapshot''" unfolding e(1) by simp
    with e(1) have "stays e \<longleftrightarrow> show_nat (tx_id t) \<notin> T" unfolding stays_def e(2) by blast
    also have "\<dots> \<longleftrightarrow> tx_account_id t \<notin> gone"
      using transactions_okD(5) [OF ok _ that(1)] that(1) unfolding T_def by (force dest: show_nat_inj)
    finally show ?thesis .
  qed
  show ?thesis
  proof (rule transactions_okI, goal_cases)
    case 1
    from transactions_okD(1) [OF ok] show ?case unfolding ts by (simp add: distinct_map inj_on_def)
  next
    case (2 s t k)
    then show ?case using transactions_okD(2) [OF ok, of s t k] unfolding ts by simp
  next
    case (3 t k)
    then have t: "t \<in> set (pd_transactions db)" "tx_account_id t \<notin> gone" unfolding ts by simp_all
    have "filter (is_evidence_of (tx_id t)) (filter stays (pd_evidence db)) = filter (is_evidence_of (tx_id t)) (pd_evidence db)"
      using keeps [OF t(1)] t(2) by (auto intro!: filter_cong)
    with transactions_okD(3) [OF ok t(1) 3(2)] show ?case unfolding ev by simp
  next
    case (4 e)
    then have e: "e \<in> set (pd_evidence db)" "stays e" unfolding ev by simp_all
    from ok e(1) 4(2) obtain t where t: "t \<in> set (pd_transactions db)" "is_evidence_of (tx_id t) e"
      unfolding transactions_ok_def by blast
    with keeps [OF t] e(2) show ?case unfolding ts by auto
  qed
qed

lemma reconcile_tables_ok: "reconcile_tables digest sha db = Inr db' \<Longrightarrow> transactions_ok db \<Longrightarrow> transactions_ok db'"
  by (subst transactions_ok_tables [of db' db]) (auto simp: reconcile_tables_def split: sum.splits)

lemma revoke_ok:
  assumes "revoke_plaid_connection digest sha removed token delete_local_data cid db = Inr db'" and "transactions_ok db"
  shows "transactions_ok db'"
proof -
  from assms(1) obtain db1 where "db1 = delete_connection cid db \<or> (\<exists>f. db1 = update_connection cid f db)"
      and r: "reconcile_tables digest sha db1 = Inr db'"
    by (auto simp: revoke_plaid_connection_def elim!: bind_res_InrE split: option.splits if_splits)
  then have "transactions_ok db1"
    using assms(2) delete_connection_ok transactions_ok_tables [of db1 db] by fastforce
  with r show ?thesis by (rule reconcile_tables_ok)
qed

text \<open>The histories of a database: synchronisations, successful or not, and revocations.\<close>

inductive plaid_step :: "(json \<Rightarrow> string) \<Rightarrow> (string \<Rightarrow> string) \<Rightarrow> plaid_db \<Rightarrow> plaid_db \<Rightarrow> bool" for digest sha where
  synchronised: "sync_plaid_connection digest sha api credentials d today cid db = (db', r) \<Longrightarrow> plaid_step digest sha db db'"
| revoked: "revoke_plaid_connection digest sha removed token delete_local_data cid db = Inr db' \<Longrightarrow> plaid_step digest sha db db'"

lemma sync_ok:
  assumes "sync_plaid_connection digest sha api credentials d today cid db = (db', r)" and "transactions_ok db"
  shows "transactions_ok db'"
  using assms(1)
proof (cases rule: sync_cases)
  case (failed conn db1 run e)
  have "transactions_ok db' = transactions_ok db"
    by (rule transactions_ok_tables) (simp_all add: failed(3) open_run_tables [OF failed(2)])
  with assms(2) show ?thesis by simp
next
  case (synced conn db1 run db2 c)
  with assms have "sync_plaid_connection digest sha api credentials d today cid db = (db', Inr ())" by simp
  from assms(2) this show ?thesis by (rule synced_ledger)
qed (use assms(2) in simp)

section \<open>An example\<close>

text \<open>
  A bank with one account; its page adds a purchase, modifies it, and removes another the database has.
\<close>

definition example_account_row :: plaid_account_row where
  "example_account_row = \<lparr>ra_account_id = Some (Text ''a''), ra_name = Some (Text ''Checking''), ra_official_name = None,
     ra_mask = None, ra_type = Some (Text ''depository''), ra_subtype = Some (Text ''checking''),
     ra_balance_current = Some (Number ''10''), ra_balance_available = None\<rparr>"

definition example_row :: "string \<Rightarrow> string \<Rightarrow> plaid_transaction_row" where
  "example_row i v = \<lparr>rt_account_id = Some (Text ''a''), rt_transaction_id = Some (Text i), rt_date = Some (Text ''2026-03-02''),
     rt_amount = Some (Number v), rt_pending = Some (Truth False), rt_name = Some (Text ''Shop''), rt_merchant_name = None,
     rt_original_description = None, rt_category_primary = None, rt_category_detailed = None\<rparr>"

definition example_page :: transaction_page where
  "example_page = \<lparr>rp_sha256 = ''p'', rp_request_id = None, rp_accounts = Records [example_account_row],
     tp_added = Records [example_row ''t'' ''4''], tp_modified = Records [example_row ''t'' ''5''],
     tp_removed = Records [example_row ''u'' ''1''], tp_next_cursor = Some (Text ''n'')\<rparr>"

definition example_api :: plaid_api where
  "example_api = \<lparr>api_transactions_sync = (\<lambda>_. Inr [example_page]), api_transactions_get = (\<lambda>_. Inr []),
     api_accounts_balance_get = Inr \<lparr>rp_sha256 = ''b'', rp_request_id = None, rp_accounts = Records [example_account_row]\<rparr>,
     api_investments_holdings_get = Inl (''X'', ''x''), api_investments_transactions_get = (\<lambda>_. Inl (''X'', ''x''))\<rparr>"

definition example_plaid_db :: plaid_db where
  "example_plaid_db =
     \<lparr>pd_institutions = [],
      pd_connections = [\<lparr>pc_id = 1, pc_institution_name = ''Bank'', pc_status = ''active'', pc_last_synced_on = None,
        cn_environment = ''sandbox'', cn_target = ''sofi'', cn_item_id = ''i'', cn_transactions_cursor = None, cn_last_error = None\<rparr>],
      pd_accounts = [], pd_batches = [], pd_runs = [], pd_artifacts = [], pd_endpoints = [],
      pd_transactions = [new_transaction 7 (provider_key (\<lambda>s. s) ''i'' ''transaction'' ''u'')
        \<lparr>tv_account_id = 3, tv_artifact_id = 1, tv_posted_date = Date 2026 3 1, tv_description = ''Shop'', tv_role = ''external_outflow'',
         tv_amount = -100, tv_source_row = 1, tv_confidence = ''high''\<rparr>],
      pd_evidence = [\<lparr>ev_artifact_id = 1, ev_entity_type = ''account_transaction'', ev_entity_id = show_nat 7,
        ev_original_label = ''external_outflow'', ev_confidence = ''high''\<rparr>],
      pd_snapshots = [], pd_holdings = [], pd_scenarios = [],
      pd_book = \<lparr>rd_cash = \<lparr>cd_institutions = [], cd_accounts = [], cd_snapshots = [], cd_points = [], cd_transactions = []\<rparr>,
        rd_payroll = \<lparr>db_statements = [], db_lines = [], db_entries = [], db_allocations = [], db_matches = []\<rparr>,
        rd_transfers = [], rd_flows = [], rd_bridges = [], rd_results = []\<rparr>\<rparr>"

definition example_sync :: "plaid_db \<Rightarrow> plaid_db \<times> (plaid_error, unit) result" where
  "example_sync = sync_plaid_connection (\<lambda>_. ''d'') (\<lambda>s. s) example_api True (Date 2026 3 5) (Date 2026 3 5) 1"

lemma example_synced: "snd (example_sync example_plaid_db) = Inr ()"
  by code_simp

lemma example_ledger:
  "map entry_of (pd_transactions (fst (example_sync example_plaid_db))) = [(1, Date 2026 3 2, ''Shop'', ''external_outflow'', -500)]"
  by code_simp

lemma example_again: "snd (example_sync (fst (example_sync example_plaid_db))) = Inr ()"
  by code_simp

lemma example_ok: "transactions_ok example_plaid_db"
  by code_simp

lemma example_syncs:
  "sync_plaid_connection (\<lambda>_. ''d'') (\<lambda>s. s) example_api True (Date 2026 3 5) (Date 2026 3 5) 1 example_plaid_db
     = (fst (example_sync example_plaid_db), Inr ())"
  "sync_plaid_connection (\<lambda>_. ''d'') (\<lambda>s. s) example_api True (Date 2026 3 5) (Date 2026 3 5) 1 (fst (example_sync example_plaid_db))
     = (fst (example_sync (fst (example_sync example_plaid_db))), Inr ())"
  unfolding example_sync_def [symmetric] by (rule prod_eqI, simp_all only: fst_conv snd_conv example_synced example_again)+

text \<open>The connection a completed synchronisation leaves under its identifier.\<close>

lemma completed_connection:
  assumes "find (\<lambda>c. pc_id c = cid) (pd_connections db) = Some conn"
    and "find (\<lambda>c. pc_id c = cid) (pd_connections (complete_run run x c today db)) = Some conn'"
  shows "pc_id conn' = pc_id conn" and "cn_item_id conn' = cn_item_id conn" and "cn_target conn' = cn_target conn"
proof -
  define f where "f = (\<lambda>y :: sync_connection. if pc_id y = pc_id x then y\<lparr>pc_status := ''active'', pc_last_synced_on := Some today,
    cn_transactions_cursor := sc_cursor c, cn_last_error := None\<rparr> else y)"
  have "pd_connections (complete_run run x c today db) = map f (pd_connections db)"
    by (simp add: complete_run_def update_connection_def update_batch_def update_run_def f_def)
  moreover have "find (\<lambda>c. pc_id c = cid) (map f cs) = map_option f (find (\<lambda>c. pc_id c = cid) cs)" for cs
    by (rule find_map_same) (simp add: f_def)
  ultimately have "conn' = f conn" using assms by simp
  then show "pc_id conn' = pc_id conn" and "cn_item_id conn' = cn_item_id conn" and "cn_target conn' = cn_target conn"
    by (simp_all add: f_def)
qed

lemma same_connection:
  assumes "pc_id conn' = pc_id conn" "cn_item_id conn' = cn_item_id conn" "cn_target conn' = cn_target conn"
    and "\<And>cursor. api_transactions_sync api cursor = answer"
  shows "known_account sha conn' = known_account sha conn" and "sync_changes sha api conn' = sync_changes sha api conn"
proof -
  show "known_account sha conn' = known_account sha conn"
    by (intro ext) (simp add: known_account_def is_account_of_def [abs_def] assms)
  have "transactions_pages api (cn_transactions_cursor conn') = transactions_pages api (cn_transactions_cursor conn)"
    by (simp add: transactions_pages_def assms(4))
  moreover have "page_changes sha conn' p = page_changes sha conn p" "investment_page_changes sha conn' q = investment_page_changes sha conn q" for p q
    unfolding page_changes_def [abs_def] investment_page_changes_def [abs_def] sofi_changes_def [abs_def] removal_changes_def [abs_def]
      investment_changes_def [abs_def] entry_changes_def [abs_def] assms(2) by (rule refl)+
  ultimately show "sync_changes sha api conn' = sync_changes sha api conn"
    by (intro ext) (simp only: sync_changes_def assms)
qed

section \<open>The properties\<close>

text \<open>
  C18: A synchronisation that returns performs on the ledger, read as a map from provider identifiers to entries,
  exactly the changes its responses ask for, in their order: the removals of a page, then its added and its
  modified transactions, those of the history after those of the pages. A transaction no response names keeps
  its entry.
\<close>

theorem sync_performs_changes:
  assumes "transactions_ok db" and "sync_plaid_connection digest sha api credentials d today cid db = (db', Inr ())"
  shows "\<exists>conn \<in> set (pd_connections db). pc_id conn = cid
    \<and> ledger db' = apply_changes (sync_changes sha api conn d (known_account sha conn db')) (ledger db)"
proof -
  obtain conn where conn: "find (\<lambda>c. pc_id c = cid) (pd_connections db) = Some conn"
    and changes: "ledger db' = apply_changes (sync_changes sha api conn d (known_account sha conn db')) (ledger db)"
    by (rule synced_ledger [OF assms]) (use map_le_refl in blast)
  from conn have "conn \<in> set (pd_connections db)" "pc_id conn = cid" by (auto simp: find_Some_iff)
  with changes show ?thesis by blast
qed

theorem sync_performs_changes_witness:
  "\<exists>conn \<in> set (pd_connections example_plaid_db). pc_id conn = 1
    \<and> ledger (fst (example_sync example_plaid_db)) = apply_changes
        (sync_changes (\<lambda>s. s) example_api conn (Date 2026 3 5) (known_account (\<lambda>s. s) conn (fst (example_sync example_plaid_db))))
        (ledger example_plaid_db)"
  by (rule sync_performs_changes [OF example_ok example_syncs(1)])

text \<open>
  C21: Synchronising again changes nothing when Plaid answers as before: with pages that do not depend on the
  cursor, the ledger after a second synchronisation is the ledger after the first, so a response delivered
  twice is neither booked twice nor lost.
\<close>

theorem sync_again_same_ledger:
  assumes "transactions_ok db" and "\<And>cursor. api_transactions_sync api cursor = answer"
    and "sync_plaid_connection digest sha api credentials d today cid db = (db1, Inr ())"
    and "sync_plaid_connection digest sha api credentials d today' cid db1 = (db2, Inr ())"
  shows "ledger db2 = ledger db1"
proof (rule synced_ledger [OF assms(1,3)])
  fix conn run c db0
  assume one: "find (\<lambda>c. pc_id c = cid) (pd_connections db) = Some conn" "db1 = complete_run run conn c today db0"
      "pd_connections db0 = pd_connections db" "transactions_ok db1"
    and first: "\<And>acc. known_account sha conn db1 \<subseteq>\<^sub>m acc \<Longrightarrow> ledger db1 = apply_changes (sync_changes sha api conn d acc) (ledger db)"
  show "ledger db2 = ledger db1"
  proof (rule synced_ledger [OF one(4) assms(4)])
    fix conn'
    assume two: "find (\<lambda>c. pc_id c = cid) (pd_connections db1) = Some conn'"
        "known_account sha conn' db1 \<subseteq>\<^sub>m known_account sha conn' db2"
      and again: "\<And>acc. known_account sha conn' db2 \<subseteq>\<^sub>m acc \<Longrightarrow> ledger db2 = apply_changes (sync_changes sha api conn' d acc) (ledger db1)"
    note same = same_connection [OF completed_connection [OF one(1) [folded one(3)] two(1) [unfolded one(2)]] assms(2)]
    let ?changes = "sync_changes sha api conn d (known_account sha conn db2)"
    have "ledger db2 = apply_changes ?changes (ledger db1)" using again [OF map_le_refl] by (simp only: same)
    also have "ledger db1 = apply_changes ?changes (ledger db)" using first two(2) by (simp only: same)
    finally show ?thesis unfolding apply_changes_again using \<open>ledger db1 = _\<close> by simp
  qed
qed

theorem sync_again_same_ledger_witness:
  "ledger (fst (example_sync (fst (example_sync example_plaid_db)))) = ledger (fst (example_sync example_plaid_db))"
  by (rule sync_again_same_ledger [OF example_ok _ example_syncs]) (simp add: example_api_def)

text \<open>
  C19: After any history of synchronisations, complete or failed, and revocations, no two rows carry the same
  provider identifier, each provider transaction has exactly one piece of evidence, and no evidence is left of
  a transaction that is gone.
\<close>

theorem histories_keep_evidence:
  assumes "(plaid_step digest sha)\<^sup>*\<^sup>* db db'" and "transactions_ok db"
  shows "transactions_ok db'"
  using assms(1)
proof induction
  case (step db1 db2)
  from step(2) step(3) show ?case by cases (rule sync_ok, assumption+, rule revoke_ok)
qed (rule assms(2))

theorem histories_keep_evidence_witness: "transactions_ok (fst (example_sync example_plaid_db))"
  by (rule histories_keep_evidence [OF _ example_ok, where digest = "\<lambda>_. ''d''" and sha = "\<lambda>s. s"])
    (rule r_into_rtranclp, rule plaid_step.synchronised, rule example_syncs(1))

text \<open>
  C20: A synchronisation that raises leaves no part of its responses behind. Every table but those of the runs,
  the batches and the connections is as it was; of a connection only the status and the last error may have
  changed, so the cursor does not move past data that were not stored. Unless nothing was begun, there is one
  run more, which says that it failed.
\<close>

theorem failed_sync_stores_nothing:
  assumes "sync_plaid_connection digest sha api credentials d today cid db = (db', Inl e)"
  shows "db'\<lparr>pd_batches := pd_batches db, pd_runs := pd_runs db, pd_connections := pd_connections db\<rparr> = db
    \<and> map (\<lambda>c. c\<lparr>pc_status := s, cn_last_error := x\<rparr>) (pd_connections db') = map (\<lambda>c. c\<lparr>pc_status := s, cn_last_error := x\<rparr>) (pd_connections db)
    \<and> (db' = db \<or> (\<exists>run. pd_runs db' = pd_runs db @ [run] \<and> sr_status run = ''failed'' \<and> sr_error_code run \<noteq> None))"
  using assms
proof (cases rule: sync_cases)
  case (failed conn db1 run e')
  obtain code message status last_error where f: "failure_facts e' = (code, message, status, last_error)" by (metis prod_cases4)
  define g where "g = (\<lambda>r :: plaid_sync_run. if sr_id r = sr_id run then r\<lparr>sr_status := ''failed'', sr_error_code := Some code, sr_error_message := Some message\<rparr> else r)"
  define h where "h = (\<lambda>c :: sync_connection. if pc_id c = pc_id conn then c\<lparr>pc_status := status, cn_last_error := Some last_error\<rparr> else c)"
  note db1 = open_run_tables [OF failed(2)]
  have connections: "pd_connections db' = map h (pd_connections db)" and all_runs: "pd_runs db' = map g (pd_runs db @ [run])"
    and rest: "db'\<lparr>pd_batches := b, pd_runs := r, pd_connections := c\<rparr> = db1\<lparr>pd_batches := b, pd_runs := r, pd_connections := c\<rparr>" for b r c
    unfolding failed(3) fail_run_def f update_connection_def update_batch_def update_run_def prod.case g_def h_def by (simp_all add: db1)
  have "db'\<lparr>pd_batches := pd_batches db, pd_runs := pd_runs db, pd_connections := pd_connections db\<rparr>
      = (db1\<lparr>pd_batches := pd_batches db, pd_runs := pd_runs db\<rparr>)\<lparr>pd_connections := pd_connections db\<rparr>"
    unfolding rest by simp
  also have "\<dots> = db" unfolding db1(7) by simp
  finally have tables: "db'\<lparr>pd_batches := pd_batches db, pd_runs := pd_runs db, pd_connections := pd_connections db\<rparr> = db" .
  have "sr_id r \<noteq> sr_id run" if "r \<in> set (pd_runs db)" for r
    using next_id_fresh [of "sr_id r" "map sr_id (pd_runs db)"] that unfolding db1(6) by auto
  then have "map g (pd_runs db) = pd_runs db" by (intro map_idI) (simp add: g_def)
  then have runs: "pd_runs db' = pd_runs db @ [g run]" by (simp add: all_runs)
  have "sr_status (g run) = ''failed''" "sr_error_code (g run) \<noteq> None" by (simp_all add: g_def)
  moreover have "map (\<lambda>c. c\<lparr>pc_status := s, cn_last_error := x\<rparr>) (pd_connections db') = map (\<lambda>c. c\<lparr>pc_status := s, cn_last_error := x\<rparr>) (pd_connections db)"
    by (simp add: connections h_def)
  ultimately show ?thesis using tables runs by blast
qed simp_all

definition example_failing :: plaid_api where
  "example_failing = example_api\<lparr>api_transactions_get := (\<lambda>_. Inl (''RATE_LIMIT_EXCEEDED'', ''Try later''))\<rparr>"

lemma example_failed:
  "snd (sync_plaid_connection (\<lambda>_. ''d'') (\<lambda>s. s) example_failing True (Date 2026 3 5) (Date 2026 3 5) 1 example_plaid_db)
     = Inl (Plaid_api_error ''RATE_LIMIT_EXCEEDED'' ''Try later'')"
  by code_simp

theorem failed_sync_stores_nothing_witness:
  "\<exists>db'. db'\<lparr>pd_batches := [], pd_runs := [], pd_connections := pd_connections example_plaid_db\<rparr> = example_plaid_db
    \<and> (db' = example_plaid_db \<or> (\<exists>run. pd_runs db' = [run] \<and> sr_status run = ''failed''))"
proof -
  let ?r = "sync_plaid_connection (\<lambda>_. ''d'') (\<lambda>s. s) example_failing True (Date 2026 3 5) (Date 2026 3 5) 1 example_plaid_db"
  have r: "?r = (fst ?r, Inl (Plaid_api_error ''RATE_LIMIT_EXCEEDED'' ''Try later''))"
    by (rule prod_eqI) (simp_all only: fst_conv snd_conv example_failed)
  have empty: "pd_batches example_plaid_db = []" "pd_runs example_plaid_db = []" by (simp_all add: example_plaid_db_def)
  from failed_sync_stores_nothing [OF r] show ?thesis unfolding empty append_Nil by blast
qed

text \<open>
  Storing a holdings response replaces the holdings of the accounts it names by those it lists, in their
  order and with their quantities and values, and leaves the holdings of every other account alone.
\<close>

theorem holdings_are_those_reported:
  assumes "store_fidelity_holdings sha conn artifact_id r d db = Inr (db', seen, n)"
  shows "filter (\<lambda>h. ih_account_id h \<notin> seen) (pd_holdings db') = filter (\<lambda>h. ih_account_id h \<notin> seen) (pd_holdings db)
    \<and> list_all2 (holding_of (known_account sha conn db')) (records_of (hr_holdings r)) (filter (\<lambda>h. ih_account_id h \<in> seen) (pd_holdings db'))
    \<and> n = length (records_of (hr_holdings r))"
  using store_fidelity_holdings_performs [OF assms] unfolding holdings_replaced_def by blast

definition example_holdings :: holdings_response where
  "example_holdings = \<lparr>rp_sha256 = ''h'', rp_request_id = None, rp_accounts = Records [example_account_row],
     hr_securities = Records [\<lparr>rs_security_id = Some (Text ''s''), rs_name = Some (Text ''Fund''), rs_ticker_symbol = None,
       rs_type = Some (Text ''etf''), rs_close_price_as_of = Some (Text ''2026-03-04'')\<rparr>],
     hr_holdings = Records [\<lparr>rh_account_id = Some (Text ''a''), rh_security_id = Some (Text ''s''), rh_quantity = Some (Number ''2.5''),
       rh_institution_price = None, rh_institution_value = Some (Number ''3''), rh_cost_basis = None\<rparr>]\<rparr>"

definition example_holder :: sync_connection where
  "example_holder = \<lparr>pc_id = 1, pc_institution_name = ''Broker'', pc_status = ''active'', pc_last_synced_on = None,
     cn_environment = ''sandbox'', cn_target = ''fidelity'', cn_item_id = ''i'', cn_transactions_cursor = None, cn_last_error = None\<rparr>"

lemma example_holdings_stored:
  "case store_fidelity_holdings (\<lambda>s. s) example_holder 1 example_holdings (Date 2026 3 5) example_plaid_db of
     Inl _ \<Rightarrow> False | Inr (db', seen, n) \<Rightarrow> map ih_institution_value (pd_holdings db') = [300] \<and> n = 1"
  by code_simp

theorem holdings_are_those_reported_witness:
  "\<exists>db' seen. store_fidelity_holdings (\<lambda>s. s) example_holder 1 example_holdings (Date 2026 3 5) example_plaid_db = Inr (db', seen, 1)
    \<and> list_all2 (holding_of (known_account (\<lambda>s. s) example_holder db')) (records_of (hr_holdings example_holdings))
        (filter (\<lambda>h. ih_account_id h \<in> seen) (pd_holdings db'))"
proof -
  from example_holdings_stored obtain db' seen where s:
    "store_fidelity_holdings (\<lambda>s. s) example_holder 1 example_holdings (Date 2026 3 5) example_plaid_db = Inr (db', seen, 1)"
    by (auto split: sum.splits prod.splits)
  with holdings_are_those_reported [OF s] show ?thesis by blast
qed

text \<open>
  The category Plaid gives to coffee shops contains the letters of a fee, so that a coffee is booked as one.
\<close>

lemma coffee_is_a_fee:
  "sofi_role ((example_row ''t'' ''4.50'')\<lparr>rt_category_primary := Some (Text ''FOOD_AND_DRINK''),
     rt_category_detailed := Some (Text ''FOOD_AND_DRINK_COFFEE'')\<rparr>) (-450) = ''fee''"
  by code_simp

end
