(* ===== verification/Plaid_Client.thy ===== *)
theory Plaid_Client
  imports Plaid_Sync
begin

text \<open>
  The paging of \<open>plaid_client.py\<close>: a history is fetched page by page until it is complete, with at most a
  hundred requests, and raises rather than answer with part of it. A request is a parameter, a function from
  what distinguishes it to the answer or the code and message of \<open>PlaidAPIError\<close>.
\<close>

definition max_history_pages :: nat where "max_history_pages = 100"

definition invalid_history :: "string \<times> string" where
  "invalid_history = (''INVALID_RESPONSE'', ''Plaid history was incomplete or invalid. Existing data was preserved.'')"

definition is_list :: "'a records \<Rightarrow> bool" where
  "is_list rs \<longleftrightarrow> (case rs of No_records \<Rightarrow> False | _ \<Rightarrow> True)"

section \<open>Pages by cursor\<close>

record sync_response = transaction_page +
  sp_has_more :: "scalar option"

text \<open>\<open>has_more\<close> and \<open>next_cursor\<close> of a valid page.\<close>

definition page_state :: "sync_response \<Rightarrow> (bool \<times> string) option" where
  "page_state r =
     (case (sp_has_more r, tp_next_cursor r) of
        (Some (Truth unread), Some (Text c)) \<Rightarrow>
          (if c \<noteq> [] \<and> is_list (tp_added r) \<and> is_list (tp_modified r) \<and> is_list (tp_removed r) then Some (unread, c) else None)
      | _ \<Rightarrow> None)"

definition sent_cursor :: "string option \<Rightarrow> string option" where
  "sent_cursor c = (if c = Some [] then None else c)"

fun sync_loop ::
  "(string option \<Rightarrow> (string \<times> string, sync_response) result) \<Rightarrow> nat \<Rightarrow> string option \<Rightarrow> string set \<Rightarrow> sync_response list
     \<Rightarrow> (string \<times> string, sync_response list) result"
where
  "sync_loop post 0 next_cursor seen pages = Inl invalid_history"
| "sync_loop post (Suc n) next_cursor seen pages =
     bind_res (post (sent_cursor next_cursor)) (\<lambda>r.
     case page_state r of
       None \<Rightarrow> Inl invalid_history
     | Some (unread, c) \<Rightarrow>
         (if \<not> unread then Inr (pages @ [r])
          else if c \<in> seen then Inl invalid_history
          else sync_loop post n (Some c) (insert c seen) (pages @ [r])))"

definition transactions_sync ::
  "(string option \<Rightarrow> (string \<times> string, sync_response) result) \<Rightarrow> string option \<Rightarrow> (string \<times> string, sync_response list) result"
where
  "transactions_sync post cursor = sync_loop post max_history_pages cursor (set_option cursor) []"

section \<open>Pages by offset\<close>

text \<open>The rows of a page and the total it names, where it is a valid page.\<close>

definition history_count :: "'a records \<Rightarrow> int option \<Rightarrow> (nat \<times> nat) option" where
  "history_count rows of_all =
     (case of_all of None \<Rightarrow> None | Some t \<Rightarrow> if is_list rows \<and> 0 \<le> t then Some (list_count rows, nat t) else None)"

fun history_loop ::
  "('r \<Rightarrow> (nat \<times> nat) option) \<Rightarrow> (nat \<Rightarrow> (string \<times> string, 'r) result) \<Rightarrow> nat \<Rightarrow> nat \<Rightarrow> 'r list \<Rightarrow> (string \<times> string, 'r list) result"
where
  "history_loop counted post 0 offset pages = Inl invalid_history"
| "history_loop counted post (Suc n) offset pages =
     bind_res (post offset) (\<lambda>r.
     case counted r of
       None \<Rightarrow> Inl invalid_history
     | Some (rows, t) \<Rightarrow>
         (if t < offset + rows \<or> rows = 0 \<and> offset + rows < t then Inl invalid_history
          else if offset + rows = t then Inr (pages @ [r])
          else history_loop counted post n (offset + rows) (pages @ [r])))"

record history_response = history_page +
  hs_total_transactions :: "int option"

record investment_response = investment_page +
  is_total_investment_transactions :: "int option"

text \<open>The requests, with their dates from and to and their offset.\<close>

record plaid_posts =
  po_transactions_sync :: "string option \<Rightarrow> (string \<times> string, sync_response) result"
  po_transactions_get :: "date \<Rightarrow> date \<Rightarrow> nat \<Rightarrow> (string \<times> string, history_response) result"
  po_accounts_balance_get :: "(string \<times> string, response) result"
  po_investments_holdings_get :: "(string \<times> string, holdings_response) result"
  po_investments_transactions_get :: "date \<Rightarrow> date \<Rightarrow> nat \<Rightarrow> (string \<times> string, investment_response) result"

definition transactions_get :: "plaid_posts \<Rightarrow> date \<Rightarrow> (string \<times> string, history_response list) result" where
  "transactions_get posts end_date =
     history_loop (\<lambda>r. history_count (hp_transactions r) (hs_total_transactions r))
       (po_transactions_get posts (add_days end_date (- 730)) end_date) max_history_pages 0 []"

definition investments_transactions_get :: "plaid_posts \<Rightarrow> date \<Rightarrow> (string \<times> string, investment_response list) result" where
  "investments_transactions_get posts end_date =
     history_loop (\<lambda>r. history_count (ip_transactions r) (is_total_investment_transactions r))
       (po_investments_transactions_get posts (add_days end_date (- 730)) end_date) max_history_pages 0 []"

text \<open>The client as the synchronisation uses it.\<close>

definition client_api :: "plaid_posts \<Rightarrow> plaid_api" where
  "client_api posts =
     \<lparr>api_transactions_sync = (\<lambda>cursor. map_sum id (map transaction_page.truncate) (transactions_sync (po_transactions_sync posts) cursor)),
      api_transactions_get = (\<lambda>d. map_sum id (map history_page.truncate) (transactions_get posts d)),
      api_accounts_balance_get = po_accounts_balance_get posts,
      api_investments_holdings_get = po_investments_holdings_get posts,
      api_investments_transactions_get = (\<lambda>d. map_sum id (map investment_page.truncate) (investments_transactions_get posts d))\<rparr>"

section \<open>What is fetched\<close>

text \<open>Consecutive pages of a history: each was asked for at the number of the rows before it.\<close>

fun rows_from :: "('r \<Rightarrow> (nat \<times> nat) option) \<Rightarrow> (nat \<Rightarrow> (string \<times> string, 'r) result) \<Rightarrow> nat \<Rightarrow> 'r list \<Rightarrow> nat \<Rightarrow> bool" where
  "rows_from counted post offset [] t \<longleftrightarrow> False"
| "rows_from counted post offset (r # rs) t \<longleftrightarrow>
     post offset = Inr r \<and> (case counted r of None \<Rightarrow> False | Some (rows, of_all) \<Rightarrow>
       (if rs = [] then offset + rows = of_all \<and> of_all = t
        else offset + rows < of_all \<and> 0 < rows \<and> rows_from counted post (offset + rows) rs t))"

lemma history_loop_pages:
  assumes "history_loop counted post n offset pages = Inr all"
  shows "\<exists>rs t. all = pages @ rs \<and> length rs \<le> n \<and> rows_from counted post offset rs t"
  using assms
proof (induction counted post n offset pages rule: history_loop.induct)
  case (2 counted post n offset pages)
  from "2.prems" obtain r where r: "post offset = Inr r" by (auto elim: bind_res_InrE)
  with "2.prems" obtain rows t where c: "counted r = Some (rows, t)" "\<not> (t < offset + rows \<or> rows = 0 \<and> offset + rows < t)"
    by (auto split: option.splits if_splits)
  show ?case
  proof (cases "offset + rows = t")
    case True
    with "2.prems" r c show ?thesis by (intro exI [of _ "[r]"]) simp
  next
    case False
    with "2.prems" r c have "history_loop counted post n (offset + rows) (pages @ [r]) = Inr all" by simp
    from "2.IH" [OF r c(1) refl c(2) False this] obtain rs t' where
      rs: "all = (pages @ [r]) @ rs" "length rs \<le> n" "rows_from counted post (offset + rows) rs t'" by blast
    from rs(3) have "rs \<noteq> []" by auto
    with rs r c False show ?thesis by (intro exI [of _ "r # rs"]) auto
  qed
qed simp

text \<open>Consecutive pages by cursor: each was asked for with the cursor of the one before, and only the last has no more.\<close>

fun chained :: "(string option \<Rightarrow> (string \<times> string, sync_response) result) \<Rightarrow> string option \<Rightarrow> sync_response list \<Rightarrow> bool" where
  "chained post c [] \<longleftrightarrow> False"
| "chained post c (r # rs) \<longleftrightarrow>
     post (sent_cursor c) = Inr r \<and> (case page_state r of None \<Rightarrow> False | Some (unread, c') \<Rightarrow>
       (if rs = [] then \<not> unread else unread \<and> chained post (Some c') rs))"

lemma sync_loop_pages:
  assumes "sync_loop post n c seen pages = Inr all"
  shows "\<exists>rs. all = pages @ rs \<and> length rs \<le> n \<and> chained post c rs"
  using assms
proof (induction post n c seen pages rule: sync_loop.induct)
  case (2 post n c seen pages)
  from "2.prems" obtain r where r: "post (sent_cursor c) = Inr r" by (auto elim: bind_res_InrE)
  with "2.prems" obtain unread c' where p: "page_state r = Some (unread, c')" by (auto split: option.splits)
  show ?case
  proof (cases unread)
    case False
    with "2.prems" r p show ?thesis by (intro exI [of _ "[r]"]) simp
  next
    case True
    with "2.prems" r p have new: "c' \<notin> seen" and rest: "sync_loop post n (Some c') (insert c' seen) (pages @ [r]) = Inr all"
      by (auto split: if_splits)
    from "2.IH" [OF r p refl _ new rest] True obtain rs where
      rs: "all = (pages @ [r]) @ rs" "length rs \<le> n" "chained post (Some c') rs" by blast
    from rs(3) have "rs \<noteq> []" by auto
    with rs r p True show ?thesis by (intro exI [of _ "r # rs"]) auto
  qed
qed simp

lemma rows_from_spec:
  assumes "rows_from counted post offset rs t"
  defines "rows \<equiv> \<lambda>r. fst (the (counted r))"
  shows "rs \<noteq> [] \<and> t = offset + sum_list (map rows rs) \<and> counted (last rs) = Some (rows (last rs), t)
    \<and> (\<forall>k < length rs. post (offset + sum_list (map rows (take k rs))) = Inr (rs ! k))"
  using assms(1)
proof (induction rs arbitrary: offset)
  case (Cons r rs)
  then obtain n of_all where c: "counted r = Some (n, of_all)" and p: "post offset = Inr r" by (auto split: option.splits)
  have n: "rows r = n" by (simp add: rows_def c)
  show ?case
  proof (cases "rs = []")
    case True
    with Cons.prems c n p show ?thesis by simp
  next
    case False
    with Cons.prems c have "rows_from counted post (offset + n) rs t" by simp
    note IH = Cons.IH [OF this]
    have "post (offset + sum_list (map rows (take k (r # rs)))) = Inr ((r # rs) ! k)" if "k < length (r # rs)" for k
    proof (cases k)
      case 0
      with p show ?thesis by simp
    next
      case (Suc j)
      with IH that n show ?thesis by (simp add: add.assoc)
    qed
    with IH False n show ?thesis by simp
  qed
qed simp

section \<open>An example\<close>

definition example_posts :: plaid_posts where
  "example_posts =
     \<lparr>po_transactions_sync = (\<lambda>_. Inl invalid_history),
      po_transactions_get = (\<lambda>_ _ offset. Inr \<lparr>rp_sha256 = ''p'', rp_request_id = None, rp_accounts = Records [],
        hp_transactions = Mixed_records (if offset = 0 then 2 else 1), hs_total_transactions = Some 3\<rparr>),
      po_accounts_balance_get = Inl invalid_history, po_investments_holdings_get = Inl invalid_history,
      po_investments_transactions_get = (\<lambda>_ _ _. Inl invalid_history)\<rparr>"

lemma example_fetched: "map_sum id (map (\<lambda>r. list_count (hp_transactions r))) (transactions_get example_posts (Date 2026 3 5)) = Inr [2, 1]"
proof -
  have "map_sum id (map (\<lambda>r. list_count (hp_transactions r)))
      (history_loop (\<lambda>r. history_count (hp_transactions r) (hs_total_transactions r))
        (po_transactions_get example_posts s e) (Suc (Suc n)) 0 []) = Inr [2, 1]" for s e n
    by (simp add: example_posts_def history_count_def is_list_def list_count_def)
  from this [of _ _ 98] show ?thesis by (simp add: transactions_get_def max_history_pages_def)
qed

section \<open>The property\<close>

text \<open>
  A fetched history is complete: its pages are the answers to requests at offsets that leave no row out and
  ask for none twice, their rows are as many as the last page says there are, and at most a hundred requests were made.
\<close>

theorem fetched_history_complete:
  assumes "transactions_get posts d = Inr pages"
  shows "pages \<noteq> [] \<and> length pages \<le> 100
    \<and> hs_total_transactions (last pages) = Some (int (sum_list (map (\<lambda>r. list_count (hp_transactions r)) pages)))
    \<and> (\<forall>k < length pages. po_transactions_get posts (add_days d (- 730)) d
          (sum_list (map (\<lambda>r. list_count (hp_transactions r)) (take k pages))) = Inr (pages ! k))"
proof -
  let ?counted = "\<lambda>r :: history_response. history_count (hp_transactions r) (hs_total_transactions r)"
  let ?rows = "\<lambda>r. fst (the (?counted r))"
  from history_loop_pages [OF assms [unfolded transactions_get_def]] obtain t where
    p: "length pages \<le> max_history_pages" "rows_from ?counted (po_transactions_get posts (add_days d (- 730)) d) 0 pages t" by auto
  note spec = rows_from_spec [OF p(2), simplified]
  have valid: "?rows r = list_count (hp_transactions r)" if "r \<in> set rs" "rows_from ?counted post o' rs t" for r rs post o'
    using that by (induction rs arbitrary: o') (auto simp: history_count_def split: option.splits if_splits)
  have sums: "sum_list (map ?rows (take k pages)) = sum_list (map (\<lambda>r. list_count (hp_transactions r)) (take k pages))" for k
    by (rule arg_cong [OF map_cong [OF refl]]) (rule valid [OF _ p(2)], erule in_set_takeD)
  have all: "sum_list (map ?rows pages) = sum_list (map (\<lambda>r. list_count (hp_transactions r)) pages)"
    using sums [of "length pages"] by (simp only: take_all order_refl)
  have ne: "pages \<noteq> []" and t: "t = sum_list (map ?rows pages)" and end_page: "?counted (last pages) = Some (?rows (last pages), t)"
    and posts: "\<forall>k < length pages. po_transactions_get posts (add_days d (- 730)) d (sum_list (map ?rows (take k pages))) = Inr (pages ! k)"
    using spec by blast+
  have "hs_total_transactions (last pages) = Some (int t)"
    using end_page by (auto simp: history_count_def split: option.splits if_splits)
  with ne p(1) posts show ?thesis unfolding sums t all max_history_pages_def by blast
qed

theorem fetched_history_complete_witness:
  "\<exists>pages. transactions_get example_posts (Date 2026 3 5) = Inr pages \<and> hs_total_transactions (last pages) = Some 3 \<and> length pages \<le> 100"
proof (cases "transactions_get example_posts (Date 2026 3 5)")
  case (Inl e)
  with example_fetched show ?thesis by simp
next
  case (Inr pages)
  with example_fetched have "map (\<lambda>r. list_count (hp_transactions r)) pages = [2, 1]" by simp
  with fetched_history_complete [OF Inr] Inr show ?thesis by simp
qed

end
