(* ===== verification/Crash_Actions.thy ===== *)
theory Crash_Actions
  imports Prelude
begin

text \<open>
  Programs that change files and may be interrupted. An action maps a machine, which is what the
  process remembers and what the disk holds, to its result, the machine afterwards, and the disks
  it passes through, one for each write. The disk a crash leaves is the one before the action or one
  of those; what the process remembers is lost. \<open>wpc\<close> is the weakest precondition that also asks a
  property of every disk passed through.
\<close>

named_theorems crash_simps \<open>how weakest preconditions unfold\<close>

record ('j, 'd) machine =
  mc_mem :: 'j
  mc_disk :: 'd

type_synonym ('e, 'j, 'd, 'a) act = "('j, 'd) machine \<Rightarrow> ('e, 'a) result \<times> ('j, 'd) machine \<times> 'd list"

definition ret :: "'a \<Rightarrow> ('e, 'j, 'd, 'a) act" where
  "ret a m = (Inr a, m, [])"

definition raise :: "'e \<Rightarrow> ('e, 'j, 'd, 'a) act" where
  "raise e m = (Inl e, m, [])"

definition lift :: "('e, 'a) result \<Rightarrow> ('e, 'j, 'd, 'a) act" where
  "lift r m = (r, m, [])"

definition look :: "('j \<Rightarrow> 'd \<Rightarrow> ('e, 'j, 'd, 'a) act) \<Rightarrow> ('e, 'j, 'd, 'a) act" where
  "look f m = f (mc_mem m) (mc_disk m) m"

definition recall :: "('j \<Rightarrow> 'j) \<Rightarrow> ('e, 'j, 'd, unit) act" where
  "recall f m = (Inr (), m\<lparr>mc_mem := f (mc_mem m)\<rparr>, [])"

definition put :: "('d \<Rightarrow> 'd) \<Rightarrow> ('e, 'j, 'd, unit) act" where
  "put f m = (Inr (), m\<lparr>mc_disk := f (mc_disk m)\<rparr>, [f (mc_disk m)])"

definition bind_act :: "('e, 'j, 'd, 'a) act \<Rightarrow> ('a \<Rightarrow> ('e, 'j, 'd, 'b) act) \<Rightarrow> ('e, 'j, 'd, 'b) act" where
  "bind_act p f m =
     (case p m of (r, m', t) \<Rightarrow>
        (case r of
           Inl e \<Rightarrow> (Inl e, m', t)
         | Inr a \<Rightarrow> (case f a m' of (s, m'', t') \<Rightarrow> (s, m'', t @ t'))))"

fun in_turn :: "('e, 'j, 'd, unit) act list \<Rightarrow> ('e, 'j, 'd, unit) act" where
  "in_turn [] = ret ()"
| "in_turn (p # ps) = bind_act p (\<lambda>_. in_turn ps)"

definition only_if :: "bool \<Rightarrow> ('e, 'j, 'd, unit) act \<Rightarrow> ('e, 'j, 'd, unit) act" where
  "only_if b p = (if b then p else ret ())"

text \<open>\<open>try: p except Exception as e: h(e)\<close>\<close>

definition catch :: "('e, 'j, 'd, 'a) act \<Rightarrow> ('e \<Rightarrow> ('e, 'j, 'd, 'a) act) \<Rightarrow> ('e, 'j, 'd, 'a) act" where
  "catch p h m =
     (case p m of (r, m', t) \<Rightarrow>
        (case r of
           Inr a \<Rightarrow> (Inr a, m', t)
         | Inl e \<Rightarrow> (case h e m' of (s, m'', t') \<Rightarrow> (s, m'', t @ t'))))"

text \<open>The disks a crash can leave.\<close>

definition crash_disks :: "('e, 'j, 'd, 'a) act \<Rightarrow> ('j, 'd) machine \<Rightarrow> 'd list" where
  "crash_disks p m = mc_disk m # snd (snd (p m))"

section \<open>Weakest preconditions\<close>

definition wpc ::
  "('d \<Rightarrow> bool) \<Rightarrow> ('e, 'j, 'd, 'a) act \<Rightarrow> (('e, 'a) result \<Rightarrow> ('j, 'd) machine \<Rightarrow> bool) \<Rightarrow> ('j, 'd) machine \<Rightarrow> bool"
where
  "wpc I p Q m \<longleftrightarrow> (case p m of (r, m', t) \<Rightarrow> (\<forall>d \<in> set t. I d) \<and> Q r m')"

lemma wpc_ret [crash_simps]: "wpc I (ret a) Q m \<longleftrightarrow> Q (Inr a) m"
  by (simp add: wpc_def ret_def)

lemma wpc_raise [crash_simps]: "wpc I (raise e) Q m \<longleftrightarrow> Q (Inl e) m"
  by (simp add: wpc_def raise_def)

lemma wpc_lift [crash_simps]: "wpc I (lift r) Q m \<longleftrightarrow> Q r m"
  by (simp add: wpc_def lift_def)

lemma wpc_look [crash_simps]: "wpc I (look f) Q m \<longleftrightarrow> wpc I (f (mc_mem m) (mc_disk m)) Q m"
  by (simp add: wpc_def look_def)

lemma wpc_recall [crash_simps]: "wpc I (recall f) Q m \<longleftrightarrow> Q (Inr ()) (m\<lparr>mc_mem := f (mc_mem m)\<rparr>)"
  by (simp add: wpc_def recall_def)

lemma wpc_put [crash_simps]:
  "wpc I (put f) Q m \<longleftrightarrow> I (f (mc_disk m)) \<and> Q (Inr ()) (m\<lparr>mc_disk := f (mc_disk m)\<rparr>)"
  by (simp add: wpc_def put_def)

lemma wpc_bind:
  "wpc I (bind_act p f) Q m \<longleftrightarrow>
     wpc I p (\<lambda>r m'. case r of Inl e \<Rightarrow> Q (Inl e) m' | Inr a \<Rightarrow> wpc I (f a) Q m') m"
  by (auto simp: wpc_def bind_act_def split: prod.splits sum.splits)

lemma wpc_catch:
  "wpc I (catch p h) Q m \<longleftrightarrow>
     wpc I p (\<lambda>r m'. case r of Inr a \<Rightarrow> Q (Inr a) m' | Inl e \<Rightarrow> wpc I (h e) Q m') m"
  by (auto simp: wpc_def catch_def split: prod.splits sum.splits)

lemma wpc_in_turn [crash_simps]:
  "wpc I (in_turn []) Q m \<longleftrightarrow> Q (Inr ()) m"
  "wpc I (in_turn (p # ps)) Q m \<longleftrightarrow>
     wpc I p (\<lambda>r m'. case r of Inl e \<Rightarrow> Q (Inl e) m' | Inr _ \<Rightarrow> wpc I (in_turn ps) Q m') m"
  by (simp_all add: wpc_ret wpc_bind)

lemma wpc_only_if [crash_simps]: "wpc I (only_if b p) Q m \<longleftrightarrow> (if b then wpc I p Q m else Q (Inr ()) m)"
  by (simp add: only_if_def wpc_ret)

lemma wpc_mono:
  "wpc I p Q m \<Longrightarrow> (\<And>d. I d \<Longrightarrow> J d) \<Longrightarrow> (\<And>r m'. Q r m' \<Longrightarrow> R r m') \<Longrightarrow> wpc J p R m"
  by (auto simp: wpc_def split: prod.splits)

lemma wpc_bindI:
  assumes "wpc I p R m" and "\<And>a m'. R (Inr a) m' \<Longrightarrow> wpc I (f a) Q m'" and "\<And>e m'. R (Inl e) m' \<Longrightarrow> Q (Inl e) m'"
  shows "wpc I (bind_act p f) Q m"
  unfolding wpc_bind by (rule wpc_mono [OF assms(1)]) (auto split: sum.splits intro: assms(2,3))

lemma wpc_turnI:
  assumes "wpc I p R m" and "\<And>a m'. R (Inr a) m' \<Longrightarrow> wpc I (in_turn ps) Q m'" and "\<And>e m'. R (Inl e) m' \<Longrightarrow> Q (Inl e) m'"
  shows "wpc I (in_turn (p # ps)) Q m"
  unfolding in_turn.simps by (rule wpc_bindI [OF assms(1)]) (use assms(2,3) in auto)

lemma wpc_catchI:
  assumes "wpc I p R m" and "\<And>a m'. R (Inr a) m' \<Longrightarrow> Q (Inr a) m'" and "\<And>e m'. R (Inl e) m' \<Longrightarrow> wpc I (h e) Q m'"
  shows "wpc I (catch p h) Q m"
  unfolding wpc_catch by (rule wpc_mono [OF assms(1)]) (auto split: sum.splits intro: assms(2,3))

lemma wpc_crash: "wpc I p Q m \<Longrightarrow> I (mc_disk m) \<Longrightarrow> d \<in> set (crash_disks p m) \<Longrightarrow> I d"
  by (auto simp: wpc_def crash_disks_def split: prod.splits)

lemma wpc_run: "wpc I p Q m \<Longrightarrow> p m = (r, m', t) \<Longrightarrow> Q r m'"
  by (simp add: wpc_def)

section \<open>Triples\<close>

text \<open>From \<open>P\<close>, the action ends in \<open>Q\<close> with its result or in \<open>E\<close> with an error, and every disk on the way satisfies \<open>I\<close>.\<close>

named_theorems steady_rules \<open>actions and combinators that keep an assertion\<close>

definition triple ::
  "('d \<Rightarrow> bool) \<Rightarrow> (('j, 'd) machine \<Rightarrow> bool) \<Rightarrow> ('e, 'j, 'd, 'a) act \<Rightarrow> ('a \<Rightarrow> ('j, 'd) machine \<Rightarrow> bool)
     \<Rightarrow> (('j, 'd) machine \<Rightarrow> bool) \<Rightarrow> bool"
where
  "triple I P p Q E \<longleftrightarrow>
     (\<forall>m. P m \<longrightarrow> wpc I p (\<lambda>r m'. case r of Inl e \<Rightarrow> E m' | Inr a \<Rightarrow> Q a m') m)"

lemma triple_bind:
  assumes "triple I P p R E" and "\<And>a. triple I (R a) (f a) Q E"
  shows "triple I P (bind_act p f) Q E"
proof -
  have "wpc I (bind_act p f) (\<lambda>r m'. case r of Inl e \<Rightarrow> E m' | Inr a \<Rightarrow> Q a m') m" if "P m" for m
    by (rule wpc_bindI, rule assms(1) [unfolded triple_def, rule_format, OF that])
       (use assms(2) in \<open>simp_all add: triple_def\<close>)
  then show ?thesis by (simp add: triple_def)
qed

lemma triple_catch:
  assumes "triple I P p Q F" and "\<And>e. triple I F (h e) Q E"
  shows "triple I P (catch p h) Q E"
proof -
  have "wpc I (catch p h) (\<lambda>r m'. case r of Inl e \<Rightarrow> E m' | Inr a \<Rightarrow> Q a m') m" if "P m" for m
    by (rule wpc_catchI, rule assms(1) [unfolded triple_def, rule_format, OF that])
       (use assms(2) in \<open>simp_all add: triple_def\<close>)
  then show ?thesis by (simp add: triple_def)
qed

lemma triple_weaken:
  assumes "triple I P p Q E" and "\<And>m. P' m \<Longrightarrow> P m" and "\<And>a m. Q a m \<Longrightarrow> Q' a m" and "\<And>m. E m \<Longrightarrow> E' m"
  shows "triple I P' p Q' E'"
  unfolding triple_def
proof (intro allI impI)
  fix m assume "P' m"
  then have "wpc I p (\<lambda>r m'. case r of Inl e \<Rightarrow> E m' | Inr a \<Rightarrow> Q a m') m"
    using assms(1,2) by (simp add: triple_def)
  then show "wpc I p (\<lambda>r m'. case r of Inl e \<Rightarrow> E' m' | Inr a \<Rightarrow> Q' a m') m"
    by (rule wpc_mono) (auto split: sum.splits intro: assms(3,4))
qed

lemma triple_look:
  "(\<And>j d. triple I (\<lambda>m. P m \<and> mc_mem m = j \<and> mc_disk m = d) (f j d) Q E) \<Longrightarrow> triple I P (look f) Q E"
  by (simp add: triple_def wpc_look)

lemma triple_turn:
  "triple I P p (\<lambda>_. R) E \<Longrightarrow> triple I R (in_turn ps) Q E \<Longrightarrow> triple I P (in_turn (p # ps)) Q E"
  unfolding in_turn.simps by (rule triple_bind)

lemma triple_end: "(\<And>m. P m \<Longrightarrow> Q () m) \<Longrightarrow> triple I P (in_turn []) Q E"
  by (simp add: triple_def wpc_ret)

lemma triple_ret: "(\<And>m. P m \<Longrightarrow> Q a m) \<Longrightarrow> triple I P (ret a) Q E"
  by (simp add: triple_def wpc_ret)

lemma triple_raise: "(\<And>m. P m \<Longrightarrow> E m) \<Longrightarrow> triple I P (raise e) Q E"
  by (simp add: triple_def wpc_raise)

lemma triple_lift:
  "(\<And>a m. r = Inr a \<Longrightarrow> P m \<Longrightarrow> Q a m) \<Longrightarrow> (\<And>m. P m \<Longrightarrow> E m) \<Longrightarrow> triple I P (lift r) Q E"
  by (simp add: triple_def wpc_lift split: sum.splits)

lemma triple_pair:
  assumes "triple I P (in_turn [p, q]) (\<lambda>_. R) E" "triple I R (in_turn ps) Q E"
  shows "triple I P (in_turn (p # q # ps)) Q E"
proof -
  have "in_turn (p # q # ps) m = bind_act (in_turn [p, q]) (\<lambda>_. in_turn ps) m" for m
    by (simp add: bind_act_def ret_def split: prod.splits sum.splits)
  then have "in_turn (p # q # ps) = bind_act (in_turn [p, q]) (\<lambda>_. in_turn ps)" by (rule ext)
  then show ?thesis using triple_bind [OF assms] by simp
qed

text \<open>Actions that keep an assertion whichever way they end.\<close>

definition steady :: "('d \<Rightarrow> bool) \<Rightarrow> (('j, 'd) machine \<Rightarrow> bool) \<Rightarrow> ('e, 'j, 'd, 'a) act \<Rightarrow> bool" where
  "steady I P p \<longleftrightarrow> triple I P p (\<lambda>_. P) P"

lemma steady_bind [steady_rules]: "steady I P p \<Longrightarrow> (\<And>a. steady I P (f a)) \<Longrightarrow> steady I P (bind_act p f)"
  unfolding steady_def by (rule triple_bind)

lemma steady_catch [steady_rules]: "steady I P p \<Longrightarrow> (\<And>e. steady I P (h e)) \<Longrightarrow> steady I P (catch p h)"
  unfolding steady_def by (rule triple_catch)

lemma steady_look [steady_rules]: "(\<And>j d. steady I P (f j d)) \<Longrightarrow> steady I P (look f)"
  by (simp add: steady_def triple_def wpc_look)

lemma steady_turn [steady_rules]:
  "steady I P (in_turn [])"
  "steady I P p \<Longrightarrow> steady I P (in_turn ps) \<Longrightarrow> steady I P (in_turn (p # ps))"
  unfolding steady_def by (rule triple_end, assumption, rule triple_turn)

lemma steady_in_turn: "(\<And>p. p \<in> set ps \<Longrightarrow> steady I P p) \<Longrightarrow> steady I P (in_turn ps)"
proof (induction ps)
  case Nil
  show ?case by (rule steady_turn(1))
next
  case (Cons p ps)
  have "steady I P p" "steady I P (in_turn ps)" using Cons by simp_all
  then show ?case by (rule steady_turn(2))
qed

lemma steady_done [steady_rules]: "steady I P (ret a)" "steady I P (raise e)" "steady I P (lift r)"
  unfolding steady_def by (simp_all add: triple_ret triple_raise triple_lift)

lemma steady_only_if [steady_rules]: "steady I P p \<Longrightarrow> steady I P (only_if b p)"
  by (simp add: only_if_def steady_done)

lemma steady_if [steady_rules]: "(b \<Longrightarrow> steady I P p) \<Longrightarrow> (\<not> b \<Longrightarrow> steady I P q) \<Longrightarrow> steady I P (if b then p else q)"
  by simp

lemma steady_pair [steady_rules]: "(\<And>a b. x = (a, b) \<Longrightarrow> steady I P (f a b)) \<Longrightarrow> steady I P (case x of (a, b) \<Rightarrow> f a b)"
  by (cases x) simp

lemma steady_option [steady_rules]:
  "(x = None \<Longrightarrow> steady I P p) \<Longrightarrow> (\<And>a. x = Some a \<Longrightarrow> steady I P (f a)) \<Longrightarrow>
     steady I P (case x of None \<Rightarrow> p | Some a \<Rightarrow> f a)"
  by (cases x) simp_all

lemma steady_sum [steady_rules]:
  "(\<And>e. x = Inl e \<Longrightarrow> steady I P (g e)) \<Longrightarrow> (\<And>a. x = Inr a \<Longrightarrow> steady I P (f a)) \<Longrightarrow>
     steady I P (case x of Inl e \<Rightarrow> g e | Inr a \<Rightarrow> f a)"
  by (cases x) simp_all

end
