(* ===== verification/Data_Home.thy ===== *)
theory Data_Home
  imports Crash_Actions Decimal_Money Models
begin

text \<open>
  \<open>data_home.py\<close>: the one place where the desktop application creates, migrates, backs up, restores
  and rolls back its database, with a journal that survives a crash. Files are abstract contents of
  type \<open>'c\<close>; what SQLite, Alembic and the digests make of a content is the argument \<open>world\<close>.
  Every change of the disk is a step of an action, so a crash may fall between any two of them.
\<close>

section \<open>Errors, phases and the journal\<close>

text \<open>The code of a \<open>DataHomeError\<close>; \<open>Other_error\<close> is any other exception.\<close>

datatype data_error = Data_home_error string | Other_error

datatype phase =
    Fresh_setup_available | Candidate_selected | Source_inspection | Preview_ready | Confirmation_required
  | Backup_in_progress | Backup_verified | Staging_copy | Staging_validation | Schema_migration
  | Manifest_validation | Activation_pending | Activation_complete | Already_migrated | Recoverable_failure
  | Resume_available | Rollback_available | Restore_preview | Restore_in_progress | Restore_complete

datatype operation_kind = Fresh_setup | Migration | Restore

record journal =
  jn_operation_id :: string
  jn_kind :: operation_kind
  jn_phase :: phase
  jn_activated :: bool
  jn_completed :: bool
  jn_recoverable :: bool
  jn_failure_code :: "string option"
  jn_source_revision :: "string option"
  jn_source_digest :: "string option"
  jn_source_manifest_digest :: "string option"
  jn_backup_name :: "string option"
  jn_staging_name :: "string option"
  jn_safety_backup_name :: "string option"
  jn_expected_active_digest :: "string option"
  jn_logical_manifest_digest :: "string option"
  jn_rollback_name :: "string option"
  jn_rolled_back :: bool

record backup_record =
  br_backup_id :: string
  br_filename :: string
  br_operation_id :: string
  br_label :: string
  br_schema_revision :: string
  br_size :: nat
  br_sha256 :: string
  br_manifest_digest :: string

section \<open>The disk and the world\<close>

record 'c disk =
  dk_database :: "'c option"
  dk_backups :: "string \<rightharpoonup> 'c"
  dk_migration :: "string \<rightharpoonup> 'c"
  dk_journal :: "journal option"
  dk_journal_digest :: "string option"
  dk_catalog :: "backup_record list option"
  dk_catalog_digest :: "string option"

text \<open>What the checks of \<open>verify_database\<close> read from a file.\<close>

record database_facts =
  df_readable :: bool
  df_integrity :: bool
  df_foreign_keys :: bool
  df_versions :: "string list"
  df_tables :: "string list"
  df_size :: nat
  df_sha256 :: string
  df_manifest_digest :: string
  df_manifest_tables :: "string list"

text \<open>
  The functions for code outside the module: the facts of a file, the logical contents of one of its
  tables, the file SQLite's backup writes and the one an interrupted write leaves, the files Alembic
  leaves in turn while upgrading (or creating) one and whether it succeeds, the digests, and the test hook that makes a named point
  raise.
\<close>

record 'c world =
  wd_facts :: "'c \<Rightarrow> database_facts"
  wd_table :: "'c \<Rightarrow> string \<Rightarrow> string"
  wd_copy :: "'c \<Rightarrow> 'c"
  wd_torn :: "'c \<Rightarrow> 'c"
  wd_upgrade :: "'c option \<Rightarrow> 'c list \<times> bool"
  wd_journal_sha :: "journal \<Rightarrow> string"
  wd_catalog_sha :: "backup_record list \<Rightarrow> string"
  wd_text_sha :: "string \<Rightarrow> string"
  wd_hook :: "string \<Rightarrow> bool"

type_synonym ('c, 'a) data_act = "(data_error, journal, 'c disk, 'a) act"

definition schema_head :: string where
  "schema_head = ''0010_housing_plans''"

definition supported_revisions :: "string list" where
  "supported_revisions =
     [''0001_local_v01'', ''0002_plaid_read_only'', ''0003_payroll_detail'', ''0004_completed_payroll_schedule'',
      ''0005_money_map_v1'', ''0006_daily_data_refresh'', ''0007_refresh_timestamp_integrity'',
      ''0008_life_lab_v01'', ''0009_goal_persistence'', schema_head]"

definition fail :: "string \<Rightarrow> ('c, 'a) data_act" where
  "fail code = raise (Data_home_error code)"

definition inject :: "'c world \<Rightarrow> string \<Rightarrow> ('c, unit) data_act" where
  "inject w point = (if wd_hook w point then fail ''injected_failure'' else ret ())"

section \<open>\<open>verify_database\<close>\<close>

record database_verification =
  vf_revision :: string
  vf_size :: nat
  vf_sha256 :: string
  vf_manifest_digest :: string
  vf_table_count :: nat

definition verify_database ::
  "'c world \<Rightarrow> string option \<Rightarrow> 'c option \<Rightarrow> (data_error, database_verification) result"
where
  "verify_database w expected file =
     (case file of
        None \<Rightarrow> Inl (Data_home_error ''database_missing'')
      | Some c \<Rightarrow>
          let f = wd_facts w c in
          if df_size f = 0 then Inl (Data_home_error ''database_missing'')
          else if \<not> df_readable f then Inl (Data_home_error ''database_invalid'')
          else if \<not> df_integrity f then Inl (Data_home_error ''integrity_failed'')
          else if \<not> df_foreign_keys f then Inl (Data_home_error ''foreign_keys_failed'')
          else if length (df_versions f) \<noteq> 1 then Inl (Data_home_error ''revision_invalid'')
          else if expected \<noteq> None \<and> expected \<noteq> Some (hd (df_versions f))
            then Inl (Data_home_error ''revision_incompatible'')
          else if hd (df_versions f) \<in> set supported_revisions
              \<and> \<not> set [''institutions'', ''accounts'', ''import_batches'', ''alembic_version''] \<subseteq> set (df_tables f)
            then Inl (Data_home_error ''database_incomplete'')
          else Inr \<lparr>vf_revision = hd (df_versions f), vf_size = df_size f, vf_sha256 = df_sha256 f,
                    vf_manifest_digest = df_manifest_digest f, vf_table_count = length (df_manifest_tables f)\<rparr>)"

abbreviation verify_head :: "'c world \<Rightarrow> 'c option \<Rightarrow> (data_error, database_verification) result" where
  "verify_head w \<equiv> verify_database w (Some schema_head)"

text \<open>\<open>logical_tables(build_logical_manifest(path, include_tables=...))\<close>; a missing table raises.\<close>

definition logical_tables :: "'c world \<Rightarrow> string list option \<Rightarrow> 'c \<Rightarrow> (data_error, (string \<times> string) list) result" where
  "logical_tables w include c =
     (let available = df_manifest_tables (wd_facts w c);
          selected = (case include of None \<Rightarrow> available | Some ts \<Rightarrow> ts)
      in if set selected \<subseteq> set available then Inr (map (\<lambda>n. (n, wd_table w c n)) selected) else Inl Other_error)"

section \<open>Files\<close>

text \<open>The names the operations make up from their identifier.\<close>

definition fresh_staging :: "string \<Rightarrow> string" where "fresh_staging i = ''fresh-'' @ i @ ''.staging.sqlite3''"
definition migration_staging :: "string \<Rightarrow> string" where "migration_staging i = ''migration-'' @ i @ ''.staging.sqlite3''"
definition restore_staging :: "string \<Rightarrow> string" where "restore_staging i = ''restore-'' @ i @ ''.staging.sqlite3''"
definition source_backup :: "string \<Rightarrow> string" where "source_backup i = ''migration-source-'' @ i @ ''.sqlite3''"
definition pre_restore :: "string \<Rightarrow> string" where "pre_restore i = ''pre-restore-'' @ i @ ''.sqlite3''"
definition pre_replacement :: "string \<Rightarrow> string" where "pre_replacement i = ''pre-replacement-'' @ i @ ''.sqlite3''"
definition rollback_file :: "string \<Rightarrow> string" where "rollback_file i = ''rollback-'' @ i @ ''.sqlite3''"
definition failed_file :: "string \<Rightarrow> string" where "failed_file i = ''failed-active-'' @ i @ ''.sqlite3''"
definition backup_file :: "string \<Rightarrow> string \<Rightarrow> string" where
  "backup_file label i = ''paycheck-map-'' @ label @ ''-'' @ i @ ''.sqlite3''"

text \<open>\<open>Path(filename).name != filename\<close>\<close>

definition plain_name :: "string \<Rightarrow> bool" where
  "plain_name s \<longleftrightarrow> s \<noteq> [] \<and> CHR ''/'' \<notin> set s \<and> s \<noteq> ''.'' \<and> s \<noteq> ''..''"

definition ends_with :: "string \<Rightarrow> string \<Rightarrow> bool" where
  "ends_with s p \<longleftrightarrow> starts_with (rev s) (rev p)"

definition set_backup :: "string \<Rightarrow> 'c option \<Rightarrow> 'c disk \<Rightarrow> 'c disk" where
  "set_backup n c d = d\<lparr>dk_backups := (dk_backups d)(n := c)\<rparr>"

definition set_migration :: "string \<Rightarrow> 'c option \<Rightarrow> 'c disk \<Rightarrow> 'c disk" where
  "set_migration n c d = d\<lparr>dk_migration := (dk_migration d)(n := c)\<rparr>"

text \<open>
  \<open>online_backup\<close> to a file written by \<open>w\<close>: the destination is removed, written in part, then
  complete; a failure while writing removes it again. A crash may leave any of those.
\<close>

definition online_backup ::
  "'c world \<Rightarrow> ('c option \<Rightarrow> 'c disk \<Rightarrow> 'c disk) \<Rightarrow> string option \<Rightarrow> 'c option \<Rightarrow> ('c, database_verification) data_act"
where
  "online_backup w store fail_during source =
     (case source of
        None \<Rightarrow> fail ''backup_path''
      | Some c \<Rightarrow>
          bind_act (in_turn
            [put (store None),
             put (store (Some (wd_torn w c))),
             (case fail_during of
                None \<Rightarrow> ret ()
              | Some point \<Rightarrow> only_if (wd_hook w point) (in_turn [put (store None), fail ''injected_failure''])),
             put (store (Some (wd_copy w c)))])
            (\<lambda>_. lift (verify_database w None (Some (wd_copy w c)))))"

text \<open>\<open>_upgrade\<close> of the staging file, one migration after the other.\<close>

definition upgrade_staging :: "'c world \<Rightarrow> string \<Rightarrow> ('c, unit) data_act" where
  "upgrade_staging w staging =
     look (\<lambda>_ d. case wd_upgrade w (dk_migration d staging) of (files, success) \<Rightarrow>
       bind_act (in_turn (map (\<lambda>c. put (set_migration staging (Some c))) files))
         (\<lambda>_. if success then ret () else raise Other_error))"

section \<open>The journal\<close>

definition is_hex :: "char \<Rightarrow> bool" where
  "is_hex c = (let n = of_char c :: nat in (48 \<le> n \<and> n \<le> 57) \<or> (97 \<le> n \<and> n \<le> 102))"

definition is_digest :: "string \<Rightarrow> bool" where
  "is_digest s \<longleftrightarrow> length s = 64 \<and> list_all is_hex s"

definition is_operation_id :: "string \<Rightarrow> bool" where
  "is_operation_id s \<longleftrightarrow> length s = 28 \<and> list_all is_digit (take 8 s) \<and> s ! 8 = CHR ''T''
     \<and> list_all is_digit (take 6 (drop 9 s)) \<and> s ! 15 = CHR ''-'' \<and> list_all is_hex (drop 16 s)"

definition valid_name :: "string \<Rightarrow> bool" where
  "valid_name s \<longleftrightarrow> plain_name s \<and> ends_with s ''.sqlite3'' \<and> length s \<le> 180"

definition valid_failure :: "string \<Rightarrow> bool" where
  "valid_failure s \<longleftrightarrow> length s \<le> 64 \<and> (let t = filter (\<lambda>c. c \<noteq> CHR ''_'') s in
     t \<noteq> [] \<and> list_all (\<lambda>c. is_digit c \<or> is_upper c \<or> is_lower c) t)"

definition all_opt :: "('a \<Rightarrow> bool) \<Rightarrow> 'a option \<Rightarrow> bool" where
  "all_opt P x = (case x of None \<Rightarrow> True | Some a \<Rightarrow> P a)"

definition valid_journal :: "journal \<Rightarrow> bool" where
  "valid_journal j \<longleftrightarrow> is_operation_id (jn_operation_id j)
     \<and> list_all (all_opt is_digest)
         [jn_source_digest j, jn_source_manifest_digest j, jn_expected_active_digest j, jn_logical_manifest_digest j]
     \<and> list_all (all_opt valid_name)
         [jn_backup_name j, jn_staging_name j, jn_safety_backup_name j, jn_rollback_name j]
     \<and> all_opt valid_failure (jn_failure_code j)"

definition read_journal :: "'c world \<Rightarrow> ('c, journal option) data_act" where
  "read_journal w =
     look (\<lambda>_ d. case dk_journal d of
         None \<Rightarrow> ret None
       | Some j \<Rightarrow>
           if dk_journal_digest d \<noteq> Some (wd_journal_sha w j) then fail ''metadata_tampered''
           else if \<not> valid_journal j then fail ''journal_invalid''
           else ret (Some j))"

text \<open>The journal the process remembers is written, and then its digest.\<close>

definition write_journal :: "'c world \<Rightarrow> ('c, unit) data_act" where
  "write_journal w =
     look (\<lambda>j _. in_turn [put (\<lambda>d. d\<lparr>dk_journal := Some j\<rparr>),
                          put (\<lambda>d. d\<lparr>dk_journal_digest := Some (wd_journal_sha w j)\<rparr>)])"

definition set_phase :: "'c world \<Rightarrow> phase \<Rightarrow> ('c, unit) data_act" where
  "set_phase w p = in_turn [recall (\<lambda>j. j\<lparr>jn_phase := p\<rparr>), write_journal w]"

definition blank_journal :: "operation_kind \<Rightarrow> string \<Rightarrow> journal" where
  "blank_journal kind i =
     \<lparr>jn_operation_id = i, jn_kind = kind, jn_phase = Confirmation_required, jn_activated = False,
      jn_completed = False, jn_recoverable = False, jn_failure_code = None, jn_source_revision = None,
      jn_source_digest = None, jn_source_manifest_digest = None, jn_backup_name = None, jn_staging_name = None,
      jn_safety_backup_name = None, jn_expected_active_digest = None, jn_logical_manifest_digest = None,
      jn_rollback_name = None, jn_rolled_back = False\<rparr>"

definition new_journal :: "'c world \<Rightarrow> journal \<Rightarrow> ('c, unit) data_act" where
  "new_journal w j = in_turn [recall (\<lambda>_. j), write_journal w]"

section \<open>The catalog of backups\<close>

definition backup_id_of :: "'c world \<Rightarrow> string \<Rightarrow> string \<Rightarrow> string" where
  "backup_id_of w i filename = take 24 (wd_text_sha w (i @ '':'' @ filename))"

fun valid_catalog :: "'c world \<Rightarrow> backup_record list \<Rightarrow> bool" where
  "valid_catalog w [] = True"
| "valid_catalog w (r # rs) =
     (is_operation_id (br_operation_id r) \<and> plain_name (br_filename r) \<and> ends_with (br_filename r) ''.sqlite3''
      \<and> length (br_backup_id r) = 24 \<and> br_backup_id r = backup_id_of w (br_operation_id r) (br_filename r)
      \<and> br_backup_id r \<notin> br_backup_id ` set rs \<and> br_filename r \<notin> br_filename ` set rs
      \<and> br_schema_revision r \<in> set supported_revisions \<and> 0 < br_size r
      \<and> is_digest (br_sha256 r) \<and> is_digest (br_manifest_digest r) \<and> length (br_label r) \<le> 64
      \<and> valid_catalog w rs)"

definition read_catalog :: "'c world \<Rightarrow> ('c, backup_record list) data_act" where
  "read_catalog w =
     look (\<lambda>_ d. case dk_catalog d of
         None \<Rightarrow> ret []
       | Some rs \<Rightarrow>
           if dk_catalog_digest d \<noteq> Some (wd_catalog_sha w rs) then fail ''metadata_tampered''
           else if \<not> valid_catalog w rs then fail ''catalog_invalid''
           else ret rs)"

definition record_backup ::
  "'c world \<Rightarrow> string \<Rightarrow> string \<Rightarrow> database_verification \<Rightarrow> string \<Rightarrow> ('c, unit) data_act"
where
  "record_backup w filename i v label =
     bind_act (read_catalog w) (\<lambda>records.
       let bid = backup_id_of w i filename;
           r = \<lparr>br_backup_id = bid, br_filename = filename, br_operation_id = i, br_label = label,
                br_schema_revision = vf_revision v, br_size = vf_size v, br_sha256 = vf_sha256 v,
                br_manifest_digest = vf_manifest_digest v\<rparr>;
           rs = filter (\<lambda>x. br_backup_id x \<noteq> bid) records @ [r]
       in in_turn [put (\<lambda>d. d\<lparr>dk_catalog := Some rs\<rparr>),
                   put (\<lambda>d. d\<lparr>dk_catalog_digest := Some (wd_catalog_sha w rs)\<rparr>)])"

definition list_backups :: "'c world \<Rightarrow> ('c, (string \<times> string \<times> string \<times> string \<times> nat) list) data_act" where
  "list_backups w =
     bind_act (read_catalog w) (\<lambda>rs. ret
       (map (\<lambda>r. (br_backup_id r, br_filename r, br_label r, br_schema_revision r, br_size r)) rs))"

definition backup_record_for :: "'c world \<Rightarrow> string \<Rightarrow> ('c, backup_record) data_act" where
  "backup_record_for w backup_id =
     (if backup_id = [] \<or> \<not> list_all is_hex backup_id then fail ''backup_selection''
      else bind_act (read_catalog w) (\<lambda>rs.
        case find (\<lambda>r. br_backup_id r = backup_id) rs of
          None \<Rightarrow> fail ''backup_missing''
        | Some r \<Rightarrow> ret r))"

definition approved_artifact :: "string \<Rightarrow> ('c, unit) data_act" where
  "approved_artifact n = (if plain_name n then ret () else fail ''artifact_path'')"

definition backup_path :: "'c world \<Rightarrow> string \<Rightarrow> ('c, string) data_act" where
  "backup_path w backup_id =
     bind_act (backup_record_for w backup_id) (\<lambda>r.
       bind_act (approved_artifact (br_filename r)) (\<lambda>_.
         look (\<lambda>_ d. bind_act (lift (verify_head w (dk_backups d (br_filename r)))) (\<lambda>v.
           if vf_sha256 v \<noteq> br_sha256 r \<or> vf_manifest_digest v \<noteq> br_manifest_digest r then fail ''backup_changed''
           else ret (br_filename r)))))"

section \<open>What the interface shows\<close>

record public_status =
  pu_phase :: phase
  pu_ready :: bool
  pu_schema_revision :: "string option"
  pu_recoverable :: bool
  pu_resume_available :: bool
  pu_rollback_available :: bool
  pu_failure_code :: "string option"
  pu_activated :: bool
  pu_backup_count :: "nat option"

definition simple_status :: "phase \<Rightarrow> bool \<Rightarrow> string option \<Rightarrow> public_status" where
  "simple_status p ready revision =
     \<lparr>pu_phase = p, pu_ready = ready, pu_schema_revision = revision, pu_recoverable = False,
      pu_resume_available = False, pu_rollback_available = False, pu_failure_code = None,
      pu_activated = False, pu_backup_count = None\<rparr>"

definition public_journal :: "'c world \<Rightarrow> journal \<Rightarrow> ('c, public_status) data_act" where
  "public_journal w j =
     bind_act (read_catalog w) (\<lambda>rs. look (\<lambda>_ d. ret
       \<lparr>pu_phase = jn_phase j, pu_ready = (jn_completed j \<and> dk_database d \<noteq> None),
        pu_schema_revision = Some schema_head, pu_recoverable = jn_recoverable j,
        pu_resume_available = (jn_phase j = Resume_available),
        pu_rollback_available = (jn_rollback_name j \<noteq> None), pu_failure_code = jn_failure_code j,
        pu_activated = jn_activated j, pu_backup_count = Some (length rs)\<rparr>))"

definition show_journal :: "'c world \<Rightarrow> ('c, public_status) data_act" where
  "show_journal w = look (\<lambda>j _. public_journal w j)"

definition complete :: "'c world \<Rightarrow> phase \<Rightarrow> ('c, public_status) data_act" where
  "complete w p =
     bind_act (in_turn [recall (\<lambda>j. j\<lparr>jn_phase := p, jn_completed := True, jn_recoverable := False,
                          jn_failure_code := None\<rparr>), write_journal w])
       (\<lambda>_. show_journal w)"

definition failure_code_of :: "data_error \<Rightarrow> string" where
  "failure_code_of e = (case e of Data_home_error code \<Rightarrow> code | Other_error \<Rightarrow> ''operation_interrupted'')"

definition record_failure :: "'c world \<Rightarrow> data_error \<Rightarrow> ('c, public_status) data_act" where
  "record_failure w e =
     bind_act (in_turn [recall (\<lambda>j. j\<lparr>jn_phase := Recoverable_failure, jn_failure_code := Some (failure_code_of e),
                          jn_recoverable := True\<rparr>), write_journal w])
       (\<lambda>_. show_journal w)"

definition failure_status :: public_status where
  "failure_status = (simple_status Recoverable_failure False None)\<lparr>pu_failure_code := Some ''database_verification_failed''\<rparr>"

definition completion_phase :: "journal \<Rightarrow> phase" where
  "completion_phase j = (if jn_kind j = Restore then Restore_complete else Activation_complete)"

text \<open>\<open>except DataHomeError\<close>\<close>

definition catch_data :: "('c, 'a) data_act \<Rightarrow> ('c, 'a) data_act \<Rightarrow> ('c, 'a) data_act" where
  "catch_data p h = catch p (\<lambda>e. case e of Data_home_error _ \<Rightarrow> h | Other_error \<Rightarrow> raise Other_error)"

definition database_status :: "'c world \<Rightarrow> 'c \<Rightarrow> ('c, public_status) data_act" where
  "database_status w c =
     (case verify_database w None (Some c) of
        Inl _ \<Rightarrow> ret failure_status
      | Inr v \<Rightarrow> bind_act (read_catalog w) (\<lambda>rs. ret
          ((simple_status Already_migrated (vf_revision v = schema_head) (Some (vf_revision v)))
             \<lparr>pu_backup_count := Some (length rs)\<rparr>)))"

definition status :: "'c world \<Rightarrow> ('c, public_status) data_act" where
  "status w =
     bind_act (read_journal w) (\<lambda>mj. look (\<lambda>_ d.
       case mj of
         Some j \<Rightarrow>
           if jn_completed j \<and> isl (verify_head w (dk_database d)) then ret failure_status
           else public_journal w j
       | None \<Rightarrow>
           (case dk_database d of
              Some c \<Rightarrow> database_status w c
            | None \<Rightarrow> bind_act (read_catalog w) (\<lambda>rs. ret
                ((simple_status Fresh_setup_available False None)\<lparr>pu_backup_count := Some (length rs)\<rparr>)))))"

end
