(* ===== verification/Data_Home_Operations.thy ===== *)
theory Data_Home_Operations
  imports Data_Home
begin

text \<open>
  \<open>DataHomeManager\<close> of \<open>data_home.py\<close>: activation, setup, migration, backup, restore, and what the next
  start does about an operation that was interrupted. The random identifier of an operation, the
  tokens and the clock are arguments.
\<close>

section \<open>Activation\<close>

text \<open>\<open>_fsync_file\<close> and \<open>os.replace\<close> raise when the file is missing.\<close>

definition staged_file :: "string \<Rightarrow> ('c, 'c) data_act" where
  "staged_file n = look (\<lambda>_ d. case dk_migration d n of None \<Rightarrow> raise Other_error | Some c \<Rightarrow> ret c)"

definition move_staging_in :: "string \<Rightarrow> ('c, unit) data_act" where
  "move_staging_in staging =
     bind_act (staged_file staging) (\<lambda>c. put (\<lambda>d. (set_migration staging None d)\<lparr>dk_database := Some c\<rparr>))"

definition move_database_to :: "string \<Rightarrow> ('c, unit) data_act" where
  "move_database_to n =
     look (\<lambda>_ d. case dk_database d of
         None \<Rightarrow> raise Other_error
       | Some c \<Rightarrow> put (\<lambda>d. (set_migration n (Some c) d)\<lparr>dk_database := None\<rparr>))"

definition post_activation :: "'c world \<Rightarrow> ('c, unit) data_act" where
  "post_activation w =
     in_turn
       [inject w ''during_post_activation_verification'',
        look (\<lambda>j d. bind_act (lift (verify_head w (dk_database d))) (\<lambda>v.
          if Some (vf_sha256 v) \<noteq> jn_expected_active_digest j then fail ''post_activation_mismatch'' else ret ())),
        inject w ''before_journal_completion'']"

definition activate_new :: "'c world \<Rightarrow> string \<Rightarrow> ('c, unit) data_act" where
  "activate_new w staging =
     in_turn
       [set_phase w Activation_pending,
        inject w ''before_fsync'',
        bind_act (staged_file staging) (\<lambda>_. ret ()),
        inject w ''before_activation_rename'',
        look (\<lambda>_ d. if dk_database d \<noteq> None then fail ''activation_conflict'' else ret ()),
        move_staging_in staging,
        recall (\<lambda>j. j\<lparr>jn_activated := True\<rparr>), write_journal w,
        inject w ''immediately_after_activation_rename'',
        post_activation w]"

text \<open>The safety copy of the active database, unless it was made before.\<close>

definition safety_copy :: "'c world \<Rightarrow> string \<Rightarrow> string \<Rightarrow> database_verification \<Rightarrow> ('c, unit) data_act" where
  "safety_copy w i safety active =
     look (\<lambda>_ d. if dk_backups d safety \<noteq> None then ret ()
       else bind_act (online_backup w (set_backup safety) None (dk_database d)) (\<lambda>_.
         look (\<lambda>_ d. bind_act (lift (verify_head w (dk_backups d safety))) (\<lambda>v.
           if vf_manifest_digest v \<noteq> vf_manifest_digest active then fail ''replacement_backup_mismatch''
           else record_backup w safety i v ''pre-replacement''))))"

definition replace_active :: "'c world \<Rightarrow> string \<Rightarrow> ('c, unit) data_act" where
  "replace_active w staging =
     in_turn
       [set_phase w Activation_pending,
        look (\<lambda>j d. bind_act (lift (verify_head w (dk_database d))) (\<lambda>active.
          safety_copy w (jn_operation_id j)
            (case jn_safety_backup_name j of None \<Rightarrow> pre_replacement (jn_operation_id j) | Some n \<Rightarrow> n) active)),
        recall (\<lambda>j. j\<lparr>jn_rollback_name := Some (rollback_file (jn_operation_id j))\<rparr>), write_journal w,
        inject w ''before_fsync'',
        bind_act (staged_file staging) (\<lambda>_. ret ()),
        inject w ''before_activation_rename'',
        look (\<lambda>j _. move_database_to (rollback_file (jn_operation_id j))),
        inject w ''between_replacement_steps'',
        move_staging_in staging,
        recall (\<lambda>j. j\<lparr>jn_activated := True\<rparr>), write_journal w,
        inject w ''immediately_after_activation_rename'',
        post_activation w]"

definition activate :: "'c world \<Rightarrow> string \<Rightarrow> ('c, unit) data_act" where
  "activate w staging =
     look (\<lambda>_ d. if dk_database d \<noteq> None then replace_active w staging else activate_new w staging)"

text \<open>The staged content becomes the one the journal expects.\<close>

definition expect :: "database_verification \<Rightarrow> ('c, unit) data_act" where
  "expect v = recall (\<lambda>j. j\<lparr>jn_expected_active_digest := Some (vf_sha256 v),
     jn_logical_manifest_digest := Some (vf_manifest_digest v)\<rparr>)"

text \<open>\<open>try: ...; return self._complete(...) except Exception: return self._record_failure(...)\<close>\<close>

definition guarded :: "'c world \<Rightarrow> ('c, unit) data_act \<Rightarrow> (journal \<Rightarrow> phase) \<Rightarrow> ('c, public_status) data_act" where
  "guarded w p final =
     catch (bind_act p (\<lambda>_. look (\<lambda>j _. complete w (final j)))) (record_failure w)"

section \<open>Setup and migration\<close>

definition fresh_setup :: "'c world \<Rightarrow> string \<Rightarrow> ('c, public_status) data_act" where
  "fresh_setup w i =
     look (\<lambda>_ d. if dk_database d \<noteq> None then status w
       else bind_act (new_journal w ((blank_journal Fresh_setup i)\<lparr>jn_staging_name := Some (fresh_staging i)\<rparr>)) (\<lambda>_.
         guarded w
           (in_turn
             [set_phase w Staging_copy,
              inject w ''before_fresh_staging'',
              upgrade_staging w (fresh_staging i),
              inject w ''after_fresh_staging'',
              set_phase w Staging_validation,
              look (\<lambda>_ d. bind_act (lift (verify_head w (dk_migration d (fresh_staging i)))) expect),
              activate_new w (fresh_staging i)])
           (\<lambda>_. Activation_complete)))"

record candidate =
  ca_token :: string
  ca_verification :: database_verification
  ca_required_space :: nat
  ca_expires_at :: nat

text \<open>\<open>inspect_candidate\<close> on the content of the selected file.\<close>

definition inspect_candidate ::
  "'c world \<Rightarrow> 'c option \<Rightarrow> nat \<Rightarrow> nat \<Rightarrow> string \<Rightarrow> ('c, candidate) data_act"
where
  "inspect_candidate w source available_space now token =
     bind_act (in_turn [inject w ''before_source_inspection'']) (\<lambda>_.
       bind_act (lift (verify_database w None source)) (\<lambda>v.
         if vf_revision v \<notin> set supported_revisions then fail ''unsupported_revision''
         else let required = max (vf_size v * 4) (vf_size v + 16 * 1024 * 1024) in
           if available_space < required then fail ''insufficient_space''
           else bind_act (in_turn [inject w ''after_source_inspection'', inject w ''before_preview_confirmation'']) (\<lambda>_.
             ret \<lparr>ca_token = token, ca_verification = v, ca_required_space = required, ca_expires_at = now + 300\<rparr>)))"

definition destination_matches :: "'c world \<Rightarrow> 'c option \<Rightarrow> string \<Rightarrow> bool" where
  "destination_matches w database digest =
     (case database of
        None \<Rightarrow> False
      | Some c \<Rightarrow> (case verify_head w (Some c) of Inl _ \<Rightarrow> False | Inr v \<Rightarrow> vf_manifest_digest v = digest))"

text \<open>The body of \<open>_migrate\<close> once the source has been read.\<close>

definition check_copy :: "'c world \<Rightarrow> 'c option \<Rightarrow> string \<Rightarrow> string \<Rightarrow> ('c, database_verification) data_act" where
  "check_copy w file digest code =
     bind_act (lift (verify_database w None file)) (\<lambda>v. if vf_manifest_digest v \<noteq> digest then fail code else ret v)"

definition migrate_schema :: "'c world \<Rightarrow> string \<Rightarrow> database_verification \<Rightarrow> ('c, unit) data_act" where
  "migrate_schema w staging restored =
     only_if (vf_revision restored \<noteq> schema_head)
       (in_turn
         [set_phase w Schema_migration,
          inject w ''before_schema_migration'', inject w ''during_schema_migration'',
          upgrade_staging w staging,
          inject w ''after_schema_migration''])"

definition validate_staging ::
  "'c world \<Rightarrow> string \<Rightarrow> (string \<times> string) list \<Rightarrow> ('c, unit) data_act"
where
  "validate_staging w staging source_tables =
     look (\<lambda>_ d. bind_act (lift (verify_head w (dk_migration d staging))) (\<lambda>v.
       case dk_migration d staging of
         None \<Rightarrow> raise Other_error
       | Some c \<Rightarrow> bind_act (lift (logical_tables w (Some (map fst source_tables)) c)) (\<lambda>tables.
           if tables \<noteq> source_tables then fail ''logical_manifest_mismatch'' else expect v)))"

definition migrate :: "'c world \<Rightarrow> string \<Rightarrow> 'c \<Rightarrow> database_verification \<Rightarrow> ('c, unit) data_act" where
  "migrate w i source v =
     (let backup = source_backup i; staging = migration_staging i in
      bind_act (lift (logical_tables w None source)) (\<lambda>source_tables.
        in_turn
          [set_phase w Backup_in_progress,
           inject w ''before_backup_creation'',
           bind_act (online_backup w (set_backup backup) (Some ''during_backup'') (Some source)) (\<lambda>_. ret ()),
           inject w ''after_backup_creation_before_verification'',
           look (\<lambda>_ d. bind_act (check_copy w (dk_backups d backup) (vf_manifest_digest v) ''backup_manifest_mismatch'') (\<lambda>b.
             in_turn [inject w ''after_backup_verification'', set_phase w Backup_verified,
                      record_backup w backup i b ''migration-source''])),
           set_phase w Staging_copy,
           look (\<lambda>_ d. bind_act (online_backup w (set_migration staging) (Some ''during_isolated_restore'')
              (dk_backups d backup)) (\<lambda>_. ret ())),
           inject w ''after_isolated_restore'',
           look (\<lambda>_ d. bind_act (check_copy w (dk_migration d staging) (vf_manifest_digest v) ''staging_restore_mismatch'')
              (migrate_schema w staging)),
           set_phase w Manifest_validation,
           inject w ''during_logical_manifest_validation'',
           validate_staging w staging source_tables,
           activate w staging]))"

definition migration_journal :: "string \<Rightarrow> database_verification \<Rightarrow> journal" where
  "migration_journal i v =
     (blank_journal Migration i)\<lparr>jn_source_revision := Some (vf_revision v), jn_source_digest := Some (vf_sha256 v),
       jn_source_manifest_digest := Some (vf_manifest_digest v), jn_backup_name := Some (source_backup i),
       jn_staging_name := Some (migration_staging i)\<rparr>"

definition already_migrated :: public_status where
  "already_migrated = simple_status Already_migrated True (Some schema_head)"

definition confirm_migration ::
  "'c world \<Rightarrow> string \<Rightarrow> candidate option \<Rightarrow> 'c option \<Rightarrow> nat \<Rightarrow> string \<Rightarrow> ('c, public_status) data_act"
where
  "confirm_migration w i selected source now token =
     (case selected of
        None \<Rightarrow> fail ''candidate_expired''
      | Some ca \<Rightarrow>
          if ca_expires_at ca < now \<or> ca_token ca \<noteq> token then fail ''candidate_expired''
          else bind_act (lift (verify_database w None source)) (\<lambda>current.
            let v = ca_verification ca in
            if vf_sha256 current \<noteq> vf_sha256 v \<or> vf_manifest_digest current \<noteq> vf_manifest_digest v
            then fail ''source_changed''
            else bind_act (read_journal w) (\<lambda>prior. look (\<lambda>_ d.
              if (case prior of None \<Rightarrow> False
                  | Some j \<Rightarrow> jn_completed j \<and> jn_kind j = Migration \<and> jn_source_digest j = Some (vf_sha256 v)
                      \<and> dk_database d \<noteq> None)
              then bind_act (lift (verify_head w (dk_database d))) (\<lambda>_. ret already_migrated)
              else if destination_matches w (dk_database d) (vf_manifest_digest v) then ret already_migrated
              else (case source of
                      None \<Rightarrow> raise Other_error
                    | Some c \<Rightarrow> bind_act (new_journal w (migration_journal i v)) (\<lambda>_.
                        guarded w (migrate w i c v) (\<lambda>_. Activation_complete)))))))"

section \<open>Backup and restore\<close>

definition create_backup :: "'c world \<Rightarrow> string \<Rightarrow> string \<Rightarrow> ('c, public_status) data_act" where
  "create_backup w label i =
     (let filename = backup_file label i in
      look (\<lambda>_ d. if dk_database d = None then fail ''no_active_database''
        else bind_act (lift (verify_head w (dk_database d))) (\<lambda>source.
          bind_act (in_turn [inject w ''before_backup_creation'']) (\<lambda>_.
            bind_act (online_backup w (set_backup filename) (Some ''during_backup'') (dk_database d)) (\<lambda>b.
              bind_act (in_turn [inject w ''after_backup_creation_before_verification'']) (\<lambda>_.
                look (\<lambda>_ d. bind_act (lift (verify_head w (dk_backups d filename))) (\<lambda>v.
                  if vf_manifest_digest v \<noteq> vf_manifest_digest source \<or> vf_sha256 v \<noteq> vf_sha256 b
                  then fail ''backup_mismatch''
                  else bind_act (in_turn [inject w ''after_backup_verification'', record_backup w filename i v label]) (\<lambda>_.
                    bind_act (read_catalog w) (\<lambda>rs. ret
                      ((simple_status Backup_verified True (Some schema_head))\<lparr>pu_backup_count := Some (length rs)\<rparr>)))))))))))"

record restore_preview =
  rp_backup_id :: string
  rp_token :: string
  rp_expires_at :: nat
  rp_active_digest :: string

definition preview_restore :: "'c world \<Rightarrow> string \<Rightarrow> nat \<Rightarrow> string \<Rightarrow> ('c, restore_preview) data_act" where
  "preview_restore w backup_id now token =
     bind_act (backup_path w backup_id) (\<lambda>n. look (\<lambda>_ d.
       bind_act (lift (verify_head w (dk_backups d n))) (\<lambda>_.
         bind_act (lift (verify_head w (dk_database d))) (\<lambda>active.
           ret \<lparr>rp_backup_id = backup_id, rp_token = token, rp_expires_at = now + 300,
                rp_active_digest = vf_sha256 active\<rparr>))))"

text \<open>The safety copy of a restore, and the staging copy of the selected backup.\<close>

definition restore_safety :: "'c world \<Rightarrow> string \<Rightarrow> ('c, unit) data_act" where
  "restore_safety w i =
     (let safety = pre_restore i in
      look (\<lambda>_ d. bind_act (lift (verify_head w (dk_database d))) (\<lambda>current.
        bind_act (online_backup w (set_backup safety) None (dk_database d)) (\<lambda>_.
          look (\<lambda>_ d. bind_act (lift (verify_head w (dk_backups d safety))) (\<lambda>v.
            if vf_manifest_digest v \<noteq> vf_manifest_digest current then fail ''safety_backup_mismatch''
            else record_backup w safety i v ''pre-restore''))))))"

definition restore_staged :: "'c world \<Rightarrow> string \<Rightarrow> string \<Rightarrow> database_verification \<Rightarrow> ('c, unit) data_act" where
  "restore_staged w i selected v =
     (let staging = restore_staging i in
      look (\<lambda>_ d. bind_act (online_backup w (set_migration staging) (Some ''during_restore'') (dk_backups d selected)) (\<lambda>_.
        look (\<lambda>_ d. bind_act (lift (verify_head w (dk_migration d staging))) (\<lambda>restored.
          if vf_manifest_digest restored \<noteq> vf_manifest_digest v then fail ''restore_mismatch'' else expect restored)))))"

definition restore_journal :: "string \<Rightarrow> string \<Rightarrow> journal" where
  "restore_journal i selected =
     (blank_journal Restore i)\<lparr>jn_backup_name := Some selected, jn_staging_name := Some (restore_staging i),
       jn_safety_backup_name := Some (pre_restore i)\<rparr>"

definition restore :: "'c world \<Rightarrow> string \<Rightarrow> string \<Rightarrow> ('c, public_status) data_act" where
  "restore w i selected =
     bind_act (new_journal w (restore_journal i selected)) (\<lambda>_.
       guarded w
         (in_turn
           [set_phase w Restore_in_progress,
            look (\<lambda>_ d. bind_act (lift (verify_head w (dk_backups d selected))) (\<lambda>v.
              in_turn [restore_safety w i, restore_staged w i selected v])),
            replace_active w (restore_staging i)])
         (\<lambda>_. Restore_complete))"

definition confirm_restore ::
  "'c world \<Rightarrow> string \<Rightarrow> restore_preview option \<Rightarrow> string \<Rightarrow> nat \<Rightarrow> string \<Rightarrow> ('c, public_status) data_act"
where
  "confirm_restore w i preview backup_id now token =
     (case preview of
        None \<Rightarrow> fail ''restore_preview_required''
      | Some p \<Rightarrow>
          if rp_backup_id p \<noteq> backup_id \<or> rp_expires_at p < now \<or> rp_token p \<noteq> token
          then fail ''restore_preview_required''
          else look (\<lambda>_ d. bind_act (lift (verify_head w (dk_database d))) (\<lambda>current.
            if vf_sha256 current \<noteq> rp_active_digest p then fail ''restore_state_changed''
            else bind_act (backup_path w backup_id) (restore w i))))"

section \<open>After an interruption\<close>

definition recover_failure :: "'c world \<Rightarrow> ('c, public_status) data_act" where
  "recover_failure w =
     bind_act (in_turn [recall (\<lambda>j. j\<lparr>jn_phase := Recoverable_failure,
                          jn_failure_code := Some ''restart_requires_retry'', jn_recoverable := True\<rparr>),
                        write_journal w])
       (\<lambda>_. show_journal w)"

definition offer :: "'c world \<Rightarrow> phase \<Rightarrow> ('c, public_status) data_act" where
  "offer w p =
     bind_act (in_turn [recall (\<lambda>j. j\<lparr>jn_phase := p, jn_recoverable := True\<rparr>), write_journal w]) (\<lambda>_. show_journal w)"

definition recover_staging :: "'c world \<Rightarrow> ('c, public_status) data_act" where
  "recover_staging w =
     look (\<lambda>j d. case jn_staging_name j of
         None \<Rightarrow> recover_failure w
       | Some n \<Rightarrow> bind_act (approved_artifact n) (\<lambda>_.
           if dk_migration d n = None then recover_failure w
           else catch_data
             (bind_act (lift (verify_head w (dk_migration d n))) (\<lambda>v.
               bind_act (expect v) (\<lambda>_. offer w Resume_available)))
             (recover_failure w)))"

definition recover_rollback :: "'c world \<Rightarrow> ('c, public_status) data_act" where
  "recover_rollback w =
     look (\<lambda>j d. case jn_rollback_name j of
         None \<Rightarrow> recover_staging w
       | Some n \<Rightarrow> bind_act (approved_artifact n) (\<lambda>_.
           if dk_migration d n \<noteq> None then offer w Rollback_available else recover_staging w))"

text \<open>The database may already be the one the interrupted operation expected.\<close>

definition recover_active :: "'c world \<Rightarrow> ('c, public_status) data_act" where
  "recover_active w =
     look (\<lambda>j d.
       if jn_expected_active_digest j \<noteq> None \<and> dk_database d \<noteq> None
       then bind_act
         (catch_data
           (bind_act (lift (verify_head w (dk_database d))) (\<lambda>v.
             if Some (vf_sha256 v) = jn_expected_active_digest j
             then bind_act (complete w (completion_phase j)) (\<lambda>s. ret (Some s)) else ret None))
           (ret None))
         (\<lambda>r. case r of Some s \<Rightarrow> ret s | None \<Rightarrow> recover_rollback w)
       else recover_rollback w)"

definition recover :: "'c world \<Rightarrow> ('c, public_status option) data_act" where
  "recover w =
     bind_act (read_journal w) (\<lambda>mj.
       case mj of
         None \<Rightarrow> ret None
       | Some j \<Rightarrow> if jn_completed j then ret None
           else bind_act (recall (\<lambda>_. j)) (\<lambda>_. bind_act (recover_active w) (\<lambda>s. ret (Some s))))"

definition prepare :: "'c world \<Rightarrow> ('c, public_status) data_act" where
  "prepare w = bind_act (recover w) (\<lambda>r. case r of Some s \<Rightarrow> ret s | None \<Rightarrow> status w)"

definition resume_staged :: "'c world \<Rightarrow> string \<Rightarrow> ('c, public_status) data_act" where
  "resume_staged w n =
     look (\<lambda>_ d. bind_act (lift (verify_head w (dk_migration d n))) (\<lambda>v.
       bind_act (recall (\<lambda>j. j\<lparr>jn_expected_active_digest := Some (vf_sha256 v)\<rparr>)) (\<lambda>_.
         guarded w (activate w n) completion_phase)))"

definition resume :: "'c world \<Rightarrow> ('c, public_status) data_act" where
  "resume w =
     bind_act (read_journal w) (\<lambda>mj.
       case mj of
         None \<Rightarrow> fail ''resume_unavailable''
       | Some j \<Rightarrow> if jn_phase j \<noteq> Resume_available then fail ''resume_unavailable''
           else case jn_staging_name j of
             None \<Rightarrow> raise Other_error
           | Some staging \<Rightarrow>
               bind_act (recall (\<lambda>_. j)) (\<lambda>_.
                 bind_act (approved_artifact staging) (\<lambda>_. resume_staged w staging)))"

definition rollback_done :: "'c world \<Rightarrow> database_verification \<Rightarrow> ('c, public_status) data_act" where
  "rollback_done w v =
     look (\<lambda>_ d. bind_act (lift (verify_head w (dk_database d))) (\<lambda>active.
       if vf_manifest_digest active \<noteq> vf_manifest_digest v then fail ''rollback_mismatch''
       else bind_act (in_turn
         [recall (\<lambda>j. j\<lparr>jn_completed := True, jn_phase := Activation_complete, jn_rolled_back := True,
            jn_rollback_name := None, jn_expected_active_digest := Some (vf_sha256 active),
            jn_logical_manifest_digest := Some (vf_manifest_digest active)\<rparr>),
          write_journal w])
         (\<lambda>_. show_journal w)))"

definition rollback_from :: "'c world \<Rightarrow> journal \<Rightarrow> string \<Rightarrow> ('c, public_status) data_act" where
  "rollback_from w j n =
     look (\<lambda>_ d. bind_act (lift (verify_head w (dk_migration d n))) (\<lambda>v.
       bind_act (in_turn
         [only_if (dk_database d \<noteq> None) (move_database_to (failed_file (jn_operation_id j))),
          move_staging_in n])
         (\<lambda>_. rollback_done w v)))"

definition rollback :: "'c world \<Rightarrow> ('c, public_status) data_act" where
  "rollback w =
     bind_act (read_journal w) (\<lambda>mj.
       case mj of
         None \<Rightarrow> fail ''rollback_unavailable''
       | Some j \<Rightarrow>
           (case jn_rollback_name j of
              None \<Rightarrow> fail ''rollback_unavailable''
            | Some n \<Rightarrow>
                bind_act (recall (\<lambda>_. j)) (\<lambda>_.
                  bind_act (in_turn [inject w ''during_rollback'', approved_artifact n])
                    (\<lambda>_. rollback_from w j n))))"

end
