(* ===== verification/Data_Home_Facts.thy ===== *)
theory Data_Home_Facts
  imports Data_Home_Operations
begin

text \<open>
  What survives an interruption. Any sequence of operations, each run to its end or cut off at any of
  its writes, keeps every content the database ever had and every backup file. The invariant says
  which names and files an operation may find, and every operation preserves it on every disk it
  passes through.
\<close>

section \<open>Operations and steps\<close>

text \<open>What the interface asks of the manager, with what the user selected and the clock.\<close>

datatype 'c request =
    Start
  | Set_up
  | Inspect "'c option" nat nat string
  | Import "candidate option" "'c option" nat string
  | Back_up string
  | Preview string nat string
  | Replace "restore_preview option" string nat string
  | Continue
  | Undo

definition only_effects :: "('c, 'a) data_act \<Rightarrow> ('c, unit) data_act" where
  "only_effects p = bind_act p (\<lambda>_. ret ())"

fun perform :: "'c world \<Rightarrow> string \<Rightarrow> 'c request \<Rightarrow> ('c, unit) data_act" where
  "perform w i Start = only_effects (prepare w)"
| "perform w i Set_up = only_effects (fresh_setup w i)"
| "perform w i (Inspect source space now token) = only_effects (inspect_candidate w source space now token)"
| "perform w i (Import ca source now token) = only_effects (confirm_migration w i ca source now token)"
| "perform w i (Back_up label) = only_effects (create_backup w label i)"
| "perform w i (Preview b now token) = only_effects (preview_restore w b now token)"
| "perform w i (Replace p b now token) = only_effects (confirm_restore w i p b now token)"
| "perform w i Continue = only_effects (resume w)"
| "perform w i Undo = only_effects (rollback w)"

text \<open>
  A state is the set of identifiers given out and the disk. A step performs a request under a new
  identifier, from whatever the process remembers, to its end or to any of the disks on the way.
\<close>

inductive home_step :: "'c world \<Rightarrow> string set \<times> 'c disk \<Rightarrow> string set \<times> 'c disk \<Rightarrow> bool" for w where
  finished: "i \<notin> U \<Longrightarrow> is_operation_id i \<Longrightarrow> perform w i r \<lparr>mc_mem = j, mc_disk = d\<rparr> = (x, m, t)
    \<Longrightarrow> home_step w (U, d) (insert i U, mc_disk m)"
| crashed: "i \<notin> U \<Longrightarrow> is_operation_id i \<Longrightarrow> d' \<in> set (crash_disks (perform w i r) \<lparr>mc_mem = j, mc_disk = d\<rparr>)
    \<Longrightarrow> home_step w (U, d) (insert i U, d')"

definition no_files :: "'c disk" where
  "no_files = \<lparr>dk_database = None, dk_backups = Map.empty, dk_migration = Map.empty, dk_journal = None,
     dk_journal_digest = None, dk_catalog = None, dk_catalog_digest = None\<rparr>"

text \<open>The contents kept as the database, as a rollback file or as a database a rollback took away.\<close>

definition held :: "'c disk \<Rightarrow> 'c set" where
  "held d = {c. dk_database d = Some c \<or>
     (\<exists>j. dk_migration d (rollback_file j) = Some c \<or> dk_migration d (failed_file j) = Some c)}"

section \<open>File names\<close>

lemma rollback_file_eq [simp]: "rollback_file i = rollback_file j \<longleftrightarrow> i = j"
  by (simp add: rollback_file_def)

lemma failed_file_eq [simp]: "failed_file i = failed_file j \<longleftrightarrow> i = j"
  by (simp add: failed_file_def)

lemma rollback_not_failed [simp]: "rollback_file i \<noteq> failed_file j" "failed_file j \<noteq> rollback_file i"
  by (simp_all add: rollback_file_def failed_file_def)

definition is_staging :: "string \<Rightarrow> string \<Rightarrow> bool" where
  "is_staging i n \<longleftrightarrow> n = fresh_staging i \<or> n = migration_staging i \<or> n = restore_staging i"

lemma is_stagingI [simp]: "is_staging i (fresh_staging i)" "is_staging i (migration_staging i)" "is_staging i (restore_staging i)"
  by (simp_all add: is_staging_def)

lemma staging_names [simp]:
  assumes "is_staging i n"
  shows "n \<noteq> rollback_file j" "n \<noteq> failed_file j" "rollback_file j \<noteq> n" "failed_file j \<noteq> n"
  using assms
  by (auto simp: is_staging_def fresh_staging_def migration_staging_def restore_staging_def rollback_file_def
        failed_file_def)

text \<open>The name of a backup ends in the identifier of the operation that made it.\<close>

definition made_by :: "string \<Rightarrow> string \<Rightarrow> bool" where
  "made_by i n \<longleftrightarrow> (\<exists>x. n = x @ i @ ''.sqlite3'')"

lemma made_by_names [simp]:
  "made_by i (source_backup i)" "made_by i (pre_restore i)" "made_by i (pre_replacement i)" "made_by i (backup_file l i)"
proof -
  show "made_by i (source_backup i)" "made_by i (pre_restore i)" "made_by i (pre_replacement i)"
    unfolding made_by_def source_backup_def pre_restore_def pre_replacement_def by blast+
  have "backup_file l i = (''paycheck-map-'' @ l @ ''-'') @ i @ ''.sqlite3''" by (simp add: backup_file_def)
  then show "made_by i (backup_file l i)" unfolding made_by_def by blast
qed

lemma made_by_unique: "made_by i n \<Longrightarrow> made_by j n \<Longrightarrow> length i = length j \<Longrightarrow> i = j"
  by (auto simp: made_by_def)

lemma operation_id_length: "is_operation_id i \<Longrightarrow> length i = 28"
  by (simp add: is_operation_id_def)

section \<open>The invariant\<close>

text \<open>What the safety of the files needs of a journal.\<close>

definition journal_core :: "journal \<Rightarrow> string \<times> string option \<times> string option \<times> string option \<times> bool" where
  "journal_core j = (jn_operation_id j, jn_staging_name j, jn_rollback_name j, jn_safety_backup_name j,
     jn_phase j = Resume_available)"

definition staging_gone :: "'c disk \<Rightarrow> journal \<Rightarrow> bool" where
  "staging_gone d j \<longleftrightarrow> (\<forall>n. jn_staging_name j = Some n \<longrightarrow> dk_migration d n = None)"

definition journal_named :: "string set \<Rightarrow> journal \<Rightarrow> bool" where
  "journal_named U j \<longleftrightarrow>
     (let i = jn_operation_id j in
      i \<in> U \<and> (jn_rollback_name j = None \<or> jn_rollback_name j = Some (rollback_file i))
      \<and> (\<forall>n. jn_staging_name j = Some n \<longrightarrow> is_staging i n)
      \<and> (\<forall>n. jn_safety_backup_name j = Some n \<longrightarrow> made_by i n))"

definition files_fit :: "'c disk \<Rightarrow> journal \<Rightarrow> bool" where
  "files_fit d j \<longleftrightarrow>
     (let rolled = dk_migration d (rollback_file (jn_operation_id j)) \<noteq> None;
          failed = dk_migration d (failed_file (jn_operation_id j)) \<noteq> None
      in (rolled \<longrightarrow> jn_rollback_name j \<noteq> None \<and> jn_phase j \<noteq> Resume_available)
       \<and> (rolled \<and> dk_database d \<noteq> None \<longrightarrow> \<not> failed \<and> staging_gone d j)
       \<and> (failed \<longrightarrow> staging_gone d j))"

definition journal_fits :: "string set \<Rightarrow> 'c disk \<Rightarrow> journal \<Rightarrow> bool" where
  "journal_fits U d j \<longleftrightarrow> journal_named U j \<and> files_fit d j"

definition names_used :: "string set \<Rightarrow> 'c disk \<Rightarrow> bool" where
  "names_used U d \<longleftrightarrow>
     (\<forall>j. dk_migration d (rollback_file j) \<noteq> None \<or> dk_migration d (failed_file j) \<noteq> None \<longrightarrow> j \<in> U)
     \<and> (\<forall>n. dk_backups d n \<noteq> None \<longrightarrow> (\<exists>i \<in> U. made_by i n))"

definition home_inv :: "string set \<Rightarrow> 'c disk \<Rightarrow> bool" where
  "home_inv U d \<longleftrightarrow> (\<forall>i \<in> U. length i = 28) \<and> names_used U d \<and> (\<forall>j. dk_journal d = Some j \<longrightarrow> journal_fits U d j)"

definition preserved :: "'c disk \<Rightarrow> 'c disk \<Rightarrow> bool" where
  "preserved d0 d \<longleftrightarrow> held d0 \<subseteq> held d \<and> dk_backups d0 \<subseteq>\<^sub>m dk_backups d"

definition sound :: "string set \<Rightarrow> 'c disk \<Rightarrow> 'c disk \<Rightarrow> bool" where
  "sound U d0 d \<longleftrightarrow> home_inv U d \<and> preserved d0 d"

lemma journal_fits_core: "journal_core j = journal_core k \<Longrightarrow> journal_fits U d j = journal_fits U d k"
  by (simp add: journal_core_def journal_fits_def journal_named_def files_fit_def staging_gone_def Let_def)

lemma journal_fits_disk:
  "dk_database d = dk_database e \<Longrightarrow> dk_migration d = dk_migration e \<Longrightarrow> journal_fits U d j = journal_fits U e j"
  by (simp add: journal_fits_def files_fit_def staging_gone_def Let_def)

lemma held_disk: "dk_database d = dk_database e \<Longrightarrow> dk_migration d = dk_migration e \<Longrightarrow> held d = held e"
  by (simp only: held_def)

lemma names_used_disk:
  "dk_backups d = dk_backups e \<Longrightarrow> dk_migration d = dk_migration e \<Longrightarrow> names_used U d = names_used U e"
  by (simp only: names_used_def)

lemma soundI:
  assumes "\<And>i. i \<in> U \<Longrightarrow> length i = 28" "names_used U d" "\<And>j. dk_journal d = Some j \<Longrightarrow> journal_fits U d j"
    and "held d0 \<subseteq> held d" "dk_backups d0 \<subseteq>\<^sub>m dk_backups d"
  shows "sound U d0 d"
  unfolding sound_def home_inv_def preserved_def using assms by blast

lemma soundD:
  assumes "sound U d0 d"
  shows "i \<in> U \<Longrightarrow> length i = 28" "names_used U d" "dk_journal d = Some j \<Longrightarrow> journal_fits U d j"
    "held d0 \<subseteq> held d" "dk_backups d0 \<subseteq>\<^sub>m dk_backups d"
  using assms unfolding sound_def home_inv_def preserved_def by blast+

lemma sound_frame:
  assumes s: "sound U d0 d"
    and eqs: "dk_database d = dk_database e" "dk_migration d = dk_migration e" "dk_backups d = dk_backups e"
      "dk_journal e = dk_journal d \<or> (\<exists>j. dk_journal e = Some j \<and> journal_fits U d j)"
  shows "sound U d0 e"
proof (rule soundI)
  fix j assume "dk_journal e = Some j"
  then have "journal_fits U d j" using eqs(4) soundD(3) [OF s] by auto
  then show "journal_fits U e j" by (simp only: journal_fits_disk [OF eqs(1,2)])
qed (use soundD(1,2,4,5) [OF s] in \<open>simp_all only: names_used_disk [OF eqs(3,2)] held_disk [OF eqs(1,2)] eqs(3)\<close>)

lemma sound_journal:
  assumes "sound U d0 d" "journal_fits U d j"
  shows "sound U d0 (d\<lparr>dk_journal := Some j\<rparr>)" "sound U d0 (d\<lparr>dk_journal := Some j, dk_journal_digest := s\<rparr>)"
  by (rule sound_frame [OF assms(1)]; simp add: assms(2))+

lemma sound_catalog:
  assumes "sound U d0 d"
  shows "sound U d0 (d\<lparr>dk_catalog := x\<rparr>)" "sound U d0 (d\<lparr>dk_catalog := x, dk_catalog_digest := s\<rparr>)"
  by (rule sound_frame [OF assms(1)]; simp)+

lemma sound_backup:
  assumes s: "sound U d0 d" and new: "dk_backups d0 n = None" and used: "i \<in> U" "made_by i n"
  shows "sound U d0 (set_backup n x d)"
proof (rule soundI)
  let ?e = "set_backup n x d"
  have same: "dk_database d = dk_database ?e" "dk_migration d = dk_migration ?e" by (simp_all add: set_backup_def)
  show "journal_fits U ?e j" if "dk_journal ?e = Some j" for j
    using that soundD(3) [OF s] journal_fits_disk [OF same] by (simp add: set_backup_def)
  show "names_used U ?e"
    using soundD(2) [OF s] used unfolding names_used_def set_backup_def by auto
  show "dk_backups d0 \<subseteq>\<^sub>m dk_backups ?e"
    using soundD(5) [OF s] new unfolding map_le_def set_backup_def by auto
  show "held d0 \<subseteq> held ?e" using soundD(4) [OF s] held_disk [OF same] by simp
qed (use soundD(1) [OF s] in blast)

text \<open>While the operation has neither a rollback nor a failed file, its staging file may change freely.\<close>

definition unmoved :: "'c disk \<Rightarrow> string \<Rightarrow> bool" where
  "unmoved d i \<longleftrightarrow> dk_migration d (rollback_file i) = None \<and> dk_migration d (failed_file i) = None"

lemma held_staging: "is_staging i n \<Longrightarrow> held (set_migration n x d) = held d"
  by (simp add: held_def set_migration_def)

lemma names_used_staging: "is_staging i n \<Longrightarrow> names_used U d \<Longrightarrow> names_used U (set_migration n x d)"
  unfolding names_used_def by (simp add: set_migration_def)

lemma unmoved_staging: "is_staging i n \<Longrightarrow> unmoved (set_migration n x d) k = unmoved d k"
  by (simp add: unmoved_def set_migration_def)

text \<open>A journal whose operation has moved nothing fits whatever its staging file is.\<close>

lemma journal_fits_unmoved:
  assumes "journal_fits U d j" "unmoved e (jn_operation_id j)"
  shows "journal_fits U e j"
  using assms by (simp add: journal_fits_def files_fit_def unmoved_def)

lemma sound_staging:
  assumes s: "sound U d0 d" and n: "is_staging i n"
    and u: "\<And>j. dk_journal d = Some j \<Longrightarrow> unmoved d (jn_operation_id j)"
  shows "sound U d0 (set_migration n x d)"
proof (rule soundI)
  show "journal_fits U (set_migration n x d) j" if "dk_journal (set_migration n x d) = Some j" for j
    using that u [of j] soundD(3) [OF s]
    by (auto simp: set_migration_def unmoved_staging [OF n, unfolded set_migration_def] intro: journal_fits_unmoved)
  show "names_used U (set_migration n x d)" by (rule names_used_staging [OF n soundD(2) [OF s]])
  show "held d0 \<subseteq> held (set_migration n x d)" using soundD(4) [OF s] by (simp add: held_staging [OF n])
  show "dk_backups d0 \<subseteq>\<^sub>m dk_backups (set_migration n x d)" using soundD(5) [OF s] by (simp add: set_migration_def)
qed (use soundD(1) [OF s] in blast)

section \<open>Actions that write no file\<close>

lemma steady_fail [steady_rules]: "steady I P (fail c)"
  by (simp add: fail_def steady_done)

lemma steady_inject [steady_rules]: "steady I P (inject w x)"
  by (simp add: inject_def steady_done steady_fail)

lemma steady_read_journal [steady_rules]: "steady I P (read_journal w)"
  unfolding read_journal_def by (intro steady_rules)

lemma steady_read_catalog [steady_rules]: "steady I P (read_catalog w)"
  unfolding read_catalog_def by (intro steady_rules)

lemma steady_approved_artifact [steady_rules]: "steady I P (approved_artifact n)"
  unfolding approved_artifact_def by (intro steady_rules)

lemma steady_backup_path [steady_rules]: "steady I P (backup_path w b)"
  unfolding backup_path_def backup_record_for_def by (intro steady_rules)

lemma steady_public_journal [steady_rules]: "steady I P (public_journal w j)"
  unfolding public_journal_def by (intro steady_rules)

lemma steady_show_journal [steady_rules]: "steady I P (show_journal w)"
  unfolding show_journal_def by (intro steady_rules)

lemma steady_status [steady_rules]: "steady I P (status w)"
  unfolding status_def database_status_def by (intro steady_rules)

lemma steady_staged_file [steady_rules]: "steady I P (staged_file n)"
  unfolding staged_file_def by (intro steady_rules)

lemma steady_post_activation [steady_rules]: "steady I P (post_activation w)"
  unfolding post_activation_def by (intro steady_rules)

lemma steady_inspect_candidate [steady_rules]: "steady I P (inspect_candidate w s a now t)"
  unfolding inspect_candidate_def Let_def by (intro steady_rules)

lemma steady_preview_restore [steady_rules]: "steady I P (preview_restore w b now t)"
  unfolding preview_restore_def by (intro steady_rules)

lemma steady_check_copy [steady_rules]: "steady I P (check_copy w f g c)"
  unfolding check_copy_def by (intro steady_rules)

lemma steady_only_effects: "steady I P p \<Longrightarrow> steady I P (only_effects p)"
  unfolding only_effects_def by (intro steady_rules)

section \<open>Actions that write backups\<close>

text \<open>An assertion that depends on the disk only through the database, the migration files and the journal.\<close>

definition tolerant :: "string set \<Rightarrow> 'c disk \<Rightarrow> ((journal, 'c disk) machine \<Rightarrow> bool) \<Rightarrow> bool" where
  "tolerant U d0 P \<longleftrightarrow>
     (\<forall>m. P m \<longrightarrow> sound U d0 (mc_disk m)) \<and>
     (\<forall>m d'. P m \<longrightarrow> sound U d0 d' \<longrightarrow> dk_database d' = dk_database (mc_disk m) \<longrightarrow>
        dk_migration d' = dk_migration (mc_disk m) \<longrightarrow> dk_journal d' = dk_journal (mc_disk m) \<longrightarrow> P (m\<lparr>mc_disk := d'\<rparr>))"

lemma tolerantD:
  assumes "tolerant U d0 P" "P m"
  shows "sound U d0 (mc_disk m)"
    "sound U d0 d' \<Longrightarrow> dk_database d' = dk_database (mc_disk m) \<Longrightarrow> dk_migration d' = dk_migration (mc_disk m) \<Longrightarrow>
       dk_journal d' = dk_journal (mc_disk m) \<Longrightarrow> P (m\<lparr>mc_disk := d'\<rparr>)"
  using assms unfolding tolerant_def by blast+

lemma tolerant_sound: "tolerant U d0 (\<lambda>m. sound U d0 (mc_disk m))"
  by (simp add: tolerant_def)

lemma steady_put:
  assumes t: "tolerant U d0 P"
    and f: "\<And>d. sound U d0 d \<Longrightarrow> sound U d0 (f d)"
    and same: "\<And>d. dk_database (f d) = dk_database d \<and> dk_migration (f d) = dk_migration d \<and> dk_journal (f d) = dk_journal d"
  shows "steady (sound U d0) P (put f)"
proof -
  have "sound U d0 (f (mc_disk m)) \<and> P (m\<lparr>mc_disk := f (mc_disk m)\<rparr>)" if "P m" for m
    using tolerantD(1) [OF t that] same [of "mc_disk m"] by (auto intro: f tolerantD(2) [OF t that])
  then show ?thesis by (simp add: steady_def triple_def wpc_put)
qed

lemma steady_record_backup:
  assumes t: "tolerant U d0 P"
  shows "steady (sound U d0) P (record_backup w n i v l)"
proof -
  have "steady (sound U d0) P (put (\<lambda>d. d\<lparr>dk_catalog := x\<rparr>))" for x
    by (rule steady_put [OF t]) (simp_all add: sound_catalog(1))
  moreover have "steady (sound U d0) P (put (\<lambda>d. d\<lparr>dk_catalog_digest := x\<rparr>))" for x
    by (rule steady_put [OF t]) (auto intro: sound_frame)
  ultimately show ?thesis unfolding record_backup_def Let_def by (intro steady_rules)
qed

lemma steady_backup_file:
  assumes t: "tolerant U d0 P" and new: "dk_backups d0 n = None" and used: "i \<in> U" "made_by i n"
  shows "steady (sound U d0) P (online_backup w (set_backup n) x c)"
proof -
  have "steady (sound U d0) P (put (set_backup n y))" for y
    by (rule steady_put [OF t]) (simp_all add: sound_backup [OF _ new used], simp add: set_backup_def)
  then show ?thesis unfolding online_backup_def by (intro steady_rules)
qed

section \<open>Actions that write the journal\<close>

text \<open>
  The journal on disk says what the process remembers, as far as the files are concerned, and \<open>G\<close>
  holds of the remembered journal and the migration files; and the moment before it is written.
\<close>

definition watching ::
  "string set \<Rightarrow> 'c disk \<Rightarrow> (journal \<Rightarrow> (string \<rightharpoonup> 'c) \<Rightarrow> bool) \<Rightarrow> (journal, 'c disk) machine \<Rightarrow> bool"
where
  "watching U d0 G m \<longleftrightarrow> sound U d0 (mc_disk m)
     \<and> (\<exists>j. dk_journal (mc_disk m) = Some j \<and> journal_core j = journal_core (mc_mem m))
     \<and> G (mc_mem m) (dk_migration (mc_disk m))"

definition pending ::
  "string set \<Rightarrow> 'c disk \<Rightarrow> (journal \<Rightarrow> (string \<rightharpoonup> 'c) \<Rightarrow> bool) \<Rightarrow> (journal, 'c disk) machine \<Rightarrow> bool"
where
  "pending U d0 G m \<longleftrightarrow> sound U d0 (mc_disk m) \<and> journal_fits U (mc_disk m) (mc_mem m)
     \<and> G (mc_mem m) (dk_migration (mc_disk m))"

abbreviation anything :: "journal \<Rightarrow> (string \<rightharpoonup> 'c) \<Rightarrow> bool" where
  "anything \<equiv> \<lambda>_ _. True"

lemma watching_fits: "watching U d0 G m \<Longrightarrow> journal_fits U (mc_disk m) (mc_mem m)"
  unfolding watching_def by (metis soundD(3) journal_fits_core)

lemma watching_weaken: "watching U d0 G m \<Longrightarrow> (\<And>j mg. G j mg \<Longrightarrow> H j mg) \<Longrightarrow> watching U d0 H m"
  unfolding watching_def by blast

lemma watching_anything: "watching U d0 G m \<Longrightarrow> watching U d0 anything m"
  by (rule watching_weaken) simp_all

lemma tolerant_watching: "tolerant U d0 (watching U d0 G)"
  unfolding tolerant_def watching_def by simp

lemma triple_write_journal: "triple (sound U d0) (pending U d0 G) (write_journal w) (\<lambda>_. watching U d0 G) E"
proof -
  have "sound U d0 (d\<lparr>dk_journal := Some j\<rparr>) \<and> sound U d0 (d\<lparr>dk_journal := Some j, dk_journal_digest := s\<rparr>)"
    if "sound U d0 d" "journal_fits U d j" for d j s
    using sound_journal [OF that] by simp
  then show ?thesis
    by (simp add: triple_def write_journal_def wpc_look wpc_bind wpc_put wpc_ret pending_def watching_def)
qed

text \<open>An update of the journal that leaves the names and does not offer to resume.\<close>

definition harmless :: "(journal \<Rightarrow> journal) \<Rightarrow> bool" where
  "harmless f \<longleftrightarrow> (\<forall>j. jn_operation_id (f j) = jn_operation_id j \<and> jn_staging_name (f j) = jn_staging_name j
     \<and> jn_rollback_name (f j) = jn_rollback_name j \<and> jn_safety_backup_name (f j) = jn_safety_backup_name j
     \<and> (jn_phase (f j) = Resume_available \<longrightarrow> jn_phase j = Resume_available))"

lemma harmless_fits: "harmless f \<Longrightarrow> journal_fits U d j \<Longrightarrow> journal_fits U d (f j)"
proof -
  assume "harmless f"
  then have same: "jn_operation_id (f j) = jn_operation_id j" "jn_staging_name (f j) = jn_staging_name j"
      "jn_rollback_name (f j) = jn_rollback_name j" "jn_safety_backup_name (f j) = jn_safety_backup_name j"
    and p: "jn_phase (f j) = Resume_available \<Longrightarrow> jn_phase j = Resume_available"
    unfolding harmless_def by blast+
  have "journal_named U (f j) = journal_named U j" by (simp only: journal_named_def same)
  moreover have "files_fit d j \<Longrightarrow> files_fit d (f j)"
    unfolding files_fit_def staging_gone_def Let_def same using p by blast
  moreover assume "journal_fits U d j"
  ultimately show ?thesis by (simp add: journal_fits_def)
qed

lemma triple_recall:
  assumes "harmless f" "\<forall>j mg. G j mg \<longrightarrow> H (f j) mg"
  shows "triple (sound U d0) (watching U d0 G) (recall f) (\<lambda>_. pending U d0 H) E"
proof -
  have "pending U d0 H (m\<lparr>mc_mem := f (mc_mem m)\<rparr>)" if "watching U d0 G m" for m
    using that assms harmless_fits [OF assms(1) watching_fits [OF that]] by (simp add: pending_def watching_def)
  then show ?thesis by (simp add: triple_def wpc_recall)
qed

lemma triple_rewrite:
  assumes "harmless f" "\<forall>j mg. G j mg \<longrightarrow> H (f j) mg"
    and "triple (sound U d0) (watching U d0 H) (in_turn ps) Q E"
  shows "triple (sound U d0) (watching U d0 G) (in_turn (recall f # write_journal w # ps)) Q E"
  by (rule triple_turn [OF triple_recall [OF assms(1,2)] triple_turn [OF triple_write_journal assms(3)]])

lemma steady_rewrite:
  assumes "harmless f" "\<forall>j mg. G j mg \<longrightarrow> G (f j) mg"
  shows "steady (sound U d0) (watching U d0 G) (in_turn [recall f, write_journal w])"
  unfolding steady_def by (rule triple_rewrite [OF assms triple_end])

text \<open>Properties of the journal that a change of its phase keeps.\<close>

definition phase_free :: "(journal \<Rightarrow> (string \<rightharpoonup> 'c) \<Rightarrow> bool) \<Rightarrow> bool" where
  "phase_free G \<longleftrightarrow> (\<forall>f j mg. harmless f \<longrightarrow> G j mg \<longrightarrow> G (f j) mg)"

lemma phase_free_anything: "phase_free anything"
  by (simp add: phase_free_def)

lemma steady_set_phase:
  assumes "phase_free G" "p \<noteq> Resume_available"
  shows "steady (sound U d0) (watching U d0 G) (set_phase w p)"
proof -
  have "harmless (\<lambda>j. j\<lparr>jn_phase := p\<rparr>)" using assms(2) by (simp add: harmless_def)
  then show ?thesis
    using assms(1) unfolding set_phase_def phase_free_def by (intro steady_rewrite) blast+
qed

lemma steady_expect:
  assumes "phase_free G"
  shows "steady (sound U d0) (watching U d0 G) (expect v)"
proof -
  let ?f = "\<lambda>j. j\<lparr>jn_expected_active_digest := Some (vf_sha256 v), jn_logical_manifest_digest := Some (vf_manifest_digest v)\<rparr>"
  have "harmless ?f" by (simp add: harmless_def)
  then have "G j mg \<Longrightarrow> G (?f j) mg" for j mg using assms unfolding phase_free_def by blast
  then have "watching U d0 G (m\<lparr>mc_mem := ?f (mc_mem m)\<rparr>)" if "watching U d0 G m" for m
    using that by (simp add: watching_def journal_core_def)
  then show ?thesis by (simp add: steady_def triple_def expect_def wpc_recall)
qed

lemma steady_complete:
  assumes "phase_free G" "p \<noteq> Resume_available"
  shows "steady (sound U d0) (watching U d0 G) (complete w p)"
proof -
  let ?f = "\<lambda>j. j\<lparr>jn_phase := p, jn_completed := True, jn_recoverable := False, jn_failure_code := None\<rparr>"
  have "harmless ?f" using assms(2) by (simp add: harmless_def)
  then have "steady (sound U d0) (watching U d0 G) (in_turn [recall ?f, write_journal w])"
    using assms(1) unfolding phase_free_def by (intro steady_rewrite) blast+
  then show ?thesis unfolding complete_def by (rule steady_bind) (rule steady_show_journal)
qed

lemma steady_record_failure:
  assumes "phase_free G"
  shows "steady (sound U d0) (watching U d0 G) (record_failure w e)"
proof -
  let ?f = "\<lambda>j. j\<lparr>jn_phase := Recoverable_failure, jn_failure_code := Some (failure_code_of e), jn_recoverable := True\<rparr>"
  have "harmless ?f" by (simp add: harmless_def)
  then have "steady (sound U d0) (watching U d0 G) (in_turn [recall ?f, write_journal w])"
    using assms unfolding phase_free_def by (intro steady_rewrite) blast+
  then show ?thesis unfolding record_failure_def by (rule steady_bind) (rule steady_show_journal)
qed

lemma triple_guarded:
  assumes p: "triple (sound U d0) P p (\<lambda>_. watching U d0 anything) (watching U d0 anything)"
    and f: "\<And>j. final j \<noteq> Resume_available"
  shows "triple (sound U d0) P (guarded w p final) (\<lambda>_. watching U d0 anything) (watching U d0 anything)"
  unfolding guarded_def
proof (rule triple_catch, rule triple_bind)
  show "triple (sound U d0) P p (\<lambda>_. watching U d0 anything) (watching U d0 anything)" by (rule p)
  have "steady (sound U d0) (watching U d0 anything) (look (\<lambda>j _. complete w (final j)))"
    by (intro steady_look steady_complete phase_free_anything f)
  then show "triple (sound U d0) (watching U d0 anything) (look (\<lambda>j _. complete w (final j)))
      (\<lambda>_. watching U d0 anything) (watching U d0 anything)" by (simp only: steady_def)
  show "triple (sound U d0) (watching U d0 anything) (record_failure w e)
      (\<lambda>_. watching U d0 anything) (watching U d0 anything)" for e
    using steady_record_failure [OF phase_free_anything] by (simp only: steady_def)
qed

section \<open>Moving the database\<close>

definition database_moved :: "string \<Rightarrow> 'c \<Rightarrow> 'c disk \<Rightarrow> 'c disk" where
  "database_moved x c d = (set_migration x (Some c) d)\<lparr>dk_database := None\<rparr>"

definition moved_in :: "string \<Rightarrow> 'c \<Rightarrow> 'c disk \<Rightarrow> 'c disk" where
  "moved_in x c d = (set_migration x None d)\<lparr>dk_database := Some c\<rparr>"

lemma moved_fields [simp]:
  "dk_database (database_moved x c d) = None" "dk_migration (database_moved x c d) = (dk_migration d)(x := Some c)"
  "dk_backups (database_moved x c d) = dk_backups d" "dk_journal (database_moved x c d) = dk_journal d"
  "dk_database (moved_in x c d) = Some c" "dk_migration (moved_in x c d) = (dk_migration d)(x := None)"
  "dk_backups (moved_in x c d) = dk_backups d" "dk_journal (moved_in x c d) = dk_journal d"
  by (simp_all add: database_moved_def moved_in_def set_migration_def)

lemma held_database_moved:
  assumes "dk_database d = Some c" "dk_migration d x = None" "x = rollback_file i \<or> x = failed_file i"
  shows "held d \<subseteq> held (database_moved x c d)"
proof
  fix a assume "a \<in> held d"
  then consider "a = c" | j where "dk_migration d (rollback_file j) = Some a" | j where "dk_migration d (failed_file j) = Some a"
    using assms(1) unfolding held_def by auto
  then show "a \<in> held (database_moved x c d)"
  proof cases
    case 1
    then show ?thesis using assms(3) unfolding held_def by auto
  next
    case (2 j)
    then have "dk_migration (database_moved x c d) (rollback_file j) = Some a" using assms(2) by auto
    then show ?thesis unfolding held_def by blast
  next
    case (3 j)
    then have "dk_migration (database_moved x c d) (failed_file j) = Some a" using assms(2) by auto
    then show ?thesis unfolding held_def by blast
  qed
qed

lemma held_moved_in:
  assumes "dk_database d = None" "dk_migration d x = Some c"
  shows "held d \<subseteq> held (moved_in x c d)"
proof
  fix a assume "a \<in> held d"
  then obtain y where y: "dk_migration d y = Some a" "\<exists>j. y = rollback_file j \<or> y = failed_file j"
    using assms(1) unfolding held_def by auto
  show "a \<in> held (moved_in x c d)"
  proof (cases "y = x")
    case True
    then show ?thesis using y(1) assms(2) unfolding held_def by simp
  next
    case False
    then have "dk_migration (moved_in x c d) y = Some a" using y(1) by simp
    then show ?thesis using y(2) unfolding held_def by blast
  qed
qed

lemma sound_database_moved:
  assumes s: "sound U d0 d" and c: "dk_database d = Some c" "dk_migration d x = None"
    and x: "x = rollback_file i \<or> x = failed_file i" and i: "i \<in> U"
    and fits: "\<And>j. dk_journal d = Some j \<Longrightarrow> journal_fits U (database_moved x c d) j"
  shows "sound U d0 (database_moved x c d)"
proof (rule soundI)
  show "names_used U (database_moved x c d)"
    using soundD(2) [OF s] x i unfolding names_used_def by auto
  show "held d0 \<subseteq> held (database_moved x c d)" using soundD(4) [OF s] held_database_moved [OF c x] by blast
qed (use s fits in \<open>simp_all add: soundD\<close>)

lemma sound_moved_in:
  assumes s: "sound U d0 d" and c: "dk_database d = None" "dk_migration d x = Some c"
    and fits: "\<And>j. dk_journal d = Some j \<Longrightarrow> journal_fits U (moved_in x c d) j"
  shows "sound U d0 (moved_in x c d)"
proof (rule soundI)
  show "names_used U (moved_in x c d)"
    using soundD(2) [OF s] unfolding names_used_def by auto
  show "held d0 \<subseteq> held (moved_in x c d)" using soundD(4) [OF s] held_moved_in [OF c] by blast
qed (use s fits in \<open>simp_all add: soundD\<close>)

lemma journal_core_eq:
  "journal_core j = journal_core k \<Longrightarrow> jn_operation_id j = jn_operation_id k \<and> jn_staging_name j = jn_staging_name k
     \<and> jn_rollback_name j = jn_rollback_name k \<and> (jn_phase j = Resume_available \<longleftrightarrow> jn_phase k = Resume_available)"
  by (simp add: journal_core_def)

text \<open>The staged file becomes the database.\<close>

lemma triple_move_staging:
  "triple (sound U d0)
     (\<lambda>m. watching U d0 (\<lambda>j _. jn_staging_name j = Some n) m \<and> dk_database (mc_disk m) = None)
     (move_staging_in n) (\<lambda>_. watching U d0 anything) (watching U d0 anything)"
proof -
  have "watching U d0 anything (m\<lparr>mc_disk := moved_in n c (mc_disk m)\<rparr>)"
    if w: "watching U d0 (\<lambda>j _. jn_staging_name j = Some n) m" and none: "dk_database (mc_disk m) = None"
      and c: "dk_migration (mc_disk m) n = Some c" for m c
  proof -
    let ?d = "mc_disk m"
    obtain j where j: "dk_journal ?d = Some j" "journal_core j = journal_core (mc_mem m)" and s: "sound U d0 ?d"
      using w unfolding watching_def by blast
    have n: "jn_staging_name j = Some n" using w journal_core_eq [OF j(2)] unfolding watching_def by simp
    have fits: "journal_fits U ?d j" by (rule soundD(3) [OF s j(1)])
    then have named: "journal_named U j" and files: "files_fit ?d j" by (simp_all add: journal_fits_def)
    have st: "is_staging (jn_operation_id j) n" using named n unfolding journal_named_def Let_def by blast
    have here: "\<not> staging_gone ?d j" using n c unfolding staging_gone_def by auto
    have gone: "staging_gone (moved_in n c ?d) j" using n by (simp add: staging_gone_def)
    have "files_fit (moved_in n c ?d) j"
      using files here gone st unfolding files_fit_def Let_def by auto
    then have "sound U d0 (moved_in n c ?d)"
      by (intro sound_moved_in [OF s none c]) (use j(1) named in \<open>simp add: journal_fits_def\<close>)
    then show ?thesis using j by (simp add: watching_def)
  qed
  then show ?thesis
    by (auto simp: triple_def move_staging_in_def staged_file_def wpc_bind wpc_look wpc_put wpc_ret wpc_raise
        moved_in_def [symmetric] watching_def split: option.splits)
qed

section \<open>Activation\<close>

text \<open>The operation \<open>i\<close> with staging file \<open>n\<close> has moved nothing yet; it is about to move the database.\<close>

definition untouched :: "string \<Rightarrow> string \<Rightarrow> journal \<Rightarrow> (string \<rightharpoonup> 'c) \<Rightarrow> bool" where
  "untouched i n j mg \<longleftrightarrow> jn_operation_id j = i \<and> jn_staging_name j = Some n
     \<and> mg (rollback_file i) = None \<and> mg (failed_file i) = None"

definition underway :: "string \<Rightarrow> string \<Rightarrow> journal \<Rightarrow> (string \<rightharpoonup> 'c) \<Rightarrow> bool" where
  "underway i n j mg \<longleftrightarrow> untouched i n j mg \<and> jn_phase j \<noteq> Resume_available"

definition leaving :: "string \<Rightarrow> string \<Rightarrow> journal \<Rightarrow> (string \<rightharpoonup> 'c) \<Rightarrow> bool" where
  "leaving i n j mg \<longleftrightarrow> underway i n j mg \<and> jn_rollback_name j = Some (rollback_file i)"

lemma phase_free_untouched: "phase_free (untouched i n)"
  by (simp add: phase_free_def harmless_def untouched_def)

lemma phase_free_underway: "phase_free (underway i n)"
  unfolding phase_free_def harmless_def untouched_def underway_def by metis

lemma triple_leave:
  "triple (sound U d0) (watching U d0 (leaving i n)) (move_database_to (rollback_file i))
     (\<lambda>_ m. watching U d0 (\<lambda>j _. jn_staging_name j = Some n) m \<and> dk_database (mc_disk m) = None) (watching U d0 anything)"
proof -
  have "watching U d0 (\<lambda>j _. jn_staging_name j = Some n) (m\<lparr>mc_disk := database_moved (rollback_file i) c (mc_disk m)\<rparr>)"
    if w: "watching U d0 (leaving i n) m" and c: "dk_database (mc_disk m) = Some c" for m c
  proof -
    let ?d = "mc_disk m" let ?e = "database_moved (rollback_file i) c ?d"
    obtain j where j: "dk_journal ?d = Some j" "journal_core j = journal_core (mc_mem m)" and s: "sound U d0 ?d"
      and l: "leaving i n (mc_mem m) (dk_migration ?d)"
      using w unfolding watching_def by blast
    have core: "jn_operation_id j = i" "jn_rollback_name j = Some (rollback_file i)" "jn_phase j \<noteq> Resume_available"
      using journal_core_eq [OF j(2)] l by (auto simp: leaving_def underway_def untouched_def)
    have new: "dk_migration ?d (rollback_file i) = None" "dk_migration ?d (failed_file i) = None"
      and n: "jn_staging_name (mc_mem m) = Some n"
      using l by (auto simp: leaving_def underway_def untouched_def)
    have named: "journal_named U j" using soundD(3) [OF s j(1)] by (simp add: journal_fits_def)
    then have i: "i \<in> U" using core(1) by (simp add: journal_named_def Let_def)
    have "files_fit ?e j" using core new unfolding files_fit_def by (simp add: Let_def)
    then have "sound U d0 ?e"
      by (intro sound_database_moved [OF s c new(1) _ i]) (use j(1) named in \<open>simp_all add: journal_fits_def\<close>)
    then show ?thesis using j n by (simp add: watching_def)
  qed
  then show ?thesis
    by (auto simp: triple_def move_database_to_def wpc_look wpc_put wpc_raise database_moved_def [symmetric]
        watching_def split: option.splits)
qed

lemma steady_triple: "steady I P p \<Longrightarrow> (\<And>m. P m \<Longrightarrow> E m) \<Longrightarrow> triple I P p (\<lambda>_. P) E"
  unfolding steady_def by (rule triple_weaken)

lemma triple_vacant:
  assumes "phase_free G"
  shows "triple (sound U d0) (watching U d0 G)
    (look (\<lambda>_ d. if dk_database d \<noteq> None then fail c else ret ()))
    (\<lambda>_ m. watching U d0 G m \<and> dk_database (mc_disk m) = None) (watching U d0 anything)"
  by (simp add: triple_def wpc_look wpc_ret fail_def wpc_raise watching_anything)

text \<open>What both ways of activating do once the staged file is the database.\<close>

lemma triple_activated:
  "triple (sound U d0) (watching U d0 anything)
     (in_turn [recall (\<lambda>j. j\<lparr>jn_activated := True\<rparr>), write_journal w, inject w x, post_activation w])
     (\<lambda>_. watching U d0 anything) (watching U d0 anything)"
proof (rule triple_rewrite)
  show "harmless (\<lambda>j. j\<lparr>jn_activated := True\<rparr>)" by (simp add: harmless_def)
  have "steady (sound U d0) (watching U d0 anything) (in_turn [inject w x, post_activation w])" by (intro steady_rules)
  then show "triple (sound U d0) (watching U d0 anything) (in_turn [inject w x, post_activation w])
      (\<lambda>_. watching U d0 anything) (watching U d0 anything)" by (simp only: steady_def)
qed simp

lemma watching_weakens:
  "watching U d0 (untouched i n) m \<Longrightarrow> watching U d0 anything m"
  "watching U d0 (untouched i n) m \<Longrightarrow> watching U d0 (\<lambda>j _. jn_staging_name j = Some n) m"
  "watching U d0 (leaving i n) m \<Longrightarrow> watching U d0 anything m"
  "watching U d0 (underway i n) m \<Longrightarrow> watching U d0 anything m"
  by (erule watching_weaken, simp add: untouched_def leaving_def underway_def)+

lemma triple_activate_new:
  "triple (sound U d0) (watching U d0 (untouched i n)) (activate_new w n)
     (\<lambda>_. watching U d0 anything) (watching U d0 anything)"
proof -
  have staged: "triple (sound U d0) (watching U d0 (untouched i n)) (bind_act (staged_file n) (\<lambda>_. ret ()))
      (\<lambda>_. watching U d0 (untouched i n)) (watching U d0 anything)"
    by (rule steady_triple, intro steady_rules, erule watching_weakens)
  have inject: "triple (sound U d0) (watching U d0 (untouched i n)) (inject w x)
      (\<lambda>_. watching U d0 (untouched i n)) (watching U d0 anything)" for x
    by (rule steady_triple [OF steady_inject], erule watching_weakens)
  have phase: "triple (sound U d0) (watching U d0 (untouched i n)) (set_phase w Activation_pending)
      (\<lambda>_. watching U d0 (untouched i n)) (watching U d0 anything)"
    by (rule steady_triple [OF steady_set_phase [OF phase_free_untouched]], simp, erule watching_weakens)
  have move: "triple (sound U d0) (\<lambda>m. watching U d0 (untouched i n) m \<and> dk_database (mc_disk m) = None)
      (move_staging_in n) (\<lambda>_. watching U d0 anything) (watching U d0 anything)"
    by (rule triple_weaken [OF triple_move_staging]) (auto intro: watching_weakens)
  show ?thesis
    unfolding activate_new_def
    by (rule triple_turn [OF phase] triple_turn [OF inject] triple_turn [OF staged]
        triple_turn [OF triple_vacant [OF phase_free_untouched]] triple_turn [OF move] triple_activated)+
qed

text \<open>The safety copy never overwrites a backup.\<close>

lemma steady_safety_copy:
  assumes t: "tolerant U d0 P" and used: "i \<in> U" "made_by i n"
  shows "steady (sound U d0) P (safety_copy w k n v)"
  unfolding safety_copy_def steady_def
proof (rule triple_look)
  fix j d
  show "triple (sound U d0) (\<lambda>m. P m \<and> mc_mem m = j \<and> mc_disk m = d)
     (if dk_backups d n \<noteq> None then ret ()
      else bind_act (online_backup w (set_backup n) None (dk_database d)) (\<lambda>_.
        look (\<lambda>_ d. bind_act (lift (verify_head w (dk_backups d n))) (\<lambda>x.
          if vf_manifest_digest x \<noteq> vf_manifest_digest v then fail ''replacement_backup_mismatch''
          else record_backup w n k x ''pre-replacement''))))
     (\<lambda>_. P) P" (is "triple _ _ ?p _ _")
  proof (cases "sound U d0 d \<and> dk_backups d n = None")
    case True
    then have new: "dk_backups d0 n = None"
      using soundD(5) [of U d0 d] unfolding map_le_def by (metis domIff)
    have "steady (sound U d0) P ?p"
      by (intro steady_rules steady_backup_file [OF t new used] steady_record_backup [OF t])
    then show ?thesis unfolding steady_def by (rule triple_weaken) auto
  next
    case False
    then have "?p = ret () \<or> (\<forall>m. \<not> (P m \<and> mc_disk m = d))"
      using tolerantD(1) [OF t] by auto
    then show ?thesis by (auto simp: triple_def wpc_ret)
  qed
qed

lemma triple_safety:
  "triple (sound U d0) (watching U d0 (underway i n))
     (look (\<lambda>j d. bind_act (lift (verify_head w (dk_database d))) (\<lambda>active.
        safety_copy w (jn_operation_id j)
          (case jn_safety_backup_name j of None \<Rightarrow> pre_replacement (jn_operation_id j) | Some n \<Rightarrow> n) active)))
     (\<lambda>_. watching U d0 (underway i n)) (watching U d0 anything)"
proof (rule triple_look)
  fix j :: journal and d :: "'a disk"
  let ?n = "case jn_safety_backup_name j of None \<Rightarrow> pre_replacement (jn_operation_id j) | Some n \<Rightarrow> n"
  let ?p = "bind_act (lift (verify_head w (dk_database d))) (\<lambda>active. safety_copy w (jn_operation_id j) ?n active)"
  show "triple (sound U d0) (\<lambda>m. watching U d0 (underway i n) m \<and> mc_mem m = j \<and> mc_disk m = d) ?p
     (\<lambda>_. watching U d0 (underway i n)) (watching U d0 anything)"
  proof (cases "\<exists>m. watching U d0 (underway i n) m \<and> mc_mem m = j")
    case True
    then obtain m where m: "watching U d0 (underway i n) m" "mc_mem m = j" by blast
    have named: "journal_named U j"
      using watching_fits [OF m(1)] m(2) by (simp add: journal_fits_def)
    have used: "jn_operation_id j \<in> U" "made_by (jn_operation_id j) ?n"
      using named unfolding journal_named_def Let_def by (auto split: option.splits)
    have "steady (sound U d0) (watching U d0 (underway i n)) ?p"
      by (intro steady_rules steady_safety_copy [OF tolerant_watching used])
    then show ?thesis unfolding steady_def by (rule triple_weaken) (auto intro: watching_weakens)
  next
    case False
    then show ?thesis unfolding triple_def by blast
  qed
qed

lemma triple_mark_rollback:
  assumes "triple (sound U d0) (watching U d0 (leaving i n)) (in_turn ps) Q (watching U d0 anything)"
  shows "triple (sound U d0) (watching U d0 (underway i n))
    (in_turn (recall (\<lambda>j. j\<lparr>jn_rollback_name := Some (rollback_file (jn_operation_id j))\<rparr>) # write_journal w # ps))
    Q (watching U d0 anything)"
proof (rule triple_turn)
  let ?f = "\<lambda>j. j\<lparr>jn_rollback_name := Some (rollback_file (jn_operation_id j))\<rparr>"
  show "triple (sound U d0) (watching U d0 (underway i n)) (recall ?f) (\<lambda>_. pending U d0 (leaving i n)) (watching U d0 anything)"
  proof -
    have "pending U d0 (leaving i n) (m\<lparr>mc_mem := ?f (mc_mem m)\<rparr>)" if m: "watching U d0 (underway i n) m" for m
    proof -
      have u: "underway i n (mc_mem m) (dk_migration (mc_disk m))" and s: "sound U d0 (mc_disk m)"
        using m by (simp_all add: watching_def)
      have "journal_fits U (mc_disk m) (?f (mc_mem m))"
        using watching_fits [OF m] u
        unfolding journal_fits_def journal_named_def files_fit_def underway_def untouched_def Let_def by simp
      then show ?thesis using u s by (simp add: pending_def leaving_def underway_def untouched_def)
    qed
    then show ?thesis by (simp add: triple_def wpc_recall)
  qed
  show "triple (sound U d0) (pending U d0 (leaving i n)) (in_turn (write_journal w # ps)) Q (watching U d0 anything)"
    by (rule triple_turn [OF triple_write_journal assms])
qed

lemma triple_set_phase_underway:
  "triple (sound U d0) (watching U d0 (untouched i n)) (set_phase w Activation_pending)
     (\<lambda>_. watching U d0 (underway i n)) (watching U d0 anything)"
proof -
  have "harmless (\<lambda>j. j\<lparr>jn_phase := Activation_pending\<rparr>)" by (simp add: harmless_def)
  then show ?thesis
    unfolding set_phase_def
    by (rule triple_rewrite [where H = "underway i n"]) (simp add: underway_def untouched_def, rule triple_end)
qed

lemma triple_replace_active:
  "triple (sound U d0) (watching U d0 (untouched i n)) (replace_active w n)
     (\<lambda>_. watching U d0 anything) (watching U d0 anything)"
proof -
  let ?S = "\<lambda>G. watching U d0 (G i n)"
  have staged: "triple (sound U d0) (?S leaving) (bind_act (staged_file n) (\<lambda>_. ret ())) (\<lambda>_. ?S leaving) (watching U d0 anything)"
    by (rule steady_triple, intro steady_rules, erule watching_weakens)
  have inject: "triple (sound U d0) (?S leaving) (inject w x) (\<lambda>_. ?S leaving) (watching U d0 anything)" for x
    by (rule steady_triple [OF steady_inject], erule watching_weakens)
  have leave: "triple (sound U d0) (?S leaving) (look (\<lambda>j _. move_database_to (rollback_file (jn_operation_id j))))
     (\<lambda>_ m. watching U d0 (\<lambda>j _. jn_staging_name j = Some n) m \<and> dk_database (mc_disk m) = None) (watching U d0 anything)"
    using triple_leave [of U d0 i n] unfolding triple_def wpc_look
    by (auto simp: watching_def leaving_def underway_def untouched_def)
  have between: "triple (sound U d0)
     (\<lambda>m. watching U d0 (\<lambda>j _. jn_staging_name j = Some n) m \<and> dk_database (mc_disk m) = None) (inject w x)
     (\<lambda>_ m. watching U d0 (\<lambda>j _. jn_staging_name j = Some n) m \<and> dk_database (mc_disk m) = None) (watching U d0 anything)" for x
    by (rule steady_triple [OF steady_inject], erule conjE, erule watching_anything)
  show ?thesis
    unfolding replace_active_def
    by (rule triple_turn [OF triple_set_phase_underway] triple_turn [OF triple_safety] triple_mark_rollback
        triple_turn [OF inject] triple_turn [OF staged] triple_turn [OF leave] triple_turn [OF between]
        triple_turn [OF triple_move_staging] triple_activated)+
qed

lemma triple_activate:
  "triple (sound U d0) (watching U d0 (untouched i n)) (activate w n)
     (\<lambda>_. watching U d0 anything) (watching U d0 anything)"
  unfolding activate_def
proof (rule triple_look)
  fix j :: journal and d :: "'a disk"
  show "triple (sound U d0) (\<lambda>m. watching U d0 (untouched i n) m \<and> mc_mem m = j \<and> mc_disk m = d)
     (if dk_database d \<noteq> None then replace_active w n else activate_new w n)
     (\<lambda>_. watching U d0 anything) (watching U d0 anything)"
    by (cases "dk_database d \<noteq> None")
       (auto intro: triple_weaken [OF triple_replace_active] triple_weaken [OF triple_activate_new])
qed

section \<open>New operations\<close>

text \<open>The machine before the operation \<open>i\<close> has written anything.\<close>

definition starting :: "string set \<Rightarrow> 'c disk \<Rightarrow> (journal, 'c disk) machine \<Rightarrow> bool" where
  "starting U d0 m \<longleftrightarrow> sound U d0 d0 \<and> mc_disk m = d0"

definition fresh_id :: "string set \<Rightarrow> 'c disk \<Rightarrow> string \<Rightarrow> bool" where
  "fresh_id U d0 i \<longleftrightarrow> i \<in> U \<and> unmoved d0 i \<and> (\<forall>n. made_by i n \<longrightarrow> dk_backups d0 n = None)"

lemma fresh_idI:
  assumes "home_inv U d0" "i \<notin> U" "is_operation_id i"
  shows "fresh_id (insert i U) d0 i" "sound (insert i U) d0 d0"
proof -
  have used: "names_used U d0" and len: "\<And>k. k \<in> U \<Longrightarrow> length k = 28"
    and journal: "\<And>j. dk_journal d0 = Some j \<Longrightarrow> journal_fits U d0 j"
    using assms(1) unfolding home_inv_def by blast+
  have "dk_backups d0 n = None" if "made_by i n" for n
  proof (rule ccontr)
    assume "dk_backups d0 n \<noteq> None"
    then obtain k where k: "k \<in> U" "made_by k n" using used unfolding names_used_def by blast
    then have "k = i" using made_by_unique [OF k(2) that] len [OF k(1)] operation_id_length [OF assms(3)] by simp
    then show False using k(1) assms(2) by simp
  qed
  moreover have "unmoved d0 i" using used assms(2) unfolding names_used_def unmoved_def by blast
  ultimately show "fresh_id (insert i U) d0 i" by (simp add: fresh_id_def)
  have named: "journal_named U j \<Longrightarrow> journal_named (insert i U) j" for j
    by (simp add: journal_named_def Let_def)
  show "sound (insert i U) d0 d0"
  proof (rule soundI)
    show "names_used (insert i U) d0" using used unfolding names_used_def by blast
    show "journal_fits (insert i U) d0 j" if "dk_journal d0 = Some j" for j
      using journal [OF that] named by (simp add: journal_fits_def)
    show "length k = 28" if "k \<in> insert i U" for k
      using that len operation_id_length [OF assms(3)] by auto
  qed simp_all
qed

lemma triple_new_journal:
  assumes f: "fresh_id U d0 i" and j: "journal_named U j" "jn_operation_id j = i" "jn_staging_name j = Some n"
  shows "triple (sound U d0) (starting U d0) (new_journal w j) (\<lambda>_. watching U d0 (untouched i n)) (watching U d0 anything)"
  unfolding new_journal_def
proof (rule triple_turn)
  have u: "unmoved d0 i" using f by (simp add: fresh_id_def)
  then have "files_fit d0 j" using j(2) by (simp add: files_fit_def unmoved_def)
  then have "pending U d0 (untouched i n) (m\<lparr>mc_mem := j\<rparr>)" if "starting U d0 m" for m
    using that j u by (simp add: pending_def starting_def untouched_def journal_fits_def unmoved_def)
  then show "triple (sound U d0) (starting U d0) (recall (\<lambda>_. j)) (\<lambda>_. pending U d0 (untouched i n)) (watching U d0 anything)"
    by (simp add: triple_def wpc_recall)
  show "triple (sound U d0) (pending U d0 (untouched i n)) (in_turn [write_journal w])
      (\<lambda>_. watching U d0 (untouched i n)) (watching U d0 anything)"
    by (rule triple_turn [OF triple_write_journal triple_end])
qed

lemma steady_staging_put:
  assumes n: "is_staging k n"
  shows "steady (sound U d0) (watching U d0 (untouched i x)) (put (set_migration n y))"
proof -
  have "watching U d0 (untouched i x) (m\<lparr>mc_disk := set_migration n y (mc_disk m)\<rparr>)"
    if m: "watching U d0 (untouched i x) m" for m
  proof -
    let ?d = "mc_disk m"
    obtain j where j: "dk_journal ?d = Some j" "journal_core j = journal_core (mc_mem m)" and s: "sound U d0 ?d"
      and u: "untouched i x (mc_mem m) (dk_migration ?d)"
      using m unfolding watching_def by blast
    have "jn_operation_id j = i" using journal_core_eq [OF j(2)] u by (simp add: untouched_def)
    then have "sound U d0 (set_migration n y ?d)"
      using u j(1) by (intro sound_staging [OF s n]) (simp add: unmoved_def untouched_def)
    then show ?thesis
      using j u staging_names [OF n] by (simp add: watching_def untouched_def set_migration_def)
  qed
  moreover from this have "sound U d0 (set_migration n y (mc_disk m))" if "watching U d0 (untouched i x) m" for m
    using that unfolding watching_def by fastforce
  ultimately show ?thesis by (simp add: steady_def triple_def wpc_put)
qed

lemma steady_staging_file:
  assumes "is_staging k n"
  shows "steady (sound U d0) (watching U d0 (untouched i x)) (online_backup w (set_migration n) p c)"
    "steady (sound U d0) (watching U d0 (untouched i x)) (upgrade_staging w n)"
  unfolding online_backup_def upgrade_staging_def
  by (intro steady_rules steady_in_turn steady_staging_put [OF assms] | auto intro: steady_staging_put [OF assms])+

text \<open>A body that writes backups and its staging file, and then activates.\<close>

lemma triple_begin:
  assumes "steady I P p" "triple I P (in_turn ps) Q E" "\<And>m. P m \<Longrightarrow> E m"
  shows "triple I P (in_turn (p # ps)) Q E"
  by (rule triple_turn [OF steady_triple [OF assms(1,3)] assms(2)])

lemma triple_last:
  assumes "triple I P p (\<lambda>_. R) E"
  shows "triple I P (in_turn [p]) (\<lambda>_. R) E"
  by (rule triple_turn [OF assms triple_end])

lemma triple_started:
  assumes f: "fresh_id U d0 i" and j: "journal_named U j" "jn_operation_id j = i" "jn_staging_name j = Some n"
    and body: "triple (sound U d0) (watching U d0 (untouched i n)) p (\<lambda>_. watching U d0 anything) (watching U d0 anything)"
    and final: "\<And>k. final k \<noteq> Resume_available"
  shows "triple (sound U d0) (starting U d0) (bind_act (new_journal w j) (\<lambda>_. guarded w p final))
     (\<lambda>_ m. sound U d0 (mc_disk m)) (\<lambda>m. sound U d0 (mc_disk m))"
  by (rule triple_weaken [OF triple_bind [OF triple_new_journal [OF f j] triple_guarded [OF body final]]])
     (simp_all add: watching_def)

lemma starting_sound: "starting U d0 m \<Longrightarrow> sound U d0 (mc_disk m)"
  by (simp add: starting_def)

abbreviation ends_sound ::
  "string set \<Rightarrow> 'c disk \<Rightarrow> ((journal, 'c disk) machine \<Rightarrow> bool) \<Rightarrow> ('c, 'a) data_act \<Rightarrow> bool"
where
  "ends_sound U d0 P p \<equiv> triple (sound U d0) P p (\<lambda>_ m. sound U d0 (mc_disk m)) (\<lambda>m. sound U d0 (mc_disk m))"

lemma steady_ends_sound: "steady (sound U d0) (starting U d0) p \<Longrightarrow> ends_sound U d0 (starting U d0) p"
  unfolding steady_def by (erule triple_weaken) (simp_all add: starting_sound)

lemma reads_then:
  "steady (sound U d0) (starting U d0) p \<Longrightarrow> (\<And>a. ends_sound U d0 (starting U d0) (f a)) \<Longrightarrow>
     ends_sound U d0 (starting U d0) (bind_act p f)"
  by (rule triple_bind, erule steady_triple, erule starting_sound)

lemma looks_then:
  "(\<And>j d. ends_sound U d0 (starting U d0) (f j d)) \<Longrightarrow> ends_sound U d0 (starting U d0) (look f)"
  by (rule triple_look) (rule triple_weaken, assumption, simp_all)

lemma either_way:
  "(b \<Longrightarrow> triple I P p Q E) \<Longrightarrow> (\<not> b \<Longrightarrow> triple I P q Q E) \<Longrightarrow> triple I P (if b then p else q) Q E"
  by simp

lemma fails_soundly: "ends_sound U d0 (starting U d0) (fail x)"
  by (intro steady_ends_sound steady_rules)

lemma blank_journal_fields [simp]:
  "jn_operation_id (blank_journal k i) = i" "jn_rollback_name (blank_journal k i) = None"
  "jn_staging_name (blank_journal k i) = None" "jn_safety_backup_name (blank_journal k i) = None"
  by (simp_all add: blank_journal_def)

lemma fresh_setup_sound:
  assumes f: "fresh_id U d0 i"
  shows "ends_sound U d0 (starting U d0) (fresh_setup w i)"
proof -
  let ?n = "fresh_staging i" let ?j = "(blank_journal Fresh_setup i)\<lparr>jn_staging_name := Some ?n\<rparr>"
  let ?p = "in_turn
     [set_phase w Staging_copy, inject w ''before_fresh_staging'', upgrade_staging w ?n,
      inject w ''after_fresh_staging'', set_phase w Staging_validation,
      look (\<lambda>_ d. bind_act (lift (verify_head w (dk_migration d ?n))) expect), activate_new w ?n]"
  have named: "journal_named U ?j" using f by (simp add: journal_named_def Let_def fresh_id_def)
  have body: "triple (sound U d0) (watching U d0 (untouched i ?n)) ?p (\<lambda>_. watching U d0 anything) (watching U d0 anything)"
    by (intro triple_begin steady_rules steady_set_phase phase_free_untouched steady_staging_file [OF is_stagingI(1)]
        steady_expect watching_weakens(1) triple_last [OF triple_activate_new]) simp_all
  have new: "ends_sound U d0 (starting U d0) (bind_act (new_journal w ?j) (\<lambda>_. guarded w ?p (\<lambda>_. Activation_complete)))"
    by (rule triple_started [OF f named _ _ body]) simp_all
  have old: "ends_sound U d0 (starting U d0) (status w)" by (intro steady_ends_sound steady_rules)
  show ?thesis
    unfolding fresh_setup_def by (intro looks_then either_way old new)
qed

lemma create_backup_sound:
  assumes f: "fresh_id U d0 i"
  shows "ends_sound U d0 (starting U d0) (create_backup w l i)"
proof -
  let ?P = "\<lambda>m. sound U d0 (mc_disk m)"
  have new: "dk_backups d0 (backup_file l i) = None" and i: "i \<in> U" using f by (simp_all add: fresh_id_def)
  have "steady (sound U d0) ?P (create_backup w l i)"
    unfolding create_backup_def Let_def
    by (intro steady_rules steady_backup_file [OF tolerant_sound new i made_by_names(4)]
        steady_record_backup [OF tolerant_sound])
  then show ?thesis unfolding steady_def by (rule triple_weaken) (simp_all add: starting_sound)
qed

lemma triple_migrate:
  assumes f: "fresh_id U d0 i"
  shows "triple (sound U d0) (watching U d0 (untouched i (migration_staging i))) (migrate w i c v)
     (\<lambda>_. watching U d0 anything) (watching U d0 anything)"
proof -
  let ?S = "watching U d0 (untouched i (migration_staging i))"
  have new: "dk_backups d0 (source_backup i) = None" and i: "i \<in> U" using f by (simp_all add: fresh_id_def)
  have schema: "steady (sound U d0) ?S (migrate_schema w (migration_staging i) b)" for b
    unfolding migrate_schema_def
    by (intro steady_rules steady_set_phase phase_free_untouched steady_staging_file [OF is_stagingI(2)]) simp
  have valid: "steady (sound U d0) ?S (validate_staging w (migration_staging i) ts)" for ts
    unfolding validate_staging_def by (intro steady_rules steady_expect phase_free_untouched)
  show ?thesis
    unfolding migrate_def Let_def
    by (rule triple_bind [OF steady_triple [OF steady_done(3)]], erule watching_weakens(1))
       (intro triple_begin steady_rules steady_set_phase phase_free_untouched schema valid
          steady_staging_file [OF is_stagingI(2)] steady_record_backup [OF tolerant_watching]
          steady_backup_file [OF tolerant_watching new i made_by_names(1)] watching_weakens(1)
          triple_last [OF triple_activate]; simp)
qed

lemma triple_restore_body:
  assumes f: "fresh_id U d0 i"
  shows "triple (sound U d0) (watching U d0 (untouched i (restore_staging i)))
    (in_turn [set_phase w Restore_in_progress,
       look (\<lambda>_ d. bind_act (lift (verify_head w (dk_backups d b))) (\<lambda>v.
         in_turn [restore_safety w i, restore_staged w i b v])),
       replace_active w (restore_staging i)])
     (\<lambda>_. watching U d0 anything) (watching U d0 anything)"
proof -
  let ?S = "watching U d0 (untouched i (restore_staging i))"
  have new: "dk_backups d0 (pre_restore i) = None" and i: "i \<in> U" using f by (simp_all add: fresh_id_def)
  have safety: "steady (sound U d0) ?S (restore_safety w i)"
    unfolding restore_safety_def Let_def
    by (intro steady_rules steady_record_backup [OF tolerant_watching]
        steady_backup_file [OF tolerant_watching new i made_by_names(2)])
  have staged: "steady (sound U d0) ?S (restore_staged w i b v)" for v
    unfolding restore_staged_def Let_def
    by (intro steady_rules steady_expect phase_free_untouched steady_staging_file [OF is_stagingI(3)])
  show ?thesis
    by (intro triple_begin steady_rules steady_set_phase phase_free_untouched safety staged watching_weakens(1)
        triple_last [OF triple_replace_active]; simp)
qed

lemma restore_sound:
  assumes f: "fresh_id U d0 i"
  shows "ends_sound U d0 (starting U d0) (restore w i b)"
proof -
  have "journal_named U (restore_journal i b)"
    using f by (simp add: journal_named_def Let_def fresh_id_def restore_journal_def)
  then show ?thesis
    unfolding restore_def
    by (rule triple_started [OF f _ _ _ triple_restore_body [OF f]]) (simp_all add: restore_journal_def)
qed

lemma confirm_restore_sound:
  assumes "fresh_id U d0 i"
  shows "ends_sound U d0 (starting U d0) (confirm_restore w i p b now t)"
proof (cases p)
  case None
  then show ?thesis unfolding confirm_restore_def by (auto intro: steady_ends_sound steady_fail)
next
  case (Some r)
  show ?thesis
    unfolding confirm_restore_def Some option.case
    by (intro looks_then either_way fails_soundly reads_then steady_rules restore_sound [OF assms])
qed

lemma confirm_migration_sound:
  assumes f: "fresh_id U d0 i"
  shows "ends_sound U d0 (starting U d0) (confirm_migration w i ca source now t)"
proof (cases ca)
  case None
  then show ?thesis unfolding confirm_migration_def by (auto intro: fails_soundly)
next
  case (Some r)
  have new: "ends_sound U d0 (starting U d0) (bind_act (new_journal w (migration_journal i v))
      (\<lambda>_. guarded w (migrate w i c v) (\<lambda>_. Activation_complete)))" for c v
    by (rule triple_started [OF f _ _ _ triple_migrate [OF f]])
       (use f in \<open>simp_all add: journal_named_def Let_def fresh_id_def migration_journal_def\<close>)
  have source: "ends_sound U d0 (starting U d0) (case source of None \<Rightarrow> raise Other_error
      | Some c \<Rightarrow> bind_act (new_journal w (migration_journal i v))
          (\<lambda>_. guarded w (migrate w i c v) (\<lambda>_. Activation_complete)))" for v
    by (cases source) (simp_all add: new steady_ends_sound steady_done)
  show ?thesis
    unfolding confirm_migration_def Some option.case Let_def
    by (intro looks_then either_way fails_soundly reads_then steady_rules source steady_ends_sound)
qed

section \<open>Recovery\<close>

text \<open>The process has just read the journal \<open>j\<close>.\<close>

definition resumed :: "string set \<Rightarrow> 'c disk \<Rightarrow> journal \<Rightarrow> (journal, 'c disk) machine \<Rightarrow> bool" where
  "resumed U d0 j m \<longleftrightarrow> sound U d0 d0 \<and> dk_journal d0 = Some j \<and> m = \<lparr>mc_mem = j, mc_disk = d0\<rparr>"

lemma resumed_watching: "resumed U d0 j m \<Longrightarrow> watching U d0 anything m"
  by (auto simp: resumed_def watching_def)

lemma triple_resumed:
  assumes none: "ends_sound U d0 (starting U d0) p"
    and some: "\<And>j. sound U d0 d0 \<Longrightarrow> dk_journal d0 = Some j \<Longrightarrow> ends_sound U d0 (starting U d0) (f j)
      \<or> (\<exists>g. f j = bind_act (recall (\<lambda>_. j)) g \<and> (\<forall>a. ends_sound U d0 (resumed U d0 j) (g a)))"
  shows "ends_sound U d0 (starting U d0) (bind_act (read_journal w) (\<lambda>mj. case mj of None \<Rightarrow> p | Some j \<Rightarrow> f j))"
proof (rule triple_bind)
  let ?P = "\<lambda>mj m. starting U d0 m \<and> (\<forall>j. mj = Some j \<longrightarrow> dk_journal d0 = Some j)"
  show "triple (sound U d0) (starting U d0) (read_journal w) ?P (\<lambda>m. sound U d0 (mc_disk m))"
    by (auto simp: triple_def read_journal_def wpc_look wpc_ret fail_def wpc_raise starting_def split: option.splits)
  have found: "ends_sound U d0 (?P (Some j)) (f j)" if j: "sound U d0 d0" "dk_journal d0 = Some j" for j
    using some [OF j]
  proof
    assume "ends_sound U d0 (starting U d0) (f j)"
    then show ?thesis by (rule triple_weaken) simp_all
  next
    assume "\<exists>g. f j = bind_act (recall (\<lambda>_. j)) g \<and> (\<forall>a. ends_sound U d0 (resumed U d0 j) (g a))"
    then obtain g where g: "f j = bind_act (recall (\<lambda>_. j)) g" "\<forall>a. ends_sound U d0 (resumed U d0 j) (g a)" by blast
    have "triple (sound U d0) (?P (Some j)) (recall (\<lambda>_. j) :: ('a, unit) data_act) (\<lambda>_. resumed U d0 j) (\<lambda>m. sound U d0 (mc_disk m))"
      by (simp add: triple_def wpc_recall resumed_def starting_def j)
    then show ?thesis unfolding g(1) by (rule triple_bind) (use g(2) in simp)
  qed
  fix mj :: "journal option"
  show "ends_sound U d0 (?P mj) (case mj of None \<Rightarrow> p | Some j \<Rightarrow> f j)"
  proof (cases mj)
    case None
    then show ?thesis by (auto intro: triple_weaken [OF none])
  next
    case (Some j)
    have "ends_sound U d0 (?P (Some j)) (f j)"
    proof (cases "sound U d0 d0 \<and> dk_journal d0 = Some j")
      case True
      then show ?thesis by (intro found) simp_all
    next
      case False
      then show ?thesis by (auto simp: triple_def starting_def)
    qed
    then show ?thesis by (simp add: Some)
  qed
qed

lemma steady_catch_data [steady_rules]: "steady I P p \<Longrightarrow> steady I P h \<Longrightarrow> steady I P (catch_data p h)"
  unfolding catch_data_def by (rule steady_catch) (auto split: data_error.splits intro: steady_done)

definition unrolled :: "journal \<Rightarrow> (string \<rightharpoonup> 'c) \<Rightarrow> bool" where
  "unrolled j mg \<longleftrightarrow> mg (rollback_file (jn_operation_id j)) = None"

lemma phase_free_unrolled: "phase_free unrolled"
  by (simp add: phase_free_def harmless_def unrolled_def)

lemma steady_recover_failure:
  assumes "phase_free G"
  shows "steady (sound U d0) (watching U d0 G) (recover_failure w)"
proof -
  let ?f = "\<lambda>j. j\<lparr>jn_phase := Recoverable_failure, jn_failure_code := Some ''restart_requires_retry'', jn_recoverable := True\<rparr>"
  have "harmless ?f" by (simp add: harmless_def)
  then have "steady (sound U d0) (watching U d0 G) (in_turn [recall ?f, write_journal w])"
    using assms unfolding phase_free_def by (intro steady_rewrite) blast+
  then show ?thesis unfolding recover_failure_def by (rule steady_bind) (rule steady_show_journal)
qed

lemma unrolled_fits:
  assumes "journal_fits U d j" "unrolled j (dk_migration d)"
  shows "journal_fits U d (j\<lparr>jn_phase := p, jn_recoverable := b\<rparr>)"
proof -
  let ?k = "j\<lparr>jn_phase := p, jn_recoverable := b\<rparr>"
  have same: "jn_operation_id ?k = jn_operation_id j" "jn_staging_name ?k = jn_staging_name j"
      "jn_rollback_name ?k = jn_rollback_name j" "jn_safety_backup_name ?k = jn_safety_backup_name j"
    by simp_all
  have "journal_named U ?k = journal_named U j" by (simp only: journal_named_def same)
  moreover have "files_fit d j \<Longrightarrow> files_fit d ?k"
    using assms(2) unfolding files_fit_def staging_gone_def Let_def unrolled_def same by blast
  ultimately show ?thesis using assms(1) by (simp add: journal_fits_def)
qed

lemma steady_offer: "steady (sound U d0) (watching U d0 unrolled) (offer w p)"
proof -
  let ?f = "\<lambda>j. j\<lparr>jn_phase := p, jn_recoverable := True\<rparr>"
  have "pending U d0 unrolled (m\<lparr>mc_mem := ?f (mc_mem m)\<rparr>)" if m: "watching U d0 unrolled m" for m
  proof -
    have "journal_fits U (mc_disk m) (mc_mem m)" "unrolled (mc_mem m) (dk_migration (mc_disk m))" "sound U d0 (mc_disk m)"
      using watching_fits [OF m] m by (simp_all add: watching_def)
    then show ?thesis using unrolled_fits [where p = p and b = True] by (simp add: pending_def unrolled_def)
  qed
  then have "triple (sound U d0) (watching U d0 unrolled) (recall ?f) (\<lambda>_. pending U d0 unrolled) (watching U d0 unrolled)"
    by (simp add: triple_def wpc_recall)
  then have "steady (sound U d0) (watching U d0 unrolled) (in_turn [recall ?f, write_journal w])"
    unfolding steady_def by (rule triple_turn) (rule triple_turn [OF triple_write_journal triple_end])
  then show ?thesis unfolding offer_def by (rule steady_bind) (rule steady_show_journal)
qed

lemma steady_recover_staging: "steady (sound U d0) (watching U d0 unrolled) (recover_staging w)"
  unfolding recover_staging_def
  by (intro steady_rules steady_recover_failure phase_free_unrolled steady_offer steady_expect)

lemma triple_recover_rollback:
  "triple (sound U d0) (watching U d0 anything) (recover_rollback w) (\<lambda>_. watching U d0 anything) (watching U d0 anything)"
  unfolding recover_rollback_def
proof (rule triple_look)
  fix j :: journal and d :: "'a disk"
  let ?P = "\<lambda>m. watching U d0 anything m \<and> mc_mem m = j \<and> mc_disk m = d"
  let ?A = "watching U d0 anything"
  have staging: "triple (sound U d0) ?P (recover_staging w) (\<lambda>_. ?A) ?A"
    if "unrolled j (dk_migration d)"
    by (rule triple_weaken [OF steady_recover_staging [unfolded steady_def]])
       (use that in \<open>auto simp: watching_def\<close>)
  have fits: "journal_fits U d j" if "?P m" for m using watching_fits that by blast
  have offer: "triple (sound U d0) ?P (offer w Rollback_available) (\<lambda>_. ?A) ?A"
  proof -
    have "harmless (\<lambda>j. j\<lparr>jn_phase := Rollback_available, jn_recoverable := True\<rparr>)" by (simp add: harmless_def)
    then have "steady (sound U d0) ?A (in_turn [recall (\<lambda>j. j\<lparr>jn_phase := Rollback_available, jn_recoverable := True\<rparr>), write_journal w])"
      by (rule steady_rewrite) simp
    then have "steady (sound U d0) ?A (offer w Rollback_available)"
      unfolding offer_def by (rule steady_bind) (rule steady_show_journal)
    then show ?thesis unfolding steady_def by (rule triple_weaken) auto
  qed
  have artifact: "triple (sound U d0) ?P (approved_artifact n) (\<lambda>_. ?P) ?A" for n
    by (rule steady_triple [OF steady_approved_artifact]) simp
  show "triple (sound U d0) ?P (case jn_rollback_name j of None \<Rightarrow> recover_staging w
      | Some n \<Rightarrow> bind_act (approved_artifact n) (\<lambda>_.
          if dk_migration d n \<noteq> None then offer w Rollback_available else recover_staging w)) (\<lambda>_. ?A) ?A"
  proof (cases "\<exists>m. ?P m")
    case True
    then have f: "files_fit d j" and n: "journal_named U j" using fits by (auto simp: journal_fits_def)
    show ?thesis
    proof (cases "jn_rollback_name j")
      case None
      then have "unrolled j (dk_migration d)" using f by (auto simp: files_fit_def unrolled_def Let_def)
      then show ?thesis using None staging by simp
    next
      case (Some x)
      then have "x = rollback_file (jn_operation_id j)" using n by (simp add: journal_named_def Let_def)
      then have "dk_migration d x = None \<Longrightarrow> unrolled j (dk_migration d)" by (simp add: unrolled_def)
      then have "triple (sound U d0) ?P (if dk_migration d x \<noteq> None then offer w Rollback_available else recover_staging w)
         (\<lambda>_. ?A) ?A"
        using offer staging by (cases "dk_migration d x = None") simp_all
      then show ?thesis unfolding Some option.case by (intro triple_bind [OF artifact])
    qed
  next
    case False
    then show ?thesis unfolding triple_def by blast
  qed
qed

lemma recover_active_sound: "ends_sound U d0 (watching U d0 anything) (recover_active w)"
  unfolding recover_active_def
proof (rule triple_look)
  fix j :: journal and d :: "'a disk"
  let ?A = "watching U d0 anything"
  let ?check = "catch_data
     (bind_act (lift (verify_head w (dk_database d))) (\<lambda>v.
       if Some (vf_sha256 v) = jn_expected_active_digest j
       then bind_act (complete w (completion_phase j)) (\<lambda>s. ret (Some s)) else ret None))
     (ret None)"
  have "completion_phase j \<noteq> Resume_available" by (simp add: completion_phase_def)
  then have "steady (sound U d0) ?A ?check" by (intro steady_rules steady_complete phase_free_anything)
  then have check: "triple (sound U d0) ?A ?check (\<lambda>_. ?A) ?A" by (simp only: steady_def)
  have rollback: "triple (sound U d0) ?A (case r of Some s \<Rightarrow> ret s | None \<Rightarrow> recover_rollback w) (\<lambda>_. ?A) ?A" for r
    by (cases r) (simp_all add: triple_recover_rollback triple_ret)
  have "triple (sound U d0) ?A
     (if jn_expected_active_digest j \<noteq> None \<and> dk_database d \<noteq> None
      then bind_act ?check (\<lambda>r. case r of Some s \<Rightarrow> ret s | None \<Rightarrow> recover_rollback w)
      else recover_rollback w) (\<lambda>_. ?A) ?A" (is "triple _ _ ?p _ _")
    by (intro either_way triple_bind [OF check rollback] triple_recover_rollback)
  then show "ends_sound U d0 (\<lambda>m. ?A m \<and> mc_mem m = j \<and> mc_disk m = d) ?p"
    by (rule triple_weaken) (auto simp: watching_def)
qed

lemma prepare_sound: "ends_sound U d0 (starting U d0) (prepare w)"
proof -
  let ?f = "\<lambda>j. if jn_completed j then ret None
    else bind_act (recall (\<lambda>_. j)) (\<lambda>_. bind_act (recover_active w) (\<lambda>s. ret (Some s)))"
  let ?A = "\<lambda>m. sound U d0 (mc_disk m)"
  have "ends_sound U d0 (starting U d0) (recover w)"
    unfolding recover_def
  proof (rule triple_resumed)
    show "ends_sound U d0 (starting U d0) (ret None)" by (intro steady_ends_sound steady_rules)
    fix j
    have "ends_sound U d0 (resumed U d0 j) (bind_act (recover_active w) (\<lambda>s. ret (Some s)))"
      by (rule triple_bind [OF triple_weaken [OF recover_active_sound resumed_watching] triple_ret]) simp_all
    then show "ends_sound U d0 (starting U d0) (?f j) \<or>
        (\<exists>g. ?f j = bind_act (recall (\<lambda>_. j)) g \<and> (\<forall>a. ends_sound U d0 (resumed U d0 j) (g a)))"
      by (cases "jn_completed j") (auto intro: steady_ends_sound steady_done)
  qed
  moreover have "triple (sound U d0) ?A (case r of Some s \<Rightarrow> ret s | None \<Rightarrow> status w) (\<lambda>_. ?A) ?A" for r
    using steady_status [of "sound U d0" ?A] by (cases r) (simp_all add: triple_ret steady_def)
  ultimately show ?thesis unfolding prepare_def by (rule triple_bind)
qed

lemma resumed_untouched:
  assumes r: "resumed U d0 j m" and p: "jn_phase j = Resume_available" "jn_staging_name j = Some n" "dk_migration d0 n \<noteq> None"
  shows "watching U d0 (untouched (jn_operation_id j) n) (m\<lparr>mc_mem := j\<lparr>jn_expected_active_digest := x\<rparr>\<rparr>)"
proof -
  have s: "sound U d0 d0" "dk_journal d0 = Some j" and m: "m = \<lparr>mc_mem = j, mc_disk = d0\<rparr>"
    using r by (simp_all add: resumed_def)
  have files: "files_fit d0 j" using soundD(3) [OF s] by (simp add: journal_fits_def)
  have "\<not> staging_gone d0 j" using p(2,3) by (auto simp: staging_gone_def)
  then show ?thesis using s files p(1,2) m
    by (auto simp: watching_def untouched_def files_fit_def journal_core_def Let_def)
qed

lemma verified_present: "verify_database w e f = Inr v \<Longrightarrow> f \<noteq> None"
  by (cases f) (simp_all add: verify_database_def)

lemma resume_staged_sound:
  assumes p: "jn_phase j = Resume_available" "jn_staging_name j = Some n"
  shows "ends_sound U d0 (resumed U d0 j) (resume_staged w n)"
  unfolding resume_staged_def
proof (rule triple_look, rule triple_bind)
  let ?f = "\<lambda>v j. j\<lparr>jn_expected_active_digest := Some (vf_sha256 v)\<rparr>"
  let ?U = "watching U d0 (untouched (jn_operation_id j) n)"
  fix k d v
  show "triple (sound U d0) (\<lambda>m. resumed U d0 j m \<and> mc_mem m = k \<and> mc_disk m = d)
     (lift (verify_head w (dk_migration d n)))
     (\<lambda>_ m. resumed U d0 j m \<and> dk_migration d0 n \<noteq> None) (\<lambda>m. sound U d0 (mc_disk m))"
    by (rule triple_lift) (use verified_present in \<open>auto simp: resumed_def\<close>)
  have mem: "mc_mem m = j" if "resumed U d0 j m" for m using that by (simp add: resumed_def)
  have set_digest: "triple (sound U d0) (\<lambda>m. resumed U d0 j m \<and> dk_migration d0 n \<noteq> None) (recall (?f v))
      (\<lambda>_. ?U) (\<lambda>m. sound U d0 (mc_disk m))"
    using resumed_untouched [OF _ p, of U d0 _ "Some (vf_sha256 v)"] by (auto simp: triple_def wpc_recall mem)
  have "triple (sound U d0) ?U (guarded w (activate w n) completion_phase)
      (\<lambda>_. watching U d0 anything) (watching U d0 anything)"
    by (rule triple_guarded [OF triple_activate]) (simp add: completion_phase_def)
  then have "ends_sound U d0 ?U (guarded w (activate w n) completion_phase)"
    by (rule triple_weaken) (auto simp: watching_def)
  then show "ends_sound U d0 (\<lambda>m. resumed U d0 j m \<and> dk_migration d0 n \<noteq> None)
     (bind_act (recall (?f v)) (\<lambda>_. guarded w (activate w n) completion_phase))"
    by (rule triple_bind [OF set_digest])
qed

lemma resume_sound: "ends_sound U d0 (starting U d0) (resume w)"
  unfolding resume_def
proof (rule triple_resumed [OF fails_soundly])
  fix j
  let ?g = "\<lambda>n _. bind_act (approved_artifact n) (\<lambda>_. resume_staged w n)"
  let ?f = "if jn_phase j \<noteq> Resume_available then fail ''resume_unavailable''
    else case jn_staging_name j of None \<Rightarrow> raise Other_error | Some n \<Rightarrow> bind_act (recall (\<lambda>_. j)) (?g n)"
  show "ends_sound U d0 (starting U d0) ?f \<or>
     (\<exists>g. ?f = bind_act (recall (\<lambda>_. j)) g \<and> (\<forall>a. ends_sound U d0 (resumed U d0 j) (g a)))"
  proof (cases "jn_phase j = Resume_available \<and> jn_staging_name j \<noteq> None")
    case True
    then obtain n where n: "jn_phase j = Resume_available" "jn_staging_name j = Some n" by auto
    have "ends_sound U d0 (resumed U d0 j) (?g n ())"
      by (rule triple_bind [OF steady_triple [OF steady_approved_artifact] resume_staged_sound [OF n]])
         (simp add: resumed_def)
    then show ?thesis using n by (intro disjI2 exI [of _ "?g n"]) simp
  next
    case False
    then show ?thesis by (intro disjI1) (auto intro: fails_soundly steady_ends_sound steady_done)
  qed
qed

text \<open>\<open>rollback\<close>: the database goes to the failed file and the rollback file comes back.\<close>

lemma staging_gone_fewer:
  assumes "staging_gone d j" "\<And>n. dk_migration d n = None \<Longrightarrow> jn_staging_name j = Some n \<Longrightarrow> dk_migration e n = None"
  shows "staging_gone e j"
  using assms unfolding staging_gone_def by blast

lemma rolled_back_fits:
  assumes fits: "journal_fits U d j" and i: "jn_operation_id j = i"
  shows "dk_database d = Some c \<Longrightarrow> dk_migration d (rollback_file i) \<noteq> None \<Longrightarrow>
      journal_fits U (database_moved (failed_file i) c d) j"
    and "journal_fits U (moved_in (rollback_file i) r d) j"
proof -
  have named: "journal_named U j" and files: "files_fit d j" using fits by (simp_all add: journal_fits_def)
  have st: "is_staging i n" if "jn_staging_name j = Some n" for n
    using named that i unfolding journal_named_def Let_def by blast
  have "staging_gone (moved_in (rollback_file i) r d) j" if "staging_gone d j"
    by (rule staging_gone_fewer [OF that]) (simp add: staging_names(3) [OF st])
  then have "files_fit (moved_in (rollback_file i) r d) j"
    using files i unfolding files_fit_def Let_def by auto
  then show "journal_fits U (moved_in (rollback_file i) r d) j" using named by (simp add: journal_fits_def)
  assume c: "dk_database d = Some c" and r: "dk_migration d (rollback_file i) \<noteq> None"
  have gone: "staging_gone d j" and old: "jn_rollback_name j \<noteq> None" "jn_phase j \<noteq> Resume_available"
    using files c r i unfolding files_fit_def Let_def by auto
  have "staging_gone (database_moved (failed_file i) c d) j"
    by (rule staging_gone_fewer [OF gone]) (use st staging_names(2) in auto)
  then have "files_fit (database_moved (failed_file i) c d) j"
    using old unfolding files_fit_def Let_def by simp
  then show "journal_fits U (database_moved (failed_file i) c d) j" using named by (simp add: journal_fits_def)
qed

lemma rolled_back_sound:
  assumes s: "sound U d0 d" "dk_journal d = Some j" and i: "jn_operation_id j = i"
    and r: "dk_migration d (rollback_file i) = Some r"
  shows "dk_database d = None \<Longrightarrow> sound U d0 (moved_in (rollback_file i) r d)"
    and "dk_database d = Some c \<Longrightarrow> sound U d0 (database_moved (failed_file i) c d)
      \<and> sound U d0 (moved_in (rollback_file i) r (database_moved (failed_file i) c d))"
proof -
  have fits: "journal_fits U d j" by (rule soundD(3) [OF s])
  then have named: "journal_named U j" and files: "files_fit d j" by (simp_all add: journal_fits_def)
  have iU: "i \<in> U" using named i by (simp add: journal_named_def Let_def)
  {
    fix e assume e: "sound U d0 e" "dk_journal e = Some j" "dk_database e = None" "dk_migration e (rollback_file i) = Some r"
    have "journal_fits U (moved_in (rollback_file i) r e) j"
      by (rule rolled_back_fits(2) [OF soundD(3) [OF e(1,2)] i])
    then have "sound U d0 (moved_in (rollback_file i) r e)"
      by (intro sound_moved_in [OF e(1,3,4)]) (use e(2) in simp)
  } note move_in = this
  then show "dk_database d = None \<Longrightarrow> sound U d0 (moved_in (rollback_file i) r d)" using s r by blast
  assume c: "dk_database d = Some c"
  have new: "dk_migration d (failed_file i) = None"
    using files c r i unfolding files_fit_def Let_def by auto
  have "journal_fits U (database_moved (failed_file i) c d) j"
    by (rule rolled_back_fits(1) [OF fits i c]) (simp add: r)
  then have e: "sound U d0 (database_moved (failed_file i) c d)"
    by (intro sound_database_moved [OF s(1) c new _ iU]) (use s(2) in simp_all)
  then show "sound U d0 (database_moved (failed_file i) c d)
      \<and> sound U d0 (moved_in (rollback_file i) r (database_moved (failed_file i) c d))"
    using move_in [OF e] s(2) r by simp
qed

lemma triple_put_back:
  assumes n: "n = rollback_file (jn_operation_id j)"
  shows "triple (sound U d0) (\<lambda>m. resumed U d0 j m \<and> dk_migration d0 n \<noteq> None)
    (in_turn [only_if (dk_database d0 \<noteq> None) (move_database_to (failed_file (jn_operation_id j))), move_staging_in n])
    (\<lambda>_. watching U d0 unrolled) (\<lambda>m. sound U d0 (mc_disk m))"
proof -
  let ?f = "failed_file (jn_operation_id j)"
  let ?p = "in_turn [only_if (dk_database d0 \<noteq> None) (move_database_to ?f), move_staging_in n] :: ('a, unit) data_act"
  let ?Q = "\<lambda>r m'. case r of Inl e \<Rightarrow> sound U d0 (mc_disk m') | Inr (a :: unit) \<Rightarrow> watching U d0 unrolled m'"
  have "wpc (sound U d0) ?p ?Q \<lparr>mc_mem = j, mc_disk = d0\<rparr>"
    if s: "sound U d0 d0" "dk_journal d0 = Some j" and r: "dk_migration d0 n = Some r" for r
  proof (cases "dk_database d0")
    case None
    have "sound U d0 (moved_in n r d0)" using rolled_back_sound(1) [OF s refl] r n None by simp
    then show ?thesis using None r s(2) n
      by (simp add: only_if_def wpc_bind wpc_ret move_staging_in_def staged_file_def wpc_look wpc_put
          moved_in_def [symmetric] watching_def unrolled_def)
  next
    case (Some c)
    let ?d = "database_moved ?f c d0"
    have "sound U d0 ?d" "sound U d0 (moved_in n r ?d)" using rolled_back_sound(2) [OF s refl] r n Some by simp_all
    then show ?thesis using Some r s(2) n
      by (simp add: only_if_def wpc_bind wpc_ret move_staging_in_def move_database_to_def staged_file_def wpc_look wpc_put
          moved_in_def [symmetric] database_moved_def [symmetric] watching_def unrolled_def)
  qed
  then show ?thesis by (auto simp: triple_def resumed_def simp del: in_turn.simps)
qed

lemma pending_rolled_back:
  assumes m: "watching U d0 unrolled m"
    and f: "\<And>j. jn_operation_id (f j) = jn_operation_id j \<and> jn_staging_name (f j) = jn_staging_name j
      \<and> jn_safety_backup_name (f j) = jn_safety_backup_name j \<and> jn_rollback_name (f j) = None"
  shows "pending U d0 anything (m\<lparr>mc_mem := f (mc_mem m)\<rparr>)"
proof -
  let ?j = "mc_mem m"
  have u: "dk_migration (mc_disk m) (rollback_file (jn_operation_id ?j)) = None" and s: "sound U d0 (mc_disk m)"
    using m by (simp_all add: watching_def unrolled_def)
  have same: "jn_operation_id (f ?j) = jn_operation_id ?j" "jn_staging_name (f ?j) = jn_staging_name ?j"
      "jn_safety_backup_name (f ?j) = jn_safety_backup_name ?j" "jn_rollback_name (f ?j) = None"
    using f by blast+
  have named: "journal_named U ?j" and files: "files_fit (mc_disk m) ?j"
    using watching_fits [OF m] by (simp_all add: journal_fits_def)
  have "journal_named U (f ?j)" using named unfolding journal_named_def Let_def same by blast
  moreover have "files_fit (mc_disk m) (f ?j)"
    using files u unfolding files_fit_def Let_def staging_gone_def same by blast
  ultimately show ?thesis using s by (simp add: pending_def journal_fits_def)
qed

lemma rollback_done_sound: "ends_sound U d0 (watching U d0 unrolled) (rollback_done w v)"
  unfolding rollback_done_def
proof (rule triple_look, rule triple_bind)
  let ?A = "watching U d0 unrolled" let ?S = "\<lambda>m. sound U d0 (mc_disk m)"
  fix k d and a :: database_verification
  let ?f = "\<lambda>j. j\<lparr>jn_completed := True, jn_phase := Activation_complete, jn_rolled_back := True,
      jn_rollback_name := None, jn_expected_active_digest := Some (vf_sha256 a),
      jn_logical_manifest_digest := Some (vf_manifest_digest a)\<rparr>"
  show "triple (sound U d0) (\<lambda>m. ?A m \<and> mc_mem m = k \<and> mc_disk m = d) (lift (verify_head w (dk_database d))) (\<lambda>_. ?A) ?S"
    by (rule triple_lift) (auto simp: watching_def)
  have "triple (sound U d0) ?A (recall ?f) (\<lambda>_. pending U d0 anything) ?S"
    by (auto simp: triple_def wpc_recall intro!: pending_rolled_back [where f = ?f])
  then have "triple (sound U d0) ?A (in_turn [recall ?f, write_journal w]) (\<lambda>_. watching U d0 anything) ?S"
    by (rule triple_turn) (rule triple_turn [OF triple_write_journal triple_end])
  moreover have "ends_sound U d0 (watching U d0 anything) (show_journal w)"
    by (rule triple_weaken [OF steady_show_journal [unfolded steady_def]]) (auto simp: watching_def)
  ultimately have "ends_sound U d0 ?A (bind_act (in_turn [recall ?f, write_journal w]) (\<lambda>_. show_journal w))"
    by (rule triple_bind)
  moreover have "ends_sound U d0 ?A (fail x :: ('a, public_status) data_act)" for x
    by (auto simp: fail_def watching_def intro: triple_raise)
  ultimately show "ends_sound U d0 ?A (if vf_manifest_digest a \<noteq> vf_manifest_digest v then fail ''rollback_mismatch''
      else bind_act (in_turn [recall ?f, write_journal w]) (\<lambda>_. show_journal w))"
    by (intro either_way)
qed

lemma rollback_from_sound:
  assumes n: "n = rollback_file (jn_operation_id j)"
  shows "ends_sound U d0 (resumed U d0 j) (rollback_from w j n)"
  unfolding rollback_from_def
proof (rule triple_look, rule triple_bind)
  fix k d v
  let ?R = "\<lambda>m. (resumed U d0 j m \<and> dk_migration d0 n \<noteq> None) \<and> d = d0"
  let ?S = "\<lambda>m. sound U d0 (mc_disk m)"
  let ?returning = "in_turn [only_if (dk_database d \<noteq> None) (move_database_to (failed_file (jn_operation_id j))), move_staging_in n]"
  show "triple (sound U d0) (\<lambda>m. resumed U d0 j m \<and> mc_mem m = k \<and> mc_disk m = d)
     (lift (verify_head w (dk_migration d n))) (\<lambda>_. ?R) ?S"
    by (rule triple_lift) (use verified_present in \<open>auto simp: resumed_def\<close>)
  have "triple (sound U d0) ?R ?returning (\<lambda>_. watching U d0 unrolled) ?S"
    using triple_put_back [OF n, of U d0] by (cases "d = d0") (simp_all add: triple_def del: in_turn.simps)
  then show "ends_sound U d0 ?R (bind_act ?returning (\<lambda>_. rollback_done w v))"
    by (rule triple_bind) (rule rollback_done_sound)
qed

lemma rollback_sound: "ends_sound U d0 (starting U d0) (rollback w)"
  unfolding rollback_def
proof (rule triple_resumed [OF fails_soundly])
  fix j assume j: "sound U d0 d0" "dk_journal d0 = Some j"
  let ?g = "\<lambda>n _. bind_act (in_turn [inject w ''during_rollback'', approved_artifact n]) (\<lambda>_. rollback_from w j n)"
  let ?f = "case jn_rollback_name j of None \<Rightarrow> fail ''rollback_unavailable'' | Some n \<Rightarrow> bind_act (recall (\<lambda>_. j)) (?g n)"
  show "ends_sound U d0 (starting U d0) ?f \<or>
     (\<exists>g. ?f = bind_act (recall (\<lambda>_. j)) g \<and> (\<forall>a. ends_sound U d0 (resumed U d0 j) (g a)))"
  proof (cases "jn_rollback_name j")
    case (Some n)
    have n: "n = rollback_file (jn_operation_id j)"
      using soundD(3) [OF j] Some by (simp add: journal_fits_def journal_named_def Let_def)
    have "triple (sound U d0) (resumed U d0 j) (in_turn [inject w ''during_rollback'', approved_artifact n])
        (\<lambda>_. resumed U d0 j) (\<lambda>m. sound U d0 (mc_disk m))"
      by (rule steady_triple, intro steady_rules) (simp add: resumed_def)
    then have "ends_sound U d0 (resumed U d0 j) (?g n a)" for a
      by (rule triple_bind) (rule rollback_from_sound [OF n])
    then show ?thesis using Some by (intro disjI2 exI [of _ "?g n"]) simp
  qed (simp add: fails_soundly)
qed

section \<open>Safety\<close>

lemma perform_sound:
  assumes "fresh_id U d0 i"
  shows "ends_sound U d0 (starting U d0) (perform w i r)"
proof -
  have effects: "ends_sound U d0 (starting U d0) (only_effects p)" if "ends_sound U d0 (starting U d0) p" for p :: "('a, 'b) data_act"
    unfolding only_effects_def by (rule triple_bind [OF that triple_ret])
  have reads: "ends_sound U d0 (starting U d0) (only_effects p)" if "steady (sound U d0) (starting U d0) p" for p :: "('a, 'b) data_act"
    by (rule steady_ends_sound [OF steady_only_effects [OF that]])
  show ?thesis
    by (cases r; simp only: perform.simps)
       (intro effects reads steady_rules prepare_sound resume_sound rollback_sound fresh_setup_sound [OF assms]
          confirm_migration_sound [OF assms] create_backup_sound [OF assms] confirm_restore_sound [OF assms])+
qed

lemma ends_wpc:
  assumes "ends_sound U d0 P p" "P m"
  shows "wpc (sound U d0) p (\<lambda>_ m'. sound U d0 (mc_disk m')) m"
  by (rule wpc_mono [OF assms(1) [unfolded triple_def, rule_format, OF assms(2)]]) (auto split: sum.splits)

lemma home_step_sound:
  assumes "home_step w s t" "home_inv (fst s) (snd s)"
  shows "home_inv (fst t) (snd t) \<and> preserved (snd s) (snd t)"
  using assms
proof induction
  case (finished i U r j d x m t)
  have f: "fresh_id (insert i U) d i" "sound (insert i U) d d"
    using fresh_idI [of U d i] finished by simp_all
  then have "wpc (sound (insert i U) d) (perform w i r) (\<lambda>r m'. sound (insert i U) d (mc_disk m')) \<lparr>mc_mem = j, mc_disk = d\<rparr>"
    by (intro ends_wpc [OF perform_sound [OF f(1)]]) (simp add: starting_def)
  from wpc_run [OF this finished(3)] show ?case by (simp add: sound_def)
next
  case (crashed i U d' r j d)
  have f: "fresh_id (insert i U) d i" "sound (insert i U) d d"
    using fresh_idI [of U d i] crashed by simp_all
  then have "wpc (sound (insert i U) d) (perform w i r) (\<lambda>r m'. sound (insert i U) d (mc_disk m')) \<lparr>mc_mem = j, mc_disk = d\<rparr>"
    by (intro ends_wpc [OF perform_sound [OF f(1)]]) (simp add: starting_def)
  from wpc_crash [OF this _ crashed(3)] show ?case using f(2) by (simp add: sound_def)
qed

lemma preserved_trans: "preserved a b \<Longrightarrow> preserved b c \<Longrightarrow> preserved a c"
  unfolding preserved_def by (blast intro: map_le_trans)

lemma home_steps_sound:
  assumes "(home_step w)\<^sup>*\<^sup>* s t" "home_inv (fst s) (snd s)"
  shows "home_inv (fst t) (snd t) \<and> preserved (snd s) (snd t)"
  using assms
proof (induction rule: rtranclp_induct)
  case base
  then show ?case by (simp add: preserved_def)
next
  case (step t u)
  then show ?case using home_step_sound [OF step(2)] preserved_trans by blast
qed

lemma home_inv_no_files: "home_inv {} no_files"
  by (simp add: home_inv_def names_used_def no_files_def)

end
