(* ===== verification/Data_Home_Recovery.thy ===== *)
theory Data_Home_Recovery
  imports Data_Home_Facts
begin

text \<open>
  An interrupted restore: what the next start finds, and that one more action ends with the old or
  the restored database. \<open>c0\<close> is the database before, \<open>r\<close> the copy of the selected backup and \<open>i\<close> the
  identifier of the restore.
\<close>

section \<open>The disks of a restore\<close>

definition offers :: "phase \<Rightarrow> bool" where
  "offers p \<longleftrightarrow> p = Resume_available \<or> p = Rollback_available"

definition restore_named :: "string \<Rightarrow> journal \<Rightarrow> bool" where
  "restore_named i j \<longleftrightarrow> jn_operation_id j = i \<and> \<not> offers (jn_phase j) \<and> jn_kind j = Restore
     \<and> jn_staging_name j = Some (restore_staging i) \<and> jn_safety_backup_name j = Some (pre_restore i)
     \<and> (jn_rollback_name j = None \<or> jn_rollback_name j = Some (rollback_file i))"

text \<open>Before the database moves, between the two renames, and after.\<close>

definition still_old :: "'c world \<Rightarrow> string \<Rightarrow> 'c \<Rightarrow> 'c \<Rightarrow> 'c disk \<Rightarrow> bool" where
  "still_old w i c0 r d \<longleftrightarrow> dk_database d = Some c0 \<and> dk_migration d (rollback_file i) = None
     \<and> (isl (verify_head w (dk_migration d (restore_staging i)))
        \<or> dk_migration d (restore_staging i) = Some r \<and> dk_backups d (pre_restore i) \<noteq> None)"

definition in_between :: "string \<Rightarrow> 'c \<Rightarrow> 'c disk \<Rightarrow> bool" where
  "in_between i c0 d \<longleftrightarrow> dk_database d = None \<and> dk_migration d (rollback_file i) = Some c0"

definition now_restored :: "'c world \<Rightarrow> 'c \<Rightarrow> 'c disk \<Rightarrow> bool" where
  "now_restored w r d \<longleftrightarrow> dk_database d = Some r \<and> \<not> isl (verify_head w (Some r))"

definition digest_of :: "'c world \<Rightarrow> 'c \<Rightarrow> string" where
  "digest_of w c = df_sha256 (wd_facts w c)"

definition restoring :: "'c world \<Rightarrow> string \<Rightarrow> 'c \<Rightarrow> 'c \<Rightarrow> journal \<Rightarrow> 'c disk \<Rightarrow> bool" where
  "restoring w i c0 r j d \<longleftrightarrow> restore_named i j
     \<and> (\<not> jn_completed j \<and> still_old w i c0 r d
        \<or> \<not> jn_completed j \<and> in_between i c0 d \<and> jn_rollback_name j = Some (rollback_file i)
        \<or> now_restored w r d \<and> jn_expected_active_digest j = Some (digest_of w r))"

definition restore_disk :: "'c world \<Rightarrow> string \<Rightarrow> 'c \<Rightarrow> 'c \<Rightarrow> 'c disk \<Rightarrow> bool" where
  "restore_disk w i c0 r d \<longleftrightarrow> (\<exists>j. dk_journal d = Some j \<and> restoring w i c0 r j d)"

text \<open>The machine while a restore runs: both the journal on disk and the remembered one describe the files.\<close>

definition restore_at ::
  "'c world \<Rightarrow> string \<Rightarrow> 'c \<Rightarrow> 'c \<Rightarrow> (journal \<Rightarrow> 'c disk \<Rightarrow> bool) \<Rightarrow> (journal, 'c disk) machine \<Rightarrow> bool"
where
  "restore_at w i c0 r G m \<longleftrightarrow> restore_disk w i c0 r (mc_disk m) \<and> restoring w i c0 r (mc_mem m) (mc_disk m)
     \<and> G (mc_mem m) (mc_disk m)"

lemma restoring_cong:
  assumes "dk_database d = dk_database e" "dk_migration d = dk_migration e" "dk_backups d (pre_restore i) = dk_backups e (pre_restore i)"
  shows "restoring w i c0 r j d = restoring w i c0 r j e"
  using assms by (simp add: restoring_def still_old_def in_between_def now_restored_def)

text \<open>Assertions that ignore what the journal says beyond the digest it expects, and what is not a file.\<close>

definition about_files :: "(journal \<Rightarrow> 'c disk \<Rightarrow> bool) \<Rightarrow> bool" where
  "about_files G \<longleftrightarrow> (\<forall>j k d e. jn_expected_active_digest j = jn_expected_active_digest k \<longrightarrow>
     jn_completed j = jn_completed k \<longrightarrow> dk_database d = dk_database e \<longrightarrow> dk_migration d = dk_migration e \<longrightarrow> dk_backups d = dk_backups e \<longrightarrow> G j d = G k e)"

lemma about_filesD:
  "about_files G \<Longrightarrow> G j d \<Longrightarrow> jn_expected_active_digest k = jn_expected_active_digest j \<Longrightarrow>
     jn_completed k = jn_completed j \<Longrightarrow> dk_database e = dk_database d \<Longrightarrow> dk_migration e = dk_migration d \<Longrightarrow> dk_backups e = dk_backups d \<Longrightarrow> G k e"
  unfolding about_files_def by metis

text \<open>An update of the journal that a restore survives.\<close>

definition minor :: "'c world \<Rightarrow> string \<Rightarrow> 'c \<Rightarrow> 'c \<Rightarrow> (journal \<Rightarrow> journal) \<Rightarrow> bool" where
  "minor w i c0 r f \<longleftrightarrow> (\<forall>j d. restoring w i c0 r j d \<longrightarrow> restoring w i c0 r (f j) d)
     \<and> (\<forall>j. jn_expected_active_digest (f j) = jn_expected_active_digest j \<and> jn_completed (f j) = jn_completed j)"

lemma minorI:
  assumes "\<And>j. jn_operation_id (f j) = jn_operation_id j \<and> jn_kind (f j) = jn_kind j \<and> jn_staging_name (f j) = jn_staging_name j
    \<and> jn_safety_backup_name (f j) = jn_safety_backup_name j \<and> jn_completed (f j) = jn_completed j
    \<and> jn_expected_active_digest (f j) = jn_expected_active_digest j"
    and p: "\<And>j. restore_named i j \<Longrightarrow> \<not> offers (jn_phase (f j))"
    and "\<And>j. restore_named i j \<Longrightarrow> jn_rollback_name (f j) = jn_rollback_name j \<or> jn_rollback_name (f j) = Some (rollback_file i)"
  shows "minor w i c0 r f"
  unfolding minor_def
proof (intro conjI allI impI)
  fix j d assume d: "restoring w i c0 r j d"
  then have n: "restore_named i j" by (simp add: restoring_def)
  then have "restore_named i (f j)" using assms(1) [of j] assms(3) [OF n] p [OF n] by (auto simp: restore_named_def)
  then show "restoring w i c0 r (f j) d"
    using d assms(1) [of j] assms(3) [OF n] p [OF n] unfolding restoring_def by auto
qed (use assms(1) in blast)+

lemma restore_journal_written:
  assumes m: "restore_disk w i c0 r d" and j: "restoring w i c0 r j d"
  shows "restore_disk w i c0 r (d\<lparr>dk_journal := Some j\<rparr>)" "restore_disk w i c0 r (d\<lparr>dk_journal := Some j, dk_journal_digest := x\<rparr>)"
    "restoring w i c0 r k (d\<lparr>dk_journal := Some j, dk_journal_digest := x\<rparr>) = restoring w i c0 r k d"
proof -
  have "restoring w i c0 r k (d\<lparr>dk_journal := Some j, dk_journal_digest := x\<rparr>) = restoring w i c0 r k d"
    "restoring w i c0 r k (d\<lparr>dk_journal := Some j\<rparr>) = restoring w i c0 r k d" for k
    by (rule restoring_cong; simp)+
  then show "restore_disk w i c0 r (d\<lparr>dk_journal := Some j\<rparr>)" "restore_disk w i c0 r (d\<lparr>dk_journal := Some j, dk_journal_digest := x\<rparr>)"
    "restoring w i c0 r k (d\<lparr>dk_journal := Some j, dk_journal_digest := x\<rparr>) = restoring w i c0 r k d"
    using j by (simp_all add: restore_disk_def)
qed

lemma triple_restore_write:
  assumes G: "about_files G" and f: "minor w i c0 r f"
  shows "steady (restore_disk w i c0 r) (restore_at w i c0 r G) (in_turn [recall f, write_journal w])"
proof -
  have "restore_disk w i c0 r (d\<lparr>dk_journal := Some (f j)\<rparr>) \<and> restore_disk w i c0 r (d\<lparr>dk_journal := Some (f j), dk_journal_digest := x\<rparr>)
     \<and> restoring w i c0 r (f j) (d\<lparr>dk_journal := Some (f j), dk_journal_digest := x\<rparr>)
     \<and> G (f j) (d\<lparr>dk_journal := Some (f j), dk_journal_digest := x\<rparr>)"
    if "restore_disk w i c0 r d" "restoring w i c0 r j d" "G j d" for d j x
  proof -
    have "restoring w i c0 r (f j) d" and e: "jn_expected_active_digest (f j) = jn_expected_active_digest j"
        "jn_completed (f j) = jn_completed j"
      using f that(2) by (simp_all add: minor_def)
    moreover have "G (f j) (d\<lparr>dk_journal := Some (f j), dk_journal_digest := x\<rparr>)"
      by (rule about_filesD [OF G that(3) e]) simp_all
    ultimately show ?thesis using restore_journal_written [OF that(1)] by simp
  qed
  then show ?thesis
    by (simp add: steady_def triple_def restore_at_def wpc_bind wpc_recall write_journal_def wpc_look wpc_put wpc_ret)
qed

section \<open>A restore passes through these disks only\<close>

abbreviation any_disk :: "journal \<Rightarrow> 'c disk \<Rightarrow> bool" where
  "any_disk \<equiv> \<lambda>_ _. True"

lemma restore_at_weaken: "restore_at w i c0 r G m \<Longrightarrow> (\<And>j d. G j d \<Longrightarrow> H j d) \<Longrightarrow> restore_at w i c0 r H m"
  by (simp add: restore_at_def)

lemma restore_at_any: "restore_at w i c0 r G m \<Longrightarrow> restore_at w i c0 r any_disk m"
  by (simp add: restore_at_def)

lemma about_any: "about_files any_disk"
  by (simp add: about_files_def)

text \<open>A write that leaves the journal, and after which the files still fit.\<close>

lemma steady_restore_put:
  assumes G: "\<And>j d. G j d \<Longrightarrow> restoring w i c0 r j d \<Longrightarrow> H j (f d)"
    and fits: "\<And>j k d. G j d \<Longrightarrow> restoring w i c0 r k d \<Longrightarrow> restoring w i c0 r k (f d)"
    and journal: "\<And>d. dk_journal (f d) = dk_journal d"
  shows "triple (restore_disk w i c0 r) (restore_at w i c0 r G) (put f) (\<lambda>_. restore_at w i c0 r H) E"
  using assms by (fastforce simp: triple_def wpc_put restore_at_def restore_disk_def)

lemma steady_restore_record:
  assumes G: "about_files G"
  shows "steady (restore_disk w i c0 r) (restore_at w i c0 r G) (record_backup w n k v l)"
proof -
  have put: "steady (restore_disk w i c0 r) (restore_at w i c0 r G) (put f)"
    if f: "\<And>d. dk_database (f d) = dk_database d \<and> dk_migration (f d) = dk_migration d \<and> dk_backups (f d) = dk_backups d
      \<and> dk_journal (f d) = dk_journal d" for f
    unfolding steady_def
  proof (rule steady_restore_put)
    show "G j (f d)" if "G j d" for j d by (rule about_filesD [OF G that refl refl]) (use f in simp_all)
    show "restoring w i c0 r k (f d)" if "restoring w i c0 r k d" for k d
      using that f [of d] restoring_cong [of "f d" d i w c0 r k] by simp
  qed (use f in simp)
  then show ?thesis unfolding record_backup_def Let_def by (intro steady_rules put) simp_all
qed

lemma steady_restore_phase:
  "about_files G \<Longrightarrow> \<not> offers p \<Longrightarrow> steady (restore_disk w i c0 r) (restore_at w i c0 r G) (set_phase w p)"
  unfolding set_phase_def by (rule triple_restore_write, assumption, rule minorI) simp_all

lemma steady_restore_failure:
  "steady (restore_disk w i c0 r) (restore_at w i c0 r any_disk) (record_failure w e)"
  unfolding record_failure_def
  by (rule steady_bind, rule triple_restore_write [OF about_any], rule minorI) (simp_all add: steady_show_journal offers_def)

text \<open>The assertions along a restore of the backup \<open>b\<close>, whose content is \<open>c\<close>.\<close>

definition clean_start :: "'c world \<Rightarrow> string \<Rightarrow> 'c \<Rightarrow> string \<Rightarrow> 'c \<Rightarrow> journal \<Rightarrow> 'c disk \<Rightarrow> bool" where
  "clean_start w i c0 b c j d \<longleftrightarrow> dk_database d = Some c0 \<and> dk_migration d (rollback_file i) = None
     \<and> dk_backups d b = Some c \<and> isl (verify_head w (dk_migration d (restore_staging i))) \<and> \<not> jn_completed j"

definition safe_start :: "'c world \<Rightarrow> string \<Rightarrow> 'c \<Rightarrow> string \<Rightarrow> 'c \<Rightarrow> journal \<Rightarrow> 'c disk \<Rightarrow> bool" where
  "safe_start w i c0 b c j d \<longleftrightarrow> clean_start w i c0 b c j d \<and> dk_backups d (pre_restore i) \<noteq> None"

definition staged :: "'c world \<Rightarrow> string \<Rightarrow> 'c \<Rightarrow> 'c \<Rightarrow> journal \<Rightarrow> 'c disk \<Rightarrow> bool" where
  "staged w i c0 r j d \<longleftrightarrow> dk_database d = Some c0 \<and> dk_migration d (rollback_file i) = None
     \<and> dk_migration d (restore_staging i) = Some r \<and> dk_backups d (pre_restore i) \<noteq> None"

definition armed :: "'c world \<Rightarrow> string \<Rightarrow> 'c \<Rightarrow> 'c \<Rightarrow> journal \<Rightarrow> 'c disk \<Rightarrow> bool" where
  "armed w i c0 r j d \<longleftrightarrow> staged w i c0 r j d \<and> \<not> isl (verify_head w (Some r)) \<and> \<not> jn_completed j
     \<and> jn_expected_active_digest j = Some (digest_of w r)"

lemma about_stages:
  "about_files (clean_start w i c0 b c)" "about_files (safe_start w i c0 b c)" "about_files (armed w i c0 r)"
  by (simp_all add: about_files_def clean_start_def safe_start_def staged_def armed_def)

lemma safety_still_old:
  assumes "clean_start w i c0 b c j d" "restoring w i c0 r k d" "b \<noteq> pre_restore i"
  shows "restoring w i c0 r k (set_backup (pre_restore i) x d)" "clean_start w i c0 b c j (set_backup (pre_restore i) x d)"
  using assms
  by (auto simp: clean_start_def restoring_def still_old_def in_between_def now_restored_def set_backup_def)

lemma staging_still_old:
  assumes d: "safe_start w i c0 b c j d" "restoring w i c0 r k d"
    and x: "isl (verify_head w x) \<or> x = Some r"
  shows "restoring w i c0 r k (set_migration (restore_staging i) x d)"
proof -
  have n: "rollback_file i \<noteq> restore_staging i" using staging_names(3) [OF is_stagingI(3)] .
  have "still_old w i c0 r (set_migration (restore_staging i) x d)"
    using d x n by (auto simp: safe_start_def clean_start_def still_old_def set_migration_def)
  moreover have "now_restored w r (set_migration (restore_staging i) x d) = now_restored w r d"
    by (simp add: now_restored_def set_migration_def)
  moreover have "\<not> in_between i c0 d" using d by (simp add: safe_start_def clean_start_def in_between_def)
  ultimately show ?thesis using d(2) unfolding restoring_def by auto
qed

lemma steady_restore_safety:
  assumes b: "b \<noteq> pre_restore i"
  shows "triple (restore_disk w i c0 r) (restore_at w i c0 r (clean_start w i c0 b c)) (restore_safety w i)
    (\<lambda>_. restore_at w i c0 r (safe_start w i c0 b c)) (restore_at w i c0 r any_disk)"
proof -
  let ?I = "restore_disk w i c0 r" let ?C = "restore_at w i c0 r (clean_start w i c0 b c)"
  let ?S = "restore_at w i c0 r (safe_start w i c0 b c)" let ?A = "restore_at w i c0 r any_disk"
  have put: "steady ?I ?C (put (set_backup (pre_restore i) x))" for x
    unfolding steady_def
    by (rule steady_restore_put)
       (blast intro: safety_still_old [OF _ _ b], blast intro: safety_still_old [OF _ _ b], simp add: set_backup_def)
  have copy: "steady ?I ?C (online_backup w (set_backup (pre_restore i)) None s)" for s
    unfolding online_backup_def by (intro steady_rules put)
  have catalogued: "triple ?I ?S (if vf_manifest_digest v \<noteq> g then fail x else record_backup w n i v l) (\<lambda>_. ?S) ?A" for v g x n l
    by (intro steady_triple steady_rules steady_restore_record about_stages restore_at_any)
  have check: "triple ?I ?C (look (\<lambda>_ d. bind_act (lift (verify_head w (dk_backups d (pre_restore i)))) (\<lambda>v.
      if vf_manifest_digest v \<noteq> g then fail x else record_backup w n i v l))) (\<lambda>_. ?S) ?A" for g x n l
  proof (rule triple_look, rule triple_bind)
    fix j d v
    show "triple ?I (\<lambda>m. ?C m \<and> mc_mem m = j \<and> mc_disk m = d) (lift (verify_head w (dk_backups d (pre_restore i)))) (\<lambda>_. ?S) ?A"
      by (rule triple_lift) (auto simp: restore_at_def safe_start_def dest: verified_present)
  qed (rule catalogued)
  have reading: "triple ?I ?C (lift y) (\<lambda>_. ?C) ?A" for y :: "(data_error, database_verification) result"
    by (rule steady_triple [OF steady_done(3)], erule restore_at_any)
  have copying: "triple ?I ?C (online_backup w (set_backup (pre_restore i)) None s) (\<lambda>_. ?C) ?A" for s
    by (rule steady_triple [OF copy], erule restore_at_any)
  have inner: "triple ?I ?C (bind_act (lift y) (\<lambda>v. bind_act (online_backup w (set_backup (pre_restore i)) None s) (\<lambda>_.
      look (\<lambda>_ d. bind_act (lift (verify_head w (dk_backups d (pre_restore i)))) (\<lambda>u.
      if vf_manifest_digest u \<noteq> vf_manifest_digest v then fail x else record_backup w n i u l))))) (\<lambda>_. ?S) ?A"
      for y :: "(data_error, database_verification) result" and s x n l
    by (rule triple_bind [OF reading], rule triple_bind [OF copying], rule check)
  show ?thesis
    unfolding restore_safety_def Let_def by (rule triple_look, rule triple_weaken [OF inner]) simp_all
qed

lemma verify_digest:
  "verify_database w e (Some c) = Inr v \<Longrightarrow> vf_sha256 v = digest_of w c \<and> vf_manifest_digest v = df_manifest_digest (wd_facts w c)"
  by (auto simp: verify_database_def digest_of_def Let_def split: if_splits)

text \<open>The staging copy of the backup, checked, is what the journal then expects.\<close>

definition copied :: "'c world \<Rightarrow> string \<Rightarrow> 'c \<Rightarrow> 'c \<Rightarrow> journal \<Rightarrow> 'c disk \<Rightarrow> bool" where
  "copied w i c0 r j d \<longleftrightarrow> staged w i c0 r j d \<and> \<not> jn_completed j"

lemma triple_restore_copy:
  assumes r: "r = wd_copy w c" and torn: "isl (verify_head w (Some (wd_torn w c)))"
  shows "triple (restore_disk w i c0 r) (restore_at w i c0 r (safe_start w i c0 b c))
    (online_backup w (set_migration (restore_staging i)) p (Some c))
    (\<lambda>_. restore_at w i c0 r (copied w i c0 r)) (restore_at w i c0 r any_disk)"
proof -
  let ?I = "restore_disk w i c0 r" let ?S = "restore_at w i c0 r (safe_start w i c0 b c)"
  let ?A = "restore_at w i c0 r any_disk" let ?st = "restore_staging i"
  have n: "rollback_file i \<noteq> ?st" using staging_names(3) [OF is_stagingI(3)] .
  have missing: "isl (verify_head w None)" by (simp add: verify_database_def)
  have keep: "steady ?I ?S (put (set_migration ?st x))" if x: "isl (verify_head w x)" for x
    unfolding steady_def
  proof (rule steady_restore_put)
    show "safe_start w i c0 b c j (set_migration ?st x d)" if "safe_start w i c0 b c j d" for j d
      using that x n by (simp add: safe_start_def clean_start_def set_migration_def)
    show "restoring w i c0 r k (set_migration ?st x d)" if "safe_start w i c0 b c j d" "restoring w i c0 r k d" for j k d
      using that x by (blast intro: staging_still_old)
  qed (simp add: set_migration_def)
  have whole: "triple ?I ?S (put (set_migration ?st (Some r))) (\<lambda>_. restore_at w i c0 r (copied w i c0 r)) ?A"
  proof (rule steady_restore_put)
    show "copied w i c0 r j (set_migration ?st (Some r) d)" if "safe_start w i c0 b c j d" for j d
      using that n by (simp add: safe_start_def clean_start_def copied_def staged_def set_migration_def)
    show "restoring w i c0 r k (set_migration ?st (Some r) d)" if "safe_start w i c0 b c j d" "restoring w i c0 r k d" for j k d
      using that by (blast intro: staging_still_old)
  qed (simp add: set_migration_def)
  have hook: "steady ?I ?S (case p of None \<Rightarrow> ret ()
      | Some point \<Rightarrow> only_if (wd_hook w point) (in_turn [put (set_migration ?st None), fail ''injected_failure'']))"
    by (intro steady_rules keep missing)
  have reading: "triple ?I (restore_at w i c0 r (copied w i c0 r)) (lift y) (\<lambda>_. restore_at w i c0 r (copied w i c0 r)) ?A"
    for y :: "(data_error, database_verification) result"
    by (rule steady_triple [OF steady_done(3)], erule restore_at_any)
  show ?thesis
    unfolding online_backup_def option.case r [symmetric]
    by (rule triple_bind [OF triple_begin [OF keep triple_begin [OF keep triple_begin [OF hook triple_last [OF whole]]]] reading])
       (simp_all add: missing torn restore_at_any)
qed

lemma restore_staged_armed:
  assumes r: "r = wd_copy w c" and torn: "isl (verify_head w (Some (wd_torn w c)))"
  shows "triple (restore_disk w i c0 r) (restore_at w i c0 r (safe_start w i c0 b c)) (restore_staged w i b v)
    (\<lambda>_. restore_at w i c0 r (armed w i c0 r)) (restore_at w i c0 r any_disk)"
  unfolding restore_staged_def Let_def
proof (rule triple_look)
  fix j d
  let ?I = "restore_disk w i c0 r" let ?S = "restore_at w i c0 r (safe_start w i c0 b c)"
  let ?C = "restore_at w i c0 r (copied w i c0 r)" let ?A = "restore_at w i c0 r any_disk"
  let ?check = "look (\<lambda>_ d. bind_act (lift (verify_head w (dk_migration d (restore_staging i)))) (\<lambda>x.
     if vf_manifest_digest x \<noteq> vf_manifest_digest v then fail ''restore_mismatch'' else expect x))"
  have check: "triple ?I ?C ?check (\<lambda>_. restore_at w i c0 r (armed w i c0 r)) ?A"
  proof (rule triple_look, rule triple_bind)
    fix j d x
    let ?V = "\<lambda>x m. ?C m \<and> verify_head w (Some r) = Inr x"
    show "triple ?I (\<lambda>m. ?C m \<and> mc_mem m = j \<and> mc_disk m = d) (lift (verify_head w (dk_migration d (restore_staging i)))) ?V ?A"
      by (rule triple_lift) (auto simp: restore_at_def copied_def staged_def)
    have "triple ?I (?V x) (expect x) (\<lambda>_. restore_at w i c0 r (armed w i c0 r)) ?A"
      using verify_digest [of w "Some schema_head" r x]
      by (auto simp: triple_def expect_def wpc_recall restore_at_def armed_def copied_def staged_def restoring_def
          restore_named_def still_old_def in_between_def)
    moreover have "triple ?I (?V x) (fail y :: ('a, unit) data_act) (\<lambda>_. restore_at w i c0 r (armed w i c0 r)) ?A" for y
      by (auto simp: fail_def intro: triple_raise restore_at_any)
    ultimately show "triple ?I (?V x) (if vf_manifest_digest x \<noteq> vf_manifest_digest v then fail ''restore_mismatch'' else expect x)
       (\<lambda>_. restore_at w i c0 r (armed w i c0 r)) ?A" by (intro either_way)
  qed
  show "triple ?I (\<lambda>m. ?S m \<and> mc_mem m = j \<and> mc_disk m = d)
     (bind_act (online_backup w (set_migration (restore_staging i)) (Some ''during_restore'') (dk_backups d b)) (\<lambda>_. ?check))
     (\<lambda>_. restore_at w i c0 r (armed w i c0 r)) ?A"
  proof (cases "dk_backups d b = Some c")
    case True
    show ?thesis unfolding True
      by (rule triple_weaken [OF triple_bind [OF triple_restore_copy [OF r torn, where b = b] check]]) simp_all
  next
    case False
    then have "\<not> (?S m \<and> mc_disk m = d)" for m by (auto simp: restore_at_def safe_start_def clean_start_def)
    then show ?thesis unfolding triple_def by blast
  qed
qed

text \<open>The journal that allows a rollback is on disk; the database has moved; the restored one is in.\<close>

definition poised :: "'c world \<Rightarrow> string \<Rightarrow> 'c \<Rightarrow> 'c \<Rightarrow> journal \<Rightarrow> 'c disk \<Rightarrow> bool" where
  "poised w i c0 r j d \<longleftrightarrow> armed w i c0 r j d \<and> jn_rollback_name j = Some (rollback_file i)
     \<and> (\<forall>k. dk_journal d = Some k \<longrightarrow> jn_rollback_name k = Some (rollback_file i)
          \<and> jn_expected_active_digest k = Some (digest_of w r) \<and> \<not> jn_completed k)"

definition halfway :: "'c world \<Rightarrow> string \<Rightarrow> 'c \<Rightarrow> 'c \<Rightarrow> journal \<Rightarrow> 'c disk \<Rightarrow> bool" where
  "halfway w i c0 r j d \<longleftrightarrow> in_between i c0 d \<and> dk_migration d (restore_staging i) = Some r
     \<and> \<not> isl (verify_head w (Some r)) \<and> jn_expected_active_digest j = Some (digest_of w r)
     \<and> (\<forall>k. dk_journal d = Some k \<longrightarrow> jn_expected_active_digest k = Some (digest_of w r))"

definition in_place :: "'c world \<Rightarrow> 'c \<Rightarrow> journal \<Rightarrow> 'c disk \<Rightarrow> bool" where
  "in_place w r j d \<longleftrightarrow> now_restored w r d \<and> jn_expected_active_digest j = Some (digest_of w r)"

lemma about_in_place: "about_files (in_place w r)"
  by (simp add: about_files_def in_place_def now_restored_def)

lemma triple_poised:
  "triple (restore_disk w i c0 r) (restore_at w i c0 r (armed w i c0 r))
    (in_turn [recall (\<lambda>j. j\<lparr>jn_rollback_name := Some (rollback_file (jn_operation_id j))\<rparr>), write_journal w])
    (\<lambda>_. restore_at w i c0 r (poised w i c0 r)) E"
proof -
  let ?f = "\<lambda>j. j\<lparr>jn_rollback_name := Some (rollback_file (jn_operation_id j))\<rparr>"
  have f: "minor w i c0 r ?f" by (rule minorI) (simp_all add: restore_named_def)
  have "restore_disk w i c0 r (d\<lparr>dk_journal := Some (?f j)\<rparr>) \<and> restore_disk w i c0 r (d\<lparr>dk_journal := Some (?f j), dk_journal_digest := x\<rparr>)
     \<and> restoring w i c0 r (?f j) (d\<lparr>dk_journal := Some (?f j), dk_journal_digest := x\<rparr>)
     \<and> poised w i c0 r (?f j) (d\<lparr>dk_journal := Some (?f j), dk_journal_digest := x\<rparr>)"
    if d: "restore_disk w i c0 r d" "restoring w i c0 r j d" "armed w i c0 r j d" for d j x
  proof -
    have j: "restoring w i c0 r (?f j) d" using f d(2) by (simp add: minor_def)
    have "jn_operation_id j = i" using d(2) by (simp add: restoring_def restore_named_def)
    then have "poised w i c0 r (?f j) (d\<lparr>dk_journal := Some (?f j), dk_journal_digest := x\<rparr>)"
      using d(3) by (simp add: poised_def armed_def staged_def)
    then show ?thesis using j restore_journal_written [OF d(1) j] by simp
  qed
  then show ?thesis
    by (simp add: triple_def restore_at_def wpc_bind wpc_recall write_journal_def wpc_look wpc_put wpc_ret)
qed

lemma triple_restore_leave:
  "triple (restore_disk w i c0 r) (restore_at w i c0 r (poised w i c0 r))
    (look (\<lambda>j _. move_database_to (rollback_file (jn_operation_id j))))
    (\<lambda>_. restore_at w i c0 r (halfway w i c0 r)) E"
proof -
  have n: "rollback_file i \<noteq> restore_staging i" using staging_names(3) [OF is_stagingI(3)] .
  have "restore_at w i c0 r (halfway w i c0 r) (m\<lparr>mc_disk := database_moved (rollback_file i) c0 (mc_disk m)\<rparr>)
     \<and> dk_database (mc_disk m) = Some c0 \<and> jn_operation_id (mc_mem m) = i"
    if m: "restore_at w i c0 r (poised w i c0 r) m" for m
  proof -
    let ?e = "database_moved (rollback_file i) c0 (mc_disk m)"
    obtain k where k: "dk_journal (mc_disk m) = Some k" "restoring w i c0 r k (mc_disk m)"
      using m unfolding restore_at_def restore_disk_def by blast
    have p: "poised w i c0 r (mc_mem m) (mc_disk m)" and j: "restoring w i c0 r (mc_mem m) (mc_disk m)"
      using m by (simp_all add: restore_at_def)
    have mid: "in_between i c0 ?e" by (simp add: in_between_def)
    have named: "restore_named i k" "restore_named i (mc_mem m)" using k(2) j by (simp_all add: restoring_def)
    have "restoring w i c0 r k ?e" "restoring w i c0 r (mc_mem m) ?e"
      using named mid p k(1) unfolding restoring_def poised_def armed_def by auto
    moreover have "halfway w i c0 r (mc_mem m) ?e"
      using p k(1) mid n by (simp add: halfway_def poised_def armed_def staged_def)
    moreover have "dk_database (mc_disk m) = Some c0" using p by (simp add: poised_def armed_def staged_def)
    moreover have "jn_operation_id (mc_mem m) = i" using named(2) by (simp add: restore_named_def)
    ultimately show ?thesis using k(1) by (simp add: restore_at_def restore_disk_def)
  qed
  then show ?thesis
    by (fastforce simp: triple_def move_database_to_def wpc_look wpc_put database_moved_def [symmetric] restore_at_def)
qed

lemma triple_restore_move_in:
  "triple (restore_disk w i c0 r) (restore_at w i c0 r (halfway w i c0 r)) (move_staging_in (restore_staging i))
    (\<lambda>_. restore_at w i c0 r (in_place w r)) E"
proof -
  have "restore_at w i c0 r (in_place w r) (m\<lparr>mc_disk := moved_in (restore_staging i) r (mc_disk m)\<rparr>)
     \<and> dk_migration (mc_disk m) (restore_staging i) = Some r"
    if m: "restore_at w i c0 r (halfway w i c0 r) m" for m
  proof -
    let ?e = "moved_in (restore_staging i) r (mc_disk m)"
    obtain k where k: "dk_journal (mc_disk m) = Some k" "restoring w i c0 r k (mc_disk m)"
      using m unfolding restore_at_def restore_disk_def by blast
    have h: "halfway w i c0 r (mc_mem m) (mc_disk m)" and j: "restoring w i c0 r (mc_mem m) (mc_disk m)"
      using m by (simp_all add: restore_at_def)
    have now: "now_restored w r ?e" using h by (simp add: now_restored_def halfway_def)
    have named: "restore_named i k" "restore_named i (mc_mem m)" using k(2) j by (simp_all add: restoring_def)
    have "restoring w i c0 r k ?e" "restoring w i c0 r (mc_mem m) ?e"
      using named now h k(1) unfolding restoring_def halfway_def by auto
    then show ?thesis using k(1) now h by (simp add: restore_at_def restore_disk_def in_place_def halfway_def)
  qed
  then show ?thesis
    by (fastforce simp: triple_def move_staging_in_def staged_file_def wpc_bind wpc_look wpc_put wpc_ret
        moved_in_def [symmetric] restore_at_def)
qed

lemma triple_restore_replace:
  "triple (restore_disk w i c0 r) (restore_at w i c0 r (armed w i c0 r)) (replace_active w (restore_staging i))
    (\<lambda>_. restore_at w i c0 r (in_place w r)) (restore_at w i c0 r any_disk)"
proof -
  let ?I = "restore_disk w i c0 r" let ?A = "restore_at w i c0 r any_disk"
  let ?P = "\<lambda>G. restore_at w i c0 r (G w i c0 r)" let ?D = "restore_at w i c0 r (in_place w r)"
  have phase: "triple ?I (?P armed) (set_phase w Activation_pending) (\<lambda>_. ?P armed) ?A"
    by (rule steady_triple [OF steady_restore_phase [OF about_stages(3)]], simp add: offers_def, erule restore_at_any)
  have safety: "triple ?I (?P armed) (look (\<lambda>j d. bind_act (lift (verify_head w (dk_database d))) (\<lambda>active.
      safety_copy w (jn_operation_id j)
        (case jn_safety_backup_name j of None \<Rightarrow> pre_replacement (jn_operation_id j) | Some n \<Rightarrow> n) active)))
      (\<lambda>_. ?P armed) ?A"
    by (auto simp: triple_def wpc_look wpc_bind wpc_lift wpc_ret safety_copy_def restore_at_def armed_def staged_def
        restoring_def restore_named_def split: sum.splits)
  have keep: "triple ?I (restore_at w i c0 r G) p (\<lambda>_. restore_at w i c0 r G) ?A"
    if "steady ?I (restore_at w i c0 r G) p" for G and p :: "('a, unit) data_act"
    using that by (rule steady_triple) (erule restore_at_any)
  have inject: "triple ?I (restore_at w i c0 r G) (inject w x) (\<lambda>_. restore_at w i c0 r G) ?A" for G x
    by (rule keep [OF steady_inject])
  have found: "triple ?I (restore_at w i c0 r G) (bind_act (staged_file n) (\<lambda>_. ret ())) (\<lambda>_. restore_at w i c0 r G) ?A" for G n
    by (rule keep) (intro steady_rules)
  have poised: "triple ?I (?P armed) (in_turn (recall (\<lambda>j. j\<lparr>jn_rollback_name := Some (rollback_file (jn_operation_id j))\<rparr>)
      # write_journal w # ps)) Q ?A" if "triple ?I (?P poised) (in_turn ps) Q ?A" for ps Q
    by (rule triple_pair [OF triple_poised that])
  have activated: "triple ?I ?D (in_turn (recall (\<lambda>j. j\<lparr>jn_activated := True\<rparr>) # write_journal w # ps)) Q ?A"
    if "triple ?I ?D (in_turn ps) Q ?A" for ps Q
  proof (rule triple_pair [OF _ that], rule steady_triple)
    show "steady ?I ?D (in_turn [recall (\<lambda>j. j\<lparr>jn_activated := True\<rparr>), write_journal w])"
      by (rule triple_restore_write [OF about_in_place], rule minorI) (simp_all add: restore_named_def)
  qed (rule restore_at_any)
  have verified: "triple ?I ?D (in_turn [post_activation w]) (\<lambda>_. ?D) ?A"
    by (rule triple_last [OF keep [OF steady_post_activation]])
  show ?thesis
    unfolding replace_active_def
    by (rule triple_turn [OF phase] triple_turn [OF safety] poised triple_turn [OF inject] triple_turn [OF found]
        triple_turn [OF triple_restore_leave] triple_turn [OF triple_restore_move_in] activated verified)+
qed

text \<open>A completed journal goes with the restored database only.\<close>

lemma steady_restore_complete:
  assumes p: "\<not> offers p"
  shows "steady (restore_disk w i c0 r) (restore_at w i c0 r (in_place w r)) (complete w p)"
proof -
  let ?f = "\<lambda>j. j\<lparr>jn_phase := p, jn_completed := True, jn_recoverable := False, jn_failure_code := None\<rparr>"
  let ?D = "restore_at w i c0 r (in_place w r)"
  have "restore_disk w i c0 r (d\<lparr>dk_journal := Some (?f j)\<rparr>) \<and> restore_disk w i c0 r (d\<lparr>dk_journal := Some (?f j), dk_journal_digest := x\<rparr>)
     \<and> restoring w i c0 r (?f j) (d\<lparr>dk_journal := Some (?f j), dk_journal_digest := x\<rparr>)
     \<and> in_place w r (?f j) (d\<lparr>dk_journal := Some (?f j), dk_journal_digest := x\<rparr>)"
    if d: "restore_disk w i c0 r d" "restoring w i c0 r j d" "in_place w r j d" for d j x
  proof -
    have j: "restoring w i c0 r (?f j) d"
      using d(2,3) p by (simp add: restoring_def restore_named_def in_place_def)
    have "in_place w r (?f j) (d\<lparr>dk_journal := Some (?f j), dk_journal_digest := x\<rparr>)"
      using d(3) by (simp add: in_place_def now_restored_def)
    then show ?thesis using j restore_journal_written [OF d(1) j] by simp
  qed
  then have "steady (restore_disk w i c0 r) ?D (in_turn [recall ?f, write_journal w])"
    by (simp add: steady_def triple_def restore_at_def wpc_bind wpc_recall write_journal_def wpc_look wpc_put wpc_ret)
  then show ?thesis unfolding complete_def by (rule steady_bind) (rule steady_show_journal)
qed

lemma restore_disks:
  assumes d: "dk_database d0 = Some c0" "dk_backups d0 b = Some c" "b \<noteq> pre_restore i" "unmoved d0 i"
      "dk_migration d0 (restore_staging i) = None"
    and torn: "isl (verify_head w (Some (wd_torn w c)))"
  shows "triple (restore_disk w i c0 (wd_copy w c)) (\<lambda>m. mc_disk m = d0) (restore w i b)
    (\<lambda>_. restore_at w i c0 (wd_copy w c) any_disk) (restore_at w i c0 (wd_copy w c) any_disk)"
proof -
  let ?r = "wd_copy w c" let ?I = "restore_disk w i c0 ?r" let ?A = "restore_at w i c0 ?r any_disk"
  let ?C = "restore_at w i c0 ?r (clean_start w i c0 b c)" let ?D = "restore_at w i c0 ?r (in_place w ?r)"
  let ?S = "restore_at w i c0 ?r (armed w i c0 ?r)"
  have missing: "isl (verify_head w None)" by (simp add: verify_database_def)
  have "restoring w i c0 ?r (restore_journal i b) (d0\<lparr>dk_journal := x, dk_journal_digest := y\<rparr>)"
      "restoring w i c0 ?r (restore_journal i b) (d0\<lparr>dk_journal := x\<rparr>)"
      "clean_start w i c0 b c (restore_journal i b) (d0\<lparr>dk_journal := x, dk_journal_digest := y\<rparr>)" for x y
    using d missing by (simp_all add: restoring_def restore_named_def restore_journal_def blank_journal_def still_old_def
        unmoved_def clean_start_def offers_def)
  then have new: "triple ?I (\<lambda>m. mc_disk m = d0) (new_journal w (restore_journal i b)) (\<lambda>_. ?C) ?A"
    by (simp add: triple_def new_journal_def write_journal_def wpc_bind wpc_recall wpc_look wpc_put wpc_ret
        restore_at_def restore_disk_def)
  have phase: "triple ?I ?C (set_phase w Restore_in_progress) (\<lambda>_. ?C) ?A"
    by (rule steady_triple [OF steady_restore_phase [OF about_stages(1)]], simp add: offers_def, erule restore_at_any)
  have copies: "triple ?I ?C (look (\<lambda>_ d. bind_act (lift (verify_head w (dk_backups d b))) (\<lambda>v.
      in_turn [restore_safety w i, restore_staged w i b v]))) (\<lambda>_. ?S) ?A"
  proof (rule triple_look, rule triple_bind)
    fix j d v
    show "triple ?I (\<lambda>m. ?C m \<and> mc_mem m = j \<and> mc_disk m = d) (lift (verify_head w (dk_backups d b))) (\<lambda>_. ?C) ?A"
      by (rule triple_lift) (auto simp: restore_at_def)
    show "triple ?I ?C (in_turn [restore_safety w i, restore_staged w i b v]) (\<lambda>_. ?S) ?A"
      by (rule triple_turn [OF steady_restore_safety [OF d(3)] triple_last [OF restore_staged_armed [OF refl torn]]])
  qed
  have body: "triple ?I ?C (in_turn [set_phase w Restore_in_progress,
      look (\<lambda>_ d. bind_act (lift (verify_head w (dk_backups d b))) (\<lambda>v.
        in_turn [restore_safety w i, restore_staged w i b v])), replace_active w (restore_staging i)]) (\<lambda>_. ?D) ?A"
    by (rule triple_turn [OF phase triple_turn [OF copies triple_last [OF triple_restore_replace]]])
  have finish: "triple ?I ?D (look (\<lambda>j _. complete w Restore_complete)) (\<lambda>_. ?A) ?A"
    by (rule triple_weaken [OF steady_look [OF steady_restore_complete, unfolded steady_def]])
       (auto simp: offers_def intro: restore_at_any)
  have failed: "triple ?I ?A (record_failure w e) (\<lambda>_. ?A) ?A" for e
    using steady_restore_failure by (simp only: steady_def)
  show ?thesis
    unfolding restore_def guarded_def
    by (rule triple_bind [OF new triple_catch [OF triple_bind [OF body finish] failed]])
qed

section \<open>The next start\<close>

text \<open>The journal and the catalog of backups read back.\<close>

definition catalog_ok :: "'c world \<Rightarrow> 'c disk \<Rightarrow> bool" where
  "catalog_ok w d \<longleftrightarrow>
     (\<forall>rs. dk_catalog d = Some rs \<longrightarrow> dk_catalog_digest d = Some (wd_catalog_sha w rs) \<and> valid_catalog w rs)"

definition journal_ok :: "'c world \<Rightarrow> 'c disk \<Rightarrow> journal \<Rightarrow> bool" where
  "journal_ok w d j \<longleftrightarrow> dk_journal d = Some j \<and> dk_journal_digest d = Some (wd_journal_sha w j) \<and> valid_journal j"

definition readable :: "'c world \<Rightarrow> 'c disk \<Rightarrow> bool" where
  "readable w d \<longleftrightarrow> catalog_ok w d \<and> (\<exists>j. journal_ok w d j)"

text \<open>The next start, and the one action it offers.\<close>

definition settle :: "'c world \<Rightarrow> ('c, public_status) data_act" where
  "settle w = bind_act (prepare w) (\<lambda>s.
     if pu_phase s = Resume_available then resume w
     else if pu_phase s = Rollback_available then rollback w
     else ret s)"

abbreviation anywhere :: "'d \<Rightarrow> bool" where
  "anywhere \<equiv> \<lambda>_. True"

definition journal_view :: "'c world \<Rightarrow> journal \<Rightarrow> 'c disk \<Rightarrow> public_status" where
  "journal_view w j d =
     \<lparr>pu_phase = jn_phase j, pu_ready = (jn_completed j \<and> dk_database d \<noteq> None),
      pu_schema_revision = Some schema_head, pu_recoverable = jn_recoverable j,
      pu_resume_available = (jn_phase j = Resume_available), pu_rollback_available = (jn_rollback_name j \<noteq> None),
      pu_failure_code = jn_failure_code j, pu_activated = jn_activated j,
      pu_backup_count = Some (length (case dk_catalog d of None \<Rightarrow> [] | Some rs \<Rightarrow> rs))\<rparr>"

lemma journal_view_fields [simp]:
  "pu_phase (journal_view w j d) = jn_phase j" "pu_ready (journal_view w j d) = (jn_completed j \<and> dk_database d \<noteq> None)"
  by (simp_all add: journal_view_def)

lemma wpc_public_journal:
  "catalog_ok w (mc_disk m) \<Longrightarrow> wpc I (public_journal w j) Q m = Q (Inr (journal_view w j (mc_disk m))) m"
  by (cases "dk_catalog (mc_disk m)")
     (simp_all add: public_journal_def read_catalog_def catalog_ok_def journal_view_def wpc_bind wpc_look wpc_ret)

lemma wpc_show_journal:
  "catalog_ok w (mc_disk m) \<Longrightarrow> wpc I (show_journal w) Q m = Q (Inr (journal_view w (mc_mem m) (mc_disk m))) m"
  by (simp add: show_journal_def wpc_look wpc_public_journal)

lemma wpc_read_journal:
  "journal_ok w (mc_disk m) j \<Longrightarrow> wpc I (read_journal w) Q m = Q (Inr (Some j)) m"
  by (simp add: read_journal_def journal_ok_def wpc_look wpc_ret)

definition sealed_with :: "'c world \<Rightarrow> journal \<Rightarrow> 'c disk \<Rightarrow> 'c disk" where
  "sealed_with w j d = d\<lparr>dk_journal := Some j, dk_journal_digest := Some (wd_journal_sha w j)\<rparr>"

lemma sealed_fields [simp]:
  "dk_database (sealed_with w j d) = dk_database d" "dk_backups (sealed_with w j d) = dk_backups d"
  "dk_migration (sealed_with w j d) = dk_migration d" "catalog_ok w (sealed_with w j d) = catalog_ok w d"
  "journal_ok w (sealed_with w j d) k = (k = j \<and> valid_journal j)"
  by (auto simp: sealed_with_def catalog_ok_def journal_ok_def)

lemma catalog_ok_moved [simp]:
  "catalog_ok w (database_moved n c d) = catalog_ok w d" "catalog_ok w (moved_in n c d) = catalog_ok w d"
  by (simp_all add: catalog_ok_def database_moved_def moved_in_def set_migration_def)

lemma wpc_write_journal:
  "wpc anywhere (write_journal w) Q m = Q (Inr ()) (m\<lparr>mc_disk := sealed_with w (mc_mem m) (mc_disk m)\<rparr>)"
  by (simp add: write_journal_def wpc_look wpc_bind wpc_put wpc_ret sealed_with_def)

lemma wpc_rewrite:
  "wpc anywhere (in_turn [recall f, write_journal w]) Q m =
     Q (Inr ()) \<lparr>mc_mem = f (mc_mem m), mc_disk = sealed_with w (f (mc_mem m)) (mc_disk m)\<rparr>"
  by (cases m) (simp add: wpc_bind wpc_recall wpc_write_journal wpc_ret)

lemma wpc_complete:
  assumes "catalog_ok w (mc_disk m)"
  shows "wpc anywhere (complete w p) Q m =
    (let j = (mc_mem m)\<lparr>jn_phase := p, jn_completed := True, jn_recoverable := False, jn_failure_code := None\<rparr>;
         d = sealed_with w j (mc_disk m)
     in Q (Inr (journal_view w j d)) \<lparr>mc_mem = j, mc_disk = d\<rparr>)"
  using assms unfolding complete_def wpc_bind wpc_rewrite by (simp add: wpc_show_journal Let_def)

lemma wpc_offer:
  assumes "catalog_ok w (mc_disk m)"
  shows "wpc anywhere (offer w p) Q m =
    (let j = (mc_mem m)\<lparr>jn_phase := p, jn_recoverable := True\<rparr>; d = sealed_with w j (mc_disk m)
     in Q (Inr (journal_view w j d)) \<lparr>mc_mem = j, mc_disk = d\<rparr>)"
  using assms unfolding offer_def wpc_bind wpc_rewrite by (simp add: wpc_show_journal Let_def)

lemma wpc_recover_failure:
  assumes "catalog_ok w (mc_disk m)"
  shows "wpc anywhere (recover_failure w) Q m =
    (let j = (mc_mem m)\<lparr>jn_phase := Recoverable_failure, jn_failure_code := Some ''restart_requires_retry'', jn_recoverable := True\<rparr>;
         d = sealed_with w j (mc_disk m)
     in Q (Inr (journal_view w j d)) \<lparr>mc_mem = j, mc_disk = d\<rparr>)"
  using assms unfolding recover_failure_def wpc_bind wpc_rewrite by (simp add: wpc_show_journal Let_def)

section \<open>What the next start does\<close>

text \<open>
  The action ends normally, and either the interface is ready with the old or the restored database,
  or the old database was never moved and the operation has to be asked for again.
\<close>

definition settled :: "'c \<Rightarrow> 'c \<Rightarrow> (data_error, public_status) result \<Rightarrow> (journal, 'c disk) machine \<Rightarrow> bool" where
  "settled c0 r x m \<longleftrightarrow> (case x of Inl _ \<Rightarrow> False
     | Inr s \<Rightarrow> pu_ready s \<and> dk_database (mc_disk m) \<in> {Some c0, Some r}
         \<or> pu_phase s = Recoverable_failure \<and> dk_database (mc_disk m) = Some c0)"

lemma wpc_catch_data:
  "wpc I (catch_data p h) Q m = wpc I p (\<lambda>x m'. case x of Inr a \<Rightarrow> Q (Inr a) m'
     | Inl (Data_home_error e) \<Rightarrow> wpc I h Q m' | Inl Other_error \<Rightarrow> Q (Inl Other_error) m') m"
  unfolding catch_data_def wpc_catch
  by (rule arg_cong [where f = "\<lambda>Q. wpc I p Q m"], intro ext) (auto split: sum.splits data_error.splits simp: wpc_raise)

lemma wpc_prepare_completed:
  assumes "catalog_ok w (mc_disk m)" "journal_ok w (mc_disk m) j" "jn_completed j"
    and "\<not> isl (verify_head w (dk_database (mc_disk m)))"
  shows "wpc anywhere (prepare w) Q m = Q (Inr (journal_view w j (mc_disk m))) m"
  using assms
  by (simp add: prepare_def recover_def status_def wpc_bind wpc_read_journal wpc_look wpc_ret wpc_public_journal)

lemma wpc_prepare_interrupted:
  assumes "journal_ok w (mc_disk m) j" "\<not> jn_completed j"
  shows "wpc anywhere (prepare w) Q m = wpc anywhere (recover_active w) Q (m\<lparr>mc_mem := j\<rparr>)"
  using assms
  by (simp add: prepare_def recover_def wpc_bind wpc_read_journal wpc_ret wpc_recall)
     (rule arg_cong [where f = "\<lambda>Q. wpc anywhere (recover_active w) Q (m\<lparr>mc_mem := j\<rparr>)"], intro ext,
      simp add: wpc_ret split: sum.splits)

lemma wpc_inject: "wd_hook w = (\<lambda>_. False) \<Longrightarrow> wpc I (inject w x) Q m = Q (Inr ()) m"
  by (simp add: inject_def wpc_ret)

lemma wpc_set_phase:
  "wpc anywhere (set_phase w p) Q m =
     Q (Inr ()) \<lparr>mc_mem = (mc_mem m)\<lparr>jn_phase := p\<rparr>, mc_disk = sealed_with w ((mc_mem m)\<lparr>jn_phase := p\<rparr>) (mc_disk m)\<rparr>"
  unfolding set_phase_def by (rule wpc_rewrite)

lemma wpc_move_staging_in:
  "dk_migration (mc_disk m) n = Some c \<Longrightarrow>
     wpc anywhere (move_staging_in n) Q m = Q (Inr ()) (m\<lparr>mc_disk := moved_in n c (mc_disk m)\<rparr>)"
  by (simp add: move_staging_in_def staged_file_def wpc_bind wpc_look wpc_ret wpc_put moved_in_def)

lemma wpc_move_database_to:
  "dk_database (mc_disk m) = Some c \<Longrightarrow>
     wpc anywhere (move_database_to n) Q m = Q (Inr ()) (m\<lparr>mc_disk := database_moved n c (mc_disk m)\<rparr>)"
  by (simp add: move_database_to_def wpc_look wpc_put database_moved_def)

lemma wpc_replace_active:
  assumes h: "wd_hook w = (\<lambda>_. False)"
    and d: "dk_database (mc_disk m) = Some c0" "dk_migration (mc_disk m) n = Some r" "n \<noteq> rollback_file (jn_operation_id (mc_mem m))"
    and s: "jn_safety_backup_name (mc_mem m) = Some k" "dk_backups (mc_disk m) k \<noteq> None"
    and v: "verify_head w (Some c0) = Inr v0" "verify_head w (Some r) = Inr v"
      "jn_expected_active_digest (mc_mem m) = Some (vf_sha256 v)"
  shows "wpc anywhere (replace_active w n)
    (\<lambda>x m'. x = Inr () \<and> dk_database (mc_disk m') = Some r \<and> catalog_ok w (mc_disk m') = catalog_ok w (mc_disk m)) m"
  using assms
  by (simp add: replace_active_def wpc_bind wpc_set_phase wpc_inject wpc_look wpc_lift safety_copy_def wpc_ret wpc_recall
      wpc_write_journal staged_file_def wpc_move_database_to wpc_move_staging_in post_activation_def)

lemma verify_error: "verify_database w e f = Inl x \<Longrightarrow> \<exists>c. x = Data_home_error c"
  by (auto simp: verify_database_def Let_def split: option.splits if_splits)

lemma settled_ready [simp]:
  "settled c0 r (Inr (journal_view w j d)) m \<longleftrightarrow>
     (jn_completed j \<and> dk_database d \<noteq> None) \<and> dk_database (mc_disk m) \<in> {Some c0, Some r}
     \<or> jn_phase j = Recoverable_failure \<and> dk_database (mc_disk m) = Some c0"
  by (simp add: settled_def)

lemma wpc_guarded_complete:
  assumes p: "wpc anywhere p (\<lambda>x m'. x = Inr () \<and> dk_database (mc_disk m') = Some c \<and> catalog_ok w (mc_disk m')) m"
    and c: "c = c0 \<or> c = r"
  shows "wpc anywhere (guarded w p final) (settled c0 r) m"
  unfolding guarded_def wpc_catch wpc_bind
  by (rule wpc_mono [OF p]) (use c in \<open>auto simp: wpc_look wpc_complete Let_def\<close>)

lemma wpc_resume:
  assumes h: "wd_hook w = (\<lambda>_. False)" and j: "journal_ok w (mc_disk m) j" "catalog_ok w (mc_disk m)"
    and p: "jn_phase j = Resume_available" "restore_named i (j\<lparr>jn_phase := Confirmation_required\<rparr>)"
    and d: "still_old w i c0 r (mc_disk m)" and v: "verify_head w (Some c0) = Inr v0"
      "verify_head w (dk_migration (mc_disk m) (restore_staging i)) = Inr v"
  shows "wpc anywhere (resume w) (settled c0 r) m"
proof -
  have names: "jn_operation_id j = i" "jn_staging_name j = Some (restore_staging i)" "jn_safety_backup_name j = Some (pre_restore i)"
    using p(2) by (simp_all add: restore_named_def)
  have plain: "plain_name (restore_staging i)"
    using j(1) names(2) by (simp add: journal_ok_def valid_journal_def valid_name_def all_opt_def)
  have files: "dk_database (mc_disk m) = Some c0" "dk_migration (mc_disk m) (restore_staging i) = Some r"
      "dk_backups (mc_disk m) (pre_restore i) \<noteq> None"
    using d v(2) by (auto simp: still_old_def)
  let ?m = "m\<lparr>mc_mem := j\<lparr>jn_expected_active_digest := Some (vf_sha256 v)\<rparr>\<rparr>"
  have act: "wpc anywhere (activate w (restore_staging i))
     (\<lambda>x m'. x = Inr () \<and> dk_database (mc_disk m') = Some r \<and> catalog_ok w (mc_disk m') = catalog_ok w (mc_disk m)) ?m"
    unfolding activate_def wpc_look
    using wpc_replace_active [OF h, of ?m c0 "restore_staging i" r "pre_restore i" v0 v] files names v
      staging_names(1) [OF is_stagingI(3)] by simp
  have "wpc anywhere (guarded w (activate w (restore_staging i)) completion_phase) (settled c0 r) ?m"
    by (rule wpc_guarded_complete [where c = r], rule wpc_mono [OF act]) (simp_all add: j(2))
  then show ?thesis
    using p(1) names plain v(2)
    by (simp add: resume_def wpc_bind wpc_read_journal [OF j(1)] wpc_recall approved_artifact_def wpc_ret
        resume_staged_def wpc_look wpc_lift)
qed

lemma wpc_rollback:
  assumes h: "wd_hook w = (\<lambda>_. False)" and j: "journal_ok w (mc_disk m) j" "catalog_ok w (mc_disk m)"
    and p: "jn_rollback_name j = Some (rollback_file i)"
    and d: "in_between i c0 (mc_disk m)" and v: "verify_head w (Some c0) = Inr v0"
  shows "wpc anywhere (rollback w) (settled c0 r) m"
proof -
  have plain: "plain_name (rollback_file i)"
    using j(1) p by (simp add: journal_ok_def valid_journal_def valid_name_def all_opt_def)
  show ?thesis
    using p plain v d j(2)
    by (simp add: rollback_def wpc_bind wpc_read_journal [OF j(1)] wpc_recall approved_artifact_def wpc_ret
        rollback_from_def wpc_look wpc_lift wpc_inject [OF h] in_between_def only_if_def wpc_move_staging_in rollback_done_def
        wpc_write_journal wpc_show_journal)
qed

text \<open>The digests of the world are digests.\<close>

definition proper_digests :: "'c world \<Rightarrow> bool" where
  "proper_digests w \<longleftrightarrow> (\<forall>c. is_digest (df_sha256 (wd_facts w c)) \<and> is_digest (df_manifest_digest (wd_facts w c)))"

definition offered :: "'c world \<Rightarrow> 'c \<Rightarrow> 'c \<Rightarrow> (data_error, public_status) result \<Rightarrow> (journal, 'c disk) machine \<Rightarrow> bool" where
  "offered w c0 r x m \<longleftrightarrow> (case x of Inl e \<Rightarrow> False
     | Inr s \<Rightarrow> if pu_phase s = Resume_available then wpc anywhere (resume w) (settled c0 r) m
         else if pu_phase s = Rollback_available then wpc anywhere (rollback w) (settled c0 r) m
         else settled c0 r (Inr s) m)"

lemma wpc_settle: "wpc anywhere (prepare w) (offered w c0 r) m \<Longrightarrow> wpc anywhere (settle w) (settled c0 r) m"
  unfolding settle_def wpc_bind
  by (erule wpc_mono) (auto simp: offered_def wpc_ret split: sum.splits)

lemma offered_quiet [simp]:
  "\<not> offers (jn_phase j) \<Longrightarrow> offered w c0 r (Inr (journal_view w j d)) m = settled c0 r (Inr (journal_view w j d)) m"
  by (simp add: offered_def offers_def)

lemma wpc_recover_staging:
  assumes h: "wd_hook w = (\<lambda>_. False)" "proper_digests w" and c: "catalog_ok w (mc_disk m)"
    and j: "restore_named i (mc_mem m)" "valid_journal (mc_mem m)"
    and d: "still_old w i c0 r (mc_disk m)" and v: "verify_head w (Some c0) = Inr v0"
  shows "wpc anywhere (recover_staging w) (offered w c0 r) m"
proof -
  let ?st = "restore_staging i"
  have n: "jn_staging_name (mc_mem m) = Some ?st" using j(1) by (simp add: restore_named_def)
  have plain: "plain_name ?st" using j(2) n by (simp add: valid_journal_def valid_name_def all_opt_def)
  have old: "dk_database (mc_disk m) = Some c0" using d by (simp add: still_old_def)
  have failure: "wpc anywhere (recover_failure w) (offered w c0 r) m"
    using c old by (simp add: wpc_recover_failure Let_def offers_def)
  show ?thesis
  proof (cases "dk_migration (mc_disk m) ?st")
    case None
    then show ?thesis using n plain failure
      by (simp add: recover_staging_def wpc_look wpc_bind approved_artifact_def wpc_ret)
  next
    case (Some x)
    show ?thesis
    proof (cases "verify_head w (Some x)")
      case (Inl e)
      then obtain code where "e = Data_home_error code" using verify_error by blast
      then show ?thesis using n plain failure Some Inl
        by (simp add: recover_staging_def wpc_look wpc_bind approved_artifact_def wpc_ret wpc_catch_data wpc_lift)
    next
      case (Inr y)
      let ?j = "(mc_mem m)\<lparr>jn_expected_active_digest := Some (vf_sha256 y),
          jn_logical_manifest_digest := Some (vf_manifest_digest y), jn_phase := Resume_available, jn_recoverable := True\<rparr>"
      have valid: "valid_journal ?j"
        using j(2) h(2) verify_digest [OF Inr] by (simp add: valid_journal_def all_opt_def proper_digests_def digest_of_def)
      let ?m = "\<lparr>mc_mem = ?j, mc_disk = sealed_with w ?j (mc_disk m)\<rparr>"
      have same: "still_old w i c0 r (sealed_with w ?j (mc_disk m))" using d by (simp add: still_old_def)
      have named: "restore_named i (?j\<lparr>jn_phase := Confirmation_required\<rparr>)"
        using j(1) by (simp add: restore_named_def offers_def)
      have "wpc anywhere (resume w) (settled c0 r) ?m"
        by (rule wpc_resume [OF h(1) _ _ _ named _ v]) (use valid c same Inr Some in simp_all)
      then show ?thesis using n plain Some Inr c
        by (simp add: recover_staging_def wpc_look wpc_bind approved_artifact_def wpc_ret wpc_catch_data wpc_lift expect_def
            wpc_recall wpc_offer Let_def offered_def)
    qed
  qed
qed

lemma wpc_recover_rollback:
  assumes h: "wd_hook w = (\<lambda>_. False)" "proper_digests w" and c: "catalog_ok w (mc_disk m)"
    and j: "restore_named i (mc_mem m)" "valid_journal (mc_mem m)"
    and d: "still_old w i c0 r (mc_disk m)
      \<or> in_between i c0 (mc_disk m) \<and> jn_rollback_name (mc_mem m) = Some (rollback_file i)"
    and v: "verify_head w (Some c0) = Inr v0"
  shows "wpc anywhere (recover_rollback w) (offered w c0 r) m"
proof (cases "still_old w i c0 r (mc_disk m)")
  case True
  have "plain_name n" if "jn_rollback_name (mc_mem m) = Some n" for n
    using j(2) that by (simp add: valid_journal_def valid_name_def all_opt_def)
  moreover have "n = rollback_file i" if "jn_rollback_name (mc_mem m) = Some n" for n
    using j(1) that by (simp add: restore_named_def)
  ultimately show ?thesis
    using wpc_recover_staging [OF h c j True v] True
    by (cases "jn_rollback_name (mc_mem m)")
       (auto simp: recover_rollback_def wpc_look wpc_bind approved_artifact_def wpc_ret still_old_def)
next
  case False
  then have b: "in_between i c0 (mc_disk m)" and n: "jn_rollback_name (mc_mem m) = Some (rollback_file i)" using d by blast+
  have plain: "plain_name (rollback_file i)" using j(2) n by (simp add: valid_journal_def valid_name_def all_opt_def)
  let ?j = "(mc_mem m)\<lparr>jn_phase := Rollback_available, jn_recoverable := True\<rparr>"
  let ?m = "\<lparr>mc_mem = ?j, mc_disk = sealed_with w ?j (mc_disk m)\<rparr>"
  have valid: "valid_journal ?j" using j(2) by (simp add: valid_journal_def)
  have "wpc anywhere (rollback w) (settled c0 r) ?m"
    by (rule wpc_rollback [where j = ?j and i = i, OF h(1) _ _ _ _ v]) (use valid c b n in \<open>simp_all add: in_between_def\<close>)
  then show ?thesis using n plain b c
    by (simp add: recover_rollback_def wpc_look wpc_bind approved_artifact_def wpc_ret in_between_def wpc_offer Let_def
        offered_def)
qed

lemma wpc_recover_active:
  assumes h: "wd_hook w = (\<lambda>_. False)" "proper_digests w" and c: "catalog_ok w (mc_disk m)"
    and j: "valid_journal (mc_mem m)" "restoring w i c0 r (mc_mem m) (mc_disk m)" "\<not> jn_completed (mc_mem m)"
    and v: "verify_head w (Some c0) = Inr v0"
  shows "wpc anywhere (recover_active w) (offered w c0 r) m"
proof -
  let ?j = "mc_mem m" let ?d = "mc_disk m"
  have named: "restore_named i ?j" using j(2) by (simp add: restoring_def)
  have quiet: "\<not> offers (completion_phase ?j)" by (simp add: completion_phase_def offers_def)
  show ?thesis
  proof (cases "jn_expected_active_digest ?j = Some (digest_of w r) \<and> now_restored w r ?d")
    case True
    then obtain y where y: "verify_head w (Some r) = Inr y" "dk_database ?d = Some r"
      unfolding now_restored_def by (cases "verify_head w (Some r)") auto
    then show ?thesis using True verify_digest [OF y(1)] quiet
      by (simp add: recover_active_def wpc_look wpc_bind wpc_catch_data wpc_lift wpc_ret wpc_complete [OF c] Let_def)
  next
    case False
    then have d: "still_old w i c0 r ?d \<or> in_between i c0 ?d \<and> jn_rollback_name ?j = Some (rollback_file i)"
      using j(2) by (auto simp: restoring_def)
    have rollback: "wpc anywhere (recover_rollback w) (offered w c0 r) m"
      by (rule wpc_recover_rollback [OF h c named j(1) d v])
    show ?thesis
    proof (cases "jn_expected_active_digest ?j \<noteq> None \<and> dk_database ?d \<noteq> None")
      case True
      then have old: "dk_database ?d = Some c0" using d by (auto simp: still_old_def in_between_def)
      then show ?thesis using True v rollback quiet
        by (auto simp: recover_active_def wpc_look wpc_bind wpc_catch_data wpc_lift wpc_ret wpc_complete [OF c] Let_def)
    next
      case none: False
      then show ?thesis using rollback by (auto simp: recover_active_def wpc_look)
    qed
  qed
qed

text \<open>C4: a restore cut off at any write that leaves the journal and the catalog readable is settled by the next start and
  the one action it offers, whatever was cut off: they end normally with the interface ready on the old or the restored
  database, or, when the database had not moved and there is nothing to resume, with the old database in place.\<close>

theorem interrupted_restore_settles:
  assumes "wd_hook w = (\<lambda>_. False)" "proper_digests w" "isl (verify_head w (Some (wd_torn w c)))"
    and "dk_database (mc_disk m) = Some c0" "\<not> isl (verify_head w (Some c0))"
    and "dk_backups (mc_disk m) b = Some c" "b \<noteq> pre_restore i" "unmoved (mc_disk m) i"
      "dk_migration (mc_disk m) (restore_staging i) = None"
    and "d \<in> set (snd (snd (restore w i b m)))" "readable w d"
  shows "case settle w \<lparr>mc_mem = j, mc_disk = d\<rparr> of (x, m', t) \<Rightarrow> settled c0 (wd_copy w c) x m'"
proof -
  let ?r = "wd_copy w c"
  obtain v0 where v: "verify_head w (Some c0) = Inr v0" using assms(5) by (cases "verify_head w (Some c0)") auto
  have "wpc (restore_disk w i c0 ?r) (restore w i b) (\<lambda>_ _. True) m"
    by (rule wpc_mono [OF restore_disks [OF assms(4,6-9,3), unfolded triple_def, rule_format, OF refl]]) simp_all
  then have "restore_disk w i c0 ?r d" using assms(10) by (auto simp: wpc_def split: prod.splits)
  then obtain k where k: "dk_journal d = Some k" "restoring w i c0 ?r k d" unfolding restore_disk_def by blast
  have ok: "journal_ok w d k" "catalog_ok w d" using assms(11) k(1) by (auto simp: readable_def journal_ok_def)
  have "wpc anywhere (prepare w) (offered w c0 ?r) \<lparr>mc_mem = j, mc_disk = d\<rparr>"
  proof (cases "jn_completed k")
    case True
    then have "now_restored w ?r d" "restore_named i k" using k(2) by (simp_all add: restoring_def)
    then show ?thesis using ok True wpc_prepare_completed [of w "\<lparr>mc_mem = j, mc_disk = d\<rparr>" k]
      by (simp add: now_restored_def restore_named_def)
  next
    case False
    then show ?thesis using ok k(2) wpc_prepare_interrupted [of w "\<lparr>mc_mem = j, mc_disk = d\<rparr>" k]
        wpc_recover_active [OF assms(1,2) _ _ _ _ v, of "\<lparr>mc_mem = k, mc_disk = d\<rparr>" i ?r]
      by (simp add: journal_ok_def)
  qed
  from wpc_settle [OF this] show ?thesis by (simp add: wpc_def)
qed

section \<open>A crash between the journal and its digest\<close>

text \<open>A journal without its digest is not read, and nothing is written.\<close>

lemma journal_tampered:
  assumes "dk_journal (mc_disk m) = Some j" "dk_journal_digest (mc_disk m) \<noteq> Some (wd_journal_sha w j)"
  shows "bind_act (read_journal w) f m = (Inl (Data_home_error ''metadata_tampered''), m, [])"
  using assms by (simp add: bind_act_def read_journal_def look_def fail_def raise_def)

lemma bind_tampered:
  "p m = (Inl e, m, []) \<Longrightarrow> bind_act p f m = (Inl e, m, [])"
  by (simp add: bind_act_def)

text \<open>C23: every write of a journal whose digest differs from the one on disk passes through a disk on which starting,
  resuming and rolling back are all refused as tampered with, and change nothing: a crash at that point locks the home.\<close>

theorem torn_journal_write_locks:
  assumes "dk_journal_digest (mc_disk m) \<noteq> Some (wd_journal_sha w (mc_mem m))"
  shows "\<exists>d \<in> set (crash_disks (write_journal w) m). \<forall>r \<in> {Start, Continue, Undo}. \<forall>i j.
    perform w i r \<lparr>mc_mem = j, mc_disk = d\<rparr>
      = (Inl (Data_home_error ''metadata_tampered''), \<lparr>mc_mem = j, mc_disk = d\<rparr>, [])"
proof
  let ?d = "(mc_disk m)\<lparr>dk_journal := Some (mc_mem m)\<rparr>"
  show "?d \<in> set (crash_disks (write_journal w) m)"
    by (simp add: crash_disks_def write_journal_def look_def bind_act_def put_def ret_def)
  have locked: "bind_act (read_journal w) f \<lparr>mc_mem = j, mc_disk = ?d\<rparr>
      = (Inl (Data_home_error ''metadata_tampered''), \<lparr>mc_mem = j, mc_disk = ?d\<rparr>, [])"
    for j f
    by (rule journal_tampered) (use assms in auto)
  show "\<forall>r \<in> {Start, Continue, Undo}. \<forall>i j. perform w i r \<lparr>mc_mem = j, mc_disk = ?d\<rparr>
      = (Inl (Data_home_error ''metadata_tampered''), \<lparr>mc_mem = j, mc_disk = ?d\<rparr>, [])"
    by (auto simp: only_effects_def prepare_def recover_def resume_def rollback_def intro!: bind_tampered locked)
qed

section \<open>Examples\<close>

text \<open>A small home for the witnesses: contents are numbers, \<open>0\<close> does not open.\<close>

definition example_facts :: "nat \<Rightarrow> database_facts" where
  "example_facts c =
     \<lparr>df_readable = (c \<noteq> 0), df_integrity = True, df_foreign_keys = True, df_versions = [schema_head],
      df_tables = [''institutions'', ''accounts'', ''import_batches'', ''alembic_version''], df_size = 1,
      df_sha256 = replicate 63 CHR ''0'' @ [if c = 1 then CHR ''1'' else CHR ''2''],
      df_manifest_digest = replicate 63 CHR ''a'' @ [if c = 1 then CHR ''1'' else CHR ''2''], df_manifest_tables = []\<rparr>"

definition example_home :: "nat world" where
  "example_home =
     \<lparr>wd_facts = example_facts, wd_table = (\<lambda>_ _. []), wd_copy = (\<lambda>c. c), wd_torn = (\<lambda>_. 0),
      wd_upgrade = (\<lambda>_. ([0, 1], True)),
      wd_journal_sha = (\<lambda>j. if jn_phase j = Confirmation_required then ''c'' else ''o''),
      wd_catalog_sha = (\<lambda>_. ''k''), wd_text_sha = (\<lambda>s. s), wd_hook = (\<lambda>_. False)\<rparr>"

definition first_id :: string where "first_id = ''20260101T000000-0123456789ab''"
definition second_id :: string where "second_id = ''20260102T000000-0123456789ab''"

definition home_disk :: "nat disk" where
  "home_disk = no_files\<lparr>dk_database := Some 1, dk_backups := [''b.sqlite3'' \<mapsto> 2]\<rparr>"

lemma example_hook: "wd_hook example_home = (\<lambda>_. False)"
  by (simp add: example_home_def)

lemma example_verify:
  "c \<noteq> 0 \<Longrightarrow> verify_head example_home (Some c) = Inr
     \<lparr>vf_revision = schema_head, vf_size = 1, vf_sha256 = df_sha256 (example_facts c),
      vf_manifest_digest = df_manifest_digest (example_facts c), vf_table_count = 0\<rparr>"
  "isl (verify_head example_home (Some 0))"
  by (simp_all add: verify_database_def example_home_def example_facts_def Let_def)

lemma example_digests: "proper_digests example_home"
  unfolding proper_digests_def
  by (simp add: example_home_def example_facts_def is_digest_def is_hex_def list_all_iff)

lemma second_journal_valid: "valid_journal (restore_journal second_id ''b.sqlite3'')"
  by code_simp

lemma crash_disks_bind: "d \<in> set (snd (snd (p m))) \<Longrightarrow> d \<in> set (snd (snd (bind_act p f m)))"
  by (auto simp: bind_act_def split: prod.splits sum.splits)

theorem interrupted_restore_settles_witness:
  "let w = example_home; m = \<lparr>mc_mem = blank_journal Fresh_setup first_id, mc_disk = home_disk\<rparr>;
       d = sealed_with w (restore_journal second_id ''b.sqlite3'') home_disk
   in d \<in> set (snd (snd (restore w second_id ''b.sqlite3'' m)))
    \<and> (case settle w \<lparr>mc_mem = blank_journal Fresh_setup first_id, mc_disk = d\<rparr> of (x, m', t) \<Rightarrow> settled 1 2 x m')"
proof -
  let ?w = example_home
  let ?m = "\<lparr>mc_mem = blank_journal Fresh_setup first_id, mc_disk = home_disk\<rparr>"
  let ?d = "sealed_with ?w (restore_journal second_id ''b.sqlite3'') home_disk"
  have "?d \<in> set (snd (snd (new_journal ?w (restore_journal second_id ''b.sqlite3'') ?m)))"
    by (simp add: new_journal_def write_journal_def bind_act_def recall_def look_def put_def ret_def sealed_with_def)
  then have d: "?d \<in> set (snd (snd (restore ?w second_id ''b.sqlite3'' ?m)))"
    unfolding restore_def by (rule crash_disks_bind)
  have "catalog_ok ?w home_disk" by (simp add: catalog_ok_def home_disk_def no_files_def)
  then have r: "readable ?w ?d" using second_journal_valid by (simp add: readable_def)
  have files: "dk_database home_disk = Some 1" "dk_backups home_disk ''b.sqlite3'' = Some 2" "''b.sqlite3'' \<noteq> pre_restore second_id"
      "unmoved home_disk second_id" "dk_migration home_disk (restore_staging second_id) = None"
    by (simp_all add: home_disk_def no_files_def unmoved_def pre_restore_def)
  have torn: "isl (verify_head ?w (Some (wd_torn ?w 2)))" and copy: "wd_copy ?w 2 = 2"
    using example_verify(2) by (simp_all add: example_home_def)
  have "\<not> isl (verify_head ?w (Some 1))" using example_verify(1) [of 1] by (simp del: One_nat_def)
  from interrupted_restore_settles [where m = ?m and d = ?d and ?c0.0 = 1 and c = 2 and w = ?w and i = second_id
      and j = "blank_journal Fresh_setup first_id", OF example_hook example_digests torn _ this _ files(3)]
  have "case settle ?w \<lparr>mc_mem = blank_journal Fresh_setup first_id, mc_disk = ?d\<rparr> of (x, m', t) \<Rightarrow> settled 1 2 x m'"
    using files d r copy by simp
  then show ?thesis using d by (simp add: Let_def)
qed

theorem torn_journal_write_locks_witness:
  "\<exists>d \<in> set (crash_disks (write_journal example_home) \<lparr>mc_mem = blank_journal Migration first_id, mc_disk = no_files\<rparr>).
    \<forall>r \<in> {Start, Continue, Undo}. \<forall>i j. perform example_home i r \<lparr>mc_mem = j, mc_disk = d\<rparr>
      = (Inl (Data_home_error ''metadata_tampered''), \<lparr>mc_mem = j, mc_disk = d\<rparr>, [])"
  by (rule torn_journal_write_locks) (simp add: no_files_def)

lemma example_set_up:
  "wpc anywhere (perform example_home first_id Set_up) (\<lambda>_ m. dk_database (mc_disk m) = Some 1)
     \<lparr>mc_mem = blank_journal Fresh_setup first_id, mc_disk = no_files\<rparr>"
proof -
  have up: "wd_upgrade example_home c = ([0, 1], True)" and torn: "wd_torn example_home x = 0" for c x
    by (simp_all add: example_home_def)
  have empty: "catalog_ok example_home no_files" "dk_database (no_files :: nat disk) = None"
      "dk_migration (no_files :: nat disk) k = None" for k
    by (simp_all add: catalog_ok_def no_files_def)
  have st: "catalog_ok example_home (set_migration n x d) = catalog_ok example_home d" "dk_database (set_migration n x d) = dk_database d"
      "dk_migration (set_migration n x d) k = (if k = n then x else dk_migration d k)" for n k x and d :: "nat disk"
    by (simp_all add: catalog_ok_def set_migration_def)
  show ?thesis
    by (simp add: only_effects_def fresh_setup_def guarded_def wpc_catch wpc_bind wpc_look new_journal_def wpc_recall wpc_ret
        wpc_write_journal wpc_set_phase wpc_inject [OF example_hook] upgrade_staging_def wpc_put wpc_lift expect_def
        activate_new_def staged_file_def wpc_move_staging_in post_activation_def wpc_complete Let_def up torn
        example_verify(1) empty st)
qed

text \<open>C1: whatever sequence of setups, imports, backups, restores, restarts, resumes and rollbacks is run, each to its
  end or cut off at any write, no content the database, a rollback file or a set-aside database ever had is lost, and no
  backup file once written by a finished or interrupted operation is changed or removed.\<close>

theorem no_content_lost:
  assumes "(home_step w)\<^sup>*\<^sup>* ({}, no_files) s" "(home_step w)\<^sup>*\<^sup>* s t"
  shows "held (snd s) \<subseteq> held (snd t) \<and> dk_backups (snd s) \<subseteq>\<^sub>m dk_backups (snd t)"
proof -
  have "home_inv (fst s) (snd s)" using home_steps_sound [OF assms(1)] by (simp add: home_inv_no_files)
  then show ?thesis using home_steps_sound [OF assms(2)] by (simp add: preserved_def)
qed

theorem no_content_lost_witness:
  "\<exists>s t. (home_step example_home)\<^sup>*\<^sup>* ({}, no_files) s \<and> home_step example_home s t \<and> dk_database (snd s) = Some 1
     \<and> held (snd s) \<subseteq> held (snd t) \<and> dk_backups (snd s) \<subseteq>\<^sub>m dk_backups (snd t)"
proof -
  let ?w = example_home let ?j = "blank_journal Fresh_setup first_id"
  have ids: "is_operation_id first_id" "is_operation_id second_id" "second_id \<noteq> first_id" by code_simp+
  obtain x m t where run: "perform ?w first_id Set_up \<lparr>mc_mem = ?j, mc_disk = no_files\<rparr> = (x, m, t)"
    by (cases "perform ?w first_id Set_up \<lparr>mc_mem = ?j, mc_disk = no_files\<rparr>")
  have one: "dk_database (mc_disk m) = Some 1" using wpc_run [OF example_set_up run] .
  have s: "(home_step ?w)\<^sup>*\<^sup>* ({}, no_files) ({first_id}, mc_disk m)"
    using home_step.finished [OF _ ids(1) run, of "{}"] by (intro r_into_rtranclp) simp
  obtain y n u where next_run: "perform ?w second_id (Back_up ''manual'') \<lparr>mc_mem = ?j, mc_disk = mc_disk m\<rparr> = (y, n, u)"
    by (cases "perform ?w second_id (Back_up ''manual'') \<lparr>mc_mem = ?j, mc_disk = mc_disk m\<rparr>")
  have t: "home_step ?w ({first_id}, mc_disk m) (insert second_id {first_id}, mc_disk n)"
    by (rule home_step.finished [OF _ ids(2) next_run]) (use ids(3) in simp)
  show ?thesis using no_content_lost [OF s r_into_rtranclp [of "home_step ?w", OF t]] s t one by fastforce
qed

end
