(* ===== verification/Spec2Isabelle.thy ===== *)
theory Spec2Isabelle
  imports Schedule_Facts Housing_Facts Life_Solver Forecast_Facts Reconcile_All_Facts Recurring_Facts Plaid_Facts Plaid_Client Data_Home_Recovery
begin

text \<open>
  Money Map (Python, \<open>src/src/paycheck_map\<close>) keeps a household's paychecks, accounts and plans in a
  local SQLite database and derives schedules, allocations, forecasts and projections from them. Its
  calculations are exact: amounts are \<open>Decimal\<close> and dates are \<open>date\<close>. This development models the
  derivations and the life cycle of the database file, and proves what they promise.

  \<^bold>\<open>How the parts interact.\<close> Paychecks give the payroll schedule (\<open>payroll.py\<close>), which is split over
  the household's purposes (\<open>allocations.py\<close>). Imported transactions and balances give a balance for
  every day of every account (\<open>balances.py\<close>); they come from files or from Plaid, whose responses a
  synchronisation (\<open>plaid_service.py\<close>) stores before it reconciles; reconciliation (\<open>reconciliation.py\<close>) compares paychecks,
  deposits, transfers, balances and investments and records what does not agree. Complete months of
  activity (\<open>cash_months.py\<close>) and the schedule feed the forecast (\<open>forecasting.py\<close>) and the report of
  recurring outflows (\<open>recurring_outflow_service.py\<close>); cash flow over a period
  (\<open>cash_flow_service.py\<close>) is a report over the same transactions, and both reports satisfy the
  contracts of \<open>v21_contracts.py\<close>. The housing plan
  (\<open>housing.py\<close>) and the life plan (\<open>life_plan.py\<close>) project assumptions month by month and search for
  the least amount that works. \<open>data_home.py\<close> creates, migrates, backs up and restores the file all of
  this is kept in.

  \<^bold>\<open>The theories.\<close>
  \<^item> \<open>Prelude\<close>: results that may raise, loops that may raise, dictionaries, generic list facts.
  \<^item> \<open>Decimal_Money\<close>: \<open>decimal\<close> at the default context and \<open>money.py\<close>. An amount is an \<open>int\<close> of cents
    or a coefficient with an exponent; the roundings are interpretations of the locales \<open>rounding\<close> and
    \<open>nearest\<close>. What is stored is the nearest number of cents and reads back as itself.
  \<^item> \<open>Calendar_Dates\<close>: \<open>datetime.date\<close> as a year, month and day with ordinals, ordered.
  \<^item> \<open>Models\<close>: the rows of \<open>models.py\<close> the components read and write, one record per table.
  \<^item> \<open>Keyed_Table\<close>: rebuilding a table of derived rows (delete the stale, update the kept, insert the
    new), the locales \<open>derived_table\<close> and \<open>sorted_table\<close>; \<open>payroll.py\<close>, \<open>allocations.py\<close> and
    \<open>balances.py\<close> interpret them, which is where their idempotence comes from.
  \<^item> \<open>Apportionment\<close>, \<open>Allocations\<close>, \<open>Allocation_Facts\<close>: \<open>allocations.py\<close>; the largest-remainder split
    adds up to the cent, every itemised section of a paycheck is allocated completely, its net amount when no
    deposit overwrites another, and allocating again changes nothing.
  \<^item> \<open>Payroll_Schedule\<close>, \<open>Schedule_Facts\<close>: \<open>payroll.py\<close>; the official pay dates, the drafts between
    statements, and the schedule that reconciles with the statements.
  \<^item> \<open>Housing\<close>, \<open>Housing_Facts\<close>: \<open>housing.py\<close>; every loop ends, the saving keeps the reserve.
  \<^item> \<open>Life_Plan\<close>, \<open>Life_Facts\<close>, \<open>Life_Simulation\<close>, \<open>Life_Solver\<close>: \<open>life_plan.py\<close>; a month conserves money,
    a projection covers every month, and the doubling and halving searches find the least amount.
  \<^item> \<open>Cash_Months\<close>, \<open>Forecasting\<close>, \<open>Forecast_Facts\<close>: \<open>cash_months.py\<close> and \<open>forecasting.py\<close>.
  \<^item> \<open>Balances\<close>, \<open>Balance_Facts\<close>: \<open>balances.py\<close>; each point is the balance of its day.
  \<^item> \<open>Reconciliation\<close>, \<open>Bank_Reconciliation\<close>, \<open>Deposit_Matching\<close>, \<open>Investment_Bridges\<close> with
    \<open>Reconciliation_Facts\<close> and \<open>Reconcile_All_Facts\<close>: every pass of \<open>reconcile_all\<close>.
  \<^item> \<open>Cash_Flow_Contracts\<close>, \<open>Cash_Flow\<close>, \<open>Cash_Flow_Facts\<close>: the validators of \<open>v21_contracts.py\<close> that cash flow
    and recurring outflows need, and \<open>cash_flow_service.py\<close>; the report is built whenever its period can be
    resolved, is valid, and accounts for every transaction once.
  \<^item> \<open>Recurring_Outflows\<close>, \<open>Recurring_Facts\<close>: \<open>recurring_outflow_service.py\<close>; the candidates are exactly the
    payments that repeat, and their report is valid.
  \<^item> \<open>Plaid_Records\<close>, \<open>Plaid_Store\<close>, \<open>Plaid_Sync\<close>, \<open>Plaid_Client\<close>: \<open>plaid_records.py\<close> (reading and classifying
    responses), the store of \<open>plaid_service.py\<close> with synchronisation and revocation, and the paging of
    \<open>plaid_client.py\<close>. \<open>Plaid_Ledger\<close> views the transactions as a map through the locale \<open>keyed_store\<close>;
    \<open>Plaid_Facts\<close> shows that a synchronisation performs the changes its responses ask for, once however often
    they are delivered, keeps the evidence exact, and stores nothing when it fails. A fetched history is complete.
  \<^item> \<open>Crash_Actions\<close>, \<open>Data_Home\<close>, \<open>Data_Home_Operations\<close>, \<open>Data_Home_Facts\<close>, \<open>Data_Home_Recovery\<close>:
    \<open>data_home.py\<close> as actions on a disk that may be cut off at any write. No sequence of operations and
    crashes loses a content the database had; an interrupted restore is settled by the next start.

  \<^bold>\<open>State.\<close> A SQLAlchemy session is a record of tables, a table a list of rows in the order of their
  identifiers; an operation maps the record to the record it commits. An exception is the left side of
  a result, and nothing is then committed. The disk of \<open>data_home.py\<close> is a record of files.

  \<^bold>\<open>Bounds and fuel.\<close> \<open>Decimal\<close> arithmetic is exact while the coefficients have at most 28 digits; the
  model rounds to 28 digits where the code divides or multiplies, and keeps exact sums of cents, which
  agrees with the code below \<open>10^28\<close> cents; beyond, \<open>quantize\<close> raises (\<open>quantize_money\<close>). A negative zero, which
  \<open>Decimal\<close> has and prints, is zero cents. The theorems on reports ask for the years 1000 to 9998, amounts below
  \<open>10^27\<close> cents and fewer than \<open>10^60\<close> accounts. A paging loop makes at most 100 requests, as in the code. The theorems on \<open>life_plan.py\<close> ask for stored amounts below
  \<open>10^18\<close> cents. Its solver doubles 64 times and halves 40 times,
  as the code does; the theorems that it finds the least amount say for which results that is enough. Recursions that are not structural are guarded by the
  validity test of the function that starts them and proved to end, or proved to reach their end
  within the months given.

  \<^bold>\<open>Parameters.\<close> Digests, the requests to Plaid, the float root that turns a yearly rate into a monthly one, SQLite, Alembic and
  the clock are arguments of the definitions that use them; what is asked of them is a named
  hypothesis of the theorem, with a witness on a concrete function.

  \<^bold>\<open>Not modelled, and why.\<close> The HTTP routes, the desktop shell, configuration, secrets and release
  scripts move data and start processes, and calculate nothing of their own. The parsing of
  spreadsheets and PDFs is that of libraries outside the repository, and the import follows its output. Of
  Plaid, the link sessions, the token exchange, the keychain, the transport and the status page are left out. The
  operational goals, their contracts and the retirement lab are large reports over the tables modelled here and
  are not modelled; the read-only projections format stored rows. Of \<open>life_plan.py\<close> the
  starting point read from the database and the presentation of a plan are left out; of \<open>data_home.py\<close>
  the path, permission and symbolic link checks, and fsync. The logical manifest is a parameter.
\<close>

end
